(* ===== verification/KorwfPrelude.thy ===== *)
theory KorwfPrelude
  imports Complex_Main "HOL-Library.Char_ord" "HOL-Library.List_Lexorder" "HOL-Library.Product_Lexorder"
    "HOL-Library.Code_Target_Nat"
begin

text \<open>
  Shared vocabulary of the development: the effect type of code that reads and writes the
  store and may throw, keyed row tables, JavaScript list and string helpers, and the
  collections of facts the component theories extend.
\<close>

named_theorems eff_simps \<open>unfolding rules for effectful code\<close>
named_theorems state_defs \<open>definitions of store operations\<close>

section \<open>Effects: state passing with errors\<close>

text \<open>
  A method that may throw is a function from the world to a result and the world it leaves
  behind: \<open>Inl e\<close> is a thrown error, \<open>Inr x\<close> a returned value. The world
  after a throw is kept, because in-memory fields and the clock are not rolled back.
\<close>

type_synonym ('w, 'e, 'a) eff = "'w \<Rightarrow> ('e + 'a) \<times> 'w"

definition ret :: "'a \<Rightarrow> ('w, 'e, 'a) eff" where
  "ret x w = (Inr x, w)"

definition throw :: "'e \<Rightarrow> ('w, 'e, 'a) eff" where
  "throw e w = (Inl e, w)"

definition andThen :: "('w, 'e, 'a) eff \<Rightarrow> ('a \<Rightarrow> ('w, 'e, 'b) eff) \<Rightarrow> ('w, 'e, 'b) eff" where
  "andThen m f w = (case m w of (Inl e, w') \<Rightarrow> (Inl e, w') | (Inr x, w') \<Rightarrow> f x w')"

definition gets :: "('w \<Rightarrow> 'a) \<Rightarrow> ('w, 'e, 'a) eff" where
  "gets f w = (Inr (f w), w)"

definition modify :: "('w \<Rightarrow> 'w) \<Rightarrow> ('w, 'e, unit) eff" where
  "modify f w = (Inr (), f w)"

text \<open>A guard clause: throw unless the condition holds.\<close>

definition ensure :: "bool \<Rightarrow> ('w, 'e, unit) eff \<Rightarrow> ('w, 'e, unit) eff" where
  "ensure c m = (if c then ret () else m)"

text \<open>\<open>try m catch h\<close>: the handler runs in the world the failing body left.\<close>

definition tryCatch :: "('w, 'e, 'a) eff \<Rightarrow> ('e \<Rightarrow> ('w, 'e, 'a) eff) \<Rightarrow> ('w, 'e, 'a) eff" where
  "tryCatch m h w = (case m w of (Inl e, w') \<Rightarrow> h e w' | (Inr x, w') \<Rightarrow> (Inr x, w'))"

text \<open>A \<open>for\<close> loop over a list for its effects only.\<close>

fun forEach :: "'a list \<Rightarrow> ('a \<Rightarrow> ('w, 'e, unit) eff) \<Rightarrow> ('w, 'e, unit) eff" where
  "forEach [] f = ret ()"
| "forEach (x # xs) f = andThen (f x) (\<lambda>_. forEach xs f)"

lemma ret_apply [simp, eff_simps]: "ret x w = (Inr x, w)"
  by (simp add: ret_def)

lemma throw_apply [simp, eff_simps]: "throw e w = (Inl e, w)"
  by (simp add: throw_def)

lemma gets_apply [simp, eff_simps]: "gets f w = (Inr (f w), w)"
  by (simp add: gets_def)

lemma modify_apply [simp, eff_simps]: "modify f w = (Inr (), f w)"
  by (simp add: modify_def)

lemma andThen_Inr [simp]: "m w = (Inr x, w') \<Longrightarrow> andThen m f w = f x w'"
  by (simp add: andThen_def)

lemma andThen_Inl [simp]: "m w = (Inl e, w') \<Longrightarrow> andThen m f w = (Inl e, w')"
  by (simp add: andThen_def)

lemma andThen_eq_Inr [eff_simps]:
  "andThen m f w = (Inr y, w'') \<longleftrightarrow> (\<exists>x w'. m w = (Inr x, w') \<and> f x w' = (Inr y, w''))"
  by (auto simp: andThen_def split: prod.splits sum.splits)

lemma andThen_eq_Inl [eff_simps]:
  "andThen m f w = (Inl e, w'') \<longleftrightarrow>
     m w = (Inl e, w'') \<or> (\<exists>x w'. m w = (Inr x, w') \<and> f x w' = (Inl e, w''))"
  by (auto simp: andThen_def split: prod.splits sum.splits)

lemma andThen_InrE:
  assumes "andThen m f w = (Inr y, w'')"
  obtains x w' where "m w = (Inr x, w')" and "f x w' = (Inr y, w'')"
  using assms by (auto simp: andThen_eq_Inr)

lemma ensure_True [simp]: "ensure True m = ret ()"
  by (simp add: ensure_def)

lemma ensure_False [simp]: "ensure False m = m"
  by (simp add: ensure_def)

lemma ensure_eq_Inr [eff_simps]:
  "ensure c (throw e) w = (Inr y, w') \<longleftrightarrow> c \<and> w' = w"
  by (auto simp: ensure_def)

section \<open>Keeping a property of the world\<close>

text \<open>
  \<open>keeps P m\<close>: the effect \<open>m\<close> leaves \<open>P\<close> true however it ends. The
  rules follow the combinators, so a frame property of a handler is a walk over its body.
\<close>

definition keeps :: "('w \<Rightarrow> bool) \<Rightarrow> ('w, 'e, 'a) eff \<Rightarrow> bool" where
  "keeps P m \<longleftrightarrow> (\<forall>w. P w \<longrightarrow> P (snd (m w)))"

named_theorems keeps_intros \<open>rules that establish keeps\<close>

lemma keepsI: "(\<And>w. P w \<Longrightarrow> P (snd (m w))) \<Longrightarrow> keeps P m"
  by (simp add: keeps_def)

lemma keepsD: "keeps P m \<Longrightarrow> P w \<Longrightarrow> m w = (r, w') \<Longrightarrow> P w'"
  by (force simp: keeps_def)

lemma keeps_ret [keeps_intros]: "keeps P (ret x)"
  by (simp add: keeps_def)

lemma keeps_throw [keeps_intros]: "keeps P (throw e)"
  by (simp add: keeps_def)

lemma keeps_gets [keeps_intros]: "keeps P (gets f)"
  by (simp add: keeps_def)

lemma keeps_modify [keeps_intros]: "(\<And>w. P w \<Longrightarrow> P (f w)) \<Longrightarrow> keeps P (modify f)"
  by (simp add: keeps_def)

lemma keeps_andThen [keeps_intros]:
  "keeps P m \<Longrightarrow> (\<And>x. keeps P (f x)) \<Longrightarrow> keeps P (andThen m f)"
  by (auto simp: keeps_def andThen_def split: prod.splits sum.splits)

lemma keeps_ensure [keeps_intros]: "keeps P m \<Longrightarrow> keeps P (ensure c m)"
  by (simp add: ensure_def keeps_ret)

lemma keeps_tryCatch [keeps_intros]:
  "keeps P m \<Longrightarrow> (\<And>e. keeps P (h e)) \<Longrightarrow> keeps P (tryCatch m h)"
  by (auto simp: keeps_def tryCatch_def split: prod.splits sum.splits)

lemma keeps_if [keeps_intros]: "keeps P a \<Longrightarrow> keeps P b \<Longrightarrow> keeps P (if c then a else b)"
  by simp

lemma keeps_case_option [keeps_intros]:
  "keeps P a \<Longrightarrow> (\<And>x. keeps P (b x)) \<Longrightarrow> keeps P (case v of None \<Rightarrow> a | Some x \<Rightarrow> b x)"
  by (simp split: option.split)

lemma keeps_forEach [keeps_intros]: "(\<And>x. keeps P (f x)) \<Longrightarrow> keeps P (forEach xs f)"
  by (induction xs) (auto intro: keeps_intros)

section \<open>Keyed row tables\<close>

text \<open>
  A SQLite table is the list of its rows in insertion (\<open>rowid\<close>) order; its key is the
  column that is its primary key.
\<close>

definition tbl_get :: "('r \<Rightarrow> string) \<Rightarrow> string \<Rightarrow> 'r list \<Rightarrow> 'r option" where
  "tbl_get key k rows = find (\<lambda>r. key r = k) rows"

definition tbl_add :: "('r \<Rightarrow> string) \<Rightarrow> 'r \<Rightarrow> 'r list \<Rightarrow> 'r list option" where
  "tbl_add key r rows = (if tbl_get key (key r) rows = None then Some (rows @ [r]) else None)"

definition tbl_put :: "('r \<Rightarrow> string) \<Rightarrow> 'r \<Rightarrow> 'r list \<Rightarrow> 'r list" where
  "tbl_put key r rows = map (\<lambda>x. if key x = key r then r else x) rows"

definition tbl_ok :: "('r \<Rightarrow> string) \<Rightarrow> 'r list \<Rightarrow> bool" where
  "tbl_ok key rows \<longleftrightarrow> distinct (map key rows)"

text \<open>The contract of a table, whatever holds its rows.\<close>

locale row_table =
  fixes get :: "'d \<Rightarrow> string \<Rightarrow> 'r option"
    and add :: "'r \<Rightarrow> 'd \<Rightarrow> 'd option"
    and put :: "'r \<Rightarrow> 'd \<Rightarrow> 'd"
    and key :: "'r \<Rightarrow> string"
  assumes get_key: "get d k = Some r \<Longrightarrow> key r = k"
    and add_fresh: "add r d = None \<longleftrightarrow> get d (key r) \<noteq> None"
    and get_add: "add r d = Some d' \<Longrightarrow> get d' k = (if k = key r then Some r else get d k)"
    and get_put: "get d (key r) \<noteq> None \<Longrightarrow>
      get (put r d) k = (if k = key r then Some r else get d k)"
    and put_absent: "get d (key r) = None \<Longrightarrow> get (put r d) k = get d k"
begin

lemma get_add_self: "add r d = Some d' \<Longrightarrow> get d' (key r) = Some r"
  by (simp add: get_add)

lemma get_add_other: "add r d = Some d' \<Longrightarrow> k \<noteq> key r \<Longrightarrow> get d' k = get d k"
  by (simp add: get_add)

lemma get_put_other: "k \<noteq> key r \<Longrightarrow> get (put r d) k = get d k"
  using get_put [of d r k] put_absent [of d r k] by (cases "get d (key r) = None") simp_all

lemma get_put_present: "get d k = Some r0 \<Longrightarrow> key r = k \<Longrightarrow> get (put r d) k = Some r"
  using get_put [of d r k] by simp

lemma add_extends: "add r d = Some d' \<Longrightarrow> get d k = Some x \<Longrightarrow> get d' k = Some x"
  using add_fresh [of r d] get_key [of d k x] by (auto simp: get_add)

lemma put_preserves_domain: "get (put r d) k = None \<longleftrightarrow> get d k = None"
  using get_put [of d r k] put_absent [of d r k]
  by (cases "get d (key r) = None") auto

end

lemma tbl_get_Nil [simp]: "tbl_get key k [] = None"
  by (simp add: tbl_get_def)

lemma tbl_get_Cons [simp]:
  "tbl_get key k (r # rows) = (if key r = k then Some r else tbl_get key k rows)"
  by (simp add: tbl_get_def)

lemma tbl_get_append:
  "tbl_get key k (xs @ ys) = (case tbl_get key k xs of None \<Rightarrow> tbl_get key k ys | Some r \<Rightarrow> Some r)"
  by (induction xs) auto

lemma tbl_get_key: "tbl_get key k rows = Some r \<Longrightarrow> key r = k"
  by (induction rows) (auto split: if_splits)

lemma tbl_get_in: "tbl_get key k rows = Some r \<Longrightarrow> r \<in> set rows"
  by (induction rows) (auto split: if_splits)

lemma tbl_get_None: "tbl_get key k rows = None \<longleftrightarrow> (\<forall>r \<in> set rows. key r \<noteq> k)"
  by (induction rows) auto

lemma tbl_get_put:
  "tbl_get key k (tbl_put key r rows) =
     (if k = key r \<and> tbl_get key k rows \<noteq> None then Some r else tbl_get key k rows)"
  by (induction rows) (auto simp: tbl_put_def)

lemma tbl_ok_get: "tbl_ok key rows \<Longrightarrow> r \<in> set rows \<Longrightarrow> tbl_get key (key r) rows = Some r"
  by (induction rows) (auto simp: tbl_ok_def)

lemma tbl_ok_add: "tbl_add key r rows = Some rows' \<Longrightarrow> tbl_ok key rows \<Longrightarrow> tbl_ok key rows'"
  by (fastforce simp: tbl_add_def tbl_ok_def tbl_get_None split: if_splits)

lemma tbl_ok_put: "tbl_ok key (tbl_put key r rows) = tbl_ok key rows"
proof -
  have "map key (tbl_put key r rows) = map key rows"
    by (simp add: tbl_put_def)
  then show ?thesis by (simp only: tbl_ok_def)
qed

lemma tbl_put_last:
  assumes "tbl_get key (key r) rows = None" and "key x = key r"
  shows "tbl_put key r (rows @ [x]) = rows @ [r]"
  using assms by (auto simp: tbl_put_def tbl_get_None intro!: map_idI)

lemma tbl_put_set: "x \<in> set (tbl_put key r rows) \<Longrightarrow> x = r \<or> x \<in> set rows"
  by (auto simp: tbl_put_def)

text \<open>Every keyed list meets the contract.\<close>

interpretation list_table: row_table "\<lambda>rows k. tbl_get key k rows" "tbl_add key" "tbl_put key" key
  for key :: "'r \<Rightarrow> string"
  by unfold_locales
    (auto simp: tbl_get_key tbl_add_def tbl_get_append tbl_get_put split: if_splits option.splits)

section \<open>JavaScript helpers\<close>

text \<open>\<open>Array.prototype.find\<close> and \<open>some\<close>/\<open>every\<close> are \<open>find\<close>, \<open>list_ex\<close> and
  \<open>list_all\<close>; \<open>new Set(xs)\<close> spread back into an array keeps first occurrences.\<close>

fun dedup_on :: "'a list \<Rightarrow> 'a list \<Rightarrow> 'a list" where
  "dedup_on seen [] = []"
| "dedup_on seen (x # xs) = (if x \<in> set seen then dedup_on seen xs else x # dedup_on (x # seen) xs)"

definition dedup :: "'a list \<Rightarrow> 'a list" where
  "dedup xs = dedup_on [] xs"

lemma set_dedup_on: "set (dedup_on seen xs) = set xs - set seen"
  by (induction seen xs rule: dedup_on.induct) auto

lemma set_dedup [simp]: "set (dedup xs) = set xs"
  by (simp add: dedup_def set_dedup_on)

lemma distinct_dedup_on: "distinct (dedup_on seen xs)"
  by (induction seen xs rule: dedup_on.induct) (auto simp: set_dedup_on)

lemma distinct_dedup [simp]: "distinct (dedup xs)"
  by (simp add: dedup_def distinct_dedup_on)

lemma dedup_eq_Nil [simp]: "dedup xs = [] \<longleftrightarrow> xs = []"
  by (metis set_dedup set_empty)

text \<open>\<open>parts.join(sep)\<close>.\<close>

fun join_str :: "string \<Rightarrow> string list \<Rightarrow> string" where
  "join_str sep [] = []"
| "join_str sep [x] = x"
| "join_str sep (x # y # zs) = x @ sep @ join_str sep (y # zs)"

text \<open>The characters \<open>trim\<close> and \<open>\s\<close> remove, among one-byte characters.\<close>

definition is_js_space :: "char \<Rightarrow> bool" where
  "is_js_space c \<longleftrightarrow> c \<in> {CHR '' '', CHR 0x09, CHR 0x0A, CHR 0x0B, CHR 0x0C, CHR 0x0D, CHR 0xA0}"

definition js_trim :: "string \<Rightarrow> string" where
  "js_trim s = rev (dropWhile is_js_space (rev (dropWhile is_js_space s)))"

definition starts_with :: "string \<Rightarrow> string \<Rightarrow> bool" where
  "starts_with p s \<longleftrightarrow> take (length p) s = p"

text \<open>\<open>array[array.length - 1]\<close>, which is \<open>undefined\<close> on an empty array.\<close>

definition last_opt :: "'a list \<Rightarrow> 'a option" where
  "last_opt xs = (if xs = [] then None else Some (last xs))"

lemma last_opt_Some: "last_opt xs = Some x \<Longrightarrow> x \<in> set xs"
  by (auto simp: last_opt_def split: if_splits)

lemma last_opt_None [simp]: "last_opt xs = None \<longleftrightarrow> xs = []"
  by (simp add: last_opt_def)

lemma find_Some_D: "find P xs = Some x \<Longrightarrow> P x \<and> x \<in> set xs"
  by (auto simp: find_Some_iff)

section \<open>Invariants of runs\<close>

text \<open>
  A machine with a set of operations keeps an invariant along every run if each operation
  keeps it. Stated once, used for every component that is driven by a list of events.
\<close>

locale stepwise_invariant =
  fixes step :: "'s \<Rightarrow> 'op \<Rightarrow> 's"
    and inv :: "'s \<Rightarrow> bool"
  assumes step_inv: "inv s \<Longrightarrow> inv (step s op)"
begin

lemma run_inv: "inv s \<Longrightarrow> inv (foldl step s ops)"
  by (induction ops arbitrary: s) (auto simp: step_inv)

lemma prefix_inv: "inv s \<Longrightarrow> inv (foldl step s (take n ops))"
  by (rule run_inv)

end

end
