(* ===== verification/StoreRecords.thy ===== *)
theory StoreRecords
  imports KorwfPrelude
begin

text \<open>
  The durable records of \<open>src/storage/records.ts\<close>, \<open>gate-receipts.ts\<close> and
  \<open>transition-log.ts\<close>. String-literal unions are datatypes, interfaces are records, a
  \<open>T | null\<close> field is an option. The envelope fields \<open>schemaVersion\<close> and \<open>kind\<close>, constant for a
  record type, are left out. A JavaScript number that is a fraction (a confidence, an amount
  of money) is a rational; counters and revisions are naturals.
\<close>

type_synonym iso_timestamp = string
type_synonym git_sha = string
type_synonym content_hash = string
type_synonym revision = nat

section \<open>Shared value types\<close>

datatype workflow_mode = Shadow | Advisory | Supervised | BoundedAutonomous

datatype risk_class = RiskLow | RiskMedium | RiskHigh

datatype task_status =
    Proposed | Ready | Running | Verifying | Review | Done | Blocked | Failed | Cancelled
  | NeedsChanges | PausedCap

datatype phase_gate_status =
    PgPending | PgRunning | PgIntegrating | PgVerifying | PgReview | PgPassed | PgFailed
  | PgPausedCap | PgPausedApproval | PgCancelled

text \<open>\<open>RISK_ORDER\<close> of \<open>task-gate.ts\<close>: risk classes are compared by rank, so the type is a
  linear order.\<close>

fun RISK_ORDER :: "risk_class \<Rightarrow> nat" where
  "RISK_ORDER RiskLow = 0"
| "RISK_ORDER RiskMedium = 1"
| "RISK_ORDER RiskHigh = 2"

lemma RISK_ORDER_inj: "RISK_ORDER a = RISK_ORDER b \<Longrightarrow> a = b"
  by (cases a; cases b) auto

instantiation risk_class :: linorder
begin

definition less_eq_risk_class :: "risk_class \<Rightarrow> risk_class \<Rightarrow> bool" where
  "less_eq_risk_class a b \<longleftrightarrow> RISK_ORDER a \<le> RISK_ORDER b"

definition less_risk_class :: "risk_class \<Rightarrow> risk_class \<Rightarrow> bool" where
  "less_risk_class a b \<longleftrightarrow> RISK_ORDER a < RISK_ORDER b"

instance
  by standard (auto simp: less_eq_risk_class_def less_risk_class_def intro: RISK_ORDER_inj)

end

lemma risk_high_top [simp]: "RiskHigh \<le> (r :: risk_class) \<longleftrightarrow> r = RiskHigh"
  by (cases r) (auto simp: less_eq_risk_class_def)

record budget =
  maxSpendUsd :: "rat option"
  maxTokens :: "nat option"
  maxRequests :: "nat option"
  maxConcurrency :: "nat option"
  maxElapsedMs :: "nat option"

datatype cost_basis = CostKnown | CostEstimated | CostUnknown

record usage =
  us_inputTokens :: "nat option"
  us_outputTokens :: "nat option"
  us_requests :: int
  us_spendUsd :: "rat option"
  us_costBasis :: cost_basis

record acceptance_criterion =
  ac_id :: string
  ac_text :: string

datatype check_kind = CkCommand | CkAssertion | CkLint | CkTypecheck | CkHuman

record check_definition =
  ck_id :: string
  ck_kind :: check_kind
  ck_command :: string
  ck_cwd :: string
  ck_expectedExitCode :: int
  ck_coversCriteria :: "string list"
  ck_required :: bool

record ownership =
  ow_paths :: "string list"
  ow_components :: "string list"

record task_profile =
  tp_domain :: string
  tp_modalities :: "string list"
  tp_reasoningDepth :: rat
  tp_contextSize :: rat
  tp_risk :: risk_class

datatype retrieval_method =
  RmExplicit | RmSearch | RmSymbol | RmDependency | RmPinned | RmPlanDocument | RmToolOutput

record provenance =
  pv_revision :: git_sha
  pv_path :: string
  pv_range :: "(nat \<times> nat) option"
  pv_retrievalMethod :: retrieval_method
  pv_contentHash :: content_hash

record artifact_ref =
  ar_relativePath :: string
  ar_contentHash :: content_hash
  ar_mediaType :: string
  ar_sizeBytes :: nat

section \<open>Workflow, phase, task\<close>

record repo_identity =
  ri_remoteUrl :: "string option"
  ri_rootCommit :: git_sha
  ri_name :: string

record session_refs =
  sr_coordinatorSessionId :: string
  sr_workerSessionIds :: "string list"

datatype workflow_status = WsPlanning | WsReady | WsRunning | WsPaused | WsCompleted | WsCancelled

record workflow =
  wf_id :: string
  wf_createdAt :: iso_timestamp
  wf_updatedAt :: iso_timestamp
  wf_goal :: string
  wf_repoIdentity :: repo_identity
  wf_baseRevision :: git_sha
  wf_exclusions :: "string list"
  wf_mode :: workflow_mode
  wf_budgets :: budget
  wf_policyVersion :: string
  wf_sessionRefs :: session_refs
  wf_planRevision :: revision
  wf_status :: workflow_status

record phase_report =
  pr_summary :: string
  pr_evidenceIds :: "string list"
  pr_openQuestions :: "string list"
  pr_cost :: usage
  pr_producedAt :: iso_timestamp

record phase =
  ph_id :: string
  ph_createdAt :: iso_timestamp
  ph_updatedAt :: iso_timestamp
  ph_workflowId :: string
  ph_order :: nat
  ph_goal :: string
  ph_acceptanceCriteria :: "acceptance_criterion list"
  ph_budgetCap :: budget
  ph_integrationPoint :: "string \<times> git_sha"
  ph_gateStatus :: phase_gate_status
  ph_report :: "phase_report option"
  ph_runId :: "string option"

record task =
  t_id :: string
  t_createdAt :: iso_timestamp
  t_updatedAt :: iso_timestamp
  t_workflowId :: string
  t_phaseId :: string
  t_revision :: revision
  t_goal :: string
  t_dependencies :: "string list"
  t_ownership :: ownership
  t_acceptanceCriteria :: "acceptance_criterion list"
  t_checks :: "check_definition list"
  t_riskClass :: risk_class
  t_status :: task_status
  t_blocker :: "string option"

section \<open>Attempt, decision, evidence, approval\<close>

datatype attempt_outcome =
  OcSucceeded | OcFailed | OcCancelled | OcHandedOff | OcAbandoned | OcInterrupted | OcPausedCap

datatype failure_kind = FkTruncated | FkTimeout | FkTransportError | FkCapped | FkGap | FkNone

datatype failure_class = FcHarness | FcQuality | FcNone

record attempt_termination =
  at_stopReason :: "string option"
  at_truncated :: bool
  at_failureKind :: failure_kind
  at_failureClass :: failure_class
  at_consumedAttemptBudget :: bool
  at_outputTokens :: "nat option"

datatype fallback_reason =
    FrQuotaExhausted | FrRateLimited | FrBudgetCap | FrModelUnavailable | FrJevSubstitute
  | FrStaticOrder | FrUserPin

datatype worker_role = Scout | Planner | Implementer | Verifier | Reviewer | Integrator

record attempt_inputs =
  ai_taskRevision :: revision
  ai_contextProvenance :: "provenance list"
  ai_pinnedPaths :: "string list"
  ai_skills :: "string list"
  ai_bundleHash :: content_hash

record attempt =
  a_id :: string
  a_createdAt :: iso_timestamp
  a_updatedAt :: iso_timestamp
  a_taskId :: string
  a_taskRevision :: revision
  a_workerId :: string
  a_role :: worker_role
  a_taskProfile :: task_profile
  a_requestedModel :: string
  a_usedModel :: string
  a_fallbackReason :: "fallback_reason option"
  a_profile :: string
  a_inputs :: attempt_inputs
  a_worktree :: "string \<times> string \<times> git_sha"
  a_timestamps :: "iso_timestamp \<times> iso_timestamp option \<times> iso_timestamp"
  a_usage :: usage
  a_termination :: "attempt_termination option"
  a_outcome :: "attempt_outcome option"
  a_artifacts :: "artifact_ref list"
  a_handedOffFromAttemptId :: "string option"
  a_runId :: "string option"

datatype decision_subject = AboutTask string revision | AboutPhase string

datatype override_actor = OvUser | OvPolicy

record decision_override =
  ov_actor :: override_actor
  ov_action :: string
  ov_reason :: string
  ov_at :: iso_timestamp

record freshness =
  fr_revision :: git_sha
  fr_decidedAt :: iso_timestamp
  fr_expiresAt :: "iso_timestamp option"

record decision =
  d_id :: string
  d_createdAt :: iso_timestamp
  d_workflowId :: string
  d_subject :: "decision_subject option"
  d_stateHash :: content_hash
  d_questionId :: string
  d_questionVersion :: string
  d_jevModelVersion :: "string option"
  d_rawDistribution :: "(string \<times> rat) list"
  d_confidence :: "rat option"
  d_policyRule :: string
  d_action :: string
  d_override :: "decision_override option"
  d_freshness :: freshness
  d_usage :: usage
  d_latencyMs :: "nat option"

datatype exit_status =
    Exited int | Signalled string | TimedOut | FlakyRuns "int list" | Missing | Unavailable string

record command_identity =
  ci_command :: string
  ci_cwd :: string
  ci_environmentHash :: content_hash

datatype evidence_reviewer = ByCheck | ByModel string string | ByHuman string

record evidence =
  e_id :: string
  e_createdAt :: iso_timestamp
  e_workflowId :: string
  e_taskId :: string
  e_taskRevision :: revision
  e_attemptId :: "string option"
  e_requirementId :: string
  e_checkId :: "string option"
  e_artifact :: "artifact_ref option"
  e_revision :: git_sha
  e_commandIdentity :: "command_identity option"
  e_exitStatus :: exit_status
  e_reviewer :: evidence_reviewer
  e_caveats :: "string list"
  e_provenance :: "provenance list"
  e_supersedesId :: "string option"

datatype approval_scope = ScTask string | ScPhase string | ScPlan | ScWorkflow

datatype invalidation_reason =
    IrTaskRevisionChanged | IrPlanRevisionChanged | IrExpired | IrModeChanged
  | IrPolicyVersionChanged | IrConsumed | IrRevoked | IrSessionReconciled

record approval_invalidation =
  iv_reason :: invalidation_reason
  iv_at :: iso_timestamp
  iv_detail :: "string option"

datatype approval_actor = ApUser string | ApPolicy string

record approval =
  ap_id :: string
  ap_createdAt :: iso_timestamp
  ap_updatedAt :: iso_timestamp
  ap_workflowId :: string
  ap_actor :: approval_actor
  ap_scope :: approval_scope
  ap_taskRevision :: "revision option"
  ap_planRevision :: revision
  ap_permittedAction :: string
  ap_riskClass :: risk_class
  ap_expiresAt :: "iso_timestamp option"
  ap_invalidation :: "approval_invalidation option"

text \<open>
  \<open>approvalInvalidReason\<close>: the first reason an approval is unusable. The task is the
  (id, revision) pair the caller passes, or \<open>null\<close>.
\<close>

definition approvalInvalidReason ::
  "approval \<Rightarrow> (string \<times> revision) option \<Rightarrow> revision \<Rightarrow> iso_timestamp \<Rightarrow> invalidation_reason option"
where
  "approvalInvalidReason ap cur planRev now =
     (case ap_invalidation ap of
        Some iv \<Rightarrow> Some (iv_reason iv)
      | None \<Rightarrow>
          if (case ap_expiresAt ap of None \<Rightarrow> False | Some x \<Rightarrow> x \<le> now) then Some IrExpired
          else if ap_planRevision ap \<noteq> planRev then Some IrPlanRevisionChanged
          else (case ap_scope ap of
                  ScTask tid \<Rightarrow>
                    (case cur of
                       None \<Rightarrow> Some IrTaskRevisionChanged
                     | Some (cid, crev) \<Rightarrow>
                         if cid \<noteq> tid then Some IrTaskRevisionChanged
                         else if ap_taskRevision ap \<noteq> Some crev then Some IrTaskRevisionChanged
                         else None)
                | _ \<Rightarrow> None))"

definition isApprovalValid ::
  "approval \<Rightarrow> (string \<times> revision) option \<Rightarrow> revision \<Rightarrow> iso_timestamp \<Rightarrow> bool"
where
  "isApprovalValid ap cur planRev now \<longleftrightarrow> approvalInvalidReason ap cur planRev now = None"

lemma approvalInvalidReason_None:
  "approvalInvalidReason ap (Some (tid, crev)) planRev now = None \<longleftrightarrow>
     ap_invalidation ap = None \<and>
     (\<forall>x. ap_expiresAt ap = Some x \<longrightarrow> now < x) \<and>
     ap_planRevision ap = planRev \<and>
     (\<forall>i. ap_scope ap = ScTask i \<longrightarrow> i = tid \<and> ap_taskRevision ap = Some crev)"
  by (auto simp: approvalInvalidReason_def split: option.splits approval_scope.splits)

section \<open>Approval requests\<close>

text \<open>The questions of \<open>src/storage/approval-requests.ts\<close>: immutable but for their resolution.\<close>

datatype class_tier = TierConfigurable | TierNoAuto | TierHighRisk

datatype request_status = RqPending | RqGranted | RqDenied | RqInvalidated

datatype request_decision = AskQueue | AskStop

record approval_request =
  aq_requestId :: string
  aq_createdAt :: iso_timestamp
  aq_workflowId :: string
  aq_classId :: string
  aq_tier :: class_tier
  aq_decision :: request_decision
  aq_mode :: workflow_mode
  aq_policyVersion :: string
  aq_scope :: approval_scope
  aq_taskRevision :: "revision option"
  aq_planRevision :: revision
  aq_permittedAction :: string
  aq_riskClass :: risk_class
  aq_requestKey :: string
  aq_summary :: string
  aq_expiresAt :: "iso_timestamp option"
  aq_status :: request_status
  aq_resolvedAt :: "iso_timestamp option"
  aq_resolvedBy :: "string option"
  aq_approvalId :: "string option"
  aq_invalidationReason :: "string option"
  aq_detail :: "string option"

section \<open>Transition log, blockers, gate receipts, audit\<close>

datatype subject_kind = SkTask | SkPhase

datatype actor_kind = AkEngine | AkUser | AkWorker

record transition_actor =
  ta_kind :: actor_kind
  ta_identity :: string

datatype disposition = Accepted | Rejected

record blocker_row =
  b_blockerId :: string
  b_createdAt :: iso_timestamp
  b_workflowId :: string
  b_subjectKind :: subject_kind
  b_subjectId :: string
  b_kind :: string
  b_detail :: string
  b_raisedBy :: string
  b_resolvedAt :: "iso_timestamp option"
  b_resolvedBy :: "string option"
  b_resolutionDetail :: "string option"

datatype gate_kind = GkTask | GkPhase

datatype gate_disposition = GdPass | GdReject

record gate_condition_result =
  gc_id :: string
  gc_satisfied :: bool
  gc_reasonCode :: "string option"
  gc_detail :: "string option"

record gate_receipt =
  g_receiptId :: string
  g_createdAt :: iso_timestamp
  g_workflowId :: string
  g_gate :: gate_kind
  g_subjectId :: string
  g_subjectRevision :: revision
  g_revision :: git_sha
  g_disposition :: gate_disposition
  g_reasonCode :: "string option"
  g_detail :: "string option"
  g_inputHash :: content_hash
  g_evaluatedAt :: iso_timestamp
  g_consumedAt :: "iso_timestamp option"
  g_conditions :: "gate_condition_result list"

datatype audit_operation = AuInsert | AuUpdate | AuDelete

datatype record_table = TbWorkflow | TbPhase | TbTask | TbEvidence | TbDecision | TbApproval | TbAttempt

record audit_entry =
  au_id :: string
  au_createdAt :: iso_timestamp
  au_workflowId :: "string option"
  au_table :: record_table
  au_recordId :: string
  au_operation :: audit_operation
  au_beforeHash :: "content_hash option"
  au_afterHash :: content_hash
  au_actor :: string

end
