(* ===== verification/Transitions.thy ===== *)
theory Transitions
  imports StoreRecords
begin

text \<open>
  \<open>src/workflow/transitions.ts\<close>: the data contract of the task and phase state machines. The
  two tables are the ones of the source, row by row and in its order; edge ids and guard ids
  are datatypes, triggers are strings because a request may carry any string.
\<close>

section \<open>States\<close>

definition TASK_STATES :: "task_status list" where
  "TASK_STATES = [Proposed, Ready, Running, Verifying, Review, Done, Blocked, Failed, Cancelled,
     NeedsChanges, PausedCap]"

definition TASK_TERMINAL_STATES :: "task_status list" where
  "TASK_TERMINAL_STATES = [Done, Cancelled]"

definition TASK_NONTERMINAL_STATES :: "task_status list" where
  "TASK_NONTERMINAL_STATES = [Proposed, Ready, Running, Verifying, Review, Blocked, Failed,
     NeedsChanges, PausedCap]"

datatype phase_state = PhPending | PhRunning | PhGating | PhDone | PhPaused | PhFailed | PhCancelled

definition PHASE_STATES :: "phase_state list" where
  "PHASE_STATES = [PhPending, PhRunning, PhGating, PhDone, PhPaused, PhFailed, PhCancelled]"

definition PHASE_TERMINAL_STATES :: "phase_state list" where
  "PHASE_TERMINAL_STATES = [PhDone, PhCancelled]"

definition PHASE_NONTERMINAL_STATES :: "phase_state list" where
  "PHASE_NONTERMINAL_STATES = [PhPending, PhRunning, PhGating, PhPaused, PhFailed]"

fun PHASE_STORAGE_STATES :: "phase_state \<Rightarrow> phase_gate_status list" where
  "PHASE_STORAGE_STATES PhPending = [PgPending]"
| "PHASE_STORAGE_STATES PhRunning = [PgRunning]"
| "PHASE_STORAGE_STATES PhGating = [PgIntegrating, PgVerifying, PgReview]"
| "PHASE_STORAGE_STATES PhDone = [PgPassed]"
| "PHASE_STORAGE_STATES PhPaused = [PgPausedCap, PgPausedApproval]"
| "PHASE_STORAGE_STATES PhFailed = [PgFailed]"
| "PHASE_STORAGE_STATES PhCancelled = [PgCancelled]"

section \<open>Guards, actors and rows\<close>

datatype precondition =
    PcChecksRegistered
  | PcReadinessValid
  | PcAuthorizationCurrent
  | PcDispatchAllowed
  | PcAttemptSettled
  | PcAllChecksPassExactRevision
  | PcNoJevGapOrDisabled
  | PcPolicyReviewSatisfied
  | PcFailureObserved
  | PcChangesRequired
  | PcBlockerPresent
  | PcRecoveryAuthorized
  | PcAllEligibleModelsCapped
  | PcCapResumeValid
  | PcPhaseStartValid
  | PcAllTasksDone
  | PcIntegratedChecksPassExactRevision
  | PcPhaseNoJevGapOrDisabled
  | PcPhasePolicyReviewSatisfied
  | PcPhaseStopPresent
  | PcManualResumeValid
  | PcInvalidationApplies
  | PcStopPhaseRequired
  | PcRevisionChanged
  | PcUserRevisionRequested
  | PcCancellationRequested

datatype trigger_actor = EngineOnly | UserActor | WorkerRequestThenEngine

datatype task_edge =
    TaskReady | TaskDispatch | TaskSubmit | TaskReview | TaskDone | TaskFailed | TaskChanges
  | TaskBlock | TaskInvalidate | TaskReplan | TaskStaleEvidence | TaskCap | TaskCapResume | TaskCancel

datatype phase_edge =
    PhaseStart | PhaseGate | PhaseDone | PhaseFailed | PhaseGap | PhaseRecover | PhaseCap
  | PhaseCapResume | PhasePause | PhaseInvalidate | PhaseResume | PhaseStaleEvidence | PhaseCancel

record ('s, 'id) transition =
  tr_id :: 'id
  tr_from :: "'s list"
  tr_to :: 's
  tr_trigger :: string
  tr_whoMayTrigger :: "trigger_actor list"
  tr_preconditions :: "precondition list"
  tr_requiredEvidence :: "string list"
  tr_sideEffects :: "string list"

definition READY_PRECONDITIONS :: "precondition list" where
  "READY_PRECONDITIONS = [PcChecksRegistered, PcReadinessValid, PcAuthorizationCurrent]"

definition TASK_DONE_PRECONDITIONS :: "precondition list" where
  "TASK_DONE_PRECONDITIONS =
     [PcChecksRegistered, PcAllChecksPassExactRevision, PcNoJevGapOrDisabled, PcPolicyReviewSatisfied]"

definition PHASE_DONE_PRECONDITIONS :: "precondition list" where
  "PHASE_DONE_PRECONDITIONS =
     [PcAllTasksDone, PcIntegratedChecksPassExactRevision, PcPhaseNoJevGapOrDisabled,
      PcPhasePolicyReviewSatisfied]"

section \<open>The texts of the rows\<close>

text \<open>
  The evidence and side-effect notes of each row, kept apart from the table so that reasoning
  about edges never carries them along.
\<close>

primrec task_required_evidence :: "task_edge \<Rightarrow> string list" where
  "task_required_evidence TaskReady =
    [''current checks and criterion coverage'',
     ''dependency/schema validation'',
     ''scope/approval and recovery decision'']"
| "task_required_evidence TaskDispatch =
    [''current authorization and model selection'',
     ''budget and ownership reservation'',
     ''attempt contract'']"
| "task_required_evidence TaskSubmit =
    [''attempt artifacts and completion claim'',
     ''current task revision and exact Git SHA'']"
| "task_required_evidence TaskReview =
    [''per-check results and criterion coverage at current revisions'',
     ''fresh gap decision or recorded disabled fallback'']"
| "task_required_evidence TaskDone =
    [''all check evidence at exact task/Git revision'',
     ''criterion coverage and no-gap decision or disabled fallback'',
     ''policy review result and required approvals'']"
| "task_required_evidence TaskFailed =
    [''failure category and attempt/check outcome'',
     ''bounded next-step options'']"
| "task_required_evidence TaskChanges =
    [''gap decision or independent/human review findings with criterion ids'']"
| "task_required_evidence TaskBlock =
    [''blocker reason, affected action and policy disposition'']"
| "task_required_evidence TaskInvalidate =
    [''invalidation event, affected approval ids and current revisions/mode/policy'']"
| "task_required_evidence TaskReplan =
    [''authorized plan/task diff and revision counters'']"
| "task_required_evidence TaskStaleEvidence =
    [''old/new exact Git SHA and affected evidence ids'']"
| "task_required_evidence TaskCap =
    [''eligible set and per-model ModelAvailability'',
     ''estimated reset or unknown'',
     ''handoff and previous stage if mid-attempt'']"
| "task_required_evidence TaskCapResume =
    [''updated availability'',
     ''fresh readiness/authorization/budget evaluation'',
     ''reconciled handoff and saved stage'']"
| "task_required_evidence TaskCancel =
    [''user request or pre-approved cancellation rule'',
     ''child termination and external-effect reconciliation'']"

primrec task_side_effects :: "task_edge \<Rightarrow> string list" where
  "task_side_effects TaskReady =
    [''clear resolved blocker'',
     ''queue task without spawning a worker'']"
| "task_side_effects TaskDispatch =
    [''create attempt and isolated worktree binding'',
     ''record and surface requested/used model and fallback reason'']"
| "task_side_effects TaskSubmit =
    [''schedule all registered checks'',
     ''do not count worker claim as passing evidence'']"
| "task_side_effects TaskReview =
    [''request policy-required independent review and human approvals'']"
| "task_side_effects TaskDone =
    [''atomically record gate receipt and completion revision'',
     ''release ownership and surface evidence-backed completion'']"
| "task_side_effects TaskFailed =
    [''stop/reconcile active attempt'',
     ''retain worktree and evidence; release execution reservations'']"
| "task_side_effects TaskChanges =
    [''retain failed gate evidence'',
     ''request bounded remediation, never silently change scope'']"
| "task_side_effects TaskBlock =
    [''halt affected dispatch/attempt at safe boundary'',
     ''queue approval or notify; retain resumable artifacts'']"
| "task_side_effects TaskInvalidate =
    [''invalidate approvals atomically with source change'',
     ''stop affected action; retain evidence as history'',
     ''apply phase invalidation disposition'']"
| "task_side_effects TaskReplan =
    [''stop/reconcile affected attempts'',
     ''apply revision invalidation before any dispatch; affected tasks end blocked via task-invalidate'',
     ''require readiness again'']"
| "task_side_effects TaskStaleEvidence =
    [''exclude stale checks, gap decisions and reviews'',
     ''rerun checks and all revision-sensitive review'']"
| "task_side_effects TaskCap =
    [''pause parent phase in same transaction'',
     ''settle attempt as paused_cap, not failed; preserve worktree'',
     ''surface cap/reset and stop phase dispatch'']"
| "task_side_effects TaskCapResume =
    [''resume parent only through phase-cap-resume'',
     ''new attempt continues saved stage via explicit handoff (or authorized restart); never replay effects'',
     ''rerun current checks/review before done'']"
| "task_side_effects TaskCancel =
    [''stop dispatch and children'',
     ''invalidate outstanding action approvals; retain worktrees and user changes'',
     ''record partial result, never success'']"

primrec phase_required_evidence :: "phase_edge \<Rightarrow> string list" where
  "phase_required_evidence PhaseStart =
    [''approved plan/run request or approved run-all continuation'',
     ''cost estimate and budget/preceding-gate results'']"
| "phase_required_evidence PhaseGate =
    [''current task gate receipts'',
     ''sole integration owner and merged revision'']"
| "phase_required_evidence PhaseDone =
    [''task gate receipts'',
     ''integrated check evidence at exact merged SHA'',
     ''phase coverage/no-gap or disabled fallback'',
     ''phase policy review and approvals'']"
| "phase_required_evidence PhaseFailed =
    [''failed integrated check, execution or integration outcome'',
     ''recovery options'']"
| "phase_required_evidence PhaseGap =
    [''phase gap or review findings'']"
| "phase_required_evidence PhaseRecover =
    [''bounded recovery plan and reconciled effects'']"
| "phase_required_evidence PhaseCap =
    [''blocking task/reviewer eligible set and availability/reset records'',
     ''saved phase substage and handoffs'']"
| "phase_required_evidence PhaseCapResume =
    [''pause reason all_candidates_capped'',
     ''updated availability and full resume validation'',
     ''saved substage and reconciled workers'']"
| "phase_required_evidence PhasePause =
    [''pause reason, stop policy or user request'',
     ''saved stage, budget usage and resumable workers'']"
| "phase_required_evidence PhaseInvalidate =
    [''invalidation event and affected approvals'',
     ''stop-phase disposition'']"
| "phase_required_evidence PhaseResume =
    [''explicit resume and fresh approvals when required'',
     ''resolved pause reasons and reconciliation'']"
| "phase_required_evidence PhaseStaleEvidence =
    [''old/new merged SHA and affected gate evidence'']"
| "phase_required_evidence PhaseCancel =
    [''explicit request or approved cancellation rule'',
     ''child termination and effect reconciliation'']"

primrec phase_side_effects :: "phase_edge \<Rightarrow> string list" where
  "phase_side_effects PhaseStart =
    [''reserve phase budget'',
     ''enable ready-task scheduling'']"
| "phase_side_effects PhaseGate =
    [''integrate under sole owner then verify merged result then review'',
     ''persist integrating/verifying/review substage; no done shortcut'']"
| "phase_side_effects PhaseDone =
    [''persist passed and report: built scope, evidence, open questions, cost'',
     ''permit next phase only through phase-start'']"
| "phase_side_effects PhaseFailed =
    [''stop phase dispatch; retain task completions and artifacts'',
     ''do not advance next phase'']"
| "phase_side_effects PhaseGap =
    [''retain failed phase gate'',
     ''propose explicitly scoped remediation; never reopen terminal tasks'']"
| "phase_side_effects PhaseRecover =
    [''replan with explicit scope approval when needed; invalidate revised approvals'',
     ''require phase-start and complete gate again'']"
| "phase_side_effects PhaseCap =
    [''persist paused_cap with reason all_candidates_capped'',
     ''pause blocked task via task-cap; quiesce other workers with recoverable artifacts'',
     ''notify, stop dispatch, do not record failure'']"
| "phase_side_effects PhaseCapResume =
    [''restore scheduling and explicit handoffs'',
     ''if tasks already done, re-enter gating through phase-gate; never jump to done'']"
| "phase_side_effects PhasePause =
    [''stop dispatch and quiesce children; retain artifacts'',
     ''persist paused_cap for budget/cap and paused_approval otherwise'',
     ''surface reason and next action; budget never auto-increases'']"
| "phase_side_effects PhaseInvalidate =
    [''persist paused_approval and stop phase dispatch/affected children'',
     ''retain all unresolved pause reasons; no cap-clear bypass'']"
| "phase_side_effects PhaseResume =
    [''require phase-start again'',
     ''preserve prior completed work; do not repeat completed actions'']"
| "phase_side_effects PhaseStaleEvidence =
    [''return storage substage to verifying'',
     ''exclude stale integrated checks and reviews; rerun full phase gate'']"
| "phase_side_effects PhaseCancel =
    [''cancel nonterminal tasks via task-cancel; preserve done tasks'',
     ''invalidate action approvals, retain worktrees, publish partial report'',
     ''never advance next phase as success'']"

declare task_required_evidence.simps [simp del] task_side_effects.simps [simp del]
  phase_required_evidence.simps [simp del] phase_side_effects.simps [simp del]

lemma task_required_evidence_nonempty [simp]: "task_required_evidence e \<noteq> []"
  by (cases e) (simp_all add: task_required_evidence.simps)

lemma phase_required_evidence_nonempty [simp]: "phase_required_evidence e \<noteq> []"
  by (cases e) (simp_all add: phase_required_evidence.simps)

section \<open>The two tables\<close>

definition TASK_TRANSITIONS :: "(task_status, task_edge) transition list" where
  "TASK_TRANSITIONS = [
    \<lparr>tr_id = TaskReady, tr_from = [Proposed, Blocked, Failed, NeedsChanges], tr_to = Ready,
      tr_trigger = ''readiness_validated'', tr_whoMayTrigger = [EngineOnly],
      tr_preconditions = READY_PRECONDITIONS @ [PcRecoveryAuthorized],
      tr_requiredEvidence = task_required_evidence TaskReady, tr_sideEffects = task_side_effects TaskReady\<rparr>,
    \<lparr>tr_id = TaskDispatch, tr_from = [Ready], tr_to = Running,
      tr_trigger = ''dispatch'', tr_whoMayTrigger = [EngineOnly],
      tr_preconditions = READY_PRECONDITIONS @ [PcDispatchAllowed],
      tr_requiredEvidence = task_required_evidence TaskDispatch, tr_sideEffects = task_side_effects TaskDispatch\<rparr>,
    \<lparr>tr_id = TaskSubmit, tr_from = [Running], tr_to = Verifying,
      tr_trigger = ''completion_requested'', tr_whoMayTrigger = [EngineOnly, WorkerRequestThenEngine],
      tr_preconditions = [PcAttemptSettled],
      tr_requiredEvidence = task_required_evidence TaskSubmit, tr_sideEffects = task_side_effects TaskSubmit\<rparr>,
    \<lparr>tr_id = TaskReview, tr_from = [Verifying], tr_to = Review,
      tr_trigger = ''checks_and_gap_assessed'', tr_whoMayTrigger = [EngineOnly],
      tr_preconditions = [PcChecksRegistered, PcAllChecksPassExactRevision, PcNoJevGapOrDisabled],
      tr_requiredEvidence = task_required_evidence TaskReview, tr_sideEffects = task_side_effects TaskReview\<rparr>,
    \<lparr>tr_id = TaskDone, tr_from = [Review], tr_to = Done,
      tr_trigger = ''task_gate_passed'', tr_whoMayTrigger = [EngineOnly],
      tr_preconditions = TASK_DONE_PRECONDITIONS,
      tr_requiredEvidence = task_required_evidence TaskDone, tr_sideEffects = task_side_effects TaskDone\<rparr>,
    \<lparr>tr_id = TaskFailed, tr_from = [Running, Verifying, Review], tr_to = Failed,
      tr_trigger = ''non_cap_failure'', tr_whoMayTrigger = [EngineOnly, WorkerRequestThenEngine],
      tr_preconditions = [PcFailureObserved],
      tr_requiredEvidence = task_required_evidence TaskFailed, tr_sideEffects = task_side_effects TaskFailed\<rparr>,
    \<lparr>tr_id = TaskChanges, tr_from = [Verifying, Review], tr_to = NeedsChanges,
      tr_trigger = ''gap_or_review_changes'', tr_whoMayTrigger = [EngineOnly],
      tr_preconditions = [PcChangesRequired],
      tr_requiredEvidence = task_required_evidence TaskChanges, tr_sideEffects = task_side_effects TaskChanges\<rparr>,
    \<lparr>tr_id = TaskBlock, tr_from = TASK_NONTERMINAL_STATES, tr_to = Blocked,
      tr_trigger = ''blocker_or_user_pause'', tr_whoMayTrigger = [EngineOnly, UserActor, WorkerRequestThenEngine],
      tr_preconditions = [PcBlockerPresent],
      tr_requiredEvidence = task_required_evidence TaskBlock, tr_sideEffects = task_side_effects TaskBlock\<rparr>,
    \<lparr>tr_id = TaskInvalidate, tr_from = TASK_NONTERMINAL_STATES, tr_to = Blocked,
      tr_trigger = ''approval_invalidated'', tr_whoMayTrigger = [EngineOnly],
      tr_preconditions = [PcInvalidationApplies],
      tr_requiredEvidence = task_required_evidence TaskInvalidate, tr_sideEffects = task_side_effects TaskInvalidate\<rparr>,
    \<lparr>tr_id = TaskReplan, tr_from = TASK_NONTERMINAL_STATES, tr_to = Proposed,
      tr_trigger = ''user_replan'', tr_whoMayTrigger = [UserActor],
      tr_preconditions = [PcUserRevisionRequested],
      tr_requiredEvidence = task_required_evidence TaskReplan, tr_sideEffects = task_side_effects TaskReplan\<rparr>,
    \<lparr>tr_id = TaskStaleEvidence, tr_from = [Verifying, Review], tr_to = Verifying,
      tr_trigger = ''git_revision_changed'', tr_whoMayTrigger = [EngineOnly],
      tr_preconditions = [PcRevisionChanged],
      tr_requiredEvidence = task_required_evidence TaskStaleEvidence, tr_sideEffects = task_side_effects TaskStaleEvidence\<rparr>,
    \<lparr>tr_id = TaskCap, tr_from = [Ready, Running, Verifying, Review], tr_to = PausedCap,
      tr_trigger = ''all_candidates_capped'', tr_whoMayTrigger = [EngineOnly],
      tr_preconditions = [PcAllEligibleModelsCapped],
      tr_requiredEvidence = task_required_evidence TaskCap, tr_sideEffects = task_side_effects TaskCap\<rparr>,
    \<lparr>tr_id = TaskCapResume, tr_from = [PausedCap], tr_to = Ready,
      tr_trigger = ''eligible_cap_cleared'', tr_whoMayTrigger = [EngineOnly],
      tr_preconditions = READY_PRECONDITIONS @ [PcCapResumeValid, PcRecoveryAuthorized],
      tr_requiredEvidence = task_required_evidence TaskCapResume, tr_sideEffects = task_side_effects TaskCapResume\<rparr>,
    \<lparr>tr_id = TaskCancel, tr_from = TASK_NONTERMINAL_STATES, tr_to = Cancelled,
      tr_trigger = ''cancel'', tr_whoMayTrigger = [UserActor, EngineOnly],
      tr_preconditions = [PcCancellationRequested],
      tr_requiredEvidence = task_required_evidence TaskCancel, tr_sideEffects = task_side_effects TaskCancel\<rparr>]"

definition PHASE_TRANSITIONS :: "(phase_state, phase_edge) transition list" where
  "PHASE_TRANSITIONS = [
    \<lparr>tr_id = PhaseStart, tr_from = [PhPending], tr_to = PhRunning,
      tr_trigger = ''run'', tr_whoMayTrigger = [UserActor, EngineOnly],
      tr_preconditions = [PcPhaseStartValid, PcAuthorizationCurrent],
      tr_requiredEvidence = phase_required_evidence PhaseStart, tr_sideEffects = phase_side_effects PhaseStart\<rparr>,
    \<lparr>tr_id = PhaseGate, tr_from = [PhRunning], tr_to = PhGating,
      tr_trigger = ''tasks_completed'', tr_whoMayTrigger = [EngineOnly],
      tr_preconditions = [PcAllTasksDone, PcAuthorizationCurrent],
      tr_requiredEvidence = phase_required_evidence PhaseGate, tr_sideEffects = phase_side_effects PhaseGate\<rparr>,
    \<lparr>tr_id = PhaseDone, tr_from = [PhGating], tr_to = PhDone,
      tr_trigger = ''phase_gate_passed'', tr_whoMayTrigger = [EngineOnly],
      tr_preconditions = PHASE_DONE_PRECONDITIONS,
      tr_requiredEvidence = phase_required_evidence PhaseDone, tr_sideEffects = phase_side_effects PhaseDone\<rparr>,
    \<lparr>tr_id = PhaseFailed, tr_from = [PhRunning, PhGating], tr_to = PhFailed,
      tr_trigger = ''phase_failure'', tr_whoMayTrigger = [EngineOnly],
      tr_preconditions = [PcFailureObserved],
      tr_requiredEvidence = phase_required_evidence PhaseFailed, tr_sideEffects = phase_side_effects PhaseFailed\<rparr>,
    \<lparr>tr_id = PhaseGap, tr_from = [PhGating], tr_to = PhFailed,
      tr_trigger = ''phase_gap_or_review_changes'', tr_whoMayTrigger = [EngineOnly],
      tr_preconditions = [PcChangesRequired],
      tr_requiredEvidence = phase_required_evidence PhaseGap, tr_sideEffects = phase_side_effects PhaseGap\<rparr>,
    \<lparr>tr_id = PhaseRecover, tr_from = [PhFailed], tr_to = PhPending,
      tr_trigger = ''recovery_approved'', tr_whoMayTrigger = [UserActor, EngineOnly],
      tr_preconditions = [PcRecoveryAuthorized, PcAuthorizationCurrent],
      tr_requiredEvidence = phase_required_evidence PhaseRecover, tr_sideEffects = phase_side_effects PhaseRecover\<rparr>,
    \<lparr>tr_id = PhaseCap, tr_from = [PhRunning, PhGating], tr_to = PhPaused,
      tr_trigger = ''all_candidates_capped'', tr_whoMayTrigger = [EngineOnly],
      tr_preconditions = [PcAllEligibleModelsCapped],
      tr_requiredEvidence = phase_required_evidence PhaseCap, tr_sideEffects = phase_side_effects PhaseCap\<rparr>,
    \<lparr>tr_id = PhaseCapResume, tr_from = [PhPaused], tr_to = PhRunning,
      tr_trigger = ''eligible_cap_cleared'', tr_whoMayTrigger = [EngineOnly],
      tr_preconditions = [PcCapResumeValid, PcAuthorizationCurrent, PcRecoveryAuthorized],
      tr_requiredEvidence = phase_required_evidence PhaseCapResume, tr_sideEffects = phase_side_effects PhaseCapResume\<rparr>,
    \<lparr>tr_id = PhasePause, tr_from = PHASE_NONTERMINAL_STATES, tr_to = PhPaused,
      tr_trigger = ''phase_stop'', tr_whoMayTrigger = [EngineOnly, UserActor],
      tr_preconditions = [PcPhaseStopPresent],
      tr_requiredEvidence = phase_required_evidence PhasePause, tr_sideEffects = phase_side_effects PhasePause\<rparr>,
    \<lparr>tr_id = PhaseInvalidate, tr_from = PHASE_NONTERMINAL_STATES, tr_to = PhPaused,
      tr_trigger = ''approval_invalidated'', tr_whoMayTrigger = [EngineOnly],
      tr_preconditions = [PcInvalidationApplies, PcStopPhaseRequired],
      tr_requiredEvidence = phase_required_evidence PhaseInvalidate, tr_sideEffects = phase_side_effects PhaseInvalidate\<rparr>,
    \<lparr>tr_id = PhaseResume, tr_from = [PhPaused], tr_to = PhPending,
      tr_trigger = ''user_resume'', tr_whoMayTrigger = [UserActor],
      tr_preconditions = [PcManualResumeValid, PcAuthorizationCurrent],
      tr_requiredEvidence = phase_required_evidence PhaseResume, tr_sideEffects = phase_side_effects PhaseResume\<rparr>,
    \<lparr>tr_id = PhaseStaleEvidence, tr_from = [PhGating], tr_to = PhGating,
      tr_trigger = ''git_revision_changed'', tr_whoMayTrigger = [EngineOnly],
      tr_preconditions = [PcRevisionChanged],
      tr_requiredEvidence = phase_required_evidence PhaseStaleEvidence, tr_sideEffects = phase_side_effects PhaseStaleEvidence\<rparr>,
    \<lparr>tr_id = PhaseCancel, tr_from = PHASE_NONTERMINAL_STATES, tr_to = PhCancelled,
      tr_trigger = ''cancel'', tr_whoMayTrigger = [UserActor, EngineOnly],
      tr_preconditions = [PcCancellationRequested],
      tr_requiredEvidence = phase_required_evidence PhaseCancel, tr_sideEffects = phase_side_effects PhaseCancel\<rparr>]"


section \<open>Edge lookup\<close>

text \<open>
  \<open>findTaskTransition\<close>/\<open>findPhaseTransition\<close> of \<open>state.ts\<close>: the first row with that target
  whose source list holds the current state, narrowed by the trigger when one is given.
\<close>

definition find_transition ::
  "('s, 'id) transition list \<Rightarrow> 's \<Rightarrow> 's \<Rightarrow> string option \<Rightarrow> ('s, 'id) transition option"
where
  "find_transition rows src dst trig =
     find (\<lambda>r. tr_to r = dst \<and> src \<in> set (tr_from r) \<and>
               (case trig of None \<Rightarrow> True | Some t \<Rightarrow> tr_trigger r = t)) rows"

definition findTaskTransition ::
  "task_status \<Rightarrow> task_status \<Rightarrow> string option \<Rightarrow> (task_status, task_edge) transition option"
where
  "findTaskTransition = find_transition TASK_TRANSITIONS"

definition findPhaseTransition ::
  "phase_state \<Rightarrow> phase_state \<Rightarrow> string option \<Rightarrow> (phase_state, phase_edge) transition option"
where
  "findPhaseTransition = find_transition PHASE_TRANSITIONS"

definition TASK_TRIGGERS :: "string list" where
  "TASK_TRIGGERS = dedup (map tr_trigger TASK_TRANSITIONS)"

definition PHASE_TRIGGERS :: "string list" where
  "PHASE_TRIGGERS = dedup (map tr_trigger PHASE_TRANSITIONS)"

definition isLegalTaskEdge :: "task_status \<Rightarrow> task_status \<Rightarrow> bool" where
  "isLegalTaskEdge src dst \<longleftrightarrow> findTaskTransition src dst None \<noteq> None"

definition isLegalPhaseEdge :: "phase_state \<Rightarrow> phase_state \<Rightarrow> bool" where
  "isLegalPhaseEdge src dst \<longleftrightarrow> findPhaseTransition src dst None \<noteq> None"

text \<open>\<open>phaseLifecycleState\<close>: the lifecycle state whose storage list holds a gate status.\<close>

definition phaseLifecycleState :: "phase_gate_status \<Rightarrow> phase_state option" where
  "phaseLifecycleState g = find (\<lambda>s. g \<in> set (PHASE_STORAGE_STATES s)) PHASE_STATES"

definition phaseStorageStatus :: "phase_state \<Rightarrow> phase_gate_status" where
  "phaseStorageStatus s = hd (PHASE_STORAGE_STATES s)"

definition GATING_SUBSTAGES :: "phase_gate_status list" where
  "GATING_SUBSTAGES = PHASE_STORAGE_STATES PhGating"

section \<open>What the tables promise\<close>

text \<open>
  The contract the engine relies on: a request that names its trigger matches at most one row,
  no row leaves a terminal state, and every row carries a guard and required evidence.
\<close>

locale transition_table =
  fixes rows :: "('s, 'id) transition list"
    and terminal :: "'s list"
  assumes distinct_edges: "distinct (map (\<lambda>r. (tr_to r, tr_trigger r)) rows)"
    and terminal_closed: "r \<in> set rows \<Longrightarrow> s \<in> set terminal \<Longrightarrow> s \<notin> set (tr_from r)"
    and evidence_needed: "r \<in> set rows \<Longrightarrow> tr_requiredEvidence r \<noteq> []"
    and guarded: "r \<in> set rows \<Longrightarrow> tr_preconditions r \<noteq> []"
begin

lemma edge_unique:
  assumes "r \<in> set rows" and "r' \<in> set rows"
    and "tr_to r = tr_to r'" and "tr_trigger r = tr_trigger r'"
  shows "r = r'"
  using distinct_edges assms by (auto simp: distinct_map dest!: inj_onD)

lemma find_sound:
  assumes "find_transition rows src dst (Some trig) = Some r"
  shows "r \<in> set rows" and "tr_to r = dst" and "src \<in> set (tr_from r)" and "tr_trigger r = trig"
  using assms by (auto simp: find_transition_def dest!: find_Some_D)

lemma find_complete:
  assumes "r \<in> set rows" and "src \<in> set (tr_from r)"
  shows "find_transition rows src (tr_to r) (Some (tr_trigger r)) = Some r"
proof -
  obtain r' where r': "find_transition rows src (tr_to r) (Some (tr_trigger r)) = Some r'"
    using assms by (fastforce simp: find_transition_def find_None_iff)
  have "r' = r"
    using edge_unique find_sound [OF r'] assms(1) by metis
  with r' show ?thesis by simp
qed

lemma find_not_from_terminal: "src \<in> set terminal \<Longrightarrow> find_transition rows src dst trig = None"
  using terminal_closed by (fastforce simp: find_transition_def find_None_iff)

lemma find_evidence:
  "find_transition rows src dst (Some trig) = Some r \<Longrightarrow> tr_requiredEvidence r \<noteq> []"
  using find_sound(1) evidence_needed by blast

end

lemma task_table_ok: "transition_table TASK_TRANSITIONS TASK_TERMINAL_STATES"
  by unfold_locales
    (auto simp: TASK_TRANSITIONS_def TASK_TERMINAL_STATES_def TASK_NONTERMINAL_STATES_def
      READY_PRECONDITIONS_def TASK_DONE_PRECONDITIONS_def)

interpretation task_table: transition_table TASK_TRANSITIONS TASK_TERMINAL_STATES
  by (rule task_table_ok)

lemma phase_table_ok: "transition_table PHASE_TRANSITIONS PHASE_TERMINAL_STATES"
  by unfold_locales
    (auto simp: PHASE_TRANSITIONS_def PHASE_TERMINAL_STATES_def PHASE_NONTERMINAL_STATES_def
      PHASE_DONE_PRECONDITIONS_def)

interpretation phase_table: transition_table PHASE_TRANSITIONS PHASE_TERMINAL_STATES
  by (rule phase_table_ok)

end
