(* ===== verification/Payloads.thy ===== *)
theory Payloads
  imports StoreRecords
begin

text \<open>
  What the program hashes. \<open>hashRecord\<close> (\<open>src/storage/repos/base.ts\<close>), \<open>gateStateHash\<close> and
  \<open>taskGateInputHash\<close> (\<open>src/verification/task-gate.ts\<close>) apply SHA-256 of \<open>node:crypto\<close> to the
  canonical JSON of a value. The digest is a parameter of the model; here is the type of the
  values it is applied to, with the small records of the gate that occur in them.
\<close>

text \<open>\<open>CheckRunStatus\<close> of \<open>evidence.ts\<close>.\<close>

datatype check_run_status = CsPass | CsFail | CsFlaky | CsMissing | CsUnavailable | CsTimeout

primrec check_status_text :: "check_run_status \<Rightarrow> string" where
  "check_status_text CsPass = ''pass''"
| "check_status_text CsFail = ''fail''"
| "check_status_text CsFlaky = ''flaky''"
| "check_status_text CsMissing = ''missing''"
| "check_status_text CsUnavailable = ''unavailable''"
| "check_status_text CsTimeout = ''timeout''"

text \<open>\<open>PolicyReviewResult\<close> and \<open>JevGateConfig\<close> of \<open>task-gate.ts\<close>.\<close>

record policy_review_result =
  po_modelReview :: bool
  po_humanApproval :: bool
  po_changeClass :: string
  po_policyVersion :: string
  po_revision :: git_sha
  po_taskRevision :: revision

record jev_gate_config =
  jv_enabled :: bool
  jv_optional :: bool
  jv_confidenceThreshold :: rat
  jv_questionVersion :: string

text \<open>The fields of the task and workflow the gate input hash covers.\<close>

record gate_task_facts =
  gt_id :: string
  gt_revision :: revision
  gt_status :: task_status
  gt_riskClass :: risk_class
  gt_blocker :: "string option"
  gt_acceptanceCriteria :: "acceptance_criterion list"
  gt_checks :: "check_definition list"
  gt_ownership :: ownership

record gate_state_facts =
  gs_taskRevision :: revision
  gs_revision :: git_sha
  gs_acceptanceCriteria :: "(string \<times> string) list"
  gs_checks :: "(string \<times> check_kind \<times> string \<times> string \<times> int \<times> string list) list"
  gs_checkStates :: "(string \<times> check_run_status) list"
  gs_evidence :: "string list list"

record gate_input_facts =
  gi_workflow :: "string \<times> revision \<times> string \<times> workflow_mode"
  gi_task :: gate_task_facts
  gi_revision :: "git_sha option"
  gi_evidence :: "string list"
  gi_decisions :: "string list"
  gi_approvals :: "(string \<times> invalidation_reason option) list"
  gi_attempts :: "(string \<times> attempt_outcome option \<times> worker_role) list"
  gi_unresolvedBlockers :: "string list"
  gi_policy :: "policy_review_result option"
  gi_reviews :: "(string \<times> git_sha \<times> revision \<times> content_hash \<times> string list) list"
  gi_jev :: jev_gate_config
  gi_now :: iso_timestamp

datatype payload =
    PWorkflow workflow | PPhase phase | PTask task | PAttempt attempt | PApproval approval | PNull
  | PGateState gate_state_facts | PGateInput gate_input_facts

end
