(* ===== verification/Store.thy ===== *)
theory Store
  imports Transitions Payloads
begin

text \<open>
  The store: \<open>src/storage/db.ts\<close> (the serialised write transaction and its audit rows),
  \<open>src/storage/repos/base.ts\<close> and \<open>repos/index.ts\<close> (typed repositories and their record rules),
  \<open>src/storage/transition-log.ts\<close> and \<open>src/storage/gate-receipts.ts\<close>. SQLite is modelled by its
  tables as row lists: a primary key, the foreign key of an event, blocker or receipt to its
  workflow, the CHECK constraints and the append-only triggers of the migrations are guards of
  the operations. SHA-256, the clock and the id generator are parameters held in \<open>env\<close>.
\<close>

section \<open>The world\<close>

datatype subject_state = TaskState task_status | PhaseState phase_state | RawState string

datatype edge_id = TaskEdge task_edge | PhaseEdge phase_edge

datatype rejection_code =
    UnknownState | UnknownTrigger | UnlistedEdge | UnauthorizedActor | PreconditionFailed
  | MissingEvidence | TerminalSubject | StaleSnapshot | UnknownSubject | StatusWriteForbidden

record transition_event =
  ev_eventId :: string
  ev_createdAt :: iso_timestamp
  ev_workflowId :: string
  ev_subjectKind :: subject_kind
  ev_subjectId :: string
  ev_fromState :: subject_state
  ev_toState :: subject_state
  ev_transitionId :: "edge_id option"
  ev_trigger :: string
  ev_actor :: transition_actor
  ev_disposition :: disposition
  ev_reasonCode :: "rejection_code option"
  ev_taskRevision :: "revision option"
  ev_planRevision :: revision
  ev_gitRevision :: "git_sha option"
  ev_mode :: workflow_mode
  ev_policyVersion :: string
  ev_failedGuards :: "precondition list"
  ev_evidenceRefs :: "string list"
  ev_beforeHash :: content_hash
  ev_afterHash :: content_hash

text \<open>The rules of \<open>RecordRuleError\<close>, one constructor per \<open>reject\<close> of the repositories.\<close>

datatype record_rule =
    NotAPassingReceipt | ReceiptOfOtherRevision | ReceiptAlreadyUsed | DoneWithoutReceipt
  | ReceiptOfOtherTask | RevisionNotBumped | RevisionAlone | AttemptFrozen | OnlyInvalidation
  | AlreadyInvalidated | InvalidationToNull

text \<open>Everything a call may throw: the store's errors, those of SQLite, and the state machine's.\<close>

datatype failure =
    RecordNotFound record_table string
  | RecordRule record_rule
  | ConstraintFailed
  | TriggerAbort
  | ReadOnlyStore
  | UnknownBlocker
  | TransitionRejected rejection_code "precondition list" "transition_event option"
  | PendingRejection transition_event rejection_code "precondition list"
  | GateRefused
  | InvalidTime

record db =
  db_workflows :: "workflow list"
  db_phases :: "phase list"
  db_tasks :: "task list"
  db_attempts :: "attempt list"
  db_decisions :: "decision list"
  db_evidence :: "evidence list"
  db_approvals :: "approval list"
  db_events :: "transition_event list"
  db_blockers :: "blocker_row list"
  db_receipts :: "gate_receipt list"
  db_audit :: "audit_entry list"
  db_requests :: "approval_request list"

record env =
  env_now :: "nat \<Rightarrow> iso_timestamp"
  env_id :: "nat \<Rightarrow> string"
  env_sha :: "payload \<Rightarrow> content_hash"

text \<open>
  The clock and the id generator are counters into their streams. They and the in-memory field
  \<open>#pendingReceiptId\<close> of \<open>TaskRepository\<close> are not rolled back with the database.
\<close>

record world =
  w_env :: env
  w_db :: db
  w_depth :: nat
  w_writable :: bool
  w_actor :: string
  w_pending :: "string option"
  w_clock :: nat
  w_ids :: nat

type_synonym 'a io = "(world, failure, 'a) eff"

definition getNow :: "iso_timestamp io" where
  "getNow w = (Inr (env_now (w_env w) (w_clock w)), w\<lparr>w_clock := Suc (w_clock w)\<rparr>)"

definition newId :: "string io" where
  "newId w = (Inr (env_id (w_env w) (w_ids w)), w\<lparr>w_ids := Suc (w_ids w)\<rparr>)"

definition hashOf :: "payload \<Rightarrow> content_hash io" where
  "hashOf p = gets (\<lambda>w. env_sha (w_env w) p)"

abbreviation getDb :: "(db \<Rightarrow> 'a) \<Rightarrow> 'a io" where
  "getDb f \<equiv> gets (\<lambda>w. f (w_db w))"

abbreviation modifyDb :: "(db \<Rightarrow> db) \<Rightarrow> unit io" where
  "modifyDb f \<equiv> modify (\<lambda>w. w\<lparr>w_db := f (w_db w)\<rparr>)"

section \<open>The write transaction\<close>

text \<open>
  \<open>Store.write\<close>: a nested call joins the outer transaction, the outermost one commits or rolls
  the database back.
\<close>

definition store_write :: "'a io \<Rightarrow> 'a io" where
  "store_write fn w =
     (if \<not> w_writable w then (Inl ReadOnlyStore, w)
      else if w_depth w > 0 then
        (case fn (w\<lparr>w_depth := w_depth w + 1\<rparr>) of
           (r, w') \<Rightarrow> (r, w'\<lparr>w_depth := w_depth w' - 1\<rparr>))
      else
        (case fn (w\<lparr>w_depth := 1\<rparr>) of
           (Inr x, w') \<Rightarrow> (Inr x, w'\<lparr>w_depth := 0\<rparr>)
         | (Inl e, w') \<Rightarrow> (Inl e, w'\<lparr>w_db := w_db w, w_depth := 0\<rparr>)))"

section \<open>Repositories\<close>

text \<open>
  A repository is described by its \<open>TableSpec\<close>: the table's name, where its rows live, the key,
  the timestamps, the workflow for the audit row and the payload that is hashed.
\<close>

record 'r repo =
  rp_table :: record_table
  rp_rows :: "db \<Rightarrow> 'r list"
  rp_set :: "'r list \<Rightarrow> db \<Rightarrow> db"
  rp_id :: "'r \<Rightarrow> string"
  rp_createdAt :: "'r \<Rightarrow> iso_timestamp"
  rp_touch :: "iso_timestamp \<Rightarrow> 'r \<Rightarrow> 'r"
  rp_workflow :: "'r \<Rightarrow> string option"
  rp_payload :: "'r \<Rightarrow> payload"

definition repo_get :: "'r repo \<Rightarrow> string \<Rightarrow> 'r option io" where
  "repo_get rp i = getDb (\<lambda>d. tbl_get (rp_id rp) i (rp_rows rp d))"

definition repo_require :: "'r repo \<Rightarrow> string \<Rightarrow> 'r io" where
  "repo_require rp i = andThen (repo_get rp i) (\<lambda>found.
     case found of None \<Rightarrow> throw (RecordNotFound (rp_table rp) i) | Some r \<Rightarrow> ret r)"

text \<open>\<open>query\<close>: the matching rows \<open>ORDER BY createdAt, id\<close>.\<close>

definition repo_query :: "'r repo \<Rightarrow> ('r \<Rightarrow> bool) \<Rightarrow> db \<Rightarrow> 'r list" where
  "repo_query rp P d =
     sort_key (\<lambda>r. (rp_createdAt rp r, rp_id rp r)) (filter P (rp_rows rp d))"

definition workflow_exists :: "string \<Rightarrow> db \<Rightarrow> bool" where
  "workflow_exists i d \<longleftrightarrow> tbl_get wf_id i (db_workflows d) \<noteq> None"

text \<open>\<open>#writeAuditRow\<close> and the insert of \<open>AuditRepository\<close>, which does not audit itself.\<close>

definition writeAuditRow ::
  "record_table \<Rightarrow> string \<Rightarrow> audit_operation \<Rightarrow> content_hash option \<Rightarrow> content_hash \<Rightarrow>
   string option \<Rightarrow> string \<Rightarrow> unit io"
where
  "writeAuditRow tab i oper prior after wid actor =
     andThen getNow (\<lambda>ts. andThen newId (\<lambda>auditId. store_write (
       let row = \<lparr>au_id = auditId, au_createdAt = ts, au_workflowId = wid, au_table = tab,
                  au_recordId = i, au_operation = oper, au_beforeHash = prior,
                  au_afterHash = after, au_actor = actor\<rparr>
       in andThen (getDb (\<lambda>d. if (case wid of None \<Rightarrow> True | Some x \<Rightarrow> workflow_exists x d)
                              then tbl_add au_id row (db_audit d) else None)) (\<lambda>added.
            case added of None \<Rightarrow> throw ConstraintFailed
            | Some rows \<Rightarrow> modifyDb (\<lambda>d. d\<lparr>db_audit := rows\<rparr>)))))"

text \<open>\<open>MutableRepository.update\<close>. The patch and the record-specific \<open>beforeUpdate\<close> are arguments.\<close>

definition repo_update ::
  "'r repo \<Rightarrow> ('r \<Rightarrow> 'r \<Rightarrow> 'r io) \<Rightarrow> ('r \<Rightarrow> 'r) \<Rightarrow> string \<Rightarrow> 'r io"
where
  "repo_update rp beforeUpdate patch i = store_write (
     andThen (repo_require rp i) (\<lambda>prior.
     andThen getNow (\<lambda>ts.
     andThen (beforeUpdate prior (rp_touch rp ts (patch prior))) (\<lambda>after.
     andThen (modifyDb (\<lambda>d. rp_set rp (tbl_put (rp_id rp) after (rp_rows rp d)) d)) (\<lambda>_.
     andThen (hashOf (rp_payload rp prior)) (\<lambda>h0.
     andThen (hashOf (rp_payload rp after)) (\<lambda>h1.
     andThen (gets w_actor) (\<lambda>actor.
     andThen (writeAuditRow (rp_table rp) i AuUpdate (Some h0) h1 (rp_workflow rp after) actor)
       (\<lambda>_. ret after)))))))))"

definition workflowRepo :: "workflow repo" where
  "workflowRepo = \<lparr>rp_table = TbWorkflow, rp_rows = db_workflows,
     rp_set = (\<lambda>rows d. d\<lparr>db_workflows := rows\<rparr>), rp_id = wf_id, rp_createdAt = wf_createdAt,
     rp_touch = (\<lambda>ts r. r\<lparr>wf_updatedAt := ts\<rparr>), rp_workflow = (\<lambda>r. Some (wf_id r)),
     rp_payload = PWorkflow\<rparr>"

definition phaseRepo :: "phase repo" where
  "phaseRepo = \<lparr>rp_table = TbPhase, rp_rows = db_phases,
     rp_set = (\<lambda>rows d. d\<lparr>db_phases := rows\<rparr>), rp_id = ph_id, rp_createdAt = ph_createdAt,
     rp_touch = (\<lambda>ts r. r\<lparr>ph_updatedAt := ts\<rparr>), rp_workflow = (\<lambda>r. Some (ph_workflowId r)),
     rp_payload = PPhase\<rparr>"

definition taskRepo :: "task repo" where
  "taskRepo = \<lparr>rp_table = TbTask, rp_rows = db_tasks,
     rp_set = (\<lambda>rows d. d\<lparr>db_tasks := rows\<rparr>), rp_id = t_id, rp_createdAt = t_createdAt,
     rp_touch = (\<lambda>ts r. r\<lparr>t_updatedAt := ts\<rparr>), rp_workflow = (\<lambda>r. Some (t_workflowId r)),
     rp_payload = PTask\<rparr>"

definition attemptRepo :: "attempt repo" where
  "attemptRepo = \<lparr>rp_table = TbAttempt, rp_rows = db_attempts,
     rp_set = (\<lambda>rows d. d\<lparr>db_attempts := rows\<rparr>), rp_id = a_id, rp_createdAt = a_createdAt,
     rp_touch = (\<lambda>ts r. r\<lparr>a_updatedAt := ts\<rparr>), rp_workflow = (\<lambda>_. None),
     rp_payload = PAttempt\<rparr>"

definition approvalRepo :: "approval repo" where
  "approvalRepo = \<lparr>rp_table = TbApproval, rp_rows = db_approvals,
     rp_set = (\<lambda>rows d. d\<lparr>db_approvals := rows\<rparr>), rp_id = ap_id, rp_createdAt = ap_createdAt,
     rp_touch = (\<lambda>ts r. r\<lparr>ap_updatedAt := ts\<rparr>), rp_workflow = (\<lambda>r. Some (ap_workflowId r)),
     rp_payload = PApproval\<rparr>"


lemmas repo_defs = workflowRepo_def phaseRepo_def taskRepo_def attemptRepo_def approvalRepo_def

text \<open>\<open>PhaseRepository.forWorkflow\<close> sorts the query's rows by plan order, stably.\<close>

definition phases_forWorkflow :: "string \<Rightarrow> db \<Rightarrow> phase list" where
  "phases_forWorkflow wid d =
     sort_key ph_order (repo_query phaseRepo (\<lambda>p. ph_workflowId p = wid) d)"

definition tasks_forPhase :: "string \<Rightarrow> db \<Rightarrow> task list" where
  "tasks_forPhase pid d = repo_query taskRepo (\<lambda>t. t_phaseId t = pid) d"

definition tasks_findByWorkflow :: "string \<Rightarrow> db \<Rightarrow> task list" where
  "tasks_findByWorkflow wid d = repo_query taskRepo (\<lambda>t. t_workflowId t = wid) d"

definition attempts_forTask :: "string \<Rightarrow> db \<Rightarrow> attempt list" where
  "attempts_forTask tid d = repo_query attemptRepo (\<lambda>a. a_taskId a = tid) d"

definition attempts_open :: "db \<Rightarrow> attempt list" where
  "attempts_open d = repo_query attemptRepo (\<lambda>a. a_outcome a = None) d"

section \<open>Gate receipts\<close>

definition receipt_find :: "string \<Rightarrow> db \<Rightarrow> gate_receipt option" where
  "receipt_find rid d = tbl_get g_receiptId rid (db_receipts d)"

text \<open>\<open>record\<close>, with the table's primary key, foreign key and two CHECK constraints.\<close>

definition receipt_record :: "gate_receipt \<Rightarrow> gate_receipt io" where
  "receipt_record r =
     andThen (getDb (\<lambda>d. if workflow_exists (g_workflowId r) d \<and>
           (g_disposition r = GdPass) = (g_reasonCode r = None) \<and>
           (g_disposition r = GdPass \<or> g_consumedAt r = None)
         then tbl_add g_receiptId r (db_receipts d) else None)) (\<lambda>added.
       case added of None \<Rightarrow> throw ConstraintFailed
       | Some rows \<Rightarrow> andThen (modifyDb (\<lambda>d. d\<lparr>db_receipts := rows\<rparr>)) (\<lambda>_. ret r))"

definition receipts_forSubject :: "gate_kind \<Rightarrow> string \<Rightarrow> db \<Rightarrow> gate_receipt list" where
  "receipts_forSubject gate i d =
     sort_key g_evaluatedAt (filter (\<lambda>r. g_gate r = gate \<and> g_subjectId r = i) (db_receipts d))"

definition receipt_latestForSubject :: "gate_kind \<Rightarrow> string \<Rightarrow> db \<Rightarrow> gate_receipt option" where
  "receipt_latestForSubject gate i d = last_opt (receipts_forSubject gate i d)"

definition receipt_findUsablePass ::
  "gate_kind \<Rightarrow> string \<Rightarrow> content_hash \<Rightarrow> db \<Rightarrow> gate_receipt option"
where
  "receipt_findUsablePass gate i h d =
     find (\<lambda>r. g_inputHash r = h \<and> g_disposition r = GdPass \<and> g_consumedAt r = None)
       (receipts_forSubject gate i d)"

text \<open>
  \<open>consume\<close>: \<open>UPDATE ... WHERE disposition = 'pass' AND consumedAt IS NULL\<close>, true when it
  changed a row.
\<close>

definition receipt_consume :: "string \<Rightarrow> iso_timestamp \<Rightarrow> bool io" where
  "receipt_consume rid ts =
     andThen (getDb (receipt_find rid)) (\<lambda>found.
       case found of
         None \<Rightarrow> ret False
       | Some r \<Rightarrow>
           if g_disposition r = GdPass \<and> g_consumedAt r = None
           then andThen (modifyDb (\<lambda>d. d\<lparr>db_receipts :=
                    tbl_put g_receiptId (r\<lparr>g_consumedAt := Some ts\<rparr>) (db_receipts d)\<rparr>)) (\<lambda>_. ret True)
           else ret False)"

section \<open>Task updates\<close>

text \<open>A patch carries the fields it sets; a key that is absent is \<open>None\<close>.\<close>

record task_patch =
  pt_goal :: "string option"
  pt_acceptanceCriteria :: "acceptance_criterion list option"
  pt_checks :: "check_definition list option"
  pt_ownership :: "ownership option"
  pt_dependencies :: "string list option"
  pt_phaseId :: "string option"
  pt_riskClass :: "risk_class option"
  pt_revision :: "revision option"
  pt_status :: "task_status option"
  pt_blocker :: "string option option"

definition no_patch :: task_patch where
  "no_patch = \<lparr>pt_goal = None, pt_acceptanceCriteria = None, pt_checks = None, pt_ownership = None,
     pt_dependencies = None, pt_phaseId = None, pt_riskClass = None, pt_revision = None,
     pt_status = None, pt_blocker = None\<rparr>"

definition set_opt :: "'a option \<Rightarrow> 'a \<Rightarrow> 'a" where
  "set_opt v old = (case v of None \<Rightarrow> old | Some x \<Rightarrow> x)"

lemma set_opt_simps [simp]: "set_opt None x = x" "set_opt (Some y) x = y"
  by (simp_all add: set_opt_def)

definition apply_task_patch :: "task_patch \<Rightarrow> task \<Rightarrow> task" where
  "apply_task_patch p t = t\<lparr>
     t_phaseId := set_opt (pt_phaseId p) (t_phaseId t),
     t_revision := set_opt (pt_revision p) (t_revision t),
     t_goal := set_opt (pt_goal p) (t_goal t),
     t_dependencies := set_opt (pt_dependencies p) (t_dependencies t),
     t_ownership := set_opt (pt_ownership p) (t_ownership t),
     t_acceptanceCriteria := set_opt (pt_acceptanceCriteria p) (t_acceptanceCriteria t),
     t_checks := set_opt (pt_checks p) (t_checks t),
     t_riskClass := set_opt (pt_riskClass p) (t_riskClass t),
     t_status := set_opt (pt_status p) (t_status t),
     t_blocker := set_opt (pt_blocker p) (t_blocker t)\<rparr>"

text \<open>\<open>TASK_REVISIONED_FIELDS\<close>.\<close>

definition touchesRevisioned :: "task_patch \<Rightarrow> bool" where
  "touchesRevisioned p \<longleftrightarrow> pt_goal p \<noteq> None \<or> pt_acceptanceCriteria p \<noteq> None \<or> pt_checks p \<noteq> None"

text \<open>
  \<open>authoriseDone\<close>: present a passing receipt for one \<open>done\<close> patch, and consume it. The pending
  authorisation is cleared by the next update whatever its outcome.
\<close>

definition authoriseDone :: "string \<Rightarrow> string io" where
  "authoriseDone rid = store_write (
     andThen (getDb (receipt_find rid)) (\<lambda>found.
       case found of
         None \<Rightarrow> throw (RecordRule NotAPassingReceipt)
       | Some receipt \<Rightarrow>
           if g_gate receipt \<noteq> GkTask \<or> g_disposition receipt \<noteq> GdPass
           then throw (RecordRule NotAPassingReceipt)
           else andThen (repo_require taskRepo (g_subjectId receipt)) (\<lambda>task.
             if g_subjectRevision receipt \<noteq> t_revision task
             then throw (RecordRule ReceiptOfOtherRevision)
             else andThen getNow (\<lambda>ts.
               andThen (receipt_consume rid ts) (\<lambda>consumed.
                 if \<not> consumed then throw (RecordRule ReceiptAlreadyUsed)
                 else andThen (modify (\<lambda>w. w\<lparr>w_pending := Some rid\<rparr>)) (\<lambda>_. ret rid))))))"

definition task_beforeUpdate :: "task_patch \<Rightarrow> task \<Rightarrow> task \<Rightarrow> task io" where
  "task_beforeUpdate patch prior candidate =
     andThen (gets w_pending) (\<lambda>authorisation.
     andThen (modify (\<lambda>w. w\<lparr>w_pending := None\<rparr>)) (\<lambda>_.
     andThen (if pt_status patch = Some Done \<and> t_status prior \<noteq> Done
              then (case authorisation of
                      None \<Rightarrow> throw (RecordRule DoneWithoutReceipt)
                    | Some rid \<Rightarrow> andThen (getDb (receipt_find rid)) (\<lambda>found.
                        case found of
                          None \<Rightarrow> throw (RecordRule ReceiptOfOtherTask)
                        | Some receipt \<Rightarrow>
                            if g_subjectId receipt \<noteq> t_id prior \<or>
                               g_subjectRevision receipt \<noteq> t_revision prior
                            then throw (RecordRule ReceiptOfOtherTask) else ret ()))
              else ret ()) (\<lambda>_.
     if touchesRevisioned patch \<and> t_revision candidate \<noteq> t_revision prior + 1
     then throw (RecordRule RevisionNotBumped)
     else if \<not> touchesRevisioned patch \<and>
             (case pt_revision patch of None \<Rightarrow> False | Some r \<Rightarrow> r \<noteq> t_revision prior)
     then throw (RecordRule RevisionAlone)
     else ret candidate)))"

definition tasks_update :: "string \<Rightarrow> task_patch \<Rightarrow> task io" where
  "tasks_update i patch = repo_update taskRepo (task_beforeUpdate patch) (apply_task_patch patch) i"

section \<open>Phase, attempt and approval updates\<close>

definition phases_update :: "string \<Rightarrow> (phase \<Rightarrow> phase) \<Rightarrow> phase io" where
  "phases_update i patch = repo_update phaseRepo (\<lambda>_ candidate. ret candidate) patch i"

definition attempt_beforeUpdate :: "attempt \<Rightarrow> attempt \<Rightarrow> attempt io" where
  "attempt_beforeUpdate prior candidate =
     (if a_outcome prior \<noteq> None then throw (RecordRule AttemptFrozen) else ret candidate)"

definition attempts_update :: "string \<Rightarrow> (attempt \<Rightarrow> attempt) \<Rightarrow> attempt io" where
  "attempts_update i patch = repo_update attemptRepo attempt_beforeUpdate patch i"

text \<open>
  An approval patch sets its invalidation, or something else; the second argument says whether
  other keys are present.
\<close>

definition approval_beforeUpdate ::
  "bool \<Rightarrow> approval \<Rightarrow> approval \<Rightarrow> approval io"
where
  "approval_beforeUpdate otherKeys prior candidate =
     (if otherKeys then throw (RecordRule OnlyInvalidation)
      else if ap_invalidation prior \<noteq> None then throw (RecordRule AlreadyInvalidated)
      else if ap_invalidation candidate = None then throw (RecordRule InvalidationToNull)
      else ret candidate)"

definition approvals_update :: "string \<Rightarrow> bool \<Rightarrow> (approval \<Rightarrow> approval) \<Rightarrow> approval io" where
  "approvals_update i otherKeys patch =
     repo_update approvalRepo (approval_beforeUpdate otherKeys) patch i"

definition approvals_invalidate :: "string \<Rightarrow> approval_invalidation \<Rightarrow> approval io" where
  "approvals_invalidate i why =
     approvals_update i False (\<lambda>ap. ap\<lparr>ap_invalidation := Some why\<rparr>)"

text \<open>
  \<open>insert\<close>: \<open>normalise\<close> fills empty timestamps, the key is fresh, the rows the new row refers to
  exist (\<open>refs\<close>), and the insert is audited.
\<close>

definition repo_insert ::
  "'r repo \<Rightarrow> (iso_timestamp \<Rightarrow> 'r \<Rightarrow> 'r) \<Rightarrow> ('r \<Rightarrow> db \<Rightarrow> bool) \<Rightarrow> 'r \<Rightarrow> 'r io"
where
  "repo_insert rp normalise refs r = store_write (
     andThen (if rp_createdAt rp r = [] then getNow else ret (rp_createdAt rp r)) (\<lambda>created.
     let stored = normalise created r in
     andThen (getDb (\<lambda>d. if refs stored d then tbl_add (rp_id rp) stored (rp_rows rp d) else None)) (\<lambda>added.
       case added of None \<Rightarrow> throw ConstraintFailed
       | Some rows \<Rightarrow> andThen (modifyDb (rp_set rp rows)) (\<lambda>_.
           andThen (hashOf (rp_payload rp stored)) (\<lambda>h.
           andThen (gets w_actor) (\<lambda>actor.
           andThen (writeAuditRow (rp_table rp) (rp_id rp stored) AuInsert None h (rp_workflow rp stored) actor)
             (\<lambda>_. ret stored)))))))"

definition scope_exists :: "approval_scope \<Rightarrow> db \<Rightarrow> bool" where
  "scope_exists sc d = (case sc of ScTask i \<Rightarrow> tbl_get t_id i (db_tasks d) \<noteq> None
     | ScPhase i \<Rightarrow> tbl_get ph_id i (db_phases d) \<noteq> None | _ \<Rightarrow> True)"

definition approval_normalise :: "iso_timestamp \<Rightarrow> approval \<Rightarrow> approval" where
  "approval_normalise created ap =
     ap\<lparr>ap_createdAt := created, ap_updatedAt := (if ap_updatedAt ap = [] then created else ap_updatedAt ap)\<rparr>"

definition approvals_insert :: "approval \<Rightarrow> approval io" where
  "approvals_insert ap = repo_insert approvalRepo approval_normalise
     (\<lambda>a d. workflow_exists (ap_workflowId a) d \<and> scope_exists (ap_scope a) d) ap"

section \<open>The transition log and the blocker rows\<close>

definition transitionLog_insert :: "transition_event \<Rightarrow> transition_event io" where
  "transitionLog_insert ev =
     andThen (getDb (\<lambda>d. if workflow_exists (ev_workflowId ev) d
                         then tbl_add ev_eventId ev (db_events d) else None)) (\<lambda>added.
       case added of None \<Rightarrow> throw ConstraintFailed
       | Some rows \<Rightarrow> andThen (modifyDb (\<lambda>d. d\<lparr>db_events := rows\<rparr>)) (\<lambda>_. ret ev))"

definition events_forSubject :: "subject_kind \<Rightarrow> string \<Rightarrow> db \<Rightarrow> transition_event list" where
  "events_forSubject k i d =
     sort_key ev_createdAt (filter (\<lambda>e. ev_subjectKind e = k \<and> ev_subjectId e = i) (db_events d))"

definition events_rejectionsForSubject :: "subject_kind \<Rightarrow> string \<Rightarrow> db \<Rightarrow> transition_event list" where
  "events_rejectionsForSubject k i d =
     sort_key ev_createdAt (filter (\<lambda>e. ev_subjectKind e = k \<and> ev_subjectId e = i \<and>
        ev_disposition e = Rejected) (db_events d))"

definition blocker_get :: "string \<Rightarrow> db \<Rightarrow> blocker_row option" where
  "blocker_get i d = tbl_get b_blockerId i (db_blockers d)"

definition blocker_insert :: "blocker_row \<Rightarrow> blocker_row io" where
  "blocker_insert b =
     andThen (getDb (\<lambda>d. if workflow_exists (b_workflowId b) d
                         then tbl_add b_blockerId b (db_blockers d) else None)) (\<lambda>added.
       case added of None \<Rightarrow> throw ConstraintFailed
       | Some rows \<Rightarrow> andThen (modifyDb (\<lambda>d. d\<lparr>db_blockers := rows\<rparr>)) (\<lambda>_. ret b))"

definition blockers_forSubject :: "subject_kind \<Rightarrow> string \<Rightarrow> db \<Rightarrow> blocker_row list" where
  "blockers_forSubject k i d =
     sort_key b_createdAt (filter (\<lambda>b. b_subjectKind b = k \<and> b_subjectId b = i) (db_blockers d))"

definition unresolvedForSubject :: "subject_kind \<Rightarrow> string \<Rightarrow> db \<Rightarrow> blocker_row list" where
  "unresolvedForSubject k i d =
     sort_key b_createdAt (filter (\<lambda>b. b_subjectKind b = k \<and> b_subjectId b = i \<and>
        b_resolvedAt b = None) (db_blockers d))"

text \<open>\<open>resolve\<close>, with the trigger \<open>blocker_resolution_is_final\<close>.\<close>

definition blocker_resolve ::
  "string \<Rightarrow> iso_timestamp \<Rightarrow> string \<Rightarrow> string \<Rightarrow> blocker_row io"
where
  "blocker_resolve i ts who detail =
     andThen (getDb (blocker_get i)) (\<lambda>found.
       case found of
         None \<Rightarrow> throw UnknownBlocker
       | Some b \<Rightarrow>
           if b_resolvedAt b \<noteq> None then throw TriggerAbort
           else let b' = b\<lparr>b_resolvedAt := Some ts, b_resolvedBy := Some who,
                           b_resolutionDetail := Some detail\<rparr>
             in andThen (modifyDb (\<lambda>d. d\<lparr>db_blockers := tbl_put b_blockerId b' (db_blockers d)\<rparr>))
                  (\<lambda>_. ret b'))"


section \<open>Reasoning about transactions\<close>

lemma store_write_InrE:
  assumes "store_write m w = (Inr x, w')"
  obtains w1 d where "w_writable w" "m (w\<lparr>w_depth := Suc (w_depth w)\<rparr>) = (Inr x, w1)"
    "w' = w1\<lparr>w_depth := d\<rparr>"
  using assms by (auto simp: store_write_def split: if_splits prod.splits sum.splits)

lemma store_write_InlE:
  assumes "store_write m w = (Inl e, w')"
  obtains (read_only) "e = ReadOnlyStore" "w' = w"
  | (failed) w1 d where "m (w\<lparr>w_depth := Suc (w_depth w)\<rparr>) = (Inl e, w1)"
    "w' = w1\<lparr>w_db := if w_depth w = 0 then w_db w else w_db w1, w_depth := d\<rparr>"
proof (cases "w_writable w")
  case False
  then show ?thesis using assms read_only by (simp add: store_write_def)
next
  case True
  show ?thesis
  proof (cases "w_depth w")
    case 0
    then show ?thesis
      using assms True failed [of _ 0]
      by (auto simp: store_write_def split: prod.splits sum.splits)
  next
    case (Suc n)
    then show ?thesis
      using assms True failed [of _ "w_depth _ - 1"]
      by (auto simp: store_write_def split: prod.splits sum.splits)
  qed
qed

text \<open>At the outermost level a failed transaction changes nothing in the database.\<close>

lemma store_write_rollback:
  assumes "store_write m w = (Inl e, w')" and "w_depth w = 0"
  shows "w_db w' = w_db w"
  using assms by (auto elim!: store_write_InlE)

text \<open>
  A reflexive and transitive relation on databases that every primitive respects is respected
  by everything built from them: the contract under which histories and invariants are proved.
\<close>

definition moves :: "(db \<Rightarrow> db \<Rightarrow> bool) \<Rightarrow> 'a io \<Rightarrow> world \<Rightarrow> bool" where
  "moves R m w \<longleftrightarrow> R (w_db w) (w_db (snd (m w)))"

definition evolves :: "(db \<Rightarrow> db \<Rightarrow> bool) \<Rightarrow> 'a io \<Rightarrow> bool" where
  "evolves R m \<longleftrightarrow> (\<forall>w. R (w_db w) (w_db (snd (m w))))"

lemma evolves_moves: "evolves R m \<Longrightarrow> moves R m w"
  by (simp add: evolves_def moves_def)

lemma moves_evolves: "(\<And>w. moves R m w) \<Longrightarrow> evolves R m"
  by (simp add: evolves_def moves_def)

lemma evolvesI: "(\<And>w r w'. m w = (r, w') \<Longrightarrow> R (w_db w) (w_db w')) \<Longrightarrow> evolves R m"
  unfolding evolves_def by (metis prod.collapse)

lemma evolvesD: "evolves R m \<Longrightarrow> m w = (r, w') \<Longrightarrow> R (w_db w) (w_db w')"
  unfolding evolves_def by (metis snd_conv)

locale db_relation =
  fixes R :: "db \<Rightarrow> db \<Rightarrow> bool"
  assumes R_refl: "R d d"
    and R_trans: "R d1 d2 \<Longrightarrow> R d2 d3 \<Longrightarrow> R d1 d3"
begin

lemma ev_same: "(\<And>w. w_db (snd (m w)) = w_db w) \<Longrightarrow> evolves R m"
  by (simp add: evolves_def R_refl)

lemma ev_ret: "evolves R (ret x)"
  by (rule ev_same) simp

lemma ev_throw: "evolves R (throw x)"
  by (rule ev_same) simp

lemma ev_gets: "evolves R (gets f)"
  by (rule ev_same) simp

lemma ev_getNow: "evolves R getNow"
  by (rule ev_same) (simp add: getNow_def)

lemma ev_newId: "evolves R newId"
  by (rule ev_same) (simp add: newId_def)

lemma ev_hashOf: "evolves R (hashOf p)"
  by (simp add: hashOf_def ev_gets)

lemma ev_modify: "(\<And>w. w_db (f w) = w_db w) \<Longrightarrow> evolves R (modify f)"
  by (rule ev_same) simp

lemma ev_modifyDb: "(\<And>d. R d (f d)) \<Longrightarrow> evolves R (modifyDb f)"
  by (simp add: evolves_def)

lemma ev_andThen:
  assumes "evolves R m" and "\<And>x. evolves R (f x)"
  shows "evolves R (andThen m f)"
proof (rule evolvesI)
  fix w r w' assume run: "andThen m f w = (r, w')"
  obtain r1 w1 where m: "m w = (r1, w1)" by fastforce
  have 1: "R (w_db w) (w_db w1)"
    using evolvesD [OF assms(1) m] .
  show "R (w_db w) (w_db w')"
  proof (cases r1)
    case (Inl e)
    then show ?thesis using run m 1 by simp
  next
    case (Inr x)
    then have "f x w1 = (r, w')" using run m by simp
    from evolvesD [OF assms(2) this] 1 show ?thesis by (rule R_trans [rotated])
  qed
qed

text \<open>The same from one world, keeping what is known about the first part's result.\<close>

lemma at_andThen:
  assumes "moves R m w"
    and "\<And>x w1. m w = (Inr x, w1) \<Longrightarrow> moves R (f x) w1"
  shows "moves R (andThen m f) w"
  using assms R_trans by (cases "m w"; cases "fst (m w)") (auto simp: andThen_def moves_def)

lemma at_store_write:
  assumes "moves R m (w\<lparr>w_depth := Suc (w_depth w)\<rparr>)"
  shows "moves R (store_write m) w"
  using assms by (auto simp: store_write_def moves_def R_refl split: prod.splits sum.splits)

lemma ev_if: "(c \<Longrightarrow> evolves R a) \<Longrightarrow> (\<not> c \<Longrightarrow> evolves R b) \<Longrightarrow> evolves R (if c then a else b)"
  by simp

lemma ev_case_option:
  "evolves R a \<Longrightarrow> (\<And>x. evolves R (b x)) \<Longrightarrow> evolves R (case v of None \<Rightarrow> a | Some x \<Rightarrow> b x)"
  by (simp split: option.split)

lemma ev_store_write:
  assumes "evolves R m" shows "evolves R (store_write m)"
proof (rule evolvesI)
  fix w r w' assume run: "store_write m w = (r, w')"
  show "R (w_db w) (w_db w')"
  proof (cases r)
    case (Inl e)
    with run have "store_write m w = (Inl e, w')" by simp
    then show ?thesis
      by (cases rule: store_write_InlE) (auto simp: R_refl dest: evolvesD [OF assms])
  next
    case (Inr x)
    with run have "store_write m w = (Inr x, w')" by simp
    then show ?thesis
      by (cases rule: store_write_InrE) (auto dest: evolvesD [OF assms])
  qed
qed

lemma ev_forEach: "(\<And>x. evolves R (f x)) \<Longrightarrow> evolves R (forEach xs f)"
  by (induction xs) (simp_all add: ev_ret ev_andThen)

text \<open>Read the database, then act on what was read.\<close>

lemma ev_read:
  "(\<And>w. R (w_db w) (w_db (snd (k (f (w_db w)) w)))) \<Longrightarrow> evolves R (andThen (getDb f) k)"
  by (simp add: evolves_def)

lemma ev_tryCatch:
  assumes "evolves R m" and "\<And>e. evolves R (h e)"
  shows "evolves R (tryCatch m h)"
proof (rule evolvesI)
  fix w r w' assume run: "tryCatch m h w = (r, w')"
  obtain r1 w1 where m: "m w = (r1, w1)" by fastforce
  show "R (w_db w) (w_db w')"
    using run m evolvesD [OF assms(1) m] evolvesD [OF assms(2), of _ w1 r w'] R_trans
    by (cases r1) (auto simp: tryCatch_def)
qed

lemmas ev_rules = ev_ret ev_throw ev_gets ev_getNow ev_newId ev_hashOf ev_andThen ev_if
  ev_case_option ev_store_write ev_forEach ev_tryCatch

end


section \<open>What an update promises\<close>

text \<open>A \<open>beforeUpdate\<close> rule reads the database, and passes the candidate on or throws.\<close>

definition vetting :: "('r \<Rightarrow> 'r \<Rightarrow> 'r io) \<Rightarrow> bool" where
  "vetting bu \<longleftrightarrow> (\<forall>prior cand w r w'. bu prior cand w = (r, w') \<longrightarrow>
     w_db w' = w_db w \<and> w_env w' = w_env w \<and> (\<forall>x. r = Inr x \<longrightarrow> x = cand))"

lemma vettingD:
  assumes "vetting bu" and "bu prior cand w = (r, w')"
  shows "w_db w' = w_db w" "w_env w' = w_env w" "r = Inr x \<Longrightarrow> x = cand"
  using assms unfolding vetting_def by blast+

lemma writeAuditRow_Inr:
  assumes "writeAuditRow tab i oper h0 h1 wid who w = (Inr u, w')"
  shows "\<exists>row. w_db w' = w_db w\<lparr>db_audit := db_audit (w_db w) @ [row]\<rparr> \<and>
     au_table row = tab \<and> au_recordId row = i \<and> au_operation row = oper \<and>
     au_beforeHash row = h0 \<and> au_afterHash row = h1 \<and> au_actor row = who \<and>
     w_pending w' = w_pending w \<and> w_env w' = w_env w"
proof -
  obtain w1 w2 t a where run: "store_write (
       let row = \<lparr>au_id = a, au_createdAt = t, au_workflowId = wid, au_table = tab,
                  au_recordId = i, au_operation = oper, au_beforeHash = h0,
                  au_afterHash = h1, au_actor = who\<rparr>
       in andThen (getDb (\<lambda>d. if (case wid of None \<Rightarrow> True | Some x \<Rightarrow> workflow_exists x d)
                              then tbl_add au_id row (db_audit d) else None)) (\<lambda>added.
            case added of None \<Rightarrow> throw ConstraintFailed
            | Some rows \<Rightarrow> modifyDb (\<lambda>d. d\<lparr>db_audit := rows\<rparr>))) w2 = (Inr u, w')"
    and w2: "w_db w2 = w_db w" "w_pending w2 = w_pending w" "w_env w2 = w_env w"
    using assms by (auto simp: writeAuditRow_def getNow_def newId_def andThen_def)
  from run show ?thesis
    by (rule store_write_InrE)
      (auto simp: andThen_def Let_def tbl_add_def w2 split: option.splits if_splits)
qed

locale repository =
  fixes rp :: "'r repo"
  assumes rows_set: "rp_rows rp (rp_set rp rows d) = rows"
    and touch_id: "rp_id rp (rp_touch rp ts r) = rp_id rp r"
    and audit_set: "db_audit (rp_set rp rows d) = db_audit d"
begin

lemma get_eq: "repo_get rp i w = (Inr (tbl_get (rp_id rp) i (rp_rows rp (w_db w))), w)"
  by (simp add: repo_get_def)

lemma require_eq:
  "repo_require rp i w = (case tbl_get (rp_id rp) i (rp_rows rp (w_db w)) of
     None \<Rightarrow> (Inl (RecordNotFound (rp_table rp) i), w) | Some r \<Rightarrow> (Inr r, w))"
  by (simp add: repo_require_def andThen_def get_eq split: option.split)

text \<open>
  A successful update found the row, its rule let the candidate through, and the table holds
  the patched row; one audit row with the hashes of both versions was appended.
\<close>

lemma update_Inr:
  assumes vet: "vetting bu" and run: "repo_update rp bu patch i w = (Inr r', w')"
  obtains r ts row w0 w1 where
    "tbl_get (rp_id rp) i (rp_rows rp (w_db w)) = Some r"
    "r' = rp_touch rp ts (patch r)"
    "w_db w0 = w_db w" "w_pending w0 = w_pending w" "bu r r' w0 = (Inr r', w1)"
    "w_db w' = (let d = rp_set rp (tbl_put (rp_id rp) r' (rp_rows rp (w_db w))) (w_db w)
       in d\<lparr>db_audit := db_audit (w_db w) @ [row]\<rparr>)"
    "au_table row = rp_table rp" "au_recordId row = i" "au_operation row = AuUpdate"
    "au_beforeHash row = Some (env_sha (w_env w) (rp_payload rp r))"
    "au_afterHash row = env_sha (w_env w) (rp_payload rp r')"
    "w_pending w' = w_pending w1" "w_env w' = w_env w"
proof -
  from run obtain wa d where body: "(andThen (repo_require rp i) (\<lambda>prior.
     andThen getNow (\<lambda>ts.
     andThen (bu prior (rp_touch rp ts (patch prior))) (\<lambda>after.
     andThen (modifyDb (\<lambda>d. rp_set rp (tbl_put (rp_id rp) after (rp_rows rp d)) d)) (\<lambda>_.
     andThen (hashOf (rp_payload rp prior)) (\<lambda>h0.
     andThen (hashOf (rp_payload rp after)) (\<lambda>h1.
     andThen (gets w_actor) (\<lambda>actor.
     andThen (writeAuditRow (rp_table rp) i AuUpdate (Some h0) h1 (rp_workflow rp after) actor)
       (\<lambda>_. ret after))))))))) (w\<lparr>w_depth := Suc (w_depth w)\<rparr>) = (Inr r', wa)"
    and w': "w' = wa\<lparr>w_depth := d\<rparr>"
    unfolding repo_update_def by (elim store_write_InrE) blast
  from body obtain r where r: "tbl_get (rp_id rp) i (rp_rows rp (w_db w)) = Some r"
    by (auto simp: andThen_eq_Inr require_eq split: option.splits)
  define w0 where "w0 = w\<lparr>w_depth := Suc (w_depth w), w_clock := Suc (w_clock w)\<rparr>"
  define ts where "ts = env_now (w_env w) (w_clock w)"
  from body r obtain c w1 u w2 where
      bu: "bu r (rp_touch rp ts (patch r)) w0 = (Inr c, w1)"
    and audit: "writeAuditRow (rp_table rp) i AuUpdate (Some (env_sha (w_env w1) (rp_payload rp r)))
        (env_sha (w_env w1) (rp_payload rp c)) (rp_workflow rp c) (w_actor w1)
        (w1\<lparr>w_db := rp_set rp (tbl_put (rp_id rp) c (rp_rows rp (w_db w1))) (w_db w1)\<rparr>) = (Inr u, wa)"
    and c: "c = r'"
    by (auto simp: andThen_eq_Inr require_eq getNow_def hashOf_def w0_def ts_def)
  have w1: "w_db w1 = w_db w" "w_env w1 = w_env w" "c = rp_touch rp ts (patch r)"
    using vettingD [OF vet bu] by (simp_all add: w0_def)
  from writeAuditRow_Inr [OF audit] obtain row where
      "w_db wa = (rp_set rp (tbl_put (rp_id rp) c (rp_rows rp (w_db w1))) (w_db w1))
         \<lparr>db_audit := db_audit (rp_set rp (tbl_put (rp_id rp) c (rp_rows rp (w_db w1))) (w_db w1)) @ [row]\<rparr>"
      "au_table row = rp_table rp" "au_recordId row = i" "au_operation row = AuUpdate"
      "au_beforeHash row = Some (env_sha (w_env w) (rp_payload rp r))"
      "au_afterHash row = env_sha (w_env w) (rp_payload rp r')"
      "w_pending wa = w_pending w1" "w_env wa = w_env w"
    using c w1(2) by auto
  then show ?thesis
    using that [of r ts w0 w1 row] r bu w1 c
    by (simp add: w' w0_def Let_def audit_set)
qed

text \<open>A successful insert appended the normalised row under a fresh key, and one audit row.\<close>

lemma insert_Inr:
  assumes run: "repo_insert rp normalise refs r w = (Inr r', w')"
  obtains row ts where "r' = normalise ts r" "rp_createdAt rp r \<noteq> [] \<Longrightarrow> ts = rp_createdAt rp r"
    "tbl_get (rp_id rp) (rp_id rp r') (rp_rows rp (w_db w)) = None" "refs r' (w_db w)"
    "w_db w' = (let d = rp_set rp (rp_rows rp (w_db w) @ [r']) (w_db w)
       in d\<lparr>db_audit := db_audit (w_db w) @ [row]\<rparr>)"
    "au_table row = rp_table rp" "au_recordId row = rp_id rp r'" "au_operation row = AuInsert"
    "w_env w' = w_env w" "w_pending w' = w_pending w"
proof -
  from run obtain wa d where body: "(andThen (if rp_createdAt rp r = [] then getNow else ret (rp_createdAt rp r)) (\<lambda>created.
     let stored = normalise created r in
     andThen (getDb (\<lambda>d. if refs stored d then tbl_add (rp_id rp) stored (rp_rows rp d) else None)) (\<lambda>added.
       case added of None \<Rightarrow> throw ConstraintFailed
       | Some rows \<Rightarrow> andThen (modifyDb (rp_set rp rows)) (\<lambda>_.
           andThen (hashOf (rp_payload rp stored)) (\<lambda>h.
           andThen (gets w_actor) (\<lambda>actor.
           andThen (writeAuditRow (rp_table rp) (rp_id rp stored) AuInsert None h (rp_workflow rp stored) actor)
             (\<lambda>_. ret stored))))))) (w\<lparr>w_depth := Suc (w_depth w)\<rparr>) = (Inr r', wa)"
    and w': "w' = wa\<lparr>w_depth := d\<rparr>"
    unfolding repo_insert_def by (elim store_write_InrE) blast
  from body obtain ts w1 where c: "(if rp_createdAt rp r = [] then getNow else ret (rp_createdAt rp r))
        (w\<lparr>w_depth := Suc (w_depth w)\<rparr>) = (Inr ts, w1)"
    by (auto simp: andThen_eq_Inr)
  have w1: "w_db w1 = w_db w" "w_env w1 = w_env w" "w_pending w1 = w_pending w"
    and ts: "rp_createdAt rp r \<noteq> [] \<Longrightarrow> ts = rp_createdAt rp r"
    using c by (auto simp: getNow_def split: if_splits)
  from body c obtain rows where rows: "refs (normalise ts r) (w_db w)"
      "tbl_add (rp_id rp) (normalise ts r) (rp_rows rp (w_db w)) = Some rows"
    by (auto simp: andThen_def Let_def w1 split: if_splits option.splits)
  from body c rows obtain u where
    r': "r' = normalise ts r" and
    audit: "writeAuditRow (rp_table rp) (rp_id rp (normalise ts r)) AuInsert None (env_sha (w_env w) (rp_payload rp (normalise ts r)))
        (rp_workflow rp (normalise ts r)) (w_actor w1) (w1\<lparr>w_db := rp_set rp rows (w_db w)\<rparr>) = (Inr u, wa)"
    by (auto simp: andThen_eq_Inr Let_def w1 hashOf_def)
  have "tbl_get (rp_id rp) (rp_id rp r') (rp_rows rp (w_db w)) = None" "rows = rp_rows rp (w_db w) @ [r']"
    using rows(2) r' by (simp_all add: tbl_add_def split: if_splits)
  moreover from writeAuditRow_Inr [OF audit] obtain row where
      "w_db wa = (rp_set rp rows (w_db w))\<lparr>db_audit := db_audit (w_db w) @ [row]\<rparr>"
      "au_table row = rp_table rp" "au_recordId row = rp_id rp r'" "au_operation row = AuInsert"
      "w_pending wa = w_pending w" "w_env wa = w_env w"
    using r' w1 by (auto simp: audit_set)
  ultimately show ?thesis
    using that [of ts row] r' ts rows(1) by (simp add: w' Let_def)
qed

end

interpretation workflows: repository workflowRepo
  by unfold_locales (simp_all add: workflowRepo_def)

interpretation phases: repository phaseRepo
  by unfold_locales (simp_all add: phaseRepo_def)

interpretation tasks: repository taskRepo
  by unfold_locales (simp_all add: taskRepo_def)

interpretation attempts: repository attemptRepo
  by unfold_locales (simp_all add: attemptRepo_def)

interpretation approvals: repository approvalRepo
  by unfold_locales (simp_all add: approvalRepo_def)


section \<open>The operations, inverted\<close>

lemma taskRepo_sel [simp]:
  "rp_table taskRepo = TbTask" "rp_rows taskRepo = db_tasks" "rp_id taskRepo = t_id"
  "rp_set taskRepo rows d = d\<lparr>db_tasks := rows\<rparr>" "rp_payload taskRepo = PTask"
  "rp_touch taskRepo ts t = t\<lparr>t_updatedAt := ts\<rparr>" "rp_createdAt taskRepo = t_createdAt"
  by (simp_all add: taskRepo_def)

lemma phaseRepo_sel [simp]:
  "rp_table phaseRepo = TbPhase" "rp_rows phaseRepo = db_phases" "rp_id phaseRepo = ph_id"
  "rp_set phaseRepo prows d = d\<lparr>db_phases := prows\<rparr>" "rp_payload phaseRepo = PPhase"
  "rp_touch phaseRepo ts p = p\<lparr>ph_updatedAt := ts\<rparr>" "rp_createdAt phaseRepo = ph_createdAt"
  by (simp_all add: phaseRepo_def)

lemma workflowRepo_sel [simp]:
  "rp_table workflowRepo = TbWorkflow" "rp_rows workflowRepo = db_workflows"
  "rp_id workflowRepo = wf_id"
  by (simp_all add: workflowRepo_def)

lemma apply_task_patch_id [simp]: "t_id (apply_task_patch p t) = t_id t"
  by (simp add: apply_task_patch_def)

lemma task_beforeUpdate_vets: "vetting (task_beforeUpdate patch)"
  unfolding vetting_def task_beforeUpdate_def
  by (auto simp: andThen_def split: option.splits if_splits sum.splits prod.splits)

definition receipt_for :: "db \<Rightarrow> string option \<Rightarrow> task \<Rightarrow> bool" where
  "receipt_for d pend task \<longleftrightarrow> (\<exists>rid r. pend = Some rid \<and> receipt_find rid d = Some r \<and>
     g_subjectId r = t_id task \<and> g_subjectRevision r = t_revision task)"

lemma task_beforeUpdate_Inr:
  assumes "task_beforeUpdate patch prior cand w = (Inr x, w')"
  shows "w_pending w' = None"
    and "pt_status patch = Some Done \<Longrightarrow> t_status prior \<noteq> Done \<Longrightarrow>
       receipt_for (w_db w) (w_pending w) prior"
    and "touchesRevisioned patch \<Longrightarrow> t_revision cand = t_revision prior + 1"
    and "\<not> touchesRevisioned patch \<Longrightarrow> pt_revision patch = Some r \<Longrightarrow> r = t_revision prior"
  using assms unfolding task_beforeUpdate_def receipt_for_def
  by (auto simp: andThen_def split: option.splits if_splits sum.splits prod.splits)

text \<open>
  A task update that succeeds found the task, respected the revision rule, held a receipt for
  the task if it made it done, and changed the task's row and the audit trail only.
\<close>

lemma tasks_update_InrE:
  assumes "tasks_update i patch w = (Inr t', w')"
  obtains t ts row where
    "tbl_get t_id i (db_tasks (w_db w)) = Some t"
    "t' = (apply_task_patch patch t)\<lparr>t_updatedAt := ts\<rparr>"
    "w_db w' = (w_db w)\<lparr>db_tasks := tbl_put t_id t' (db_tasks (w_db w)),
       db_audit := db_audit (w_db w) @ [row]\<rparr>"
    "au_table row = TbTask" "au_recordId row = i" "au_operation row = AuUpdate"
    "au_beforeHash row = Some (env_sha (w_env w) (PTask t))"
    "au_afterHash row = env_sha (w_env w) (PTask t')"
    "w_pending w' = None" "w_env w' = w_env w"
    "pt_status patch = Some Done \<Longrightarrow> t_status t \<noteq> Done \<Longrightarrow> receipt_for (w_db w) (w_pending w) t"
    "touchesRevisioned patch \<Longrightarrow> t_revision t' = t_revision t + 1"
    "\<not> touchesRevisioned patch \<Longrightarrow> t_revision t' = t_revision t"
proof -
  obtain t ts row w0 w1 where u: "tbl_get t_id i (db_tasks (w_db w)) = Some t"
    "t' = (apply_task_patch patch t)\<lparr>t_updatedAt := ts\<rparr>"
    "w_db w0 = w_db w" "w_pending w0 = w_pending w"
    and bu: "task_beforeUpdate patch t t' w0 = (Inr t', w1)"
    and res: "w_db w' = (w_db w)\<lparr>db_tasks := tbl_put t_id t' (db_tasks (w_db w)),
       db_audit := db_audit (w_db w) @ [row]\<rparr>"
    "au_table row = TbTask" "au_recordId row = i" "au_operation row = AuUpdate"
    "au_beforeHash row = Some (env_sha (w_env w) (PTask t))"
    "au_afterHash row = env_sha (w_env w) (PTask t')"
    "w_pending w' = w_pending w1" "w_env w' = w_env w"
    by (rule tasks.update_Inr [OF task_beforeUpdate_vets assms [unfolded tasks_update_def],
          unfolded taskRepo_sel Let_def]) (rule that, assumption+)
  note B = task_beforeUpdate_Inr [OF bu]
  have "t_revision t' = t_revision t" if "\<not> touchesRevisioned patch"
    using that B(4) u(2) by (cases "pt_revision patch") (auto simp: apply_task_patch_def)
  with that [OF u(1,2) res(1-6)] B u(3,4) res(7,8) show ?thesis
    by auto
qed

lemma phases_update_InrE:
  assumes "phases_update i patch w = (Inr p', w')"
  obtains p ts row where
    "tbl_get ph_id i (db_phases (w_db w)) = Some p"
    "p' = (patch p)\<lparr>ph_updatedAt := ts\<rparr>"
    "w_db w' = (w_db w)\<lparr>db_phases := tbl_put ph_id p' (db_phases (w_db w)),
       db_audit := db_audit (w_db w) @ [row]\<rparr>"
    "w_pending w' = w_pending w" "w_env w' = w_env w"
proof -
  have vet: "vetting (\<lambda>_ candidate. ret candidate)"
    by (simp add: vetting_def)
  show ?thesis
    by (rule phases.update_Inr [OF vet assms [unfolded phases_update_def],
          unfolded phaseRepo_sel Let_def], rule that, assumption+) simp_all
qed

lemma transitionLog_insert_Inr:
  assumes "transitionLog_insert ev w = (Inr x, w')"
  shows "x = ev \<and> w' = w\<lparr>w_db := (w_db w)\<lparr>db_events := db_events (w_db w) @ [ev]\<rparr>\<rparr> \<and>
    tbl_get ev_eventId (ev_eventId ev) (db_events (w_db w)) = None"
  using assms
  by (auto simp: transitionLog_insert_def andThen_def tbl_add_def split: option.splits if_splits)

lemma blocker_insert_Inr:
  assumes "blocker_insert b w = (Inr x, w')"
  shows "x = b \<and> w' = w\<lparr>w_db := (w_db w)\<lparr>db_blockers := db_blockers (w_db w) @ [b]\<rparr>\<rparr> \<and>
    blocker_get (b_blockerId b) (w_db w) = None"
  using assms
  by (auto simp: blocker_insert_def andThen_def tbl_add_def blocker_get_def
      split: option.splits if_splits)

lemma receipt_record_Inr:
  assumes "receipt_record r w = (Inr x, w')"
  shows "x = r \<and> w' = w\<lparr>w_db := (w_db w)\<lparr>db_receipts := db_receipts (w_db w) @ [r]\<rparr>\<rparr> \<and>
    receipt_find (g_receiptId r) (w_db w) = None \<and>
    (g_disposition r = GdPass \<or> g_consumedAt r = None) \<and>
    (g_disposition r = GdPass \<longleftrightarrow> g_reasonCode r = None)"
  using assms
  by (auto simp: receipt_record_def andThen_def tbl_add_def receipt_find_def
      split: option.splits if_splits)

lemma blocker_resolve_InrE:
  assumes "blocker_resolve i ts who detail w = (Inr b', w')"
  obtains b where "blocker_get i (w_db w) = Some b" "b_resolvedAt b = None"
    "b' = b\<lparr>b_resolvedAt := Some ts, b_resolvedBy := Some who, b_resolutionDetail := Some detail\<rparr>"
    "w' = w\<lparr>w_db := (w_db w)\<lparr>db_blockers := tbl_put b_blockerId b' (db_blockers (w_db w))\<rparr>\<rparr>"
  using assms
  by (auto simp: blocker_resolve_def andThen_def Let_def split: option.splits if_splits)

text \<open>A receipt authorises once: it was an unconsumed pass for the task at its revision.\<close>

lemma authoriseDone_Inr:
  assumes "authoriseDone rid w = (Inr x, w')"
  shows "\<exists>r t ts. receipt_find rid (w_db w) = Some r \<and> g_gate r = GkTask \<and> g_disposition r = GdPass \<and>
     g_consumedAt r = None \<and>
     tbl_get t_id (g_subjectId r) (db_tasks (w_db w)) = Some t \<and> g_subjectRevision r = t_revision t \<and>
     w_db w' = (w_db w)\<lparr>db_receipts :=
       tbl_put g_receiptId (r\<lparr>g_consumedAt := Some ts\<rparr>) (db_receipts (w_db w))\<rparr> \<and>
     w_pending w' = Some rid \<and> w_env w' = w_env w"
  using assms unfolding authoriseDone_def
  by (rule store_write_InrE)
    (auto simp: andThen_def tasks.require_eq getNow_def receipt_consume_def
      split: option.splits if_splits)


section \<open>History is never rewritten\<close>

definition receipt_step :: "gate_receipt \<Rightarrow> gate_receipt \<Rightarrow> bool" where
  "receipt_step r r' \<longleftrightarrow> r' = r \<or>
     (g_disposition r = GdPass \<and> g_consumedAt r = None \<and> (\<exists>ts. r' = r\<lparr>g_consumedAt := Some ts\<rparr>))"

definition blocker_step :: "blocker_row \<Rightarrow> blocker_row \<Rightarrow> bool" where
  "blocker_step b b' \<longleftrightarrow> b' = b \<or>
     (b_resolvedAt b = None \<and> (\<exists>ts who detail. b' = b\<lparr>b_resolvedAt := Some ts,
        b_resolvedBy := Some who, b_resolutionDetail := Some detail\<rparr>))"

definition approval_step :: "approval \<Rightarrow> approval \<Rightarrow> bool" where
  "approval_step a a' \<longleftrightarrow> a' = a \<or>
     (ap_invalidation a = None \<and> (\<exists>why ts. a' = a\<lparr>ap_invalidation := Some why, ap_updatedAt := ts\<rparr>))"

definition request_step :: "approval_request \<Rightarrow> approval_request \<Rightarrow> bool" where
  "request_step q q' \<longleftrightarrow> q' = q \<or>
     (aq_status q = RqPending \<and> (\<exists>st ts who ap why detail. st \<noteq> RqPending \<and>
        q' = q\<lparr>aq_status := st, aq_resolvedAt := Some ts, aq_resolvedBy := Some who, aq_approvalId := ap,
          aq_invalidationReason := why, aq_detail := detail\<rparr>))"

text \<open>
  Nothing is deleted: every row keeps its key and moves only along its step relation; the event
  log and the audit trail only grow.
\<close>

definition rows_move :: "('r \<Rightarrow> string) \<Rightarrow> ('r \<Rightarrow> 'r \<Rightarrow> bool) \<Rightarrow> 'r list \<Rightarrow> 'r list \<Rightarrow> bool" where
  "rows_move key stp rs rs' \<longleftrightarrow>
     (\<forall>k r. tbl_get key k rs = Some r \<longrightarrow> (\<exists>r'. tbl_get key k rs' = Some r' \<and> stp r r'))"

definition grows :: "'r list \<Rightarrow> 'r list \<Rightarrow> bool" where
  "grows rs rs' \<longleftrightarrow> (\<exists>xs. rs' = rs @ xs)"

definition attempt_step :: "attempt \<Rightarrow> attempt \<Rightarrow> bool" where
  "attempt_step a a' \<longleftrightarrow> a_outcome a = None \<or> a' = a"

definition history_extends :: "db \<Rightarrow> db \<Rightarrow> bool" where
  "history_extends d d' \<longleftrightarrow>
     grows (db_events d) (db_events d') \<and> grows (db_audit d) (db_audit d') \<and>
     rows_move g_receiptId receipt_step (db_receipts d) (db_receipts d') \<and>
     rows_move b_blockerId blocker_step (db_blockers d) (db_blockers d') \<and>
     rows_move ap_id approval_step (db_approvals d) (db_approvals d') \<and>
     rows_move a_id attempt_step (db_attempts d) (db_attempts d') \<and>
     rows_move aq_requestId request_step (db_requests d) (db_requests d')"

lemma grows_refl [simp]: "grows rs rs"
  by (simp add: grows_def)

lemma grows_append [simp]: "grows rs (rs @ xs)"
  by (simp add: grows_def)

lemma grows_trans: "grows a b \<Longrightarrow> grows b c \<Longrightarrow> grows a c"
  by (auto simp: grows_def)

lemma rows_move_refl: "(\<And>r. stp r r) \<Longrightarrow> rows_move key stp rs rs"
  by (simp add: rows_move_def)

lemma rows_move_trans:
  assumes "\<And>a b c. stp a b \<Longrightarrow> stp b c \<Longrightarrow> stp a c"
    and "rows_move key stp xs ys" and "rows_move key stp ys zs"
  shows "rows_move key stp xs zs"
  using assms unfolding rows_move_def by metis

lemma rows_move_append: "(\<And>r. stp r r) \<Longrightarrow> rows_move key stp rs (rs @ xs)"
  by (simp add: rows_move_def tbl_get_append)

lemma rows_move_put:
  assumes "\<And>r. stp r r" and "tbl_get key (key r') rs = Some r" and "stp r r'"
  shows "rows_move key stp rs (tbl_put key r' rs)"
  using assms by (auto simp: rows_move_def tbl_get_put)

lemma steps_refl [simp]:
  "receipt_step r r" "blocker_step b b" "approval_step ap ap" "attempt_step a a"
  "request_step q q"
  by (simp_all add: receipt_step_def blocker_step_def approval_step_def attempt_step_def request_step_def)

lemma receipt_step_trans: "receipt_step a b \<Longrightarrow> receipt_step b c \<Longrightarrow> receipt_step a c"
  by (auto simp: receipt_step_def)

lemma blocker_step_trans: "blocker_step a b \<Longrightarrow> blocker_step b c \<Longrightarrow> blocker_step a c"
  by (auto simp: blocker_step_def)

lemma approval_step_trans: "approval_step a b \<Longrightarrow> approval_step b c \<Longrightarrow> approval_step a c"
  by (auto simp: approval_step_def)

lemma attempt_step_trans: "attempt_step a b \<Longrightarrow> attempt_step b c \<Longrightarrow> attempt_step a c"
  by (auto simp: attempt_step_def)

lemma request_step_trans:
  assumes "request_step a b" "request_step b c" shows "request_step a c"
proof (cases "b = a")
  case False
  then have "aq_status b \<noteq> RqPending" using assms(1) by (auto simp: request_step_def)
  then have "c = b" using assms(2) by (simp add: request_step_def)
  then show ?thesis using assms(1) by simp
qed (use assms in simp)

lemma history_refl: "history_extends d d"
  by (simp add: history_extends_def rows_move_refl)

lemma history_trans:
  assumes "history_extends a b" and "history_extends b c" shows "history_extends a c"
  using assms unfolding history_extends_def
  by (elim conjE, intro conjI)
    (rule grows_trans rows_move_trans [OF receipt_step_trans]
      rows_move_trans [OF blocker_step_trans] rows_move_trans [OF approval_step_trans]
      rows_move_trans [OF attempt_step_trans] rows_move_trans [OF request_step_trans]; assumption)+

interpretation history: db_relation history_extends
  by unfold_locales (rule history_refl, rule history_trans)

text \<open>Tables the history does not cover may change freely.\<close>

lemma history_frame:
  assumes "grows (db_events d) (db_events d')" and "grows (db_audit d) (db_audit d')"
    and "db_receipts d' = db_receipts d" and "db_blockers d' = db_blockers d"
    and "db_approvals d' = db_approvals d" and "db_attempts d' = db_attempts d"
    and "db_requests d' = db_requests d"
  shows "history_extends d d'"
  using assms by (simp add: history_extends_def rows_move_refl)

lemma history_put_receipt:
  assumes "receipt_find k d = Some r" and "g_disposition r = GdPass" and "g_consumedAt r = None"
  shows "history_extends d (d\<lparr>db_receipts :=
     tbl_put g_receiptId (r\<lparr>g_consumedAt := Some ts\<rparr>) (db_receipts d)\<rparr>)"
proof -
  have "rows_move g_receiptId receipt_step (db_receipts d)
      (tbl_put g_receiptId (r\<lparr>g_consumedAt := Some ts\<rparr>) (db_receipts d))"
    using assms tbl_get_key [of g_receiptId k "db_receipts d" r]
    by (intro rows_move_put [where r = r]) (auto simp: receipt_find_def receipt_step_def)
  then show ?thesis
    by (simp add: history_extends_def rows_move_refl)
qed

lemma history_put_blocker:
  assumes "blocker_get k d = Some b" and "b_resolvedAt b = None"
  shows "history_extends d (d\<lparr>db_blockers := tbl_put b_blockerId (b\<lparr>b_resolvedAt := Some ts,
     b_resolvedBy := Some who, b_resolutionDetail := Some detail\<rparr>) (db_blockers d)\<rparr>)"
proof -
  have "rows_move b_blockerId blocker_step (db_blockers d) (tbl_put b_blockerId
      (b\<lparr>b_resolvedAt := Some ts, b_resolvedBy := Some who, b_resolutionDetail := Some detail\<rparr>)
      (db_blockers d))"
    using assms tbl_get_key [of b_blockerId k "db_blockers d" b]
    by (intro rows_move_put [where r = b]) (auto simp: blocker_get_def blocker_step_def)
  then show ?thesis
    by (simp add: history_extends_def rows_move_refl)
qed

lemma history_writeAuditRow: "evolves history_extends (writeAuditRow tab i oper h0 h1 wid who)"
  unfolding writeAuditRow_def Let_def
  by (intro history.ev_rules history.ev_read)
    (auto simp: tbl_add_def history_refl intro!: history_frame split: option.splits)

lemma history_transitionLog_insert: "evolves history_extends (transitionLog_insert ev)"
  unfolding transitionLog_insert_def
  by (intro history.ev_read)
    (auto simp: tbl_add_def andThen_def history_refl intro!: history_frame split: option.splits)

lemma history_blocker_insert: "evolves history_extends (blocker_insert b)"
  unfolding blocker_insert_def
  by (intro history.ev_read)
    (auto simp: tbl_add_def andThen_def history_refl history_extends_def
      intro!: rows_move_refl rows_move_append split: option.splits)

lemma history_receipt_record: "evolves history_extends (receipt_record r)"
  unfolding receipt_record_def
  by (intro history.ev_read)
    (auto simp: tbl_add_def andThen_def history_refl history_extends_def
      intro!: rows_move_refl rows_move_append split: option.splits)

lemma history_receipt_consume: "evolves history_extends (receipt_consume rid ts)"
  unfolding receipt_consume_def
  by (intro history.ev_read)
    (auto simp: andThen_def history_refl intro!: history_put_receipt split: option.splits)

lemma history_blocker_resolve: "evolves history_extends (blocker_resolve i ts who detail)"
  unfolding blocker_resolve_def
  by (intro history.ev_read)
    (auto simp: andThen_def Let_def history_refl intro!: history_put_blocker split: option.splits)

lemma history_repo_require: "evolves history_extends (repo_require rp i)"
  unfolding repo_require_def repo_get_def by (intro history.ev_rules)

text \<open>An update whose rule vets moves along a relation that its accepted rows and the audit respect.\<close>

context db_relation
begin

lemma ev_repo_update:
  assumes vet: "vetting bu"
    and row: "\<And>d r ts w w'. tbl_get (rp_id rp) i (rp_rows rp d) = Some r \<Longrightarrow>
       bu r (rp_touch rp ts (patch r)) w = (Inr (rp_touch rp ts (patch r)), w') \<Longrightarrow>
       R d (rp_set rp (tbl_put (rp_id rp) (rp_touch rp ts (patch r)) (rp_rows rp d)) d)"
    and audit: "\<And>tab i oper h0 h1 wid who. evolves R (writeAuditRow tab i oper h0 h1 wid who)"
  shows "evolves R (repo_update rp bu patch i)"
proof (rule moves_evolves, unfold repo_update_def, intro at_store_write at_andThen, goal_cases)
  case (1 w)
  show ?case
    unfolding repo_require_def repo_get_def by (rule evolves_moves) (intro ev_rules)
next
  case (2 w prior w1)
  show ?case by (rule evolves_moves [OF ev_getNow])
next
  case (3 w prior w1 ts w2)
  have "w_db (snd (bu prior (rp_touch rp ts (patch prior)) w2)) = w_db w2"
    using vettingD(1) [OF vet] by (metis prod.collapse)
  then show ?case by (simp add: moves_def R_refl)
next
  case (4 w prior w1 ts w2 after w3)
  have r: "tbl_get (rp_id rp) i (rp_rows rp (w_db w1)) = Some prior"
    using 4(1) by (auto simp: repo_require_def repo_get_def andThen_def split: option.splits)
  have after: "after = rp_touch rp ts (patch prior)" "w_db w3 = w_db w2" "w_db w2 = w_db w1"
    using vettingD [OF vet 4(3)] 4(2) by (auto simp: getNow_def)
  show ?case
    using row [of "w_db w1" prior ts] r 4(3) after by (simp add: moves_def)
qed (rule evolves_moves, intro ev_rules audit)+

end

lemmas history_repo_update = history.ev_repo_update [OF _ _ history_writeAuditRow]

lemma history_tasks_update: "evolves history_extends (tasks_update i patch)"
  unfolding tasks_update_def
  by (intro history_repo_update task_beforeUpdate_vets history_frame) simp_all

lemma history_phases_update: "evolves history_extends (phases_update i patch)"
  unfolding phases_update_def
  by (intro history_repo_update history_frame) (simp_all add: vetting_def)

lemma history_attempts_update:
  assumes "\<And>a. a_id (patch a) = a_id a"
  shows "evolves history_extends (attempts_update i patch)"
  unfolding attempts_update_def
proof (rule history_repo_update)
  show "vetting attempt_beforeUpdate"
    by (simp add: vetting_def attempt_beforeUpdate_def)
next
  fix d r ts w w'
  assume "tbl_get (rp_id attemptRepo) i (rp_rows attemptRepo d) = Some r"
    and "attempt_beforeUpdate r (rp_touch attemptRepo ts (patch r)) w =
      (Inr (rp_touch attemptRepo ts (patch r)), w')"
  then have "tbl_get a_id i (db_attempts d) = Some r" "a_outcome r = None"
    by (auto simp: attemptRepo_def attempt_beforeUpdate_def split: if_splits)
  then have "rows_move a_id attempt_step (db_attempts d)
      (tbl_put a_id ((patch r)\<lparr>a_updatedAt := ts\<rparr>) (db_attempts d))"
    using tbl_get_key [of a_id i "db_attempts d" r]
    by (intro rows_move_put [where r = r]) (simp_all add: attempt_step_def assms)
  then show "history_extends d (rp_set attemptRepo
      (tbl_put (rp_id attemptRepo) (rp_touch attemptRepo ts (patch r)) (rp_rows attemptRepo d)) d)"
    by (simp add: history_extends_def rows_move_refl attemptRepo_def)
qed

lemma history_approvals_invalidate: "evolves history_extends (approvals_invalidate i why)"
  unfolding approvals_invalidate_def approvals_update_def
proof (rule history_repo_update)
  show "vetting (approval_beforeUpdate False)"
    by (simp add: vetting_def approval_beforeUpdate_def)
next
  fix d r ts w w'
  assume "tbl_get (rp_id approvalRepo) i (rp_rows approvalRepo d) = Some r"
    and "approval_beforeUpdate False r (rp_touch approvalRepo ts (r\<lparr>ap_invalidation := Some why\<rparr>)) w =
      (Inr (rp_touch approvalRepo ts (r\<lparr>ap_invalidation := Some why\<rparr>)), w')"
  then have "tbl_get ap_id i (db_approvals d) = Some r" "ap_invalidation r = None"
    by (auto simp: approvalRepo_def approval_beforeUpdate_def split: if_splits)
  then have "rows_move ap_id approval_step (db_approvals d)
      (tbl_put ap_id (r\<lparr>ap_invalidation := Some why, ap_updatedAt := ts\<rparr>) (db_approvals d))"
    using tbl_get_key [of ap_id i "db_approvals d" r]
    by (intro rows_move_put [where r = r]) (auto simp: approval_step_def)
  then show "history_extends d (rp_set approvalRepo (tbl_put (rp_id approvalRepo)
      (rp_touch approvalRepo ts (r\<lparr>ap_invalidation := Some why\<rparr>)) (rp_rows approvalRepo d)) d)"
    by (simp add: history_extends_def rows_move_refl approvalRepo_def)
qed

lemma approvalRepo_sel [simp]:
  "rp_table approvalRepo = TbApproval" "rp_rows approvalRepo = db_approvals" "rp_id approvalRepo = ap_id"
  "rp_set approvalRepo aprows d = d\<lparr>db_approvals := aprows\<rparr>" "rp_createdAt approvalRepo = ap_createdAt"
  "rp_touch approvalRepo ts ap = ap\<lparr>ap_updatedAt := ts\<rparr>"
  by (simp_all add: approvalRepo_def)

lemma approvals_insert_Inr:
  assumes "approvals_insert ap w = (Inr ap', w')"
  obtains row ts where "ap' = approval_normalise ts ap" "ap_createdAt ap \<noteq> [] \<Longrightarrow> ts = ap_createdAt ap"
    "tbl_get ap_id (ap_id ap) (db_approvals (w_db w)) = None" "workflow_exists (ap_workflowId ap) (w_db w)"
    "w_db w' = w_db w\<lparr>db_approvals := db_approvals (w_db w) @ [ap'], db_audit := db_audit (w_db w) @ [row]\<rparr>"
    "au_table row = TbApproval" "au_recordId row = ap_id ap" "au_operation row = AuInsert"
    "w_env w' = w_env w" "w_pending w' = w_pending w"
proof -
  from assms have "repo_insert approvalRepo approval_normalise
      (\<lambda>a d. workflow_exists (ap_workflowId a) d \<and> scope_exists (ap_scope a) d) ap w = (Inr ap', w')"
    by (simp only: approvals_insert_def)
  then show ?thesis
  proof (rule approvals.insert_Inr, goal_cases)
    case (1 row ts)
    have same: "ap_id ap' = ap_id ap" "ap_workflowId ap' = ap_workflowId ap"
      unfolding 1(1) by (simp_all add: approval_normalise_def)
    show ?case
      by (rule that [of ts row]) (use 1(1-10) same in \<open>simp_all only: approvalRepo_sel Let_def not_False_eq_True simp_thms\<close>)
  qed
qed

lemma history_repo_insert:
  assumes "\<And>d rows stored. tbl_add (rp_id rp) stored (rp_rows rp d) = Some rows \<Longrightarrow> history_extends d (rp_set rp rows d)"
  shows "evolves history_extends (repo_insert rp normalise refs r)"
proof (rule moves_evolves, unfold repo_insert_def Let_def, intro history.at_store_write history.at_andThen, goal_cases)
  case (1 w)
  show ?case by (rule evolves_moves, intro history.ev_rules)
next
  case (2 w created w1)
  show ?case by (rule evolves_moves, intro history.ev_rules)
next
  case (3 w created w1 added w2)
  have added: "added = None \<or> (\<exists>stored rows. added = Some rows \<and>
      tbl_add (rp_id rp) stored (rp_rows rp (w_db w2)) = Some rows)"
    using 3(2) by (auto split: if_splits)
  show ?case
  proof (cases added)
    case None
    then show ?thesis by (simp add: moves_def history_refl)
  next
    case (Some rows)
    with added obtain stored where "tbl_add (rp_id rp) stored (rp_rows rp (w_db w2)) = Some rows" by blast
    then have "moves history_extends (modifyDb (rp_set rp rows)) w2"
      using assms by (simp add: moves_def)
    then show ?thesis
      unfolding Some option.case
      by (intro history.at_andThen) (assumption | rule evolves_moves, intro history.ev_rules history_writeAuditRow)+
  qed
qed

lemma history_approvals_insert: "evolves history_extends (approvals_insert ap)"
  unfolding approvals_insert_def
  by (rule history_repo_insert)
    (auto simp: tbl_add_def history_extends_def rows_move_refl rows_move_append split: if_splits)

lemma history_authoriseDone: "evolves history_extends (authoriseDone rid)"
  unfolding authoriseDone_def
  by (intro history.ev_rules history_repo_require history_receipt_consume history.ev_modify) simp

lemmas history_store_ops = history_transitionLog_insert history_blocker_insert
  history_receipt_record history_blocker_resolve history_repo_require history_tasks_update
  history_phases_update history_attempts_update history_approvals_invalidate history_approvals_insert history_authoriseDone

end
