(* ===== verification/WeakChecks.thy ===== *)
theory WeakChecks
  imports StoreRecords
begin

text \<open>
  \<open>src/workflow/weak-checks.ts\<close>: deciding whether a check command can fail at all. The splitter
  and the segment classifier are translated character by character; the reference semantics at
  the end is what a POSIX shell does with the segments, and is what the verdict is compared with.
\<close>

section \<open>Splitting a command line\<close>

datatype seg_op = OpFirst | OpAnd | OpOr | OpSemi | OpPipe

type_synonym command_segment = "seg_op \<times> string"

text \<open>
  The scanner's state is the text collected so far, the operator that introduced it and the open
  quote. The quote characters are \<open>CHR 0x22\<close> (double) and \<open>CHR 0x27\<close> (single), \<open>CHR 0x0A\<close> is
  the newline.
\<close>

definition is_quote :: "char \<Rightarrow> bool" where
  "is_quote ch \<longleftrightarrow> ch = CHR 0x22 \<or> ch = CHR 0x27"

definition is_semi :: "char \<Rightarrow> bool" where
  "is_semi ch \<longleftrightarrow> ch = CHR '';'' \<or> ch = CHR 0x0A"

definition doubled :: "char \<Rightarrow> char \<Rightarrow> string \<Rightarrow> bool" where
  "doubled c ch rest \<longleftrightarrow> ch = c \<and> take 1 rest = [c]"

fun split_scan :: "string \<Rightarrow> string \<Rightarrow> seg_op \<Rightarrow> char option \<Rightarrow> command_segment list" where
  "split_scan [] cur op q = [(op, js_trim cur)]"
| "split_scan (ch # rest) cur op (Some q) =
     split_scan rest (cur @ [ch]) op (if ch = q then None else Some q)"
| "split_scan (ch # rest) cur op None =
     (if is_quote ch then split_scan rest (cur @ [ch]) op (Some ch)
      else if doubled (CHR ''&'') ch rest then (op, js_trim cur) # split_scan (drop 1 rest) [] OpAnd None
      else if doubled (CHR ''|'') ch rest then (op, js_trim cur) # split_scan (drop 1 rest) [] OpOr None
      else if is_semi ch then (op, js_trim cur) # split_scan rest [] OpSemi None
      else if ch = CHR ''|'' then (op, js_trim cur) # split_scan rest [] OpPipe None
      else split_scan rest (cur @ [ch]) op None)"

definition splitCommandSegments :: "string \<Rightarrow> command_segment list" where
  "splitCommandSegments command = filter (\<lambda>(op, t). t \<noteq> []) (split_scan command [] OpFirst None)"

section \<open>Classifying one segment\<close>

definition ALWAYS_SUCCEEDS :: "string list" where
  "ALWAYS_SUCCEEDS = ['':'', ''true'', ''/bin/true'', ''/usr/bin/true'', ''echo'', ''printf'',
     ''pwd'', ''hostname'', ''whoami'', ''sleep'']"

definition NEUTRAL_PROGRAMS :: "string list" where
  "NEUTRAL_PROGRAMS = [''cd'', ''pushd'', ''popd'', ''export'', ''set'', ''umask'']"

text \<open>\<open>s.split(/\s+/).filter(nonempty)\<close>.\<close>

fun split_words :: "string \<Rightarrow> string \<Rightarrow> string list" where
  "split_words cur [] = (if cur = [] then [] else [cur])"
| "split_words cur (c # cs) =
     (if is_js_space c then (if cur = [] then split_words [] cs else cur # split_words [] cs)
      else split_words (cur @ [c]) cs)"

definition ident_start :: "char \<Rightarrow> bool" where
  "ident_start c \<longleftrightarrow> c \<in> set ''ABCDEFGHIJKLMNOPQRSTUVWXYZabcdefghijklmnopqrstuvwxyz_''"

definition ident_char :: "char \<Rightarrow> bool" where
  "ident_char c \<longleftrightarrow> ident_start c \<or> c \<in> set ''0123456789''"

text \<open>The regular expression \<open>/^[A-Za-z_][A-Za-z0-9_]*=/\<close>.\<close>

definition is_env_assignment :: "string \<Rightarrow> bool" where
  "is_env_assignment tok =
     (case tok of [] \<Rightarrow> False
      | c # cs \<Rightarrow> ident_start c \<and>
          (case dropWhile ident_char cs of [] \<Rightarrow> False | d # _ \<Rightarrow> d = CHR ''=''))"

definition segment_tokens :: "string \<Rightarrow> string list" where
  "segment_tokens segment = dropWhile is_env_assignment (split_words [] (js_trim segment))"

definition segmentAlwaysPasses :: "string \<Rightarrow> bool" where
  "segmentAlwaysPasses segment =
     (if js_trim segment = [] then True
      else case segment_tokens segment of
        [] \<Rightarrow> True
      | program # args \<Rightarrow>
          if program = ''exit'' then (case args of [] \<Rightarrow> True | code # _ \<Rightarrow> code = ''0'')
          else if program = ''return'' then (case args of [] \<Rightarrow> True | code # _ \<Rightarrow> code = ''0'')
          else if program \<in> set ALWAYS_SUCCEEDS then True
          else if program \<in> set NEUTRAL_PROGRAMS then True
          else if (program = ''test'' \<or> program = ''['') \<and> length (program # args) \<le> 2 then True
          else False)"

section \<open>The verdict on a command and on a check\<close>

fun can_fail_step :: "bool \<Rightarrow> command_segment \<Rightarrow> bool" where
  "can_fail_step canFail (OpAnd, t) = (canFail \<or> \<not> segmentAlwaysPasses t)"
| "can_fail_step canFail (OpOr, t) = (canFail \<and> \<not> segmentAlwaysPasses t)"
| "can_fail_step canFail (_, t) = (\<not> segmentAlwaysPasses t)"

definition commandCanFail :: "string \<Rightarrow> bool" where
  "commandCanFail command =
     (case splitCommandSegments command of
        [] \<Rightarrow> False
      | (op, t) # rest \<Rightarrow> foldl can_fail_step (\<not> segmentAlwaysPasses t) rest)"

definition EXECUTED_KINDS :: "check_kind list" where
  "EXECUTED_KINDS = [CkCommand, CkAssertion, CkLint, CkTypecheck]"

datatype trivial_reason = EmptyCommand | PassesUnconditionally string

definition trivialCheckReason :: "check_definition \<Rightarrow> trivial_reason option" where
  "trivialCheckReason c =
     (if ck_kind c \<notin> set EXECUTED_KINDS then None
      else if js_trim (ck_command c) = [] then Some EmptyCommand
      else if commandCanFail (ck_command c) then None
      else Some (PassesUnconditionally (ck_command c)))"

definition isTrivialCheck :: "check_definition \<Rightarrow> bool" where
  "isTrivialCheck c \<longleftrightarrow> trivialCheckReason c \<noteq> None"

definition isVerifyingCheck :: "check_definition \<Rightarrow> bool" where
  "isVerifyingCheck c =
     (if ck_kind c \<in> set EXECUTED_KINDS then \<not> isTrivialCheck c
      else ck_kind c = CkHuman \<and> ck_required c)"

definition trivialChecks :: "check_definition list \<Rightarrow> (check_definition \<times> trivial_reason) list" where
  "trivialChecks checks =
     List.map_filter (\<lambda>c. map_option (Pair c) (trivialCheckReason c)) checks"

lemma executed_kind_iff: "k \<in> set EXECUTED_KINDS \<longleftrightarrow> k \<noteq> CkHuman"
  by (cases k) (auto simp: EXECUTED_KINDS_def)

lemma human_not_trivial: "ck_kind c = CkHuman \<Longrightarrow> \<not> isTrivialCheck c"
  by (simp add: isTrivialCheck_def trivialCheckReason_def executed_kind_iff)

lemma verifying_not_trivial: "isVerifyingCheck c \<Longrightarrow> \<not> isTrivialCheck c"
  by (auto simp: isVerifyingCheck_def executed_kind_iff human_not_trivial split: if_splits)

section \<open>Reference: what the shell does with the segments\<close>

text \<open>
  One executed segment either exits zero or not; a segment classified as always passing never
  fails. An assignment of outcomes is therefore a list of booleans (\<open>True\<close> is failure) that
  agrees with the classifier.
\<close>

definition outcomes_ok :: "command_segment list \<Rightarrow> bool list \<Rightarrow> bool" where
  "outcomes_ok segs fs \<longleftrightarrow> list_all2 (\<lambda>(op, t) f. segmentAlwaysPasses t \<longrightarrow> \<not> f) segs fs"

definition is_exit_segment :: "string \<Rightarrow> bool" where
  "is_exit_segment t \<longleftrightarrow> (case segment_tokens t of [] \<Rightarrow> False | p # _ \<Rightarrow> p = ''exit'')"

text \<open>
  Pipelines bind tighter than \<open>&&\<close> and \<open>||\<close>: consecutive segments joined by \<open>|\<close> form one
  command whose status is the status of the last of them. A pipeline is
  its operator with, per member, whether it is \<open>exit\<close> and whether it fails.
\<close>

type_synonym pipeline = "seg_op \<times> (bool \<times> bool) list"

fun add_member :: "pipeline list \<Rightarrow> command_segment \<times> bool \<Rightarrow> pipeline list" where
  "add_member gs ((op, t), f) =
     (if op = OpPipe \<and> gs \<noteq> []
      then butlast gs @ [(fst (last gs), snd (last gs) @ [(is_exit_segment t, f)])]
      else gs @ [(op, [(is_exit_segment t, f)])])"

definition pipelines :: "command_segment list \<Rightarrow> bool list \<Rightarrow> pipeline list" where
  "pipelines segs fs = foldl add_member [] (zip segs fs)"

text \<open>
  \<open>&&\<close> runs its right side after success, \<open>||\<close> after failure, \<open>;\<close> always; the status of a
  skipped side is the status so far. An \<open>exit\<close> that runs outside a pipeline ends the line.
\<close>

fun shell_runs :: "seg_op \<Rightarrow> bool \<Rightarrow> bool" where
  "shell_runs OpAnd failed = (\<not> failed)"
| "shell_runs OpOr failed = failed"
| "shell_runs _ failed = True"

fun shell_status :: "bool \<Rightarrow> pipeline list \<Rightarrow> bool" where
  "shell_status failed [] = failed"
| "shell_status failed ((op, ms) # gs) =
     (if \<not> shell_runs op failed then shell_status failed gs
      else if length ms = 1 \<and> fst (hd ms) then snd (last ms)
      else shell_status (snd (last ms)) gs)"

text \<open>The first command of a line runs whatever stands before it.\<close>

definition lead_first :: "command_segment list \<Rightarrow> command_segment list" where
  "lead_first segs = (case segs of [] \<Rightarrow> [] | (op, t) # rest \<Rightarrow> (OpFirst, t) # rest)"

definition shell_line_fails :: "string \<Rightarrow> bool list \<Rightarrow> bool" where
  "shell_line_fails command fs =
     shell_status False (pipelines (lead_first (splitCommandSegments command)) fs)"

definition line_can_fail :: "string \<Rightarrow> bool" where
  "line_can_fail command \<longleftrightarrow>
     (\<exists>fs. outcomes_ok (splitCommandSegments command) fs \<and> shell_line_fails command fs)"

text \<open>The fragment the classifier's comment describes: no pipe, no \<open>exit\<close> before the last segment.\<close>

definition plain_segments :: "command_segment list \<Rightarrow> bool" where
  "plain_segments segs \<longleftrightarrow>
     list_all (\<lambda>(op, t). op \<noteq> OpPipe) segs \<and> list_all (\<lambda>(op, t). \<not> is_exit_segment t) (butlast segs)"

definition plain_line :: "string \<Rightarrow> bool" where
  "plain_line command \<longleftrightarrow> plain_segments (splitCommandSegments command)"

section \<open>The verdict agrees with the shell on plain lines\<close>

lemma pipelines_plain:
  assumes "list_all (\<lambda>(op, t). op \<noteq> OpPipe) segs" and "length segs = length fs"
  shows "foldl add_member gs (zip segs fs) =
    gs @ map (\<lambda>((op, t), f). (op, [(is_exit_segment t, f)])) (zip segs fs)"
  using assms
proof (induction segs fs arbitrary: gs rule: list_induct2')
  case (4 s segs f fs)
  then show ?case by (cases s) simp
qed auto

text \<open>On plain lines the status is a left fold over the segments.\<close>

fun plain_status :: "bool \<Rightarrow> (command_segment \<times> bool) list \<Rightarrow> bool" where
  "plain_status failed [] = failed"
| "plain_status failed (((op, t), f) # xs) =
     plain_status (if shell_runs op failed then f else failed) xs"

lemma shell_status_plain:
  assumes "list_all (\<lambda>((op, t), f). \<not> is_exit_segment t) (butlast xs)"
  shows "shell_status failed (map (\<lambda>((op, t), f). (op, [(is_exit_segment t, f)])) xs) =
    plain_status failed xs"
  using assms
proof (induction failed xs rule: plain_status.induct)
  case (2 failed op t f xs)
  then show ?case by (cases "xs = []") auto
qed simp

lemma list_all_zip_butlast:
  assumes "list_all P (butlast xs)" and "length xs = length ys"
  shows "list_all (\<lambda>(x, y). P x) (butlast (zip xs ys))"
  using assms by (induction xs ys rule: list_induct2') (auto split: if_splits)

lemma shell_status_plain_segments:
  assumes "plain_segments segs" and "length fs = length segs"
  shows "shell_status False (pipelines segs fs) = plain_status False (zip segs fs)"
proof -
  have "list_all (\<lambda>((op, t), f). \<not> is_exit_segment t) (butlast (zip segs fs))"
    using list_all_zip_butlast [of "\<lambda>(op, t). \<not> is_exit_segment t" segs fs] assms
    by (simp add: plain_segments_def case_prod_unfold)
  then show ?thesis
    using assms by (simp add: pipelines_def pipelines_plain plain_segments_def shell_status_plain)
qed

text \<open>Any outcome that fails is covered by the verdict, and the worst outcome realises it.\<close>

lemma plain_status_le:
  assumes "outcomes_ok segs fs" and "failed \<longrightarrow> canFail" and "list_all (\<lambda>(op, t). op \<noteq> OpPipe) segs"
    and "plain_status failed (zip segs fs)"
  shows "foldl can_fail_step canFail segs"
  using assms
proof (induction segs arbitrary: fs failed canFail)
  case Nil
  then show ?case by simp
next
  case (Cons s segs)
  obtain op t where s: "s = (op, t)" by (cases s)
  from Cons.prems(1) obtain f fs' where fs: "fs = f # fs'" "outcomes_ok segs fs'"
    and f: "segmentAlwaysPasses t \<longrightarrow> \<not> f"
    by (auto simp: outcomes_ok_def s list_all2_Cons1)
  show ?case
    using Cons.IH [OF fs(2), of "if shell_runs op failed then f else failed"
        "can_fail_step canFail s"] Cons.prems f
    by (cases op) (auto simp: s fs(1) split: if_splits)
qed

definition worst_outcome :: "command_segment list \<Rightarrow> bool list" where
  "worst_outcome segs = map (\<lambda>(op, t). \<not> segmentAlwaysPasses t) segs"

lemma plain_status_worst:
  assumes "list_all (\<lambda>(op, t). op \<noteq> OpPipe) segs"
  shows "plain_status canFail (zip segs (worst_outcome segs)) = foldl can_fail_step canFail segs"
  using assms
proof (induction segs arbitrary: canFail)
  case (Cons s segs)
  obtain op t where s: "s = (op, t)" by (cases s)
  show ?case using Cons by (cases op; cases canFail) (auto simp: s worst_outcome_def)
qed (simp add: worst_outcome_def)

lemma outcomes_worst: "outcomes_ok segs (worst_outcome segs)"
  by (induction segs) (auto simp: outcomes_ok_def worst_outcome_def)

lemma outcomes_lead [simp]: "outcomes_ok (lead_first segs) fs = outcomes_ok segs fs"
  by (cases segs) (auto simp: outcomes_ok_def lead_first_def list_all2_Cons1)

lemma plain_lead: "plain_segments segs \<Longrightarrow> plain_segments (lead_first segs)"
  by (cases segs) (auto simp: plain_segments_def lead_first_def split: if_splits)

lemma commandCanFail_fold:
  "commandCanFail command = foldl can_fail_step False (lead_first (splitCommandSegments command))"
  by (auto simp: commandCanFail_def lead_first_def split: list.split)

lemma canFail_iff_shell:
  assumes "plain_line command"
  shows "commandCanFail command \<longleftrightarrow> line_can_fail command"
proof -
  let ?segs = "lead_first (splitCommandSegments command)"
  have plain: "plain_segments ?segs"
    using assms by (simp add: plain_line_def plain_lead)
  then have nopipe: "list_all (\<lambda>(op, t). op \<noteq> OpPipe) ?segs"
    by (simp add: plain_segments_def)
  have status: "shell_status False (pipelines ?segs fs) = plain_status False (zip ?segs fs)"
    if "outcomes_ok ?segs fs" for fs
    using shell_status_plain_segments [OF plain] that
    by (simp add: outcomes_ok_def list_all2_lengthD)
  have "(\<exists>fs. outcomes_ok ?segs fs \<and> plain_status False (zip ?segs fs)) \<longleftrightarrow>
      foldl can_fail_step False ?segs"
    using plain_status_le [of ?segs _ False False] plain_status_worst [OF nopipe, of False]
      outcomes_worst [of ?segs] nopipe by blast
  then show ?thesis
    using status by (auto simp: line_can_fail_def shell_line_fails_def commandCanFail_fold)
qed

section \<open>The verdict against typed command lines\<close>

text \<open>
  A second reference that shares nothing with the splitter or the classifier: a line is given as its
  commands, each a list of words, with the connectives between them, and is printed the way a person
  writes it. A word is made of letters, digits and \<open>-_./:,+@%\<close>; the program is no reserved word and
  no builtin that redirects control; \<open>exit\<close> stands last and with one digit.
\<close>

datatype connective = ThenAnd | ThenOr | ThenSeq

definition WORD_CHARS :: string where
  "WORD_CHARS = ''ABCDEFGHIJKLMNOPQRSTUVWXYZabcdefghijklmnopqrstuvwxyz0123456789-_./:,+@%''"

definition SHELL_CONTROL :: "string list" where
  "SHELL_CONTROL = [''if'', ''then'', ''else'', ''elif'', ''fi'', ''for'', ''while'', ''until'', ''do'', ''done'',
     ''case'', ''esac'', ''in'', ''select'', ''function'', ''time'', ''set'', ''trap'', ''exec'', ''eval'', ''source'',
     ''.'', ''break'', ''continue'', ''return'', ''alias'']"

definition NEVER_FAILING :: "string list" where
  "NEVER_FAILING = ['':'', ''true'', ''/bin/true'', ''/usr/bin/true'', ''echo'', ''printf'', ''pwd'', ''hostname'',
     ''whoami'', ''sleep'', ''cd'', ''pushd'', ''popd'', ''export'', ''umask'']"

definition command_ok :: "string list \<Rightarrow> bool" where
  "command_ok ws \<longleftrightarrow> ws \<noteq> [] \<and> list_all (\<lambda>w. w \<noteq> [] \<and> list_all (\<lambda>c. c \<in> set WORD_CHARS) w) ws \<and>
     hd ws \<notin> set SHELL_CONTROL \<and> ws \<noteq> [''test''] \<and>
     (hd ws = ''exit'' \<longrightarrow> length ws = 2 \<and> length (last ws) = 1 \<and> hd (last ws) \<in> set ''0123456789'')"

definition line_ok :: "string list \<Rightarrow> (connective \<times> string list) list \<Rightarrow> bool" where
  "line_ok ws rest \<longleftrightarrow> list_all command_ok (ws # map snd rest) \<and>
     list_all (\<lambda>ws. hd ws \<noteq> ''exit'') (butlast (ws # map snd rest))"

primrec conn_text :: "connective \<Rightarrow> string" where
  "conn_text ThenAnd = '' && ''"
| "conn_text ThenOr = '' || ''"
| "conn_text ThenSeq = '' ; ''"

abbreviation command_text :: "string list \<Rightarrow> string" where
  "command_text \<equiv> join_str '' ''"

fun line_text :: "string list \<Rightarrow> (connective \<times> string list) list \<Rightarrow> string" where
  "line_text ws [] = command_text ws"
| "line_text ws ((c, ws') # rest) = command_text ws @ conn_text c @ line_text ws' rest"

text \<open>
  How a command may end: \<open>exit d\<close> with its digit, the never failing programs and \<open>test w\<close> with success,
  any other program either way. \<open>&&\<close> runs its right side after success, \<open>||\<close> after failure, \<open>;\<close> always.
\<close>

definition may_end :: "string list \<Rightarrow> bool \<Rightarrow> bool" where
  "may_end ws failed \<longleftrightarrow>
     (if hd ws = ''exit'' then failed = (last ws \<noteq> ''0'')
      else if hd ws \<in> set NEVER_FAILING \<or> hd ws = ''test'' \<and> length ws = 2 then \<not> failed
      else True)"

fun line_status :: "bool \<Rightarrow> (connective \<times> bool) list \<Rightarrow> bool" where
  "line_status failed [] = failed"
| "line_status failed ((ThenAnd, f) # xs) = line_status (if failed then True else f) xs"
| "line_status failed ((ThenOr, f) # xs) = line_status (if failed then f else False) xs"
| "line_status failed ((ThenSeq, f) # xs) = line_status f xs"

definition line_may_fail :: "string list \<Rightarrow> (connective \<times> string list) list \<Rightarrow> bool" where
  "line_may_fail ws rest \<longleftrightarrow> (\<exists>fs. list_all2 may_end (ws # map snd rest) fs \<and>
     line_status False (zip (ThenSeq # map fst rest) fs))"

primrec conn_op :: "connective \<Rightarrow> seg_op" where
  "conn_op ThenAnd = OpAnd"
| "conn_op ThenOr = OpOr"
| "conn_op ThenSeq = OpSemi"

lemma word_char_plain:
  assumes "c \<in> set WORD_CHARS"
  shows "\<not> is_js_space c" "\<not> is_quote c" "\<not> is_semi c" "c \<noteq> CHR ''&''" "c \<noteq> CHR ''|''" "c \<noteq> CHR ''=''"
  using assms by (auto simp: WORD_CHARS_def is_js_space_def is_quote_def is_semi_def)

lemma scan_plain:
  assumes "list_all (\<lambda>c. c \<in> set WORD_CHARS \<or> c = CHR '' '') s"
  shows "split_scan (s @ rest) cur op None = split_scan rest (cur @ s) op None"
  using assms
proof (induction s arbitrary: cur)
  case (Cons c s)
  then have "\<not> is_quote c \<and> \<not> is_semi c \<and> c \<noteq> CHR ''&'' \<and> c \<noteq> CHR ''|''"
    using word_char_plain [of c] by (auto simp: is_quote_def is_semi_def)
  with Cons show ?case by (simp add: doubled_def)
qed simp

lemma scan_connective:
  "split_scan (conn_text c @ rest) cur op None =
     (op, js_trim (cur @ '' '')) # split_scan rest '' '' (conn_op c) None"
  by (cases c) (simp_all add: is_quote_def doubled_def is_semi_def)

lemma trim_edges:
  assumes "t \<noteq> []" "\<not> is_js_space (hd t)" "\<not> is_js_space (last t)"
    and "list_all is_js_space sp" "list_all is_js_space sp'"
  shows "js_trim (sp @ t @ sp') = t"
proof -
  have drop: "dropWhile is_js_space (ys @ xs) = xs"
    if "list_all is_js_space ys" "xs = [] \<or> \<not> is_js_space (hd xs)" for xs ys
    using that by (induction ys) (auto simp: dropWhile_eq_self_iff)
  have "dropWhile is_js_space (sp @ t @ sp') = t @ sp'"
    using assms by (intro drop) auto
  moreover have "dropWhile is_js_space (rev sp' @ rev t) = rev t"
    using assms by (intro drop) (auto simp: hd_rev list_all_iff)
  ultimately show ?thesis by (simp add: js_trim_def)
qed

definition words_ok :: "string list \<Rightarrow> bool" where
  "words_ok ws \<longleftrightarrow> ws \<noteq> [] \<and> list_all (\<lambda>w. w \<noteq> [] \<and> list_all (\<lambda>c. c \<in> set WORD_CHARS) w) ws"

lemma words_ok_Cons: "words_ok (w # v # ws) \<longleftrightarrow>
    w \<noteq> [] \<and> list_all (\<lambda>c. c \<in> set WORD_CHARS) w \<and> words_ok (v # ws)"
  by (auto simp: words_ok_def)

lemma command_text_shape:
  "words_ok ws \<Longrightarrow> command_text ws \<noteq> [] \<and> hd (command_text ws) \<in> set WORD_CHARS \<and>
     last (command_text ws) \<in> set WORD_CHARS \<and>
     list_all (\<lambda>c. c \<in> set WORD_CHARS \<or> c = CHR '' '') (command_text ws)"
proof (induction ws rule: induct_list012)
  case (2 w)
  then show ?case by (cases w) (auto simp: words_ok_def list_all_iff)
next
  case (3 w v ws)
  then show ?case by (cases w) (auto simp: words_ok_Cons list_all_iff)
qed (simp add: words_ok_def)

lemma split_words_word:
  assumes "list_all (\<lambda>c. c \<in> set WORD_CHARS) w"
  shows "split_words cur (w @ rest) = split_words (cur @ w) rest"
  using assms word_char_plain(1) by (induction w arbitrary: cur) auto

lemma split_words_text: "words_ok ws \<Longrightarrow> split_words [] (command_text ws) = ws"
proof (induction ws rule: induct_list012)
  case (2 w)
  then show ?case using split_words_word [of w "[]" "[]"] by (simp add: words_ok_def)
next
  case (3 w v ws)
  then show ?case by (simp add: words_ok_Cons split_words_word is_js_space_def)
qed (simp add: words_ok_def)

lemma word_no_assignment:
  assumes "list_all (\<lambda>c. c \<in> set WORD_CHARS) w"
  shows "\<not> is_env_assignment w"
proof (cases w)
  case (Cons c cs)
  have "CHR ''='' \<notin> set (dropWhile ident_char cs)"
    using assms word_char_plain(6) set_dropWhileD unfolding Cons list_all_iff by fastforce
  then show ?thesis
    by (auto simp: is_env_assignment_def Cons split: list.split)
qed (simp add: is_env_assignment_def)

lemma text_tokens:
  assumes "words_ok ws"
  shows "js_trim (command_text ws) = command_text ws" and "segment_tokens (command_text ws) = ws"
proof -
  show trim: "js_trim (command_text ws) = command_text ws"
    using trim_edges [of "command_text ws" "[]" "[]"] command_text_shape [OF assms] word_char_plain(1) by simp
  obtain w vs where ws: "ws = w # vs" using assms by (cases ws) (auto simp: words_ok_def)
  then have "\<not> is_env_assignment w"
    using assms word_no_assignment [of w] by (simp add: words_ok_def)
  then show "segment_tokens (command_text ws) = ws"
    unfolding segment_tokens_def trim split_words_text [OF assms] by (simp add: ws)
qed

lemma command_ok_words: "command_ok ws \<Longrightarrow> words_ok ws"
  by (simp add: command_ok_def words_ok_def)

lemma policy_programs:
  assumes "p \<notin> set SHELL_CONTROL"
  shows "p \<in> set ALWAYS_SUCCEEDS \<or> p \<in> set NEUTRAL_PROGRAMS \<longleftrightarrow> p \<in> set NEVER_FAILING"
proof -
  have "p \<noteq> ''set''" using assms by (auto simp: SHELL_CONTROL_def)
  then show ?thesis
    by (simp add: ALWAYS_SUCCEEDS_def NEUTRAL_PROGRAMS_def NEVER_FAILING_def)
qed

lemma command_program:
  assumes "command_ok (p # args)"
  shows "p \<noteq> ''return''" "p \<noteq> ''[''" "p \<notin> set SHELL_CONTROL" "p = ''test'' \<Longrightarrow> args \<noteq> []"
    "p = ''exit'' \<Longrightarrow> \<exists>code. args = [code]"
proof -
  show "p \<notin> set SHELL_CONTROL" using assms by (simp add: command_ok_def)
  then show "p \<noteq> ''return''" by (auto simp: SHELL_CONTROL_def)
  have "CHR ''['' \<notin> set WORD_CHARS" by (simp add: WORD_CHARS_def)
  then show "p \<noteq> ''[''" using assms by (auto simp: command_ok_def)
  show "p = ''test'' \<Longrightarrow> args \<noteq> []" using assms by (auto simp: command_ok_def)
  show "p = ''exit'' \<Longrightarrow> \<exists>code. args = [code]"
    using assms by (cases args) (auto simp: command_ok_def)
qed

lemma segment_always_passes:
  assumes "command_ok (p # args)"
  shows "segmentAlwaysPasses (command_text (p # args)) \<longleftrightarrow>
     (if p = ''exit'' then args = [''0''] else p \<in> set NEVER_FAILING \<or> p = ''test'' \<and> length args = 1)"
proof -
  have words: "words_ok (p # args)" using assms by (rule command_ok_words)
  note fact = text_tokens [OF words] command_program [OF assms] policy_programs [OF command_program(3) [OF assms]]
  have "js_trim (command_text (p # args)) \<noteq> []"
    using command_text_shape [OF words] fact(1) by simp
  then have passes: "segmentAlwaysPasses (command_text (p # args)) \<longleftrightarrow>
      (if p = ''exit'' then (case args of [] \<Rightarrow> True | code # _ \<Rightarrow> code = ''0'')
       else p \<in> set ALWAYS_SUCCEEDS \<or> p \<in> set NEUTRAL_PROGRAMS \<or> p = ''test'' \<and> length args \<le> 1)"
    using fact(3,4) unfolding segmentAlwaysPasses_def fact(2) by simp
  have "p = ''test'' \<Longrightarrow> length args \<le> 1 \<longleftrightarrow> length args = 1"
    using fact(6) by (cases args) auto
  then show ?thesis
    unfolding passes using fact(7,8) by (auto split: list.split)
qed

lemma always_passes_iff:
  assumes "command_ok ws"
  shows "segmentAlwaysPasses (command_text ws) \<longleftrightarrow> \<not> may_end ws True"
    and "may_end ws (\<not> segmentAlwaysPasses (command_text ws))"
proof -
  obtain p args where ws: "ws = p # args" using assms by (cases ws) (auto simp: command_ok_def)
  have last: "last ws = ''0'' \<longleftrightarrow> args = [''0'']" if "p = ''exit''"
    using command_program(5) [of p args] assms that by (auto simp: ws)
  show "segmentAlwaysPasses (command_text ws) \<longleftrightarrow> \<not> may_end ws True"
    "may_end ws (\<not> segmentAlwaysPasses (command_text ws))"
    using segment_always_passes [of p args] assms last by (auto simp: may_end_def ws)
qed

definition line_segments :: "seg_op \<Rightarrow> string list \<Rightarrow> (connective \<times> string list) list \<Rightarrow> command_segment list" where
  "line_segments op ws rest = (op, command_text ws) # map (\<lambda>(c, ws). (conn_op c, command_text ws)) rest"

lemma scan_line:
  assumes "list_all command_ok (ws # map snd rest)" and "cur = [] \<or> cur = '' ''"
  shows "split_scan (line_text ws rest) cur op None = line_segments op ws rest"
  using assms
proof (induction ws rest arbitrary: cur op rule: line_text.induct)
  case (1 ws)
  note shape = command_text_shape [OF command_ok_words, of ws]
  have "split_scan (command_text ws @ []) cur op None = [(op, js_trim (cur @ command_text ws @ []))]"
    using 1 shape by (subst scan_plain) auto
  then show ?case
    using 1 shape trim_edges [of "command_text ws" cur "[]"] word_char_plain(1)
    by (auto simp: line_segments_def is_js_space_def)
next
  case (2 ws c ws' rest)
  note shape = command_text_shape [OF command_ok_words, of ws]
  have trim: "js_trim (cur @ command_text ws @ '' '') = command_text ws"
    using 2(2,3) shape word_char_plain(1) by (intro trim_edges) (auto simp: is_js_space_def)
  have "split_scan (line_text ws ((c, ws') # rest)) cur op None =
      (op, command_text ws) # split_scan (line_text ws' rest) '' '' (conn_op c) None"
    using 2(2) shape by (simp add: scan_plain scan_connective trim)
  then show ?case
    using 2 by (simp add: line_segments_def)
qed

lemma split_line:
  assumes "list_all command_ok (ws # map snd rest)"
  shows "splitCommandSegments (line_text ws rest) = line_segments OpFirst ws rest"
proof -
  have "t \<noteq> []" if "(op, t) \<in> set (line_segments OpFirst ws rest)" for op t
  proof -
    have "map snd (line_segments OpFirst ws rest) = map command_text (ws # map snd rest)"
      by (simp add: line_segments_def case_prod_unfold)
    then have "set (map snd (line_segments OpFirst ws rest)) = command_text ` set (ws # map snd rest)"
      by (simp only: set_map)
    moreover have "t \<in> set (map snd (line_segments OpFirst ws rest))"
      unfolding set_map using that by (rule image_eqI [rotated]) simp
    ultimately have "t \<in> command_text ` set (ws # map snd rest)"
      by (rule subst)
    then obtain v where v: "t = command_text v" "v \<in> set (ws # map snd rest)"
      by (rule imageE)
    have "command_ok v" using assms v(2) unfolding list_all_iff by (rule bspec)
    then show ?thesis
      using command_text_shape [OF command_ok_words [of v]] v(1) by simp
  qed
  then have "filter (\<lambda>(op, t). t \<noteq> []) (line_segments OpFirst ws rest) = line_segments OpFirst ws rest"
    unfolding filter_id_conv by blast
  moreover have "split_scan (line_text ws rest) [] OpFirst None = line_segments OpFirst ws rest"
    by (rule scan_line [OF assms]) simp
  ultimately show ?thesis
    by (simp only: splitCommandSegments_def)
qed

lemma plain_status_line:
  "length fs = length rest \<Longrightarrow>
     plain_status failed (zip (map (\<lambda>(c, ws). (conn_op c, command_text ws)) rest) fs) =
     line_status failed (zip (map fst rest) fs)"
proof (induction rest fs arbitrary: failed rule: list_induct2')
  case (4 r rest f fs)
  then show ?case by (cases r; cases "fst r"; cases failed) auto
qed auto

lemma typed_line_verdict:
  assumes "list_all command_ok (ws # map snd rest)"
  shows "commandCanFail (line_text ws rest) \<longleftrightarrow> line_may_fail ws rest"
proof -
  let ?segs = "line_segments OpFirst ws rest"
  have lead: "lead_first ?segs = ?segs"
    by (simp add: line_segments_def lead_first_def)
  have nopipe: "list_all (\<lambda>(op, t). op \<noteq> OpPipe) ?segs"
  proof -
    have "conn_op c \<noteq> OpPipe" for c by (cases c) simp_all
    then show ?thesis by (auto simp: line_segments_def list_all_iff)
  qed
  have verdict: "commandCanFail (line_text ws rest) = foldl can_fail_step False ?segs"
    unfolding commandCanFail_fold split_line [OF assms] lead ..
  have status: "plain_status False (zip ?segs fs) = line_status False (zip (ThenSeq # map fst rest) fs)"
    if "length fs = Suc (length rest)" for fs
    using that plain_status_line [of "tl fs" rest] by (cases fs) (simp_all add: line_segments_def)
  let ?cs = "ws # map snd rest"
  have texts: "map snd ?segs = map command_text ?cs"
    by (simp add: line_segments_def case_prod_unfold)
  have ok: "command_ok v" if "v \<in> set ?cs" for v
    using assms that unfolding list_all_iff by blast
  have agree: "outcomes_ok ?segs fs" if "list_all2 may_end ?cs fs" for fs
  proof -
    have "list_all2 (\<lambda>v f. segmentAlwaysPasses (command_text v) \<longrightarrow> \<not> f) ?cs fs"
      using that ok always_passes_iff(1) unfolding list_all2_conv_all_nth by (metis (full_types) nth_mem)
    then have "list_all2 (\<lambda>t f. segmentAlwaysPasses t \<longrightarrow> \<not> f) (map snd ?segs) fs"
      unfolding texts list_all2_map1 .
    then show ?thesis
      by (simp add: outcomes_ok_def list_all2_map1 case_prod_unfold)
  qed
  have worst: "list_all2 may_end ?cs (worst_outcome ?segs)"
  proof -
    have "worst_outcome ?segs = map (\<lambda>v. \<not> segmentAlwaysPasses (command_text v)) ?cs"
      by (simp add: worst_outcome_def line_segments_def case_prod_unfold)
    then show ?thesis
      using ok always_passes_iff(2) by (simp only: list_all2_map2 list_all2_same) blast
  qed
  have len: "length fs = Suc (length rest)" if "list_all2 may_end ?cs fs" for fs
    using list_all2_lengthD [OF that] by simp
  show ?thesis
    unfolding verdict line_may_fail_def
    using plain_status_le [OF agree _ nopipe, of _ False False] plain_status_worst [OF nopipe, of False]
      status len worst by metis
qed



section \<open>Quoted text is never split\<close>

lemma split_scan_quoted:
  assumes "q \<notin> set s"
  shows "split_scan (s @ [q]) cur op (Some q) = [(op, js_trim (cur @ s @ [q]))]"
  using assms by (induction s arbitrary: cur) auto

lemma js_trim_id:
  assumes "\<not> is_js_space a" and "\<not> is_js_space b"
  shows "js_trim (a # s @ [b]) = a # s @ [b]"
  using assms by (simp add: js_trim_def)

lemma quote_not_space: "is_quote q \<Longrightarrow> \<not> is_js_space q"
  by (auto simp: is_quote_def is_js_space_def)

text \<open>Shell operators inside quotes are data: a command that is one quoted region, whatever
  characters other than the quote it holds, is one segment, unchanged.\<close>
theorem quoted_region_is_one_segment:
  assumes "is_quote q" and "q \<notin> set s"
  shows "splitCommandSegments (q # s @ [q]) = [(OpFirst, q # s @ [q])]"
  using assms
  by (simp add: splitCommandSegments_def split_scan_quoted js_trim_id quote_not_space)

theorem quoted_region_is_one_segment_witness:
  "splitCommandSegments (CHR 0x22 # ''a && b'' @ [CHR 0x22]) =
     [(OpFirst, CHR 0x22 # ''a && b'' @ [CHR 0x22])]"
  by (rule quoted_region_is_one_segment) (simp_all add: is_quote_def)

section \<open>Where the classifier and the shell disagree\<close>

text \<open>
  Outside the plain fragment the left-to-right fold is not the shell's grammar: a pipe binds
  tighter than \<open>||\<close>, and an early \<open>exit\<close> ends the line. Both lines below are accepted as
  verifying although no outcome makes them fail; the third can fail and is called trivial.
\<close>

lemma no_failing_outcome:
  assumes "splitCommandSegments command = segs"
    and "\<And>fs. outcomes_ok segs fs \<Longrightarrow> \<not> shell_status False (pipelines (lead_first segs) fs)"
  shows "\<not> line_can_fail command"
  using assms by (auto simp: line_can_fail_def shell_line_fails_def)

lemma always_pass_examples:
  "segmentAlwaysPasses ''true''" "segmentAlwaysPasses ''exit 0''"
  "\<not> segmentAlwaysPasses ''npm test''" "is_exit_segment ''exit 0''" "\<not> is_exit_segment ''true''"
  "\<not> is_exit_segment ''npm test''" "\<not> is_exit_segment ''tee log''"
  by code_simp+

lemma piped_alternative_never_fails:
  "commandCanFail ''true || npm test | tee log'' \<and> \<not> line_can_fail ''true || npm test | tee log''"
proof
  show "commandCanFail ''true || npm test | tee log''" by code_simp
  have segs: "splitCommandSegments ''true || npm test | tee log'' =
      [(OpFirst, ''true''), (OpOr, ''npm test''), (OpPipe, ''tee log'')]"
    by code_simp
  show "\<not> line_can_fail ''true || npm test | tee log''"
    by (rule no_failing_outcome [OF segs])
      (auto simp: outcomes_ok_def list_all2_Cons1 lead_first_def pipelines_def always_pass_examples)
qed

lemma early_exit_never_fails:
  "commandCanFail ''exit 0; npm test'' \<and> \<not> line_can_fail ''exit 0; npm test''"
proof
  show "commandCanFail ''exit 0; npm test''" by code_simp
  have segs: "splitCommandSegments ''exit 0; npm test'' = [(OpFirst, ''exit 0''), (OpSemi, ''npm test'')]"
    by code_simp
  show "\<not> line_can_fail ''exit 0; npm test''"
    by (rule no_failing_outcome [OF segs])
      (auto simp: outcomes_ok_def list_all2_Cons1 lead_first_def pipelines_def always_pass_examples)
qed

lemma real_check_called_trivial:
  "\<not> commandCanFail ''npm test && npm test | true'' \<and> line_can_fail ''npm test && npm test | true''"
proof
  show "\<not> commandCanFail ''npm test && npm test | true''" by code_simp
  have segs: "splitCommandSegments ''npm test && npm test | true'' =
      [(OpFirst, ''npm test''), (OpAnd, ''npm test''), (OpPipe, ''true'')]"
    by code_simp
  have "outcomes_ok [(OpFirst, ''npm test''), (OpAnd, ''npm test''), (OpPipe, ''true'')] [True, False, False]"
    by (simp add: outcomes_ok_def always_pass_examples)
  moreover have "shell_status False (pipelines (lead_first
      [(OpFirst, ''npm test''), (OpAnd, ''npm test''), (OpPipe, ''true'')]) [True, False, False])"
    by (simp add: pipelines_def lead_first_def always_pass_examples)
  ultimately show "line_can_fail ''npm test && npm test | true''"
    by (auto simp: line_can_fail_def shell_line_fails_def segs)
qed

end
