(* ===== verification/StateMachine.thy ===== *)
theory StateMachine
  imports Store WeakChecks
begin

text \<open>
  \<open>src/workflow/state.ts\<close>: the engine that commits task and phase transitions. A request runs in
  one write transaction: lookup, admission checks, the guard conjunction, the receipt, the
  write and its event. A refusal is carried out of the transaction and logged after rollback.
\<close>

section \<open>Guards\<close>

text \<open>\<open>GuardOutcome\<close>, with \<open>GThrew\<close> for an evaluator that throws.\<close>

datatype guard_outcome = GTrue | GFalse | GUnknown | GThrew

text \<open>The context holds the database an evaluator may read through \<open>context.store\<close>.\<close>

record guard_context =
  gx_db :: db
  gx_workflow :: workflow
  gx_task :: "task option"
  gx_phase :: "phase option"
  gx_gitRevision :: "git_sha option"
  gx_actor :: transition_actor
  gx_now :: iso_timestamp
  gx_evidenceRefs :: "string list"
  gx_unresolvedBlockers :: "string list"

type_synonym guard_evaluator = "guard_context \<Rightarrow> guard_outcome"
type_synonym guard_table = "precondition \<Rightarrow> guard_evaluator option"

text \<open>The guards that failed, in order; the conjunction is satisfied when there is none.\<close>

definition evaluateGuards :: "precondition list \<Rightarrow> guard_table \<Rightarrow> guard_context \<Rightarrow> precondition list" where
  "evaluateGuards pcs guards ctx =
     filter (\<lambda>pc. case guards pc of None \<Rightarrow> True | Some evaluator \<Rightarrow> evaluator ctx \<noteq> GTrue) pcs"

definition hasExecutableCheck :: "task \<Rightarrow> bool" where
  "hasExecutableCheck task \<longleftrightarrow> list_ex isVerifyingCheck (t_checks task)"

definition of_verdict :: "bool \<Rightarrow> guard_outcome" where
  "of_verdict b = (if b then GTrue else GFalse)"

definition dependenciesDone :: "db \<Rightarrow> task \<Rightarrow> bool" where
  "dependenciesDone d task \<longleftrightarrow>
     list_all (\<lambda>dep. case tbl_get t_id dep (db_tasks d) of None \<Rightarrow> False | Some t \<Rightarrow> t_status t = Done)
       (t_dependencies task)"

definition structuralGuards :: "guard_context \<Rightarrow> precondition \<Rightarrow> guard_outcome option" where
  "structuralGuards ctx pc =
     (case gx_task ctx of
        None \<Rightarrow> None
      | Some task \<Rightarrow>
          (case pc of
             PcChecksRegistered \<Rightarrow> Some (of_verdict (hasExecutableCheck task))
           | PcReadinessValid \<Rightarrow>
               Some (of_verdict (gx_unresolvedBlockers ctx = [] \<and> dependenciesDone (gx_db ctx) task))
           | PcBlockerPresent \<Rightarrow> Some (of_verdict (gx_unresolvedBlockers ctx \<noteq> []))
           | _ \<Rightarrow> None))"

definition withStructuralGuards :: "guard_table \<Rightarrow> guard_context \<Rightarrow> guard_table" where
  "withStructuralGuards guards ctx pc =
     (case structuralGuards ctx pc of
        None \<Rightarrow> guards pc
      | Some verdict \<Rightarrow>
          Some (\<lambda>inner.
            if verdict \<noteq> GTrue then verdict
            else case guards pc of
              None \<Rightarrow> verdict
            | Some supplied \<Rightarrow> if supplied inner = GThrew then GFalse else supplied inner))"

section \<open>Requests and events\<close>

text \<open>The requested target is a string at run time: a listed state or something else.\<close>

datatype 's requested = Known 's | Unlisted string

record 's transition_request =
  rq_subject :: string
  rq_to :: "'s requested"
  rq_actor :: transition_actor
  rq_trigger :: string
  rq_guards :: guard_table
  rq_evidenceRefs :: "string list"
  rq_gitRevision :: "git_sha option"
  rq_expectedStatus :: "'s option"
  rq_expectedRevision :: "revision option"
  rq_blocker :: "(string \<times> string) option"
  rq_gateReceiptId :: "string option"

record ('r, 'id) transition_result =
  re_subject :: 'r
  re_event :: transition_event
  re_transitionId :: 'id
  re_sideEffects :: "string list"

record event_draft =
  dr_workflow :: workflow
  dr_subjectKind :: subject_kind
  dr_subjectId :: string
  dr_fromState :: subject_state
  dr_toState :: subject_state
  dr_transitionId :: "edge_id option"
  dr_trigger :: string
  dr_actor :: transition_actor
  dr_disposition :: disposition
  dr_reasonCode :: "rejection_code option"
  dr_taskRevision :: "revision option"
  dr_gitRevision :: "git_sha option"
  dr_failedGuards :: "precondition list"
  dr_evidenceRefs :: "string list"
  dr_beforeHash :: content_hash
  dr_afterHash :: content_hash

definition event_of :: "event_draft \<Rightarrow> string \<Rightarrow> iso_timestamp \<Rightarrow> transition_event" where
  "event_of dr i ts = \<lparr>ev_eventId = i, ev_createdAt = ts, ev_workflowId = wf_id (dr_workflow dr),
     ev_subjectKind = dr_subjectKind dr, ev_subjectId = dr_subjectId dr,
     ev_fromState = dr_fromState dr, ev_toState = dr_toState dr,
     ev_transitionId = dr_transitionId dr, ev_trigger = dr_trigger dr, ev_actor = dr_actor dr,
     ev_disposition = dr_disposition dr, ev_reasonCode = dr_reasonCode dr,
     ev_taskRevision = dr_taskRevision dr, ev_planRevision = wf_planRevision (dr_workflow dr),
     ev_gitRevision = dr_gitRevision dr, ev_mode = wf_mode (dr_workflow dr),
     ev_policyVersion = wf_policyVersion (dr_workflow dr), ev_failedGuards = dr_failedGuards dr,
     ev_evidenceRefs = dr_evidenceRefs dr, ev_beforeHash = dr_beforeHash dr,
     ev_afterHash = dr_afterHash dr\<rparr>"

definition buildEvent :: "event_draft \<Rightarrow> transition_event io" where
  "buildEvent dr = andThen newId (\<lambda>i. andThen getNow (\<lambda>ts. ret (event_of dr i ts)))"

definition appendEvent :: "event_draft \<Rightarrow> transition_event io" where
  "appendEvent dr = andThen (buildEvent dr) transitionLog_insert"

text \<open>\<open>reject\<close>: build the rejection event and abandon the transaction.\<close>

definition reject :: "event_draft \<Rightarrow> rejection_code \<Rightarrow> precondition list \<Rightarrow> 'a io" where
  "reject base code failed =
     andThen (buildEvent (base\<lparr>dr_disposition := Rejected, dr_reasonCode := Some code,
                               dr_failedGuards := failed\<rparr>))
       (\<lambda>ev. throw (PendingRejection ev code failed))"

definition flushRejection :: "transition_event \<Rightarrow> rejection_code \<Rightarrow> precondition list \<Rightarrow> 'a io" where
  "flushRejection ev code failed =
     andThen (store_write (transitionLog_insert ev)) (\<lambda>ev'.
       throw (TransitionRejected code failed (Some ev')))"

fun actorRole :: "actor_kind \<Rightarrow> trigger_actor" where
  "actorRole AkEngine = EngineOnly"
| "actorRole AkUser = UserActor"
| "actorRole AkWorker = WorkerRequestThenEngine"

primrec actor_kind_text :: "actor_kind \<Rightarrow> string" where
  "actor_kind_text AkEngine = ''engine''"
| "actor_kind_text AkUser = ''user''"
| "actor_kind_text AkWorker = ''worker''"

definition actor_text :: "transition_actor \<Rightarrow> string" where
  "actor_text a = actor_kind_text (ta_kind a) @ '':'' @ ta_identity a"

text \<open>
  The admission checks of \<open>commitTaskEdge\<close> and \<open>commitPhaseEdge\<close>, in their order: actor,
  snapshot, evidence.
\<close>

definition admitEdge ::
  "('s, 'id) transition \<Rightarrow> 's transition_request \<Rightarrow> bool \<Rightarrow> event_draft \<Rightarrow> unit io"
where
  "admitEdge edge rq stale base =
     (if actorRole (ta_kind (rq_actor rq)) \<notin> set (tr_whoMayTrigger edge)
      then reject base UnauthorizedActor []
      else if stale then reject base StaleSnapshot []
      else if tr_requiredEvidence edge \<noteq> [] \<and> rq_evidenceRefs rq = []
      then reject base MissingEvidence []
      else ret ())"

definition raiseRequestedBlocker ::
  "'s transition_request \<Rightarrow> subject_kind \<Rightarrow> string \<Rightarrow> string \<Rightarrow> string option io"
where
  "raiseRequestedBlocker rq k i wid =
     (case rq_blocker rq of
        None \<Rightarrow> ret None
      | Some (kind, detail) \<Rightarrow>
          andThen newId (\<lambda>bid. andThen getNow (\<lambda>ts.
          andThen (blocker_insert \<lparr>b_blockerId = bid, b_createdAt = ts, b_workflowId = wid,
              b_subjectKind = k, b_subjectId = i, b_kind = kind, b_detail = detail,
              b_raisedBy = actor_text (rq_actor rq), b_resolvedAt = None, b_resolvedBy = None,
              b_resolutionDetail = None\<rparr>) (\<lambda>_. ret (Some kind)))))"

definition unresolvedKinds :: "subject_kind \<Rightarrow> string \<Rightarrow> db \<Rightarrow> string list" where
  "unresolvedKinds k i d = map b_kind (unresolvedForSubject k i d)"

definition deriveBlockerField :: "subject_kind \<Rightarrow> string \<Rightarrow> db \<Rightarrow> string option" where
  "deriveBlockerField k i d =
     (let kinds = unresolvedKinds k i d
      in if kinds = [] then None else Some (join_str '','' (dedup kinds)))"

text \<open>The guard conjunction against one context.\<close>

definition checkGuards ::
  "precondition list \<Rightarrow> guard_table \<Rightarrow> guard_context \<Rightarrow> event_draft \<Rightarrow> unit io"
where
  "checkGuards pcs guards ctx base =
     (let failed = evaluateGuards pcs (withStructuralGuards guards ctx) ctx
      in if failed = [] then ret () else reject base PreconditionFailed failed)"

section \<open>Task transitions\<close>

primrec edge_name :: "task_edge \<Rightarrow> string" where
  "edge_name TaskReady = ''task-ready''"
| "edge_name TaskDispatch = ''task-dispatch''"
| "edge_name TaskSubmit = ''task-submit''"
| "edge_name TaskReview = ''task-review''"
| "edge_name TaskDone = ''task-done''"
| "edge_name TaskFailed = ''task-failed''"
| "edge_name TaskChanges = ''task-changes''"
| "edge_name TaskBlock = ''task-block''"
| "edge_name TaskInvalidate = ''task-invalidate''"
| "edge_name TaskReplan = ''task-replan''"
| "edge_name TaskStaleEvidence = ''task-stale-evidence''"
| "edge_name TaskCap = ''task-cap''"
| "edge_name TaskCapResume = ''task-cap-resume''"
| "edge_name TaskCancel = ''task-cancel''"

text \<open>The receipt step: \<open>done\<close> needs one, and any error of \<open>authoriseDone\<close> refuses.\<close>

definition authoriseCompletion ::
  "task_status transition_request \<Rightarrow> task_status \<Rightarrow> event_draft \<Rightarrow> unit io"
where
  "authoriseCompletion rq dst base =
     (if dst = Done then
        (case rq_gateReceiptId rq of
           None \<Rightarrow> reject base StatusWriteForbidden []
         | Some rid \<Rightarrow> tryCatch (andThen (authoriseDone rid) (\<lambda>_. ret ()))
                        (\<lambda>_. reject base StatusWriteForbidden []))
      else ret ())"

definition resolve_one :: "iso_timestamp \<Rightarrow> string \<Rightarrow> string \<Rightarrow> blocker_row \<Rightarrow> unit io" where
  "resolve_one ts who detail b =
     andThen (blocker_resolve (b_blockerId b) ts who detail) (\<lambda>_. ret ())"

definition applyTaskBlockerSideEffects ::
  "task_status transition_request \<Rightarrow> task \<Rightarrow> task_status \<Rightarrow> task_edge \<Rightarrow> string option io"
where
  "applyTaskBlockerSideEffects rq task dst edge =
     andThen getNow (\<lambda>ts.
     andThen (if dst = Cancelled
              then andThen (getDb (unresolvedForSubject SkTask (t_id task))) (\<lambda>bs.
                     forEach bs (resolve_one ts (actor_text (rq_actor rq))
                        (''resolved by '' @ edge_name edge)))
              else ret ()) (\<lambda>_.
     getDb (deriveBlockerField SkTask (t_id task))))"

definition task_stale :: "task_status transition_request \<Rightarrow> task \<Rightarrow> bool" where
  "task_stale rq task \<longleftrightarrow>
     (case rq_expectedStatus rq of None \<Rightarrow> False | Some s \<Rightarrow> s \<noteq> t_status task) \<or>
     (case rq_expectedRevision rq of None \<Rightarrow> False | Some r \<Rightarrow> r \<noteq> t_revision task)"

definition task_guard_context ::
  "task_status transition_request \<Rightarrow> task \<Rightarrow> workflow \<Rightarrow> string list \<Rightarrow> guard_context io"
where
  "task_guard_context rq task wkf blockers =
     andThen (repo_get phaseRepo (t_phaseId task)) (\<lambda>phase.
     andThen getNow (\<lambda>ts.
     getDb (\<lambda>d. \<lparr>gx_db = d, gx_workflow = wkf, gx_task = Some task, gx_phase = phase,
       gx_gitRevision = rq_gitRevision rq, gx_actor = rq_actor rq, gx_now = ts,
       gx_evidenceRefs = rq_evidenceRefs rq, gx_unresolvedBlockers = blockers\<rparr>)))"

definition commitTaskEdge ::
  "task_status transition_request \<Rightarrow> task \<Rightarrow> workflow \<Rightarrow> (task_status, task_edge) transition \<Rightarrow>
   event_draft \<Rightarrow> string list \<Rightarrow> task_status \<Rightarrow> (task, task_edge) transition_result io"
where
  "commitTaskEdge rq task wkf edge base0 unresolved dst =
     (let base = base0\<lparr>dr_transitionId := Some (TaskEdge (tr_id edge))\<rparr> in
      andThen (admitEdge edge rq (task_stale rq task) base) (\<lambda>_.
      andThen (raiseRequestedBlocker rq SkTask (t_id task) (t_workflowId task)) (\<lambda>raised.
      andThen (task_guard_context rq task wkf
          (case raised of None \<Rightarrow> unresolved | Some k \<Rightarrow> unresolved @ [k])) (\<lambda>ctx.
      andThen (checkGuards (tr_preconditions edge) (rq_guards rq) ctx base) (\<lambda>_.
      andThen (authoriseCompletion rq dst base) (\<lambda>_.
      andThen (applyTaskBlockerSideEffects rq task dst (tr_id edge)) (\<lambda>blocker.
      andThen (tasks_update (t_id task)
          (no_patch\<lparr>pt_status := Some dst, pt_blocker := Some blocker\<rparr>)) (\<lambda>updated.
      andThen (hashOf (PTask updated)) (\<lambda>h.
      andThen (appendEvent (base\<lparr>dr_disposition := Accepted, dr_reasonCode := None,
          dr_failedGuards := [], dr_afterHash := h\<rparr>)) (\<lambda>ev.
      ret \<lparr>re_subject = updated, re_event = ev, re_transitionId = tr_id edge,
           re_sideEffects = tr_sideEffects edge\<rparr>))))))))))"

primrec requested_state :: "('s \<Rightarrow> subject_state) \<Rightarrow> 's requested \<Rightarrow> subject_state" where
  "requested_state f (Known s) = f s"
| "requested_state f (Unlisted s) = RawState s"

definition task_draft ::
  "task_status transition_request \<Rightarrow> task \<Rightarrow> workflow \<Rightarrow> content_hash \<Rightarrow> event_draft"
where
  "task_draft rq task wkf prior = \<lparr>dr_workflow = wkf, dr_subjectKind = SkTask,
     dr_subjectId = t_id task, dr_fromState = TaskState (t_status task),
     dr_toState = requested_state TaskState (rq_to rq), dr_transitionId = None,
     dr_trigger = rq_trigger rq, dr_actor = rq_actor rq, dr_disposition = Rejected,
     dr_reasonCode = None, dr_taskRevision = Some (t_revision task),
     dr_gitRevision = rq_gitRevision rq, dr_failedGuards = [],
     dr_evidenceRefs = rq_evidenceRefs rq, dr_beforeHash = prior, dr_afterHash = prior\<rparr>"

definition taskEdgeFor ::
  "task_status transition_request \<Rightarrow> task \<Rightarrow> workflow \<Rightarrow> event_draft \<Rightarrow> string list \<Rightarrow>
   (task, task_edge) transition_result io"
where
  "taskEdgeFor rq task wkf base unresolved =
     (case rq_to rq of
        Unlisted s \<Rightarrow> reject base UnknownState []
      | Known dst \<Rightarrow>
          if dst \<notin> set TASK_STATES then reject base UnknownState []
          else if t_status task \<in> set TASK_TERMINAL_STATES then reject base TerminalSubject []
          else if rq_trigger rq \<notin> set TASK_TRIGGERS then reject base UnknownTrigger []
          else (case findTaskTransition (t_status task) dst (Some (rq_trigger rq)) of
                  None \<Rightarrow> reject base UnlistedEdge []
                | Some edge \<Rightarrow> commitTaskEdge rq task wkf edge base unresolved dst))"

definition evaluateTaskTransition ::
  "task_status transition_request \<Rightarrow> (task, task_edge) transition_result io"
where
  "evaluateTaskTransition rq = store_write (
     andThen (repo_get taskRepo (rq_subject rq)) (\<lambda>found.
       case found of
         None \<Rightarrow> throw (TransitionRejected UnknownSubject [] None)
       | Some task \<Rightarrow>
           andThen (repo_require workflowRepo (t_workflowId task)) (\<lambda>wkf.
           andThen (getDb (unresolvedKinds SkTask (t_id task))) (\<lambda>unresolved.
           andThen (hashOf (PTask task)) (\<lambda>prior.
             taskEdgeFor rq task wkf (task_draft rq task wkf prior) unresolved)))))"

text \<open>A refusal is logged in a transaction of its own, after the rollback.\<close>

definition surface_refusal :: "failure \<Rightarrow> 'a io" where
  "surface_refusal e =
     (case e of PendingRejection ev code failed \<Rightarrow> flushRejection ev code failed | _ \<Rightarrow> throw e)"

definition transitionTask ::
  "task_status transition_request \<Rightarrow> (task, task_edge) transition_result io"
where
  "transitionTask rq = tryCatch (evaluateTaskTransition rq) surface_refusal"


section \<open>Phase transitions\<close>

definition CAP_BLOCKER_KINDS :: "string list" where
  "CAP_BLOCKER_KINDS = [''all_candidates_capped'', ''budget_hard_stop'']"

definition phaseGateStatusFor ::
  "phase_state \<Rightarrow> (phase_state, phase_edge) transition \<Rightarrow> string list \<Rightarrow> phase_gate_status"
where
  "phaseGateStatusFor dst edge kinds =
     (if tr_id edge = PhaseStaleEvidence then PgVerifying
      else if dst = PhPaused then
        (if tr_trigger edge = ''all_candidates_capped'' \<or> list_ex (\<lambda>k. k \<in> set CAP_BLOCKER_KINDS) kinds
         then PgPausedCap else PgPausedApproval)
      else phaseStorageStatus dst)"

definition phase_guard_context ::
  "phase_state transition_request \<Rightarrow> phase \<Rightarrow> workflow \<Rightarrow> guard_context io"
where
  "phase_guard_context rq phase wkf =
     andThen getNow (\<lambda>ts.
     getDb (\<lambda>d. \<lparr>gx_db = d, gx_workflow = wkf, gx_task = None, gx_phase = Some phase,
       gx_gitRevision = rq_gitRevision rq, gx_actor = rq_actor rq, gx_now = ts,
       gx_evidenceRefs = rq_evidenceRefs rq,
       gx_unresolvedBlockers = unresolvedKinds SkPhase (ph_id phase) d\<rparr>))"

definition commitPhaseEdge ::
  "phase_state transition_request \<Rightarrow> phase \<Rightarrow> workflow \<Rightarrow> (phase_state, phase_edge) transition \<Rightarrow>
   event_draft \<Rightarrow> phase_state \<Rightarrow> phase_state \<Rightarrow> (phase, phase_edge) transition_result io"
where
  "commitPhaseEdge rq phase wkf edge base0 src dst =
     (let base = base0\<lparr>dr_transitionId := Some (PhaseEdge (tr_id edge))\<rparr> in
      andThen (admitEdge edge rq
          (case rq_expectedStatus rq of None \<Rightarrow> False | Some s \<Rightarrow> s \<noteq> src) base) (\<lambda>_.
      andThen (raiseRequestedBlocker rq SkPhase (ph_id phase) (ph_workflowId phase)) (\<lambda>_.
      andThen (phase_guard_context rq phase wkf) (\<lambda>ctx.
      andThen (checkGuards (tr_preconditions edge) (rq_guards rq) ctx base) (\<lambda>_.
      andThen (getDb (unresolvedKinds SkPhase (ph_id phase))) (\<lambda>kinds.
      andThen (phases_update (ph_id phase)
          (\<lambda>p. p\<lparr>ph_gateStatus := phaseGateStatusFor dst edge kinds\<rparr>)) (\<lambda>updated.
      andThen (hashOf (PPhase updated)) (\<lambda>h.
      andThen (appendEvent (base\<lparr>dr_disposition := Accepted, dr_reasonCode := None,
          dr_failedGuards := [], dr_afterHash := h\<rparr>)) (\<lambda>ev.
      ret \<lparr>re_subject = updated, re_event = ev, re_transitionId = tr_id edge,
           re_sideEffects = tr_sideEffects edge\<rparr>)))))))))"

text \<open>The storage states cover every gate status, so \<open>fromState\<close> is always the lifecycle state.\<close>

definition phase_draft ::
  "phase_state transition_request \<Rightarrow> phase \<Rightarrow> workflow \<Rightarrow> phase_state option \<Rightarrow> content_hash \<Rightarrow> event_draft"
where
  "phase_draft rq phase wkf src prior = \<lparr>dr_workflow = wkf, dr_subjectKind = SkPhase,
     dr_subjectId = ph_id phase,
     dr_fromState = (case src of None \<Rightarrow> RawState ''unmapped'' | Some s \<Rightarrow> PhaseState s),
     dr_toState = requested_state PhaseState (rq_to rq), dr_transitionId = None,
     dr_trigger = rq_trigger rq, dr_actor = rq_actor rq, dr_disposition = Rejected,
     dr_reasonCode = None, dr_taskRevision = None,
     dr_gitRevision = rq_gitRevision rq, dr_failedGuards = [],
     dr_evidenceRefs = rq_evidenceRefs rq, dr_beforeHash = prior, dr_afterHash = prior\<rparr>"

definition phaseEdgeFor ::
  "phase_state transition_request \<Rightarrow> phase \<Rightarrow> workflow \<Rightarrow> event_draft \<Rightarrow> phase_state option \<Rightarrow>
   (phase, phase_edge) transition_result io"
where
  "phaseEdgeFor rq phase wkf base from_state =
     (case (from_state, rq_to rq) of
        (Some src, Known dst) \<Rightarrow>
          if dst \<notin> set PHASE_STATES then reject base UnknownState []
          else if src \<in> set PHASE_TERMINAL_STATES then reject base TerminalSubject []
          else if rq_trigger rq \<notin> set PHASE_TRIGGERS then reject base UnknownTrigger []
          else (case findPhaseTransition src dst (Some (rq_trigger rq)) of
                  None \<Rightarrow> reject base UnlistedEdge []
                | Some edge \<Rightarrow> commitPhaseEdge rq phase wkf edge base src dst)
      | _ \<Rightarrow> reject base UnknownState [])"

definition evaluatePhaseTransition ::
  "phase_state transition_request \<Rightarrow> (phase, phase_edge) transition_result io"
where
  "evaluatePhaseTransition rq = store_write (
     andThen (repo_get phaseRepo (rq_subject rq)) (\<lambda>found.
       case found of
         None \<Rightarrow> throw (TransitionRejected UnknownSubject [] None)
       | Some phase \<Rightarrow>
           andThen (repo_require workflowRepo (ph_workflowId phase)) (\<lambda>wkf.
           andThen (hashOf (PPhase phase)) (\<lambda>prior.
             let src = phaseLifecycleState (ph_gateStatus phase)
             in phaseEdgeFor rq phase wkf (phase_draft rq phase wkf src prior) src))))"

definition transitionPhase ::
  "phase_state transition_request \<Rightarrow> (phase, phase_edge) transition_result io"
where
  "transitionPhase rq = tryCatch (evaluatePhaseTransition rq) surface_refusal"

text \<open>
  \<open>advanceGatingSubstage\<close>: the next substage, refused outside gating and at the last one.
\<close>

fun next_in :: "'a list \<Rightarrow> 'a \<Rightarrow> 'a option" where
  "next_in (x # y # zs) s = (if x = s then Some y else next_in (y # zs) s)"
| "next_in _ s = None"

definition advanceGatingSubstage :: "string \<Rightarrow> phase io" where
  "advanceGatingSubstage pid = store_write (
     andThen (repo_require phaseRepo pid) (\<lambda>phase.
       if ph_gateStatus phase \<notin> set GATING_SUBSTAGES
       then throw (TransitionRejected UnlistedEdge [] None)
       else (case next_in GATING_SUBSTAGES (ph_gateStatus phase) of
               None \<Rightarrow> throw (TransitionRejected UnlistedEdge [] None)
             | Some nxt \<Rightarrow> phases_update (ph_id phase) (\<lambda>p. p\<lparr>ph_gateStatus := nxt\<rparr>))))"

definition isGateReviewStage :: "phase \<Rightarrow> bool" where
  "isGateReviewStage phase \<longleftrightarrow> ph_gateStatus phase = last GATING_SUBSTAGES"

definition nonterminalTasks :: "string \<Rightarrow> db \<Rightarrow> task list" where
  "nonterminalTasks wid d =
     filter (\<lambda>t. t_status t \<notin> set TASK_TERMINAL_STATES) (tasks_findByWorkflow wid d)"

definition nonterminalPhases :: "string \<Rightarrow> db \<Rightarrow> phase list" where
  "nonterminalPhases wid d =
     filter (\<lambda>p. case phaseLifecycleState (ph_gateStatus p) of None \<Rightarrow> False
                 | Some s \<Rightarrow> s \<notin> set PHASE_TERMINAL_STATES) (phases_forWorkflow wid d)"

section \<open>Gate hooks\<close>

text \<open>The guard tables built from the hooks a caller supplies; an omitted hook stays omitted.\<close>

record task_gate_hooks =
  th_allChecksPassAtExactRevision :: "guard_evaluator option"
  th_noJevGapOrDisabled :: "guard_evaluator option"
  th_policyReviewSatisfied :: "guard_evaluator option"

record phase_gate_hooks =
  phh_allTasksDone :: "guard_evaluator option"
  phh_integratedChecksPassAtExactRevision :: "guard_evaluator option"
  phh_phaseNoJevGapOrDisabled :: "guard_evaluator option"
  phh_phasePolicyReviewSatisfied :: "guard_evaluator option"

definition taskDoneGuards :: "task_gate_hooks \<Rightarrow> guard_table" where
  "taskDoneGuards hooks pc =
     (case pc of
        PcAllChecksPassExactRevision \<Rightarrow> th_allChecksPassAtExactRevision hooks
      | PcNoJevGapOrDisabled \<Rightarrow> th_noJevGapOrDisabled hooks
      | PcPolicyReviewSatisfied \<Rightarrow> th_policyReviewSatisfied hooks
      | _ \<Rightarrow> None)"

definition phaseDoneGuards :: "phase_gate_hooks \<Rightarrow> guard_table" where
  "phaseDoneGuards hooks pc =
     (case pc of
        PcAllTasksDone \<Rightarrow> phh_allTasksDone hooks
      | PcIntegratedChecksPassExactRevision \<Rightarrow> phh_integratedChecksPassAtExactRevision hooks
      | PcPhaseNoJevGapOrDisabled \<Rightarrow> phh_phaseNoJevGapOrDisabled hooks
      | PcPhasePolicyReviewSatisfied \<Rightarrow> phh_phasePolicyReviewSatisfied hooks
      | _ \<Rightarrow> None)"

definition allPhaseTasksDone :: guard_evaluator where
  "allPhaseTasksDone ctx =
     (case gx_phase ctx of
        None \<Rightarrow> GUnknown
      | Some phase \<Rightarrow>
          let ts = tasks_forPhase (ph_id phase) (gx_db ctx)
          in if ts = [] then GFalse else of_verdict (list_all (\<lambda>t. t_status t = Done) ts))"

section \<open>Guards fail closed\<close>

lemma evaluateGuards_Nil:
  "evaluateGuards pcs guards ctx = [] \<longleftrightarrow>
     (\<forall>pc \<in> set pcs. \<exists>ev. guards pc = Some ev \<and> ev ctx = GTrue)"
  by (auto simp: evaluateGuards_def filter_empty_conv split: option.splits)

lemma structural_pass:
  "(\<exists>ev. withStructuralGuards guards ctx pc = Some ev \<and> ev ctx = GTrue) \<longleftrightarrow>
     (case structuralGuards ctx pc of
        None \<Rightarrow> \<exists>ev. guards pc = Some ev \<and> ev ctx = GTrue
      | Some v \<Rightarrow> v = GTrue \<and> (\<forall>ev. guards pc = Some ev \<longrightarrow> ev ctx = GTrue))"
  by (auto simp: withStructuralGuards_def split: option.splits)

lemma of_verdict_GTrue [simp]: "of_verdict b = GTrue \<longleftrightarrow> b"
  by (simp add: of_verdict_def)

definition guards_hold :: "precondition list \<Rightarrow> guard_table \<Rightarrow> guard_context \<Rightarrow> bool" where
  "guards_hold pcs guards ctx \<longleftrightarrow> evaluateGuards pcs (withStructuralGuards guards ctx) ctx = []"

lemma guards_hold_iff:
  "guards_hold pcs guards ctx \<longleftrightarrow>
     (\<forall>pc \<in> set pcs. case structuralGuards ctx pc of
        None \<Rightarrow> \<exists>ev. guards pc = Some ev \<and> ev ctx = GTrue
      | Some v \<Rightarrow> v = GTrue \<and> (\<forall>ev. guards pc = Some ev \<longrightarrow> ev ctx = GTrue))"
  unfolding guards_hold_def evaluateGuards_Nil structural_pass ..


section \<open>The steps of a commit, inverted\<close>

lemma reject_Inl:
  "\<exists>i ts w'. reject base code failed w =
     (Inl (PendingRejection (event_of (base\<lparr>dr_disposition := Rejected, dr_reasonCode := Some code,
        dr_failedGuards := failed\<rparr>) i ts) code failed), w') \<and> w_db w' = w_db w"
  by (auto simp: reject_def buildEvent_def andThen_def newId_def getNow_def)

lemma reject_not_Inr [simp]: "reject base code failed w \<noteq> (Inr x, w')"
  by (simp add: reject_def buildEvent_def andThen_def newId_def getNow_def)

lemma admitEdge_Inr:
  assumes "admitEdge edge rq stale base w = (Inr u, w')"
  shows "w' = w" "actorRole (ta_kind (rq_actor rq)) \<in> set (tr_whoMayTrigger edge)" "\<not> stale"
    "tr_requiredEvidence edge \<noteq> [] \<Longrightarrow> rq_evidenceRefs rq \<noteq> []"
  using assms by (auto simp: admitEdge_def split: if_splits)

lemma raiseRequestedBlocker_Inr:
  assumes "raiseRequestedBlocker rq k i wid w = (Inr raised, w')"
  shows "raised = map_option fst (rq_blocker rq)"
    and "\<exists>bs. w_db w' = (w_db w)\<lparr>db_blockers := db_blockers (w_db w) @ bs\<rparr>"
    and "w_pending w' = w_pending w" "w_env w' = w_env w"
    and "rq_blocker rq = None \<Longrightarrow> w_db w' = w_db w"
proof -
  show "rq_blocker rq = None \<Longrightarrow> w_db w' = w_db w"
    using assms by (simp add: raiseRequestedBlocker_def)
  have "raised = map_option fst (rq_blocker rq) \<and>
      (\<exists>bs. w_db w' = (w_db w)\<lparr>db_blockers := db_blockers (w_db w) @ bs\<rparr>) \<and>
      w_pending w' = w_pending w \<and> w_env w' = w_env w"
  proof (cases "rq_blocker rq")
    case None
    then show ?thesis
      using assms by (auto simp: raiseRequestedBlocker_def intro!: exI [of _ "[]"])
  next
    case (Some p)
    then show ?thesis
      using assms by (cases p) (auto simp: raiseRequestedBlocker_def andThen_eq_Inr newId_def
          getNow_def dest!: blocker_insert_Inr)
  qed
  then show "raised = map_option fst (rq_blocker rq)"
    and "\<exists>bs. w_db w' = (w_db w)\<lparr>db_blockers := db_blockers (w_db w) @ bs\<rparr>"
    and "w_pending w' = w_pending w" "w_env w' = w_env w"
    by blast+
qed

lemma checkGuards_Inr:
  assumes "checkGuards pcs guards ctx base w = (Inr u, w')"
  shows "w' = w" "guards_hold pcs guards ctx"
  using assms by (auto simp: checkGuards_def guards_hold_def Let_def split: if_splits)

lemma task_guard_context_Inr:
  assumes "task_guard_context rq task wkf bs w = (Inr ctx, w')"
  shows "gx_db ctx = w_db w" "gx_task ctx = Some task" "gx_unresolvedBlockers ctx = bs"
    "gx_actor ctx = rq_actor rq" "gx_gitRevision ctx = rq_gitRevision rq" "gx_workflow ctx = wkf"
    "gx_evidenceRefs ctx = rq_evidenceRefs rq"
    "w_db w' = w_db w" "w_pending w' = w_pending w" "w_env w' = w_env w"
  using assms
  by (auto simp: task_guard_context_def andThen_eq_Inr phases.get_eq getNow_def)

text \<open>What completing a task does to the receipts: the presented one is stamped.\<close>

definition receipt_spent :: "string option \<Rightarrow> task \<Rightarrow> gate_receipt list \<Rightarrow> gate_receipt list \<Rightarrow> bool" where
  "receipt_spent rid task rs rs' \<longleftrightarrow>
     (\<exists>i r ts. rid = Some i \<and> tbl_get g_receiptId i rs = Some r \<and> g_gate r = GkTask \<and>
        g_disposition r = GdPass \<and> g_consumedAt r = None \<and>
        g_subjectId r = t_id task \<and> g_subjectRevision r = t_revision task \<and>
        rs' = tbl_put g_receiptId (r\<lparr>g_consumedAt := Some ts\<rparr>) rs)"

lemma authoriseCompletion_Inr:
  assumes "authoriseCompletion rq dst base w = (Inr u, w')"
  shows "dst \<noteq> Done \<Longrightarrow> w' = w"
    and "dst = Done \<Longrightarrow> \<exists>rid r ts t. rq_gateReceiptId rq = Some rid \<and>
       receipt_find rid (w_db w) = Some r \<and> g_gate r = GkTask \<and> g_disposition r = GdPass \<and>
       g_consumedAt r = None \<and>
       tbl_get t_id (g_subjectId r) (db_tasks (w_db w)) = Some t \<and> g_subjectRevision r = t_revision t \<and>
       w_db w' = (w_db w)\<lparr>db_receipts :=
         tbl_put g_receiptId (r\<lparr>g_consumedAt := Some ts\<rparr>) (db_receipts (w_db w))\<rparr> \<and>
       w_pending w' = Some rid"
    and "w_env w' = w_env w"
proof -
  show "dst \<noteq> Done \<Longrightarrow> w' = w"
    using assms by (simp add: authoriseCompletion_def)
  have run: "\<exists>rid x. rq_gateReceiptId rq = Some rid \<and> authoriseDone rid w = (Inr x, w')" if "dst = Done"
    using assms that
    by (auto simp: authoriseCompletion_def tryCatch_def andThen_def split: option.splits sum.splits prod.splits)
  then show "dst = Done \<Longrightarrow> \<exists>rid r ts t. rq_gateReceiptId rq = Some rid \<and>
       receipt_find rid (w_db w) = Some r \<and> g_gate r = GkTask \<and> g_disposition r = GdPass \<and>
       g_consumedAt r = None \<and>
       tbl_get t_id (g_subjectId r) (db_tasks (w_db w)) = Some t \<and> g_subjectRevision r = t_revision t \<and>
       w_db w' = (w_db w)\<lparr>db_receipts :=
         tbl_put g_receiptId (r\<lparr>g_consumedAt := Some ts\<rparr>) (db_receipts (w_db w))\<rparr> \<and>
       w_pending w' = Some rid"
    by (blast dest: authoriseDone_Inr)
  show "w_env w' = w_env w"
  proof (cases "dst = Done")
    case True
    then show ?thesis using run by (auto dest!: authoriseDone_Inr)
  next
    case False
    then show ?thesis using assms by (simp add: authoriseCompletion_def)
  qed
qed

lemma forEach_resolve_Inr:
  assumes "forEach bs (resolve_one ts who why) w = (Inr u, w')"
  shows "\<exists>rows. w' = w\<lparr>w_db := (w_db w)\<lparr>db_blockers := rows\<rparr>\<rparr>"
  using assms
proof (induction bs arbitrary: w)
  case Nil
  then show ?case by (auto intro!: exI [of _ "db_blockers (w_db w)"])
next
  case (Cons b bs)
  from Cons.prems obtain b' w1 where r: "blocker_resolve (b_blockerId b) ts who why w = (Inr b', w1)"
    and rest: "forEach bs (resolve_one ts who why) w1 = (Inr u, w')"
    by (auto simp: andThen_eq_Inr resolve_one_def [of ts who why b])
  obtain rows where "w1 = w\<lparr>w_db := (w_db w)\<lparr>db_blockers := rows\<rparr>\<rparr>"
    using r by (rule blocker_resolve_InrE) blast
  with Cons.IH [OF rest] show ?case by auto
qed

lemma unresolvedForSubject_blockers [simp]:
  "unresolvedForSubject k i (d\<lparr>db_receipts := rs\<rparr>) = unresolvedForSubject k i d"
  "unresolvedForSubject k i (d\<lparr>db_tasks := tks\<rparr>) = unresolvedForSubject k i d"
  "unresolvedForSubject k i (d\<lparr>db_audit := au\<rparr>) = unresolvedForSubject k i d"
  "unresolvedForSubject k i (d\<lparr>db_events := evs\<rparr>) = unresolvedForSubject k i d"
  by (simp_all add: unresolvedForSubject_def)

lemma deriveBlockerField_cong:
  "db_blockers d = db_blockers d' \<Longrightarrow> deriveBlockerField k i d = deriveBlockerField k i d'"
  by (simp add: deriveBlockerField_def unresolvedKinds_def unresolvedForSubject_def)

lemma applyTaskBlockerSideEffects_Inr:
  assumes "applyTaskBlockerSideEffects rq task dst edge w = (Inr blk, w')"
  shows "\<exists>rows. w_db w' = (w_db w)\<lparr>db_blockers := rows\<rparr>"
    and "dst \<noteq> Cancelled \<Longrightarrow> w_db w' = w_db w"
    and "blk = deriveBlockerField SkTask (t_id task) (w_db w')"
    and "w_pending w' = w_pending w" "w_env w' = w_env w"
proof -
  have "(\<exists>rows. w_db w' = (w_db w)\<lparr>db_blockers := rows\<rparr>) \<and>
      (dst \<noteq> Cancelled \<longrightarrow> w_db w' = w_db w) \<and>
      blk = deriveBlockerField SkTask (t_id task) (w_db w') \<and>
      w_pending w' = w_pending w \<and> w_env w' = w_env w"
  proof (cases "dst = Cancelled")
    case True
    then show ?thesis
      using assms by (auto simp: applyTaskBlockerSideEffects_def andThen_eq_Inr getNow_def
          dest!: forEach_resolve_Inr)
  next
    case False
    then show ?thesis
      using assms by (auto simp: applyTaskBlockerSideEffects_def andThen_eq_Inr getNow_def
          intro!: exI [of _ "db_blockers (w_db w)"])
  qed
  then show "\<exists>rows. w_db w' = (w_db w)\<lparr>db_blockers := rows\<rparr>"
    and "dst \<noteq> Cancelled \<Longrightarrow> w_db w' = w_db w"
    and "blk = deriveBlockerField SkTask (t_id task) (w_db w')"
    and "w_pending w' = w_pending w" "w_env w' = w_env w"
    by blast+
qed

lemma appendEvent_Inr:
  assumes "appendEvent dr w = (Inr ev, w')"
  shows "(\<exists>i ts. ev = event_of dr i ts) \<and>
    w_db w' = (w_db w)\<lparr>db_events := db_events (w_db w) @ [ev]\<rparr> \<and> w_pending w' = w_pending w"
  using assms
  by (auto simp: appendEvent_def buildEvent_def andThen_eq_Inr newId_def getNow_def
      dest!: transitionLog_insert_Inr)


section \<open>What an accepted task transition did\<close>

text \<open>
  One record of everything an accepted request established before the write, and of the write:
  the task's row, one event, the receipt, the blockers and one audit row.
\<close>

definition task_accepted ::
  "task_status transition_request \<Rightarrow> db \<Rightarrow> task \<Rightarrow> (task_status, task_edge) transition \<Rightarrow> task_status \<Rightarrow>
   guard_context \<Rightarrow> bool"
where
  "task_accepted rq d task edge dst ctx \<longleftrightarrow>
     tbl_get t_id (rq_subject rq) (db_tasks d) = Some task \<and> rq_to rq = Known dst \<and>
     t_status task \<notin> set TASK_TERMINAL_STATES \<and>
     edge \<in> set TASK_TRANSITIONS \<and> tr_to edge = dst \<and> t_status task \<in> set (tr_from edge) \<and>
     tr_trigger edge = rq_trigger rq \<and>
     actorRole (ta_kind (rq_actor rq)) \<in> set (tr_whoMayTrigger edge) \<and> \<not> task_stale rq task \<and>
     rq_evidenceRefs rq \<noteq> [] \<and>
     gx_task ctx = Some task \<and> gx_actor ctx = rq_actor rq \<and> gx_gitRevision ctx = rq_gitRevision rq \<and>
     db_tasks (gx_db ctx) = db_tasks d \<and>
     gx_unresolvedBlockers ctx = unresolvedKinds SkTask (t_id task) d @
       (case rq_blocker rq of None \<Rightarrow> [] | Some b \<Rightarrow> [fst b]) \<and>
     guards_hold (tr_preconditions edge) (rq_guards rq) ctx"

definition task_written ::
  "task_status transition_request \<Rightarrow> db \<Rightarrow> task \<Rightarrow> (task_status, task_edge) transition \<Rightarrow> task_status \<Rightarrow>
   (task, task_edge) transition_result \<Rightarrow> db \<Rightarrow> bool"
where
  "task_written rq d task edge dst res d' \<longleftrightarrow>
     (\<exists>ts. re_subject res = task\<lparr>t_status := dst,
        t_blocker := deriveBlockerField SkTask (t_id task) d', t_updatedAt := ts\<rparr>) \<and>
     db_tasks d' = tbl_put t_id (re_subject res) (db_tasks d) \<and>
     db_events d' = db_events d @ [re_event res] \<and>
     (if dst = Done then receipt_spent (rq_gateReceiptId rq) task (db_receipts d) (db_receipts d')
      else db_receipts d' = db_receipts d) \<and>
     (\<exists>row. db_audit d' = db_audit d @ [row] \<and> au_recordId row = t_id task \<and> au_table row = TbTask) \<and>
     (rq_blocker rq = None \<and> dst \<noteq> Cancelled \<longrightarrow> db_blockers d' = db_blockers d) \<and>
     db_workflows d' = db_workflows d \<and> db_phases d' = db_phases d \<and>
     db_attempts d' = db_attempts d \<and> db_decisions d' = db_decisions d \<and>
     db_evidence d' = db_evidence d \<and> db_approvals d' = db_approvals d \<and> db_requests d' = db_requests d \<and>
     re_transitionId res = tr_id edge"

definition accepted_event ::
  "transition_event \<Rightarrow> task_status transition_request \<Rightarrow> task \<Rightarrow> (task_status, task_edge) transition \<Rightarrow> bool"
where
  "accepted_event ev rq task edge \<longleftrightarrow>
     ev_disposition ev = Accepted \<and> ev_reasonCode ev = None \<and> ev_failedGuards ev = [] \<and>
     ev_subjectKind ev = SkTask \<and> ev_subjectId ev = t_id task \<and>
     ev_fromState ev = TaskState (t_status task) \<and> ev_toState ev = TaskState (tr_to edge) \<and>
     ev_transitionId ev = Some (TaskEdge (tr_id edge)) \<and> ev_trigger ev = rq_trigger rq \<and>
     ev_actor ev = rq_actor rq \<and> ev_taskRevision ev = Some (t_revision task) \<and>
     ev_evidenceRefs ev = rq_evidenceRefs rq"

lemma status_patch:
  "apply_task_patch (no_patch\<lparr>pt_status := Some s, pt_blocker := Some b\<rparr>) t =
     t\<lparr>t_status := s, t_blocker := b\<rparr>"
  "\<not> touchesRevisioned (no_patch\<lparr>pt_status := Some s, pt_blocker := Some b\<rparr>)"
  by (simp_all add: apply_task_patch_def no_patch_def touchesRevisioned_def)

lemma commitTaskEdge_Inr:
  assumes run: "commitTaskEdge rq task wkf edge (task_draft rq task wkf h) (unresolvedKinds SkTask (t_id task) (w_db w))
      dst w = (Inr res, w')"
    and task: "tbl_get t_id (t_id task) (db_tasks (w_db w)) = Some task"
    and to: "rq_to rq = Known dst" and dst: "tr_to edge = dst" "t_status task \<noteq> Done"
    and ne: "tr_requiredEvidence edge \<noteq> []"
  shows "actorRole (ta_kind (rq_actor rq)) \<in> set (tr_whoMayTrigger edge) \<and> \<not> task_stale rq task \<and>
     rq_evidenceRefs rq \<noteq> [] \<and>
     (\<exists>ctx. gx_task ctx = Some task \<and> gx_actor ctx = rq_actor rq \<and>
       gx_gitRevision ctx = rq_gitRevision rq \<and> db_tasks (gx_db ctx) = db_tasks (w_db w) \<and>
       gx_unresolvedBlockers ctx = unresolvedKinds SkTask (t_id task) (w_db w) @
         (case rq_blocker rq of None \<Rightarrow> [] | Some b \<Rightarrow> [fst b]) \<and>
       guards_hold (tr_preconditions edge) (rq_guards rq) ctx) \<and>
     task_written rq (w_db w) task edge dst res (w_db w') \<and> accepted_event (re_event res) rq task edge \<and>
     w_pending w' = None"
proof -
  let ?base = "(task_draft rq task wkf h)\<lparr>dr_transitionId := Some (TaskEdge (tr_id edge))\<rparr>"
  obtain u1 w1 raised w2 ctx w3 u4 w4 u5 w5 blk w6 upd w7 h' w8 ev w9 where
      admit: "admitEdge edge rq (task_stale rq task) ?base w = (Inr u1, w1)"
    and raise: "raiseRequestedBlocker rq SkTask (t_id task) (t_workflowId task) w1 = (Inr raised, w2)"
    and ctx: "task_guard_context rq task wkf (case raised of None \<Rightarrow> unresolvedKinds SkTask (t_id task) (w_db w)
         | Some k \<Rightarrow> unresolvedKinds SkTask (t_id task) (w_db w) @ [k]) w2 = (Inr ctx, w3)"
    and guards: "checkGuards (tr_preconditions edge) (rq_guards rq) ctx ?base w3 = (Inr u4, w4)"
    and auth: "authoriseCompletion rq dst ?base w4 = (Inr u5, w5)"
    and side: "applyTaskBlockerSideEffects rq task dst (tr_id edge) w5 = (Inr blk, w6)"
    and upd: "tasks_update (t_id task) (no_patch\<lparr>pt_status := Some dst, pt_blocker := Some blk\<rparr>) w6 =
         (Inr upd, w7)"
    and hash: "hashOf (PTask upd) w7 = (Inr h', w8)"
    and ev: "appendEvent (?base\<lparr>dr_disposition := Accepted, dr_reasonCode := None,
         dr_failedGuards := [], dr_afterHash := h'\<rparr>) w8 = (Inr ev, w9)"
    and res: "(ret \<lparr>re_subject = upd, re_event = ev, re_transitionId = tr_id edge,
         re_sideEffects = tr_sideEffects edge\<rparr> :: (task, task_edge) transition_result io) w9 = (Inr res, w')"
    using run unfolding commitTaskEdge_def Let_def
    by (elim andThen_InrE) (rule that, assumption+)
  note A = admitEdge_Inr [OF admit]
  note B = raiseRequestedBlocker_Inr [OF raise]
  note C = task_guard_context_Inr [OF ctx]
  note G = checkGuards_Inr [OF guards]
  note D = authoriseCompletion_Inr [OF auth]
  note S = applyTaskBlockerSideEffects_Inr [OF side]
  have E: "(\<exists>i ts. ev = event_of (?base\<lparr>dr_disposition := Accepted, dr_reasonCode := None,
         dr_failedGuards := [], dr_afterHash := h'\<rparr>) i ts)"
      "w_db w' = (w_db w7)\<lparr>db_events := db_events (w_db w7) @ [ev]\<rparr>" "w_pending w' = w_pending w7"
    using appendEvent_Inr [OF ev] hash res by (auto simp: hashOf_def)
  obtain bs where "w_db w2 = (w_db w)\<lparr>db_blockers := db_blockers (w_db w) @ bs\<rparr>"
    using B(2) A(1) by blast
  then have d4: "w_db w4 = (w_db w)\<lparr>db_blockers := db_blockers (w_db w) @ bs\<rparr>"
    using C(8) G(1) by simp
  have quiet: "db_blockers (w_db w4) = db_blockers (w_db w)" if "rq_blocker rq = None"
    using B(5) [OF that] C(8) G(1) A(1) by simp
  have ctx': "gx_unresolvedBlockers ctx = unresolvedKinds SkTask (t_id task) (w_db w) @
      (case rq_blocker rq of None \<Rightarrow> [] | Some b \<Rightarrow> [fst b])"
    using C(3) B(1) by (cases "rq_blocker rq") auto
  have ctxdb: "db_tasks (gx_db ctx) = db_tasks (w_db w)"
    using C(1,8) d4 G(1) by simp
  obtain rs rows where d6: "w_db w6 = (w_db w)\<lparr>db_receipts := rs, db_blockers := rows\<rparr>"
    and spent: "dst \<noteq> Done \<Longrightarrow> rs = db_receipts (w_db w)"
    and d5: "dst = Done \<Longrightarrow> db_receipts (w_db w5) = rs"
    and rows: "dst \<noteq> Cancelled \<Longrightarrow> rows = db_blockers (w_db w4)"
  proof -
    obtain rows where "w_db w6 = (w_db w5)\<lparr>db_blockers := rows\<rparr>"
      using S(1) by blast
    moreover have "rows = db_blockers (w_db w5)" if "dst \<noteq> Cancelled"
      using S(2) [OF that] calculation by (metis db.select_convs(9) db.surjective db.update_convs(9))
    moreover obtain rs where "w_db w5 = (w_db w4)\<lparr>db_receipts := rs\<rparr>" "dst \<noteq> Done \<Longrightarrow> rs = db_receipts (w_db w)"
    proof (cases "dst = Done")
      case True
      then show ?thesis using that D(2) by blast
    next
      case False
      then show ?thesis using that [of "db_receipts (w_db w)"] D(1) d4 by simp
    qed
    ultimately show ?thesis using that d4 by simp
  qed
  from upd obtain ts row where
      u: "upd = task\<lparr>t_status := dst, t_blocker := blk, t_updatedAt := ts\<rparr>"
    and d7: "w_db w7 = (w_db w6)\<lparr>db_tasks := tbl_put t_id upd (db_tasks (w_db w6)),
       db_audit := db_audit (w_db w6) @ [row]\<rparr>"
    and row: "au_table row = TbTask" "au_recordId row = t_id task" and pend: "w_pending w7 = None"
    and rf: "dst = Done \<Longrightarrow> receipt_for (w_db w6) (w_pending w6) task"
  proof (rule tasks_update_InrE, goal_cases)
    case (1 t ts row)
    have t: "t = task" using 1(2) task d6 by simp
    show ?case
    proof (rule that [of ts row])
      show "upd = task\<lparr>t_status := dst, t_blocker := blk, t_updatedAt := ts\<rparr>"
        using 1(3) by (simp only: t status_patch)
      show "receipt_for (w_db w6) (w_pending w6) task" if "dst = Done"
        using 1(12) dst(2) that by (simp add: t no_patch_def)
    qed (fact 1)+
  qed
  have spent': "receipt_spent (rq_gateReceiptId rq) task (db_receipts (w_db w)) rs" if "dst = Done"
  proof -
    from D(2) [OF that] obtain rid r ts where r: "rq_gateReceiptId rq = Some rid"
       "receipt_find rid (w_db w4) = Some r" "g_gate r = GkTask" "g_disposition r = GdPass"
       "g_consumedAt r = None" "w_pending w5 = Some rid"
       "w_db w5 = (w_db w4)\<lparr>db_receipts :=
         tbl_put g_receiptId (r\<lparr>g_consumedAt := Some ts\<rparr>) (db_receipts (w_db w4))\<rparr>"
      by blast
    have rs: "rs = tbl_put g_receiptId (r\<lparr>g_consumedAt := Some ts\<rparr>) (db_receipts (w_db w))"
      using d5 [OF that] r(7) d4 by simp
    have "receipt_find rid (w_db w6) = Some (r\<lparr>g_consumedAt := Some ts\<rparr>)"
      using r(2) tbl_get_key [of g_receiptId rid "db_receipts (w_db w)" r] d4 d6 rs
      by (simp add: receipt_find_def tbl_get_put)
    with rf [OF that] r(6) S(4) have "g_subjectId r = t_id task" "g_subjectRevision r = t_revision task"
      by (auto simp: receipt_for_def)
    with r d4 rs show ?thesis
      by (auto simp: receipt_spent_def receipt_find_def)
  qed
  have blk: "blk = deriveBlockerField SkTask (t_id task) (w_db w')"
    using S(3) E(2) d7 by (simp add: deriveBlockerField_cong [of "w_db w6" "w_db w'"])
  have written: "task_written rq (w_db w) task edge dst res (w_db w')"
  proof -
    have "re_subject res = upd" "re_event res = ev" "re_transitionId res = tr_id edge"
      using res by auto
    moreover have "db_tasks (w_db w') = tbl_put t_id upd (db_tasks (w_db w))"
      "db_events (w_db w') = db_events (w_db w) @ [ev]" "db_receipts (w_db w') = rs"
      "db_audit (w_db w') = db_audit (w_db w) @ [row]"
      "db_workflows (w_db w') = db_workflows (w_db w)" "db_phases (w_db w') = db_phases (w_db w)"
      "db_attempts (w_db w') = db_attempts (w_db w)" "db_decisions (w_db w') = db_decisions (w_db w)"
      "db_evidence (w_db w') = db_evidence (w_db w)" "db_approvals (w_db w') = db_approvals (w_db w)"
      "db_requests (w_db w') = db_requests (w_db w)"
      unfolding E(2) d7 d6 by simp_all
    moreover have "\<exists>ts. upd = task\<lparr>t_status := dst,
        t_blocker := deriveBlockerField SkTask (t_id task) (w_db w'), t_updatedAt := ts\<rparr>"
      using u [unfolded blk] by blast
    moreover have "db_blockers (w_db w') = db_blockers (w_db w)"
      if "rq_blocker rq = None \<and> dst \<noteq> Cancelled"
      using quiet rows that unfolding E(2) d7 d6 by simp
    ultimately show ?thesis
      using row spent spent' by (simp add: task_written_def)
  qed
  have "accepted_event (re_event res) rq task edge"
    using E(1) res dst(1) to by (auto simp: accepted_event_def event_of_def task_draft_def)
  then show ?thesis
    by (intro conjI exI [of _ ctx]) (use written A ne C(2,4,5) ctx' ctxdb G(2) E(3) pend in simp_all)
qed


lemma surface_refusal_not_Inr [simp]: "surface_refusal e w \<noteq> (Inr x, w')"
  by (cases e) (auto simp: surface_refusal_def flushRejection_def andThen_eq_Inr)

lemma tryCatch_surface:
  "tryCatch m surface_refusal w = (Inr x, w') \<longleftrightarrow> m w = (Inr x, w')"
  by (auto simp: tryCatch_def split: prod.splits sum.splits)

lemma taskEdgeFor_Inr:
  assumes "taskEdgeFor rq task wkf base unres w = (Inr res, w')"
  obtains dst edge where "rq_to rq = Known dst" "t_status task \<notin> set TASK_TERMINAL_STATES"
    "findTaskTransition (t_status task) dst (Some (rq_trigger rq)) = Some edge"
    "commitTaskEdge rq task wkf edge base unres dst w = (Inr res, w')"
  using assms
  by (auto simp: taskEdgeFor_def split: requested.splits if_splits option.splits)

theorem transitionTask_Inr:
  assumes "transitionTask rq w = (Inr res, w')"
  shows "\<exists>task edge dst ctx. task_accepted rq (w_db w) task edge dst ctx \<and>
     task_written rq (w_db w) task edge dst res (w_db w') \<and>
     accepted_event (re_event res) rq task edge \<and> w_pending w' = None"
proof -
  from assms obtain w1 d where run: "(andThen (repo_get taskRepo (rq_subject rq)) (\<lambda>found.
       case found of
         None \<Rightarrow> throw (TransitionRejected UnknownSubject [] None)
       | Some task \<Rightarrow>
           andThen (repo_require workflowRepo (t_workflowId task)) (\<lambda>wkf.
           andThen (getDb (unresolvedKinds SkTask (t_id task))) (\<lambda>unresolved.
           andThen (hashOf (PTask task)) (\<lambda>prior.
             taskEdgeFor rq task wkf (task_draft rq task wkf prior) unresolved)))))
      (w\<lparr>w_depth := Suc (w_depth w)\<rparr>) = (Inr res, w1)" and w': "w' = w1\<lparr>w_depth := d\<rparr>"
    unfolding transitionTask_def tryCatch_surface evaluateTaskTransition_def
    by (elim store_write_InrE)
  from run obtain task wkf where task: "tbl_get t_id (rq_subject rq) (db_tasks (w_db w)) = Some task"
    and edge: "taskEdgeFor rq task wkf (task_draft rq task wkf (env_sha (w_env w) (PTask task)))
        (unresolvedKinds SkTask (t_id task) (w_db w)) (w\<lparr>w_depth := Suc (w_depth w)\<rparr>) = (Inr res, w1)"
    by (auto simp: andThen_eq_Inr tasks.get_eq workflows.require_eq hashOf_def split: option.splits)
  have id: "t_id task = rq_subject rq"
    using task by (rule tbl_get_key)
  from edge obtain dst edge where e: "rq_to rq = Known dst" "t_status task \<notin> set TASK_TERMINAL_STATES"
    "findTaskTransition (t_status task) dst (Some (rq_trigger rq)) = Some edge"
    and run': "commitTaskEdge rq task wkf edge (task_draft rq task wkf (env_sha (w_env w) (PTask task)))
        (unresolvedKinds SkTask (t_id task) (w_db w)) dst (w\<lparr>w_depth := Suc (w_depth w)\<rparr>) = (Inr res, w1)"
    by (rule taskEdgeFor_Inr)
  note F = task_table.find_sound [OF e(3) [unfolded findTaskTransition_def]]
  have "t_status task \<noteq> Done"
    using e(2) by (auto simp: TASK_TERMINAL_STATES_def)
  from commitTaskEdge_Inr [where w = "w\<lparr>w_depth := Suc (w_depth w)\<rparr>", simplified, OF run' _ e(1) F(2) this]
    task id e F task_table.evidence_needed [OF F(1)]
  show ?thesis
    by (auto simp: w' task_accepted_def)
qed


section \<open>What a call may throw\<close>

definition throws_only :: "(failure \<Rightarrow> bool) \<Rightarrow> 'a io \<Rightarrow> bool" where
  "throws_only P m \<longleftrightarrow> (\<forall>w e w'. m w = (Inl e, w') \<longrightarrow> P e)"

named_theorems throws_intros \<open>rules that establish throws_only\<close>

lemma throws_onlyD: "throws_only P m \<Longrightarrow> m w = (Inl e, w') \<Longrightarrow> P e"
  by (auto simp: throws_only_def)

lemma throws_ret [throws_intros]: "throws_only P (ret x)"
  by (simp add: throws_only_def)

lemma throws_gets [throws_intros]: "throws_only P (gets f)"
  by (simp add: throws_only_def)

lemma throws_modify [throws_intros]: "throws_only P (modify f)"
  by (simp add: throws_only_def)

lemma throws_getNow [throws_intros]: "throws_only P getNow"
  by (simp add: throws_only_def getNow_def)

lemma throws_newId [throws_intros]: "throws_only P newId"
  by (simp add: throws_only_def newId_def)

lemma throws_hashOf [throws_intros]: "throws_only P (hashOf p)"
  by (simp add: throws_only_def hashOf_def)

lemma throws_throw [throws_intros]: "P e \<Longrightarrow> throws_only P (throw e)"
  by (simp add: throws_only_def)

lemma throws_andThen [throws_intros]:
  "throws_only P m \<Longrightarrow> (\<And>x. throws_only P (f x)) \<Longrightarrow> throws_only P (andThen m f)"
  unfolding throws_only_def andThen_eq_Inl by blast

lemma throws_store_write [throws_intros]:
  "throws_only P m \<Longrightarrow> P ReadOnlyStore \<Longrightarrow> throws_only P (store_write m)"
  unfolding throws_only_def by (blast elim: store_write_InlE)

lemma throws_if [throws_intros]:
  "(c \<Longrightarrow> throws_only P a) \<Longrightarrow> (\<not> c \<Longrightarrow> throws_only P b) \<Longrightarrow> throws_only P (if c then a else b)"
  by simp

lemma throws_option [throws_intros]:
  "throws_only P a \<Longrightarrow> (\<And>x. throws_only P (b x)) \<Longrightarrow>
     throws_only P (case v of None \<Rightarrow> a | Some x \<Rightarrow> b x)"
  by (simp split: option.split)

lemma throws_prod [throws_intros]:
  "(\<And>x y. throws_only P (f x y)) \<Longrightarrow> throws_only P (case p of (x, y) \<Rightarrow> f x y)"
  by (simp split: prod.split)

lemma throws_forEach [throws_intros]:
  "(\<And>x. throws_only P (f x)) \<Longrightarrow> throws_only P (forEach xs f)"
  by (induction xs) (simp_all only: forEach.simps throws_ret throws_andThen)

lemma throws_tryCatch [throws_intros]:
  "(\<And>e. throws_only P (h e)) \<Longrightarrow> throws_only P (tryCatch m h)"
  by (auto simp: throws_only_def tryCatch_def split: prod.splits sum.splits)

text \<open>
  What the store itself raises: a missing row, a record rule, a constraint, a trigger, a read-only
  store or an unknown blocker. The state machine's carrier and its public refusal are not among them.
\<close>

primrec store_error :: "failure \<Rightarrow> bool" where
  "store_error (RecordNotFound tab i) = True"
| "store_error (RecordRule r) = True"
| "store_error ConstraintFailed = True"
| "store_error TriggerAbort = True"
| "store_error ReadOnlyStore = True"
| "store_error UnknownBlocker = True"
| "store_error (TransitionRejected c gs ev) = False"
| "store_error (PendingRejection ev c gs) = False"
| "store_error GateRefused = False"
| "store_error InvalidTime = False"

lemma throws_store_ops [throws_intros]:
  "throws_only store_error (repo_get rp i)" "throws_only store_error (repo_require rp i)"
  "throws_only store_error (transitionLog_insert ev)" "throws_only store_error (blocker_insert b)"
  "throws_only store_error (blocker_resolve i ts who detail)"
  "throws_only store_error (receipt_consume rid ts)" "throws_only store_error (authoriseDone rid)"
  "throws_only store_error (writeAuditRow tab i oper h0 h1 wid who)"
  "throws_only store_error (task_beforeUpdate patch t c)"
  by (auto simp: repo_get_def repo_require_def transitionLog_insert_def blocker_insert_def
      blocker_resolve_def receipt_consume_def authoriseDone_def writeAuditRow_def
      task_beforeUpdate_def Let_def intro!: throws_intros)

lemma throws_repo_update:
  "(\<And>b c. throws_only store_error (bu b c)) \<Longrightarrow> throws_only store_error (repo_update rp bu patch i)"
  unfolding repo_update_def by (intro throws_intros) simp_all

lemma throws_updates [throws_intros]:
  "throws_only store_error (tasks_update i patch)" "throws_only store_error (phases_update i f)"
  unfolding tasks_update_def phases_update_def by (intro throws_repo_update throws_intros)+


section \<open>Refusals\<close>

definition refusal_event ::
  "transition_event \<Rightarrow> rejection_code \<Rightarrow> precondition list \<Rightarrow> subject_kind \<Rightarrow> string \<Rightarrow> subject_state \<Rightarrow>
   content_hash \<Rightarrow> bool"
where
  "refusal_event ev code failed k i st h \<longleftrightarrow>
     ev_disposition ev = Rejected \<and> ev_reasonCode ev = Some code \<and> ev_failedGuards ev = failed \<and>
     ev_subjectKind ev = k \<and> ev_subjectId ev = i \<and> ev_fromState ev = st \<and>
     ev_beforeHash ev = h \<and> ev_afterHash ev = h"

definition refusal :: "subject_kind \<Rightarrow> string \<Rightarrow> subject_state \<Rightarrow> content_hash \<Rightarrow> failure \<Rightarrow> bool" where
  "refusal k i st h e \<longleftrightarrow> store_error e \<or>
     (\<exists>ev code failed. e = PendingRejection ev code failed \<and> refusal_event ev code failed k i st h)"

definition draft_about :: "event_draft \<Rightarrow> subject_kind \<Rightarrow> string \<Rightarrow> subject_state \<Rightarrow> content_hash \<Rightarrow> bool" where
  "draft_about dr k i st h \<longleftrightarrow> dr_subjectKind dr = k \<and> dr_subjectId dr = i \<and> dr_fromState dr = st \<and>
     dr_beforeHash dr = h \<and> dr_afterHash dr = h"

lemma draft_about_edge [simp]:
  "draft_about (dr\<lparr>dr_transitionId := e\<rparr>) k i st h \<longleftrightarrow> draft_about dr k i st h"
  by (simp add: draft_about_def)

lemma throws_store_refusal: "throws_only store_error m \<Longrightarrow> throws_only (refusal k i st h) m"
  by (auto simp: throws_only_def refusal_def)

lemma throws_reject:
  "draft_about dr k i st h \<Longrightarrow> throws_only (refusal k i st h) (reject dr code failed)"
  by (auto simp: throws_only_def reject_def buildEvent_def andThen_eq_Inl newId_def getNow_def
      refusal_def refusal_event_def draft_about_def event_of_def)

lemma throws_raiseRequestedBlocker: "throws_only store_error (raiseRequestedBlocker rq k i wid)"
  unfolding raiseRequestedBlocker_def by (intro throws_intros)

lemma throws_sideEffects: "throws_only store_error (applyTaskBlockerSideEffects rq task dst edge)"
  unfolding applyTaskBlockerSideEffects_def resolve_one_def by (intro throws_intros)

lemma throws_contexts:
  "throws_only store_error (task_guard_context rq task wkf bs)"
  "throws_only store_error (phase_guard_context prq phase wkf)"
  unfolding task_guard_context_def phase_guard_context_def by (intro throws_intros)+

lemma throws_appendEvent: "throws_only store_error (appendEvent dr)"
  unfolding appendEvent_def buildEvent_def by (intro throws_intros)

lemmas throws_from_store = throws_raiseRequestedBlocker throws_sideEffects throws_contexts
  throws_appendEvent throws_updates throws_hashOf throws_gets throws_store_ops

lemma throws_checks:
  assumes "draft_about dr k i st h"
  shows "throws_only (refusal k i st h) (admitEdge edge rq stale dr)"
    and "throws_only (refusal k i st h) (checkGuards pcs gs ctx dr)"
    and "throws_only (refusal k i st h) (authoriseCompletion rq' dst dr)"
  unfolding admitEdge_def checkGuards_def authoriseCompletion_def Let_def
  by (intro throws_intros throws_reject assms)+

lemma throws_commitTaskEdge:
  assumes "draft_about dr k i st h"
  shows "throws_only (refusal k i st h) (commitTaskEdge rq task wkf edge dr unres dst)"
  unfolding commitTaskEdge_def Let_def
  by (rule throws_andThen throws_checks throws_ret throws_store_refusal throws_from_store |
      simp add: assms)+

lemma throws_taskEdgeFor:
  assumes "draft_about dr k i st h"
  shows "throws_only (refusal k i st h) (taskEdgeFor rq task wkf dr unres)"
  unfolding taskEdgeFor_def
  by (auto split: requested.split intro!: throws_intros throws_reject throws_commitTaskEdge assms)

lemma throws_commitPhaseEdge:
  assumes "draft_about dr k i st h"
  shows "throws_only (refusal k i st h) (commitPhaseEdge rq phase wkf edge dr src dst)"
  unfolding commitPhaseEdge_def Let_def
  by (rule throws_andThen throws_checks throws_ret throws_store_refusal throws_from_store |
      simp add: assms)+

lemma throws_phaseEdgeFor:
  assumes "draft_about dr k i st h"
  shows "throws_only (refusal k i st h) (phaseEdgeFor rq phase wkf dr src)"
  unfolding phaseEdgeFor_def
  by (auto split: requested.split option.split intro!: throws_intros throws_reject
      throws_commitPhaseEdge assms)

lemma flushRejection_Inl:
  assumes "flushRejection ev code failed w = (Inl e, w')" and "w_depth w = 0"
  shows "(e = TransitionRejected code failed (Some ev) \<and>
      w_db w' = (w_db w)\<lparr>db_events := db_events (w_db w) @ [ev]\<rparr>) \<or> (store_error e \<and> w_db w' = w_db w)"
proof -
  from assms(1) consider
      (lost) "store_write (transitionLog_insert ev) w = (Inl e, w')"
    | (logged) ev' where "store_write (transitionLog_insert ev) w = (Inr ev', w')"
        "e = TransitionRejected code failed (Some ev')"
    by (auto simp: flushRejection_def andThen_eq_Inl)
  then show ?thesis
  proof cases
    case lost
    have "throws_only store_error (store_write (transitionLog_insert ev))"
      by (intro throws_intros) simp
    from throws_onlyD [OF this lost] store_write_rollback [OF lost assms(2)] show ?thesis
      by simp
  next
    case logged
    then show ?thesis
      by (auto elim!: store_write_InrE dest!: transitionLog_insert_Inr)
  qed
qed

text \<open>
  The outcome of a refused call at the outermost level, given what its evaluation may throw: the
  refusal is logged and nothing else changes, or nothing changes at all.
\<close>

definition refused_with :: "subject_kind \<Rightarrow> string \<Rightarrow> subject_state \<Rightarrow> content_hash \<Rightarrow> db \<Rightarrow> failure \<Rightarrow> db \<Rightarrow> bool" where
  "refused_with k i st h d e d' \<longleftrightarrow>
     (\<exists>code failed ev. e = TransitionRejected code failed (Some ev) \<and>
        refusal_event ev code failed k i st h \<and> d' = d\<lparr>db_events := db_events d @ [ev]\<rparr>) \<or>
     (store_error e \<and> d' = d)"

lemma refused_surface:
  fixes m :: "'a io"
  assumes "tryCatch (store_write m) surface_refusal w = (Inl e, w')" and "w_depth w = 0"
    and "\<And>e1 w1. m (w\<lparr>w_depth := Suc (w_depth w)\<rparr>) = (Inl e1, w1) \<Longrightarrow> refusal k i st h e1"
  shows "refused_with k i st h (w_db w) e (w_db w')"
proof -
  from assms(1) obtain e1 w1 where run: "store_write m w = (Inl e1, w1)"
    and surf: "(surface_refusal e1 :: 'a io) w1 = (Inl e, w')"
    by (auto simp: tryCatch_def split: prod.splits sum.splits)
  have same: "w_db w1 = w_db w"
    using store_write_rollback [OF run assms(2)] .
  have d1: "w_depth w1 = 0"
    using run assms(2) by (auto simp: store_write_def split: if_splits prod.splits sum.splits)
  have "refusal k i st h e1"
    using run by (cases rule: store_write_InlE) (auto simp: refusal_def dest: assms(3) [unfolded refusal_def])
  then consider (plain) "store_error e1" | (pending) ev code failed where
      "e1 = PendingRejection ev code failed" "refusal_event ev code failed k i st h"
    by (auto simp: refusal_def)
  then show ?thesis
  proof cases
    case plain
    then have "e = e1 \<and> w' = w1"
      using surf by (cases e1) (auto simp: surface_refusal_def)
    with plain same show ?thesis by (simp add: refused_with_def)
  next
    case (pending ev code failed)
    with surf have "(flushRejection ev code failed :: 'a io) w1 = (Inl e, w')"
      by (simp add: surface_refusal_def)
    from flushRejection_Inl [OF this d1] pending same show ?thesis
      by (auto simp: refused_with_def)
  qed
qed


lemma task_draft_about:
  "draft_about (task_draft rq task wkf h) SkTask (t_id task) (TaskState (t_status task)) h"
  by (simp add: draft_about_def task_draft_def)

theorem transitionTask_Inl:
  assumes run: "transitionTask rq w = (Inl e, w')" and depth: "w_depth w = 0"
  shows "case tbl_get t_id (rq_subject rq) (db_tasks (w_db w)) of
      None \<Rightarrow> (e = TransitionRejected UnknownSubject [] None \<or> store_error e) \<and> w_db w' = w_db w
    | Some task \<Rightarrow> refused_with SkTask (t_id task) (TaskState (t_status task))
        (env_sha (w_env w) (PTask task)) (w_db w) e (w_db w')"
proof (cases "tbl_get t_id (rq_subject rq) (db_tasks (w_db w))")
  case None
  then show ?thesis
    using run depth
    by (auto simp: transitionTask_def evaluateTaskTransition_def tryCatch_def store_write_def
        andThen_def tasks.get_eq surface_refusal_def split: if_splits)
next
  case (Some task)
  have "refused_with SkTask (t_id task) (TaskState (t_status task))
        (env_sha (w_env w) (PTask task)) (w_db w) e (w_db w')"
  proof (rule refused_surface [OF run [unfolded transitionTask_def evaluateTaskTransition_def] depth],
      goal_cases)
    case (1 e1 w1)
    then show ?case
      using throws_onlyD [OF throws_taskEdgeFor [OF task_draft_about]]
      by (auto simp: andThen_eq_Inl andThen_eq_Inr tasks.get_eq workflows.require_eq Some hashOf_def
          refusal_def [of _ _ _ _ "RecordNotFound _ _"] split: option.splits)
  qed
  then show ?thesis using Some by simp
qed

end
