(* ===== verification/Fixtures.thy ===== *)
theory Fixtures
  imports StateMachine
begin

text \<open>
  Concrete worlds for the witnesses: one workflow, one phase, one task with one command check, a
  passing receipt, and streams for the clock and the ids.
\<close>

definition fx_env :: env where
  "fx_env = \<lparr>env_now = (\<lambda>n. ''t''), env_id = (\<lambda>n. replicate n (CHR ''i'')), env_sha = (\<lambda>_. ''h'')\<rparr>"

definition fx_budget :: budget where
  "fx_budget = \<lparr>maxSpendUsd = None, maxTokens = None, maxRequests = None, maxConcurrency = None,
     maxElapsedMs = None\<rparr>"

definition fx_workflow :: workflow where
  "fx_workflow = \<lparr>wf_id = ''w'', wf_createdAt = [], wf_updatedAt = [], wf_goal = [],
     wf_repoIdentity = \<lparr>ri_remoteUrl = None, ri_rootCommit = [], ri_name = []\<rparr>, wf_baseRevision = [],
     wf_exclusions = [], wf_mode = Supervised, wf_budgets = fx_budget, wf_policyVersion = ''p1'',
     wf_sessionRefs = \<lparr>sr_coordinatorSessionId = [], sr_workerSessionIds = []\<rparr>,
     wf_planRevision = 1, wf_status = WsRunning\<rparr>"

definition fx_phase :: "phase_gate_status \<Rightarrow> phase" where
  "fx_phase g = \<lparr>ph_id = ''p'', ph_createdAt = [], ph_updatedAt = [], ph_workflowId = ''w'',
     ph_order = 0, ph_goal = [], ph_acceptanceCriteria = [], ph_budgetCap = fx_budget,
     ph_integrationPoint = ([], []), ph_gateStatus = g, ph_report = None, ph_runId = None\<rparr>"

definition fx_check :: check_definition where
  "fx_check = \<lparr>ck_id = ''c'', ck_kind = CkCommand, ck_command = ''npm test'', ck_cwd = [],
     ck_expectedExitCode = 0, ck_coversCriteria = [''a''], ck_required = True\<rparr>"

definition fx_task :: "task_status \<Rightarrow> task" where
  "fx_task st = \<lparr>t_id = ''t1'', t_createdAt = [], t_updatedAt = [], t_workflowId = ''w'',
     t_phaseId = ''p'', t_revision = 0, t_goal = [], t_dependencies = [],
     t_ownership = \<lparr>ow_paths = [''src''], ow_components = []\<rparr>,
     t_acceptanceCriteria = [\<lparr>ac_id = ''a'', ac_text = []\<rparr>],
     t_checks = [fx_check], t_riskClass = RiskLow, t_status = st, t_blocker = None\<rparr>"

definition fx_receipt :: "iso_timestamp option \<Rightarrow> gate_receipt" where
  "fx_receipt used = \<lparr>g_receiptId = ''r'', g_createdAt = [], g_workflowId = ''w'', g_gate = GkTask,
     g_subjectId = ''t1'', g_subjectRevision = 0, g_revision = [], g_disposition = GdPass,
     g_reasonCode = None, g_detail = None, g_inputHash = [], g_evaluatedAt = [],
     g_consumedAt = used, g_conditions = []\<rparr>"

definition fx_db :: "task_status \<Rightarrow> phase_gate_status \<Rightarrow> iso_timestamp option \<Rightarrow> db" where
  "fx_db st g used = \<lparr>db_workflows = [fx_workflow], db_phases = [fx_phase g],
     db_tasks = [fx_task st], db_attempts = [], db_decisions = [], db_evidence = [],
     db_approvals = [], db_events = [], db_blockers = [], db_receipts = [fx_receipt used],
     db_audit = [], db_requests = []\<rparr>"

definition fx_world :: "db \<Rightarrow> world" where
  "fx_world d = \<lparr>w_env = fx_env, w_db = d, w_depth = 0, w_writable = True, w_actor = ''e'',
     w_pending = None, w_clock = 0, w_ids = 0\<rparr>"

definition fx_engine :: transition_actor where
  "fx_engine = \<lparr>ta_kind = AkEngine, ta_identity = ''korwf''\<rparr>"

definition fx_request ::
  "string \<Rightarrow> 's \<Rightarrow> string \<Rightarrow> guard_table \<Rightarrow> string option \<Rightarrow> 's transition_request"
where
  "fx_request i dst trig gs rid = \<lparr>rq_subject = i, rq_to = Known dst, rq_actor = fx_engine,
     rq_trigger = trig, rq_guards = gs, rq_evidenceRefs = [''e''], rq_gitRevision = None,
     rq_expectedStatus = None, rq_expectedRevision = None, rq_blocker = None,
     rq_gateReceiptId = rid\<rparr>"

definition all_pass :: guard_table where
  "all_pass pc = Some (\<lambda>_. GTrue)"

lemma accepted_run: "\<not> isl (fst r) \<Longrightarrow> \<exists>res w'. r = (Inr res, w')"
  by (cases r; cases "fst r") auto

lemma refused_run: "isl (fst r) \<Longrightarrow> \<exists>e w'. r = (Inl e, w')"
  by (cases r; cases "fst r") auto

lemma fx_world_sel [simp]:
  "w_db (fx_world d) = d" "w_depth (fx_world d) = 0" "w_pending (fx_world d) = None"
  "w_env (fx_world d) = fx_env"
  by (simp_all add: fx_world_def)

lemma fx_db_sel [simp]:
  "db_tasks (fx_db st g used) = [fx_task st]" "db_phases (fx_db st g used) = [fx_phase g]"
  "db_receipts (fx_db st g used) = [fx_receipt used]" "db_blockers (fx_db st g used) = []"
  by (simp_all add: fx_db_def)

lemma fx_request_sel [simp]:
  "rq_subject (fx_request i dst trig gs rid) = i" "rq_to (fx_request i dst trig gs rid) = Known dst"
  "rq_guards (fx_request i dst trig gs rid) = gs" "rq_gateReceiptId (fx_request i dst trig gs rid) = rid"
  "rq_blocker (fx_request i dst trig gs rid) = None"
  by (simp_all add: fx_request_def)

end
