(* ===== verification/TaskTransitions.thy ===== *)
theory TaskTransitions
  imports Fixtures
begin

text \<open>
  The properties of \<open>transitionTask\<close> (\<open>src/workflow/state.ts\<close>): what an accepted request
  establishes and writes, what a refused one leaves behind, and what it takes to be ready, blocked
  or done.
\<close>

section \<open>Accepted requests\<close>

text \<open>
  C2. An accepted request followed a listed edge from the task's current, nonterminal state, was
  made by an actor the edge allows, on a fresh snapshot and with evidence; it changed the task's
  status and derived blocker field and nothing else of the task, appended exactly one accepted
  event and one audit row, and left workflows, phases, attempts, decisions, evidence and approvals
  alone.
\<close>

theorem accepted_task_transition:
  assumes "transitionTask rq w = (Inr res, w')"
  shows "\<exists>task edge ts row.
     tbl_get t_id (rq_subject rq) (db_tasks (w_db w)) = Some task \<and>
     edge \<in> set TASK_TRANSITIONS \<and> t_status task \<in> set (tr_from edge) \<and>
     rq_to rq = Known (tr_to edge) \<and> rq_trigger rq = tr_trigger edge \<and>
     t_status task \<notin> {Done, Cancelled} \<and>
     actorRole (ta_kind (rq_actor rq)) \<in> set (tr_whoMayTrigger edge) \<and>
     \<not> task_stale rq task \<and> rq_evidenceRefs rq \<noteq> [] \<and>
     re_subject res = task\<lparr>t_status := tr_to edge,
       t_blocker := deriveBlockerField SkTask (t_id task) (w_db w'), t_updatedAt := ts\<rparr> \<and>
     db_tasks (w_db w') = tbl_put t_id (re_subject res) (db_tasks (w_db w)) \<and>
     db_events (w_db w') = db_events (w_db w) @ [re_event res] \<and>
     accepted_event (re_event res) rq task edge \<and>
     db_audit (w_db w') = db_audit (w_db w) @ [row] \<and>
     db_workflows (w_db w') = db_workflows (w_db w) \<and> db_phases (w_db w') = db_phases (w_db w) \<and>
     db_attempts (w_db w') = db_attempts (w_db w) \<and> db_decisions (w_db w') = db_decisions (w_db w) \<and>
     db_evidence (w_db w') = db_evidence (w_db w) \<and> db_approvals (w_db w') = db_approvals (w_db w) \<and>
     db_requests (w_db w') = db_requests (w_db w)"
proof -
  from transitionTask_Inr [OF assms] obtain task edge dst ctx where
    "task_accepted rq (w_db w) task edge dst ctx" "task_written rq (w_db w) task edge dst res (w_db w')"
    "accepted_event (re_event res) rq task edge"
    by blast
  then show ?thesis
    by (intro exI [of _ task] exI [of _ edge])
      (auto simp: task_accepted_def task_written_def TASK_TERMINAL_STATES_def)
qed

lemma fx_done_runs:
  "\<not> isl (fst (transitionTask (fx_request ''t1'' Done ''task_gate_passed'' all_pass (Some ''r''))
     (fx_world (fx_db Review PgRunning None))))"
  by code_simp

theorem accepted_task_transition_witness:
  "\<exists>res w'. transitionTask (fx_request ''t1'' Done ''task_gate_passed'' all_pass (Some ''r''))
       (fx_world (fx_db Review PgRunning None)) = (Inr res, w') \<and> t_status (re_subject res) = Done"
proof -
  obtain res w' where run: "transitionTask (fx_request ''t1'' Done ''task_gate_passed'' all_pass (Some ''r''))
       (fx_world (fx_db Review PgRunning None)) = (Inr res, w')"
    using accepted_run [OF fx_done_runs] by blast
  from accepted_task_transition [OF run] show ?thesis
    using run by auto
qed

text \<open>
  C1. A task becomes done only from review, by the engine, with a passing, unconsumed task-gate
  receipt issued for this task at its current revision, with a check that can fail, and with the
  three gate guards supplied by the caller and true. The receipt is stamped in the same step.
\<close>

theorem done_needs_gate_and_receipt:
  assumes "transitionTask rq w = (Inr res, w')" and "rq_to rq = Known Done"
  shows "\<exists>task rid r ts ctx.
     tbl_get t_id (rq_subject rq) (db_tasks (w_db w)) = Some task \<and> t_status task = Review \<and>
     ta_kind (rq_actor rq) = AkEngine \<and> hasExecutableCheck task \<and>
     (\<forall>pc \<in> {PcAllChecksPassExactRevision, PcNoJevGapOrDisabled, PcPolicyReviewSatisfied}.
        \<exists>ev. rq_guards rq pc = Some ev \<and> ev ctx = GTrue) \<and> gx_task ctx = Some task \<and>
     rq_gateReceiptId rq = Some rid \<and> receipt_find rid (w_db w) = Some r \<and>
     g_gate r = GkTask \<and> g_disposition r = GdPass \<and> g_consumedAt r = None \<and>
     g_subjectId r = t_id task \<and> g_subjectRevision r = t_revision task \<and>
     receipt_find rid (w_db w') = Some (r\<lparr>g_consumedAt := Some ts\<rparr>)"
proof -
  from transitionTask_Inr [OF assms(1)] assms(2) obtain task edge ctx where
      acc: "task_accepted rq (w_db w) task edge Done ctx"
    and wr: "task_written rq (w_db w) task edge Done res (w_db w')"
    by (auto simp: task_accepted_def)
  have edge: "edge \<in> set TASK_TRANSITIONS" "tr_to edge = Done" "t_status task \<in> set (tr_from edge)"
    and gs: "guards_hold (tr_preconditions edge) (rq_guards rq) ctx" and ctx: "gx_task ctx = Some task"
    and actor: "actorRole (ta_kind (rq_actor rq)) \<in> set (tr_whoMayTrigger edge)"
    using acc by (simp_all add: task_accepted_def)
  have e: "tr_from edge = [Review]" "tr_whoMayTrigger edge = [EngineOnly]"
      "tr_preconditions edge = TASK_DONE_PRECONDITIONS"
    using edge(1,2) by (auto simp: TASK_TRANSITIONS_def)
  have eng: "ta_kind (rq_actor rq) = AkEngine"
    using actor e(2) by (cases "ta_kind (rq_actor rq)") auto
  have g: "hasExecutableCheck task"
      "\<forall>pc \<in> {PcAllChecksPassExactRevision, PcNoJevGapOrDisabled, PcPolicyReviewSatisfied}.
        \<exists>ev. rq_guards rq pc = Some ev \<and> ev ctx = GTrue"
    using gs ctx by (simp_all add: guards_hold_iff e(3) TASK_DONE_PRECONDITIONS_def structuralGuards_def)
  from wr obtain rid r ts where r: "rq_gateReceiptId rq = Some rid"
      "receipt_find rid (w_db w) = Some r" "g_gate r = GkTask" "g_disposition r = GdPass"
      "g_consumedAt r = None" "g_subjectId r = t_id task" "g_subjectRevision r = t_revision task"
      "db_receipts (w_db w') = tbl_put g_receiptId (r\<lparr>g_consumedAt := Some ts\<rparr>) (db_receipts (w_db w))"
    by (auto simp: task_written_def receipt_spent_def receipt_find_def)
  have "receipt_find rid (w_db w') = Some (r\<lparr>g_consumedAt := Some ts\<rparr>)"
    using r(2,8) tbl_get_key [of g_receiptId rid "db_receipts (w_db w)" r]
    by (simp add: receipt_find_def tbl_get_put)
  moreover have "tbl_get t_id (rq_subject rq) (db_tasks (w_db w)) = Some task" "t_status task = Review"
    using acc edge(3) e(1) by (simp_all add: task_accepted_def)
  ultimately show ?thesis
    using eng g ctx r by blast
qed

theorem done_needs_gate_and_receipt_witness:
  "\<exists>res w'. transitionTask (fx_request ''t1'' Done ''task_gate_passed'' all_pass (Some ''r''))
       (fx_world (fx_db Review PgRunning None)) = (Inr res, w') \<and>
     (\<exists>ts. receipt_find ''r'' (w_db w') = Some ((fx_receipt None)\<lparr>g_consumedAt := Some ts\<rparr>))"
proof -
  obtain res w' where run: "transitionTask (fx_request ''t1'' Done ''task_gate_passed'' all_pass (Some ''r''))
       (fx_world (fx_db Review PgRunning None)) = (Inr res, w')"
    using accepted_run [OF fx_done_runs] by blast
  from done_needs_gate_and_receipt [OF run] show ?thesis
    using run by (auto simp: receipt_find_def fx_receipt_def)
qed


text \<open>
  What it means that a precondition was met: the store's verdict where it has one, an evaluator
  that was supplied and returned true elsewhere; a supplied evaluator is never ignored.
\<close>

definition precondition_met ::
  "task_status transition_request \<Rightarrow> db \<Rightarrow> task \<Rightarrow> guard_context \<Rightarrow> precondition \<Rightarrow> bool"
where
  "precondition_met rq d task ctx pc \<longleftrightarrow>
     (\<forall>ev. rq_guards rq pc = Some ev \<longrightarrow> ev ctx = GTrue) \<and>
     (if pc = PcChecksRegistered then hasExecutableCheck task
      else if pc = PcReadinessValid
      then unresolvedKinds SkTask (t_id task) d = [] \<and> rq_blocker rq = None \<and> dependenciesDone d task
      else if pc = PcBlockerPresent
      then unresolvedKinds SkTask (t_id task) d \<noteq> [] \<or> rq_blocker rq \<noteq> None
      else rq_guards rq pc \<noteq> None)"

lemma accepted_preconditions:
  assumes acc: "task_accepted rq d task edge dst ctx" and pc: "pc \<in> set (tr_preconditions edge)"
  shows "precondition_met rq d task ctx pc"
proof -
  have deps: "dependenciesDone (gx_db ctx) task = dependenciesDone d task"
    using acc by (simp add: dependenciesDone_def task_accepted_def)
  have blk: "gx_unresolvedBlockers ctx = [] \<longleftrightarrow> unresolvedKinds SkTask (t_id task) d = [] \<and> rq_blocker rq = None"
    using acc by (simp add: task_accepted_def split: option.splits)
  have "case structuralGuards ctx pc of
        None \<Rightarrow> \<exists>ev. rq_guards rq pc = Some ev \<and> ev ctx = GTrue
      | Some v \<Rightarrow> v = GTrue \<and> (\<forall>ev. rq_guards rq pc = Some ev \<longrightarrow> ev ctx = GTrue)"
    using acc pc by (simp add: task_accepted_def guards_hold_iff)
  moreover have "gx_task ctx = Some task"
    using acc by (simp add: task_accepted_def)
  ultimately show ?thesis
    by (cases pc) (auto simp: structuralGuards_def precondition_met_def deps blk)
qed

text \<open>
  C4. Guards fail closed and structural facts cannot be argued away: an accepted request met every
  precondition of its edge, where the store decides by a check that can fail, done dependencies
  and the recorded blockers whatever the caller claimed, and elsewhere by an evaluator the caller
  supplied and that returned true on the evaluated snapshot.
\<close>

theorem guards_fail_closed:
  assumes "transitionTask rq w = (Inr res, w')"
  shows "\<exists>task edge ctx. tbl_get t_id (rq_subject rq) (db_tasks (w_db w)) = Some task \<and>
     findTaskTransition (t_status task) (t_status (re_subject res)) (Some (rq_trigger rq)) = Some edge \<and>
     gx_task ctx = Some task \<and> gx_actor ctx = rq_actor rq \<and>
     (\<forall>pc \<in> set (tr_preconditions edge). precondition_met rq (w_db w) task ctx pc)"
proof -
  from transitionTask_Inr [OF assms] obtain task edge dst ctx where
      acc: "task_accepted rq (w_db w) task edge dst ctx"
    and wr: "task_written rq (w_db w) task edge dst res (w_db w')"
    by blast
  have e: "edge \<in> set TASK_TRANSITIONS" "tr_to edge = dst" "t_status task \<in> set (tr_from edge)"
      "tr_trigger edge = rq_trigger rq" "t_status (re_subject res) = dst"
    using acc wr by (auto simp: task_accepted_def task_written_def)
  have "findTaskTransition (t_status task) (t_status (re_subject res)) (Some (rq_trigger rq)) = Some edge"
    using task_table.find_complete [OF e(1,3)] e by (simp add: findTaskTransition_def)
  then show ?thesis
    using acc accepted_preconditions [OF acc]
    by (intro exI [of _ task] exI [of _ edge] exI [of _ ctx]) (simp add: task_accepted_def)
qed

lemma fx_ready_runs:
  "\<not> isl (fst (transitionTask (fx_request ''t1'' Ready ''readiness_validated'' all_pass None)
     (fx_world (fx_db Proposed PgRunning None))))"
  by code_simp

lemma fx_ready_edge:
  "map_option tr_preconditions (findTaskTransition Proposed Ready (Some ''readiness_validated'')) =
     Some (READY_PRECONDITIONS @ [PcRecoveryAuthorized])"
  by code_simp

theorem guards_fail_closed_witness: "hasExecutableCheck (fx_task Proposed)"
proof -
  obtain res w' where run: "transitionTask (fx_request ''t1'' Ready ''readiness_validated'' all_pass None)
     (fx_world (fx_db Proposed PgRunning None)) = (Inr res, w')"
    using accepted_run [OF fx_ready_runs] by blast
  have "t_status (re_subject res) = Ready"
    using transitionTask_Inr [OF run] by (auto simp: task_accepted_def task_written_def)
  with guards_fail_closed [OF run] fx_ready_edge show ?thesis
    by (auto simp: fx_task_def fx_request_def READY_PRECONDITIONS_def precondition_met_def)
qed

text \<open>
  With no guard supplied at all the only transition that can happen to a task is being blocked,
  and only when a blocker is on record or comes with the request.
\<close>

theorem empty_guard_table_only_blocks:
  assumes "transitionTask rq w = (Inr res, w')" and "\<And>pc. rq_guards rq pc = None"
  shows "t_status (re_subject res) = Blocked \<and> re_transitionId res = TaskBlock \<and>
     (unresolvedKinds SkTask (rq_subject rq) (w_db w) \<noteq> [] \<or> rq_blocker rq \<noteq> None)"
proof -
  from transitionTask_Inr [OF assms(1)] obtain task edge dst ctx where
      acc: "task_accepted rq (w_db w) task edge dst ctx"
    and wr: "task_written rq (w_db w) task edge dst res (w_db w')"
    by blast
  have met: "\<forall>pc \<in> set (tr_preconditions edge). precondition_met rq (w_db w) task ctx pc"
    using accepted_preconditions [OF acc] by blast
  have "edge \<in> set TASK_TRANSITIONS" "t_id task = rq_subject rq"
    using acc by (auto simp: task_accepted_def dest: tbl_get_key)
  moreover have "tr_to edge = Blocked \<and> tr_id edge = TaskBlock \<and> tr_preconditions edge = [PcBlockerPresent]"
    using calculation(1) met assms(2)
    by (auto simp: TASK_TRANSITIONS_def precondition_met_def READY_PRECONDITIONS_def
        TASK_DONE_PRECONDITIONS_def)
  ultimately show ?thesis
    using met wr acc by (auto simp: precondition_met_def task_written_def task_accepted_def)
qed

definition fx_block_request :: "task_status transition_request" where
  "fx_block_request = (fx_request ''t1'' Blocked ''blocker_or_user_pause'' (\<lambda>_. None) None)
     \<lparr>rq_blocker := Some (''information'', [])\<rparr>"

lemma fx_block_runs:
  "\<not> isl (fst (transitionTask fx_block_request (fx_world (fx_db Running PgRunning None))))"
  by code_simp

theorem empty_guard_table_only_blocks_witness:
  "\<exists>res w'. transitionTask fx_block_request (fx_world (fx_db Running PgRunning None)) = (Inr res, w') \<and>
     t_status (re_subject res) = Blocked"
proof -
  obtain res w' where run:
    "transitionTask fx_block_request (fx_world (fx_db Running PgRunning None)) = (Inr res, w')"
    using accepted_run [OF fx_block_runs] by blast
  have "rq_guards fx_block_request pc = None" for pc
    by (simp add: fx_block_request_def)
  from empty_guard_table_only_blocks [OF run this] show ?thesis
    using run by blast
qed


text \<open>
  A task becomes ready, or is dispatched, only with a check that can fail, every dependency
  done and no open blocker; its blocker field is then empty.
\<close>

theorem ready_requires_readiness:
  assumes "transitionTask rq w = (Inr res, w')" and "rq_to rq = Known Ready \<or> rq_to rq = Known Running"
  shows "\<exists>task. tbl_get t_id (rq_subject rq) (db_tasks (w_db w)) = Some task \<and>
     hasExecutableCheck task \<and> dependenciesDone (w_db w) task \<and>
     unresolvedForSubject SkTask (t_id task) (w_db w) = [] \<and>
     t_blocker (re_subject res) = None"
proof -
  from transitionTask_Inr [OF assms(1)] assms(2) obtain task edge dst ctx where
      acc: "task_accepted rq (w_db w) task edge dst ctx" and dst: "dst = Ready \<or> dst = Running"
    and wr: "task_written rq (w_db w) task edge dst res (w_db w')"
    by (auto simp: task_accepted_def)
  have e: "edge \<in> set TASK_TRANSITIONS" "tr_to edge = dst" "t_status task \<in> set (tr_from edge)"
    using acc by (simp_all add: task_accepted_def)
  have pcs: "PcChecksRegistered \<in> set (tr_preconditions edge) \<and> PcReadinessValid \<in> set (tr_preconditions edge)"
    using e(1,2) dst by (auto simp: TASK_TRANSITIONS_def READY_PRECONDITIONS_def)
  have met: "hasExecutableCheck task" "dependenciesDone (w_db w) task"
      "unresolvedKinds SkTask (t_id task) (w_db w) = []" "rq_blocker rq = None"
    using accepted_preconditions [OF acc] pcs by (auto simp: precondition_met_def)
  have "db_blockers (w_db w') = db_blockers (w_db w)"
    using wr met(4) dst by (auto simp: task_written_def)
  then have "t_blocker (re_subject res) = None"
    using wr met(3) deriveBlockerField_cong [of "w_db w'" "w_db w" SkTask "t_id task"]
    by (auto simp: task_written_def deriveBlockerField_def)
  with acc met show ?thesis
    by (auto simp: task_accepted_def unresolvedKinds_def)
qed

theorem ready_requires_readiness_witness:
  "\<exists>res w'. transitionTask (fx_request ''t1'' Ready ''readiness_validated'' all_pass None)
     (fx_world (fx_db Proposed PgRunning None)) = (Inr res, w') \<and> t_blocker (re_subject res) = None"
proof -
  obtain res w' where run: "transitionTask (fx_request ''t1'' Ready ''readiness_validated'' all_pass None)
     (fx_world (fx_db Proposed PgRunning None)) = (Inr res, w')"
    using accepted_run [OF fx_ready_runs] by blast
  from ready_requires_readiness [OF run] show ?thesis
    using run by (auto simp: fx_task_def)
qed

section \<open>Refused requests\<close>

text \<open>
  The refusals that the request, the row and the table decide before any guard runs, in the order
  of the contract: the state asked for, the task's own state, the trigger, the edge, the actor, the
  snapshot and the evidence.
\<close>

definition early_refusal :: "task_status transition_request \<Rightarrow> task \<Rightarrow> rejection_code option" where
  "early_refusal rq task =
     (case rq_to rq of
        Unlisted s \<Rightarrow> Some UnknownState
      | Known dst \<Rightarrow>
          if t_status task = Done \<or> t_status task = Cancelled then Some TerminalSubject
          else if \<forall>edge \<in> set TASK_TRANSITIONS. tr_trigger edge \<noteq> rq_trigger rq then Some UnknownTrigger
          else case find (\<lambda>edge. t_status task \<in> set (tr_from edge) \<and> tr_to edge = dst \<and>
                 tr_trigger edge = rq_trigger rq) TASK_TRANSITIONS of
            None \<Rightarrow> Some UnlistedEdge
          | Some edge \<Rightarrow>
              if actorRole (ta_kind (rq_actor rq)) \<notin> set (tr_whoMayTrigger edge) then Some UnauthorizedActor
              else if task_stale rq task then Some StaleSnapshot
              else if rq_evidenceRefs rq = [] then Some MissingEvidence
              else None)"

lemma every_edge_needs_evidence: "edge \<in> set TASK_TRANSITIONS \<Longrightarrow> tr_requiredEvidence edge \<noteq> []"
  by (auto simp: TASK_TRANSITIONS_def)

lemma every_state_listed: "dst \<in> set TASK_STATES"
  by (cases dst) (simp_all add: TASK_STATES_def)

lemma andThen_reject: "andThen (reject dr code failed) k = reject dr code failed"
  by (simp add: reject_def buildEvent_def andThen_def newId_def getNow_def fun_eq_iff)

lemma early_refusal_rejects:
  assumes "early_refusal rq task = Some code"
  shows "\<exists>dr'. wf_id (dr_workflow dr') = wf_id (dr_workflow dr) \<and>
     taskEdgeFor rq task wkf dr unres w = reject dr' code [] w"
proof (cases "rq_to rq")
  case (Unlisted s)
  with assms show ?thesis by (auto simp: early_refusal_def taskEdgeFor_def)
next
  case (Known dst)
  let ?find = "findTaskTransition (t_status task) dst (Some (rq_trigger rq))"
  have find: "find (\<lambda>edge. t_status task \<in> set (tr_from edge) \<and> tr_to edge = dst \<and>
                 tr_trigger edge = rq_trigger rq) TASK_TRANSITIONS = ?find"
    unfolding findTaskTransition_def find_transition_def by (rule find_cong) auto
  have trig: "rq_trigger rq \<in> set TASK_TRIGGERS \<longleftrightarrow>
      \<not> (\<forall>edge \<in> set TASK_TRANSITIONS. tr_trigger edge \<noteq> rq_trigger rq)"
    unfolding TASK_TRIGGERS_def set_dedup set_map image_iff by metis
  show ?thesis
  proof (cases ?find)
    case None
    with assms Known show ?thesis
      by (auto simp: early_refusal_def taskEdgeFor_def find trig every_state_listed TASK_TERMINAL_STATES_def
          split: if_splits)
  next
    case (Some edge)
    then have "tr_requiredEvidence edge \<noteq> []"
      using every_edge_needs_evidence by (auto simp: findTaskTransition_def find_transition_def find_Some_iff)
    with assms Known Some have "taskEdgeFor rq task wkf dr unres w = reject dr code [] w \<or>
        taskEdgeFor rq task wkf dr unres w = reject (dr\<lparr>dr_transitionId := Some (TaskEdge (tr_id edge))\<rparr>) code [] w"
      by (auto simp: early_refusal_def taskEdgeFor_def find trig every_state_listed TASK_TERMINAL_STATES_def
          commitTaskEdge_def Let_def admitEdge_def andThen_reject split: if_splits)
    then show ?thesis by (elim disjE) (auto intro: exI [of _ dr] exI [of _ "dr\<lparr>dr_transitionId := Some (TaskEdge (tr_id edge))\<rparr>"])
  qed
qed

lemma reject_is_logged:
  assumes "m (w\<lparr>w_depth := 1\<rparr>) = reject dr code [] (w\<lparr>w_depth := 1\<rparr>)"
    and "w_depth w = 0" "w_writable w" "workflow_exists (wf_id (dr_workflow dr)) (w_db w)"
    and "tbl_get ev_eventId (env_id (w_env w) (w_ids w)) (db_events (w_db w)) = None"
  shows "\<exists>ev w'. tryCatch (store_write m) surface_refusal w =
     (Inl (TransitionRejected code [] (Some ev)), w')"
  using assms
  by (simp add: tryCatch_def store_write_def reject_def buildEvent_def andThen_def newId_def getNow_def
      surface_refusal_def flushRejection_def transitionLog_insert_def tbl_add_def event_of_def)

lemma early_refusal_logged:
  assumes "tbl_get t_id (rq_subject rq) (db_tasks (w_db w)) = Some task"
    and "early_refusal rq task = Some code"
    and "w_depth w = 0" "w_writable w" "workflow_exists (t_workflowId task) (w_db w)"
    and "tbl_get ev_eventId (env_id (w_env w) (w_ids w)) (db_events (w_db w)) = None"
  shows "\<exists>ev w'. transitionTask rq w = (Inl (TransitionRejected code [] (Some ev)), w')"
proof -
  let ?w = "w\<lparr>w_depth := 1\<rparr>"
  obtain wkf where wkf: "tbl_get wf_id (t_workflowId task) (db_workflows (w_db w)) = Some wkf"
    using assms(5) by (auto simp: workflow_exists_def)
  obtain dr where dr: "wf_id (dr_workflow dr) = wf_id wkf"
      "taskEdgeFor rq task wkf (task_draft rq task wkf (env_sha (w_env w) (PTask task)))
        (unresolvedKinds SkTask (t_id task) (w_db w)) ?w = reject dr code [] ?w"
    using early_refusal_rejects [OF assms(2), of "task_draft rq task wkf (env_sha (w_env w) (PTask task))"
        wkf "unresolvedKinds SkTask (t_id task) (w_db w)" ?w]
    by (auto simp: task_draft_def)
  show ?thesis
    unfolding transitionTask_def evaluateTaskTransition_def
    by (rule reject_is_logged [of _ _ dr])
      (use assms wkf dr tbl_get_key [OF wkf] in
        \<open>simp_all add: andThen_def tasks.get_eq workflows.require_eq hashOf_def\<close>)
qed

text \<open>
  C3. A request that is refused outside any transaction changes no row. For an unknown task it fails
  with \<open>unknown_subject\<close> and no event. For a known task, a refusal of the state machine appends
  exactly one rejected event that names the code and the failed guards it reports, the task's actual
  state and equal hashes of the unchanged row; the only other failures are the store's own (a missing
  row, a rule, a constraint, a read-only store), and they leave the store as it was. A request that
  asks for an unknown state, moves a finished task, names an unknown trigger or an unlisted edge,
  comes from the wrong actor, on a stale snapshot or without evidence, is refused with exactly that
  code and is logged, if the store is writable, the workflow's row is there and the id drawn for the
  event is new.
\<close>

theorem refused_task_transition_changes_nothing:
  assumes "transitionTask rq w = (Inl e, w')" and "w_depth w = 0"
  shows "case tbl_get t_id (rq_subject rq) (db_tasks (w_db w)) of
      None \<Rightarrow> (e = TransitionRejected UnknownSubject [] None \<or> store_error e) \<and> w_db w' = w_db w
    | Some task \<Rightarrow>
        ((\<exists>code failed ev. e = TransitionRejected code failed (Some ev) \<and>
            ev_disposition ev = Rejected \<and> ev_reasonCode ev = Some code \<and> ev_failedGuards ev = failed \<and>
            ev_subjectKind ev = SkTask \<and> ev_subjectId ev = t_id task \<and>
            ev_fromState ev = TaskState (t_status task) \<and>
            ev_beforeHash ev = env_sha (w_env w) (PTask task) \<and> ev_afterHash ev = ev_beforeHash ev \<and>
            w_db w' = (w_db w)\<lparr>db_events := db_events (w_db w) @ [ev]\<rparr>) \<or>
         (store_error e \<and> w_db w' = w_db w)) \<and>
        (\<forall>code. early_refusal rq task = Some code \<and> w_writable w \<and>
            workflow_exists (t_workflowId task) (w_db w) \<and>
            tbl_get ev_eventId (env_id (w_env w) (w_ids w)) (db_events (w_db w)) = None \<longrightarrow>
          (\<exists>ev. e = TransitionRejected code [] (Some ev)))"
proof (cases "tbl_get t_id (rq_subject rq) (db_tasks (w_db w))")
  case None
  then show ?thesis using transitionTask_Inl [OF assms] by simp
next
  case (Some task)
  have "\<exists>ev. e = TransitionRejected code [] (Some ev)"
    if "early_refusal rq task = Some code" "w_writable w" "workflow_exists (t_workflowId task) (w_db w)"
      "tbl_get ev_eventId (env_id (w_env w) (w_ids w)) (db_events (w_db w)) = None" for code
    using early_refusal_logged [OF Some that(1) assms(2) that(2-4)] assms(1) by auto
  with transitionTask_Inl [OF assms] Some show ?thesis
    by (auto simp: refused_with_def refusal_event_def)
qed

lemma fx_early_refusal:
  "early_refusal (fx_request ''t1'' Ready ''no_such_trigger'' all_pass None) (fx_task Proposed) =
     Some UnknownTrigger"
  by code_simp

lemma fx_early_refused:
  "isl (fst (transitionTask (fx_request ''t1'' Ready ''no_such_trigger'' all_pass None)
     (fx_world (fx_db Proposed PgRunning None))))"
  by code_simp

theorem refused_task_transition_changes_nothing_witness:
  "\<exists>ev w'. transitionTask (fx_request ''t1'' Ready ''no_such_trigger'' all_pass None)
     (fx_world (fx_db Proposed PgRunning None)) = (Inl (TransitionRejected UnknownTrigger [] (Some ev)), w') \<and>
     db_tasks (w_db w') = [fx_task Proposed] \<and> db_events (w_db w') = [ev]"
proof -
  let ?w = "fx_world (fx_db Proposed PgRunning None)"
  obtain e w' where run: "transitionTask (fx_request ''t1'' Ready ''no_such_trigger'' all_pass None) ?w =
     (Inl e, w')"
    using refused_run [OF fx_early_refused] by blast
  have row: "tbl_get t_id ''t1'' (db_tasks (w_db ?w)) = Some (fx_task Proposed)"
    by (simp add: fx_task_def)
  have "w_writable ?w" "workflow_exists (t_workflowId (fx_task Proposed)) (w_db ?w)" "db_events (w_db ?w) = []"
    by (simp_all add: fx_world_def fx_db_def fx_task_def workflow_exists_def fx_workflow_def)
  with refused_task_transition_changes_nothing [OF run] row fx_early_refusal run show ?thesis
    by auto
qed

text \<open>
  A done or cancelled task is closed: no request on it is accepted, and its row, like every other
  task's, stays as it is.
\<close>

theorem terminal_tasks_are_closed:
  assumes "tbl_get t_id (rq_subject rq) (db_tasks (w_db w)) = Some task"
    and "t_status task = Done \<or> t_status task = Cancelled" and "w_depth w = 0"
  shows "isl (fst (transitionTask rq w)) \<and>
     db_tasks (w_db (snd (transitionTask rq w))) = db_tasks (w_db w)"
proof -
  obtain r w' where run: "transitionTask rq w = (r, w')" by fastforce
  show ?thesis
  proof (cases r)
    case (Inr res)
    with run have "transitionTask rq w = (Inr res, w')" by simp
    from transitionTask_Inr [OF this] assms(1,2) show ?thesis
      by (auto simp: task_accepted_def TASK_TERMINAL_STATES_def)
  next
    case (Inl e)
    with run have "transitionTask rq w = (Inl e, w')" by simp
    from transitionTask_Inl [OF this assms(3)] assms(1) run Inl show ?thesis
      by (auto simp: refused_with_def)
  qed
qed

theorem terminal_tasks_are_closed_witness:
  "isl (fst (transitionTask (fx_request ''t1'' Ready ''readiness_validated'' all_pass None)
     (fx_world (fx_db Done PgRunning None))))"
  using terminal_tasks_are_closed
    [of "fx_request ''t1'' Ready ''readiness_validated'' all_pass None" "fx_world (fx_db Done PgRunning None)"
      "fx_task Done"]
  by (simp add: fx_task_def)

text \<open>
  A receipt certifies once: a request to complete a task with a receipt that is already stamped,
  is a rejection, or was issued for another task or another revision is refused and the task table
  is unchanged.
\<close>

theorem unusable_receipt_refused:
  assumes "rq_to rq = Known Done" and "rq_gateReceiptId rq = Some rid" and "w_depth w = 0"
    and "receipt_find rid (w_db w) = Some r"
    and "tbl_get t_id (rq_subject rq) (db_tasks (w_db w)) = Some task"
    and "g_consumedAt r \<noteq> None \<or> g_disposition r = GdReject \<or> g_gate r = GkPhase \<or>
      g_subjectId r \<noteq> t_id task \<or> g_subjectRevision r \<noteq> t_revision task"
  shows "isl (fst (transitionTask rq w)) \<and>
     db_tasks (w_db (snd (transitionTask rq w))) = db_tasks (w_db w)"
proof -
  obtain x w' where run: "transitionTask rq w = (x, w')" by fastforce
  show ?thesis
  proof (cases x)
    case (Inr res)
    with run have "transitionTask rq w = (Inr res, w')" by simp
    from transitionTask_Inr [OF this] assms show ?thesis
      by (auto simp: task_accepted_def task_written_def receipt_spent_def receipt_find_def)
  next
    case (Inl e)
    with run have "transitionTask rq w = (Inl e, w')" by simp
    from transitionTask_Inl [OF this assms(3)] assms(5) run Inl show ?thesis
      by (auto simp: refused_with_def)
  qed
qed

theorem unusable_receipt_refused_witness:
  "isl (fst (transitionTask (fx_request ''t1'' Done ''task_gate_passed'' all_pass (Some ''r''))
     (fx_world (fx_db Review PgRunning (Some ''yesterday'')))))"
  using unusable_receipt_refused
    [of "fx_request ''t1'' Done ''task_gate_passed'' all_pass (Some ''r'')" "''r''"
      "fx_world (fx_db Review PgRunning (Some ''yesterday''))" "fx_receipt (Some ''yesterday'')" "fx_task Review"]
  by (simp add: receipt_find_def fx_receipt_def fx_task_def)

text \<open>
  A worker's request can only submit, fail or block its task: it never makes a task ready,
  running, reviewed, done, paused, replanned or cancelled.
\<close>

theorem worker_requests_are_limited:
  assumes "transitionTask rq w = (Inr res, w')" and "ta_kind (rq_actor rq) = AkWorker"
  shows "re_transitionId res \<in> {TaskSubmit, TaskFailed, TaskBlock} \<and>
     t_status (re_subject res) \<in> {Verifying, Failed, Blocked}"
proof -
  from transitionTask_Inr [OF assms(1)] obtain task edge dst ctx where
      acc: "task_accepted rq (w_db w) task edge dst ctx"
    and wr: "task_written rq (w_db w) task edge dst res (w_db w')"
    by blast
  have "edge \<in> set TASK_TRANSITIONS" "tr_to edge = dst" "WorkerRequestThenEngine \<in> set (tr_whoMayTrigger edge)"
    using acc assms(2) by (simp_all add: task_accepted_def)
  then have "tr_id edge \<in> {TaskSubmit, TaskFailed, TaskBlock} \<and> dst \<in> {Verifying, Failed, Blocked}"
    by (auto simp: TASK_TRANSITIONS_def)
  then show ?thesis
    using wr by (auto simp: task_written_def)
qed

definition fx_submit :: "task_status transition_request" where
  "fx_submit = (fx_request ''t1'' Verifying ''completion_requested'' all_pass None)
     \<lparr>rq_actor := \<lparr>ta_kind = AkWorker, ta_identity = ''w1''\<rparr>\<rparr>"

lemma fx_submit_runs: "\<not> isl (fst (transitionTask fx_submit (fx_world (fx_db Running PgRunning None))))"
  by code_simp

theorem worker_requests_are_limited_witness:
  "\<exists>res w'. transitionTask fx_submit (fx_world (fx_db Running PgRunning None)) = (Inr res, w') \<and>
     t_status (re_subject res) \<noteq> Done"
proof -
  obtain res w' where run:
    "transitionTask fx_submit (fx_world (fx_db Running PgRunning None)) = (Inr res, w')"
    using accepted_run [OF fx_submit_runs] by blast
  have "ta_kind (rq_actor fx_submit) = AkWorker"
    by (simp add: fx_submit_def)
  from worker_requests_are_limited [OF run this] show ?thesis
    using run by auto
qed

end
