(* ===== verification/PhaseTransitions.thy ===== *)
theory PhaseTransitions
  imports Fixtures
begin

text \<open>
  The properties of \<open>transitionPhase\<close>, \<open>advanceGatingSubstage\<close> and the phase helpers of
  \<open>src/workflow/state.ts\<close>.
\<close>

section \<open>Lifecycle and storage states\<close>

lemma phaseLifecycleState_total: "phaseLifecycleState g \<noteq> None"
  by (cases g) (simp_all add: phaseLifecycleState_def PHASE_STATES_def)

lemma phaseLifecycleState_iff: "phaseLifecycleState g = Some s \<longleftrightarrow> g \<in> set (PHASE_STORAGE_STATES s)"
  by (cases g; cases s) (simp_all add: phaseLifecycleState_def PHASE_STATES_def)

lemma phaseStorageStatus_state: "phaseLifecycleState (phaseStorageStatus s) = Some s"
  by (cases s) (simp_all add: phaseLifecycleState_iff phaseStorageStatus_def)

lemma phaseGateStatusFor_state:
  assumes "edge \<in> set PHASE_TRANSITIONS" and "tr_to edge = dst"
  shows "phaseLifecycleState (phaseGateStatusFor dst edge kinds) = Some dst"
proof (cases "tr_id edge = PhaseStaleEvidence")
  case True
  then have "dst = PhGating"
    using assms by (auto simp: PHASE_TRANSITIONS_def)
  then show ?thesis
    using True by (simp add: phaseGateStatusFor_def phaseLifecycleState_iff)
next
  case False
  then show ?thesis
    by (auto simp: phaseGateStatusFor_def phaseLifecycleState_iff phaseStorageStatus_state
        [unfolded phaseLifecycleState_iff])
qed

section \<open>What an accepted phase transition did\<close>

definition phase_accepted ::
  "phase_state transition_request \<Rightarrow> db \<Rightarrow> phase \<Rightarrow> phase_state \<Rightarrow> (phase_state, phase_edge) transition \<Rightarrow>
   phase_state \<Rightarrow> guard_context \<Rightarrow> bool"
where
  "phase_accepted rq d phase src edge dst ctx \<longleftrightarrow>
     tbl_get ph_id (rq_subject rq) (db_phases d) = Some phase \<and> rq_to rq = Known dst \<and>
     phaseLifecycleState (ph_gateStatus phase) = Some src \<and> src \<notin> set PHASE_TERMINAL_STATES \<and>
     edge \<in> set PHASE_TRANSITIONS \<and> tr_to edge = dst \<and> src \<in> set (tr_from edge) \<and>
     tr_trigger edge = rq_trigger rq \<and>
     actorRole (ta_kind (rq_actor rq)) \<in> set (tr_whoMayTrigger edge) \<and> rq_evidenceRefs rq \<noteq> [] \<and>
     (\<forall>s. rq_expectedStatus rq = Some s \<longrightarrow> s = src) \<and>
     gx_task ctx = None \<and> gx_phase ctx = Some phase \<and> gx_actor ctx = rq_actor rq \<and>
     db_tasks (gx_db ctx) = db_tasks d \<and>
     guards_hold (tr_preconditions edge) (rq_guards rq) ctx"

definition phase_written ::
  "db \<Rightarrow> phase \<Rightarrow> (phase_state, phase_edge) transition \<Rightarrow> phase_state \<Rightarrow>
   (phase, phase_edge) transition_result \<Rightarrow> db \<Rightarrow> bool"
where
  "phase_written d phase edge dst res d' \<longleftrightarrow>
     (\<exists>ts. re_subject res = phase\<lparr>ph_gateStatus :=
        phaseGateStatusFor dst edge (unresolvedKinds SkPhase (ph_id phase) d'), ph_updatedAt := ts\<rparr>) \<and>
     db_phases d' = tbl_put ph_id (re_subject res) (db_phases d) \<and>
     db_events d' = db_events d @ [re_event res] \<and>
     (\<exists>bs. db_blockers d' = db_blockers d @ bs) \<and>
     (\<exists>row. db_audit d' = db_audit d @ [row]) \<and>
     db_workflows d' = db_workflows d \<and> db_tasks d' = db_tasks d \<and> db_receipts d' = db_receipts d \<and>
     db_attempts d' = db_attempts d \<and> db_decisions d' = db_decisions d \<and>
     db_evidence d' = db_evidence d \<and> db_approvals d' = db_approvals d \<and> db_requests d' = db_requests d \<and>
     re_transitionId res = tr_id edge \<and>
     ev_disposition (re_event res) = Accepted \<and> ev_subjectKind (re_event res) = SkPhase \<and>
     ev_subjectId (re_event res) = ph_id phase \<and> ev_toState (re_event res) = PhaseState dst"

lemma commitPhaseEdge_Inr:
  assumes run: "commitPhaseEdge rq phase wkf edge (phase_draft rq phase wkf from_state h) src dst w = (Inr res, w')"
    and phase: "tbl_get ph_id (ph_id phase) (db_phases (w_db w)) = Some phase"
    and to: "rq_to rq = Known dst"
    and ne: "tr_requiredEvidence edge \<noteq> []"
  shows "actorRole (ta_kind (rq_actor rq)) \<in> set (tr_whoMayTrigger edge) \<and> rq_evidenceRefs rq \<noteq> [] \<and>
     (\<forall>s. rq_expectedStatus rq = Some s \<longrightarrow> s = src) \<and>
     (\<exists>ctx. gx_task ctx = None \<and> gx_phase ctx = Some phase \<and> gx_actor ctx = rq_actor rq \<and>
       db_tasks (gx_db ctx) = db_tasks (w_db w) \<and>
       guards_hold (tr_preconditions edge) (rq_guards rq) ctx) \<and>
     phase_written (w_db w) phase edge dst res (w_db w') \<and> w_pending w' = w_pending w"
proof -
  let ?base = "(phase_draft rq phase wkf from_state h)\<lparr>dr_transitionId := Some (PhaseEdge (tr_id edge))\<rparr>"
  obtain u1 w1 raised w2 ctx w3 u4 w4 kinds w5 upd w6 h' w7 ev w8 where
      admit: "admitEdge edge rq (case rq_expectedStatus rq of None \<Rightarrow> False | Some s \<Rightarrow> s \<noteq> src) ?base w = (Inr u1, w1)"
    and raise: "raiseRequestedBlocker rq SkPhase (ph_id phase) (ph_workflowId phase) w1 = (Inr raised, w2)"
    and ctx: "phase_guard_context rq phase wkf w2 = (Inr ctx, w3)"
    and guards: "checkGuards (tr_preconditions edge) (rq_guards rq) ctx ?base w3 = (Inr u4, w4)"
    and kinds: "(getDb (unresolvedKinds SkPhase (ph_id phase)) :: string list io) w4 = (Inr kinds, w5)"
    and upd: "phases_update (ph_id phase)
          (\<lambda>p. p\<lparr>ph_gateStatus := phaseGateStatusFor dst edge kinds\<rparr>) w5 = (Inr upd, w6)"
    and hash: "hashOf (PPhase upd) w6 = (Inr h', w7)"
    and ev: "appendEvent (?base\<lparr>dr_disposition := Accepted, dr_reasonCode := None,
         dr_failedGuards := [], dr_afterHash := h'\<rparr>) w7 = (Inr ev, w8)"
    and res: "(ret \<lparr>re_subject = upd, re_event = ev, re_transitionId = tr_id edge,
         re_sideEffects = tr_sideEffects edge\<rparr> :: (phase, phase_edge) transition_result io) w8 = (Inr res, w')"
    using run unfolding commitPhaseEdge_def Let_def
    by (elim andThen_InrE) (rule that, assumption+)
  note A = admitEdge_Inr [OF admit]
  note B = raiseRequestedBlocker_Inr [OF raise]
  note G = checkGuards_Inr [OF guards]
  have C: "gx_task ctx = None" "gx_phase ctx = Some phase" "gx_actor ctx = rq_actor rq"
      "gx_db ctx = w_db w2" "w_db w3 = w_db w2" "w_pending w3 = w_pending w2"
    using ctx by (auto simp: phase_guard_context_def andThen_eq_Inr getNow_def)
  have K: "kinds = unresolvedKinds SkPhase (ph_id phase) (w_db w4)" "w5 = w4"
    using kinds by auto
  have E: "(\<exists>i ts. ev = event_of (?base\<lparr>dr_disposition := Accepted, dr_reasonCode := None,
         dr_failedGuards := [], dr_afterHash := h'\<rparr>) i ts)"
      "w_db w' = (w_db w6)\<lparr>db_events := db_events (w_db w6) @ [ev]\<rparr>" "w_pending w' = w_pending w6"
    using appendEvent_Inr [OF ev] hash res by (auto simp: hashOf_def)
  obtain bs where d5: "w_db w5 = (w_db w)\<lparr>db_blockers := db_blockers (w_db w) @ bs\<rparr>"
    using B(2) A(1) C(5) G(1) K(2) by auto
  from upd obtain ts row where
      u: "upd = phase\<lparr>ph_gateStatus := phaseGateStatusFor dst edge kinds, ph_updatedAt := ts\<rparr>"
    and d6: "w_db w6 = (w_db w5)\<lparr>db_phases := tbl_put ph_id upd (db_phases (w_db w5)),
       db_audit := db_audit (w_db w5) @ [row]\<rparr>"
    and pend: "w_pending w6 = w_pending w5"
  proof (rule phases_update_InrE, goal_cases)
    case (1 p ts row)
    have p: "p = phase" using 1(2) phase d5 by simp
    show ?case
      by (rule that [of ts row]) (use 1 p in simp_all)
  qed
  have "phase_written (w_db w) phase edge dst res (w_db w')"
  proof -
    have "re_subject res = upd" "re_event res = ev" "re_transitionId res = tr_id edge"
      using res by auto
    moreover have "ev_disposition ev = Accepted" "ev_subjectKind ev = SkPhase"
      "ev_subjectId ev = ph_id phase" "ev_toState ev = PhaseState dst"
      using E(1) to by (auto simp: event_of_def phase_draft_def)
    moreover have "db_phases (w_db w') = tbl_put ph_id upd (db_phases (w_db w))"
      "db_events (w_db w') = db_events (w_db w) @ [ev]" "db_receipts (w_db w') = db_receipts (w_db w)"
      "db_audit (w_db w') = db_audit (w_db w) @ [row]" "db_blockers (w_db w') = db_blockers (w_db w) @ bs"
      "db_workflows (w_db w') = db_workflows (w_db w)" "db_tasks (w_db w') = db_tasks (w_db w)"
      "db_attempts (w_db w') = db_attempts (w_db w)" "db_decisions (w_db w') = db_decisions (w_db w)"
      "db_evidence (w_db w') = db_evidence (w_db w)" "db_approvals (w_db w') = db_approvals (w_db w)"
      "db_requests (w_db w') = db_requests (w_db w)"
      unfolding E(2) d6 d5 by simp_all
    moreover have "kinds = unresolvedKinds SkPhase (ph_id phase) (w_db w')"
      unfolding E(2) d6 K(1) K(2) by (simp add: unresolvedKinds_def unresolvedForSubject_def)
    ultimately show ?thesis
      using u by (auto simp: phase_written_def)
  qed
  moreover have "db_tasks (gx_db ctx) = db_tasks (w_db w)"
    using C(4) B(2) A(1) by auto
  ultimately show ?thesis
    using A ne C(1,2,3) G(2) E(3) pend K(2) G(1) C(6) B(3)
    by (intro conjI exI [of _ ctx]) (auto split: option.splits)
qed

lemma phaseEdgeFor_Inr:
  assumes "phaseEdgeFor rq phase wkf base from_state w = (Inr res, w')"
  obtains src dst edge where "from_state = Some src" "rq_to rq = Known dst"
    "src \<notin> set PHASE_TERMINAL_STATES" "findPhaseTransition src dst (Some (rq_trigger rq)) = Some edge"
    "commitPhaseEdge rq phase wkf edge base src dst w = (Inr res, w')"
  using assms
  by (auto simp: phaseEdgeFor_def split: requested.splits if_splits option.splits)

theorem transitionPhase_Inr:
  assumes "transitionPhase rq w = (Inr res, w')"
  shows "\<exists>phase src edge dst ctx. phase_accepted rq (w_db w) phase src edge dst ctx \<and>
     phase_written (w_db w) phase edge dst res (w_db w') \<and> w_pending w' = w_pending w"
proof -
  from assms obtain w1 d where run: "(andThen (repo_get phaseRepo (rq_subject rq)) (\<lambda>found.
       case found of
         None \<Rightarrow> throw (TransitionRejected UnknownSubject [] None)
       | Some phase \<Rightarrow>
           andThen (repo_require workflowRepo (ph_workflowId phase)) (\<lambda>wkf.
           andThen (hashOf (PPhase phase)) (\<lambda>prior.
             let src = phaseLifecycleState (ph_gateStatus phase)
             in phaseEdgeFor rq phase wkf (phase_draft rq phase wkf src prior) src))))
      (w\<lparr>w_depth := Suc (w_depth w)\<rparr>) = (Inr res, w1)" and w': "w' = w1\<lparr>w_depth := d\<rparr>"
    unfolding transitionPhase_def tryCatch_surface evaluatePhaseTransition_def
    by (elim store_write_InrE)
  from run obtain phase wkf where phase: "tbl_get ph_id (rq_subject rq) (db_phases (w_db w)) = Some phase"
    and edge: "phaseEdgeFor rq phase wkf
        (phase_draft rq phase wkf (phaseLifecycleState (ph_gateStatus phase)) (env_sha (w_env w) (PPhase phase)))
        (phaseLifecycleState (ph_gateStatus phase)) (w\<lparr>w_depth := Suc (w_depth w)\<rparr>) = (Inr res, w1)"
    by (auto simp: andThen_eq_Inr phases.get_eq workflows.require_eq hashOf_def Let_def split: option.splits)
  have id: "ph_id phase = rq_subject rq"
    using phase by (rule tbl_get_key)
  from edge obtain src dst edge where e: "phaseLifecycleState (ph_gateStatus phase) = Some src"
    "rq_to rq = Known dst" "src \<notin> set PHASE_TERMINAL_STATES"
    "findPhaseTransition src dst (Some (rq_trigger rq)) = Some edge"
    and run': "commitPhaseEdge rq phase wkf edge (phase_draft rq phase wkf
        (phaseLifecycleState (ph_gateStatus phase)) (env_sha (w_env w) (PPhase phase)))
        src dst (w\<lparr>w_depth := Suc (w_depth w)\<rparr>) = (Inr res, w1)"
    by (rule phaseEdgeFor_Inr)
  note F = phase_table.find_sound [OF e(4) [unfolded findPhaseTransition_def]]
  from commitPhaseEdge_Inr [OF run' _ e(2) phase_table.evidence_needed [OF F(1)]] phase id e F
  show ?thesis
    by (auto simp: w' phase_accepted_def)
qed


lemma phase_draft_about:
  "draft_about (phase_draft rq phase wkf (Some src) h) SkPhase (ph_id phase) (PhaseState src) h"
  by (simp add: draft_about_def phase_draft_def)

lemma transitionPhase_Inl:
  assumes run: "transitionPhase rq w = (Inl e, w')" and depth: "w_depth w = 0"
  shows "case tbl_get ph_id (rq_subject rq) (db_phases (w_db w)) of
      None \<Rightarrow> (e = TransitionRejected UnknownSubject [] None \<or> store_error e) \<and> w_db w' = w_db w
    | Some phase \<Rightarrow> (\<exists>src. phaseLifecycleState (ph_gateStatus phase) = Some src \<and>
        refused_with SkPhase (ph_id phase) (PhaseState src) (env_sha (w_env w) (PPhase phase)) (w_db w) e (w_db w'))"
proof (cases "tbl_get ph_id (rq_subject rq) (db_phases (w_db w))")
  case None
  then show ?thesis
    using run depth
    by (auto simp: transitionPhase_def evaluatePhaseTransition_def tryCatch_def store_write_def
        andThen_def phases.get_eq surface_refusal_def split: if_splits)
next
  case (Some phase)
  obtain src where src: "phaseLifecycleState (ph_gateStatus phase) = Some src"
    using phaseLifecycleState_total by fastforce
  have "refused_with SkPhase (ph_id phase) (PhaseState src) (env_sha (w_env w) (PPhase phase)) (w_db w) e (w_db w')"
  proof (rule refused_surface [OF run [unfolded transitionPhase_def evaluatePhaseTransition_def] depth],
      goal_cases)
    case (1 e1 w1)
    then show ?case
      using throws_onlyD [OF throws_phaseEdgeFor [OF phase_draft_about]] src
      by (auto simp: andThen_eq_Inl andThen_eq_Inr phases.get_eq workflows.require_eq Some hashOf_def Let_def
          refusal_def [of _ _ _ _ "RecordNotFound _ _"] split: option.splits)
  qed
  then show ?thesis using Some src by simp
qed

section \<open>Properties\<close>

text \<open>
  An accepted phase request followed a listed edge from the phase's current, nonterminal
  lifecycle state, by an allowed actor with evidence; the phase's stored status afterwards
  projects onto exactly the requested state, one accepted event and one audit row were appended,
  and no task, receipt, attempt, decision, evidence or approval changed.
\<close>

theorem accepted_phase_transition:
  assumes "transitionPhase rq w = (Inr res, w')"
  shows "\<exists>phase src edge ts row.
     tbl_get ph_id (rq_subject rq) (db_phases (w_db w)) = Some phase \<and>
     phaseLifecycleState (ph_gateStatus phase) = Some src \<and> src \<notin> {PhDone, PhCancelled} \<and>
     findPhaseTransition src (tr_to edge) (Some (rq_trigger rq)) = Some edge \<and>
     rq_to rq = Known (tr_to edge) \<and>
     actorRole (ta_kind (rq_actor rq)) \<in> set (tr_whoMayTrigger edge) \<and> rq_evidenceRefs rq \<noteq> [] \<and>
     re_subject res = phase\<lparr>ph_gateStatus := ph_gateStatus (re_subject res), ph_updatedAt := ts\<rparr> \<and>
     phaseLifecycleState (ph_gateStatus (re_subject res)) = Some (tr_to edge) \<and>
     db_phases (w_db w') = tbl_put ph_id (re_subject res) (db_phases (w_db w)) \<and>
     db_events (w_db w') = db_events (w_db w) @ [re_event res] \<and>
     ev_disposition (re_event res) = Accepted \<and>
     db_audit (w_db w') = db_audit (w_db w) @ [row] \<and>
     db_tasks (w_db w') = db_tasks (w_db w) \<and> db_receipts (w_db w') = db_receipts (w_db w) \<and>
     db_attempts (w_db w') = db_attempts (w_db w) \<and> db_decisions (w_db w') = db_decisions (w_db w) \<and>
     db_evidence (w_db w') = db_evidence (w_db w) \<and> db_approvals (w_db w') = db_approvals (w_db w) \<and>
     db_requests (w_db w') = db_requests (w_db w)"
proof -
  from transitionPhase_Inr [OF assms] obtain phase src edge dst ctx where
      acc: "phase_accepted rq (w_db w) phase src edge dst ctx"
    and wr: "phase_written (w_db w) phase edge dst res (w_db w')"
    by blast
  have e: "edge \<in> set PHASE_TRANSITIONS" "tr_to edge = dst" "src \<in> set (tr_from edge)"
      "tr_trigger edge = rq_trigger rq"
    using acc by (simp_all add: phase_accepted_def)
  have found: "findPhaseTransition src (tr_to edge) (Some (rq_trigger rq)) = Some edge"
    using phase_table.find_complete [OF e(1,3)] e(4) by (simp add: findPhaseTransition_def)
  have state: "phaseLifecycleState (ph_gateStatus (re_subject res)) = Some (tr_to edge)"
    using wr phaseGateStatusFor_state [OF e(1,2)] e(2) by (auto simp: phase_written_def)
  from wr obtain ts where "re_subject res = phase\<lparr>ph_gateStatus :=
        phaseGateStatusFor dst edge (unresolvedKinds SkPhase (ph_id phase) (w_db w')), ph_updatedAt := ts\<rparr>"
    by (auto simp: phase_written_def)
  then have "re_subject res = phase\<lparr>ph_gateStatus := ph_gateStatus (re_subject res), ph_updatedAt := ts\<rparr>"
    by simp
  with acc wr found state e(2) show ?thesis
    by (intro exI [of _ phase] exI [of _ src] exI [of _ edge] exI [of _ ts])
      (auto simp: phase_accepted_def phase_written_def PHASE_TERMINAL_STATES_def)
qed

lemma fx_gate_runs:
  "\<not> isl (fst (transitionPhase (fx_request ''p'' PhDone ''phase_gate_passed'' all_pass None)
     (fx_world (fx_db Done PgReview None))))"
  by code_simp

theorem accepted_phase_transition_witness:
  "\<exists>res w'. transitionPhase (fx_request ''p'' PhDone ''phase_gate_passed'' all_pass None)
     (fx_world (fx_db Done PgReview None)) = (Inr res, w') \<and> db_tasks (w_db w') = [fx_task Done]"
proof -
  obtain res w' where run: "transitionPhase (fx_request ''p'' PhDone ''phase_gate_passed'' all_pass None)
     (fx_world (fx_db Done PgReview None)) = (Inr res, w')"
    using accepted_run [OF fx_gate_runs] by blast
  from accepted_phase_transition [OF run] show ?thesis
    using run by auto
qed

text \<open>
  C11. A phase becomes done only from gating, by the engine, with all four phase-gate guards supplied
  and true on one snapshot of that phase. When the caller's table holds the record-backed guard
  \<open>allPhaseTasksDone\<close>, the phase moreover has tasks and every one of them is done.
\<close>

theorem phase_done_needs_gate:
  assumes "transitionPhase rq w = (Inr res, w')" and "rq_to rq = Known PhDone"
  shows "\<exists>phase ctx. tbl_get ph_id (rq_subject rq) (db_phases (w_db w)) = Some phase \<and>
     phaseLifecycleState (ph_gateStatus phase) = Some PhGating \<and> ta_kind (rq_actor rq) = AkEngine \<and>
     gx_phase ctx = Some phase \<and>
     (\<forall>pc \<in> {PcAllTasksDone, PcIntegratedChecksPassExactRevision, PcPhaseNoJevGapOrDisabled,
         PcPhasePolicyReviewSatisfied}. \<exists>ev. rq_guards rq pc = Some ev \<and> ev ctx = GTrue) \<and>
     (rq_guards rq PcAllTasksDone = Some allPhaseTasksDone \<longrightarrow>
       (\<exists>t \<in> set (db_tasks (w_db w)). t_phaseId t = ph_id phase) \<and>
       (\<forall>t \<in> set (db_tasks (w_db w)). t_phaseId t = ph_id phase \<longrightarrow> t_status t = Done))"
proof -
  from transitionPhase_Inr [OF assms(1)] assms(2) obtain phase src edge ctx where
      acc: "phase_accepted rq (w_db w) phase src edge PhDone ctx"
    by (auto simp: phase_accepted_def)
  have e: "edge \<in> set PHASE_TRANSITIONS" "tr_to edge = PhDone" "src \<in> set (tr_from edge)"
    using acc by (simp_all add: phase_accepted_def)
  then have row: "tr_from edge = [PhGating]" "tr_whoMayTrigger edge = [EngineOnly]"
      "tr_preconditions edge = PHASE_DONE_PRECONDITIONS"
    by (auto simp: PHASE_TRANSITIONS_def)
  have eng: "ta_kind (rq_actor rq) = AkEngine"
    using acc row(2) by (cases "ta_kind (rq_actor rq)") (auto simp: phase_accepted_def)
  have all: "\<forall>pc \<in> set PHASE_DONE_PRECONDITIONS. \<exists>ev. rq_guards rq pc = Some ev \<and> ev ctx = GTrue"
    using acc by (auto simp: phase_accepted_def guards_hold_iff row(3) structuralGuards_def)
  have tasks: "(\<exists>t \<in> set (db_tasks (w_db w)). t_phaseId t = ph_id phase) \<and>
      (\<forall>t \<in> set (db_tasks (w_db w)). t_phaseId t = ph_id phase \<longrightarrow> t_status t = Done)"
    if "rq_guards rq PcAllTasksDone = Some allPhaseTasksDone"
  proof -
    have "allPhaseTasksDone ctx = GTrue"
      using all that by (auto simp: PHASE_DONE_PRECONDITIONS_def)
    then have "tasks_forPhase (ph_id phase) (w_db w) \<noteq> [] \<and>
        list_all (\<lambda>t. t_status t = Done) (tasks_forPhase (ph_id phase) (w_db w))"
      using acc by (simp add: allPhaseTasksDone_def phase_accepted_def tasks_forPhase_def repo_query_def
          Let_def split: if_splits)
    then show ?thesis
      by (auto simp: tasks_forPhase_def repo_query_def list_all_iff filter_empty_conv
          simp flip: set_empty)
  qed
  show ?thesis
    using acc e(3) row(1) eng all tasks
    by (intro exI [of _ phase] exI [of _ ctx]) (auto simp: phase_accepted_def PHASE_DONE_PRECONDITIONS_def)
qed

definition fx_phase_guards :: guard_table where
  "fx_phase_guards = phaseDoneGuards \<lparr>phh_allTasksDone = Some allPhaseTasksDone,
     phh_integratedChecksPassAtExactRevision = Some (\<lambda>_. GTrue),
     phh_phaseNoJevGapOrDisabled = Some (\<lambda>_. GTrue), phh_phasePolicyReviewSatisfied = Some (\<lambda>_. GTrue)\<rparr>"

lemma fx_phase_done_runs:
  "\<not> isl (fst (transitionPhase (fx_request ''p'' PhDone ''phase_gate_passed'' fx_phase_guards None)
     (fx_world (fx_db Done PgReview None))))"
  by code_simp

theorem phase_done_needs_gate_witness:
  "\<exists>res w'. transitionPhase (fx_request ''p'' PhDone ''phase_gate_passed'' fx_phase_guards None)
     (fx_world (fx_db Done PgReview None)) = (Inr res, w') \<and>
     (\<exists>ctx. gx_phase ctx = Some (fx_phase PgReview) \<and> allPhaseTasksDone ctx = GTrue) \<and>
     (\<exists>t \<in> set (db_tasks (fx_db Done PgReview None)). t_phaseId t = ''p'' \<and> t_status t = Done)"
proof -
  obtain res w' where run:
    "transitionPhase (fx_request ''p'' PhDone ''phase_gate_passed'' fx_phase_guards None)
     (fx_world (fx_db Done PgReview None)) = (Inr res, w')"
    using accepted_run [OF fx_phase_done_runs] by blast
  have "fx_phase_guards PcAllTasksDone = Some allPhaseTasksDone"
    by (simp add: fx_phase_guards_def phaseDoneGuards_def)
  with phase_done_needs_gate [OF run] run show ?thesis
    by (auto simp: fx_phase_def)
qed

text \<open>
  A refused phase request outside any transaction changes nothing except that a refusal of the
  state machine appends one rejected event about the phase with equal before and after hashes.
\<close>

theorem refused_phase_transition_changes_nothing:
  assumes "transitionPhase rq w = (Inl e, w')" and "w_depth w = 0"
  shows "(\<exists>code failed ev phase. e = TransitionRejected code failed (Some ev) \<and>
       tbl_get ph_id (rq_subject rq) (db_phases (w_db w)) = Some phase \<and>
       ev_disposition ev = Rejected \<and> ev_reasonCode ev = Some code \<and> ev_failedGuards ev = failed \<and>
       ev_subjectKind ev = SkPhase \<and> ev_subjectId ev = ph_id phase \<and>
       ev_beforeHash ev = env_sha (w_env w) (PPhase phase) \<and> ev_afterHash ev = ev_beforeHash ev \<and>
       w_db w' = (w_db w)\<lparr>db_events := db_events (w_db w) @ [ev]\<rparr>) \<or>
     ((e = TransitionRejected UnknownSubject [] None \<or> store_error e) \<and> w_db w' = w_db w)"
  using transitionPhase_Inl [OF assms]
  by (auto simp: refused_with_def refusal_event_def split: option.splits)

lemma fx_phase_refused:
  "isl (fst (transitionPhase (fx_request ''p'' PhDone ''phase_gate_passed'' fx_phase_guards None)
     (fx_world (fx_db Review PgReview None))))"
  by code_simp

theorem refused_phase_transition_changes_nothing_witness:
  "\<exists>e w'. transitionPhase (fx_request ''p'' PhDone ''phase_gate_passed'' fx_phase_guards None)
     (fx_world (fx_db Review PgReview None)) = (Inl e, w') \<and> db_phases (w_db w') = [fx_phase PgReview]"
proof -
  obtain e w' where run:
    "transitionPhase (fx_request ''p'' PhDone ''phase_gate_passed'' fx_phase_guards None)
     (fx_world (fx_db Review PgReview None)) = (Inl e, w')"
    using refused_run [OF fx_phase_refused] by blast
  have "w_depth (fx_world (fx_db Review PgReview None)) = 0" by simp
  from refused_phase_transition_changes_nothing [OF run this]
  have "db_phases (w_db w') = [fx_phase PgReview]"
    by auto
  then show ?thesis using run by blast
qed

text \<open>
  A phase paused because every candidate is capped, or while an unresolved cap or budget
  blocker is on record, is stored as \<open>paused_cap\<close>; any other pause as \<open>paused_approval\<close>.
\<close>

theorem pause_status_reflects_reason:
  assumes "transitionPhase rq w = (Inr res, w')" and "rq_to rq = Known PhPaused"
  shows "ph_gateStatus (re_subject res) =
     (if rq_trigger rq = ''all_candidates_capped'' \<or>
         (\<exists>b \<in> set (unresolvedForSubject SkPhase (rq_subject rq) (w_db w')). b_kind b \<in> set CAP_BLOCKER_KINDS)
      then PgPausedCap else PgPausedApproval)"
proof -
  from transitionPhase_Inr [OF assms(1)] assms(2) obtain phase src edge ctx where
      acc: "phase_accepted rq (w_db w) phase src edge PhPaused ctx"
    and wr: "phase_written (w_db w) phase edge PhPaused res (w_db w')"
    by (auto simp: phase_accepted_def)
  have "tr_id edge \<noteq> PhaseStaleEvidence" and "tr_trigger edge = rq_trigger rq" and "ph_id phase = rq_subject rq"
    using acc by (auto simp: phase_accepted_def PHASE_TRANSITIONS_def dest: tbl_get_key)
  then show ?thesis
    using wr by (auto simp: phase_written_def phaseGateStatusFor_def unresolvedKinds_def list_ex_iff)
qed

definition fx_pause :: "phase_state transition_request" where
  "fx_pause = (fx_request ''p'' PhPaused ''phase_stop'' all_pass None)
     \<lparr>rq_blocker := Some (''budget_hard_stop'', [])\<rparr>"

lemma fx_pause_runs: "\<not> isl (fst (transitionPhase fx_pause (fx_world (fx_db Done PgRunning None))))"
  by code_simp

lemma fx_pause_blockers:
  "map b_kind (unresolvedForSubject SkPhase ''p'' (w_db (snd (transitionPhase fx_pause
     (fx_world (fx_db Done PgRunning None)))))) = [''budget_hard_stop'']"
  by code_simp

theorem pause_status_reflects_reason_witness:
  "\<exists>res w'. transitionPhase fx_pause (fx_world (fx_db Done PgRunning None)) = (Inr res, w') \<and>
     ph_gateStatus (re_subject res) = PgPausedCap"
proof -
  obtain res w' where run: "transitionPhase fx_pause (fx_world (fx_db Done PgRunning None)) = (Inr res, w')"
    using accepted_run [OF fx_pause_runs] by blast
  have "rq_to fx_pause = Known PhPaused" "rq_subject fx_pause = ''p''"
    by (simp_all add: fx_pause_def)
  with pause_status_reflects_reason [OF run] fx_pause_blockers run show ?thesis
    by (auto simp: CAP_BLOCKER_KINDS_def)
qed

section \<open>Where the comments promise more\<close>

text \<open>
  The comment on \<open>GATING_SUBSTAGES\<close> says \<open>phase-done\<close> may only be requested from the last substage;
  it is accepted from the first. \<open>phase-stale-evidence\<close> from the first substage moves forward.
\<close>

lemma phase_done_from_first_substage:
  "map_sum (\<lambda>_. ()) (\<lambda>r. ph_gateStatus (re_subject r))
     (fst (transitionPhase (fx_request ''p'' PhDone ''phase_gate_passed'' fx_phase_guards None)
       (fx_world (fx_db Done PgIntegrating None)))) = Inr PgPassed"
  by code_simp

lemma stale_evidence_moves_forward:
  "map_sum (\<lambda>_. ()) (\<lambda>r. ph_gateStatus (re_subject r))
     (fst (transitionPhase (fx_request ''p'' PhGating ''git_revision_changed'' all_pass None)
       (fx_world (fx_db Done PgIntegrating None)))) = Inr PgVerifying"
  by code_simp

end
