(* ===== verification/Blockers.thy ===== *)
theory Blockers
  imports TaskTransitions PhaseTransitions
begin

text \<open>
  \<open>src/workflow/blockers.ts\<close>: raising a blocker drives its subject to \<open>blocked\<close> or \<open>paused\<close>
  through the state machine; resolving one changes no status.
\<close>

section \<open>The operations\<close>

record raise_options =
  ro_actor :: transition_actor
  ro_kind :: string
  ro_detail :: string
  ro_evidenceRefs :: "string list option"

record ('r, 'id) raise_result =
  rr_blocker :: blocker_row
  rr_transition :: "('r, 'id) transition_result option"

definition insertBlocker :: "raise_options \<Rightarrow> subject_kind \<Rightarrow> string \<Rightarrow> string \<Rightarrow> blocker_row io" where
  "insertBlocker opts k i wid =
     andThen newId (\<lambda>bid. andThen getNow (\<lambda>ts.
       blocker_insert \<lparr>b_blockerId = bid, b_createdAt = ts, b_workflowId = wid, b_subjectKind = k,
         b_subjectId = i, b_kind = ro_kind opts, b_detail = ro_detail opts,
         b_raisedBy = actor_text (ro_actor opts), b_resolvedAt = None, b_resolvedBy = None,
         b_resolutionDetail = None\<rparr>))"

definition blocker_evidence :: "raise_options \<Rightarrow> blocker_row \<Rightarrow> string list" where
  "blocker_evidence opts b =
     (case ro_evidenceRefs opts of None \<Rightarrow> [''blocker:'' @ b_blockerId b] | Some refs \<Rightarrow> refs)"

text \<open>The request \<open>raiseTaskBlocker\<close> makes: no guard of its own, \<open>blocker_present\<close> is structural.\<close>

definition block_request :: "raise_options \<Rightarrow> string \<Rightarrow> blocker_row \<Rightarrow> task_status transition_request" where
  "block_request opts tid b = \<lparr>rq_subject = tid, rq_to = Known Blocked, rq_actor = ro_actor opts,
     rq_trigger = ''blocker_or_user_pause'', rq_guards = (\<lambda>_. None),
     rq_evidenceRefs = blocker_evidence opts b, rq_gitRevision = None, rq_expectedStatus = None,
     rq_expectedRevision = None, rq_blocker = None, rq_gateReceiptId = None\<rparr>"

definition blocker_patch :: "string option \<Rightarrow> task_patch" where
  "blocker_patch v = no_patch\<lparr>pt_blocker := Some v\<rparr>"

definition raiseTaskBlocker :: "raise_options \<Rightarrow> string \<Rightarrow> (task, task_edge) raise_result io" where
  "raiseTaskBlocker opts tid = store_write (
     andThen (repo_require taskRepo tid) (\<lambda>task.
     andThen (insertBlocker opts SkTask (t_id task) (t_workflowId task)) (\<lambda>b.
       let terminal = (t_status task = Done \<or> t_status task = Cancelled) in
       if terminal \<or> t_status task = Blocked then
         andThen (if \<not> terminal
                  then andThen (getDb (deriveBlockerField SkTask (t_id task))) (\<lambda>v.
                         andThen (tasks_update (t_id task) (blocker_patch v)) (\<lambda>_. ret ()))
                  else ret ()) (\<lambda>_.
         ret \<lparr>rr_blocker = b, rr_transition = None\<rparr>)
       else andThen (transitionTask (block_request opts (t_id task) b)) (\<lambda>tr.
         ret \<lparr>rr_blocker = b, rr_transition = Some tr\<rparr>))))"

definition pause_request :: "raise_options \<Rightarrow> string \<Rightarrow> blocker_row \<Rightarrow> phase_state transition_request" where
  "pause_request opts pid b = \<lparr>rq_subject = pid, rq_to = Known PhPaused, rq_actor = ro_actor opts,
     rq_trigger = ''phase_stop'', rq_guards = (\<lambda>pc. if pc = PcPhaseStopPresent then Some (\<lambda>_. GTrue) else None),
     rq_evidenceRefs = blocker_evidence opts b, rq_gitRevision = None, rq_expectedStatus = None,
     rq_expectedRevision = None, rq_blocker = Some (ro_kind opts, ro_detail opts),
     rq_gateReceiptId = None\<rparr>"

definition raisePhaseBlocker :: "raise_options \<Rightarrow> string \<Rightarrow> (phase, phase_edge) raise_result io" where
  "raisePhaseBlocker opts pid = store_write (
     andThen (repo_require phaseRepo pid) (\<lambda>phase.
     andThen (insertBlocker opts SkPhase (ph_id phase) (ph_workflowId phase)) (\<lambda>b.
       case phaseLifecycleState (ph_gateStatus phase) of
         None \<Rightarrow> ret \<lparr>rr_blocker = b, rr_transition = None\<rparr>
       | Some st \<Rightarrow>
           if st = PhDone \<or> st = PhCancelled \<or> st = PhPaused
           then ret \<lparr>rr_blocker = b, rr_transition = None\<rparr>
           else andThen (transitionPhase (pause_request opts (ph_id phase) b)) (\<lambda>tr.
             ret \<lparr>rr_blocker = b, rr_transition = Some tr\<rparr>))))"

record resolve_result =
  rs_blocker :: blocker_row
  rs_remaining :: "blocker_row list"
  rs_clear :: bool

definition resolveBlocker :: "transition_actor \<Rightarrow> string \<Rightarrow> string \<Rightarrow> resolve_result io" where
  "resolveBlocker actor bid detail = store_write (
     andThen (getDb (blocker_get bid)) (\<lambda>found.
       case found of
         None \<Rightarrow> throw (TransitionRejected UnknownSubject [] None)
       | Some existing \<Rightarrow>
           andThen getNow (\<lambda>ts.
           andThen (blocker_resolve bid ts (actor_text actor) detail) (\<lambda>b.
           andThen (getDb (unresolvedForSubject (b_subjectKind existing) (b_subjectId existing))) (\<lambda>remaining.
           andThen (if b_subjectKind existing = SkTask
                    then andThen (repo_get taskRepo (b_subjectId existing)) (\<lambda>t.
                      case t of
                        None \<Rightarrow> ret ()
                      | Some task \<Rightarrow>
                          if t_status task \<noteq> Done \<and> t_status task \<noteq> Cancelled
                          then andThen (getDb (deriveBlockerField SkTask (t_id task))) (\<lambda>v.
                                 andThen (tasks_update (t_id task) (blocker_patch v)) (\<lambda>_. ret ()))
                          else ret ())
                    else ret ()) (\<lambda>_.
           ret \<lparr>rs_blocker = b, rs_remaining = remaining, rs_clear = (remaining = [])\<rparr>))))))"

text \<open>\<open>array.map\<close> with an effectful function.\<close>

fun mapEach :: "('a \<Rightarrow> 'b io) \<Rightarrow> 'a list \<Rightarrow> 'b list io" where
  "mapEach f [] = ret []"
| "mapEach f (x # xs) = andThen (f x) (\<lambda>y. andThen (mapEach f xs) (\<lambda>ys. ret (y # ys)))"

definition resolveBlockersOfKind ::
  "transition_actor \<Rightarrow> subject_kind \<Rightarrow> string \<Rightarrow> string \<Rightarrow> string \<Rightarrow> blocker_row list io"
where
  "resolveBlockersOfKind actor k i kind detail = store_write (
     andThen (getDb (\<lambda>d. filter (\<lambda>b. b_kind b = kind) (unresolvedForSubject k i d))) (\<lambda>matching.
       mapEach (\<lambda>b. andThen (resolveBlocker actor (b_blockerId b) detail) (\<lambda>r. ret (rs_blocker r)))
         matching))"

definition activeBlockers :: "subject_kind \<Rightarrow> string \<Rightarrow> db \<Rightarrow> blocker_row list" where
  "activeBlockers k i d = unresolvedForSubject k i d"

definition isBlocked :: "subject_kind \<Rightarrow> string \<Rightarrow> db \<Rightarrow> bool" where
  "isBlocked k i d \<longleftrightarrow> 0 < length (activeBlockers k i d)"

section \<open>The operations, inverted\<close>

lemma insertBlocker_Inr:
  assumes "insertBlocker opts k i wid w = (Inr b, w')"
  shows "w_db w' = (w_db w)\<lparr>db_blockers := db_blockers (w_db w) @ [b]\<rparr> \<and>
    b_subjectKind b = k \<and> b_subjectId b = i \<and> b_kind b = ro_kind opts \<and> b_resolvedAt b = None \<and>
    blocker_get (b_blockerId b) (w_db w) = None \<and> w_pending w' = w_pending w"
  using assms
  by (auto simp: insertBlocker_def andThen_eq_Inr newId_def getNow_def dest!: blocker_insert_Inr)

lemma blocker_patch_apply:
  "apply_task_patch (blocker_patch v) t = t\<lparr>t_blocker := v\<rparr>" "\<not> touchesRevisioned (blocker_patch v)"
  "pt_status (blocker_patch v) = None"
  by (simp_all add: apply_task_patch_def blocker_patch_def no_patch_def touchesRevisioned_def)

lemma unresolved_append:
  assumes "b_subjectKind b = k" and "b_subjectId b = i" and "b_resolvedAt b = None"
  shows "b \<in> set (unresolvedForSubject k i (d\<lparr>db_blockers := bs @ [b]\<rparr>))"
  using assms by (simp add: unresolvedForSubject_def)

lemma task_blocker_update_Inr:
  assumes "tasks_update i (blocker_patch v) w = (Inr t', w')"
  shows "\<exists>t ts row. tbl_get t_id i (db_tasks (w_db w)) = Some t \<and>
    t' = t\<lparr>t_blocker := v, t_updatedAt := ts\<rparr> \<and>
    w_db w' = (w_db w)\<lparr>db_tasks := tbl_put t_id t' (db_tasks (w_db w)),
       db_audit := db_audit (w_db w) @ [row]\<rparr> \<and> w_pending w' = None"
  using assms
proof (rule tasks_update_InrE)
  fix t ts row
  assume t: "tbl_get t_id i (db_tasks (w_db w)) = Some t"
    "t' = (apply_task_patch (blocker_patch v) t)\<lparr>t_updatedAt := ts\<rparr>"
    "w_db w' = (w_db w)\<lparr>db_tasks := tbl_put t_id t' (db_tasks (w_db w)),
       db_audit := db_audit (w_db w) @ [row]\<rparr>" "w_pending w' = None"
  show ?thesis
    by (intro exI [of _ t] exI [of _ ts] exI [of _ row] conjI t(1,3,4))
      (simp only: t(2) blocker_patch_apply)
qed


section \<open>Properties\<close>

lemma taskWritten_blockers_grow:
  assumes "transitionTask rq w = (Inr res, w')" and "rq_blocker rq = None" and "rq_to rq \<noteq> Known Cancelled"
  shows "db_blockers (w_db w') = db_blockers (w_db w)"
  using transitionTask_Inr [OF assms(1)] assms(2,3) by (auto simp: task_accepted_def task_written_def)

text \<open>
  Raising a blocker on a task records an unresolved row of that kind for it, and the reason and
  the state change land together: a nonterminal task is blocked afterwards with its blocker field
  derived from the rows, a done or cancelled one keeps its whole row.
\<close>

theorem raise_blocks_the_task:
  assumes "raiseTaskBlocker opts tid w = (Inr r, w')"
  shows "\<exists>task. tbl_get t_id tid (db_tasks (w_db w)) = Some task \<and>
     b_kind (rr_blocker r) = ro_kind opts \<and>
     rr_blocker r \<in> set (unresolvedForSubject SkTask tid (w_db w')) \<and>
     (if t_status task = Done \<or> t_status task = Cancelled
      then db_tasks (w_db w') = db_tasks (w_db w) \<and> rr_transition r = None
      else \<exists>task'. tbl_get t_id tid (db_tasks (w_db w')) = Some task' \<and> t_status task' = Blocked \<and>
        t_blocker task' = deriveBlockerField SkTask tid (w_db w') \<and> t_blocker task' \<noteq> None \<and>
        (rr_transition r = None \<longleftrightarrow> t_status task = Blocked))"
proof -
  from assms obtain wa d where body: "(andThen (repo_require taskRepo tid) (\<lambda>task.
     andThen (insertBlocker opts SkTask (t_id task) (t_workflowId task)) (\<lambda>b.
       let terminal = (t_status task = Done \<or> t_status task = Cancelled) in
       if terminal \<or> t_status task = Blocked then
         andThen (if \<not> terminal
                  then andThen (getDb (deriveBlockerField SkTask (t_id task))) (\<lambda>v.
                         andThen (tasks_update (t_id task) (blocker_patch v)) (\<lambda>_. ret ()))
                  else ret ()) (\<lambda>_.
         ret \<lparr>rr_blocker = b, rr_transition = None\<rparr>)
       else andThen (transitionTask (block_request opts (t_id task) b)) (\<lambda>tr.
         ret \<lparr>rr_blocker = b, rr_transition = Some tr\<rparr>))))
       (w\<lparr>w_depth := Suc (w_depth w)\<rparr>) = (Inr r, wa)" and w': "w' = wa\<lparr>w_depth := d\<rparr>"
    unfolding raiseTaskBlocker_def by (elim store_write_InrE)
  from body obtain task b w1 where
      task: "tbl_get t_id tid (db_tasks (w_db w)) = Some task"
    and ins: "insertBlocker opts SkTask (t_id task) (t_workflowId task) (w\<lparr>w_depth := Suc (w_depth w)\<rparr>) = (Inr b, w1)"
    and rest: "(let terminal = (t_status task = Done \<or> t_status task = Cancelled) in
       if terminal \<or> t_status task = Blocked then
         andThen (if \<not> terminal
                  then andThen (getDb (deriveBlockerField SkTask (t_id task))) (\<lambda>v.
                         andThen (tasks_update (t_id task) (blocker_patch v)) (\<lambda>_. ret ()))
                  else ret ()) (\<lambda>_.
         ret \<lparr>rr_blocker = b, rr_transition = None\<rparr>)
       else andThen (transitionTask (block_request opts (t_id task) b)) (\<lambda>tr.
         ret \<lparr>rr_blocker = b, rr_transition = Some tr\<rparr>)) w1 = (Inr r, wa)"
    by (elim andThen_InrE) (auto simp: tasks.require_eq split: option.splits)
  have id: "t_id task = tid"
    using task by (rule tbl_get_key)
  have b: "w_db w1 = (w_db w)\<lparr>db_blockers := db_blockers (w_db w) @ [b]\<rparr>" "b_kind b = ro_kind opts"
      "b_subjectKind b = SkTask" "b_subjectId b = tid" "b_resolvedAt b = None"
    using insertBlocker_Inr [OF ins] id by simp_all
  have open1: "b \<in> set (unresolvedForSubject SkTask tid x)" if "db_blockers x = db_blockers (w_db w1)" for x
    using b(3-5) that b(1) by (simp add: unresolvedForSubject_def)
  have field: "deriveBlockerField SkTask tid x \<noteq> None" if "db_blockers x = db_blockers (w_db w1)" for x
    using open1 [OF that] by (auto simp: deriveBlockerField_def unresolvedKinds_def Let_def)
  consider (terminal) "t_status task = Done \<or> t_status task = Cancelled"
    | (blocked) "t_status task = Blocked"
    | (active) "t_status task \<notin> {Done, Cancelled, Blocked}" by auto
  then show ?thesis
  proof cases
    case terminal
    then have "r = \<lparr>rr_blocker = b, rr_transition = None\<rparr>" "wa = w1"
      using rest by (auto simp: Let_def andThen_eq_Inr)
    with terminal task b open1 [of "w_db w1"] show ?thesis
      by (simp add: w')
  next
    case blocked
    then obtain t' where r: "r = \<lparr>rr_blocker = b, rr_transition = None\<rparr>"
      and upd: "tasks_update tid (blocker_patch (deriveBlockerField SkTask tid (w_db w1))) w1 = (Inr t', wa)"
      using rest id by (auto simp: Let_def andThen_eq_Inr)
    from task_blocker_update_Inr [OF upd] obtain ts row where
        t': "t' = task\<lparr>t_blocker := deriveBlockerField SkTask tid (w_db w1), t_updatedAt := ts\<rparr>"
      and da: "w_db wa = (w_db w1)\<lparr>db_tasks := tbl_put t_id t' (db_tasks (w_db w1)),
         db_audit := db_audit (w_db w1) @ [row]\<rparr>"
      using task b(1) by auto
    have "tbl_get t_id tid (db_tasks (w_db wa)) = Some t'"
      using task id t' b(1) by (simp add: da tbl_get_put)
    moreover have "deriveBlockerField SkTask tid (w_db wa) = deriveBlockerField SkTask tid (w_db w1)"
      by (rule deriveBlockerField_cong) (simp add: da)
    ultimately show ?thesis
      using task r t' blocked b(2) open1 [of "w_db wa"] field [of "w_db w1"] by (simp add: w' da)
  next
    case active
    then obtain tr where r: "r = \<lparr>rr_blocker = b, rr_transition = Some tr\<rparr>"
      and run: "transitionTask (block_request opts tid b) w1 = (Inr tr, wa)"
      using rest id by (auto simp: Let_def andThen_eq_Inr)
    from transitionTask_Inr [OF run] obtain edge where
        wr: "task_written (block_request opts tid b) (w_db w1) task edge Blocked tr (w_db wa)"
      using task b(1) by (auto simp: task_accepted_def block_request_def)
    have same: "db_blockers (w_db wa) = db_blockers (w_db w1)"
      by (rule taskWritten_blockers_grow [OF run]) (simp_all add: block_request_def)
    have "tbl_get t_id tid (db_tasks (w_db wa)) = Some (re_subject tr)"
      using wr task id b(1) by (auto simp: task_written_def tbl_get_put)
    moreover have "t_status (re_subject tr) = Blocked"
      "t_blocker (re_subject tr) = deriveBlockerField SkTask tid (w_db wa)"
      using wr id by (auto simp: task_written_def)
    ultimately show ?thesis
      using task r active b(2) open1 [OF same] field [OF same] by (simp add: w')
  qed
qed

definition fx_raise :: raise_options where
  "fx_raise = \<lparr>ro_actor = fx_engine, ro_kind = ''information'', ro_detail = [], ro_evidenceRefs = None\<rparr>"

lemma fx_raise_runs:
  "\<not> isl (fst (raiseTaskBlocker fx_raise ''t1'' (fx_world (fx_db Running PgRunning None))))"
  by code_simp

theorem raise_blocks_the_task_witness:
  "\<exists>r w' task'. raiseTaskBlocker fx_raise ''t1'' (fx_world (fx_db Running PgRunning None)) = (Inr r, w') \<and>
     tbl_get t_id ''t1'' (db_tasks (w_db w')) = Some task' \<and> t_status task' = Blocked"
proof -
  obtain r w' where run:
    "raiseTaskBlocker fx_raise ''t1'' (fx_world (fx_db Running PgRunning None)) = (Inr r, w')"
    using accepted_run [OF fx_raise_runs] by blast
  from raise_blocks_the_task [OF run] show ?thesis
    using run by (auto simp: fx_task_def)
qed


lemma resolveBlocker_Inr:
  assumes "resolveBlocker actor bid detail w = (Inr r, w')"
  obtains b ts and w1 :: world where "blocker_get bid (w_db w) = Some b" "b_resolvedAt b = None"
    "rs_blocker r = b\<lparr>b_resolvedAt := Some ts, b_resolvedBy := Some (actor_text actor),
       b_resolutionDetail := Some detail\<rparr>"
    "w_db w1 = (w_db w)\<lparr>db_blockers := tbl_put b_blockerId (rs_blocker r) (db_blockers (w_db w))\<rparr>"
    "w_pending w1 = w_pending w"
    "rs_remaining r = unresolvedForSubject (b_subjectKind b) (b_subjectId b) (w_db w1)"
    "rs_clear r \<longleftrightarrow> rs_remaining r = []"
    "(b_subjectKind b = SkTask \<and> (\<exists>task. tbl_get t_id (b_subjectId b) (db_tasks (w_db w)) = Some task \<and>
        t_status task \<notin> {Done, Cancelled} \<and> (\<exists>ts row t'.
        t' = task\<lparr>t_blocker := deriveBlockerField SkTask (b_subjectId b) (w_db w1), t_updatedAt := ts\<rparr> \<and>
        w_db w' = (w_db w1)\<lparr>db_tasks := tbl_put t_id t' (db_tasks (w_db w1)),
           db_audit := db_audit (w_db w1) @ [row]\<rparr> \<and> w_pending w' = None))) \<or>
     (w_db w' = w_db w1 \<and> w_pending w' = w_pending w \<and>
        (b_subjectKind b = SkTask \<longrightarrow> (\<forall>task. tbl_get t_id (b_subjectId b) (db_tasks (w_db w)) = Some task \<longrightarrow>
           t_status task \<in> {Done, Cancelled})))"
proof -
  define fin where "fin existing = (if b_subjectKind existing = SkTask
                    then andThen (repo_get taskRepo (b_subjectId existing)) (\<lambda>t.
                      case t of
                        None \<Rightarrow> ret ()
                      | Some task \<Rightarrow>
                          if t_status task \<noteq> Done \<and> t_status task \<noteq> Cancelled
                          then andThen (getDb (deriveBlockerField SkTask (t_id task))) (\<lambda>v.
                                 andThen (tasks_update (t_id task) (blocker_patch v)) (\<lambda>_. ret ()))
                          else ret ())
                    else (ret () :: unit io))" for existing :: blocker_row
  from assms obtain wa d where body: "(andThen (getDb (blocker_get bid)) (\<lambda>found.
       case found of
         None \<Rightarrow> throw (TransitionRejected UnknownSubject [] None)
       | Some existing \<Rightarrow>
           andThen getNow (\<lambda>ts.
           andThen (blocker_resolve bid ts (actor_text actor) detail) (\<lambda>b.
           andThen (getDb (unresolvedForSubject (b_subjectKind existing) (b_subjectId existing))) (\<lambda>remaining.
           andThen (fin existing) (\<lambda>_.
           ret \<lparr>rs_blocker = b, rs_remaining = remaining, rs_clear = (remaining = [])\<rparr>))))))
       (w\<lparr>w_depth := Suc (w_depth w)\<rparr>) = (Inr r, wa)" and w': "w' = wa\<lparr>w_depth := d\<rparr>"
    unfolding resolveBlocker_def fin_def by (elim store_write_InrE)
  from body obtain b where b: "blocker_get bid (w_db w) = Some b"
    by (auto simp: andThen_eq_Inr split: option.splits)
  from body b obtain ts wb b' w1 rem wc where now: "getNow (w\<lparr>w_depth := Suc (w_depth w)\<rparr>) = (Inr ts, wb)"
    and res: "blocker_resolve bid ts (actor_text actor) detail wb = (Inr b', w1)"
    and rem: "rem = unresolvedForSubject (b_subjectKind b) (b_subjectId b) (w_db w1)"
    and fin: "fin b w1 = (Inr (), wa)"
    and r: "r = \<lparr>rs_blocker = b', rs_remaining = rem, rs_clear = (rem = [])\<rparr>"
    by (auto simp: andThen_eq_Inr)
  have wb: "w_db wb = w_db w" "w_pending wb = w_pending w"
    using now by (auto simp: getNow_def)
  from res have b': "b_resolvedAt b = None"
    "b' = b\<lparr>b_resolvedAt := Some ts, b_resolvedBy := Some (actor_text actor), b_resolutionDetail := Some detail\<rparr>"
    "w_db w1 = (w_db w)\<lparr>db_blockers := tbl_put b_blockerId b' (db_blockers (w_db w))\<rparr>"
    "w_pending w1 = w_pending w"
    by (auto elim!: blocker_resolve_InrE simp: wb b)
  have tasks1: "db_tasks (w_db w1) = db_tasks (w_db w)"
    by (simp add: b'(3))
  have fin': "(b_subjectKind b = SkTask \<and> (\<exists>task. tbl_get t_id (b_subjectId b) (db_tasks (w_db w)) = Some task \<and>
        t_status task \<notin> {Done, Cancelled} \<and> (\<exists>ts row t'.
        t' = task\<lparr>t_blocker := deriveBlockerField SkTask (b_subjectId b) (w_db w1), t_updatedAt := ts\<rparr> \<and>
        w_db wa = (w_db w1)\<lparr>db_tasks := tbl_put t_id t' (db_tasks (w_db w1)),
           db_audit := db_audit (w_db w1) @ [row]\<rparr> \<and> w_pending wa = None))) \<or>
     (w_db wa = w_db w1 \<and> w_pending wa = w_pending w \<and>
        (b_subjectKind b = SkTask \<longrightarrow> (\<forall>task. tbl_get t_id (b_subjectId b) (db_tasks (w_db w)) = Some task \<longrightarrow>
           t_status task \<in> {Done, Cancelled})))" (is "?upd \<or> ?same")
  proof (cases "b_subjectKind b = SkTask \<and> (\<exists>task. tbl_get t_id (b_subjectId b) (db_tasks (w_db w)) = Some task \<and>
        t_status task \<notin> {Done, Cancelled})")
    case True
    then obtain task where task: "tbl_get t_id (b_subjectId b) (db_tasks (w_db w)) = Some task"
        "t_status task \<notin> {Done, Cancelled}" by blast
    have id: "t_id task = b_subjectId b"
      using task(1) by (rule tbl_get_key)
    from fin True task obtain t' where
      "tasks_update (b_subjectId b) (blocker_patch (deriveBlockerField SkTask (b_subjectId b) (w_db w1))) w1 = (Inr t', wa)"
      by (auto simp: fin_def andThen_eq_Inr tasks.get_eq tasks1 id)
    from task_blocker_update_Inr [OF this] task True show ?thesis
      by (auto simp: tasks1)
  next
    case False
    then have "wa = w1"
      using fin by (auto simp: fin_def andThen_eq_Inr tasks.get_eq tasks1 split: option.splits if_splits)
    then show ?thesis
      using False b'(4) by auto
  qed
  show ?thesis
    by (rule that [of b ts w1]) (use b b' r rem fin' w' in simp_all)
qed

text \<open>
  Resolving a blocker stamps an open row once, and changes no status: every task and phase keeps
  its status, a nonterminal task's blocker field follows the remaining rows, and \<open>clear\<close> says
  that no unresolved row is left on the subject.
\<close>

theorem resolve_changes_no_status:
  assumes "resolveBlocker actor bid detail w = (Inr r, w')"
  shows "\<exists>b. blocker_get bid (w_db w) = Some b \<and> b_resolvedAt b = None \<and>
     blocker_get bid (w_db w') = Some (rs_blocker r) \<and> b_resolvedAt (rs_blocker r) \<noteq> None \<and>
     db_phases (w_db w') = db_phases (w_db w) \<and>
     (\<forall>i. map_option t_status (tbl_get t_id i (db_tasks (w_db w'))) =
          map_option t_status (tbl_get t_id i (db_tasks (w_db w)))) \<and>
     (rs_clear r \<longleftrightarrow> unresolvedForSubject (b_subjectKind b) (b_subjectId b) (w_db w') = []) \<and>
     (b_subjectKind b = SkTask \<longrightarrow> (\<forall>t. tbl_get t_id (b_subjectId b) (db_tasks (w_db w')) = Some t \<and>
        t_status t \<notin> {Done, Cancelled} \<longrightarrow> t_blocker t = deriveBlockerField SkTask (t_id t) (w_db w')))"
proof -
  from assms obtain b ts and w1 :: world where R: "blocker_get bid (w_db w) = Some b" "b_resolvedAt b = None"
    "rs_blocker r = b\<lparr>b_resolvedAt := Some ts, b_resolvedBy := Some (actor_text actor),
       b_resolutionDetail := Some detail\<rparr>"
    "w_db w1 = (w_db w)\<lparr>db_blockers := tbl_put b_blockerId (rs_blocker r) (db_blockers (w_db w))\<rparr>"
    "rs_remaining r = unresolvedForSubject (b_subjectKind b) (b_subjectId b) (w_db w1)"
    "rs_clear r \<longleftrightarrow> rs_remaining r = []"
    and fin: "(b_subjectKind b = SkTask \<and> (\<exists>task. tbl_get t_id (b_subjectId b) (db_tasks (w_db w)) = Some task \<and>
        t_status task \<notin> {Done, Cancelled} \<and> (\<exists>ts row t'.
        t' = task\<lparr>t_blocker := deriveBlockerField SkTask (b_subjectId b) (w_db w1), t_updatedAt := ts\<rparr> \<and>
        w_db w' = (w_db w1)\<lparr>db_tasks := tbl_put t_id t' (db_tasks (w_db w1)),
           db_audit := db_audit (w_db w1) @ [row]\<rparr> \<and> w_pending w' = None))) \<or>
     (w_db w' = w_db w1 \<and> w_pending w' = w_pending w \<and>
        (b_subjectKind b = SkTask \<longrightarrow> (\<forall>task. tbl_get t_id (b_subjectId b) (db_tasks (w_db w)) = Some task \<longrightarrow>
           t_status task \<in> {Done, Cancelled})))"
    by (rule resolveBlocker_Inr) blast
  have bl: "db_blockers (w_db w') = db_blockers (w_db w1)" "db_phases (w_db w') = db_phases (w_db w)"
    using fin R(4) by auto
  have "tbl_get b_blockerId bid (db_blockers (w_db w1)) = Some (rs_blocker r)"
    using R(1,3) tbl_get_key [of b_blockerId bid "db_blockers (w_db w)" b]
    by (simp add: R(4) tbl_get_put blocker_get_def)
  then have row: "blocker_get bid (w_db w') = Some (rs_blocker r)"
    by (simp add: blocker_get_def bl(1))
  have clear: "rs_clear r \<longleftrightarrow> unresolvedForSubject (b_subjectKind b) (b_subjectId b) (w_db w') = []"
    using R(5,6) bl(1) by (simp add: unresolvedForSubject_def)
  have same: "deriveBlockerField SkTask i (w_db w') = deriveBlockerField SkTask i (w_db w1)" for i
    by (rule deriveBlockerField_cong) (rule bl(1))
  have tasks1: "db_tasks (w_db w1) = db_tasks (w_db w)"
    by (simp add: R(4))
  have status: "\<forall>i. map_option t_status (tbl_get t_id i (db_tasks (w_db w'))) =
          map_option t_status (tbl_get t_id i (db_tasks (w_db w)))"
    using fin
  proof (elim disjE conjE exE)
    fix task ts row t'
    assume task: "tbl_get t_id (b_subjectId b) (db_tasks (w_db w)) = Some task"
      and t': "t' = task\<lparr>t_blocker := deriveBlockerField SkTask (b_subjectId b) (w_db w1), t_updatedAt := ts\<rparr>"
      and db: "w_db w' = (w_db w1)\<lparr>db_tasks := tbl_put t_id t' (db_tasks (w_db w1)),
           db_audit := db_audit (w_db w1) @ [row]\<rparr>"
    have "t_id task = b_subjectId b"
      using task by (rule tbl_get_key)
    with task show ?thesis
      unfolding db by (auto simp: tbl_get_put t' tasks1)
  qed (simp add: tasks1)
  have blk: "t_blocker t = deriveBlockerField SkTask (t_id t) (w_db w')"
    if sk: "b_subjectKind b = SkTask" and t: "tbl_get t_id (b_subjectId b) (db_tasks (w_db w')) = Some t"
      "t_status t \<notin> {Done, Cancelled}" for t
    using fin
  proof (elim disjE conjE exE)
    fix task ts row t'
    assume task: "tbl_get t_id (b_subjectId b) (db_tasks (w_db w)) = Some task"
      and t': "t' = task\<lparr>t_blocker := deriveBlockerField SkTask (b_subjectId b) (w_db w1), t_updatedAt := ts\<rparr>"
      and db: "w_db w' = (w_db w1)\<lparr>db_tasks := tbl_put t_id t' (db_tasks (w_db w1)),
           db_audit := db_audit (w_db w1) @ [row]\<rparr>"
    have id: "t_id task = b_subjectId b"
      using task by (rule tbl_get_key)
    have "t = t'"
      using t(1) task unfolding db by (simp add: tbl_get_put t' id tasks1)
    then show ?thesis
      by (simp add: t' id same)
  next
    assume "w_db w' = w_db w1"
      "b_subjectKind b = SkTask \<longrightarrow> (\<forall>task. tbl_get t_id (b_subjectId b) (db_tasks (w_db w)) = Some task \<longrightarrow>
           t_status task \<in> {Done, Cancelled})"
    then show ?thesis
      using sk t by (simp add: tasks1)
  qed
  from status blk have "(\<forall>i. map_option t_status (tbl_get t_id i (db_tasks (w_db w'))) =
          map_option t_status (tbl_get t_id i (db_tasks (w_db w)))) \<and>
     (b_subjectKind b = SkTask \<longrightarrow> (\<forall>t. tbl_get t_id (b_subjectId b) (db_tasks (w_db w')) = Some t \<and>
        t_status t \<notin> {Done, Cancelled} \<longrightarrow> t_blocker t = deriveBlockerField SkTask (t_id t) (w_db w')))"
    by blast
  with R(1-3) row bl(2) clear show ?thesis
    by auto
qed

definition fx_blocked_world :: world where
  "fx_blocked_world = snd (raiseTaskBlocker fx_raise ''t1'' (fx_world (fx_db Running PgRunning None)))"

lemma fx_resolve_runs: "\<not> isl (fst (resolveBlocker fx_engine [] ''done'' fx_blocked_world))"
  by code_simp

theorem resolve_changes_no_status_witness:
  "\<exists>r w'. resolveBlocker fx_engine [] ''done'' fx_blocked_world = (Inr r, w') \<and>
     b_resolvedAt (rs_blocker r) \<noteq> None"
proof -
  obtain r w' where run: "resolveBlocker fx_engine [] ''done'' fx_blocked_world = (Inr r, w')"
    using accepted_run [OF fx_resolve_runs] by blast
  from resolve_changes_no_status [OF run] show ?thesis
    using run by auto
qed

section \<open>Where the comments promise more\<close>

text \<open>
  A phase blocker is inserted by \<open>raisePhaseBlocker\<close> and again by the transition it requests: one
  call leaves two open rows.
\<close>

lemma phase_blocker_raised_twice:
  "length (unresolvedForSubject SkPhase ''p'' (w_db (snd (raisePhaseBlocker fx_raise ''p''
     (fx_world (fx_db Running PgRunning None)))))) = 2"
  by code_simp

text \<open>
  Every refused request is said to append a rejection row. A refusal inside \<open>raiseTaskBlocker\<close>,
  here for missing evidence, is appended in the transaction that is then rolled back.
\<close>

lemma nested_refusal_leaves_no_event:
  "isl (fst (raiseTaskBlocker (fx_raise\<lparr>ro_evidenceRefs := Some []\<rparr>) ''t1''
       (fx_world (fx_db Running PgRunning None)))) \<and>
   db_events (w_db (snd (raiseTaskBlocker (fx_raise\<lparr>ro_evidenceRefs := Some []\<rparr>) ''t1''
       (fx_world (fx_db Running PgRunning None))))) = []"
  by code_simp

end
