(* ===== verification/Graph.thy ===== *)
theory Graph
  imports StoreRecords
begin

text \<open>
  \<open>src/workflow/graph.ts\<close>: the depth-first search with an explicit stack that reports dependency
  cycles and an order, and the validation, ready set and topological order built on it. The
  search is one step function iterated by a terminating loop; its invariant gives the cycles'
  soundness, completeness and the order's correctness.
\<close>

section \<open>The search\<close>

type_synonym dependency_edge = "string \<times> string list"

datatype colour = White | Grey | Black

text \<open>
  \<open>new Map(nodes.map(n => [n.id, n]))\<close>: a later node with the same id wins. Dependencies on
  unknown ids are ignored. The stack has its top first; the path is in the source's order.
\<close>

definition by_id :: "dependency_edge list \<Rightarrow> string \<Rightarrow> string list option" where
  "by_id nodes = map_of (rev nodes)"

definition known_deps :: "dependency_edge list \<Rightarrow> string \<Rightarrow> string list" where
  "known_deps nodes v =
     (case by_id nodes v of None \<Rightarrow> [] | Some ds \<Rightarrow> filter (\<lambda>d. by_id nodes d \<noteq> None) ds)"

record dfs =
  df_colour :: "string \<Rightarrow> colour"
  df_cycles :: "string list list"
  df_seenCycle :: "string list"
  df_order :: "string list"
  df_path :: "string list"
  df_stack :: "(string \<times> nat) list"

definition canonicalCycleKey :: "string list \<Rightarrow> string" where
  "canonicalCycleKey cycle =
     (if cycle = [] then []
      else let m = hd (sort cycle)
           in join_str ''>'' (dropWhile (\<lambda>x. x \<noteq> m) cycle @ takeWhile (\<lambda>x. x \<noteq> m) cycle))"

definition path_from :: "string \<Rightarrow> string list \<Rightarrow> string list" where
  "path_from dep path = (if dep \<in> set path then dropWhile (\<lambda>x. x \<noteq> dep) path else path)"

definition note_cycle :: "string \<Rightarrow> dfs \<Rightarrow> dfs" where
  "note_cycle dep st =
     (let cycle = path_from dep (df_path st); key = canonicalCycleKey cycle
      in if key \<in> set (df_seenCycle st) then st
         else st\<lparr>df_seenCycle := key # df_seenCycle st, df_cycles := df_cycles st @ [cycle]\<rparr>)"

definition dfs_step :: "dependency_edge list \<Rightarrow> dfs \<Rightarrow> dfs" where
  "dfs_step nodes st =
     (case df_stack st of
        [] \<Rightarrow> st
      | (v, next) # below \<Rightarrow>
          let deps = known_deps nodes v in
          if next < length deps then
            let dep = deps ! next; st = st\<lparr>df_stack := (v, Suc next) # below\<rparr>
            in case df_colour st dep of
                 Grey \<Rightarrow> note_cycle dep st
               | White \<Rightarrow> st\<lparr>df_colour := (df_colour st)(dep := Grey), df_path := df_path st @ [dep],
                             df_stack := (dep, 0) # df_stack st\<rparr>
               | Black \<Rightarrow> st
          else st\<lparr>df_colour := (df_colour st)(v := Black), df_order := df_order st @ [v],
                  df_path := butlast (df_path st), df_stack := below\<rparr>)"

text \<open>Termination: a step discovers a white node, or consumes a dependency or a frame.\<close>

definition white_count :: "dependency_edge list \<Rightarrow> dfs \<Rightarrow> nat" where
  "white_count nodes st = card {v \<in> fst ` set nodes. df_colour st v = White}"

definition stack_weight :: "dependency_edge list \<Rightarrow> dfs \<Rightarrow> nat" where
  "stack_weight nodes st =
     (\<Sum>(v, n) \<leftarrow> df_stack st. Suc (length (known_deps nodes v) - n))"

lemma known_deps_known: "d \<in> set (known_deps nodes v) \<Longrightarrow> d \<in> fst ` set nodes"
  by (auto simp: known_deps_def by_id_def map_of_eq_None_iff split: option.splits)

lemma known_deps_source:
  assumes "d \<in> set (known_deps nodes v)" shows "v \<in> fst ` set nodes"
proof -
  have "map_of (rev nodes) v \<noteq> None"
    using assms by (cases "map_of (rev nodes) v") (simp_all add: known_deps_def by_id_def)
  then obtain ds where "map_of (rev nodes) v = Some ds"
    by blast
  then have "(v, ds) \<in> set nodes"
    using map_of_SomeD by fastforce
  then show ?thesis by force
qed

lemma note_cycle_frame [simp]:
  "df_colour (note_cycle dep st) = df_colour st" "df_order (note_cycle dep st) = df_order st"
  "df_path (note_cycle dep st) = df_path st" "df_stack (note_cycle dep st) = df_stack st"
  by (simp_all add: note_cycle_def Let_def)

lemma white_count_grey:
  assumes "df_colour st d = White" and "d \<in> fst ` set nodes" and "c \<noteq> White"
  shows "white_count nodes (st\<lparr>df_colour := (df_colour st)(d := c), df_path := p, df_stack := s\<rparr>) <
     white_count nodes st"
proof -
  have "{v \<in> fst ` set nodes. ((df_colour st)(d := c)) v = White} \<subset>
      {v \<in> fst ` set nodes. df_colour st v = White}"
    using assms by (auto split: if_splits)
  then show ?thesis
    unfolding white_count_def by (simp add: psubset_card_mono)
qed

lemma white_count_black:
  "white_count nodes (st\<lparr>df_colour := (df_colour st)(v := Black), df_order := r, df_path := p,
     df_stack := s\<rparr>) \<le> white_count nodes st"
  unfolding white_count_def by (rule card_mono) auto

lemma weights_frame [simp]:
  "white_count nodes (note_cycle d st) = white_count nodes st"
  "stack_weight nodes (note_cycle d st) = stack_weight nodes st"
  "white_count nodes (st\<lparr>df_stack := s\<rparr>) = white_count nodes st"
  by (simp_all add: white_count_def stack_weight_def)

lemma dfs_step_decreases:
  assumes "df_stack st \<noteq> []"
  shows "(dfs_step nodes st, st) \<in> measures [white_count nodes, stack_weight nodes]"
proof -
  obtain v n below where stack: "df_stack st = (v, n) # below"
    using assms by (cases "df_stack st") auto
  let ?deps = "known_deps nodes v"
  let ?adv = "st\<lparr>df_stack := (v, Suc n) # below\<rparr>"
  show ?thesis
  proof (cases "n < length ?deps")
    case False
    then show ?thesis
      using white_count_black [where nodes = nodes and st = st and v = v]
      by (auto simp: dfs_step_def stack stack_weight_def Let_def le_less)
  next
    case True
    have dep: "?deps ! n \<in> fst ` set nodes"
      using True by (intro known_deps_known [where v = v] nth_mem)
    have adv: "stack_weight nodes ?adv < stack_weight nodes st"
      using True by (simp add: stack_weight_def stack)
    show ?thesis
    proof (cases "df_colour st (?deps ! n)")
      case White
      then show ?thesis
        using True white_count_grey [OF White dep, where c = Grey]
        by (simp add: dfs_step_def stack Let_def)
    next
      case Grey
      then show ?thesis
        using True adv by (simp add: dfs_step_def stack Let_def)
    next
      case Black
      then show ?thesis
        using True adv by (simp add: dfs_step_def stack Let_def)
    qed
  qed
qed

function dfs_loop :: "dependency_edge list \<Rightarrow> dfs \<Rightarrow> dfs" where
  "dfs_loop nodes st = (if df_stack st = [] then st else dfs_loop nodes (dfs_step nodes st))"
  by pat_completeness auto
termination
  by (relation "measures [\<lambda>(ns, s). white_count ns s, \<lambda>(ns, s). stack_weight ns s]")
    (use dfs_step_decreases in simp_all)

declare dfs_loop.simps [simp del]

definition dfs_root :: "dependency_edge list \<Rightarrow> dfs \<Rightarrow> dependency_edge \<Rightarrow> dfs" where
  "dfs_root nodes st n =
     (if df_colour st (fst n) \<noteq> White then st
      else dfs_loop nodes
        (st\<lparr>df_colour := (df_colour st)(fst n := Grey), df_path := [fst n],
            df_stack := [(fst n, 0)]\<rparr>))"

definition dfs_init :: dfs where
  "dfs_init = \<lparr>df_colour = (\<lambda>_. White), df_cycles = [], df_seenCycle = [], df_order = [],
     df_path = [], df_stack = []\<rparr>"

definition dfs_all :: "dependency_edge list \<Rightarrow> dfs" where
  "dfs_all nodes = foldl (dfs_root nodes) dfs_init nodes"

text \<open>The result is \<open>{ cycles, order }\<close>.\<close>

definition findGraphCycles :: "dependency_edge list \<Rightarrow> string list list \<times> string list" where
  "findGraphCycles nodes = (df_cycles (dfs_all nodes), df_order (dfs_all nodes))"

section \<open>The graph and what the search promises about it\<close>

definition dep_edges :: "dependency_edge list \<Rightarrow> (string \<times> string) set" where
  "dep_edges nodes = {(v, d). d \<in> set (known_deps nodes v)}"

definition genuine_cycle :: "dependency_edge list \<Rightarrow> string list \<Rightarrow> bool" where
  "genuine_cycle nodes c \<longleftrightarrow>
     c \<noteq> [] \<and> distinct c \<and> successively (\<lambda>u v. (u, v) \<in> dep_edges nodes) c \<and>
     (last c, hd c) \<in> dep_edges nodes"

definition deps_before :: "dependency_edge list \<Rightarrow> string list \<Rightarrow> bool" where
  "deps_before nodes xs \<longleftrightarrow>
     (\<forall>i < length xs. set (known_deps nodes (xs ! i)) \<subseteq> set (take i xs))"

lemma deps_before_Nil [simp]: "deps_before nodes []"
  by (simp add: deps_before_def)

lemma deps_before_snoc:
  "deps_before nodes (xs @ [v]) \<longleftrightarrow> deps_before nodes xs \<and> set (known_deps nodes v) \<subseteq> set xs"
  by (auto simp: deps_before_def nth_append less_Suc_eq)

lemma successively_trancl:
  assumes "successively (\<lambda>u v. (u, v) \<in> R) (x # xs)"
  shows "(x, last (x # xs)) \<in> R\<^sup>*"
  using assms
proof (induction xs arbitrary: x)
  case (Cons y ys)
  then show ?case by (auto intro: converse_rtrancl_into_rtrancl)
qed simp

lemma genuine_cycle_not_acyclic: "genuine_cycle nodes c \<Longrightarrow> \<not> acyclic (dep_edges nodes)"
proof -
  assume g: "genuine_cycle nodes c"
  then obtain x xs where c: "c = x # xs"
    by (cases c) (auto simp: genuine_cycle_def)
  with g have "(x, last c) \<in> (dep_edges nodes)\<^sup>*" and "(last c, x) \<in> dep_edges nodes"
    using successively_trancl [of "dep_edges nodes" x xs] by (auto simp: genuine_cycle_def)
  then have "(x, x) \<in> (dep_edges nodes)\<^sup>+"
    by (rule rtrancl_into_trancl1)
  then show ?thesis by (auto simp: acyclic_def)
qed

lemma deps_before_acyclic:
  assumes "deps_before nodes xs" and "fst ` set nodes \<subseteq> set xs" and "distinct xs"
  shows "acyclic (dep_edges nodes)"
proof -
  define pos where "pos v = (THE i. i < length xs \<and> xs ! i = v)" for v
  have pos: "pos (xs ! i) = i" if "i < length xs" for i
    using that assms(3) by (auto simp: pos_def nth_eq_iff_index_eq)
  have "(d, v) \<in> measure pos" if "(v, d) \<in> dep_edges nodes" for v d
  proof -
    have d: "d \<in> set (known_deps nodes v)"
      using that by (simp add: dep_edges_def)
    then obtain i where i: "i < length xs" "xs ! i = v"
      using known_deps_source assms(2) by (metis in_set_conv_nth subsetD)
    with d assms(1) have "d \<in> set (take i xs)"
      by (auto simp: deps_before_def)
    then obtain j where j: "j < i" "xs ! j = d"
      using i(1) by (auto simp: in_set_conv_nth)
    show ?thesis using pos i j by auto
  qed
  then have "(dep_edges nodes)\<inverse> \<subseteq> measure pos"
    by auto
  then have "acyclic ((dep_edges nodes)\<inverse>)"
    using wf_measure wf_subset wf_acyclic by blast
  then show ?thesis by simp
qed

section \<open>The invariant of the search\<close>

fun frames_ok :: "dependency_edge list \<Rightarrow> (string \<times> nat) list \<Rightarrow> bool" where
  "frames_ok nodes [] = True"
| "frames_ok nodes [(v, n)] = (n \<le> length (known_deps nodes v))"
| "frames_ok nodes ((v, n) # (w, m) # fs) =
     (n \<le> length (known_deps nodes v) \<and> 0 < m \<and> m \<le> length (known_deps nodes w) \<and>
      known_deps nodes w ! (m - 1) = v \<and> frames_ok nodes ((w, m) # fs))"

fun frames_done :: "dependency_edge list \<Rightarrow> string set \<Rightarrow> (string \<times> nat) list \<Rightarrow> bool" where
  "frames_done nodes B [] = True"
| "frames_done nodes B ((v, n) # fs) =
     (set (take n (known_deps nodes v)) \<subseteq> B \<and>
      (\<forall>(w, m) \<in> set fs. set (take (m - 1) (known_deps nodes w)) \<subseteq> B))"

definition dfs_inv :: "dependency_edge list \<Rightarrow> dfs \<Rightarrow> bool" where
  "dfs_inv nodes st \<longleftrightarrow>
     df_path st = rev (map fst (df_stack st)) \<and>
     distinct (df_path st @ df_order st) \<and>
     set (df_path st @ df_order st) \<subseteq> fst ` set nodes \<and>
     (\<forall>v. df_colour st v = Grey \<longleftrightarrow> v \<in> set (df_path st)) \<and>
     (\<forall>v. df_colour st v = Black \<longleftrightarrow> v \<in> set (df_order st)) \<and>
     frames_ok nodes (df_stack st) \<and>
     (\<forall>c \<in> set (df_cycles st). genuine_cycle nodes c) \<and>
     (df_cycles st = [] \<longrightarrow> df_seenCycle st = [] \<and> deps_before nodes (df_order st) \<and>
        frames_done nodes (set (df_order st)) (df_stack st))"

lemma frames_ok_Cons_D: "frames_ok nodes (f # fs) \<Longrightarrow> frames_ok nodes fs"
  by (cases "(nodes, f # fs)" rule: frames_ok.cases) auto

lemma frames_ok_advance:
  "frames_ok nodes ((v, n) # fs) \<Longrightarrow> n < length (known_deps nodes v) \<Longrightarrow> frames_ok nodes ((v, Suc n) # fs)"
  by (cases fs) auto

lemma frames_ok_push:
  assumes "frames_ok nodes ((v, n) # fs)" and "n < length (known_deps nodes v)"
  shows "frames_ok nodes ((known_deps nodes v ! n, 0) # (v, Suc n) # fs)"
  using assms frames_ok_advance by (auto simp: Suc_le_eq)

lemma frames_path_walk:
  "frames_ok nodes fs \<Longrightarrow> successively (\<lambda>u v. (u, v) \<in> dep_edges nodes) (rev (map fst fs))"
proof (induction nodes fs rule: frames_ok.induct)
  case (3 nodes v n w m fs)
  then have "(w, v) \<in> dep_edges nodes"
    by (auto simp: dep_edges_def intro: nth_mem)
  with 3 show ?case by (auto simp: successively_append_iff)
qed auto

lemma frames_done_mono:
  "frames_done nodes B fs \<Longrightarrow> B \<subseteq> B' \<Longrightarrow> frames_done nodes B' fs"
  by (cases "(nodes, B, fs)" rule: frames_done.cases) fastforce+

lemma frames_done_advance:
  assumes "frames_done nodes B ((v, n) # fs)" and "n < length (known_deps nodes v)"
    and "known_deps nodes v ! n \<in> B"
  shows "frames_done nodes B ((v, Suc n) # fs)"
  using assms by (auto simp: take_Suc_conv_app_nth)

lemma frames_done_push:
  assumes "frames_done nodes B ((v, n) # fs)"
  shows "frames_done nodes B ((d, 0) # (v, Suc n) # fs)"
  using assms by auto

lemma frames_done_pop:
  assumes "frames_done nodes B ((v, n) # fs)" and "frames_ok nodes ((v, n) # fs)"
  shows "frames_done nodes (insert v B) fs"
proof (cases fs)
  case (Cons f fs')
  obtain w m where f: "f = (w, m)" by (cases f)
  have m: "0 < m" "m \<le> length (known_deps nodes w)" "known_deps nodes w ! (m - 1) = v"
    using assms(2) by (auto simp: Cons f)
  have "take m (known_deps nodes w) = take (m - 1) (known_deps nodes w) @ [v]"
    using m take_Suc_conv_app_nth [of "m - 1" "known_deps nodes w"] by auto
  then show ?thesis
    using assms(1) by (fastforce simp: Cons f)
qed simp

lemma path_from_cycle:
  assumes walk: "successively (\<lambda>u v. (u, v) \<in> dep_edges nodes) path" and "distinct path"
    and "d \<in> set path" and "(last path, d) \<in> dep_edges nodes"
  shows "genuine_cycle nodes (path_from d path)"
proof -
  let ?c = "dropWhile (\<lambda>x. x \<noteq> d) path"
  obtain pre where pre: "path = pre @ ?c"
    by (metis takeWhile_dropWhile_id)
  have ne: "?c \<noteq> []"
    using assms(3) by (simp add: dropWhile_eq_Nil_conv)
  then have hd: "hd ?c = d"
    using hd_dropWhile by blast
  have "last ?c = last path"
    using ne pre by (metis last_appendR)
  moreover have "successively (\<lambda>u v. (u, v) \<in> dep_edges nodes) ?c"
    using walk pre by (metis successively_append_iff)
  ultimately show ?thesis
    using assms ne hd by (simp add: genuine_cycle_def path_from_def)
qed

lemma dfs_invI:
  assumes "df_path st = rev (map fst (df_stack st))"
    and "distinct (df_path st @ df_order st)"
    and "set (df_path st @ df_order st) \<subseteq> fst ` set nodes"
    and "\<And>v. df_colour st v = Grey \<longleftrightarrow> v \<in> set (df_path st)"
    and "\<And>v. df_colour st v = Black \<longleftrightarrow> v \<in> set (df_order st)"
    and "frames_ok nodes (df_stack st)"
    and "\<And>c. c \<in> set (df_cycles st) \<Longrightarrow> genuine_cycle nodes c"
    and "df_cycles st = [] \<Longrightarrow> df_seenCycle st = [] \<and> deps_before nodes (df_order st) \<and>
        frames_done nodes (set (df_order st)) (df_stack st)"
  shows "dfs_inv nodes st"
  using assms unfolding dfs_inv_def by blast

lemma dfs_invD:
  assumes "dfs_inv nodes st"
  shows "df_path st = rev (map fst (df_stack st))"
    and "distinct (df_path st @ df_order st)"
    and "set (df_path st @ df_order st) \<subseteq> fst ` set nodes"
    and "df_colour st v = Grey \<longleftrightarrow> v \<in> set (df_path st)"
    and "df_colour st v = Black \<longleftrightarrow> v \<in> set (df_order st)"
    and "frames_ok nodes (df_stack st)"
    and "c \<in> set (df_cycles st) \<Longrightarrow> genuine_cycle nodes c"
    and "df_cycles st = [] \<Longrightarrow> df_seenCycle st = [] \<and> deps_before nodes (df_order st) \<and>
        frames_done nodes (set (df_order st)) (df_stack st)"
  using assms unfolding dfs_inv_def by blast+

text \<open>One lemma per way the loop body ends.\<close>

lemma dfs_inv_note:
  assumes inv: "dfs_inv nodes st" and stack: "df_stack st = (v, n) # fs"
    and n: "n < length (known_deps nodes v)"
    and grey: "df_colour st (known_deps nodes v ! n) = Grey"
  shows "dfs_inv nodes (note_cycle (known_deps nodes v ! n) (st\<lparr>df_stack := (v, Suc n) # fs\<rparr>))"
proof -
  let ?d = "known_deps nodes v ! n"
  note I = dfs_invD [OF inv]
  have path: "df_path st = rev (map fst fs) @ [v]"
    using I(1) stack by simp
  have ok: "frames_ok nodes ((v, n) # fs)"
    using I(6) stack by simp
  have cyc: "genuine_cycle nodes (path_from ?d (df_path st))"
  proof (rule path_from_cycle)
    show "successively (\<lambda>u v. (u, v) \<in> dep_edges nodes) (df_path st)"
      using frames_path_walk [OF ok] path by simp
    show "distinct (df_path st)" using I(2) by simp
    show "?d \<in> set (df_path st)" using I(4) grey by blast
    show "(last (df_path st), ?d) \<in> dep_edges nodes"
      using n by (simp add: path dep_edges_def)
  qed
  show ?thesis
  proof (rule dfs_invI)
    show "\<And>c. c \<in> set (df_cycles (note_cycle ?d (st\<lparr>df_stack := (v, Suc n) # fs\<rparr>))) \<Longrightarrow>
        genuine_cycle nodes c"
      using I(7) cyc by (auto simp: note_cycle_def Let_def split: if_splits)
    show "df_cycles (note_cycle ?d (st\<lparr>df_stack := (v, Suc n) # fs\<rparr>)) = [] \<Longrightarrow>
        df_seenCycle (note_cycle ?d (st\<lparr>df_stack := (v, Suc n) # fs\<rparr>)) = [] \<and>
        deps_before nodes (df_order (note_cycle ?d (st\<lparr>df_stack := (v, Suc n) # fs\<rparr>))) \<and>
        frames_done nodes (set (df_order (note_cycle ?d (st\<lparr>df_stack := (v, Suc n) # fs\<rparr>))))
          (df_stack (note_cycle ?d (st\<lparr>df_stack := (v, Suc n) # fs\<rparr>)))"
      using I(8) by (auto simp: note_cycle_def Let_def split: if_splits)
  qed (use I(2-5) path frames_ok_advance [OF ok n] in auto)
qed

lemma dfs_inv_push:
  assumes inv: "dfs_inv nodes st" and stack: "df_stack st = (v, n) # fs"
    and n: "n < length (known_deps nodes v)"
    and white: "df_colour st (known_deps nodes v ! n) = White"
  shows "dfs_inv nodes (st\<lparr>df_colour := (df_colour st)(known_deps nodes v ! n := Grey),
      df_path := df_path st @ [known_deps nodes v ! n],
      df_stack := (known_deps nodes v ! n, 0) # (v, Suc n) # fs\<rparr>)"
proof -
  let ?d = "known_deps nodes v ! n"
  note I = dfs_invD [OF inv]
  have fresh: "?d \<notin> set (df_path st)" "?d \<notin> set (df_order st)"
    using I(4) [of ?d] I(5) [of ?d] white by simp_all
  have known: "?d \<in> fst ` set nodes"
    using n by (intro known_deps_known [where v = v] nth_mem)
  have push: "frames_ok nodes ((?d, 0) # (v, Suc n) # fs)"
    using frames_ok_push I(6) stack n by simp
  show ?thesis
  proof (rule dfs_invI, goal_cases)
    case (4 x)
    then show ?case using I(4) [of x] by simp
  next
    case (5 x)
    then show ?case using I(5) [of x] fresh by simp
  next
    case 8
    then show ?case using I(8) frames_done_push stack by simp
  qed (use I(1,2,3,7) stack fresh known push in auto)
qed

lemma dfs_inv_skip:
  assumes inv: "dfs_inv nodes st" and stack: "df_stack st = (v, n) # fs"
    and n: "n < length (known_deps nodes v)"
    and black: "df_colour st (known_deps nodes v ! n) = Black"
  shows "dfs_inv nodes (st\<lparr>df_stack := (v, Suc n) # fs\<rparr>)"
proof -
  note I = dfs_invD [OF inv]
  have "known_deps nodes v ! n \<in> set (df_order st)"
    using I(5) black by blast
  then have "df_cycles st = [] \<Longrightarrow> frames_done nodes (set (df_order st)) ((v, Suc n) # fs)"
    using I(8) stack frames_done_advance [of nodes _ v n fs] n by simp
  moreover have "frames_ok nodes ((v, Suc n) # fs)"
    using I(6) stack frames_ok_advance n by simp
  ultimately show ?thesis
    by (intro dfs_invI) (use I stack in simp_all)
qed

lemma dfs_inv_pop:
  assumes inv: "dfs_inv nodes st" and stack: "df_stack st = (v, n) # fs"
    and n: "\<not> n < length (known_deps nodes v)"
  shows "dfs_inv nodes (st\<lparr>df_colour := (df_colour st)(v := Black), df_order := df_order st @ [v],
      df_path := butlast (df_path st), df_stack := fs\<rparr>)"
proof -
  note I = dfs_invD [OF inv]
  have path: "df_path st = rev (map fst fs) @ [v]"
    using I(1) stack by simp
  have ok: "frames_ok nodes ((v, n) # fs)"
    using I(6) stack by simp
  have fin: "deps_before nodes (df_order st @ [v]) \<and> frames_done nodes (insert v (set (df_order st))) fs"
    if "df_cycles st = []"
  proof -
    have B: "deps_before nodes (df_order st)" "frames_done nodes (set (df_order st)) ((v, n) # fs)"
      using I(8) [OF that] stack by simp_all
    then have "set (known_deps nodes v) \<subseteq> set (df_order st)"
      using n by simp
    then show ?thesis
      using B(1) frames_done_pop [OF B(2) ok] by (simp add: deps_before_snoc)
  qed
  have v: "v \<notin> set (map fst fs)" "v \<notin> set (df_order st)"
    using I(2) path by auto
  show ?thesis
  proof (rule dfs_invI, goal_cases)
    case (4 x)
    then show ?case using I(4) [of x] path v by simp
  next
    case (5 x)
    then show ?case using I(5) [of x] by simp
  next
    case 8
    then show ?case using fin I(8) by simp
  qed (use I(2,3,7) path frames_ok_Cons_D [OF ok] in auto)
qed

lemma dfs_step_inv:
  assumes inv: "dfs_inv nodes st"
  shows "dfs_inv nodes (dfs_step nodes st)"
proof (cases "df_stack st")
  case (Cons f fs)
  obtain v n where stack: "df_stack st = (v, n) # fs"
    using Cons by (cases f) auto
  show ?thesis
  proof (cases "n < length (known_deps nodes v)")
    case True
    then show ?thesis
      using dfs_inv_note [OF inv stack True] dfs_inv_push [OF inv stack True]
        dfs_inv_skip [OF inv stack True]
      by (cases "df_colour st (known_deps nodes v ! n)") (simp_all add: dfs_step_def stack Let_def)
  next
    case False
    then show ?thesis
      using dfs_inv_pop [OF inv stack False] by (simp add: dfs_step_def stack Let_def)
  qed
qed (simp add: dfs_step_def inv)

lemma dfs_loop_inv:
  "dfs_inv nodes st \<Longrightarrow> dfs_inv nodes (dfs_loop nodes st) \<and> df_stack (dfs_loop nodes st) = []"
proof (induction nodes st rule: dfs_loop.induct)
  case (1 nodes st)
  then show ?case
    by (auto simp: dfs_loop.simps [of nodes st] dfs_step_inv)
qed

text \<open>What is discovered stays discovered, so an emptied stack leaves the root in the order.\<close>

lemma dfs_step_coloured: "df_colour st v \<noteq> White \<Longrightarrow> df_colour (dfs_step nodes st) v \<noteq> White"
  by (auto simp: dfs_step_def Let_def split: list.splits prod.splits colour.splits)

lemma dfs_loop_coloured: "df_colour st v \<noteq> White \<Longrightarrow> df_colour (dfs_loop nodes st) v \<noteq> White"
proof (induction nodes st rule: dfs_loop.induct)
  case (1 nodes st)
  then show ?case
    by (auto simp: dfs_loop.simps [of nodes st] dfs_step_coloured)
qed

definition between_roots :: "dependency_edge list \<Rightarrow> string set \<Rightarrow> dfs \<Rightarrow> bool" where
  "between_roots nodes B st \<longleftrightarrow> dfs_inv nodes st \<and> df_stack st = [] \<and> B \<subseteq> set (df_order st)"

lemma dfs_inv_start:
  assumes inv: "dfs_inv nodes st" and empty: "df_stack st = []"
    and white: "df_colour st r = White" and r: "r \<in> fst ` set nodes"
  shows "dfs_inv nodes (st\<lparr>df_colour := (df_colour st)(r := Grey), df_path := [r],
      df_stack := [(r, 0)]\<rparr>)"
proof -
  note I = dfs_invD [OF inv]
  have fresh: "r \<notin> set (df_order st)"
    using I(5) [of r] white by simp
  have path: "df_path st = []"
    using I(1) empty by simp
  show ?thesis
  proof (rule dfs_invI, goal_cases)
    case (4 x)
    then show ?case using I(4) [of x] path by simp
  next
    case (5 x)
    then show ?case using I(5) [of x] fresh by simp
  next
    case 8
    then show ?case using I(8) by simp
  qed (use I(2,3,7) fresh r path in auto)
qed

lemma dfs_root_between:
  assumes B: "between_roots nodes B st" and n: "n \<in> set nodes"
  shows "between_roots nodes (insert (fst n) B) (dfs_root nodes st n)"
proof -
  have inv: "dfs_inv nodes st" and empty: "df_stack st = []" and sub: "B \<subseteq> set (df_order st)"
    using B by (simp_all add: between_roots_def)
  have path: "df_path st = []"
    using dfs_invD(1) [OF inv] empty by simp
  show ?thesis
  proof (cases "df_colour st (fst n) = White")
    case False
    then have "fst n \<in> set (df_order st)"
      using dfs_invD(4,5) [OF inv, of "fst n"] path by (cases "df_colour st (fst n)") auto
    then show ?thesis
      using False inv empty sub by (simp add: between_roots_def dfs_root_def)
  next
    case True
    let ?st = "st\<lparr>df_colour := (df_colour st)(fst n := Grey), df_path := [fst n],
        df_stack := [(fst n, 0)]\<rparr>"
    let ?fin = "dfs_loop nodes ?st"
    have fin: "dfs_inv nodes ?fin" "df_stack ?fin = []"
      using dfs_loop_inv [OF dfs_inv_start [OF inv empty True]] n by simp_all
    then have "df_path ?fin = []"
      using dfs_invD(1) by fastforce
    then have black: "v \<in> set (df_order ?fin)" if "df_colour ?st v \<noteq> White" for v
      using dfs_loop_coloured [OF that, of nodes] dfs_invD(4,5) [OF fin(1), of v]
      by (cases "df_colour ?fin v") auto
    have "insert (fst n) B \<subseteq> set (df_order ?fin)"
    proof
      fix v assume "v \<in> insert (fst n) B"
      then have "df_colour ?st v \<noteq> White"
        using sub dfs_invD(5) [OF inv, of v] by auto
      then show "v \<in> set (df_order ?fin)" by (rule black)
    qed
    then show ?thesis
      using True fin by (simp add: between_roots_def dfs_root_def)
  qed
qed

lemma dfs_roots_between:
  "between_roots nodes B st \<Longrightarrow> set rs \<subseteq> set nodes \<Longrightarrow>
     between_roots nodes (B \<union> fst ` set rs) (foldl (dfs_root nodes) st rs)"
proof (induction rs arbitrary: B st)
  case (Cons r rs)
  have "between_roots nodes (insert (fst r) B) (dfs_root nodes st r)"
    using Cons.prems by (intro dfs_root_between) simp_all
  from Cons.IH [OF this] Cons.prems(2) show ?case
    by simp
qed simp

lemma dfs_all_between: "between_roots nodes (fst ` set nodes) (dfs_all nodes)"
proof -
  have "between_roots nodes {} dfs_init"
    by (simp add: between_roots_def dfs_init_def dfs_inv_def)
  from dfs_roots_between [OF this order_refl] show ?thesis
    by (simp add: dfs_all_def)
qed

lemmas findGraphCycles_defs = findGraphCycles_def between_roots_def

lemma search_order:
  "distinct (snd (findGraphCycles nodes)) \<and> set (snd (findGraphCycles nodes)) = fst ` set nodes"
  using dfs_all_between [of nodes] dfs_invD(2,3) [of nodes "dfs_all nodes"]
  by (auto simp: findGraphCycles_defs)

lemma search_sound: "c \<in> set (fst (findGraphCycles nodes)) \<Longrightarrow> genuine_cycle nodes c"
  using dfs_all_between [of nodes] dfs_invD(7) [of nodes "dfs_all nodes" c]
  by (auto simp: findGraphCycles_defs)

lemma search_clean: "fst (findGraphCycles nodes) = [] \<Longrightarrow> deps_before nodes (snd (findGraphCycles nodes))"
  using dfs_all_between [of nodes] dfs_invD(8) [of nodes "dfs_all nodes"]
  by (auto simp: findGraphCycles_defs)

lemma search_complete: "fst (findGraphCycles nodes) = [] \<longleftrightarrow> acyclic (dep_edges nodes)"
proof
  assume clean: "fst (findGraphCycles nodes) = []"
  show "acyclic (dep_edges nodes)"
    by (rule deps_before_acyclic [OF search_clean [OF clean]]) (simp_all add: search_order)
next
  assume ac: "acyclic (dep_edges nodes)"
  show "fst (findGraphCycles nodes) = []"
  proof (rule ccontr)
    assume "fst (findGraphCycles nodes) \<noteq> []"
    then have "hd (fst (findGraphCycles nodes)) \<in> set (fst (findGraphCycles nodes))"
      by simp
    from genuine_cycle_not_acyclic [OF search_sound [OF this]] ac show False
      by contradiction
  qed
qed

section \<open>Validation of the task graph\<close>

datatype graph_rule =
  Unknown_dependency | Self_dependency | Dependency_cycle | Forward_phase_dependency

text \<open>An issue is its rule, the task it names and, for a rule about one edge, the dependency; the
  message text is left out.\<close>

record graph_issue =
  gi_rule :: graph_rule
  gi_taskId :: string
  gi_dependsOn :: "string option"

record graph_validation =
  gv_ok :: bool
  gv_issues :: "graph_issue list"
  gv_cycles :: "string list list"
  gv_topologicalOrder :: "string list"

definition task_by_id :: "task list \<Rightarrow> string \<Rightarrow> task option" where
  "task_by_id tasks = map_of (rev (map (\<lambda>t. (t_id t, t)) tasks))"

definition phaseOrder :: "phase list \<Rightarrow> string \<Rightarrow> nat option" where
  "phaseOrder phases = map_of (rev (map (\<lambda>p. (ph_id p, ph_order p)) phases))"

definition edge_issue :: "task list \<Rightarrow> phase list \<Rightarrow> task \<Rightarrow> string \<Rightarrow> graph_issue list" where
  "edge_issue tasks phases task dep =
     (if dep = t_id task
      then [\<lparr>gi_rule = Self_dependency, gi_taskId = t_id task, gi_dependsOn = Some dep\<rparr>]
      else case task_by_id tasks dep of
        None \<Rightarrow> [\<lparr>gi_rule = Unknown_dependency, gi_taskId = t_id task, gi_dependsOn = Some dep\<rparr>]
      | Some depTask \<Rightarrow>
          (case (phaseOrder phases (t_phaseId task), phaseOrder phases (t_phaseId depTask)) of
             (Some here, Some there) \<Rightarrow>
               if here < there
               then [\<lparr>gi_rule = Forward_phase_dependency, gi_taskId = t_id task,
                      gi_dependsOn = Some dep\<rparr>]
               else []
           | _ \<Rightarrow> []))"

definition task_edges :: "task list \<Rightarrow> dependency_edge list" where
  "task_edges tasks = map (\<lambda>t. (t_id t, t_dependencies t)) tasks"

definition cycle_issue :: "string list \<Rightarrow> graph_issue" where
  "cycle_issue c = \<lparr>gi_rule = Dependency_cycle, gi_taskId = hd c, gi_dependsOn = None\<rparr>"

definition validateGraph :: "task list \<Rightarrow> phase list \<Rightarrow> graph_validation" where
  "validateGraph tasks phases =
     (let edges = concat (map (\<lambda>t. concat (map (edge_issue tasks phases t) (t_dependencies t))) tasks);
          (cycles, order) = findGraphCycles (task_edges tasks);
          issues = edges @ map cycle_issue cycles
      in \<lparr>gv_ok = (issues = []), gv_issues = issues, gv_cycles = cycles,
          gv_topologicalOrder = order\<rparr>)"

text \<open>\<open>readySet\<close> with its \<open>candidateStatuses\<close> option; \<open>None\<close> takes the default.\<close>

definition deps_done :: "task list \<Rightarrow> task \<Rightarrow> bool" where
  "deps_done tasks t \<longleftrightarrow>
     list_all (\<lambda>d. case task_by_id tasks d of None \<Rightarrow> False | Some x \<Rightarrow> t_status x = Done)
       (t_dependencies t)"

definition readySet :: "task list \<Rightarrow> task_status list option \<Rightarrow> string list" where
  "readySet tasks candidateStatuses =
     (let cand = (case candidateStatuses of None \<Rightarrow> [Proposed, Ready] | Some cs \<Rightarrow> cs);
          inCycle = set (concat (gv_cycles (validateGraph tasks [])))
      in map t_id (filter (\<lambda>t. t_status t \<in> set cand \<and> t_id t \<notin> inCycle \<and> deps_done tasks t) tasks))"

record topo_order =
  to_ok :: bool
  to_order :: "string list"
  to_cycles :: "string list list"

definition topoOrder :: "task list \<Rightarrow> topo_order" where
  "topoOrder tasks =
     (let graph = validateGraph tasks [] in
      if gv_cycles graph \<noteq> [] then \<lparr>to_ok = False, to_order = [], to_cycles = gv_cycles graph\<rparr>
      else \<lparr>to_ok = True, to_order = gv_topologicalOrder graph, to_cycles = []\<rparr>)"

text \<open>The graph the tasks mean, free of the search: a task waits for each dependency it lists.\<close>

definition waits_for :: "task list \<Rightarrow> (string \<times> string) set" where
  "waits_for tasks = {(t_id t, d) | t d. t \<in> set tasks \<and> d \<in> set (t_dependencies t)}"

definition distinct_ids :: "task list \<Rightarrow> bool" where
  "distinct_ids tasks \<longleftrightarrow> distinct (map t_id tasks)"

lemma task_by_id_Some: "task_by_id tasks i = Some t \<Longrightarrow> t \<in> set tasks \<and> t_id t = i"
  by (auto simp: task_by_id_def dest!: map_of_SomeD)

lemma task_by_id_None: "task_by_id tasks i = None \<longleftrightarrow> i \<notin> t_id ` set tasks"
  by (auto simp: task_by_id_def map_of_eq_None_iff image_image)

lemma task_by_id_in:
  "distinct_ids tasks \<Longrightarrow> t \<in> set tasks \<Longrightarrow> task_by_id tasks (t_id t) = Some t"
  unfolding task_by_id_def distinct_ids_def
  by (rule map_of_is_SomeI) (auto simp: rev_map [symmetric] comp_def)

lemma task_edges_ids [simp]: "fst ` set (task_edges tasks) = t_id ` set tasks"
  by (force simp: task_edges_def)

lemma by_id_task_edges:
  "by_id (task_edges tasks) i = map_option t_dependencies (task_by_id tasks i)"
  unfolding by_id_def task_edges_def task_by_id_def
  by (induction tasks) (auto simp: map_of_append map_add_def split: option.splits)

lemma known_task_deps:
  assumes "distinct_ids tasks" and "t \<in> set tasks"
  shows "known_deps (task_edges tasks) (t_id t) = filter (\<lambda>d. d \<in> t_id ` set tasks) (t_dependencies t)"
  using assms by (simp add: known_deps_def by_id_task_edges task_by_id_in task_by_id_None)

lemma dep_edges_tasks:
  assumes "distinct_ids tasks"
  shows "dep_edges (task_edges tasks) = waits_for tasks \<inter> UNIV \<times> t_id ` set tasks" (is "?L = ?R")
proof (rule set_eqI, rule iffI)
  fix e assume e: "e \<in> ?L"
  obtain v d where vd: "e = (v, d)" by (cases e)
  from e vd have d: "d \<in> set (known_deps (task_edges tasks) v)"
    by (simp add: dep_edges_def)
  then obtain t where "t \<in> set tasks" "v = t_id t"
    using known_deps_source [OF d] by auto
  with d show "e \<in> ?R"
    by (auto simp: known_task_deps [OF assms] vd waits_for_def)
next
  fix e assume "e \<in> ?R"
  then show "e \<in> ?L"
    by (auto simp: dep_edges_def waits_for_def known_task_deps [OF assms])
qed

lemma dep_edges_known:
  assumes "distinct_ids tasks" and "waits_for tasks \<subseteq> UNIV \<times> t_id ` set tasks"
  shows "dep_edges (task_edges tasks) = waits_for tasks"
  using dep_edges_tasks [OF assms(1)] assms(2) by (simp add: Int_absorb2)

lemma validateGraph_sel [simp]:
  "gv_cycles (validateGraph tasks phases) = fst (findGraphCycles (task_edges tasks))"
  "gv_topologicalOrder (validateGraph tasks phases) = snd (findGraphCycles (task_edges tasks))"
  by (simp_all add: validateGraph_def Let_def split: prod.splits)

definition phase_position :: "task list \<Rightarrow> phase list \<Rightarrow> string \<Rightarrow> nat option" where
  "phase_position tasks phases i =
     (case task_by_id tasks i of None \<Rightarrow> None | Some t \<Rightarrow> phaseOrder phases (t_phaseId t))"

definition runs_backwards :: "task list \<Rightarrow> phase list \<Rightarrow> string \<times> string \<Rightarrow> bool" where
  "runs_backwards tasks phases e \<longleftrightarrow>
     (\<exists>here there. phase_position tasks phases (fst e) = Some here \<and>
        phase_position tasks phases (snd e) = Some there \<and> here < there)"

lemma edge_issue_Nil:
  assumes "distinct_ids tasks" and "t \<in> set tasks"
  shows "edge_issue tasks phases t d = [] \<longleftrightarrow>
     d \<noteq> t_id t \<and> d \<in> t_id ` set tasks \<and> \<not> runs_backwards tasks phases (t_id t, d)"
  using assms task_by_id_None [of tasks d]
  by (auto simp: edge_issue_def runs_backwards_def phase_position_def task_by_id_in
      split: option.splits if_splits)

lemma waits_for_list:
  "waits_for tasks = set (concat (map (\<lambda>t. map (Pair (t_id t)) (t_dependencies t)) tasks))"
  by (auto simp: waits_for_def)

lemma waits_for_ball:
  "(\<forall>(i, d) \<in> waits_for tasks. P i d) \<longleftrightarrow>
     (\<forall>t \<in> set tasks. \<forall>d \<in> set (t_dependencies t). P (t_id t) d)"
  by (auto simp: waits_for_def)

lemma validateGraph_ok_unfold:
  assumes "distinct_ids tasks"
  shows "gv_ok (validateGraph tasks phases) \<longleftrightarrow>
     (\<forall>(i, d) \<in> waits_for tasks. d \<noteq> i \<and> d \<in> t_id ` set tasks \<and>
        \<not> runs_backwards tasks phases (i, d)) \<and>
     fst (findGraphCycles (task_edges tasks)) = []"
proof -
  have "gv_ok (validateGraph tasks phases) \<longleftrightarrow>
      (\<forall>t \<in> set tasks. \<forall>d \<in> set (t_dependencies t). edge_issue tasks phases t d = []) \<and>
      fst (findGraphCycles (task_edges tasks)) = []"
    by (simp add: validateGraph_def Let_def split_beta)
  also have "\<dots> \<longleftrightarrow> (\<forall>t \<in> set tasks. \<forall>d \<in> set (t_dependencies t).
        d \<noteq> t_id t \<and> d \<in> t_id ` set tasks \<and> \<not> runs_backwards tasks phases (t_id t, d)) \<and>
      fst (findGraphCycles (task_edges tasks)) = []"
    by (simp add: edge_issue_Nil [OF assms] cong: ball_cong)
  finally show ?thesis
    by (simp add: waits_for_ball)
qed

lemma acyclic_no_loop: "acyclic R \<Longrightarrow> (i, i) \<notin> R"
  by (auto simp: acyclic_def)

lemma finite_waits_for: "finite (waits_for tasks)"
proof -
  have "waits_for tasks = (\<Union>t \<in> set tasks. \<Union>d \<in> set (t_dependencies t). {(t_id t, d)})"
    by (auto simp: waits_for_def)
  then show ?thesis by simp
qed

lemma deps_done_iff:
  assumes "distinct_ids tasks"
  shows "deps_done tasks t \<longleftrightarrow>
     (\<forall>d \<in> set (t_dependencies t). \<exists>x \<in> set tasks. t_id x = d \<and> t_status x = Done)"
proof -
  have "(case task_by_id tasks d of None \<Rightarrow> False | Some x \<Rightarrow> t_status x = Done) \<longleftrightarrow>
      (\<exists>x \<in> set tasks. t_id x = d \<and> t_status x = Done)" for d
  proof (cases "task_by_id tasks d")
    case None
    then show ?thesis using task_by_id_None [of tasks d] by auto
  next
    case (Some y)
    have "x = y" if "x \<in> set tasks" "t_id x = d" for x
      using task_by_id_in [OF assms that(1)] that(2) Some by simp
    then show ?thesis
      using Some task_by_id_Some [OF Some] by auto
  qed
  then show ?thesis by (simp add: deps_done_def list_all_iff)
qed


definition ex_nodes :: "dependency_edge list" where
  "ex_nodes = [(''a'', [''b'', ''zz'']), (''b'', [''c'']), (''c'', [''a'']), (''d'', [''a''])]"

lemma ex_nodes_eval:
  "findGraphCycles ex_nodes = ([[''a'', ''b'', ''c'']], [''c'', ''b'', ''a'', ''d''])"
  by code_simp


text \<open>
  \<open>validateGraph\<close> accepts a set of tasks with distinct ids exactly when every dependency is a
  known task, the waits-for relation has no cycle, and no task waits for a task of a later phase.
\<close>

theorem validateGraph_ok_iff:
  assumes "distinct_ids tasks"
  shows "gv_ok (validateGraph tasks phases) \<longleftrightarrow>
     waits_for tasks \<subseteq> UNIV \<times> t_id ` set tasks \<and> acyclic (waits_for tasks) \<and>
     (\<forall>e \<in> waits_for tasks. \<not> runs_backwards tasks phases e)" (is "?ok \<longleftrightarrow> ?spec")
proof -
  have known: "acyclic (dep_edges (task_edges tasks)) \<longleftrightarrow> acyclic (waits_for tasks)"
    if "waits_for tasks \<subseteq> UNIV \<times> t_id ` set tasks"
    using dep_edges_known [OF assms that] by simp
  show ?thesis
  proof
    assume ?ok
    then have ok: "\<forall>(i, d) \<in> waits_for tasks. d \<in> t_id ` set tasks \<and> \<not> runs_backwards tasks phases (i, d)"
        "acyclic (dep_edges (task_edges tasks))"
      by (auto simp: validateGraph_ok_unfold [OF assms] search_complete)
    then have sub: "waits_for tasks \<subseteq> UNIV \<times> t_id ` set tasks" by auto
    have "\<not> runs_backwards tasks phases e" if "e \<in> waits_for tasks" for e
      using ok(1) that by (cases e) auto
    then show ?spec using sub ok(2) known [OF sub] by simp
  next
    assume spec: ?spec
    have "d \<noteq> i \<and> d \<in> t_id ` set tasks \<and> \<not> runs_backwards tasks phases (i, d)"
      if "(i, d) \<in> waits_for tasks" for i d
      using spec that acyclic_no_loop [of "waits_for tasks" i] by auto
    moreover have "acyclic (dep_edges (task_edges tasks))"
      using spec known by simp
    ultimately show ?ok
      by (auto simp: validateGraph_ok_unfold [OF assms] search_complete)
  qed
qed

definition ex_task :: "string \<Rightarrow> string list \<Rightarrow> task_status \<Rightarrow> task" where
  "ex_task i deps st =
     \<lparr>t_id = i, t_createdAt = [], t_updatedAt = [], t_workflowId = ''w'', t_phaseId = ''p'',
      t_revision = 0, t_goal = [], t_dependencies = deps,
      t_ownership = \<lparr>ow_paths = [], ow_components = []\<rparr>, t_acceptanceCriteria = [],
      t_checks = [], t_riskClass = RiskLow, t_status = st, t_blocker = None\<rparr>"

lemma ex_task_sel [simp]:
  "t_id (ex_task i deps st) = i" "t_dependencies (ex_task i deps st) = deps"
  "t_status (ex_task i deps st) = st"
  by (simp_all add: ex_task_def)

definition ex_tasks :: "task list" where
  "ex_tasks = [ex_task ''a'' [] Done, ex_task ''b'' [''a''] Ready, ex_task ''c'' [''b''] Proposed]"

lemma ex_tasks_distinct: "distinct_ids ex_tasks"
  by code_simp

lemma ex_tasks_waits: "waits_for ex_tasks = {(''b'', ''a''), (''c'', ''b'')}"
  by (simp add: waits_for_list ex_tasks_def)

lemma ex_tasks_known: "waits_for ex_tasks \<subseteq> UNIV \<times> t_id ` set ex_tasks"
  unfolding ex_tasks_waits by (simp add: ex_tasks_def)

lemma ex_tasks_ok: "gv_ok (validateGraph ex_tasks []) = True"
  by code_simp

lemma ex_tasks_acyclic: "acyclic (waits_for ex_tasks)"
  unfolding ex_tasks_waits by (rule acyclicI_order [where f = "\<lambda>x. x"]) auto

theorem validateGraph_ok_iff_witness:
  "acyclic (waits_for ex_tasks) \<and> gv_ok (validateGraph ex_tasks [])"
  using validateGraph_ok_iff [OF ex_tasks_distinct, of "[]"] ex_tasks_ok by simp

definition is_candidate :: "task_status list option \<Rightarrow> task \<Rightarrow> bool" where
  "is_candidate cs t \<longleftrightarrow>
     t_status t \<in> set (case cs of None \<Rightarrow> [Proposed, Ready] | Some xs \<Rightarrow> xs)"

definition on_reported_cycle :: "task list \<Rightarrow> string \<Rightarrow> bool" where
  "on_reported_cycle tasks i \<longleftrightarrow> (\<exists>c \<in> set (gv_cycles (validateGraph tasks [])). i \<in> set c)"

lemma in_readySet:
  assumes "distinct_ids tasks"
  shows "i \<in> set (readySet tasks cs) \<longleftrightarrow>
     \<not> on_reported_cycle tasks i \<and>
     (\<exists>t \<in> set tasks. t_id t = i \<and> is_candidate cs t \<and>
        (\<forall>d \<in> set (t_dependencies t). \<exists>x \<in> set tasks. t_id x = d \<and> t_status x = Done))"
  unfolding readySet_def Let_def is_candidate_def on_reported_cycle_def
  by (auto simp: deps_done_iff [OF assms])

lemma no_reported_cycle:
  assumes "distinct_ids tasks" and "acyclic (waits_for tasks)"
  shows "\<not> on_reported_cycle tasks i"
proof -
  have "acyclic (dep_edges (task_edges tasks))"
    using acyclic_subset [OF assms(2)] dep_edges_tasks [OF assms(1)] by blast
  then have "fst (findGraphCycles (task_edges tasks)) = []"
    by (simp add: search_complete)
  then show ?thesis
    by (simp add: on_reported_cycle_def)
qed

lemma in_filtered_image: "x \<in> f ` {y \<in> set ys. P y} \<longleftrightarrow> list_ex (\<lambda>y. f y = x \<and> P y) ys"
  by (auto simp: list_ex_iff)

text \<open>
  The ready set of an acyclic task graph is exactly the candidates (by default proposed or
  ready) all of whose dependencies exist and are done.
\<close>

theorem readySet_exact:
  assumes "distinct_ids tasks" and "acyclic (waits_for tasks)"
  shows "set (readySet tasks cs) =
     t_id ` {t \<in> set tasks. is_candidate cs t \<and>
        (\<forall>d \<in> set (t_dependencies t). \<exists>x \<in> set tasks. t_id x = d \<and> t_status x = Done)}"
  using in_readySet [OF assms(1), of _ cs] no_reported_cycle [OF assms] by auto

theorem readySet_exact_witness:
  "''b'' \<in> set (readySet ex_tasks None) \<and> ''c'' \<notin> set (readySet ex_tasks None)"
  unfolding readySet_exact [OF ex_tasks_distinct ex_tasks_acyclic] in_filtered_image
  by (simp add: ex_tasks_def is_candidate_def)

text \<open>
  C13. The ready set cannot run dry: while an acyclic graph whose dependencies are all known has
  a task that is not done, and every task that is not done is a candidate, some task is ready.
\<close>

theorem readySet_progress:
  assumes ids: "distinct_ids tasks" and known: "waits_for tasks \<subseteq> UNIV \<times> t_id ` set tasks"
    and acyclic: "acyclic (waits_for tasks)"
    and cand: "\<And>t. t \<in> set tasks \<Longrightarrow> t_status t \<noteq> Done \<Longrightarrow> is_candidate cs t"
    and left: "t0 \<in> set tasks" "t_status t0 \<noteq> Done"
  shows "readySet tasks cs \<noteq> []"
proof -
  let ?todo = "{t_id t | t. t \<in> set tasks \<and> t_status t \<noteq> Done}"
  have wf: "wf ((waits_for tasks)\<inverse>)"
    using finite_waits_for acyclic by (rule finite_acyclic_wf_converse)
  have "t_id t0 \<in> ?todo" using left by blast
  from wfE_min [OF wf this] obtain i where i: "i \<in> ?todo"
    and least: "\<And>d. (i, d) \<in> waits_for tasks \<Longrightarrow> d \<notin> ?todo"
    by (metis (no_types, lifting) converse_iff)
  obtain t where t: "t \<in> set tasks" "t_id t = i" "t_status t \<noteq> Done"
    using i by blast
  have "\<exists>x \<in> set tasks. t_id x = d \<and> t_status x = Done" if d: "d \<in> set (t_dependencies t)" for d
  proof -
    have e: "(i, d) \<in> waits_for tasks"
      using t d by (auto simp: waits_for_def)
    then obtain x where "x \<in> set tasks" "t_id x = d"
      using known by auto
    then show ?thesis using least [OF e] by blast
  qed
  then have "t_id t \<in> set (readySet tasks cs)"
    using t cand by (auto simp: in_readySet [OF ids] no_reported_cycle [OF ids acyclic])
  then show ?thesis by auto
qed

theorem readySet_progress_witness: "readySet ex_tasks None \<noteq> []"
  by (rule readySet_progress [OF ex_tasks_distinct ex_tasks_known ex_tasks_acyclic,
        where ?t0.0 = "ex_task ''b'' [''a''] Ready"])
    (auto simp: ex_tasks_def is_candidate_def)

lemma deps_before_tasks:
  assumes "distinct_ids tasks" and "waits_for tasks \<subseteq> UNIV \<times> t_id ` set tasks"
    and "deps_before (task_edges tasks) xs" and "(i, d) \<in> waits_for tasks"
    and "m < length xs" and "xs ! m = i"
  shows "d \<in> set (take m xs)"
proof -
  have "(i, d) \<in> dep_edges (task_edges tasks)"
    using dep_edges_known [OF assms(1,2)] assms(4) by simp
  then show ?thesis
    using assms(3,5,6) by (auto simp: deps_before_def dep_edges_def)
qed

text \<open>
  \<open>topoOrder\<close> succeeds exactly on acyclic graphs; then its order lists every task once with
  every dependency strictly before the tasks that wait for it, and otherwise it is empty.
\<close>

theorem topoOrder_correct:
  assumes ids: "distinct_ids tasks" and known: "waits_for tasks \<subseteq> UNIV \<times> t_id ` set tasks"
  shows "if acyclic (waits_for tasks)
     then to_ok (topoOrder tasks) \<and> distinct (to_order (topoOrder tasks)) \<and>
       set (to_order (topoOrder tasks)) = t_id ` set tasks \<and>
       (\<forall>(i, d) \<in> waits_for tasks. \<forall>m < length (to_order (topoOrder tasks)).
          to_order (topoOrder tasks) ! m = i \<longrightarrow> d \<in> set (take m (to_order (topoOrder tasks))))
     else \<not> to_ok (topoOrder tasks) \<and> to_order (topoOrder tasks) = [] \<and>
       to_cycles (topoOrder tasks) \<noteq> []"
proof (cases "acyclic (waits_for tasks)")
  case True
  then have clean: "fst (findGraphCycles (task_edges tasks)) = []"
    by (simp add: search_complete dep_edges_known [OF ids known])
  then have topo: "to_ok (topoOrder tasks)"
      "to_order (topoOrder tasks) = snd (findGraphCycles (task_edges tasks))"
    by (simp_all add: topoOrder_def Let_def)
  have "d \<in> set (take m (to_order (topoOrder tasks)))"
    if "(i, d) \<in> waits_for tasks" "m < length (to_order (topoOrder tasks))"
      "to_order (topoOrder tasks) ! m = i" for i d m
    using deps_before_tasks [OF ids known search_clean [OF clean]] that topo(2) by simp
  then show ?thesis
    using True topo search_order [of "task_edges tasks"] by auto
next
  case False
  then have "fst (findGraphCycles (task_edges tasks)) \<noteq> []"
    by (simp add: search_complete dep_edges_known [OF ids known])
  then show ?thesis
    using False by (simp add: topoOrder_def Let_def)
qed

theorem topoOrder_correct_witness: "to_ok (topoOrder ex_tasks)"
  using topoOrder_correct [OF ex_tasks_distinct ex_tasks_known] ex_tasks_acyclic by simp

section \<open>Where the comments promise more\<close>

text \<open>The comment on \<open>order\<close> says ids on a cycle are excluded; they are listed.\<close>

lemma order_lists_cyclic_ids:
  "findGraphCycles [(''a'', [''b'']), (''b'', [''a''])] = ([[''a'', ''b'']], [''b'', ''a''])"
  by code_simp

text \<open>
  The comment on \<open>readySet\<close> says a task with a cyclic dependency is never ready. The search does
  not report every cycle: \<open>c\<close> lies on \<open>a \<rightarrow> c \<rightarrow> b \<rightarrow> a\<close>, and is ready once \<open>b\<close> is done.
\<close>

definition ex_hidden_cycle :: "task list" where
  "ex_hidden_cycle = [ex_task ''a'' [''b'', ''c''] Ready, ex_task ''b'' [''a''] Done,
     ex_task ''c'' [''b''] Ready]"

lemma ready_on_a_cycle: "readySet ex_hidden_cycle None = [''c'']"
  by code_simp

lemma ready_on_a_cycle_edges:
  "waits_for ex_hidden_cycle = {(''a'', ''b''), (''a'', ''c''), (''b'', ''a''), (''c'', ''b'')}"
  by (simp add: waits_for_list ex_hidden_cycle_def)

end
