(* ===== verification/JsText.thy ===== *)
theory JsText
  imports KorwfPrelude
begin

text \<open>
  The string and array methods of the JavaScript standard library that several components use.
  Strings are lists of one-byte characters, compared code unit by code unit as \<open><\<close> and
  \<open>Array.prototype.sort\<close> do.
\<close>

section \<open>Numbers as text\<close>

fun digits :: "nat \<Rightarrow> string" where
  "digits n = (if n < 10 then [char_of (48 + n)] else digits (n div 10) @ [char_of (48 + n mod 10)])"

declare digits.simps [simp del]

definition int_text :: "int \<Rightarrow> string" where
  "int_text i = (if i < 0 then CHR ''-'' # digits (nat (- i)) else digits (nat i))"

definition digit_value :: "char \<Rightarrow> nat" where
  "digit_value c = of_char c - 48"

definition value_of_digits :: "string \<Rightarrow> nat" where
  "value_of_digits s = foldl (\<lambda>acc c. 10 * acc + digit_value c) 0 s"

text \<open>Decimal text determines the number.\<close>

lemma digit_value_char: "n < 10 \<Longrightarrow> digit_value (char_of (48 + n)) = n"
  by (simp add: digit_value_def)

lemma value_of_digits_digits [simp]: "value_of_digits (digits n) = n"
proof (induction n rule: digits.induct)
  case (1 n)
  show ?case
  proof (cases "n < 10")
    case True
    then show ?thesis
      by (simp add: digits.simps [of n] value_of_digits_def digit_value_char)
  next
    case False
    then have "value_of_digits (digits (n div 10)) = n div 10"
      using 1 by simp
    with False show ?thesis
      by (simp add: digits.simps [of n] value_of_digits_def digit_value_char)
  qed
qed

lemma digits_inj: "digits m = digits n \<Longrightarrow> m = n"
  by (metis value_of_digits_digits)

lemma digits_are_digits: "c \<in> set (digits n) \<Longrightarrow> CHR ''0'' \<le> c \<and> c \<le> CHR ''9''"
proof (induction n rule: digits.induct)
  case (1 n)
  have digit: "CHR ''0'' \<le> (char_of (48 + m) :: char) \<and> (char_of (48 + m) :: char) \<le> CHR ''9''" if "m < 10" for m :: nat
    using that by (simp add: less_eq_char_def)
  from 1 digit [of "n mod 10"] digit [of n] show ?case
    by (subst (asm) digits.simps) (auto split: if_splits)
qed

lemma digits_plain [simp]: "CHR ''@'' \<notin> set (digits n)" "CHR ''|'' \<notin> set (digits n)" "CHR '':'' \<notin> set (digits n)"
  using digits_are_digits [of "CHR ''@''" n] digits_are_digits [of "CHR ''|''" n] digits_are_digits [of "CHR '':''" n]
  by (auto simp: less_eq_char_def)

section \<open>Searching\<close>

lemma starts_with_append [simp]: "starts_with p (p @ s)"
  by (simp add: starts_with_def)

lemma starts_with_iff: "starts_with p s \<longleftrightarrow> (\<exists>r. s = p @ r)"
proof
  assume "starts_with p s"
  then have "s = p @ drop (length p) s"
    by (metis append_take_drop_id starts_with_def)
  then show "\<exists>r. s = p @ r" ..
qed auto

text \<open>A comparison that stops at the first difference, for evaluation.\<close>

lemma starts_with_code [code]:
  "starts_with [] s = True"
  "starts_with (p # ps) [] = False"
  "starts_with (p # ps) (c # cs) = (p = c \<and> starts_with ps cs)"
  by (auto simp: starts_with_def)

definition ends_with :: "string \<Rightarrow> string \<Rightarrow> bool" where
  "ends_with p s \<longleftrightarrow> starts_with (rev p) (rev s)"

lemma ends_with_iff: "ends_with p s \<longleftrightarrow> (\<exists>r. s = r @ p)"
  by (auto simp: ends_with_def starts_with_iff) (metis rev_append rev_rev_ident)

text \<open>\<open>haystack.includes(needle)\<close>.\<close>

fun str_includes :: "string \<Rightarrow> string \<Rightarrow> bool" where
  "str_includes [] p \<longleftrightarrow> p = []"
| "str_includes (c # s) p \<longleftrightarrow> starts_with p (c # s) \<or> str_includes s p"

lemma str_includes_iff: "str_includes s p \<longleftrightarrow> (\<exists>a b. s = a @ p @ b)"
proof (induction s)
  case Nil
  then show ?case by simp
next
  case (Cons c s)
  show ?case
  proof
    assume "str_includes (c # s) p"
    then consider "starts_with p (c # s)" | "str_includes s p" by auto
    then show "\<exists>a b. c # s = a @ p @ b"
    proof cases
      case 1
      then show ?thesis by (metis append_Nil starts_with_iff)
    next
      case 2
      with Cons.IH obtain a b where "s = a @ p @ b" by blast
      then have "c # s = (c # a) @ p @ b" by simp
      then show ?thesis by blast
    qed
  next
    assume "\<exists>a b. c # s = a @ p @ b"
    then obtain a b where ab: "c # s = a @ p @ b" by blast
    show "str_includes (c # s) p"
    proof (cases a)
      case Nil
      with ab have "starts_with p (c # s)" by (auto simp: starts_with_iff)
      then show ?thesis by simp
    next
      case (Cons d a')
      with ab have "s = a' @ p @ b" by simp
      with Cons.IH show ?thesis by auto
    qed
  qed
qed

text \<open>\<open>toLowerCase\<close> on one-byte characters (ASCII letters and the Latin-1 capitals).\<close>

definition lower_char :: "char \<Rightarrow> char" where
  "lower_char c = (let n = of_char c :: nat in
     if (65 \<le> n \<and> n \<le> 90) \<or> (192 \<le> n \<and> n \<le> 222 \<and> n \<noteq> 215) then char_of (n + 32) else c)"

definition to_lower :: "string \<Rightarrow> string" where
  "to_lower s = map lower_char s"

text \<open>\<open>replace(/\s+/g, " ")\<close>: every run of white space becomes one space.\<close>

fun collapse_space :: "string \<Rightarrow> string" where
  "collapse_space [] = []"
| "collapse_space [c] = (if is_js_space c then '' '' else [c])"
| "collapse_space (c # d # s) =
     (if is_js_space c then (if is_js_space d then collapse_space (d # s) else CHR '' '' # collapse_space (d # s))
      else c # collapse_space (d # s))"

text \<open>\<open>split(sep)\<close> on a one-character separator.\<close>

fun split_on :: "char \<Rightarrow> string \<Rightarrow> string list" where
  "split_on sep [] = [[]]"
| "split_on sep (c # s) =
     (if c = sep then [] # split_on sep s
      else case split_on sep s of [] \<Rightarrow> [[c]] | w # ws \<Rightarrow> (c # w) # ws)"

lemma split_on_not_Nil [simp]: "split_on sep s \<noteq> []"
  by (cases s) (auto split: list.splits)

text \<open>Splitting and joining are inverse; no piece contains the separator.\<close>

lemma join_split_on: "join_str [sep] (split_on sep s) = s"
proof (induction s)
  case (Cons c s)
  then show ?case
    by (cases "split_on sep s"; cases "tl (split_on sep s)") auto
qed simp

lemma split_on_pieces: "w \<in> set (split_on sep s) \<Longrightarrow> sep \<notin> set w"
  by (induction s arbitrary: w) (auto split: list.splits if_splits)

section \<open>Paths\<close>

text \<open>\<open>replace(/^\.\//, "")\<close> and \<open>replace(/\/+$/, "")\<close>.\<close>

definition drop_dot_slash :: "string \<Rightarrow> string" where
  "drop_dot_slash s = (if starts_with ''./'' s then drop 2 s else s)"

definition drop_trailing_slashes :: "string \<Rightarrow> string" where
  "drop_trailing_slashes s = rev (dropWhile (\<lambda>c. c = CHR ''/'') (rev s))"

definition norm_path :: "string \<Rightarrow> string" where
  "norm_path s = drop_trailing_slashes (drop_dot_slash s)"

section \<open>Maps keyed by id\<close>

text \<open>\<open>new Map(rows.map((r) => [r.id, r])).get(k)\<close>: a later entry replaces an earlier one.\<close>

definition js_map_get :: "('r \<Rightarrow> 'k) \<Rightarrow> 'r list \<Rightarrow> 'k \<Rightarrow> 'r option" where
  "js_map_get key rows k = find (\<lambda>r. key r = k) (rev rows)"

lemma js_map_get_Some: "js_map_get key rows k = Some r \<Longrightarrow> r \<in> set rows \<and> key r = k"
  by (auto simp: js_map_get_def dest!: find_Some_D)

lemma js_map_get_None: "js_map_get key rows k = None \<longleftrightarrow> k \<notin> key ` set rows"
  by (auto simp: js_map_get_def find_None_iff)

text \<open>Sorting on a key and taking the last element: the greatest row that satisfies a filter.\<close>

lemma last_opt_append: "last_opt (xs @ [x]) = Some x"
  by (simp add: last_opt_def)

lemma last_opt_sort_key_max:
  assumes "last_opt (sort_key f xs) = Some x" and "y \<in> set xs"
  shows "f y \<le> f x"
proof -
  from assms(1) obtain ys where ys: "sort_key f xs = ys @ [x]"
    by (metis append_butlast_last_id last_opt_def option.distinct(1) option.inject)
  have "sorted (map f (ys @ [x]))" "y \<in> set (ys @ [x])"
    using assms(2) sorted_sort_key [of f xs] set_sort [of f xs] by (simp_all flip: ys)
  then show ?thesis
    by (auto simp: sorted_append)
qed

end
