(* ===== verification/CheckEvidence.thy ===== *)
theory CheckEvidence
  imports Payloads JsText
begin

text \<open>
  \<open>src/verification/evidence.ts\<close>: how the outcome of one check command becomes an exit status, a
  run status and an evidence draft. Capturing and redacting the output is not modelled here; the
  environment hash is a parameter.
\<close>

section \<open>Environment fingerprint\<close>

record environment_fingerprint =
  ef_nodeVersion :: string
  ef_platform :: string
  ef_arch :: string
  ef_envVarNames :: "string list"
  ef_shell :: string

definition RELEVANT_ENV_PREFIXES :: "string list" where
  "RELEVANT_ENV_PREFIXES = [''KORWF_'', ''PI_'', ''NODE_'', ''NPM_'', ''CI'']"

definition RELEVANT_ENV_NAMES :: "string list" where
  "RELEVANT_ENV_NAMES = [''PATH'', ''SHELL'', ''LANG'', ''LC_ALL'', ''TZ'', ''CI'', ''HOME'', ''TMPDIR'']"

definition isRelevantEnvName :: "string \<Rightarrow> bool" where
  "isRelevantEnvName name \<longleftrightarrow>
     name \<in> set RELEVANT_ENV_NAMES \<or> list_ex (\<lambda>p. starts_with p name) RELEVANT_ENV_PREFIXES"

text \<open>
  \<open>fingerprintEnvironment\<close> keeps the names of the variables that are set, never a value. The
  environment is the list of its entries; the runtime strings are those of the running process.
\<close>

definition fingerprintEnvironment ::
  "(string \<times> string option) list \<Rightarrow> string \<Rightarrow> string \<Rightarrow> string \<Rightarrow> string \<Rightarrow> environment_fingerprint"
where
  "fingerprintEnvironment env nodeVersion platform arch shell =
     \<lparr>ef_nodeVersion = nodeVersion, ef_platform = platform, ef_arch = arch,
      ef_envVarNames = sort (map fst (filter (\<lambda>(name, v). v \<noteq> None \<and> isRelevantEnvName name) env)),
      ef_shell = shell\<rparr>"

section \<open>Outcome and status\<close>

record command_outcome =
  co_exitCode :: "int option"
  co_signal :: "string option"
  co_timedOut :: bool
  co_unavailable :: "string option"
  co_stdout :: string
  co_stderr :: string

definition SHELL_COMMAND_NOT_FOUND :: int where
  "SHELL_COMMAND_NOT_FOUND = 127"

definition SHELL_NOT_EXECUTABLE :: int where
  "SHELL_NOT_EXECUTABLE = 126"

definition NOT_FOUND_MARKERS :: "string list" where
  "NOT_FOUND_MARKERS = [''command not found'', ''not found'', ''no such file or directory'']"

definition looksLikeCommandNotFound :: "int option \<Rightarrow> string \<Rightarrow> bool" where
  "looksLikeCommandNotFound exitCode stderr \<longleftrightarrow>
     exitCode = Some SHELL_COMMAND_NOT_FOUND \<and>
     (let haystack = to_lower stderr in list_ex (\<lambda>marker. str_includes haystack marker) NOT_FOUND_MARKERS)"

definition classifyOutcome :: "command_outcome \<Rightarrow> exit_status" where
  "classifyOutcome oc =
     (case co_unavailable oc of
        Some why \<Rightarrow> Unavailable why
      | None \<Rightarrow>
          if co_timedOut oc then TimedOut
          else case co_signal oc of
            Some sig \<Rightarrow> Signalled sig
          | None \<Rightarrow>
              (case co_exitCode oc of
                 None \<Rightarrow> Unavailable ''spawn_failed''
               | Some code \<Rightarrow>
                   if looksLikeCommandNotFound (Some code) (co_stderr oc)
                   then Unavailable ''command_not_found''
                   else if code = SHELL_NOT_EXECUTABLE then Unavailable ''not_executable''
                   else Exited code))"

fun runStatusOf :: "exit_status \<Rightarrow> int \<Rightarrow> check_run_status" where
  "runStatusOf (Exited code) expected = (if code = expected then CsPass else CsFail)"
| "runStatusOf TimedOut expected = CsTimeout"
| "runStatusOf (Unavailable why) expected = CsUnavailable"
| "runStatusOf (FlakyRuns codes) expected = CsFlaky"
| "runStatusOf (Signalled sig) expected = CsFail"
| "runStatusOf Missing expected = CsMissing"

section \<open>Evidence drafts\<close>

definition commandIdentityOf ::
  "(environment_fingerprint \<Rightarrow> content_hash) \<Rightarrow> check_definition \<Rightarrow> environment_fingerprint \<Rightarrow> command_identity"
where
  "commandIdentityOf hashEnvironment check fp =
     \<lparr>ci_command = ck_command check, ci_cwd = ck_cwd check, ci_environmentHash = hashEnvironment fp\<rparr>"

record evidence_subject =
  es_workflowId :: string
  es_taskId :: string
  es_taskRevision :: revision
  es_attemptId :: "string option"
  es_requirementId :: string
  es_supersedesId :: "string option"

text \<open>\<open>buildEvidenceDraft\<close>; the store supplies the envelope (id and creation time).\<close>

definition buildEvidenceDraft ::
  "(environment_fingerprint \<Rightarrow> content_hash) \<Rightarrow> string \<Rightarrow> iso_timestamp \<Rightarrow> evidence_subject \<Rightarrow>
   check_definition \<Rightarrow> git_sha \<Rightarrow> environment_fingerprint \<Rightarrow> exit_status \<Rightarrow> artifact_ref option \<Rightarrow>
   string list \<Rightarrow> evidence"
where
  "buildEvidenceDraft hashEnvironment i ts subject check rv fp status artifact caveats =
     \<lparr>e_id = i, e_createdAt = ts, e_workflowId = es_workflowId subject, e_taskId = es_taskId subject,
      e_taskRevision = es_taskRevision subject, e_attemptId = es_attemptId subject,
      e_requirementId = es_requirementId subject, e_checkId = Some (ck_id check),
      e_artifact = artifact, e_revision = rv,
      e_commandIdentity = Some (commandIdentityOf hashEnvironment check fp),
      e_exitStatus = status, e_reviewer = ByCheck, e_caveats = caveats, e_provenance = [],
      e_supersedesId = es_supersedesId subject\<rparr>"

section \<open>Only a command that ran and answered as expected passes\<close>

lemma runStatusOf_pass: "runStatusOf st expected = CsPass \<longleftrightarrow> st = Exited expected"
  by (cases st) auto

lemma classifyOutcome_Exited:
  "classifyOutcome oc = Exited code \<longleftrightarrow>
     co_unavailable oc = None \<and> \<not> co_timedOut oc \<and> co_signal oc = None \<and> co_exitCode oc = Some code \<and>
     code \<noteq> SHELL_NOT_EXECUTABLE \<and> \<not> looksLikeCommandNotFound (Some code) (co_stderr oc)"
  by (auto simp: classifyOutcome_def split: option.splits)

text \<open>
  A check run counts as passed exactly when the command was executed to its own end and left the
  expected exit code, and that code is not the shell's report that the command was not executable
  or not found: a timeout, a signal and an absent tool never pass.
\<close>

theorem run_passes_iff:
  "runStatusOf (classifyOutcome oc) expected = CsPass \<longleftrightarrow>
     co_unavailable oc = None \<and> \<not> co_timedOut oc \<and> co_signal oc = None \<and>
     co_exitCode oc = Some expected \<and> expected \<noteq> 126 \<and>
     \<not> (expected = 127 \<and> (\<exists>marker \<in> set NOT_FOUND_MARKERS. \<exists>a b. to_lower (co_stderr oc) = a @ marker @ b))"
proof -
  have "looksLikeCommandNotFound (Some expected) (co_stderr oc) \<longleftrightarrow>
      expected = 127 \<and> (\<exists>marker \<in> set NOT_FOUND_MARKERS. \<exists>a b. to_lower (co_stderr oc) = a @ marker @ b)"
    by (simp add: looksLikeCommandNotFound_def SHELL_COMMAND_NOT_FOUND_def list_ex_iff str_includes_iff)
  then show ?thesis
    by (simp add: runStatusOf_pass classifyOutcome_Exited SHELL_NOT_EXECUTABLE_def)
qed

text \<open>No value of the environment reaches the fingerprint.\<close>

lemma fingerprint_ignores_values:
  assumes "map (\<lambda>(n, v). (n, v = None)) env1 = map (\<lambda>(n, v). (n, v = None)) env2"
  shows "fingerprintEnvironment env1 nv pf ar sh = fingerprintEnvironment env2 nv pf ar sh"
proof -
  have "map fst (filter (\<lambda>(n, v). v \<noteq> None \<and> isRelevantEnvName n) e) =
      map fst (filter (\<lambda>(n, absent). \<not> absent \<and> isRelevantEnvName n) (map (\<lambda>(n, v). (n, v = None)) e))"
    for e :: "(string \<times> string option) list"
    by (induction e) auto
  with assms show ?thesis
    by (simp add: fingerprintEnvironment_def)
qed

end
