(* ===== verification/ReviewGate.thy ===== *)
theory ReviewGate
  imports Payloads JsText
begin

text \<open>
  \<open>src/verification/review.ts\<close> with the severity scale of \<open>src/decisions/questions/review.ts\<close>:
  the reviewer's prompt and its contamination check, findings and their severities, the review
  policy, rechecks, and the verdict condition 3 of the task gate reads. The reviewing model, the
  severity grader, SHA-256, the ancestry test of Git and the collation order of \<open>localeCompare\<close> are
  parameters.
\<close>

section \<open>What a reviewer is given\<close>

record review_hunk =
  rh_path :: string
  rh_startLine :: nat
  rh_endLine :: nat
  rh_patch :: string

record review_evidence_line =
  rl_checkId :: "string option"
  rl_command :: string
  rl_state :: string
  rl_criterionIds :: "string list"

record review_context =
  rc_taskId :: string
  rc_taskRevision :: revision
  rc_revision :: git_sha
  rc_goal :: string
  rc_criteria :: "acceptance_criterion list"
  rc_diff :: "review_hunk list"
  rc_evidence :: "review_evidence_line list"
  rc_changeClass :: string

definition newline :: string where
  "newline = [CHR 0x0A]"

definition REVIEWER_INSTRUCTIONS :: string where
  "REVIEWER_INSTRUCTIONS = join_str newline
     [''You are reviewing a change in an independent context.'',
      ''You have the goal, the acceptance criteria, the diff at one exact revision, and the state of each recorded check.'',
      ''You have deliberately NOT been given the author's account of what it did or whether it succeeded.'',
      ''Judge the diff against the criteria on its own terms.'',
      ''Report findings only: one per problem, each with a location, a description and a suggested severity'',
      ''(blocker, major, minor, nit, or unknown when you cannot tell from what is shown).'',
      ''Absence of findings is not an endorsement, and you do not decide whether the task is complete.'']"

definition hunk_lines :: "review_hunk \<Rightarrow> string list" where
  "hunk_lines h = [''### '' @ rh_path h @ '':'' @ digits (rh_startLine h) @ ''-'' @ digits (rh_endLine h), rh_patch h]"

definition evidence_line :: "review_evidence_line \<Rightarrow> string" where
  "evidence_line e =
     ''- '' @ rl_command e @ '' => '' @ rl_state e @ '' [criteria: '' @
     (if rl_criterionIds e = [] then ''-'' else join_str '','' (rl_criterionIds e)) @ '']''"

definition buildReviewerPrompt :: "review_context \<Rightarrow> string" where
  "buildReviewerPrompt rc = join_str newline
     ([REVIEWER_INSTRUCTIONS, [], ''## Goal'', rc_goal rc, [], ''## Acceptance criteria''] @
      map (\<lambda>c. ''- ['' @ ac_id c @ ''] '' @ ac_text c) (rc_criteria rc) @
      [[], ''## Diff at '' @ rc_revision rc @ '' (change class: '' @ rc_changeClass rc @ '')''] @
      concat (map hunk_lines (rc_diff rc)) @
      [[], ''## Recorded checks''] @
      (if rc_evidence rc = [] then [''- (none recorded)''] else map evidence_line (rc_evidence rc)))"

subsection \<open>The contamination check\<close>

definition MIN_CLAIM_FRAGMENT :: nat where
  "MIN_CLAIM_FRAGMENT = 24"

definition normaliseForMatch :: "string \<Rightarrow> string" where
  "normaliseForMatch text = to_lower (js_trim (collapse_space text))"

text \<open>\<open>split(/(?<=[.!?\n])/)\<close>: cut after every sentence end; no empty last piece.\<close>

definition sentence_end :: "char \<Rightarrow> bool" where
  "sentence_end c \<longleftrightarrow> c \<in> {CHR ''.'', CHR ''!'', CHR ''?'', CHR 0x0A}"

fun split_sentences :: "string \<Rightarrow> string list" where
  "split_sentences [] = [[]]"
| "split_sentences [c] = [[c]]"
| "split_sentences (c # d # s) =
     (if sentence_end c then [c] # split_sentences (d # s)
      else case split_sentences (d # s) of [] \<Rightarrow> [[c]] | w # ws \<Rightarrow> (c # w) # ws)"

definition contaminates :: "string \<Rightarrow> string \<Rightarrow> bool" where
  "contaminates haystack fragment \<longleftrightarrow>
     \<not> length fragment < MIN_CLAIM_FRAGMENT \<and> str_includes haystack fragment"

text \<open>
  \<open>assertClaimFree\<close>: \<open>Inl\<close> carries the trimmed text of the \<open>ReviewContaminationError\<close>.
\<close>

fun claim_error :: "string \<Rightarrow> string list \<Rightarrow> string option" where
  "claim_error haystack [] = None"
| "claim_error haystack (claim # claims) =
     (case find (\<lambda>raw. contaminates haystack (normaliseForMatch raw)) (split_sentences claim) of
        Some raw \<Rightarrow> Some (js_trim raw)
      | None \<Rightarrow>
          if contaminates haystack (normaliseForMatch claim) then Some (js_trim claim)
          else claim_error haystack claims)"

definition assertClaimFree :: "string \<Rightarrow> string list \<Rightarrow> string + unit" where
  "assertClaimFree prompt claims =
     (case claim_error (normaliseForMatch prompt) claims of Some e \<Rightarrow> Inl e | None \<Rightarrow> Inr ())"

section \<open>Findings\<close>

datatype review_severity = SevBlocker | SevMajor | SevMinor | SevNit | SevUnknown

primrec SEVERITY_RANK :: "review_severity \<Rightarrow> nat" where
  "SEVERITY_RANK SevBlocker = 4"
| "SEVERITY_RANK SevUnknown = 3"
| "SEVERITY_RANK SevMajor = 2"
| "SEVERITY_RANK SevMinor = 1"
| "SEVERITY_RANK SevNit = 0"

definition REVIEW_SEVERITIES :: "(string \<times> review_severity) list" where
  "REVIEW_SEVERITIES = [(''blocker'', SevBlocker), (''major'', SevMajor), (''minor'', SevMinor),
     (''nit'', SevNit), (''unknown'', SevUnknown)]"

text \<open>\<open>normaliseSeverity\<close>: anything that is not one of the five names is \<open>unknown\<close>.\<close>

definition normaliseSeverity :: "string \<Rightarrow> review_severity" where
  "normaliseSeverity text = (case map_of REVIEW_SEVERITIES text of Some s \<Rightarrow> s | None \<Rightarrow> SevUnknown)"

record raw_finding =
  rw_id :: string
  rw_path :: string
  rw_startLine :: nat
  rw_endLine :: nat
  rw_description :: string
  rw_suggestedSeverity :: string
  rw_criterionId :: "string option"

datatype finding_disposition = FdOpen | FdFix | FdAccept | FdReject

datatype severity_source = SrcJev | SrcReviewer

record review_finding =
  f_id :: string
  f_location :: "string \<times> nat \<times> nat"
  f_description :: string
  f_suggestedSeverity :: review_severity
  f_severity :: review_severity
  f_severitySource :: severity_source
  f_criterionId :: "string option"
  f_disposition :: finding_disposition
  f_dispositionReason :: "string option"
  f_dispositionBy :: "approval_actor option"
  f_severityDecisionId :: "string option"

definition ingestFinding :: "raw_finding \<Rightarrow> review_finding" where
  "ingestFinding raw =
     (let suggested = normaliseSeverity (rw_suggestedSeverity raw) in
      \<lparr>f_id = rw_id raw, f_location = (rw_path raw, rw_startLine raw, rw_endLine raw),
       f_description = rw_description raw, f_suggestedSeverity = suggested, f_severity = suggested,
       f_severitySource = SrcReviewer, f_criterionId = rw_criterionId raw, f_disposition = FdOpen,
       f_dispositionReason = None, f_dispositionBy = None, f_severityDecisionId = None\<rparr>)"

record graded =
  gr_severity :: review_severity
  gr_fromJev :: bool
  gr_decisionId :: "string option"

definition applyGradedSeverity :: "review_finding \<Rightarrow> graded \<Rightarrow> review_finding" where
  "applyGradedSeverity f g =
     (let wouldSoftenBlocker = (f_suggestedSeverity f = SevBlocker \<and> gr_severity g \<noteq> SevBlocker);
          severity = (if \<not> gr_fromJev g \<or> wouldSoftenBlocker then f_suggestedSeverity f else gr_severity g)
      in f\<lparr>f_severity := severity,
           f_severitySource := (if severity = gr_severity g \<and> gr_fromJev g then SrcJev else SrcReviewer),
           f_severityDecisionId := gr_decisionId g\<rparr>)"

definition isBlockingSeverity :: "review_severity \<Rightarrow> bool" where
  "isBlockingSeverity s \<longleftrightarrow> s = SevBlocker \<or> s = SevUnknown"

datatype disposition_error = OpenIsInitial | ReasonRequired | UserRequired

fun is_user :: "approval_actor \<Rightarrow> bool" where
  "is_user (ApUser i) = True"
| "is_user (ApPolicy i) = False"

definition disposeFinding ::
  "review_finding \<Rightarrow> finding_disposition \<Rightarrow> approval_actor \<Rightarrow> string option \<Rightarrow> disposition_error + review_finding"
where
  "disposeFinding f disp who reason =
     (if disp = FdOpen then Inl OpenIsInitial
      else let needsReason = (disp = FdAccept \<or> disp = FdReject) in
        if needsReason \<and> (case reason of None \<Rightarrow> True | Some r \<Rightarrow> js_trim r = []) then Inl ReasonRequired
        else if needsReason \<and> \<not> is_user who \<and> isBlockingSeverity (f_severity f) then Inl UserRequired
        else Inr (f\<lparr>f_disposition := disp, f_dispositionReason := reason, f_dispositionBy := Some who\<rparr>))"

definition isUnresolvedBlocking :: "review_finding \<Rightarrow> bool" where
  "isUnresolvedBlocking f =
     (if \<not> isBlockingSeverity (f_severity f) then False
      else \<not> ((f_disposition f = FdAccept \<or> f_disposition f = FdReject) \<and>
               (case f_dispositionBy f of None \<Rightarrow> False | Some who \<Rightarrow> is_user who)))"

text \<open>
  \<open>blockingFindings\<close> sorts by falling severity, then by id in the host's collation order, given as
  a collation key.
\<close>

definition blockingFindings :: "(string \<Rightarrow> nat list) \<Rightarrow> review_finding list \<Rightarrow> review_finding list" where
  "blockingFindings collation fs =
     sort_key (\<lambda>f. (4 - SEVERITY_RANK (f_severity f), collation (f_id f))) (filter isUnresolvedBlocking fs)"

section \<open>Review policy\<close>

record review_rule =
  rr_id :: string
  rr_changeClasses :: "string list"
  rr_paths :: "string list"
  rr_minRiskClass :: risk_class

record review_policy =
  rp_rules :: "review_rule list"
  rp_reviewEverything :: bool

record review_subject =
  rs_changeClass :: string
  rs_riskClass :: risk_class
  rs_touchedPaths :: "string list"

datatype requirement_reason = RrReviewEverything | RrRuleMatched | RrNoRuleMatched

record review_requirement =
  rq_required :: bool
  rq_matchedRules :: "string list"
  rq_reason :: requirement_reason

definition pathMatches :: "string \<Rightarrow> string \<Rightarrow> bool" where
  "pathMatches path prefix =
     (let p = norm_path path; q = norm_path prefix in
      q = [] \<or> p = q \<or> starts_with (q @ ''/'') p)"

definition rule_fires :: "review_subject \<Rightarrow> review_rule \<Rightarrow> bool" where
  "rule_fires subject rule \<longleftrightarrow>
     rr_minRiskClass rule \<le> rs_riskClass subject \<and>
     (rr_changeClasses rule = [] \<or> rs_changeClass subject \<in> set (rr_changeClasses rule)) \<and>
     (rr_paths rule = [] \<or> list_ex (\<lambda>p. list_ex (pathMatches p) (rr_paths rule)) (rs_touchedPaths subject))"

definition reviewRequirement :: "review_policy \<Rightarrow> review_subject \<Rightarrow> review_requirement" where
  "reviewRequirement policy subject =
     (let matched = map rr_id (filter (rule_fires subject) (rp_rules policy)) in
      if rp_reviewEverything policy
      then \<lparr>rq_required = True, rq_matchedRules = matched, rq_reason = RrReviewEverything\<rparr>
      else if rs_riskClass subject = RiskHigh
      then \<lparr>rq_required = True, rq_matchedRules = matched @ [''high_risk_always''], rq_reason = RrRuleMatched\<rparr>
      else if matched \<noteq> []
      then \<lparr>rq_required = True, rq_matchedRules = matched, rq_reason = RrRuleMatched\<rparr>
      else \<lparr>rq_required = False, rq_matchedRules = [], rq_reason = RrNoRuleMatched\<rparr>)"

definition DEFAULT_REVIEW_POLICY :: review_policy where
  "DEFAULT_REVIEW_POLICY = \<lparr>rp_rules =
     [\<lparr>rr_id = ''behaviour_change'', rr_changeClasses = [''behaviour'', ''mixed''], rr_paths = [], rr_minRiskClass = RiskLow\<rparr>,
      \<lparr>rr_id = ''security_surface'', rr_changeClasses = [], rr_paths = [''src/security''], rr_minRiskClass = RiskLow\<rparr>,
      \<lparr>rr_id = ''verification_surface'', rr_changeClasses = [], rr_paths = [''src/verification''], rr_minRiskClass = RiskLow\<rparr>,
      \<lparr>rr_id = ''policy_surface'', rr_changeClasses = [], rr_paths = [''src/config''], rr_minRiskClass = RiskLow\<rparr>,
      \<lparr>rr_id = ''medium_risk_any'', rr_changeClasses = [], rr_paths = [], rr_minRiskClass = RiskMedium\<rparr>],
     rp_reviewEverything = False\<rparr>"

text \<open>\<open>reviewPolicyFrom\<close>: configured rules are added unless they reuse a shipped id.\<close>

definition reviewPolicyFrom :: "review_policy option \<Rightarrow> review_policy" where
  "reviewPolicyFrom config =
     (case config of
        None \<Rightarrow> DEFAULT_REVIEW_POLICY
      | Some c \<Rightarrow>
          \<lparr>rp_rules = rp_rules DEFAULT_REVIEW_POLICY @
             filter (\<lambda>r. rr_id r \<notin> set (map rr_id (rp_rules DEFAULT_REVIEW_POLICY))) (rp_rules c),
           rp_reviewEverything = rp_reviewEverything c\<rparr>)"

section \<open>Review records, rechecks and the verdict\<close>

record reviewer_identity =
  ri_model :: string
  ri_family :: string
  ri_attemptId :: string

record review_record =
  rv_id :: string
  rv_taskId :: string
  rv_taskRevision :: revision
  rv_revision :: git_sha
  rv_reviewer :: reviewer_identity
  rv_promptHash :: content_hash
  rv_findings :: "review_finding list"
  rv_rechecksReviewId :: "string option"

definition isDifferentFamily :: "reviewer_identity \<Rightarrow> string option \<Rightarrow> bool" where
  "isDifferentFamily reviewer authorFamily =
     (case authorFamily of None \<Rightarrow> True | Some fam \<Rightarrow> ri_family reviewer \<noteq> fam)"

datatype recheck_reason = Cleared | NotARecheck | SameRevision | OlderRevision | StillBlocking | NoBlockers

record recheck_outcome =
  rk_cleared :: bool
  rk_reason :: recheck_reason
  rk_stillBlocking :: "string list"

definition recheckOutcome ::
  "(string \<Rightarrow> nat list) \<Rightarrow> review_record \<Rightarrow> review_record \<Rightarrow> (git_sha \<Rightarrow> git_sha \<Rightarrow> bool) \<Rightarrow> recheck_outcome"
where
  "recheckOutcome collation original recheck isNewer =
     (let blockers = blockingFindings collation (rv_findings original);
          refused = (\<lambda>why. \<lparr>rk_cleared = False, rk_reason = why, rk_stillBlocking = map f_id blockers\<rparr>) in
      if blockers = [] then \<lparr>rk_cleared = True, rk_reason = NoBlockers, rk_stillBlocking = []\<rparr>
      else if rv_rechecksReviewId recheck \<noteq> Some (rv_id original) then refused NotARecheck
      else if rv_revision recheck = rv_revision original then refused SameRevision
      else if \<not> isNewer (rv_revision recheck) (rv_revision original) then refused OlderRevision
      else let stillBlocking = map f_id (blockingFindings collation (rv_findings recheck)) in
        if stillBlocking \<noteq> [] then \<lparr>rk_cleared = False, rk_reason = StillBlocking, rk_stillBlocking = stillBlocking\<rparr>
        else \<lparr>rk_cleared = True, rk_reason = Cleared, rk_stillBlocking = []\<rparr>)"

datatype review_gate_reason = RgMissing | RgStaleRevision | RgNotIndependent | RgBlockingUnresolved

record review_verdict =
  vd_satisfied :: bool
  vd_reasons :: "review_gate_reason list"
  vd_blocking :: "string list"

record review_args =
  ra_required :: bool
  ra_revision :: git_sha
  ra_taskRevision :: revision
  ra_reviews :: "review_record list"
  ra_authorAttemptId :: "string option"
  ra_isNewer :: "git_sha \<Rightarrow> git_sha \<Rightarrow> bool"

text \<open>The ids an earlier review still holds open: none when some recheck of it cleared them.\<close>

definition open_after_rechecks :: "(string \<Rightarrow> nat list) \<Rightarrow> review_args \<Rightarrow> review_record \<Rightarrow> string list" where
  "open_after_rechecks collation args earlier =
     (let opened = blockingFindings collation (rv_findings earlier) in
      if opened = [] then []
      else let rechecks = filter (\<lambda>r. rv_rechecksReviewId r = Some (rv_id earlier)) (ra_reviews args);
               anyCleared = list_ex (\<lambda>r. rk_cleared (recheckOutcome collation earlier r (ra_isNewer args))) rechecks
           in if anyCleared then [] else map f_id opened)"

definition reviewGateVerdict :: "(string \<Rightarrow> nat list) \<Rightarrow> review_args \<Rightarrow> review_verdict" where
  "reviewGateVerdict collation args =
     (if \<not> ra_required args then \<lparr>vd_satisfied = True, vd_reasons = [], vd_blocking = []\<rparr>
      else let atRevision = filter (\<lambda>r. rv_revision r = ra_revision args \<and>
                                       rv_taskRevision r = ra_taskRevision args) (ra_reviews args) in
        if atRevision = []
        then \<lparr>vd_satisfied = False,
              vd_reasons = [if ra_reviews args = [] then RgMissing else RgStaleRevision], vd_blocking = []\<rparr>
        else let independent = filter (\<lambda>r. case ra_authorAttemptId args of None \<Rightarrow> True
                                 | Some a \<Rightarrow> ri_attemptId (rv_reviewer r) \<noteq> a) atRevision in
          if independent = []
          then \<lparr>vd_satisfied = False, vd_reasons = [RgNotIndependent], vd_blocking = []\<rparr>
          else let blocking = concat (map (open_after_rechecks collation args) (ra_reviews args)) @
                     concat (map (\<lambda>r. map f_id (blockingFindings collation (rv_findings r))) independent) in
            if blocking \<noteq> []
            then \<lparr>vd_satisfied = False, vd_reasons = [RgBlockingUnresolved], vd_blocking = sort (dedup blocking)\<rparr>
            else \<lparr>vd_satisfied = True, vd_reasons = [], vd_blocking = []\<rparr>)"

section \<open>Running a review, and a review as evidence\<close>

text \<open>
  \<open>runReview\<close>: the prompt is built and checked before the reviewer sees it; every finding is
  graded. The reviewing model and the grader are the arguments \<open>reviewer\<close> and \<open>grade\<close>.
\<close>

definition runReview ::
  "(string \<Rightarrow> content_hash) \<Rightarrow> (string \<Rightarrow> review_context \<Rightarrow> raw_finding list) \<Rightarrow>
   (review_finding \<Rightarrow> review_context \<Rightarrow> graded) \<Rightarrow> string \<Rightarrow> review_context \<Rightarrow> reviewer_identity \<Rightarrow>
   string list \<Rightarrow> string option \<Rightarrow> string + review_record"
where
  "runReview promptHash reviewer grade i rc who claims rechecks =
     (let prompt = buildReviewerPrompt rc in
      case assertClaimFree prompt claims of
        Inl e \<Rightarrow> Inl e
      | Inr u \<Rightarrow>
          Inr \<lparr>rv_id = i, rv_taskId = rc_taskId rc, rv_taskRevision = rc_taskRevision rc,
               rv_revision = rc_revision rc, rv_reviewer = who, rv_promptHash = promptHash prompt,
               rv_findings = map (\<lambda>raw. let ingested = ingestFinding raw in
                   applyGradedSeverity ingested (grade ingested rc)) (reviewer prompt rc),
               rv_rechecksReviewId = rechecks\<rparr>)"

definition suggestedSeverityGrader :: "review_finding \<Rightarrow> review_context \<Rightarrow> graded" where
  "suggestedSeverityGrader f rc =
     \<lparr>gr_severity = f_suggestedSeverity f, gr_fromJev = False, gr_decisionId = None\<rparr>"

text \<open>\<open>reviewToEvidence\<close>; the caveat texts and the envelope are left to the caller.\<close>

definition reviewToEvidence ::
  "(string \<Rightarrow> nat list) \<Rightarrow> string \<Rightarrow> iso_timestamp \<Rightarrow> review_record \<Rightarrow> string \<Rightarrow> string \<Rightarrow> string list \<Rightarrow> evidence"
where
  "reviewToEvidence collation i ts review workflowId requirementId caveats =
     \<lparr>e_id = i, e_createdAt = ts, e_workflowId = workflowId, e_taskId = rv_taskId review,
      e_taskRevision = rv_taskRevision review, e_attemptId = Some (ri_attemptId (rv_reviewer review)),
      e_requirementId = requirementId, e_checkId = None, e_artifact = None,
      e_revision = rv_revision review, e_commandIdentity = None,
      e_exitStatus = Exited (if blockingFindings collation (rv_findings review) = [] then 0 else 1),
      e_reviewer = ByModel (ri_model (rv_reviewer review)) (ri_attemptId (rv_reviewer review)),
      e_caveats = caveats, e_provenance = [], e_supersedesId = None\<rparr>"

section \<open>Blocking findings\<close>

lemma blockingFindings_Nil [simp]:
  "blockingFindings collation fs = [] \<longleftrightarrow> (\<forall>f \<in> set fs. \<not> isUnresolvedBlocking f)"
  by (auto simp: blockingFindings_def simp flip: set_empty)

lemma set_blockingFindings [simp]:
  "set (blockingFindings collation fs) = {f \<in> set fs. isUnresolvedBlocking f}"
  by (simp add: blockingFindings_def)

text \<open>A finding nobody has disposed of blocks exactly when its severity does.\<close>

lemma undisposed_blocking:
  "f_disposition f = FdOpen \<Longrightarrow> isUnresolvedBlocking f \<longleftrightarrow> isBlockingSeverity (f_severity f)"
  by (simp add: isUnresolvedBlocking_def)

lemma ingestFinding_sel [simp]:
  "f_suggestedSeverity (ingestFinding raw) = normaliseSeverity (rw_suggestedSeverity raw)"
  "f_severity (ingestFinding raw) = normaliseSeverity (rw_suggestedSeverity raw)"
  "f_disposition (ingestFinding raw) = FdOpen"
  by (simp_all add: ingestFinding_def Let_def)

lemma applyGradedSeverity_sel [simp]:
  "f_severity (applyGradedSeverity f g) =
     (if gr_fromJev g \<and> (f_suggestedSeverity f = SevBlocker \<longrightarrow> gr_severity g = SevBlocker)
      then gr_severity g else f_suggestedSeverity f)"
  "f_disposition (applyGradedSeverity f g) = f_disposition f"
  by (auto simp: applyGradedSeverity_def Let_def)

lemma blocker_text: "normaliseSeverity ''blocker'' = SevBlocker"
  by (simp add: normaliseSeverity_def REVIEW_SEVERITIES_def)

text \<open>A blocking finding is laid to rest only by a user, with a reason that is not blank.\<close>

lemma disposeFinding_resolves:
  assumes "disposeFinding f disp who reason = Inr f'" and "isBlockingSeverity (f_severity f)"
    and "\<not> isUnresolvedBlocking f'"
  shows "is_user who \<and> (\<exists>r. reason = Some r \<and> js_trim r \<noteq> [])"
  using assms
  by (auto simp: disposeFinding_def isUnresolvedBlocking_def Let_def split: if_splits option.splits)

text \<open>
  C10. A reviewer's blocker survives grading: whatever the grader answers for any finding, a review in
  which the reviewing model reported a blocker becomes an evidence row that does not pass, and the
  review still holds that finding open.
\<close>

theorem jev_cannot_soften_a_blocker:
  assumes run: "runReview promptHash reviewer grade i rc who claims rechecks = Inr review"
    and raw: "raw \<in> set (reviewer (buildReviewerPrompt rc) rc)" "rw_suggestedSeverity raw = ''blocker''"
  shows "(\<exists>f \<in> set (blockingFindings collation (rv_findings review)). f_id f = rw_id raw \<and> f_severity f = SevBlocker) \<and>
     e_exitStatus (reviewToEvidence collation eid ts review wid rid caveats) = Exited 1"
proof -
  define f where "f = applyGradedSeverity (ingestFinding raw) (grade (ingestFinding raw) rc)"
  have f: "f \<in> set (rv_findings review)"
    using run raw(1) by (auto simp: runReview_def Let_def f_def split: sum.splits)
  have sev: "f_severity f = SevBlocker" "f_disposition f = FdOpen"
    by (simp_all add: f_def raw(2) blocker_text)
  then have blocking: "isUnresolvedBlocking f"
    by (simp add: undisposed_blocking isBlockingSeverity_def)
  have "f_id f = rw_id raw"
    by (simp add: f_def applyGradedSeverity_def ingestFinding_def Let_def)
  with f blocking sev show ?thesis
    by (auto simp: reviewToEvidence_def)
qed

definition fx_raw :: raw_finding where
  "fx_raw = \<lparr>rw_id = ''f'', rw_path = [], rw_startLine = 0, rw_endLine = 0, rw_description = [],
     rw_suggestedSeverity = ''blocker'', rw_criterionId = None\<rparr>"

definition fx_rc :: review_context where
  "fx_rc = \<lparr>rc_taskId = ''t1'', rc_taskRevision = 0, rc_revision = ''s'', rc_goal = [], rc_criteria = [],
     rc_diff = [], rc_evidence = [], rc_changeClass = []\<rparr>"

definition fx_who :: reviewer_identity where
  "fx_who = \<lparr>ri_model = ''m'', ri_family = ''x'', ri_attemptId = ''a2''\<rparr>"

definition fx_nit_grade :: "review_finding \<Rightarrow> review_context \<Rightarrow> graded" where
  "fx_nit_grade f rc = \<lparr>gr_severity = SevNit, gr_fromJev = True, gr_decisionId = None\<rparr>"

theorem jev_cannot_soften_a_blocker_witness:
  "\<exists>review. runReview id (\<lambda>_ _. [fx_raw]) fx_nit_grade ''r'' fx_rc fx_who [] None = Inr review \<and>
     e_exitStatus (reviewToEvidence (\<lambda>_. []) [] [] review [] [] []) = Exited 1"
proof -
  obtain review where run: "runReview id (\<lambda>_ _. [fx_raw]) fx_nit_grade ''r'' fx_rc fx_who [] None = Inr review"
    by (simp add: runReview_def Let_def assertClaimFree_def)
  have "fx_raw \<in> set [fx_raw]" "rw_suggestedSeverity fx_raw = ''blocker''"
    by (simp_all add: fx_raw_def)
  from jev_cannot_soften_a_blocker [OF run this] run show ?thesis
    by blast
qed

section \<open>The verdict\<close>

text \<open>What a recheck must show: it names the review, at another, newer revision, and holds nothing open.\<close>

definition clears :: "(git_sha \<Rightarrow> git_sha \<Rightarrow> bool) \<Rightarrow> review_record \<Rightarrow> review_record \<Rightarrow> bool" where
  "clears isNewer original recheck \<longleftrightarrow>
     rv_rechecksReviewId recheck = Some (rv_id original) \<and>
     rv_revision recheck \<noteq> rv_revision original \<and>
     isNewer (rv_revision recheck) (rv_revision original) \<and>
     (\<forall>f \<in> set (rv_findings recheck). \<not> isUnresolvedBlocking f)"

lemma recheckOutcome_cleared:
  "rk_cleared (recheckOutcome collation original recheck isNewer) \<longleftrightarrow>
     (\<forall>f \<in> set (rv_findings original). \<not> isUnresolvedBlocking f) \<or> clears isNewer original recheck"
  by (simp add: recheckOutcome_def clears_def Let_def)

lemma open_after_rechecks_Nil:
  "open_after_rechecks collation args r = [] \<longleftrightarrow>
     (\<forall>f \<in> set (rv_findings r). \<not> isUnresolvedBlocking f) \<or>
     (\<exists>r' \<in> set (ra_reviews args). clears (ra_isNewer args) r r')"
  by (auto simp: open_after_rechecks_def Let_def list_ex_iff recheckOutcome_cleared clears_def)

text \<open>A review at the gate's revision and task revision that the authoring attempt did not make.\<close>

definition at_gate :: "review_args \<Rightarrow> review_record \<Rightarrow> bool" where
  "at_gate args r \<longleftrightarrow> rv_revision r = ra_revision args \<and> rv_taskRevision r = ra_taskRevision args \<and>
     ra_authorAttemptId args \<noteq> Some (ri_attemptId (rv_reviewer r))"

lemma independent_filter:
  "filter (\<lambda>r. case a of None \<Rightarrow> True | Some x \<Rightarrow> ri_attemptId (rv_reviewer r) \<noteq> x) rs =
     filter (\<lambda>r. a \<noteq> Some (ri_attemptId (rv_reviewer r))) rs"
  by (rule filter_cong) (auto split: option.split)

text \<open>
  The review verdict refuses nothing exactly when review is not required, or some review by another
  attempt is at the exact revision and task revision, no such review holds a blocking finding open,
  and every review, at whatever revision, holds none open or was rechecked, cleanly, at a newer
  revision.
\<close>

theorem review_verdict_satisfied_iff:
  "vd_satisfied (reviewGateVerdict collation args) \<longleftrightarrow>
     \<not> ra_required args \<or>
     ((\<exists>r \<in> set (ra_reviews args). at_gate args r) \<and>
      (\<forall>r \<in> set (ra_reviews args). at_gate args r \<longrightarrow> (\<forall>f \<in> set (rv_findings r). \<not> isUnresolvedBlocking f)) \<and>
      (\<forall>r \<in> set (ra_reviews args). (\<forall>f \<in> set (rv_findings r). \<not> isUnresolvedBlocking f) \<or>
         (\<exists>r' \<in> set (ra_reviews args). clears (ra_isNewer args) r r')))"
proof -
  define ind where "ind = filter (at_gate args) (ra_reviews args)"
  have ind: "filter (\<lambda>r. case ra_authorAttemptId args of None \<Rightarrow> True
        | Some a \<Rightarrow> ri_attemptId (rv_reviewer r) \<noteq> a)
      (filter (\<lambda>r. rv_revision r = ra_revision args \<and> rv_taskRevision r = ra_taskRevision args) (ra_reviews args)) = ind"
    by (auto simp: independent_filter ind_def at_gate_def intro: filter_cong)
  have "vd_satisfied (reviewGateVerdict collation args) \<longleftrightarrow> \<not> ra_required args \<or>
     (ind \<noteq> [] \<and> concat (map (open_after_rechecks collation args) (ra_reviews args)) = [] \<and>
      concat (map (\<lambda>r. map f_id (blockingFindings collation (rv_findings r))) ind) = [])"
  proof -
    have "filter (\<lambda>r. rv_revision r = ra_revision args \<and> rv_taskRevision r = ra_taskRevision args)
        (ra_reviews args) = [] \<Longrightarrow> ind = []"
      by (auto simp: ind_def at_gate_def filter_empty_conv)
    then show ?thesis
      unfolding reviewGateVerdict_def Let_def ind by simp
  qed
  also have "\<dots> \<longleftrightarrow> \<not> ra_required args \<or>
     ((\<exists>r \<in> set (ra_reviews args). at_gate args r) \<and>
      (\<forall>r \<in> set (ra_reviews args). open_after_rechecks collation args r = []) \<and>
      (\<forall>r \<in> set (ra_reviews args). at_gate args r \<longrightarrow> (\<forall>f \<in> set (rv_findings r). \<not> isUnresolvedBlocking f)))"
    by (auto simp: ind_def filter_empty_conv)
  finally show ?thesis
    unfolding open_after_rechecks_Nil by blast
qed

definition fx_review :: "string \<Rightarrow> git_sha \<Rightarrow> review_finding list \<Rightarrow> string option \<Rightarrow> review_record" where
  "fx_review i sha fs re = \<lparr>rv_id = i, rv_taskId = ''t1'', rv_taskRevision = 0, rv_revision = sha,
     rv_reviewer = fx_who, rv_promptHash = [], rv_findings = fs, rv_rechecksReviewId = re\<rparr>"

definition fx_review_args :: "review_record list \<Rightarrow> review_args" where
  "fx_review_args rs = \<lparr>ra_required = True, ra_revision = ''s2'', ra_taskRevision = 0, ra_reviews = rs,
     ra_authorAttemptId = Some ''a1'', ra_isNewer = (\<lambda>a b. a = ''s2'' \<and> b = ''s'')\<rparr>"

theorem review_verdict_satisfied_iff_witness:
  "vd_satisfied (reviewGateVerdict (\<lambda>_. []) (fx_review_args
      [fx_review ''r1'' ''s'' [ingestFinding fx_raw] None, fx_review ''r2'' ''s2'' [] (Some ''r1'')])) \<and>
   \<not> vd_satisfied (reviewGateVerdict (\<lambda>_. []) (fx_review_args
      [fx_review ''r1'' ''s'' [ingestFinding fx_raw] None, fx_review ''r2'' ''s2'' [] None]))"
  unfolding review_verdict_satisfied_iff
  by (simp add: fx_review_args_def fx_review_def at_gate_def clears_def fx_who_def undisposed_blocking
      isBlockingSeverity_def fx_raw_def blocker_text)

text \<open>
  The recheck that clears a blocker is not asked who made it: here the authoring attempt rechecks
  its own work.
\<close>

lemma author_may_clear_a_blocker:
  "vd_satisfied (reviewGateVerdict (\<lambda>_. []) (fx_review_args
      [fx_review ''r1'' ''s'' [ingestFinding fx_raw] None,
       (fx_review ''r2'' ''s2'' [] (Some ''r1''))\<lparr>rv_reviewer := fx_who\<lparr>ri_attemptId := ''a1''\<rparr>\<rparr>,
       fx_review ''r3'' ''s2'' [] None]))"
  unfolding review_verdict_satisfied_iff
  by (simp add: fx_review_args_def fx_review_def at_gate_def clears_def fx_who_def undisposed_blocking
      isBlockingSeverity_def fx_raw_def blocker_text)

section \<open>Configuration only tightens the policy\<close>

lemma rules_demand_review:
  "rq_required (reviewRequirement policy subject) \<longleftrightarrow>
     rp_reviewEverything policy \<or> rs_riskClass subject = RiskHigh \<or>
     (\<exists>rule \<in> set (rp_rules policy). rule_fires subject rule)"
  by (auto simp: reviewRequirement_def Let_def filter_empty_conv)

text \<open>
  No configuration lifts a review the shipped policy asks for, and high risk is reviewed under every
  policy.
\<close>

theorem config_only_tightens_review:
  "(rq_required (reviewRequirement DEFAULT_REVIEW_POLICY subject) \<longrightarrow>
      rq_required (reviewRequirement (reviewPolicyFrom config) subject)) \<and>
   (rs_riskClass subject = RiskHigh \<longrightarrow> rq_required (reviewRequirement policy subject))"
  unfolding rules_demand_review
  by (auto simp: reviewPolicyFrom_def DEFAULT_REVIEW_POLICY_def split: option.splits)

theorem config_only_tightens_review_witness:
  "rq_required (reviewRequirement (reviewPolicyFrom (Some \<lparr>rp_rules = [], rp_reviewEverything = False\<rparr>))
     \<lparr>rs_changeClass = ''behaviour'', rs_riskClass = RiskLow, rs_touchedPaths = []\<rparr>)"
proof -
  have "rq_required (reviewRequirement DEFAULT_REVIEW_POLICY
     \<lparr>rs_changeClass = ''behaviour'', rs_riskClass = RiskLow, rs_touchedPaths = []\<rparr>)"
    by code_simp
  with config_only_tightens_review show ?thesis by blast
qed

text \<open>The contamination check accepts a prompt exactly when no long enough piece of a claim is in it.\<close>

lemma claim_error_None:
  "claim_error haystack claims = None \<longleftrightarrow>
     (\<forall>claim \<in> set claims. \<not> contaminates haystack (normaliseForMatch claim) \<and>
        (\<forall>raw \<in> set (split_sentences claim). \<not> contaminates haystack (normaliseForMatch raw)))"
  by (induction haystack claims rule: claim_error.induct) (auto simp: find_None_iff split: option.splits dest: find_Some_D)

end
