(* ===== verification/TaskGate.thy ===== *)
theory TaskGate
  imports Fixtures CheckEvidence ReviewGate
begin

text \<open>
  The task gate, \<open>src/verification/task-gate.ts\<close>: the four conditions evaluated over recorded rows,
  the receipt that records the verdict, and \<open>completeTask\<close>, the route from \<open>review\<close> to \<open>done\<close>. A
  rejection keeps its condition, reason code and the id it is about; the sentence around it is a
  parameter where a row stores it. SHA-256, the collation of \<open>localeCompare\<close> and the reading of a
  worktree's revision are parameters.
\<close>

section \<open>Input and result\<close>

datatype gate_reason =
    NotInReview | BlockerPresent | NoCompletionClaim | NoChecks | CheckTrivial | CheckFail
  | CheckFlaky | CheckMissing | CheckUnavailable | CheckTimeout | CriterionUncovered
  | CommandIdentityMismatch | JevGap | JevError | JevDecisionMissing | JevUnavailable
  | FallbackCoverageGap | ReviewMissing | ReviewNotIndependent | ReviewStaleRevision
  | BlockingFindingUnresolved | ApprovalMissing | ApprovalActorNotUser | PolicyResultMissing
  | RevisionUnavailable | ApprovalInvalid invalidation_reason

datatype gate_condition = C0 | C1 | C2 | C3

definition TASK_GATE_CONDITIONS :: "gate_condition list" where
  "TASK_GATE_CONDITIONS = [C0, C1, C2, C3]"

record task_gate_input =
  ti_workflow :: workflow
  ti_task :: task
  ti_revision :: "git_sha option"
  ti_evidence :: "evidence list"
  ti_decisions :: "decision list"
  ti_approvals :: "approval list"
  ti_attempts :: "attempt list"
  ti_unresolvedBlockers :: "string list"
  ti_policy :: "policy_review_result option"
  ti_reviews :: "review_record list option"
  ti_isNewerRevision :: "(git_sha \<Rightarrow> git_sha \<Rightarrow> bool) option"
  ti_jev :: jev_gate_config
  ti_now :: iso_timestamp

record gate_rejection =
  rj_condition :: gate_condition
  rj_reasonCode :: gate_reason
  rj_about :: string

datatype c2_branch = BranchJev | BranchFallback

record gate_condition_verdict =
  cv_id :: gate_condition
  cv_satisfied :: bool
  cv_reasonCode :: "gate_reason option"
  cv_failures :: "gate_rejection list"

record task_gate_result =
  tg_pass :: bool
  tg_conditions :: "gate_condition_verdict list"
  tg_reasons :: "gate_rejection list"
  tg_inputHash :: content_hash
  tg_c2Branch :: "c2_branch option"
  tg_checkStates :: "(string \<times> check_run_status) list"

definition rejecting :: "gate_condition \<Rightarrow> gate_reason \<Rightarrow> string \<Rightarrow> gate_rejection" where
  "rejecting c why about = \<lparr>rj_condition = c, rj_reasonCode = why, rj_about = about\<rparr>"

section \<open>Freshness and check states\<close>

datatype staleness_reason = StaleRevision | StaleTaskRevision | StaleSuperseded

definition stalenessReason ::
  "evidence \<Rightarrow> revision \<Rightarrow> git_sha \<Rightarrow> string list \<Rightarrow> staleness_reason option"
where
  "stalenessReason row taskRevision rv superseded =
     (if e_revision row \<noteq> rv then Some StaleRevision
      else if e_taskRevision row \<noteq> taskRevision then Some StaleTaskRevision
      else if e_id row \<in> set superseded then Some StaleSuperseded
      else None)"

definition supersededIds :: "evidence list \<Rightarrow> string list" where
  "supersededIds rows = List.map_filter e_supersedesId rows"

definition freshEvidence :: "task \<Rightarrow> evidence list \<Rightarrow> git_sha \<Rightarrow> evidence list" where
  "freshEvidence task rows rv =
     sort_key (\<lambda>row. (e_createdAt row, e_id row))
       (filter (\<lambda>row. e_taskId row = t_id task \<and>
          stalenessReason row (t_revision task) rv (supersededIds rows) = None) rows)"

fun is_human :: "evidence_reviewer \<Rightarrow> bool" where
  "is_human (ByHuman who) = True"
| "is_human ByCheck = False"
| "is_human (ByModel md att) = False"

definition wanted_reviewer :: "check_definition \<Rightarrow> evidence_reviewer \<Rightarrow> bool" where
  "wanted_reviewer check who = (if ck_kind check = CkHuman then is_human who else who = ByCheck)"

definition latestResultFor :: "check_definition \<Rightarrow> evidence list \<Rightarrow> evidence option" where
  "latestResultFor check fresh =
     last_opt (filter (\<lambda>row. e_checkId row = Some (ck_id check) \<and> wanted_reviewer check (e_reviewer row)) fresh)"

definition gateCheckState :: "check_definition \<Rightarrow> evidence list \<Rightarrow> check_run_status \<times> bool" where
  "gateCheckState check fresh =
     (case latestResultFor check fresh of
        None \<Rightarrow> (CsMissing, False)
      | Some row \<Rightarrow>
          if ck_kind check = CkHuman
          then (if e_exitStatus row = Exited 0 then CsPass else CsFail, False)
          else let identityMismatch = (case e_commandIdentity row of
                     None \<Rightarrow> True
                   | Some ident \<Rightarrow> ci_command ident \<noteq> ck_command check \<or> ci_cwd ident \<noteq> ck_cwd check);
                   state = runStatusOf (e_exitStatus row) (ck_expectedExitCode check)
               in if identityMismatch \<and> state = CsPass then (CsFail, True)
                  else (state, identityMismatch \<and> state \<noteq> CsPass))"

fun checkReasonCode :: "check_run_status \<Rightarrow> gate_reason" where
  "checkReasonCode CsFail = CheckFail"
| "checkReasonCode CsFlaky = CheckFlaky"
| "checkReasonCode CsMissing = CheckMissing"
| "checkReasonCode CsUnavailable = CheckUnavailable"
| "checkReasonCode CsTimeout = CheckTimeout"
| "checkReasonCode CsPass = CheckFail"

section \<open>C0: a claim, nothing more\<close>

definition AUTHOR_ROLES :: "worker_role list" where
  "AUTHOR_ROLES = [Implementer, Integrator]"

definition claimingAttempt :: "task \<Rightarrow> attempt list \<Rightarrow> attempt option" where
  "claimingAttempt task attempts =
     last_opt (sort_key (\<lambda>a. (a_createdAt a, a_id a))
       (filter (\<lambda>a. a_taskId a = t_id task \<and> a_taskRevision a = t_revision task \<and>
          a_role a \<in> set AUTHOR_ROLES \<and> a_outcome a = Some OcSucceeded) attempts))"

definition evaluateC0 :: "task_gate_input \<Rightarrow> gate_rejection list" where
  "evaluateC0 inp = (let task = ti_task inp in
     (if t_status task \<noteq> Review then [rejecting C0 NotInReview (t_id task)] else []) @
     (if t_blocker task \<noteq> None \<or> ti_unresolvedBlockers inp \<noteq> []
      then [rejecting C0 BlockerPresent (t_id task)] else []) @
     (if claimingAttempt task (ti_attempts inp) = None
      then [rejecting C0 NoCompletionClaim (t_id task)] else []))"

section \<open>C1: deterministic checks at the exact revision\<close>

definition check_rejections :: "check_definition \<Rightarrow> evidence list \<Rightarrow> gate_rejection list" where
  "check_rejections check fresh =
     (if isTrivialCheck check then [rejecting C1 CheckTrivial (ck_id check)]
      else case gateCheckState check fresh of (state, identityMismatch) \<Rightarrow>
        if state = CsPass then []
        else if identityMismatch then [rejecting C1 CommandIdentityMismatch (ck_id check)]
        else [rejecting C1 (checkReasonCode state) (ck_id check)])"

definition check_state :: "check_definition \<Rightarrow> evidence list \<Rightarrow> string \<times> check_run_status" where
  "check_state check fresh =
     (ck_id check, if isTrivialCheck check then CsMissing else fst (gateCheckState check fresh))"

definition criterion_covered :: "task \<Rightarrow> acceptance_criterion \<Rightarrow> bool" where
  "criterion_covered task criterion \<longleftrightarrow>
     list_ex (\<lambda>check. \<not> isTrivialCheck check \<and> ac_id criterion \<in> set (ck_coversCriteria check)) (t_checks task)"

definition evaluateC1 ::
  "task_gate_input \<Rightarrow> evidence list \<Rightarrow> gate_rejection list \<times> (string \<times> check_run_status) list"
where
  "evaluateC1 inp fresh = (let task = ti_task inp in
     ((if t_checks task = [] then [rejecting C1 NoChecks (t_id task)] else []) @
      concat (map (\<lambda>check. check_rejections check fresh) (t_checks task)) @
      map (\<lambda>criterion. rejecting C1 CriterionUncovered (ac_id criterion))
        (filter (\<lambda>criterion. \<not> criterion_covered task criterion) (t_acceptanceCriteria task)),
      map (\<lambda>check. check_state check fresh) (t_checks task)))"

section \<open>C2: a recorded answer, or the recorded fallback\<close>

definition TASK_EVIDENCE_GAP_QUESTION :: string where
  "TASK_EVIDENCE_GAP_QUESTION = ''task_evidence_gap''"

definition JEV_DISABLED_REASONS :: "string list" where
  "JEV_DISABLED_REASONS = [''jev_disabled'', ''jev_no_key'', ''jev_unavailable'']"

text \<open>
  \<open>gateStateHash\<close>: the default sort of arrays of arrays compares their comma-joined text.
\<close>

definition gateStateHash ::
  "(payload \<Rightarrow> content_hash) \<Rightarrow> task \<Rightarrow> git_sha \<Rightarrow> (string \<times> check_run_status) list \<Rightarrow> evidence list \<Rightarrow> content_hash"
where
  "gateStateHash sha task rv checkStates fresh = sha (PGateState
     \<lparr>gs_taskRevision = t_revision task, gs_revision = rv,
      gs_acceptanceCriteria = map (\<lambda>a. (ac_id a, ac_text a)) (t_acceptanceCriteria task),
      gs_checks = map (\<lambda>c. (ck_id c, ck_kind c, ck_command c, ck_cwd c, ck_expectedExitCode c,
        sort (ck_coversCriteria c))) (t_checks task),
      gs_checkStates = sort_key (\<lambda>(i, st). i @ '','' @ check_status_text st) checkStates,
      gs_evidence = sort_key (join_str '','') (map (\<lambda>e. e_id e # map pv_contentHash (e_provenance e)) fresh)\<rparr>)"

definition candidateDecisions ::
  "task_gate_input \<Rightarrow> git_sha \<Rightarrow> content_hash \<Rightarrow> decision list"
where
  "candidateDecisions inp rv stateHash =
     filter (\<lambda>d. d_subject d = Some (AboutTask (t_id (ti_task inp)) (t_revision (ti_task inp))) \<and>
        d_questionId d = TASK_EVIDENCE_GAP_QUESTION \<and> fr_revision (d_freshness d) = rv \<and>
        d_stateHash d = stateHash) (ti_decisions inp)"

definition evidencePasses :: "evidence \<Rightarrow> check_definition list \<Rightarrow> bool" where
  "evidencePasses row checks =
     (let expected = (case find (\<lambda>c. Some (ck_id c) = e_checkId row) checks of
            Some c \<Rightarrow> ck_expectedExitCode c | None \<Rightarrow> 0)
      in runStatusOf (e_exitStatus row) expected = CsPass)"

definition pathIsOwned :: "string \<Rightarrow> string list \<Rightarrow> bool" where
  "pathIsOwned path owned =
     (let target = norm_path path in
      list_ex (\<lambda>raw. let base = norm_path raw in
        base = [] \<or> base = ''.'' \<or> target = base \<or> starts_with (base @ ''/'') target) owned)"

definition coverage_gaps :: "task \<Rightarrow> evidence list \<Rightarrow> acceptance_criterion \<Rightarrow> gate_rejection list" where
  "coverage_gaps task fresh criterion =
     (if list_ex (\<lambda>check. \<not> isTrivialCheck check \<and> ac_id criterion \<in> set (ck_coversCriteria check) \<and>
            fst (gateCheckState check fresh) = CsPass) (t_checks task)
      then [] else [rejecting C2 FallbackCoverageGap (ac_id criterion)]) @
     (if list_ex (\<lambda>row. e_requirementId row = ac_id criterion \<and> evidencePasses row (t_checks task)) fresh
      then [] else [rejecting C2 FallbackCoverageGap (ac_id criterion)])"

definition provenance_gaps :: "task \<Rightarrow> evidence list \<Rightarrow> check_definition \<Rightarrow> gate_rejection list" where
  "provenance_gaps task fresh check =
     (if ck_kind check \<noteq> CkCommand \<and> ck_kind check \<noteq> CkAssertion then []
      else case latestResultFor check fresh of
        None \<Rightarrow> []
      | Some row \<Rightarrow>
          if list_ex (\<lambda>p. pathIsOwned (pv_path p) (ow_paths (t_ownership task))) (e_provenance row) then []
          else [rejecting C2 FallbackCoverageGap (ck_id check)])"

definition evaluateDetCoverage :: "task_gate_input \<Rightarrow> evidence list \<Rightarrow> gate_rejection list" where
  "evaluateDetCoverage inp fresh =
     concat (map (coverage_gaps (ti_task inp) fresh) (t_acceptanceCriteria (ti_task inp))) @
     concat (map (provenance_gaps (ti_task inp) fresh) (t_checks (ti_task inp)))"

definition is_fallback :: "decision \<Rightarrow> bool" where
  "is_fallback d \<longleftrightarrow> (case d_override d of
     None \<Rightarrow> False
   | Some ov \<Rightarrow> ov_actor ov = OvPolicy \<and> ov_reason ov \<in> set JEV_DISABLED_REASONS \<and>
       d_action d = ''deterministic_fallback'')"

definition evaluateC2 ::
  "task_gate_input \<Rightarrow> evidence list \<Rightarrow> content_hash \<Rightarrow> git_sha \<Rightarrow> gate_rejection list \<times> c2_branch option"
where
  "evaluateC2 inp fresh stateHash rv =
     (let candidates = candidateDecisions inp rv stateHash;
          jev = ti_jev inp;
          task = t_id (ti_task inp) in
      case find is_fallback candidates of
        Some fb \<Rightarrow>
          if map_option ov_reason (d_override fb) = Some ''jev_unavailable'' \<and> jv_enabled jev \<and> \<not> jv_optional jev
          then ([rejecting C2 JevUnavailable task], None)
          else (evaluateDetCoverage inp fresh, Some BranchFallback)
      | None \<Rightarrow>
          let answered = filter (\<lambda>d. d_override d = None) candidates in
          (case find (\<lambda>d. d_action d = ''no_gap'' \<and>
                jv_confidenceThreshold jev \<le> (case d_confidence d of None \<Rightarrow> 0 | Some c \<Rightarrow> c)) answered of
             Some noGap \<Rightarrow>
               if d_questionVersion noGap \<noteq> jv_questionVersion jev
               then ([rejecting C2 JevDecisionMissing task], None)
               else ([], Some BranchJev)
           | None \<Rightarrow>
               if list_ex (\<lambda>d. d_action d = ''error'') answered
               then ([rejecting C2 (if jv_optional jev then JevError else JevUnavailable) task], None)
               else if list_ex (\<lambda>d. d_action d = ''gap'' \<or> d_action d = ''no_gap'') answered
               then ([rejecting C2 JevGap task], None)
               else ([rejecting C2 JevDecisionMissing task], None)))"

section \<open>C3: the review the policy requires\<close>

text \<open>
  The loop of \<open>isIndependentReview\<close> over the handoff chain: does it meet the author? It stops at an
  attempt it has seen, so a cyclic chain ends.
\<close>

function (sequential) chain_meets_author :: "attempt list \<Rightarrow> string \<Rightarrow> string list \<Rightarrow> attempt option \<Rightarrow> bool" where
  "chain_meets_author attempts author seen None = False"
| "chain_meets_author attempts author seen (Some cur) =
     (if a_id cur \<in> set seen then False
      else if a_id cur = author then True
      else chain_meets_author attempts author (a_id cur # seen)
        (case a_handedOffFromAttemptId cur of None \<Rightarrow> None | Some p \<Rightarrow> js_map_get a_id attempts p))"
  by pat_completeness auto

definition unseen_ids :: "attempt list \<Rightarrow> string list \<Rightarrow> attempt option \<Rightarrow> string set" where
  "unseen_ids attempts seen cur = (a_id ` set_option cur \<union> a_id ` set attempts) - set seen"

lemma unseen_ids_decrease:
  assumes "a_id cur \<notin> set seen"
  shows "card (unseen_ids attempts (a_id cur # seen)
      (case a_handedOffFromAttemptId cur of None \<Rightarrow> None | Some p \<Rightarrow> js_map_get a_id attempts p)) <
    card (unseen_ids attempts seen (Some cur))"
proof (rule psubset_card_mono)
  show "finite (unseen_ids attempts seen (Some cur))"
    by (simp add: unseen_ids_def)
  have "a_id ` set_option (case a_handedOffFromAttemptId cur of None \<Rightarrow> None | Some p \<Rightarrow> js_map_get a_id attempts p)
      \<subseteq> a_id ` set attempts"
    by (auto split: option.splits dest: js_map_get_Some)
  then show "unseen_ids attempts (a_id cur # seen)
      (case a_handedOffFromAttemptId cur of None \<Rightarrow> None | Some p \<Rightarrow> js_map_get a_id attempts p)
      \<subset> unseen_ids attempts seen (Some cur)"
    using assms by (auto simp: unseen_ids_def)
qed

termination chain_meets_author
proof (relation "measure (\<lambda>(attempts, author, seen, cur). card (unseen_ids attempts seen cur))", goal_cases)
  case 1
  show ?case by simp
next
  case (2 attempts author seen cur)
  then show ?case
    unfolding in_measure prod.case by (intro unseen_ids_decrease)
qed

definition isIndependentReview :: "evidence \<Rightarrow> attempt option \<Rightarrow> attempt list \<Rightarrow> bool" where
  "isIndependentReview row author attempts =
     (case e_reviewer row of
        ByModel md att \<Rightarrow>
          (case author of
             None \<Rightarrow> True
           | Some au \<Rightarrow>
               let start = js_map_get a_id attempts att in
               if chain_meets_author attempts (a_id au) [] start then False
               else (case start of None \<Rightarrow> True
                 | Some reviewer \<Rightarrow> \<not> (a_role reviewer = Implementer \<or> a_role reviewer = Integrator)))
      | _ \<Rightarrow> False)"

fun review_reason :: "review_gate_reason \<Rightarrow> gate_reason" where
  "review_reason RgMissing = ReviewMissing"
| "review_reason RgStaleRevision = ReviewStaleRevision"
| "review_reason RgNotIndependent = ReviewNotIndependent"
| "review_reason RgBlockingUnresolved = BlockingFindingUnresolved"

definition reviewRecordRejections ::
  "(string \<Rightarrow> nat list) \<Rightarrow> task_gate_input \<Rightarrow> gate_rejection list"
where
  "reviewRecordRejections collation inp =
     (case (ti_reviews inp, ti_revision inp) of
        (Some reviews, Some rv) \<Rightarrow>
          let verdict = reviewGateVerdict collation
            \<lparr>ra_required = True, ra_revision = rv, ra_taskRevision = t_revision (ti_task inp),
             ra_reviews = reviews,
             ra_authorAttemptId = map_option a_id (claimingAttempt (ti_task inp) (ti_attempts inp)),
             ra_isNewer = (case ti_isNewerRevision inp of None \<Rightarrow> (\<lambda>_ _. False) | Some f \<Rightarrow> f)\<rparr>
          in if vd_satisfied verdict then []
             else map (\<lambda>why. rejecting C3 (review_reason why) (join_str '', '' (vd_blocking verdict))) (vd_reasons verdict)
      | _ \<Rightarrow> [])"

text \<open>The loop over the approvals returns no rejection as soon as one is usable.\<close>

fun approvals_unusable :: "task_gate_input \<Rightarrow> approval list \<Rightarrow> gate_rejection list \<Rightarrow> gate_rejection list" where
  "approvals_unusable inp [] reasons = reasons"
| "approvals_unusable inp (ap # aps) reasons =
     (case approvalInvalidReason ap (Some (t_id (ti_task inp), t_revision (ti_task inp)))
             (wf_planRevision (ti_workflow inp)) (ti_now inp) of
        None \<Rightarrow> []
      | Some why \<Rightarrow> approvals_unusable inp aps (reasons @ [rejecting C3 (ApprovalInvalid why) (ap_id ap)]))"

definition scoped_approval :: "task_gate_input \<Rightarrow> approval \<Rightarrow> bool" where
  "scoped_approval inp ap \<longleftrightarrow> ap_workflowId ap = wf_id (ti_workflow inp) \<and>
     ap_scope ap = ScTask (t_id (ti_task inp)) \<and> ap_permittedAction ap = ''complete_task''"

definition approvalRejections :: "task_gate_input \<Rightarrow> gate_rejection list" where
  "approvalRejections inp =
     (let task = ti_task inp;
          scoped = filter (scoped_approval inp) (ti_approvals inp);
          byUser = filter (\<lambda>a. is_user (ap_actor a)) scoped;
          underRisk = filter (\<lambda>a. t_riskClass task \<le> ap_riskClass a) byUser in
      if scoped = [] then [rejecting C3 ApprovalMissing (t_id task)]
      else if byUser = [] then [rejecting C3 ApprovalActorNotUser (t_id task)]
      else if underRisk = [] then [rejecting C3 ApprovalMissing (t_id task)]
      else approvals_unusable inp underRisk [])"

definition policy_stale :: "task_gate_input \<Rightarrow> bool" where
  "policy_stale inp = (case ti_policy inp of
     None \<Rightarrow> True
   | Some po \<Rightarrow> Some (po_revision po) \<noteq> ti_revision inp \<or> po_taskRevision po \<noteq> t_revision (ti_task inp) \<or>
       po_policyVersion po \<noteq> wf_policyVersion (ti_workflow inp))"

definition passing_review_row :: "evidence \<Rightarrow> bool" where
  "passing_review_row row \<longleftrightarrow> (case e_reviewer row of ByModel md att \<Rightarrow> True | _ \<Rightarrow> False) \<and> e_exitStatus row = Exited 0"

definition evaluateC3 :: "(string \<Rightarrow> nat list) \<Rightarrow> task_gate_input \<Rightarrow> evidence list \<Rightarrow> gate_rejection list" where
  "evaluateC3 collation inp fresh =
     (let task = ti_task inp;
          humanApproval = ((case ti_policy inp of None \<Rightarrow> False | Some po \<Rightarrow> po_humanApproval po) \<or>
                           t_riskClass task = RiskHigh);
          modelReview = (case ti_policy inp of None \<Rightarrow> False | Some po \<Rightarrow> po_modelReview po);
          author = claimingAttempt task (ti_attempts inp);
          reviews = filter passing_review_row fresh in
      (if policy_stale inp then [rejecting C3 PolicyResultMissing (t_id task)] else []) @
      (if modelReview
       then (if reviews = [] then [rejecting C3 ReviewMissing (t_id task)]
             else if \<not> list_ex (\<lambda>row. isIndependentReview row author (ti_attempts inp)) reviews
             then [rejecting C3 ReviewNotIndependent (t_id task)] else []) @
            reviewRecordRejections collation inp
       else []) @
      (if humanApproval then approvalRejections inp else []))"

section \<open>The gate\<close>

definition outcome_text :: "attempt_outcome option \<Rightarrow> string" where
  "outcome_text oc = (case oc of None \<Rightarrow> [] | Some OcSucceeded \<Rightarrow> ''succeeded'' | Some OcFailed \<Rightarrow> ''failed''
     | Some OcCancelled \<Rightarrow> ''cancelled'' | Some OcHandedOff \<Rightarrow> ''handed_off'' | Some OcAbandoned \<Rightarrow> ''abandoned''
     | Some OcInterrupted \<Rightarrow> ''interrupted'' | Some OcPausedCap \<Rightarrow> ''paused_cap'')"

primrec role_text :: "worker_role \<Rightarrow> string" where
  "role_text Scout = ''scout''"
| "role_text Planner = ''planner''"
| "role_text Implementer = ''implementer''"
| "role_text Verifier = ''verifier''"
| "role_text Reviewer = ''reviewer''"
| "role_text Integrator = ''integrator''"

primrec invalidation_text :: "invalidation_reason \<Rightarrow> string" where
  "invalidation_text IrTaskRevisionChanged = ''task_revision_changed''"
| "invalidation_text IrPlanRevisionChanged = ''plan_revision_changed''"
| "invalidation_text IrExpired = ''expired''"
| "invalidation_text IrModeChanged = ''mode_changed''"
| "invalidation_text IrPolicyVersionChanged = ''policy_version_changed''"
| "invalidation_text IrConsumed = ''consumed''"
| "invalidation_text IrRevoked = ''revoked''"
| "invalidation_text IrSessionReconciled = ''session_reconciled''"

definition taskGateInputHash ::
  "(payload \<Rightarrow> content_hash) \<Rightarrow> (string \<Rightarrow> nat list) \<Rightarrow> task_gate_input \<Rightarrow> content_hash"
where
  "taskGateInputHash sha collation inp = (let wf = ti_workflow inp; task = ti_task inp in sha (PGateInput
     \<lparr>gi_workflow = (wf_id wf, wf_planRevision wf, wf_policyVersion wf, wf_mode wf),
      gi_task = \<lparr>gt_id = t_id task, gt_revision = t_revision task, gt_status = t_status task,
        gt_riskClass = t_riskClass task, gt_blocker = t_blocker task,
        gt_acceptanceCriteria = t_acceptanceCriteria task, gt_checks = t_checks task,
        gt_ownership = t_ownership task\<rparr>,
      gi_revision = ti_revision inp,
      gi_evidence = sort (map e_id (ti_evidence inp)),
      gi_decisions = sort (map d_id (ti_decisions inp)),
      gi_approvals = sort_key (\<lambda>(i, why). i @ '','' @ (case why of None \<Rightarrow> [] | Some r \<Rightarrow> invalidation_text r))
        (map (\<lambda>a. (ap_id a, map_option iv_reason (ap_invalidation a))) (ti_approvals inp)),
      gi_attempts = sort_key (\<lambda>(i, oc, r). join_str '','' [i, outcome_text oc, role_text r])
        (map (\<lambda>a. (a_id a, a_outcome a, a_role a)) (ti_attempts inp)),
      gi_unresolvedBlockers = sort (ti_unresolvedBlockers inp),
      gi_policy = ti_policy inp,
      gi_reviews = sort_key (\<lambda>(i, rv, tr, ph, fs). join_str '','' [i, rv, digits tr, ph, join_str '','' fs])
        (map (\<lambda>r. (rv_id r, rv_revision r, rv_taskRevision r, rv_promptHash r,
             map f_id (blockingFindings collation (rv_findings r))))
          (case ti_reviews inp of None \<Rightarrow> [] | Some rs \<Rightarrow> rs)),
      gi_jev = ti_jev inp, gi_now = ti_now inp\<rparr>))"

text \<open>Every condition is evaluated, whatever the others say.\<close>

definition evaluateTaskGate ::
  "(payload \<Rightarrow> content_hash) \<Rightarrow> (string \<Rightarrow> nat list) \<Rightarrow> task_gate_input \<Rightarrow> task_gate_result"
where
  "evaluateTaskGate sha collation inp =
     (let inputHash = taskGateInputHash sha collation inp in
      case ti_revision inp of
        None \<Rightarrow>
          let rejection = rejecting C1 RevisionUnavailable (t_id (ti_task inp)) in
          \<lparr>tg_pass = False,
           tg_conditions = map (\<lambda>c. \<lparr>cv_id = c, cv_satisfied = False, cv_reasonCode = Some RevisionUnavailable,
             cv_failures = [rejection]\<rparr>) TASK_GATE_CONDITIONS,
           tg_reasons = [rejection], tg_inputHash = inputHash, tg_c2Branch = None, tg_checkStates = []\<rparr>
      | Some rv \<Rightarrow>
          let fresh = freshEvidence (ti_task inp) (ti_evidence inp) rv;
              c1 = evaluateC1 inp fresh;
              stateHash = gateStateHash sha (ti_task inp) rv (snd c1) fresh;
              c2 = evaluateC2 inp fresh stateHash rv;
              byCondition = (\<lambda>c. case c of C0 \<Rightarrow> evaluateC0 inp | C1 \<Rightarrow> fst c1 | C2 \<Rightarrow> fst c2
                | C3 \<Rightarrow> evaluateC3 collation inp fresh);
              reasons = concat (map byCondition TASK_GATE_CONDITIONS) in
          \<lparr>tg_pass = (reasons = []),
           tg_conditions = map (\<lambda>c. \<lparr>cv_id = c, cv_satisfied = (byCondition c = []),
             cv_reasonCode = (case byCondition c of [] \<Rightarrow> None | f # fs \<Rightarrow> Some (rj_reasonCode f)),
             cv_failures = byCondition c\<rparr>) TASK_GATE_CONDITIONS,
           tg_reasons = reasons, tg_inputHash = inputHash, tg_c2Branch = snd c2, tg_checkStates = snd c1\<rparr>)"

section \<open>Recording the verdict, and completing a task\<close>

text \<open>The reason codes as the receipt stores them.\<close>

fun reason_text :: "gate_reason \<Rightarrow> string" where
  "reason_text NotInReview = ''not_in_review''"
| "reason_text BlockerPresent = ''blocker_present''"
| "reason_text NoCompletionClaim = ''no_completion_claim''"
| "reason_text NoChecks = ''no_checks''"
| "reason_text CheckTrivial = ''check_trivial''"
| "reason_text CheckFail = ''check_fail''"
| "reason_text CheckFlaky = ''check_flaky''"
| "reason_text CheckMissing = ''check_missing''"
| "reason_text CheckUnavailable = ''check_unavailable''"
| "reason_text CheckTimeout = ''check_timeout''"
| "reason_text CriterionUncovered = ''criterion_uncovered''"
| "reason_text CommandIdentityMismatch = ''command_identity_mismatch''"
| "reason_text JevGap = ''jev_gap''"
| "reason_text JevError = ''jev_error''"
| "reason_text JevDecisionMissing = ''jev_decision_missing''"
| "reason_text JevUnavailable = ''jev_unavailable''"
| "reason_text FallbackCoverageGap = ''fallback_coverage_gap''"
| "reason_text ReviewMissing = ''review_missing''"
| "reason_text ReviewNotIndependent = ''review_not_independent''"
| "reason_text ReviewStaleRevision = ''review_stale_revision''"
| "reason_text BlockingFindingUnresolved = ''blocking_finding_unresolved''"
| "reason_text ApprovalMissing = ''approval_missing''"
| "reason_text ApprovalActorNotUser = ''approval_actor_not_user''"
| "reason_text PolicyResultMissing = ''policy_result_missing''"
| "reason_text RevisionUnavailable = ''revision_unavailable''"
| "reason_text (ApprovalInvalid why) = ''approval_invalid:'' @ invalidation_text why"

primrec condition_text :: "gate_condition \<Rightarrow> string" where
  "condition_text C0 = ''C0''"
| "condition_text C1 = ''C1''"
| "condition_text C2 = ''C2''"
| "condition_text C3 = ''C3''"

text \<open>
  The caller's options. \<open>go_detail\<close> renders the sentence of a rejection, \<open>go_resolve\<close> reads the
  revision of a worktree.
\<close>

record gate_options =
  go_policy :: "policy_review_result option"
  go_jev :: jev_gate_config
  go_now :: iso_timestamp
  go_worktreePath :: string
  go_resolve :: "string \<Rightarrow> git_sha option"
  go_detail :: "gate_rejection \<Rightarrow> string"
  go_collation :: "string \<Rightarrow> nat list"

definition explainTaskGate :: "(gate_rejection \<Rightarrow> string) \<Rightarrow> task_gate_result \<Rightarrow> string" where
  "explainTaskGate detail result =
     (if tg_pass result
      then ''task gate passed: checks, evidence-gap assessment and policy review all satisfied''
      else join_str newline (map (\<lambda>r. condition_text (rj_condition r) @ '' '' @
        reason_text (rj_reasonCode r) @ '': '' @ detail r) (tg_reasons result)))"

definition condition_row :: "(gate_rejection \<Rightarrow> string) \<Rightarrow> gate_condition_verdict \<Rightarrow> gate_condition_result" where
  "condition_row detail cv = \<lparr>gc_id = condition_text (cv_id cv), gc_satisfied = cv_satisfied cv,
     gc_reasonCode = map_option reason_text (cv_reasonCode cv),
     gc_detail = (if cv_failures cv = [] then None else Some (join_str ''; '' (map detail (cv_failures cv))))\<rparr>"

definition receipt_of :: "gate_options \<Rightarrow> task \<Rightarrow> git_sha option \<Rightarrow> task_gate_result \<Rightarrow> string \<Rightarrow> gate_receipt" where
  "receipt_of opts task rv result rid =
     \<lparr>g_receiptId = rid, g_createdAt = go_now opts, g_workflowId = t_workflowId task, g_gate = GkTask,
      g_subjectId = t_id task, g_subjectRevision = t_revision task,
      g_revision = (case rv of None \<Rightarrow> replicate 40 (CHR ''0'') | Some r \<Rightarrow> r),
      g_disposition = (if tg_pass result then GdPass else GdReject),
      g_reasonCode = (if tg_pass result then None
        else map_option (reason_text \<circ> rj_reasonCode) (case tg_reasons result of [] \<Rightarrow> None | r # rs \<Rightarrow> Some r)),
      g_detail = (if tg_pass result then None else Some (explainTaskGate (go_detail opts) result)),
      g_inputHash = tg_inputHash result, g_evaluatedAt = go_now opts, g_consumedAt = None,
      g_conditions = map (condition_row (go_detail opts)) (tg_conditions result)\<rparr>"

text \<open>What \<open>runTaskGate\<close> reads from the store: \<open>findBy\<close> orders by creation time and id.\<close>

definition gate_input :: "gate_options \<Rightarrow> workflow \<Rightarrow> task \<Rightarrow> db \<Rightarrow> task_gate_input" where
  "gate_input opts workflow task d =
     \<lparr>ti_workflow = workflow, ti_task = task, ti_revision = go_resolve opts (go_worktreePath opts),
      ti_evidence = sort_key (\<lambda>e. (e_createdAt e, e_id e)) (filter (\<lambda>e. e_taskId e = t_id task) (db_evidence d)),
      ti_decisions = sort_key (\<lambda>x. (d_createdAt x, d_id x))
        (filter (\<lambda>x. d_workflowId x = wf_id workflow) (db_decisions d)),
      ti_approvals = repo_query approvalRepo (\<lambda>a. ap_workflowId a = wf_id workflow) d,
      ti_attempts = attempts_forTask (t_id task) d,
      ti_unresolvedBlockers = map b_kind (unresolvedForSubject SkTask (t_id task) d),
      ti_policy = go_policy opts, ti_reviews = None, ti_isNewerRevision = None, ti_jev = go_jev opts,
      ti_now = go_now opts\<rparr>"

definition runTaskGate :: "gate_options \<Rightarrow> string \<Rightarrow> (task_gate_result \<times> gate_receipt) io" where
  "runTaskGate opts taskId =
     andThen (repo_require taskRepo taskId) (\<lambda>task.
     andThen (repo_require workflowRepo (t_workflowId task)) (\<lambda>workflow.
     andThen (getDb (gate_input opts workflow task)) (\<lambda>inp.
     andThen (gets (\<lambda>w. env_sha (w_env w))) (\<lambda>sha.
     let result = evaluateTaskGate sha (go_collation opts) inp in
     andThen newId (\<lambda>rid.
     andThen (receipt_record (receipt_of opts task (ti_revision inp) result rid)) (\<lambda>receipt.
     ret (result, receipt)))))))"

definition condition_satisfied :: "task_gate_result \<Rightarrow> gate_condition \<Rightarrow> bool" where
  "condition_satisfied result c =
     (case find (\<lambda>cv. cv_id cv = c) (tg_conditions result) of None \<Rightarrow> False | Some cv \<Rightarrow> cv_satisfied cv)"

definition taskGateHooks :: "task_gate_result \<Rightarrow> task_gate_hooks" where
  "taskGateHooks result =
     (let satisfied = (\<lambda>c. of_verdict (condition_satisfied result c \<and> condition_satisfied result C0)) in
      \<lparr>th_allChecksPassAtExactRevision = Some (\<lambda>_. satisfied C1),
       th_noJevGapOrDisabled = Some (\<lambda>_. satisfied C2),
       th_policyReviewSatisfied = Some (\<lambda>_. satisfied C3)\<rparr>)"

definition done_request ::
  "transition_actor \<Rightarrow> string list \<Rightarrow> string \<Rightarrow> task_gate_result \<Rightarrow> gate_receipt \<Rightarrow> task_status transition_request"
where
  "done_request actor evidenceRefs taskId result receipt =
     \<lparr>rq_subject = taskId, rq_to = Known Done, rq_actor = actor, rq_trigger = ''task_gate_passed'',
      rq_guards = taskDoneGuards (taskGateHooks result), rq_evidenceRefs = evidenceRefs,
      rq_gitRevision = Some (g_revision receipt), rq_expectedStatus = None, rq_expectedRevision = None,
      rq_blocker = None, rq_gateReceiptId = Some (g_receiptId receipt)\<rparr>"

text \<open>The timestamps of the transition are taken from the world's clock.\<close>

definition completeTask ::
  "gate_options \<Rightarrow> transition_actor \<Rightarrow> string list \<Rightarrow> string \<Rightarrow>
   (task_gate_result \<times> gate_receipt \<times> (task, task_edge) transition_result option) io"
where
  "completeTask opts actor evidenceRefs taskId =
     andThen (runTaskGate opts taskId) (\<lambda>(result, receipt).
       if \<not> tg_pass result then ret (result, receipt, None)
       else andThen (transitionTask (done_request actor evidenceRefs taskId result receipt)) (\<lambda>tr.
              ret (result, receipt, Some tr)))"

section \<open>What each condition demands\<close>

lemma set_freshEvidence:
  "row \<in> set (freshEvidence task rows rv) \<longleftrightarrow>
     row \<in> set rows \<and> e_taskId row = t_id task \<and> e_revision row = rv \<and>
     e_taskRevision row = t_revision task \<and> Some (e_id row) \<notin> e_supersedesId ` set rows"
proof -
  have "set (supersededIds rows) = {i. Some i \<in> e_supersedesId ` set rows}"
    by (induction rows) (auto simp: supersededIds_def List.map_filter_simps split: option.splits)
  then show ?thesis
    by (auto simp: freshEvidence_def stalenessReason_def)
qed

lemma claimingAttempt_None:
  "claimingAttempt task attempts = None \<longleftrightarrow>
     \<not> (\<exists>a \<in> set attempts. a_taskId a = t_id task \<and> a_taskRevision a = t_revision task \<and>
          (a_role a = Implementer \<or> a_role a = Integrator) \<and> a_outcome a = Some OcSucceeded)"
  by (auto simp: claimingAttempt_def AUTHOR_ROLES_def filter_empty_conv simp flip: set_empty)

lemma evaluateC0_Nil:
  "evaluateC0 inp = [] \<longleftrightarrow>
     t_status (ti_task inp) = Review \<and> t_blocker (ti_task inp) = None \<and> ti_unresolvedBlockers inp = [] \<and>
     (\<exists>a \<in> set (ti_attempts inp). a_taskId a = t_id (ti_task inp) \<and>
        a_taskRevision a = t_revision (ti_task inp) \<and>
        (a_role a = Implementer \<or> a_role a = Integrator) \<and> a_outcome a = Some OcSucceeded)"
  by (auto simp: evaluateC0_def Let_def claimingAttempt_None)

text \<open>The row a check is judged by: the latest fresh row of the right kind of reviewer.\<close>

definition answers :: "task_gate_input \<Rightarrow> git_sha \<Rightarrow> check_definition \<Rightarrow> evidence \<Rightarrow> bool" where
  "answers inp rv check row \<longleftrightarrow>
     row \<in> set (ti_evidence inp) \<and> e_taskId row = t_id (ti_task inp) \<and> e_revision row = rv \<and>
     e_taskRevision row = t_revision (ti_task inp) \<and>
     Some (e_id row) \<notin> e_supersedesId ` set (ti_evidence inp) \<and>
     e_checkId row = Some (ck_id check) \<and> wanted_reviewer check (e_reviewer row)"

text \<open>A row that shows its check passed: the registered command left the expected exit code.\<close>

definition succeeded :: "check_definition \<Rightarrow> evidence \<Rightarrow> bool" where
  "succeeded check row =
     (if ck_kind check = CkHuman then e_exitStatus row = Exited 0
      else e_exitStatus row = Exited (ck_expectedExitCode check) \<and>
        (\<exists>ident. e_commandIdentity row = Some ident \<and> ci_command ident = ck_command check \<and>
           ci_cwd ident = ck_cwd check))"

lemma latestResultFor_Some:
  assumes "latestResultFor check (freshEvidence (ti_task inp) (ti_evidence inp) rv) = Some row"
  shows "answers inp rv check row"
    and "answers inp rv check row' \<Longrightarrow> (e_createdAt row', e_id row') \<le> (e_createdAt row, e_id row)"
proof -
  define P where "P = (\<lambda>r :: evidence. e_checkId r = Some (ck_id check) \<and> wanted_reviewer check (e_reviewer r))"
  define Q where "Q = (\<lambda>r :: evidence. e_taskId r = t_id (ti_task inp) \<and>
    stalenessReason r (t_revision (ti_task inp)) rv (supersededIds (ti_evidence inp)) = None)"
  have L: "last_opt (filter P (freshEvidence (ti_task inp) (ti_evidence inp) rv)) = Some row"
    using assms by (simp add: latestResultFor_def P_def)
  have mem: "answers inp rv check r \<longleftrightarrow> r \<in> set (filter P (freshEvidence (ti_task inp) (ti_evidence inp) rv))" for r
    by (auto simp: answers_def P_def set_freshEvidence)
  show "answers inp rv check row"
    using last_opt_Some [OF L] by (simp add: mem)
  have "filter P (freshEvidence (ti_task inp) (ti_evidence inp) rv) =
      sort_key (\<lambda>r. (e_createdAt r, e_id r)) (filter P (filter Q (ti_evidence inp)))"
    unfolding freshEvidence_def Q_def by (rule filter_sort)
  with L have S: "last_opt (sort_key (\<lambda>r. (e_createdAt r, e_id r)) (filter P (filter Q (ti_evidence inp)))) = Some row"
    by simp
  assume "answers inp rv check row'"
  then have "row' \<in> set (filter P (filter Q (ti_evidence inp)))"
    by (auto simp: mem freshEvidence_def Q_def)
  from last_opt_sort_key_max [OF S this] show "(e_createdAt row', e_id row') \<le> (e_createdAt row, e_id row)" .
qed

lemma gateCheckState_pass:
  "fst (gateCheckState check fresh) = CsPass \<longleftrightarrow>
     (\<exists>row. latestResultFor check fresh = Some row \<and> succeeded check row)"
  by (auto simp: gateCheckState_def succeeded_def runStatusOf_pass Let_def split: option.splits)

lemma check_rejections_Nil:
  "check_rejections check fresh = [] \<longleftrightarrow>
     \<not> isTrivialCheck check \<and> fst (gateCheckState check fresh) = CsPass"
  by (simp add: check_rejections_def split: prod.split)

lemma evaluateC1_Nil:
  "fst (evaluateC1 inp fresh) = [] \<longleftrightarrow>
     t_checks (ti_task inp) \<noteq> [] \<and>
     (\<forall>check \<in> set (t_checks (ti_task inp)). \<not> isTrivialCheck check \<and>
        (\<exists>row. latestResultFor check fresh = Some row \<and> succeeded check row)) \<and>
     (\<forall>criterion \<in> set (t_acceptanceCriteria (ti_task inp)). criterion_covered (ti_task inp) criterion)"
  by (simp add: evaluateC1_def Let_def check_rejections_Nil gateCheckState_pass filter_empty_conv)

end
