(* ===== verification/TaskGateProperties.thy ===== *)
theory TaskGateProperties
  imports TaskGate TaskTransitions
begin

text \<open>
  The properties of the task gate: what a pass proves, what Jev's answers cannot change, the
  independence of a review, and what completing a task writes.
\<close>

section \<open>Independence of a review\<close>

text \<open>One step of the handoff chain, and the contexts an attempt's work passed through.\<close>

definition handed_off_from :: "attempt list \<Rightarrow> (string \<times> string) set" where
  "handed_off_from attempts = {(i, j). \<exists>a. js_map_get a_id attempts i = Some a \<and>
     a_handedOffFromAttemptId a = Some j \<and> js_map_get a_id attempts j \<noteq> None}"

definition shares_context :: "attempt list \<Rightarrow> string \<Rightarrow> string \<Rightarrow> bool" where
  "shares_context attempts i author \<longleftrightarrow>
     js_map_get a_id attempts i \<noteq> None \<and> (i, author) \<in> (handed_off_from attempts)\<^sup>*"

lemma chain_meets_author_sound:
  "chain_meets_author attempts author seen cur \<Longrightarrow> cur = Some c \<Longrightarrow>
     js_map_get a_id attempts (a_id c) = Some c \<Longrightarrow>
     (a_id c, author) \<in> (handed_off_from attempts)\<^sup>*"
proof (induction attempts author seen cur arbitrary: c rule: chain_meets_author.induct)
  case (1 attempts author seen)
  then show ?case by simp
next
  case (2 attempts author seen cur)
  show ?case
  proof (cases "a_id cur = author")
    case True
    with 2 show ?thesis by auto
  next
    case False
    define nxt where "nxt = (case a_handedOffFromAttemptId cur of None \<Rightarrow> None | Some p \<Rightarrow> js_map_get a_id attempts p)"
    from 2 False have run: "chain_meets_author attempts author (a_id cur # seen) nxt"
      by (auto simp: nxt_def split: if_splits)
    then obtain n where n: "nxt = Some n"
      by (cases nxt) auto
    then obtain p where p: "a_handedOffFromAttemptId cur = Some p" "js_map_get a_id attempts p = Some n"
      by (auto simp: nxt_def split: option.splits)
    have pn: "a_id n = p"
      using js_map_get_Some [OF p(2)] by simp
    have "(a_id n, author) \<in> (handed_off_from attempts)\<^sup>*"
      using 2 False run n p pn by (auto simp: nxt_def split: if_splits)
    moreover have "(a_id cur, a_id n) \<in> handed_off_from attempts"
      using 2 p pn by (auto simp: handed_off_from_def)
    ultimately show ?thesis
      using 2 by (auto intro: converse_rtrancl_into_rtrancl)
  qed
qed

text \<open>
  When the walk does not meet the author, the ids it saw are closed under the chain: they include
  everything the start leads to, and the author is not among them.
\<close>

definition chain_closed :: "attempt list \<Rightarrow> string set \<Rightarrow> string set \<Rightarrow> bool" where
  "chain_closed attempts S T \<longleftrightarrow> (\<forall>i j. i \<in> S \<and> (i, j) \<in> handed_off_from attempts \<longrightarrow> j \<in> T)"

lemma chain_meets_author_complete:
  "\<not> chain_meets_author attempts author seen cur \<Longrightarrow> author \<notin> set seen \<Longrightarrow>
     (\<forall>c. cur = Some c \<longrightarrow> js_map_get a_id attempts (a_id c) = Some c) \<Longrightarrow>
     chain_closed attempts (set seen) (set seen \<union> a_id ` set_option cur) \<Longrightarrow>
     \<exists>S. set seen \<union> a_id ` set_option cur \<subseteq> S \<and> author \<notin> S \<and> chain_closed attempts S S"
proof (induction attempts author seen cur rule: chain_meets_author.induct)
  case (1 attempts author seen)
  then show ?case by auto
next
  case (2 attempts author seen cur)
  show ?case
  proof (cases "a_id cur \<in> set seen")
    case True
    with 2 show ?thesis by (intro exI [of _ "set seen"]) (auto simp: insert_absorb)
  next
    case False
    define nxt where "nxt = (case a_handedOffFromAttemptId cur of None \<Rightarrow> None | Some p \<Rightarrow> js_map_get a_id attempts p)"
    have author: "a_id cur \<noteq> author"
      using 2 False by auto
    have run: "\<not> chain_meets_author attempts author (a_id cur # seen) nxt"
      using 2 False author by (simp add: nxt_def)
    have nxt_get: "js_map_get a_id attempts (a_id c) = Some c" if "nxt = Some c" for c
      using that by (auto simp: nxt_def split: option.splits dest: js_map_get_Some)
    have "j \<in> a_id ` set_option nxt" if "(a_id cur, j) \<in> handed_off_from attempts" for j
      using that 2(4) by (auto simp: handed_off_from_def nxt_def dest: js_map_get_Some)
    with 2 have closed: "chain_closed attempts (set (a_id cur # seen)) (set (a_id cur # seen) \<union> a_id ` set_option nxt)"
      by (auto simp: chain_closed_def)
    have "\<exists>S. set (a_id cur # seen) \<union> a_id ` set_option nxt \<subseteq> S \<and> author \<notin> S \<and> chain_closed attempts S S"
      using 2(1) [OF False author] run closed nxt_get author 2(3) by (auto simp: nxt_def)
    then show ?thesis by auto
  qed
qed

lemma chain_closed_rtrancl:
  "(i, j) \<in> (handed_off_from attempts)\<^sup>* \<Longrightarrow> chain_closed attempts S S \<Longrightarrow> i \<in> S \<Longrightarrow> j \<in> S"
  by (induction rule: rtrancl_induct) (auto simp: chain_closed_def)

lemma chain_meets_author_iff:
  "chain_meets_author attempts author [] (js_map_get a_id attempts i) \<longleftrightarrow> shares_context attempts i author"
proof (cases "js_map_get a_id attempts i")
  case None
  then show ?thesis by (simp add: shares_context_def)
next
  case (Some c)
  then have c: "a_id c = i"
    using js_map_get_Some [OF Some] by simp
  show ?thesis
  proof
    assume "chain_meets_author attempts author [] (js_map_get a_id attempts i)"
    from chain_meets_author_sound [OF this Some] Some show "shares_context attempts i author"
      by (simp add: shares_context_def c)
  next
    assume shared: "shares_context attempts i author"
    show "chain_meets_author attempts author [] (js_map_get a_id attempts i)"
    proof (rule ccontr)
      assume "\<not> chain_meets_author attempts author [] (js_map_get a_id attempts i)"
      then have "\<exists>S. set [] \<union> a_id ` set_option (js_map_get a_id attempts i) \<subseteq> S \<and> author \<notin> S \<and>
          chain_closed attempts S S"
        by (rule chain_meets_author_complete) (simp_all add: Some c chain_closed_def)
      then obtain S where "i \<in> S" "author \<notin> S" "chain_closed attempts S S"
        by (auto simp: Some c)
      with shared show False
        by (auto simp: shares_context_def dest: chain_closed_rtrancl)
    qed
  qed
qed

text \<open>
  C9. The walk over the handoff chain ends on every chain, cyclic ones included, and a review row counts
  as independent of an author exactly when a model made it in an attempt whose chain of handoffs does
  not reach the authoring attempt, and that attempt is neither an implementer's nor an integrator's.
\<close>

theorem isIndependentReview_correct:
  "isIndependentReview row (Some author) attempts \<longleftrightarrow>
     (\<exists>md att. e_reviewer row = ByModel md att \<and> \<not> shares_context attempts att (a_id author) \<and>
        \<not> (\<exists>a. js_map_get a_id attempts att = Some a \<and> a_role a \<in> {Implementer, Integrator}))"
  by (cases "e_reviewer row")
    (auto simp: isIndependentReview_def Let_def chain_meets_author_iff split: option.splits)

text \<open>With no author on record the role of the reviewing attempt is not looked at.\<close>

lemma implementer_reviews_without_author:
  "e_reviewer row = ByModel md att \<Longrightarrow> isIndependentReview row None attempts"
  by (simp add: isIndependentReview_def)

section \<open>What a pass proves\<close>

lemma evaluateC2_Nil:
  assumes "fst (evaluateC2 inp fresh h rv) = []"
  obtains (fallback) d ov where "d \<in> set (candidateDecisions inp rv h)" "d_override d = Some ov"
      "ov_actor ov = OvPolicy" "ov_reason ov \<in> set JEV_DISABLED_REASONS" "d_action d = ''deterministic_fallback''"
      "ov_reason ov = ''jev_unavailable'' \<longrightarrow> \<not> jv_enabled (ti_jev inp) \<or> jv_optional (ti_jev inp)"
      "evaluateDetCoverage inp fresh = []"
  | (answered) d where "d \<in> set (candidateDecisions inp rv h)" "d_override d = None" "d_action d = ''no_gap''"
      "jv_confidenceThreshold (ti_jev inp) \<le> (case d_confidence d of None \<Rightarrow> 0 | Some c \<Rightarrow> c)"
      "d_questionVersion d = jv_questionVersion (ti_jev inp)"
proof (cases "find is_fallback (candidateDecisions inp rv h)")
  case (Some d)
  then have "is_fallback d" "d \<in> set (candidateDecisions inp rv h)"
    by (auto dest: find_Some_D)
  with assms Some fallback [of d] show ?thesis
    by (auto simp: evaluateC2_def is_fallback_def Let_def split: if_splits option.splits)
next
  case None
  define P where "P = (\<lambda>d :: decision. d_action d = ''no_gap'' \<and>
    jv_confidenceThreshold (ti_jev inp) \<le> (case d_confidence d of None \<Rightarrow> 0 | Some c \<Rightarrow> c))"
  from assms None obtain d where d: "find P (filter (\<lambda>d. d_override d = None) (candidateDecisions inp rv h)) = Some d"
    "d_questionVersion d = jv_questionVersion (ti_jev inp)"
    by (auto simp: evaluateC2_def Let_def P_def split: if_splits option.splits)
  then have "P d" "d \<in> set (filter (\<lambda>d. d_override d = None) (candidateDecisions inp rv h))"
    by (auto dest: find_Some_D)
  with answered [of d] d(2) show ?thesis
    by (simp add: P_def)
qed

lemma approvals_unusable_keeps: "reasons \<noteq> [] \<Longrightarrow> approvals_unusable inp aps reasons = [] \<longleftrightarrow>
    (\<exists>ap \<in> set aps. approvalInvalidReason ap (Some (t_id (ti_task inp), t_revision (ti_task inp)))
             (wf_planRevision (ti_workflow inp)) (ti_now inp) = None)"
  by (induction aps arbitrary: reasons) (auto split: option.splits)

text \<open>The approval condition 3 asks for: a user's, unexpired, for this task at these revisions.\<close>

definition usable_approval :: "task_gate_input \<Rightarrow> approval \<Rightarrow> bool" where
  "usable_approval inp ap \<longleftrightarrow> scoped_approval inp ap \<and> is_user (ap_actor ap) \<and>
     t_riskClass (ti_task inp) \<le> ap_riskClass ap \<and> ap_invalidation ap = None \<and>
     (\<forall>x. ap_expiresAt ap = Some x \<longrightarrow> ti_now inp < x) \<and>
     ap_planRevision ap = wf_planRevision (ti_workflow inp) \<and>
     ap_taskRevision ap = Some (t_revision (ti_task inp))"

lemma approvalRejections_Nil:
  "approvalRejections inp = [] \<longleftrightarrow> (\<exists>ap \<in> set (ti_approvals inp). usable_approval inp ap)"
proof -
  define scoped where "scoped = filter (scoped_approval inp) (ti_approvals inp)"
  define byUser where "byUser = filter (\<lambda>a. is_user (ap_actor a)) scoped"
  define xs where "xs = filter (\<lambda>a. t_riskClass (ti_task inp) \<le> ap_riskClass a) byUser"
  have "xs \<noteq> [] \<Longrightarrow> byUser \<noteq> []" "byUser \<noteq> [] \<Longrightarrow> scoped \<noteq> []"
    unfolding xs_def byUser_def by (cases byUser; cases scoped; simp add: byUser_def)+
  then have "approvalRejections inp = [] \<longleftrightarrow> xs \<noteq> [] \<and> approvals_unusable inp xs [] = []"
    unfolding approvalRejections_def Let_def scoped_def [symmetric] byUser_def [symmetric] xs_def [symmetric]
    by auto
  also have "\<dots> \<longleftrightarrow> (\<exists>ap \<in> set xs. approvalInvalidReason ap (Some (t_id (ti_task inp), t_revision (ti_task inp)))
             (wf_planRevision (ti_workflow inp)) (ti_now inp) = None)"
    by (cases xs) (auto simp: approvals_unusable_keeps split: option.splits)
  also have "\<dots> \<longleftrightarrow> (\<exists>ap \<in> set (ti_approvals inp). usable_approval inp ap)"
    by (auto simp: xs_def byUser_def scoped_def usable_approval_def approvalInvalidReason_None scoped_approval_def)
  finally show ?thesis .
qed

lemma reviews_filter:
  "filter P xs = [] \<Longrightarrow> \<not> list_ex Q (filter P xs)"
  by simp

lemma evaluateC3_Nil:
  "evaluateC3 collation inp fresh = [] \<longleftrightarrow>
     \<not> policy_stale inp \<and>
     (\<forall>po. ti_policy inp = Some po \<and> po_modelReview po \<longrightarrow>
        (\<exists>row \<in> set fresh. passing_review_row row \<and>
           isIndependentReview row (claimingAttempt (ti_task inp) (ti_attempts inp)) (ti_attempts inp)) \<and>
        reviewRecordRejections collation inp = []) \<and>
     ((\<exists>po. ti_policy inp = Some po \<and> po_humanApproval po) \<or> t_riskClass (ti_task inp) = RiskHigh \<longrightarrow>
        (\<exists>ap \<in> set (ti_approvals inp). usable_approval inp ap))"
  unfolding evaluateC3_def Let_def
  by (cases "ti_policy inp")
    (auto simp: approvalRejections_Nil list_ex_iff filter_empty_conv policy_stale_def)

definition gate_fresh :: "task_gate_input \<Rightarrow> git_sha \<Rightarrow> evidence list" where
  "gate_fresh inp rv = freshEvidence (ti_task inp) (ti_evidence inp) rv"

definition gate_hash :: "(payload \<Rightarrow> content_hash) \<Rightarrow> task_gate_input \<Rightarrow> git_sha \<Rightarrow> content_hash" where
  "gate_hash sha inp rv = gateStateHash sha (ti_task inp) rv (snd (evaluateC1 inp (gate_fresh inp rv))) (gate_fresh inp rv)"

definition gate_rejections ::
  "(payload \<Rightarrow> content_hash) \<Rightarrow> (string \<Rightarrow> nat list) \<Rightarrow> task_gate_input \<Rightarrow> git_sha \<Rightarrow> gate_condition \<Rightarrow> gate_rejection list"
where
  "gate_rejections sha collation inp rv c = (case c of
     C0 \<Rightarrow> evaluateC0 inp
   | C1 \<Rightarrow> fst (evaluateC1 inp (gate_fresh inp rv))
   | C2 \<Rightarrow> fst (evaluateC2 inp (gate_fresh inp rv) (gate_hash sha inp rv) rv)
   | C3 \<Rightarrow> evaluateC3 collation inp (gate_fresh inp rv))"

lemma evaluateTaskGate_Some:
  assumes "ti_revision inp = Some rv"
  shows "tg_pass (evaluateTaskGate sha collation inp) \<longleftrightarrow> (\<forall>c. gate_rejections sha collation inp rv c = [])"
    and "condition_satisfied (evaluateTaskGate sha collation inp) c \<longleftrightarrow> gate_rejections sha collation inp rv c = []"
proof -
  have all: "(\<forall>c. P c) \<longleftrightarrow> P C0 \<and> P C1 \<and> P C2 \<and> P C3" for P
    by (metis gate_condition.exhaust)
  show "tg_pass (evaluateTaskGate sha collation inp) \<longleftrightarrow> (\<forall>c. gate_rejections sha collation inp rv c = [])"
    unfolding all
    by (simp add: evaluateTaskGate_def assms Let_def TASK_GATE_CONDITIONS_def gate_rejections_def gate_fresh_def gate_hash_def)
  show "condition_satisfied (evaluateTaskGate sha collation inp) c \<longleftrightarrow> gate_rejections sha collation inp rv c = []"
    by (cases c) (simp_all add: condition_satisfied_def evaluateTaskGate_def assms Let_def
        TASK_GATE_CONDITIONS_def gate_rejections_def gate_fresh_def gate_hash_def)
qed

lemma evaluateTaskGate_None:
  assumes "ti_revision inp = None"
  shows "\<not> tg_pass (evaluateTaskGate sha collation inp)"
    and "\<not> condition_satisfied (evaluateTaskGate sha collation inp) c"
  by (cases c; simp add: condition_satisfied_def evaluateTaskGate_def assms Let_def TASK_GATE_CONDITIONS_def)+

text \<open>A check is proved at a revision by its latest answering row, when that row succeeded.\<close>

definition check_proved :: "task_gate_input \<Rightarrow> git_sha \<Rightarrow> check_definition \<Rightarrow> bool" where
  "check_proved inp rv check \<longleftrightarrow> \<not> isTrivialCheck check \<and>
     (\<exists>row. answers inp rv check row \<and> succeeded check row \<and>
        (\<forall>row'. answers inp rv check row' \<longrightarrow> (e_createdAt row', e_id row') \<le> (e_createdAt row, e_id row)))"

lemma latest_proved:
  assumes "latestResultFor check (gate_fresh inp rv) = Some row" and "succeeded check row" and "\<not> isTrivialCheck check"
  shows "check_proved inp rv check"
  using latestResultFor_Some [OF assms(1) [unfolded gate_fresh_def]] assms(2,3)
  by (auto simp: check_proved_def)

text \<open>
  The recorded answer condition 2 rests on: a decision about this task, revision and gate state that
  is either Jev's confident no-gap under the pinned question version, or the policy's recorded
  fallback, in which case every criterion has a proved check.
\<close>

definition gap_answered :: "(payload \<Rightarrow> content_hash) \<Rightarrow> task_gate_input \<Rightarrow> git_sha \<Rightarrow> bool" where
  "gap_answered sha inp rv \<longleftrightarrow> (\<exists>d \<in> set (candidateDecisions inp rv (gate_hash sha inp rv)).
     (d_override d = None \<and> d_action d = ''no_gap'' \<and> d_questionVersion d = jv_questionVersion (ti_jev inp) \<and>
        jv_confidenceThreshold (ti_jev inp) \<le> (case d_confidence d of None \<Rightarrow> 0 | Some c \<Rightarrow> c)) \<or>
     (is_fallback d \<and> (\<forall>criterion \<in> set (t_acceptanceCriteria (ti_task inp)).
        \<exists>check \<in> set (t_checks (ti_task inp)). ac_id criterion \<in> set (ck_coversCriteria check) \<and>
          check_proved inp rv check)))"

lemma evaluateDetCoverage_Nil:
  assumes "evaluateDetCoverage inp (gate_fresh inp rv) = []" and "criterion \<in> set (t_acceptanceCriteria (ti_task inp))"
  shows "\<exists>check \<in> set (t_checks (ti_task inp)). ac_id criterion \<in> set (ck_coversCriteria check) \<and> check_proved inp rv check"
proof -
  have "coverage_gaps (ti_task inp) (gate_fresh inp rv) criterion = []"
    using assms by (simp add: evaluateDetCoverage_def)
  then obtain check where "check \<in> set (t_checks (ti_task inp))" "\<not> isTrivialCheck check"
    "ac_id criterion \<in> set (ck_coversCriteria check)" "fst (gateCheckState check (gate_fresh inp rv)) = CsPass"
    by (auto simp: coverage_gaps_def list_ex_iff split: if_splits)
  then show ?thesis
    using latest_proved by (auto simp: gateCheckState_pass)
qed

lemma C2_answered:
  assumes "gate_rejections sha collation inp rv C2 = []"
  shows "gap_answered sha inp rv"
proof -
  from assms have "fst (evaluateC2 inp (gate_fresh inp rv) (gate_hash sha inp rv) rv) = []"
    by (simp add: gate_rejections_def)
  then show ?thesis
  proof (cases rule: evaluateC2_Nil)
    case (fallback d ov)
    then have "is_fallback d"
      by (simp add: is_fallback_def)
    with fallback evaluateDetCoverage_Nil show ?thesis
      unfolding gap_answered_def by blast
  next
    case (answered d)
    then show ?thesis
      unfolding gap_answered_def by blast
  qed
qed

text \<open>
  C5. A pass of the task gate proves, from the recorded rows alone: the task is in review with nothing
  blocking it and an author's attempt at this revision asked for completion; it has checks, each of
  them able to fail and proved by its latest row at the exact Git revision and task revision, and they
  cover every criterion; the evidence-gap question is answered for exactly this state; the recorded
  policy result is current, and the review and the approval it or a high risk asks for exist.
\<close>

theorem gate_pass_proves:
  assumes "tg_pass (evaluateTaskGate sha collation inp)"
  shows "\<exists>rv. ti_revision inp = Some rv \<and>
     t_status (ti_task inp) = Review \<and> t_blocker (ti_task inp) = None \<and> ti_unresolvedBlockers inp = [] \<and>
     (\<exists>a \<in> set (ti_attempts inp). a_taskId a = t_id (ti_task inp) \<and> a_taskRevision a = t_revision (ti_task inp) \<and>
        (a_role a = Implementer \<or> a_role a = Integrator) \<and> a_outcome a = Some OcSucceeded) \<and>
     t_checks (ti_task inp) \<noteq> [] \<and> (\<forall>check \<in> set (t_checks (ti_task inp)). check_proved inp rv check) \<and>
     (\<forall>criterion \<in> set (t_acceptanceCriteria (ti_task inp)). criterion_covered (ti_task inp) criterion) \<and>
     gap_answered sha inp rv \<and>
     (\<exists>po. ti_policy inp = Some po \<and> po_revision po = rv \<and> po_taskRevision po = t_revision (ti_task inp) \<and>
        po_policyVersion po = wf_policyVersion (ti_workflow inp) \<and>
        (po_modelReview po \<longrightarrow> (\<exists>row \<in> set (gate_fresh inp rv). passing_review_row row \<and>
           isIndependentReview row (claimingAttempt (ti_task inp) (ti_attempts inp)) (ti_attempts inp))) \<and>
        (po_humanApproval po \<or> t_riskClass (ti_task inp) = RiskHigh \<longrightarrow>
           (\<exists>ap \<in> set (ti_approvals inp). usable_approval inp ap)))"
proof (cases "ti_revision inp")
  case None
  with assms show ?thesis by (simp add: evaluateTaskGate_None)
next
  case (Some rv)
  have N: "gate_rejections sha collation inp rv c = []" for c
    using assms evaluateTaskGate_Some(1) [OF Some] by blast
  note c0 = N [of C0, simplified gate_rejections_def gate_condition.case, unfolded evaluateC0_Nil]
  note c1 = N [of C1, simplified gate_rejections_def gate_condition.case, unfolded evaluateC1_Nil]
  note c3 = N [of C3, simplified gate_rejections_def gate_condition.case, unfolded evaluateC3_Nil]
  have proved: "\<forall>check \<in> set (t_checks (ti_task inp)). check_proved inp rv check"
    using c1 latest_proved by blast
  from c3 obtain po where po: "ti_policy inp = Some po" "po_revision po = rv"
    "po_taskRevision po = t_revision (ti_task inp)" "po_policyVersion po = wf_policyVersion (ti_workflow inp)"
    by (auto simp: policy_stale_def Some split: option.splits)
  show ?thesis
    using c0 c1 c3 proved po C2_answered [OF N] Some by auto
qed

section \<open>A concrete gate\<close>

definition fx_usage :: usage where
  "fx_usage = \<lparr>us_inputTokens = None, us_outputTokens = None, us_requests = 0, us_spendUsd = None,
     us_costBasis = CostUnknown\<rparr>"

definition fx_attempt :: "string \<Rightarrow> worker_role \<Rightarrow> attempt_outcome option \<Rightarrow> string option \<Rightarrow> attempt" where
  "fx_attempt i r oc parent = \<lparr>a_id = i, a_createdAt = [], a_updatedAt = [], a_taskId = ''t1'',
     a_taskRevision = 0, a_workerId = [], a_role = r,
     a_taskProfile = \<lparr>tp_domain = [], tp_modalities = [], tp_reasoningDepth = 0, tp_contextSize = 0, tp_risk = RiskLow\<rparr>,
     a_requestedModel = [], a_usedModel = [], a_fallbackReason = None, a_profile = [],
     a_inputs = \<lparr>ai_taskRevision = 0, ai_contextProvenance = [], ai_pinnedPaths = [], ai_skills = [], ai_bundleHash = []\<rparr>,
     a_worktree = ([], [], []), a_timestamps = ([], None, []), a_usage = fx_usage, a_termination = None,
     a_outcome = oc, a_artifacts = [], a_handedOffFromAttemptId = parent, a_runId = None\<rparr>"

definition fx_evidence :: "exit_status \<Rightarrow> git_sha \<Rightarrow> evidence" where
  "fx_evidence st sha = \<lparr>e_id = ''e1'', e_createdAt = [], e_workflowId = ''w'', e_taskId = ''t1'',
     e_taskRevision = 0, e_attemptId = None, e_requirementId = ''a'', e_checkId = Some ''c'',
     e_artifact = None, e_revision = sha,
     e_commandIdentity = Some \<lparr>ci_command = ''npm test'', ci_cwd = [], ci_environmentHash = []\<rparr>,
     e_exitStatus = st, e_reviewer = ByCheck, e_caveats = [],
     e_provenance = [\<lparr>pv_revision = sha, pv_path = ''src/x.ts'', pv_range = None,
       pv_retrievalMethod = RmExplicit, pv_contentHash = []\<rparr>],
     e_supersedesId = None\<rparr>"

definition fx_decision :: "string \<Rightarrow> decision_override option \<Rightarrow> rat option \<Rightarrow> decision" where
  "fx_decision act ov conf = \<lparr>d_id = ''d'', d_createdAt = [], d_workflowId = ''w'',
     d_subject = Some (AboutTask ''t1'' 0), d_stateHash = ''h'', d_questionId = ''task_evidence_gap'',
     d_questionVersion = ''1'', d_jevModelVersion = None, d_rawDistribution = [], d_confidence = conf,
     d_policyRule = [], d_action = act, d_override = ov,
     d_freshness = \<lparr>fr_revision = ''s'', fr_decidedAt = [], fr_expiresAt = None\<rparr>,
     d_usage = fx_usage, d_latencyMs = None\<rparr>"

definition fx_fallback :: decision where
  "fx_fallback = fx_decision ''deterministic_fallback''
     (Some \<lparr>ov_actor = OvPolicy, ov_action = [], ov_reason = ''jev_disabled'', ov_at = []\<rparr>) None"

definition fx_policy :: policy_review_result where
  "fx_policy = \<lparr>po_modelReview = False, po_humanApproval = False, po_changeClass = [],
     po_policyVersion = ''p1'', po_revision = ''s'', po_taskRevision = 0\<rparr>"

definition fx_jev :: jev_gate_config where
  "fx_jev = \<lparr>jv_enabled = False, jv_optional = False, jv_confidenceThreshold = 1/2, jv_questionVersion = ''1''\<rparr>"

definition fx_gate_options :: gate_options where
  "fx_gate_options = \<lparr>go_policy = Some fx_policy, go_jev = fx_jev, go_now = ''t'', go_worktreePath = [],
     go_resolve = (\<lambda>_. Some ''s''), go_detail = rj_about, go_collation = (\<lambda>_. [])\<rparr>"

definition fx_gate_db :: "exit_status \<Rightarrow> db" where
  "fx_gate_db st = (fx_db Review PgRunning None)\<lparr>
     db_attempts := [fx_attempt ''a1'' Implementer (Some OcSucceeded) None],
     db_decisions := [fx_fallback], db_evidence := [fx_evidence st ''s'']\<rparr>"

definition fx_gate_input :: "exit_status \<Rightarrow> task_gate_input" where
  "fx_gate_input st = gate_input fx_gate_options fx_workflow (fx_task Review) (fx_gate_db st)"

lemma fx_gate_passes: "tg_pass (evaluateTaskGate (\<lambda>_. ''h'') (\<lambda>_. []) (fx_gate_input (Exited 0)))"
  by code_simp

lemma fx_gate_refuses:
  "condition_satisfied (evaluateTaskGate (\<lambda>_. ''h'') (\<lambda>_. []) (fx_gate_input (Exited 1))) C0 \<and>
   \<not> condition_satisfied (evaluateTaskGate (\<lambda>_. ''h'') (\<lambda>_. []) (fx_gate_input (Exited 1))) C1"
  by code_simp

theorem gate_pass_proves_witness:
  "check_proved (fx_gate_input (Exited 0)) ''s'' fx_check"
proof -
  have "ti_revision (fx_gate_input (Exited 0)) = Some ''s''" "fx_check \<in> set (t_checks (ti_task (fx_gate_input (Exited 0))))"
    by (simp_all add: fx_gate_input_def gate_input_def fx_gate_options_def fx_task_def)
  with gate_pass_proves [OF fx_gate_passes] show ?thesis
    by force
qed

section \<open>What Jev's answers cannot change\<close>

lemma approvals_unusable_frame:
  "approvals_unusable (inp\<lparr>ti_decisions := ds, ti_jev := jev\<rparr>) aps rs = approvals_unusable inp aps rs"
  by (induction aps arbitrary: rs) (auto split: option.splits)

lemma gate_frame:
  fixes inp :: task_gate_input and ds jev
  defines "inp' \<equiv> inp\<lparr>ti_decisions := ds, ti_jev := jev\<rparr>"
  shows "ti_revision inp' = ti_revision inp" "gate_fresh inp' rv = gate_fresh inp rv"
    and "evaluateC0 inp' = evaluateC0 inp" "evaluateC1 inp' fresh = evaluateC1 inp fresh"
    and "evaluateC3 collation inp' fresh = evaluateC3 collation inp fresh"
proof -
  show "ti_revision inp' = ti_revision inp" "gate_fresh inp' rv = gate_fresh inp rv"
    "evaluateC0 inp' = evaluateC0 inp" "evaluateC1 inp' fresh = evaluateC1 inp fresh"
    by (simp_all add: inp'_def gate_fresh_def evaluateC0_def evaluateC1_def)
  have sel: "ti_task inp' = ti_task inp" "ti_approvals inp' = ti_approvals inp" "ti_policy inp' = ti_policy inp"
    "ti_attempts inp' = ti_attempts inp"
    by (simp_all add: inp'_def)
  have "scoped_approval inp' = scoped_approval inp"
    by (simp add: fun_eq_iff inp'_def scoped_approval_def)
  moreover have "approvals_unusable inp' aps rs = approvals_unusable inp aps rs" for aps rs
    unfolding inp'_def by (rule approvals_unusable_frame)
  ultimately have "approvalRejections inp' = approvalRejections inp"
    by (simp only: approvalRejections_def Let_def sel)
  moreover have "policy_stale inp' = policy_stale inp" "reviewRecordRejections collation inp' = reviewRecordRejections collation inp"
    by (simp_all add: inp'_def policy_stale_def reviewRecordRejections_def cong: option.case_cong)
  ultimately show "evaluateC3 collation inp' fresh = evaluateC3 collation inp fresh"
    by (simp only: evaluateC3_def Let_def sel)
qed

text \<open>
  C6. Whatever decisions are recorded and however Jev is configured, the verdicts on the claim, the
  deterministic checks and the required review stay the same; so when one of them is not satisfied no
  answer of Jev makes the gate pass.
\<close>

theorem jev_cannot_waive:
  "(\<forall>c \<in> {C0, C1, C3}.
      condition_satisfied (evaluateTaskGate sha collation (inp\<lparr>ti_decisions := ds, ti_jev := jev\<rparr>)) c =
      condition_satisfied (evaluateTaskGate sha collation inp) c) \<and>
   ((\<exists>c \<in> {C0, C1, C3}. \<not> condition_satisfied (evaluateTaskGate sha collation inp) c) \<longrightarrow>
      \<not> tg_pass (evaluateTaskGate sha collation (inp\<lparr>ti_decisions := ds, ti_jev := jev\<rparr>)))"
  (is "(\<forall>c \<in> _. condition_satisfied ?r' c = condition_satisfied ?r c) \<and> _")
proof (cases "ti_revision inp")
  case None
  then show ?thesis
    using evaluateTaskGate_None [of inp] evaluateTaskGate_None [of "inp\<lparr>ti_decisions := ds, ti_jev := jev\<rparr>"]
    by (simp add: gate_frame)
next
  case (Some rv)
  then have Some': "ti_revision (inp\<lparr>ti_decisions := ds, ti_jev := jev\<rparr>) = Some rv"
    by (simp add: gate_frame)
  have same: "condition_satisfied ?r' c = condition_satisfied ?r c" if "c \<in> {C0, C1, C3}" for c
    using that unfolding evaluateTaskGate_Some(2) [OF Some] evaluateTaskGate_Some(2) [OF Some']
    by (auto simp: gate_rejections_def gate_frame)
  have "tg_pass ?r' \<Longrightarrow> condition_satisfied ?r' c" for c
    unfolding evaluateTaskGate_Some(1) [OF Some'] evaluateTaskGate_Some(2) [OF Some'] by blast
  with same show ?thesis by blast
qed

theorem jev_cannot_waive_witness:
  "\<not> tg_pass (evaluateTaskGate (\<lambda>_. ''h'') (\<lambda>_. []) ((fx_gate_input (Exited 1))
      \<lparr>ti_decisions := [fx_decision ''no_gap'' None (Some 1)], ti_jev := fx_jev\<lparr>jv_enabled := True\<rparr>\<rparr>))"
  using jev_cannot_waive [where inp = "fx_gate_input (Exited 1)"] fx_gate_refuses by blast

text \<open>Under the same checks that pass, the no-gap answer is enough for condition 2.\<close>

lemma fx_no_gap_passes:
  "tg_pass (evaluateTaskGate (\<lambda>_. ''h'') (\<lambda>_. []) ((fx_gate_input (Exited 0))
      \<lparr>ti_decisions := [fx_decision ''no_gap'' None (Some 1)], ti_jev := fx_jev\<lparr>jv_enabled := True\<rparr>\<rparr>))"
  by code_simp

section \<open>Condition 1, exactly\<close>

lemma check_proved_latest:
  assumes "distinct (map e_id (ti_evidence inp))"
  shows "check_proved inp rv check \<longleftrightarrow> \<not> isTrivialCheck check \<and>
     (\<exists>row. latestResultFor check (gate_fresh inp rv) = Some row \<and> succeeded check row)"
proof
  assume proved: "check_proved inp rv check"
  then obtain row where row: "answers inp rv check row" "succeeded check row"
    "\<And>row'. answers inp rv check row' \<Longrightarrow> (e_createdAt row', e_id row') \<le> (e_createdAt row, e_id row)"
    by (auto simp: check_proved_def)
  have "row \<in> set (filter (\<lambda>r. e_checkId r = Some (ck_id check) \<and> wanted_reviewer check (e_reviewer r)) (gate_fresh inp rv))"
    using row(1) by (auto simp: answers_def gate_fresh_def set_freshEvidence)
  then obtain row' where row': "latestResultFor check (gate_fresh inp rv) = Some row'"
    unfolding latestResultFor_def by (metis empty_iff empty_set last_opt_None not_None_eq)
  note L = latestResultFor_Some [OF row' [unfolded gate_fresh_def]]
  have "(e_createdAt row', e_id row') = (e_createdAt row, e_id row)"
    using row(3) [OF L(1)] L(2) [OF row(1)] by (rule order.antisym)
  moreover have "row \<in> set (ti_evidence inp)" "row' \<in> set (ti_evidence inp)"
    using row(1) L(1) by (simp_all add: answers_def)
  ultimately have "row' = row"
    using assms by (simp add: distinct_map inj_on_def)
  with row' row(2) proved show "\<not> isTrivialCheck check \<and>
     (\<exists>row. latestResultFor check (gate_fresh inp rv) = Some row \<and> succeeded check row)"
    by (simp add: check_proved_def)
next
  assume "\<not> isTrivialCheck check \<and> (\<exists>row. latestResultFor check (gate_fresh inp rv) = Some row \<and> succeeded check row)"
  then show "check_proved inp rv check"
    using latest_proved by blast
qed

text \<open>
  C8. With evidence ids unique, as the table's key makes them, condition 1 is satisfied exactly when there
  is a check, every check is proved at the gate's revision, and every criterion is covered by a check
  that can fail. No row is skipped and none is accepted that does not prove its check.
\<close>

theorem deterministic_checks_exact:
  assumes "ti_revision inp = Some rv" and "distinct (map e_id (ti_evidence inp))"
  shows "condition_satisfied (evaluateTaskGate sha collation inp) C1 \<longleftrightarrow>
     t_checks (ti_task inp) \<noteq> [] \<and> (\<forall>check \<in> set (t_checks (ti_task inp)). check_proved inp rv check) \<and>
     (\<forall>criterion \<in> set (t_acceptanceCriteria (ti_task inp)). criterion_covered (ti_task inp) criterion)"
  unfolding evaluateTaskGate_Some(2) [OF assms(1)]
  by (simp add: gate_rejections_def evaluateC1_Nil check_proved_latest [OF assms(2)])

theorem deterministic_checks_exact_witness:
  "\<not> (\<forall>check \<in> set (t_checks (ti_task (fx_gate_input (Exited 1)))). check_proved (fx_gate_input (Exited 1)) ''s'' check)"
proof -
  have "ti_revision (fx_gate_input (Exited 1)) = Some ''s''" "distinct (map e_id (ti_evidence (fx_gate_input (Exited 1))))"
    "t_checks (ti_task (fx_gate_input (Exited 1))) \<noteq> []"
    "\<forall>criterion \<in> set (t_acceptanceCriteria (ti_task (fx_gate_input (Exited 1)))).
        criterion_covered (ti_task (fx_gate_input (Exited 1))) criterion"
    by code_simp+
  with deterministic_checks_exact [of "fx_gate_input (Exited 1)" "''s''" "\<lambda>_. ''h''" "\<lambda>_. []"] fx_gate_refuses
  show ?thesis by blast
qed

section \<open>Completing a task\<close>

definition gate_verdict :: "gate_options \<Rightarrow> world \<Rightarrow> workflow \<Rightarrow> task \<Rightarrow> task_gate_result" where
  "gate_verdict opts w workflow task =
     evaluateTaskGate (env_sha (w_env w)) (go_collation opts) (gate_input opts workflow task (w_db w))"

lemma runTaskGate_Inr:
  assumes "runTaskGate opts taskId w = (Inr (result, receipt), w')"
  obtains task workflow where
    "tbl_get t_id taskId (db_tasks (w_db w)) = Some task"
    "tbl_get wf_id (t_workflowId task) (db_workflows (w_db w)) = Some workflow"
    "result = gate_verdict opts w workflow task"
    "w_db w' = (w_db w)\<lparr>db_receipts := db_receipts (w_db w) @ [receipt]\<rparr>"
    "receipt_find (g_receiptId receipt) (w_db w) = None"
    "g_gate receipt = GkTask" "g_subjectId receipt = t_id task" "g_subjectRevision receipt = t_revision task"
    "g_disposition receipt = (if tg_pass result then GdPass else GdReject)" "g_consumedAt receipt = None"
    "g_inputHash receipt = tg_inputHash result"
proof -
  from assms obtain task w1 workflow w2 rid w3 where
      task: "repo_require taskRepo taskId w = (Inr task, w1)"
    and wkf: "repo_require workflowRepo (t_workflowId task) w1 = (Inr workflow, w2)"
    and res: "result = evaluateTaskGate (env_sha (w_env w2)) (go_collation opts) (gate_input opts workflow task (w_db w2))"
    and rid: "newId w2 = (Inr rid, w3)"
    and rec: "receipt_record (receipt_of opts task (go_resolve opts (go_worktreePath opts)) result rid) w3 = (Inr receipt, w')"
    unfolding runTaskGate_def by (auto simp: andThen_eq_Inr Let_def gate_input_def)
  have t: "tbl_get t_id taskId (db_tasks (w_db w)) = Some task" "w1 = w"
    using task by (auto simp: tasks.require_eq split: option.splits)
  have f: "tbl_get wf_id (t_workflowId task) (db_workflows (w_db w)) = Some workflow" "w2 = w"
    using wkf t(2) by (auto simp: workflows.require_eq split: option.splits)
  have w3: "w_db w3 = w_db w"
    using rid f(2) by (auto simp: newId_def)
  show ?thesis
    by (rule that [of task workflow])
      (use t f res receipt_record_Inr [OF rec] w3 in \<open>auto simp: gate_verdict_def receipt_of_def\<close>)
qed

text \<open>
  The gate never fails to leave its explanation: on a task and workflow that exist, with a new id, it
  records a receipt and returns it, whatever the verdict.
\<close>

lemma refusal_has_reason: "\<not> tg_pass (evaluateTaskGate sha collation inp) \<Longrightarrow> tg_reasons (evaluateTaskGate sha collation inp) \<noteq> []"
  by (cases "ti_revision inp") (simp_all add: evaluateTaskGate_def Let_def)

lemma runTaskGate_records:
  assumes "tbl_get t_id taskId (db_tasks (w_db w)) = Some task"
    and "tbl_get wf_id (t_workflowId task) (db_workflows (w_db w)) = Some workflow"
    and "receipt_find (env_id (w_env w) (w_ids w)) (w_db w) = None"
  shows "\<exists>r w'. runTaskGate opts taskId w = (Inr r, w')"
proof -
  define result where "result = gate_verdict opts w workflow task"
  define w1 where "w1 = w\<lparr>w_ids := Suc (w_ids w)\<rparr>"
  define receipt where "receipt = receipt_of opts task (go_resolve opts (go_worktreePath opts)) result (env_id (w_env w) (w_ids w))"
  have "g_workflowId receipt = t_workflowId task" "g_receiptId receipt = env_id (w_env w) (w_ids w)"
    "(g_disposition receipt = GdPass) = (g_reasonCode receipt = None)" "g_consumedAt receipt = None"
    using refusal_has_reason by (auto simp: receipt_def receipt_of_def result_def gate_verdict_def split: list.splits)
  then have "receipt_record receipt w1 = (Inr receipt, w1\<lparr>w_db := (w_db w)\<lparr>db_receipts := db_receipts (w_db w) @ [receipt]\<rparr>\<rparr>)"
    using assms by (simp add: receipt_record_def andThen_def workflow_exists_def tbl_add_def receipt_find_def w1_def)
  moreover have "newId w = (Inr (env_id (w_env w) (w_ids w)), w1)"
    by (simp add: newId_def w1_def)
  moreover have "ti_revision (gate_input opts workflow task (w_db w)) = go_resolve opts (go_worktreePath opts)"
    by (simp add: gate_input_def)
  ultimately show ?thesis
    using assms by (simp add: runTaskGate_def andThen_def tasks.require_eq workflows.require_eq Let_def
        gate_verdict_def [symmetric] result_def [symmetric] receipt_def [symmetric])
qed

text \<open>
  C7. When \<open>completeTask\<close> returns, it has moved the task to done exactly when the gate, evaluated on the
  rows in the store, passes. A refusal of the gate appends one rejected receipt and changes nothing
  else; a pass appends the receipt, spends it, and leaves the task done with every field but its status,
  its derived blocker text and its update time as it was, and every other task's row alone. A pass after
  which the state machine refuses the request is a failure of the call, not a return.
\<close>

theorem completeTask_follows_the_gate:
  assumes "completeTask opts actor refs taskId w = (Inr (result, receipt, tr), w')"
  shows "\<exists>task workflow. tbl_get t_id taskId (db_tasks (w_db w)) = Some task \<and>
     tbl_get wf_id (t_workflowId task) (db_workflows (w_db w)) = Some workflow \<and>
     result = gate_verdict opts w workflow task \<and> (tr = None \<longleftrightarrow> \<not> tg_pass result) \<and>
     (if tg_pass result
      then (\<exists>used ts t'. receipt_find (g_receiptId receipt) (w_db w') = Some (receipt\<lparr>g_consumedAt := Some used\<rparr>) \<and>
             t' = task\<lparr>t_status := Done, t_blocker := deriveBlockerField SkTask taskId (w_db w'),
               t_updatedAt := ts\<rparr> \<and>
             tbl_get t_id taskId (db_tasks (w_db w')) = Some t' \<and>
             db_tasks (w_db w') = tbl_put t_id t' (db_tasks (w_db w)) \<and>
             db_receipts (w_db w') = db_receipts (w_db w) @ [receipt\<lparr>g_consumedAt := Some used\<rparr>])
      else w_db w' = (w_db w)\<lparr>db_receipts := db_receipts (w_db w) @ [receipt]\<rparr> \<and> g_disposition receipt = GdReject)"
proof -
  from assms obtain w1 where gate: "runTaskGate opts taskId w = (Inr (result, receipt), w1)"
    and rest: "if tg_pass result
      then \<exists>t. transitionTask (done_request actor refs taskId result receipt) w1 = (Inr t, w') \<and> tr = Some t
      else tr = None \<and> w' = w1"
    by (auto simp: completeTask_def andThen_eq_Inr split: if_splits)
  from gate obtain task workflow where G: "tbl_get t_id taskId (db_tasks (w_db w)) = Some task"
    "tbl_get wf_id (t_workflowId task) (db_workflows (w_db w)) = Some workflow"
    "result = gate_verdict opts w workflow task"
    and db1: "w_db w1 = (w_db w)\<lparr>db_receipts := db_receipts (w_db w) @ [receipt]\<rparr>"
    and fresh: "receipt_find (g_receiptId receipt) (w_db w) = None"
    and disp: "g_disposition receipt = (if tg_pass result then GdPass else GdReject)"
    by (rule runTaskGate_Inr) blast
  have recv: "receipt_find (g_receiptId receipt) (w_db w1) = Some receipt"
    using fresh by (simp add: db1 receipt_find_def tbl_get_append)
  show ?thesis
  proof (cases "tg_pass result")
    case False
    with G rest disp db1 show ?thesis by auto
  next
    case True
    with rest obtain t where tr: "transitionTask (done_request actor refs taskId result receipt) w1 = (Inr t, w')" "tr = Some t"
      by auto
    have rq: "rq_to (done_request actor refs taskId result receipt) = Known Done"
      "rq_gateReceiptId (done_request actor refs taskId result receipt) = Some (g_receiptId receipt)"
      "rq_subject (done_request actor refs taskId result receipt) = taskId"
      by (simp_all add: done_request_def)
    from transitionTask_Inr [OF tr(1)] rq obtain edge ctx where
        acc: "task_accepted (done_request actor refs taskId result receipt) (w_db w1) task edge Done ctx"
      and wr: "task_written (done_request actor refs taskId result receipt) (w_db w1) task edge Done t (w_db w')"
      using G(1) by (auto simp: task_accepted_def db1)
    have "t_id task = taskId"
      using G(1) by (rule tbl_get_key)
    with wr G(1) obtain ts where t': "tbl_get t_id taskId (db_tasks (w_db w')) = Some (re_subject t)"
      "re_subject t = task\<lparr>t_status := Done, t_blocker := deriveBlockerField SkTask taskId (w_db w'), t_updatedAt := ts\<rparr>"
      "db_tasks (w_db w') = tbl_put t_id (re_subject t) (db_tasks (w_db w))"
      by (auto simp: task_written_def tbl_get_put db1)
    from wr recv rq(2) obtain used where spent:
      "db_receipts (w_db w') = tbl_put g_receiptId (receipt\<lparr>g_consumedAt := Some used\<rparr>) (db_receipts (w_db w1))"
      by (auto simp: task_written_def receipt_spent_def receipt_find_def)
    with recv have "receipt_find (g_receiptId receipt) (w_db w') = Some (receipt\<lparr>g_consumedAt := Some used\<rparr>)"
      by (simp add: receipt_find_def tbl_get_put)
    moreover have "db_receipts (w_db w') = db_receipts (w_db w) @ [receipt\<lparr>g_consumedAt := Some used\<rparr>]"
      using fresh by (simp add: spent db1 receipt_find_def tbl_put_last)
    ultimately have "\<exists>used ts t'. receipt_find (g_receiptId receipt) (w_db w') = Some (receipt\<lparr>g_consumedAt := Some used\<rparr>) \<and>
             t' = task\<lparr>t_status := Done, t_blocker := deriveBlockerField SkTask taskId (w_db w'),
               t_updatedAt := ts\<rparr> \<and>
             tbl_get t_id taskId (db_tasks (w_db w')) = Some t' \<and>
             db_tasks (w_db w') = tbl_put t_id t' (db_tasks (w_db w)) \<and>
             db_receipts (w_db w') = db_receipts (w_db w) @ [receipt\<lparr>g_consumedAt := Some used\<rparr>]"
      using t' by (intro exI [of _ used] exI [of _ ts] exI [of _ "re_subject t"] conjI)
    then show ?thesis
      unfolding if_P [OF True] using G True tr(2)
      by (intro exI [of _ task] exI [of _ workflow] conjI) simp_all
  qed
qed

lemma fx_complete_verdicts:
  "tg_pass (gate_verdict fx_gate_options (fx_world (fx_gate_db (Exited 0))) fx_workflow (fx_task Review))"
  "\<not> tg_pass (gate_verdict fx_gate_options (fx_world (fx_gate_db (Exited 1))) fx_workflow (fx_task Review))"
  by code_simp+

definition fx_result :: task_gate_result where
  "fx_result = \<lparr>tg_pass = True,
     tg_conditions = map (\<lambda>c. \<lparr>cv_id = c, cv_satisfied = True, cv_reasonCode = None, cv_failures = []\<rparr>) [C0, C1, C2, C3],
     tg_reasons = [], tg_inputHash = ''h'', tg_c2Branch = Some BranchFallback, tg_checkStates = [(''c'', CsPass)]\<rparr>"

lemma fx_result_passes: "tg_pass fx_result"
  by (simp add: fx_result_def)

lemma fx_verdict: "evaluateTaskGate (\<lambda>_. ''h'') (\<lambda>_. []) (fx_gate_input (Exited 0)) = fx_result"
  by code_simp

definition fx_gate_receipt :: gate_receipt where
  "fx_gate_receipt = receipt_of fx_gate_options (fx_task Review) (Some ''s'') fx_result []"

definition fx_gated_world :: world where
  "fx_gated_world = (fx_world ((fx_gate_db (Exited 0))\<lparr>db_receipts := [fx_receipt None, fx_gate_receipt]\<rparr>))\<lparr>w_ids := 1\<rparr>"

lemma fx_complete_rows:
  "tbl_get t_id ''t1'' (db_tasks (w_db (fx_world (fx_gate_db st)))) = Some (fx_task Review)"
  "tbl_get wf_id (t_workflowId (fx_task Review)) (db_workflows (w_db (fx_world (fx_gate_db st)))) = Some fx_workflow"
  by (simp_all add: fx_gate_db_def fx_db_def fx_task_def fx_workflow_def)

lemma fx_gate_run:
  "runTaskGate fx_gate_options ''t1'' (fx_world (fx_gate_db (Exited 0))) = (Inr (fx_result, fx_gate_receipt), fx_gated_world)"
proof -
  have "evaluateTaskGate (env_sha fx_env) (go_collation fx_gate_options)
      (gate_input fx_gate_options fx_workflow (fx_task Review) (fx_gate_db (Exited 0))) = fx_result"
    using fx_verdict by (simp add: fx_env_def fx_gate_options_def fx_gate_input_def)
  moreover have "receipt_record fx_gate_receipt (fx_world (fx_gate_db (Exited 0))\<lparr>w_ids := 1\<rparr>) =
      (Inr fx_gate_receipt, fx_gated_world)"
    by (simp add: receipt_record_def andThen_def tbl_add_def workflow_exists_def fx_gate_receipt_def receipt_of_def
        fx_result_def fx_gated_world_def fx_gate_db_def fx_db_def fx_world_def fx_task_def fx_workflow_def fx_receipt_def)
  moreover have "newId (fx_world d) = (Inr [], fx_world d\<lparr>w_ids := 1\<rparr>)" for d
    by (simp add: newId_def fx_world_def fx_env_def)
  moreover have "ti_revision (gate_input fx_gate_options fx_workflow (fx_task Review) (fx_gate_db (Exited 0))) = Some ''s''"
    by (simp add: gate_input_def fx_gate_options_def)
  ultimately show ?thesis
    by (simp add: runTaskGate_def andThen_def tasks.require_eq workflows.require_eq Let_def
        fx_complete_rows [unfolded fx_world_sel] fx_gate_receipt_def)
qed

lemma fx_refused_run:
  "\<exists>r w'. runTaskGate fx_gate_options ''t1'' (fx_world (fx_gate_db (Exited 1))) = (Inr r, w')"
  by (rule runTaskGate_records [OF fx_complete_rows])
    (simp add: fx_gate_db_def receipt_find_def fx_world_def fx_env_def fx_db_def fx_receipt_def)

lemma fx_transition_run:
  "\<not> isl (fst (transitionTask (done_request fx_engine [''e''] ''t1'' fx_result fx_gate_receipt) fx_gated_world))"
  by code_simp

lemma fx_complete_runs:
  "\<exists>r w'. completeTask fx_gate_options fx_engine [''e''] ''t1'' (fx_world (fx_gate_db (Exited 0))) = (Inr r, w')"
  "\<exists>r w'. completeTask fx_gate_options fx_engine [''e''] ''t1'' (fx_world (fx_gate_db (Exited 1))) = (Inr r, w')"
proof -
  obtain t w' where "transitionTask (done_request fx_engine [''e''] ''t1'' fx_result fx_gate_receipt) fx_gated_world = (Inr t, w')"
    using accepted_run [OF fx_transition_run] by blast
  then show "\<exists>r w'. completeTask fx_gate_options fx_engine [''e''] ''t1'' (fx_world (fx_gate_db (Exited 0))) = (Inr r, w')"
    by (simp add: completeTask_def andThen_def fx_gate_run fx_result_passes)
next
  obtain result receipt w1 where run: "runTaskGate fx_gate_options ''t1'' (fx_world (fx_gate_db (Exited 1))) = (Inr (result, receipt), w1)"
    using fx_refused_run by (auto simp: split_paired_all)
  have "\<not> tg_pass result"
    using run fx_complete_rows fx_complete_verdicts(2) by (auto elim!: runTaskGate_Inr)
  with run show "\<exists>r w'. completeTask fx_gate_options fx_engine [''e''] ''t1'' (fx_world (fx_gate_db (Exited 1))) = (Inr r, w')"
    by (simp add: completeTask_def andThen_def)
qed

theorem completeTask_follows_the_gate_witness:
  "(\<exists>r w'. completeTask fx_gate_options fx_engine [''e''] ''t1'' (fx_world (fx_gate_db (Exited 0))) = (Inr r, w') \<and>
      snd (snd r) \<noteq> None) \<and>
   (\<exists>r w'. completeTask fx_gate_options fx_engine [''e''] ''t1'' (fx_world (fx_gate_db (Exited 1))) = (Inr r, w') \<and>
      db_tasks (w_db w') = [fx_task Review])"
proof -
  obtain r1 g1 tr1 w1 where run1: "completeTask fx_gate_options fx_engine [''e''] ''t1'' (fx_world (fx_gate_db (Exited 0))) =
      (Inr (r1, g1, tr1), w1)"
    using fx_complete_runs(1) by (auto simp: split_paired_all)
  obtain r2 g2 tr2 w2 where run2: "completeTask fx_gate_options fx_engine [''e''] ''t1'' (fx_world (fx_gate_db (Exited 1))) =
      (Inr (r2, g2, tr2), w2)"
    using fx_complete_runs(2) by (auto simp: split_paired_all)
  have "tr1 \<noteq> None"
    using completeTask_follows_the_gate [OF run1] fx_complete_rows fx_complete_verdicts(1) by auto
  moreover have "db_tasks (w_db w2) = [fx_task Review]"
    using completeTask_follows_the_gate [OF run2] fx_complete_rows fx_complete_verdicts(2)
    by (auto simp: fx_gate_db_def)
  ultimately show ?thesis
    using run1 run2 by auto
qed

end
