(* ===== verification/AttemptBudget.thy ===== *)
theory AttemptBudget
  imports StoreRecords JsText
begin

text \<open>
  How one worker turn is classified and charged: \<open>src/workers/truncation.ts\<close>,
  \<open>src/workflow/attempt-budget.ts\<close> and \<open>src/workflow/attempt-controller.ts\<close>. Turns are pure
  decisions over counters; the reason and feedback sentences that are not compared anywhere are left
  out. Counters are naturals, as they start at zero and only grow.
\<close>

section \<open>Classifying a turn (\<open>truncation.ts\<close>)\<close>

definition TRUNCATION_STOP_REASON :: string where
  "TRUNCATION_STOP_REASON = ''length''"

definition HARNESS_FAILURE_KINDS :: "failure_kind list" where
  "HARNESS_FAILURE_KINDS = [FkTruncated, FkTimeout, FkTransportError, FkCapped]"

record worker_turn_observation =
  wo_stopReason :: "string option"
  wo_exitCode :: "int option"
  wo_killedForTimeout :: bool
  wo_outputTokens :: "nat option"

record turn_classification =
  tc_kind :: failure_kind
  tc_failureClass :: failure_class
  tc_consumesAttemptBudget :: bool
  tc_truncated :: bool
  tc_stopReason :: "string option"

definition isTruncated :: "worker_turn_observation \<Rightarrow> bool" where
  "isTruncated ob \<longleftrightarrow> wo_stopReason ob = Some TRUNCATION_STOP_REASON"

definition isHarnessFailure :: "failure_kind \<Rightarrow> bool" where
  "isHarnessFailure kind \<longleftrightarrow> kind \<in> set HARNESS_FAILURE_KINDS"

definition classifyTurn :: "worker_turn_observation \<Rightarrow> turn_classification" where
  "classifyTurn ob =
     (if isTruncated ob
      then \<lparr>tc_kind = FkTruncated, tc_failureClass = FcHarness, tc_consumesAttemptBudget = False,
            tc_truncated = True, tc_stopReason = wo_stopReason ob\<rparr>
      else if wo_killedForTimeout ob
      then \<lparr>tc_kind = FkTimeout, tc_failureClass = FcHarness, tc_consumesAttemptBudget = False,
            tc_truncated = False, tc_stopReason = wo_stopReason ob\<rparr>
      else if (case wo_exitCode ob of None \<Rightarrow> False | Some code \<Rightarrow> code \<noteq> 0)
      then \<lparr>tc_kind = FkTransportError, tc_failureClass = FcHarness, tc_consumesAttemptBudget = False,
            tc_truncated = False, tc_stopReason = wo_stopReason ob\<rparr>
      else \<lparr>tc_kind = FkNone, tc_failureClass = FcNone, tc_consumesAttemptBudget = True,
            tc_truncated = False, tc_stopReason = wo_stopReason ob\<rparr>)"

definition TRUNCATION_FEEDBACK :: string where
  "TRUNCATION_FEEDBACK = join_str '' ''
     [''Your previous turn was cut off at the output-token limit before its tool call was emitted,'',
      ''so nothing was written to disk. The criteria were not assessed and nothing is known to be wrong'',
      ''with your approach. Work in much smaller steps: create each file with a short write, extend it'',
      ''with successive small edits, commit after each file or major section, and keep replies to one or'',
      ''two lines '' @ [CHR 0xE2, CHR 0x80, CHR 0x94] @ '' narration spends the same output budget the tool call needs.'']"

definition QUALITY_JUDGEMENT_PHRASES :: "string list" where
  "QUALITY_JUDGEMENT_PHRASES = [''did not meet'', ''unmet criteri'', ''criteria unmet'', ''overclaim'',
     ''you failed'', ''incorrect implementation'']"

definition isHarnessFeedback :: "string \<Rightarrow> bool" where
  "isHarnessFeedback feedback \<longleftrightarrow>
     (let lower = to_lower feedback in \<not> list_ex (str_includes lower) QUALITY_JUDGEMENT_PHRASES)"

section \<open>The two budgets (\<open>attempt-budget.ts\<close>)\<close>

definition DEFAULT_MAX_ATTEMPTS :: nat where
  "DEFAULT_MAX_ATTEMPTS = 3"

definition DEFAULT_MAX_HARNESS_RETRIES :: nat where
  "DEFAULT_MAX_HARNESS_RETRIES = 3"

definition DEFAULT_MAX_CONSECUTIVE_TRUNCATIONS :: nat where
  "DEFAULT_MAX_CONSECUTIVE_TRUNCATIONS = 2"

record attempt_budget_limits =
  maxAttempts :: nat
  maxHarnessRetries :: nat
  maxConsecutiveTruncations :: nat

definition DEFAULT_ATTEMPT_BUDGET_LIMITS :: attempt_budget_limits where
  "DEFAULT_ATTEMPT_BUDGET_LIMITS = \<lparr>maxAttempts = DEFAULT_MAX_ATTEMPTS,
     maxHarnessRetries = DEFAULT_MAX_HARNESS_RETRIES,
     maxConsecutiveTruncations = DEFAULT_MAX_CONSECUTIVE_TRUNCATIONS\<rparr>"

record attempt_budget_state =
  attemptsUsed :: nat
  harnessRetriesUsed :: nat
  consecutiveTruncations :: nat

definition EMPTY_ATTEMPT_BUDGET :: attempt_budget_state where
  "EMPTY_ATTEMPT_BUDGET = \<lparr>attemptsUsed = 0, harnessRetriesUsed = 0, consecutiveTruncations = 0\<rparr>"

datatype next_action = NaRetry | NaJudge | NaFail

datatype terminal_failure = AttemptLimit | HarnessLimit | PersistentTruncation

record budget_decision =
  bd_state :: attempt_budget_state
  bd_next :: next_action
  bd_failure :: "terminal_failure option"
  bd_consumedAttempt :: bool

text \<open>The counters after one turn.\<close>

definition charge :: "failure_kind \<Rightarrow> attempt_budget_state \<Rightarrow> attempt_budget_state" where
  "charge kind st =
     \<lparr>attemptsUsed = attemptsUsed st + (if isHarnessFailure kind then 0 else 1),
      harnessRetriesUsed = harnessRetriesUsed st + (if isHarnessFailure kind then 1 else 0),
      consecutiveTruncations = (if kind = FkTruncated then consecutiveTruncations st + 1 else 0)\<rparr>"

definition recordTurn ::
  "failure_kind \<Rightarrow> attempt_budget_state \<Rightarrow> attempt_budget_limits \<Rightarrow> budget_decision"
where
  "recordTurn kind st limits =
     (let st' = charge kind st in
      if kind = FkTruncated \<and> consecutiveTruncations st' \<ge> maxConsecutiveTruncations limits
      then \<lparr>bd_state = st', bd_next = NaFail, bd_failure = Some PersistentTruncation, bd_consumedAttempt = False\<rparr>
      else if isHarnessFailure kind \<and> harnessRetriesUsed st' \<ge> maxHarnessRetries limits
      then \<lparr>bd_state = st', bd_next = NaFail, bd_failure = Some HarnessLimit, bd_consumedAttempt = False\<rparr>
      else if isHarnessFailure kind
      then \<lparr>bd_state = st', bd_next = NaRetry, bd_failure = None, bd_consumedAttempt = False\<rparr>
      else if kind = FkNone
      then \<lparr>bd_state = st', bd_next = NaJudge, bd_failure = None, bd_consumedAttempt = True\<rparr>
      else if attemptsUsed st' \<ge> maxAttempts limits
      then \<lparr>bd_state = st', bd_next = NaFail, bd_failure = Some AttemptLimit, bd_consumedAttempt = True\<rparr>
      else \<lparr>bd_state = st', bd_next = NaRetry, bd_failure = None, bd_consumedAttempt = True\<rparr>)"

definition attemptsRemaining :: "attempt_budget_state \<Rightarrow> attempt_budget_limits \<Rightarrow> int" where
  "attemptsRemaining st limits = max 0 (int (maxAttempts limits) - int (attemptsUsed st))"

section \<open>Settling a turn (\<open>attempt-controller.ts\<close>)\<close>

record gate_outcome =
  gate_passed :: bool
  gate_feedback :: string

record attempt_telemetry =
  tm_stopReason :: "string option"
  tm_truncated :: bool
  tm_failureKind :: failure_kind
  tm_failureClass :: failure_class
  tm_consumedAttemptBudget :: bool
  tm_attemptsUsed :: nat
  tm_harnessRetriesUsed :: nat
  tm_consecutiveTruncations :: nat

datatype settled_next = SnRetry | SnPass | SnFail

record settled_turn =
  st_classification :: turn_classification
  st_budget :: budget_decision
  st_next :: settled_next
  st_feedback :: "string option"
  st_telemetry :: attempt_telemetry

text \<open>\<open>settleTurn\<close>; \<open>reason\<close> stands for the sentence of the classification.\<close>

definition settleTurn ::
  "(turn_classification \<Rightarrow> string) \<Rightarrow> worker_turn_observation \<Rightarrow> gate_outcome option \<Rightarrow>
   attempt_budget_state \<Rightarrow> attempt_budget_limits \<Rightarrow> settled_turn"
where
  "settleTurn reason ob gate0 st limits =
     (let classification = classifyTurn ob;
          gate = (if tc_failureClass classification = FcHarness then None else gate0);
          kind = (if tc_kind classification \<noteq> FkNone then tc_kind classification
                  else if map_option gate_passed gate = Some False then FkGap else FkNone);
          budget = recordTurn kind st limits;
          telemetry = \<lparr>tm_stopReason = tc_stopReason classification, tm_truncated = tc_truncated classification,
            tm_failureKind = kind,
            tm_failureClass = (if kind = FkGap then FcQuality else tc_failureClass classification),
            tm_consumedAttemptBudget = bd_consumedAttempt budget,
            tm_attemptsUsed = attemptsUsed (bd_state budget),
            tm_harnessRetriesUsed = harnessRetriesUsed (bd_state budget),
            tm_consecutiveTruncations = consecutiveTruncations (bd_state budget)\<rparr>;
          settled = (\<lambda>nxt fb. \<lparr>st_classification = classification, st_budget = budget, st_next = nxt,
            st_feedback = fb, st_telemetry = telemetry\<rparr>) in
      if bd_next budget = NaFail then settled SnFail None
      else if bd_next budget = NaJudge then settled SnPass None
      else settled SnRetry (Some (if tc_truncated classification then TRUNCATION_FEEDBACK
             else case gate of Some g \<Rightarrow> gate_feedback g | None \<Rightarrow> reason classification)))"

definition toAttemptTermination :: "settled_turn \<Rightarrow> nat option \<Rightarrow> attempt_termination" where
  "toAttemptTermination settled outputTokens =
     \<lparr>at_stopReason = tm_stopReason (st_telemetry settled), at_truncated = tm_truncated (st_telemetry settled),
      at_failureKind = tm_failureKind (st_telemetry settled), at_failureClass = tm_failureClass (st_telemetry settled),
      at_consumedAttemptBudget = tm_consumedAttemptBudget (st_telemetry settled),
      at_outputTokens = outputTokens\<rparr>"

text \<open>
  A task's turns: while the controller answers retry, the next turn is settled against the budget it
  left. The list holds what the worker's turns would be; the result is the action that ended the run,
  or \<open>None\<close> when the turns ran out first, with the budget and the number of turns taken.
\<close>

fun settleTurns ::
  "(turn_classification \<Rightarrow> string) \<Rightarrow> attempt_budget_limits \<Rightarrow> attempt_budget_state \<Rightarrow>
   (worker_turn_observation \<times> gate_outcome option) list \<Rightarrow> (settled_next \<times> attempt_budget_state \<times> nat) option"
where
  "settleTurns reason limits st [] = None"
| "settleTurns reason limits st ((ob, gate) # turns) =
     (let settled = settleTurn reason ob gate st limits in
      if st_next settled = SnRetry
      then map_option (\<lambda>(nxt, st', n). (nxt, st', Suc n)) (settleTurns reason limits (bd_state (st_budget settled)) turns)
      else Some (st_next settled, bd_state (st_budget settled), 1))"

section \<open>Retrying ends\<close>

text \<open>How many retries a budget still allows.\<close>

definition retries_left :: "attempt_budget_limits \<Rightarrow> attempt_budget_state \<Rightarrow> nat" where
  "retries_left limits st =
     (maxAttempts limits - 1 - attemptsUsed st) + (maxHarnessRetries limits - 1 - harnessRetriesUsed st)"

lemma recordTurn_retry:
  assumes "bd_next (recordTurn kind st limits) = NaRetry"
  shows "retries_left limits (bd_state (recordTurn kind st limits)) < retries_left limits st"
  using assms by (auto simp: recordTurn_def charge_def retries_left_def Let_def split: if_splits)

lemma recordTurn_state: "bd_state (recordTurn kind st limits) = charge kind st"
  by (simp add: recordTurn_def Let_def)

lemma settleTurn_retry:
  assumes "st_next (settleTurn reason ob gate st limits) = SnRetry"
  shows "retries_left limits (bd_state (st_budget (settleTurn reason ob gate st limits))) < retries_left limits st"
proof -
  obtain kind where kind: "st_budget (settleTurn reason ob gate st limits) = recordTurn kind st limits"
    by (simp add: settleTurn_def Let_def)
  have "bd_next (recordTurn kind st limits) = NaRetry"
    using assms kind by (cases "bd_next (recordTurn kind st limits)")
      (auto simp: settleTurn_def Let_def split: if_splits)
  then show ?thesis
    unfolding kind by (rule recordTurn_retry)
qed

lemma settleTurns_bounded:
  "(case settleTurns reason limits st turns of
      None \<Rightarrow> length turns \<le> retries_left limits st
    | Some (nxt, st', n) \<Rightarrow> n \<le> retries_left limits st + 1 \<and> nxt \<noteq> SnRetry)"
proof (induction reason limits st turns rule: settleTurns.induct)
  case (1 reason limits st)
  then show ?case by simp
next
  case (2 reason limits st ob gate turns)
  define s where "s = settleTurn reason ob gate st limits"
  show ?case
  proof (cases "st_next s = SnRetry")
    case True
    then have "retries_left limits (bd_state (st_budget s)) < retries_left limits st"
      unfolding s_def by (rule settleTurn_retry)
    moreover have "case settleTurns reason limits (bd_state (st_budget s)) turns of
        None \<Rightarrow> length turns \<le> retries_left limits (bd_state (st_budget s))
      | Some (nxt, st', n) \<Rightarrow> n \<le> retries_left limits (bd_state (st_budget s)) + 1 \<and> nxt \<noteq> SnRetry"
      using 2 [OF s_def] True by simp
    ultimately show ?thesis
      using True by (auto simp: Let_def s_def [symmetric] split: option.splits)
  next
    case False
    then show ?thesis
      by (simp add: Let_def s_def [symmetric])
  qed
qed

text \<open>
  C14. However a task's turns end, and whatever limits are configured, the controller stops answering retry:
  from a fresh budget it settles at most one turn more than the retries the two budgets allow, so a
  list of turns that long never runs out.
\<close>

theorem retries_are_bounded:
  assumes "length turns \<ge> (maxAttempts limits - 1) + (maxHarnessRetries limits - 1) + 1"
  shows "\<exists>nxt st n. settleTurns reason limits EMPTY_ATTEMPT_BUDGET turns = Some (nxt, st, n) \<and>
     nxt \<in> {SnPass, SnFail} \<and> n \<le> (maxAttempts limits - 1) + (maxHarnessRetries limits - 1) + 1"
proof -
  have "retries_left limits EMPTY_ATTEMPT_BUDGET = (maxAttempts limits - 1) + (maxHarnessRetries limits - 1)"
    by (simp add: retries_left_def EMPTY_ATTEMPT_BUDGET_def)
  with settleTurns_bounded [where reason = reason and limits = limits and st = EMPTY_ATTEMPT_BUDGET and turns = turns] assms
  obtain nxt st n where "settleTurns reason limits EMPTY_ATTEMPT_BUDGET turns = Some (nxt, st, n)"
    "n \<le> (maxAttempts limits - 1) + (maxHarnessRetries limits - 1) + 1" "nxt \<noteq> SnRetry"
    by (auto split: option.splits)
  then show ?thesis
    by (cases nxt) auto
qed

definition fx_truncated_turn :: worker_turn_observation where
  "fx_truncated_turn = \<lparr>wo_stopReason = Some ''length'', wo_exitCode = Some 0, wo_killedForTimeout = False,
     wo_outputTokens = None\<rparr>"

definition fx_gap_turn :: worker_turn_observation where
  "fx_gap_turn = \<lparr>wo_stopReason = Some ''stop'', wo_exitCode = Some 0, wo_killedForTimeout = False,
     wo_outputTokens = None\<rparr>"

definition fx_turns :: "(worker_turn_observation \<times> gate_outcome option) list" where
  "fx_turns = [(fx_gap_turn, Some \<lparr>gate_passed = False, gate_feedback = []\<rparr>), (fx_truncated_turn, None),
     (fx_gap_turn, Some \<lparr>gate_passed = False, gate_feedback = []\<rparr>),
     (fx_gap_turn, Some \<lparr>gate_passed = False, gate_feedback = []\<rparr>), (fx_truncated_turn, None)]"

theorem retries_are_bounded_witness:
  "\<exists>nxt st n. settleTurns (\<lambda>_. []) DEFAULT_ATTEMPT_BUDGET_LIMITS EMPTY_ATTEMPT_BUDGET fx_turns = Some (nxt, st, n) \<and> n \<le> 5"
proof -
  have "length fx_turns \<ge> (maxAttempts DEFAULT_ATTEMPT_BUDGET_LIMITS - 1) +
      (maxHarnessRetries DEFAULT_ATTEMPT_BUDGET_LIMITS - 1) + 1"
    by code_simp
  from retries_are_bounded [OF this, where reason = "\<lambda>_. []"] show ?thesis
    by (auto simp: DEFAULT_ATTEMPT_BUDGET_LIMITS_def DEFAULT_MAX_ATTEMPTS_def DEFAULT_MAX_HARNESS_RETRIES_def)
qed

text \<open>The third unmet turn of that run is the one that fails it, after one free truncation.\<close>

lemma fx_turns_run:
  "settleTurns (\<lambda>_. []) DEFAULT_ATTEMPT_BUDGET_LIMITS EMPTY_ATTEMPT_BUDGET fx_turns =
     Some (SnFail, \<lparr>attemptsUsed = 3, harnessRetriesUsed = 1, consecutiveTruncations = 0\<rparr>, 4)"
  by code_simp

section \<open>A harness failure is never judged\<close>

lemma classifyTurn_harness:
  "tc_failureClass (classifyTurn ob) = FcHarness \<longleftrightarrow> isHarnessFailure (tc_kind (classifyTurn ob))"
  "tc_truncated (classifyTurn ob) \<longleftrightarrow> tc_kind (classifyTurn ob) = FkTruncated"
  by (auto simp: classifyTurn_def isHarnessFailure_def HARNESS_FAILURE_KINDS_def)

lemma truncation_feedback_is_neutral: "isHarnessFeedback TRUNCATION_FEEDBACK"
  by code_simp

text \<open>
  A turn that was truncated, timed out or died is settled the same whatever gate verdict is handed in;
  it takes no attempt slot and is never passed, and after a truncation the feedback for the next turn
  is the fixed text that says nothing of the criteria.
\<close>

theorem harness_failures_are_not_judged:
  assumes "tc_failureClass (classifyTurn ob) = FcHarness"
  shows "settleTurn reason ob gate st limits = settleTurn reason ob gate' st limits \<and>
     attemptsUsed (bd_state (st_budget (settleTurn reason ob gate st limits))) = attemptsUsed st \<and>
     \<not> bd_consumedAttempt (st_budget (settleTurn reason ob gate st limits)) \<and>
     st_next (settleTurn reason ob gate st limits) \<noteq> SnPass \<and>
     (tc_truncated (classifyTurn ob) \<longrightarrow>
        st_feedback (settleTurn reason ob gate st limits) \<in> {None, Some TRUNCATION_FEEDBACK} \<and>
        isHarnessFeedback TRUNCATION_FEEDBACK)"
proof -
  have kind: "isHarnessFailure (tc_kind (classifyTurn ob))" "tc_kind (classifyTurn ob) \<noteq> FkNone"
    using assms by (auto simp: classifyTurn_harness isHarnessFailure_def HARNESS_FAILURE_KINDS_def)
  then have "bd_next (recordTurn (tc_kind (classifyTurn ob)) st limits) \<noteq> NaJudge"
    "\<not> bd_consumedAttempt (recordTurn (tc_kind (classifyTurn ob)) st limits)"
    "attemptsUsed (charge (tc_kind (classifyTurn ob)) st) = attemptsUsed st"
    by (simp_all add: recordTurn_def Let_def charge_def)
  then show ?thesis
    using assms kind truncation_feedback_is_neutral
    by (simp add: settleTurn_def Let_def recordTurn_state)
qed

theorem harness_failures_are_not_judged_witness:
  "attemptsUsed (bd_state (st_budget (settleTurn (\<lambda>_. []) fx_truncated_turn
      (Some \<lparr>gate_passed = True, gate_feedback = []\<rparr>) EMPTY_ATTEMPT_BUDGET DEFAULT_ATTEMPT_BUDGET_LIMITS))) = 0"
proof -
  have "tc_failureClass (classifyTurn fx_truncated_turn) = FcHarness"
    by code_simp
  from harness_failures_are_not_judged [OF this] show ?thesis
    by (simp add: EMPTY_ATTEMPT_BUDGET_def)
qed

section \<open>The counters along a run\<close>

text \<open>Truncations are counted among the harness retries, in every state a run of turns reaches.\<close>

definition budget_ok :: "attempt_budget_state \<Rightarrow> bool" where
  "budget_ok st \<longleftrightarrow> consecutiveTruncations st \<le> harnessRetriesUsed st"

interpretation budget_run: stepwise_invariant "\<lambda>st kind. bd_state (recordTurn kind st limits)" budget_ok
  for limits
  by unfold_locales (simp add: budget_ok_def recordTurn_state charge_def isHarnessFailure_def HARNESS_FAILURE_KINDS_def)

lemma budget_ok_reached:
  "budget_ok (foldl (\<lambda>st kind. bd_state (recordTurn kind st limits)) EMPTY_ATTEMPT_BUDGET kinds)"
  by (rule budget_run.run_inv) (simp add: budget_ok_def EMPTY_ATTEMPT_BUDGET_def)

end
