(* ===== verification/GlobPatterns.thy ===== *)
theory GlobPatterns
  imports JsText
begin

text \<open>
  The ownership patterns of \<open>src/workflow/coupling.ts\<close>: tokenising a glob segment, deciding whether
  two patterns can match a common file, and the proof that the decision never misses one. The two
  memo tables of the code are threaded through the recursion as it does.
\<close>

section \<open>Tokens of one path segment\<close>

datatype seg_token = TkStar | TkAny | TkLit char | TkClass bool string

text \<open>
  \<open>tokenise\<close>; the flag says whether the last token pushed is a star, which is not repeated. A class
  needs a closing bracket that does not follow the opening one at once.
\<close>

function scan_tokens :: "bool \<Rightarrow> string \<Rightarrow> seg_token list" where
  "scan_tokens starred [] = []"
| "scan_tokens starred (c # s) =
     (if c = CHR ''*'' then (if starred then [] else [TkStar]) @ scan_tokens True s
      else if c = CHR ''?'' then TkAny # scan_tokens False s
      else if c = CHR ''['' \<and> CHR '']'' \<in> set s \<and> hd s \<noteq> CHR '']''
      then let raw = takeWhile (\<lambda>x. x \<noteq> CHR '']'') s;
               negated = (hd raw = CHR ''!'' \<or> hd raw = CHR ''^'')
           in TkClass negated (if negated then tl raw else raw) # scan_tokens False (drop (length raw + 1) s)
      else TkLit c # scan_tokens False s)"
  by pat_completeness auto

termination scan_tokens
  by (relation "measure (\<lambda>(starred, s). length s)") auto

definition tokenise :: "string \<Rightarrow> seg_token list" where
  "tokenise segment = scan_tokens False segment"

text \<open>\<open>classContains\<close>: single characters and \<open>lo-hi\<close> ranges.\<close>

fun classContains :: "string \<Rightarrow> char \<Rightarrow> bool" where
  "classContains [] ch = False"
| "classContains [lo] ch = (ch = lo)"
| "classContains [lo, d] ch = (ch = lo \<or> ch = d)"
| "classContains (lo # d # hi # rest) ch =
     (if d = CHR ''-'' then (lo \<le> ch \<and> ch \<le> hi) \<or> classContains rest ch
      else ch = lo \<or> classContains (d # hi # rest) ch)"

fun matchesToken :: "seg_token \<Rightarrow> char \<Rightarrow> bool" where
  "matchesToken TkAny ch = True"
| "matchesToken (TkLit c) ch = (c = ch)"
| "matchesToken (TkClass negated body) ch = (if negated then \<not> classContains body ch else classContains body ch)"
| "matchesToken TkStar ch = True"

definition PROBE_CHARS :: "char list" where
  "PROBE_CHARS = filter (\<lambda>c. c \<noteq> CHR ''/'') (map char_of [0x20..<0x7F :: nat])"

definition tokensIntersect :: "seg_token \<Rightarrow> seg_token \<Rightarrow> bool" where
  "tokensIntersect a b =
     (case a of
        TkLit c \<Rightarrow> matchesToken b c
      | _ \<Rightarrow> (case b of
          TkLit c \<Rightarrow> matchesToken a c
        | _ \<Rightarrow> if a = TkAny \<or> b = TkAny then True
               else list_ex (\<lambda>ch. matchesToken a ch \<and> matchesToken b ch) PROBE_CHARS))"

section \<open>Two segments\<close>

text \<open>
  \<open>segmentsIntersect\<close>: the recursion \<open>go(i, j)\<close> over both token lists, with its table of results
  keyed by \<open>i * (tb.length + 1) + j\<close>. Each call returns the table it leaves.
\<close>

text \<open>\<open>p || q\<close> where both sides may change a table: the second runs only after a no.\<close>

definition or_go :: "bool \<times> 's \<Rightarrow> ('s \<Rightarrow> bool \<times> 's) \<Rightarrow> bool \<times> 's" where
  "or_go p q = (if fst p then p else q (snd p))"

lemma or_go_cong [fundef_cong]:
  "p = p' \<Longrightarrow> (\<And>s. \<not> fst p' \<Longrightarrow> s = snd p' \<Longrightarrow> q s = q' s) \<Longrightarrow> or_go p q = or_go p' q'"
  by (simp add: or_go_def)

type_synonym memo = "nat \<Rightarrow> bool option"

definition grid_key :: "nat \<Rightarrow> nat \<Rightarrow> nat \<Rightarrow> nat" where
  "grid_key n i j = i * (n + 1) + j"

function seg_go :: "seg_token list \<Rightarrow> seg_token list \<Rightarrow> nat \<Rightarrow> nat \<Rightarrow> memo \<Rightarrow> bool \<times> memo" where
  "seg_go ta tb i j seen =
     (case seen (grid_key (length tb) i j) of
        Some cached \<Rightarrow> (cached, seen)
      | None \<Rightarrow>
          let (result, seen') =
            (if i \<ge> length ta \<and> j \<ge> length tb then (True, seen)
             else if i \<ge> length ta then (list_all (\<lambda>t. t = TkStar) (drop j tb), seen)
             else if j \<ge> length tb then (list_all (\<lambda>t. t = TkStar) (drop i ta), seen)
             else if ta ! i = TkStar
             then or_go (seg_go ta tb (i + 1) j seen) (seg_go ta tb i (j + 1))
             else if tb ! j = TkStar
             then or_go (seg_go ta tb i (j + 1) seen) (seg_go ta tb (i + 1) j)
             else if tokensIntersect (ta ! i) (tb ! j) then seg_go ta tb (i + 1) (j + 1) seen
             else (False, seen))
          in (result, seen'(grid_key (length tb) i j \<mapsto> result)))"
  by pat_completeness auto

termination seg_go
  by (relation "measure (\<lambda>(ta, tb, i, j, seen). (length ta - i) + (length tb - j))") auto

declare seg_go.simps [simp del]

definition segmentsIntersect :: "string \<Rightarrow> string \<Rightarrow> bool" where
  "segmentsIntersect a b = fst (seg_go (tokenise a) (tokenise b) 0 0 (\<lambda>_. None))"

section \<open>Two paths\<close>

text \<open>
  \<open>segmentListsIntersect\<close> remembers only that a cell was visited, and answers no for it.
\<close>

definition DOUBLE_STAR :: string where
  "DOUBLE_STAR = ''**''"

function lists_go :: "string list \<Rightarrow> string list \<Rightarrow> nat \<Rightarrow> nat \<Rightarrow> nat set \<Rightarrow> bool \<times> nat set" where
  "lists_go a b i j seen0 =
     (if grid_key (length b) i j \<in> seen0 then (False, seen0)
      else let seen = insert (grid_key (length b) i j) seen0 in
        if i \<ge> length a \<and> j \<ge> length b then (True, seen)
        else if i \<ge> length a then (list_all (\<lambda>s. s = DOUBLE_STAR) (drop j b), seen)
        else if j \<ge> length b then (list_all (\<lambda>s. s = DOUBLE_STAR) (drop i a), seen)
        else if a ! i = DOUBLE_STAR
        then or_go (lists_go a b (i + 1) j seen) (lists_go a b i (j + 1))
        else if b ! j = DOUBLE_STAR
        then or_go (lists_go a b i (j + 1) seen) (lists_go a b (i + 1) j)
        else if segmentsIntersect (a ! i) (b ! j) then lists_go a b (i + 1) (j + 1) seen
        else (False, seen))"
  by pat_completeness auto

termination lists_go
  by (relation "measure (\<lambda>(a, b, i, j, seen). (length a - i) + (length b - j))") auto

declare lists_go.simps [simp del]

definition segmentListsIntersect :: "string list \<Rightarrow> string list \<Rightarrow> bool" where
  "segmentListsIntersect a b = fst (lists_go a b 0 0 {})"

text \<open>\<open>normaliseOwnershipPath\<close> and the expansion of a pattern to its subtree.\<close>

fun slashes_once :: "string \<Rightarrow> string" where
  "slashes_once [] = []"
| "slashes_once [c] = [c]"
| "slashes_once (c # d # s) =
     (if c = CHR ''/'' \<and> d = CHR ''/'' then slashes_once (d # s) else c # slashes_once (d # s))"

function strip_dot_slashes :: "string \<Rightarrow> string" where
  "strip_dot_slashes s = (if starts_with ''./'' s then strip_dot_slashes (drop 2 s) else s)"
  by pat_completeness auto

termination strip_dot_slashes
  by (relation "measure length") (auto simp: starts_with_iff)

declare strip_dot_slashes.simps [simp del]

function strip_end_slashes :: "string \<Rightarrow> string" where
  "strip_end_slashes s =
     (if length s > 1 \<and> last s = CHR ''/'' then strip_end_slashes (butlast s) else s)"
  by pat_completeness auto

termination strip_end_slashes
  by (relation "measure length") auto

declare strip_end_slashes.simps [simp del]

definition normaliseOwnershipPath :: "string \<Rightarrow> string" where
  "normaliseOwnershipPath pattern =
     strip_end_slashes (dropWhile (\<lambda>c. c = CHR ''/'') (strip_dot_slashes
       (slashes_once (map (\<lambda>c. if c = CHR 0x5C then CHR ''/'' else c) (js_trim pattern)))))"

definition expandOwnershipPattern :: "string \<Rightarrow> string list" where
  "expandOwnershipPattern pattern =
     (let p = normaliseOwnershipPath pattern in
      if p = [] then [] else if last p = CHR ''*'' then [p] else [p, p @ ''/**''])"

definition hasGlobSyntax :: "string \<Rightarrow> bool" where
  "hasGlobSyntax pattern \<longleftrightarrow> list_ex (\<lambda>c. c \<in> {CHR ''*'', CHR ''?'', CHR ''['', CHR '']''}) pattern"

datatype overlap_rule = Identical | Containment | GlobIntersection

definition pathsIntersect :: "string \<Rightarrow> string \<Rightarrow> overlap_rule option" where
  "pathsIntersect a b =
     (let na = normaliseOwnershipPath a; nb = normaliseOwnershipPath b in
      if na = [] \<or> nb = [] then None
      else if na = nb then Some Identical
      else if \<not> hasGlobSyntax na \<and> \<not> hasGlobSyntax nb \<and>
              (starts_with (na @ ''/'') nb \<or> starts_with (nb @ ''/'') na) then Some Containment
      else if list_ex (\<lambda>pa. list_ex (\<lambda>pb.
              segmentListsIntersect (split_on (CHR ''/'') pa) (split_on (CHR ''/'') pb))
              (expandOwnershipPattern nb)) (expandOwnershipPattern na)
      then Some GlobIntersection else None)"

section \<open>The memo tables change nothing\<close>

text \<open>The recursion without a table, over what is left of the two lists.\<close>

fun tokens_meet :: "seg_token list \<Rightarrow> seg_token list \<Rightarrow> bool" where
  "tokens_meet [] tb = list_all (\<lambda>t. t = TkStar) tb"
| "tokens_meet ta [] = list_all (\<lambda>t. t = TkStar) ta"
| "tokens_meet (x # xs) (y # ys) =
     (if x = TkStar then tokens_meet xs (y # ys) \<or> tokens_meet (x # xs) ys
      else if y = TkStar then tokens_meet (x # xs) ys \<or> tokens_meet xs (y # ys)
      else tokensIntersect x y \<and> tokens_meet xs ys)"

fun lists_meet :: "string list \<Rightarrow> string list \<Rightarrow> bool" where
  "lists_meet [] b = list_all (\<lambda>s. s = DOUBLE_STAR) b"
| "lists_meet a [] = list_all (\<lambda>s. s = DOUBLE_STAR) a"
| "lists_meet (x # xs) (y # ys) =
     (if x = DOUBLE_STAR then lists_meet xs (y # ys) \<or> lists_meet (x # xs) ys
      else if y = DOUBLE_STAR then lists_meet (x # xs) ys \<or> lists_meet xs (y # ys)
      else segmentsIntersect x y \<and> lists_meet xs ys)"

lemma grid_key_div: "j \<le> n \<Longrightarrow> grid_key n i j div (n + 1) = i"
  unfolding grid_key_def by (subst div_mult_self3) auto

lemma grid_key_inj:
  assumes "grid_key n i j = grid_key n i' j'" and "j \<le> n" and "j' \<le> n"
  shows "i = i' \<and> j = j'"
proof -
  have "i = i'"
    using assms by (metis grid_key_div)
  with assms(1) show ?thesis
    by (simp add: grid_key_def)
qed

text \<open>A table is right when each entry is the answer of its cell.\<close>

definition memo_ok :: "seg_token list \<Rightarrow> seg_token list \<Rightarrow> memo \<Rightarrow> bool" where
  "memo_ok ta tb seen \<longleftrightarrow> (\<forall>i j r. j \<le> length tb \<and> seen (grid_key (length tb) i j) = Some r \<longrightarrow>
     r = tokens_meet (drop i ta) (drop j tb))"

lemma memo_ok_update:
  assumes "memo_ok ta tb seen" and "j \<le> length tb" and "r = tokens_meet (drop i ta) (drop j tb)"
  shows "memo_ok ta tb (seen(grid_key (length tb) i j \<mapsto> r))"
  unfolding memo_ok_def
proof (intro allI impI, elim conjE)
  fix i' j' r'
  assume j': "j' \<le> length tb"
    and look: "(seen(grid_key (length tb) i j \<mapsto> r)) (grid_key (length tb) i' j') = Some r'"
  show "r' = tokens_meet (drop i' ta) (drop j' tb)"
  proof (cases "grid_key (length tb) i' j' = grid_key (length tb) i j")
    case True
    with grid_key_inj [OF True j' assms(2)] look assms(3) show ?thesis by simp
  next
    case False
    with look assms(1) j' show ?thesis by (simp add: memo_ok_def)
  qed
qed

lemma tokens_meet_drop:
  assumes "i < length ta" and "j < length tb"
  shows "tokens_meet (drop i ta) (drop j tb) =
     (if ta ! i = TkStar then tokens_meet (drop (i + 1) ta) (drop j tb) \<or> tokens_meet (drop i ta) (drop (j + 1) tb)
      else if tb ! j = TkStar then tokens_meet (drop i ta) (drop (j + 1) tb) \<or> tokens_meet (drop (i + 1) ta) (drop j tb)
      else tokensIntersect (ta ! i) (tb ! j) \<and> tokens_meet (drop (i + 1) ta) (drop (j + 1) tb))"
proof -
  have "drop i ta = ta ! i # drop (i + 1) ta" "drop j tb = tb ! j # drop (j + 1) tb"
    using assms by (simp_all add: Cons_nth_drop_Suc)
  then show ?thesis
    by (metis tokens_meet.simps(3))
qed

lemma or_go_ok:
  assumes "fst p = A \<and> I (snd p)" and "\<not> A \<Longrightarrow> I (snd p) \<Longrightarrow> fst (q (snd p)) = B \<and> I (snd (q (snd p)))"
  shows "fst (or_go p q) = (A \<or> B) \<and> I (snd (or_go p q))"
  using assms by (auto simp: or_go_def)

lemma seg_go_correct:
  "memo_ok ta tb seen \<Longrightarrow> i \<le> length ta \<Longrightarrow> j \<le> length tb \<Longrightarrow>
     fst (seg_go ta tb i j seen) = tokens_meet (drop i ta) (drop j tb) \<and> memo_ok ta tb (snd (seg_go ta tb i j seen))"
proof (induction ta tb i j seen rule: seg_go.induct)
  case (1 ta tb i j seen)
  define body where "body =
    (if i \<ge> length ta \<and> j \<ge> length tb then (True, seen)
     else if i \<ge> length ta then (list_all (\<lambda>t. t = TkStar) (drop j tb), seen)
     else if j \<ge> length tb then (list_all (\<lambda>t. t = TkStar) (drop i ta), seen)
     else if ta ! i = TkStar then or_go (seg_go ta tb (i + 1) j seen) (seg_go ta tb i (j + 1))
     else if tb ! j = TkStar then or_go (seg_go ta tb i (j + 1) seen) (seg_go ta tb (i + 1) j)
     else if tokensIntersect (ta ! i) (tb ! j) then seg_go ta tb (i + 1) (j + 1) seen
     else (False, seen))"
  have step: "seg_go ta tb i j seen = (case seen (grid_key (length tb) i j) of Some cached \<Rightarrow> (cached, seen)
      | None \<Rightarrow> (fst body, (snd body)(grid_key (length tb) i j \<mapsto> fst body)))"
    by (subst seg_go.simps) (simp only: body_def [symmetric] Let_def case_prod_beta)
  show ?case
  proof (cases "seen (grid_key (length tb) i j)")
    case (Some r)
    with "1.prems" show ?thesis by (simp add: step memo_ok_def)
  next
    case None
    have "fst body = tokens_meet (drop i ta) (drop j tb) \<and> memo_ok ta tb (snd body)"
    proof (cases "i < length ta \<and> j < length tb")
      case False
      with "1.prems" show ?thesis
        by (cases "drop i ta") (auto simp: body_def)
    next
      case True
      then have in_range: "\<not> (i \<ge> length ta \<and> j \<ge> length tb)" "\<not> i \<ge> length ta" "\<not> j \<ge> length tb" by auto
      note ih = "1.IH" [OF None in_range]
      consider (sa) "ta ! i = TkStar" | (sb) "ta ! i \<noteq> TkStar" "tb ! j = TkStar"
        | (no) "ta ! i \<noteq> TkStar" "tb ! j \<noteq> TkStar" by blast
      then show ?thesis
      proof cases
        case sa
        have "fst (or_go (seg_go ta tb (i + 1) j seen) (seg_go ta tb i (j + 1))) =
            (tokens_meet (drop (i + 1) ta) (drop j tb) \<or> tokens_meet (drop i ta) (drop (j + 1) tb)) \<and>
          memo_ok ta tb (snd (or_go (seg_go ta tb (i + 1) j seen) (seg_go ta tb i (j + 1))))"
          by (rule or_go_ok) (use ih(1,2) sa True "1.prems" in simp_all)
        with sa True show ?thesis
          by (simp add: body_def tokens_meet_drop)
      next
        case sb
        have "fst (or_go (seg_go ta tb i (j + 1) seen) (seg_go ta tb (i + 1) j)) =
            (tokens_meet (drop i ta) (drop (j + 1) tb) \<or> tokens_meet (drop (i + 1) ta) (drop j tb)) \<and>
          memo_ok ta tb (snd (or_go (seg_go ta tb i (j + 1) seen) (seg_go ta tb (i + 1) j)))"
          by (rule or_go_ok) (use ih(3,4) sb True "1.prems" in simp_all)
        with sb True show ?thesis
          by (simp add: body_def tokens_meet_drop)
      next
        case no
        with ih(5) True "1.prems" show ?thesis
          by (simp add: body_def tokens_meet_drop)
      qed
    qed
    moreover from this have "memo_ok ta tb ((snd body)(grid_key (length tb) i j \<mapsto> fst body))"
      by (intro memo_ok_update) (use "1.prems"(3) in auto)
    ultimately show ?thesis
      using None by (simp add: step del: fun_upd_apply)
  qed
qed

lemma segmentsIntersect_eq:
  "segmentsIntersect a b = tokens_meet (tokenise a) (tokenise b)"
  using seg_go_correct [of "tokenise a" "tokenise b" "\<lambda>_. None" 0 0]
  by (simp add: segmentsIntersect_def memo_ok_def)

text \<open>
  The visited set answers no for a cell that is on the call stack or was answered no before; the
  stack only holds cells nearer the origin, so a no is always right.
\<close>

definition clean_from :: "nat \<Rightarrow> string list \<Rightarrow> string list \<Rightarrow> nat set \<Rightarrow> bool" where
  "clean_from n a b seen \<longleftrightarrow> (\<forall>i j. j \<le> length b \<and> n \<le> i + j \<and> grid_key (length b) i j \<in> seen \<longrightarrow>
     \<not> lists_meet (drop i a) (drop j b))"

definition only_refuted :: "string list \<Rightarrow> string list \<Rightarrow> nat set \<Rightarrow> nat set \<Rightarrow> bool" where
  "only_refuted a b seen seen' \<longleftrightarrow> (\<forall>i j. j \<le> length b \<and> grid_key (length b) i j \<in> seen' \<longrightarrow>
     grid_key (length b) i j \<in> seen \<or> \<not> lists_meet (drop i a) (drop j b))"

lemma only_refuted_refl: "only_refuted a b seen seen"
  by (simp add: only_refuted_def)

lemma only_refuted_trans:
  "only_refuted a b s0 s1 \<Longrightarrow> only_refuted a b s1 s2 \<Longrightarrow> only_refuted a b s0 s2"
  unfolding only_refuted_def by blast

lemma clean_from_refuted:
  "clean_from n a b s0 \<Longrightarrow> only_refuted a b s0 s1 \<Longrightarrow> clean_from n a b s1"
  unfolding clean_from_def only_refuted_def by blast

lemma clean_from_mono: "clean_from n a b seen \<Longrightarrow> n \<le> m \<Longrightarrow> clean_from m a b seen"
  unfolding clean_from_def by (meson le_trans)

lemma clean_from_visit:
  assumes "clean_from (i + j) a b seen" and "j \<le> length b"
  shows "clean_from (Suc (i + j)) a b (insert (grid_key (length b) i j) seen)"
  unfolding clean_from_def
proof (intro allI impI, elim conjE)
  fix i' j'
  assume j': "j' \<le> length b" and far: "Suc (i + j) \<le> i' + j'"
    and seen: "grid_key (length b) i' j' \<in> insert (grid_key (length b) i j) seen"
  have "grid_key (length b) i' j' \<noteq> grid_key (length b) i j"
    using grid_key_inj [of "length b" i' j' i j] j' assms(2) far by auto
  with seen j' far assms(1) show "\<not> lists_meet (drop i' a) (drop j' b)"
    unfolding clean_from_def by simp
qed

text \<open>What a run of the recursion on one cell must leave.\<close>

definition cell_ok :: "string list \<Rightarrow> string list \<Rightarrow> nat set \<Rightarrow> bool \<Rightarrow> bool \<times> nat set \<Rightarrow> bool" where
  "cell_ok a b seen answer r \<longleftrightarrow> fst r = answer \<and> (\<not> answer \<longrightarrow> only_refuted a b seen (snd r))"

lemma or_go_cell_ok:
  assumes "cell_ok a b seen A p"
    and "\<not> fst p \<Longrightarrow> only_refuted a b seen (snd p) \<Longrightarrow> cell_ok a b (snd p) B (q (snd p))"
  shows "cell_ok a b seen (A \<or> B) (or_go p q)"
proof (cases A)
  case True
  with assms(1) show ?thesis by (simp add: cell_ok_def or_go_def)
next
  case False
  with assms(1) have p: "\<not> fst p" "only_refuted a b seen (snd p)" by (simp_all add: cell_ok_def)
  with assms(2) [OF p] False show ?thesis
    by (auto simp: cell_ok_def or_go_def intro: only_refuted_trans)
qed

lemma lists_meet_drop:
  assumes "i < length a" and "j < length b"
  shows "lists_meet (drop i a) (drop j b) =
     (if a ! i = DOUBLE_STAR then lists_meet (drop (i + 1) a) (drop j b) \<or> lists_meet (drop i a) (drop (j + 1) b)
      else if b ! j = DOUBLE_STAR then lists_meet (drop i a) (drop (j + 1) b) \<or> lists_meet (drop (i + 1) a) (drop j b)
      else segmentsIntersect (a ! i) (b ! j) \<and> lists_meet (drop (i + 1) a) (drop (j + 1) b))"
proof -
  have "drop i a = a ! i # drop (i + 1) a" "drop j b = b ! j # drop (j + 1) b"
    using assms by (simp_all add: Cons_nth_drop_Suc)
  then show ?thesis
    by (metis lists_meet.simps(3))
qed

lemma cell_ok_visit:
  assumes "cell_ok a b (insert (grid_key (length b) i j) seen) answer r"
    and "answer = lists_meet (drop i a) (drop j b)" and "j \<le> length b"
  shows "cell_ok a b seen answer r"
proof -
  have "only_refuted a b seen (snd r)"
    if "only_refuted a b (insert (grid_key (length b) i j) seen) (snd r)" "\<not> answer"
    using that assms(2,3) grid_key_inj [of "length b" _ _ i j] unfolding only_refuted_def by blast
  with assms(1) show ?thesis
    by (auto simp: cell_ok_def)
qed

lemma lists_go_correct:
  "clean_from (i + j) a b seen \<Longrightarrow> i \<le> length a \<Longrightarrow> j \<le> length b \<Longrightarrow>
     cell_ok a b seen (lists_meet (drop i a) (drop j b)) (lists_go a b i j seen)"
proof (induction a b i j seen rule: lists_go.induct)
  case (1 a b i j seen0)
  define seen where "seen = insert (grid_key (length b) i j) seen0"
  let ?go = "lists_go a b i j seen0"
  show ?case
  proof (cases "grid_key (length b) i j \<in> seen0")
    case True
    with "1.prems" have "\<not> lists_meet (drop i a) (drop j b)"
      unfolding clean_from_def by blast
    with True show ?thesis
      by (subst lists_go.simps) (simp add: cell_ok_def only_refuted_refl)
  next
    case False
    note step = lists_go.simps [of a b i j seen0, unfolded Let_def, folded seen_def]
    have next_clean: "clean_from n a b s" if "only_refuted a b seen s" "Suc (i + j) \<le> n" for n s
      using clean_from_visit [OF "1.prems"(1,3)] that clean_from_refuted clean_from_mono
      unfolding seen_def by blast
    have "cell_ok a b seen (lists_meet (drop i a) (drop j b)) ?go"
    proof (cases "i < length a \<and> j < length b")
      case False
      with "1.prems" \<open>grid_key (length b) i j \<notin> seen0\<close> show ?thesis
        by (cases "drop i a") (auto simp: step cell_ok_def only_refuted_refl)
    next
      case True
      then have in_range: "\<not> (i \<ge> length a \<and> j \<ge> length b)" "\<not> i \<ge> length a" "\<not> j \<ge> length b" by auto
      note ih = "1.IH" [OF \<open>grid_key (length b) i j \<notin> seen0\<close> seen_def in_range]
      consider (sa) "a ! i = DOUBLE_STAR" | (sb) "a ! i \<noteq> DOUBLE_STAR" "b ! j = DOUBLE_STAR"
        | (no) "a ! i \<noteq> DOUBLE_STAR" "b ! j \<noteq> DOUBLE_STAR" by blast
      then show ?thesis
      proof cases
        case sa
        have "cell_ok a b seen (lists_meet (drop (i + 1) a) (drop j b) \<or> lists_meet (drop i a) (drop (j + 1) b))
            (or_go (lists_go a b (i + 1) j seen) (lists_go a b i (j + 1)))"
          by (rule or_go_cell_ok) (use ih(1,2) sa True next_clean only_refuted_refl in simp_all)
        with sa True \<open>grid_key (length b) i j \<notin> seen0\<close> show ?thesis by (simp add: step lists_meet_drop)
      next
        case sb
        have "cell_ok a b seen (lists_meet (drop i a) (drop (j + 1) b) \<or> lists_meet (drop (i + 1) a) (drop j b))
            (or_go (lists_go a b i (j + 1) seen) (lists_go a b (i + 1) j))"
          by (rule or_go_cell_ok) (use ih(3,4) sb True next_clean only_refuted_refl in simp_all)
        with sb True \<open>grid_key (length b) i j \<notin> seen0\<close> show ?thesis by (simp add: step lists_meet_drop)
      next
        case no
        have "cell_ok a b seen (lists_meet (drop (i + 1) a) (drop (j + 1) b)) (lists_go a b (i + 1) (j + 1) seen)"
          if "segmentsIntersect (a ! i) (b ! j)"
          using ih(5) no that True next_clean [OF only_refuted_refl] by simp
        with no True \<open>grid_key (length b) i j \<notin> seen0\<close> show ?thesis
          by (auto simp: step lists_meet_drop cell_ok_def only_refuted_refl)
      qed
    qed
    then show ?thesis
      using "1.prems"(3) unfolding seen_def by (rule cell_ok_visit [OF _ refl])
  qed
qed

lemma segmentListsIntersect_eq: "segmentListsIntersect a b = lists_meet a b"
  using lists_go_correct [of 0 0 a b "{}"]
  by (simp add: segmentListsIntersect_def clean_from_def cell_ok_def)

section \<open>What a pattern matches\<close>

text \<open>The names one segment stands for, and the paths a list of segments stands for.\<close>

fun segment_matches :: "seg_token list \<Rightarrow> string \<Rightarrow> bool" where
  "segment_matches [] s \<longleftrightarrow> s = []"
| "segment_matches (t # ts) [] \<longleftrightarrow> t = TkStar \<and> segment_matches ts []"
| "segment_matches (t # ts) (c # s) \<longleftrightarrow>
     (if t = TkStar then segment_matches ts (c # s) \<or> segment_matches (t # ts) s
      else matchesToken t c \<and> segment_matches ts s)"

fun path_matches :: "string list \<Rightarrow> string list \<Rightarrow> bool" where
  "path_matches [] f \<longleftrightarrow> f = []"
| "path_matches (p # ps) [] \<longleftrightarrow> p = DOUBLE_STAR \<and> path_matches ps []"
| "path_matches (p # ps) (n # f) \<longleftrightarrow>
     (if p = DOUBLE_STAR then path_matches ps (n # f) \<or> path_matches (p # ps) f
      else segment_matches (tokenise p) n \<and> path_matches ps f)"

definition probed :: "string \<Rightarrow> bool" where
  "probed n \<longleftrightarrow> list_all (\<lambda>c. List.member PROBE_CHARS c) n"

lemma chars_between:
  fixes lo hi :: nat
  assumes "hi \<le> 256"
  shows "c \<in> set (map char_of [lo..<hi]) \<longleftrightarrow> lo \<le> of_char c \<and> of_char c < hi"
proof
  assume "c \<in> set (map char_of [lo..<hi])"
  then obtain k where k: "k \<in> set [lo..<hi]" and c: "c = char_of k" by auto
  have "of_char c = k" unfolding c using k assms by simp
  with k show "lo \<le> of_char c \<and> of_char c < hi" by simp
next
  assume "lo \<le> of_char c \<and> of_char c < hi"
  then show "c \<in> set (map char_of [lo..<hi])"
    unfolding set_map by (intro image_eqI [of _ _ "of_char c"]) simp_all
qed

lemma in_PROBE_CHARS:
  "c \<in> set PROBE_CHARS \<longleftrightarrow> 0x20 \<le> (of_char c :: nat) \<and> of_char c < (0x7F :: nat) \<and> c \<noteq> CHR ''/''"
  unfolding PROBE_CHARS_def set_filter mem_Collect_eq
  by (subst chars_between) simp_all

lemma probed_iff: "probed n \<longleftrightarrow> set n \<subseteq> set PROBE_CHARS"
  unfolding probed_def list_all_iff List.member_iff by blast

lemma probed_simps [simp]: "probed []" "probed (c # s) \<longleftrightarrow> c \<in> set PROBE_CHARS \<and> probed s"
  by (auto simp only: probed_iff list.set insert_subset empty_subsetI)

lemma segment_matches_Nil: "segment_matches ts [] \<longleftrightarrow> list_all (\<lambda>t. t = TkStar) ts"
  by (induction ts) auto

lemma path_matches_Nil: "path_matches ps [] \<longleftrightarrow> list_all (\<lambda>p. p = DOUBLE_STAR) ps"
  by (induction ps) auto

lemma tokensIntersect_complete:
  assumes "matchesToken x c" and "matchesToken y c" and "c \<in> set PROBE_CHARS" and "x \<noteq> TkStar" "y \<noteq> TkStar"
  shows "tokensIntersect x y"
  using assms by (cases x; cases y) (auto simp: tokensIntersect_def list_ex_iff)

text \<open>A name both segments stand for makes the recursion say yes, and the other way round.\<close>

lemma tokens_meet_complete:
  "segment_matches ta s \<Longrightarrow> segment_matches tb s \<Longrightarrow> probed s \<Longrightarrow> tokens_meet ta tb"
proof (induction ta tb arbitrary: s rule: tokens_meet.induct)
  case (3 x xs y ys)
  from "3.prems" show ?case
  proof (induction s)
    case Nil
    with "3.IH"(1) [of "[]"] show ?case by auto
  next
    case (Cons c s)
    consider (ss) "x = TkStar" "y = TkStar" | (s1) "x = TkStar" "y \<noteq> TkStar"
      | (s2) "x \<noteq> TkStar" "y = TkStar" | (ch) "x \<noteq> TkStar" "y \<noteq> TkStar" by blast
    then show ?case
    proof cases
      case ss
      with Cons.prems Cons.IH "3.IH"(1) [of "c # s"] "3.IH"(2) [of "c # s"] show ?thesis by auto
    next
      case s1
      with Cons.prems "3.IH"(1) [of "c # s"] "3.IH"(2) [of s] show ?thesis by auto
    next
      case s2
      with Cons.prems "3.IH"(3) [of "c # s"] "3.IH"(4) [of s] show ?thesis by auto
    next
      case ch
      with Cons.prems "3.IH"(5) [of s] tokensIntersect_complete [of x c y] show ?thesis by simp
    qed
  qed
qed (auto simp: segment_matches_Nil)

definition choosable :: "seg_token list \<Rightarrow> bool" where
  "choosable ts \<longleftrightarrow> list_all (\<lambda>t. list_ex (matchesToken t) PROBE_CHARS) ts"

lemma choosable_Cons [simp]:
  "choosable (t # ts) \<longleftrightarrow> list_ex (matchesToken t) PROBE_CHARS \<and> choosable ts"
  by (simp add: choosable_def)

lemma stars_match_any: "list_all (\<lambda>t. t = TkStar) ts \<Longrightarrow> ts \<noteq> [] \<Longrightarrow> segment_matches ts s"
proof (induction s)
  case (Cons c s)
  then show ?case by (cases ts) auto
qed (simp add: segment_matches_Nil)

lemma star_prefix: "segment_matches ts s \<Longrightarrow> segment_matches (TkStar # ts) s"
  by (cases s) auto

lemma star_absorbs: "segment_matches (TkStar # ts) s \<Longrightarrow> segment_matches (TkStar # ts) (c # s)"
  by simp

lemma tokensIntersect_sound:
  assumes "tokensIntersect x y" and "list_ex (matchesToken x) PROBE_CHARS" "list_ex (matchesToken y) PROBE_CHARS"
  obtains c where "c \<in> set PROBE_CHARS" "matchesToken x c" "matchesToken y c"
  using assms by (cases x; cases y) (auto simp: tokensIntersect_def list_ex_iff)

lemma tokens_meet_sound:
  "tokens_meet ta tb \<Longrightarrow> choosable ta \<Longrightarrow> choosable tb \<Longrightarrow>
     \<exists>s. probed s \<and> segment_matches ta s \<and> segment_matches tb s"
proof (induction ta tb rule: tokens_meet.induct)
  case (3 x xs y ys)
  obtain cx where cx: "cx \<in> set PROBE_CHARS" "matchesToken x cx"
    using "3.prems"(2) by (auto simp: list_ex_iff)
  obtain cy where cy: "cy \<in> set PROBE_CHARS" "matchesToken y cy"
    using "3.prems"(3) by (auto simp: list_ex_iff)
  consider (sx) "x = TkStar" "tokens_meet xs (y # ys)" | (sy) "y = TkStar" "tokens_meet (x # xs) ys"
    | (xs) "x = TkStar" "y \<noteq> TkStar" "tokens_meet (x # xs) ys" | (ys) "y = TkStar" "x \<noteq> TkStar" "tokens_meet xs (y # ys)"
    | (ch) "x \<noteq> TkStar" "y \<noteq> TkStar" "tokensIntersect x y" "tokens_meet xs ys"
    using "3.prems"(1) by (auto split: if_splits)
  then show ?case
  proof cases
    case sx
    with "3.IH"(1) "3.prems"(2,3) show ?thesis by (auto intro: star_prefix)
  next
    case sy
    with "3.IH"(2,3) "3.prems"(2,3) show ?thesis
      by (cases "x = TkStar") (auto intro: star_prefix)
  next
    case xs
    with "3.IH"(2) "3.prems"(2,3) obtain s where "probed s" "segment_matches (x # xs) s" "segment_matches ys s"
      by auto
    with xs cy have "probed (cy # s)" "segment_matches (x # xs) (cy # s)" "segment_matches (y # ys) (cy # s)"
      by simp_all
    then show ?thesis by blast
  next
    case ys
    with "3.IH"(4) "3.prems"(2,3) obtain s where "probed s" "segment_matches xs s" "segment_matches (y # ys) s"
      by auto
    with ys cx have "probed (cx # s)" "segment_matches (x # xs) (cx # s)" "segment_matches (y # ys) (cx # s)"
      by simp_all
    then show ?thesis by blast
  next
    case ch
    obtain c where c: "c \<in> set PROBE_CHARS" "matchesToken x c" "matchesToken y c"
      by (rule tokensIntersect_sound [OF ch(3)]) (use "3.prems"(2,3) in auto)
    from ch "3.IH"(5) "3.prems"(2,3) obtain s where "probed s" "segment_matches xs s" "segment_matches ys s"
      by auto
    with ch c have "probed (c # s)" "segment_matches (x # xs) (c # s)" "segment_matches (y # ys) (c # s)"
      by simp_all
    then show ?thesis by blast
  qed
qed (use segment_matches_Nil in \<open>auto intro!: exI [of _ "[]"]\<close>)

lemma choosable_name: "choosable ts \<Longrightarrow> \<exists>n. probed n \<and> segment_matches ts n"
  by (induction ts) (fastforce simp: list_ex_iff intro: exI [of _ "[]"] exI [of _ "_ # _"] star_prefix)+

lemma segmentsIntersect_complete:
  "segment_matches (tokenise x) n \<Longrightarrow> segment_matches (tokenise y) n \<Longrightarrow> probed n \<Longrightarrow> segmentsIntersect x y"
  unfolding segmentsIntersect_eq by (rule tokens_meet_complete)

lemma segmentsIntersect_sound:
  "segmentsIntersect x y \<Longrightarrow> choosable (tokenise x) \<Longrightarrow> choosable (tokenise y) \<Longrightarrow>
     \<exists>n. probed n \<and> segment_matches (tokenise x) n \<and> segment_matches (tokenise y) n"
  unfolding segmentsIntersect_eq by (rule tokens_meet_sound)

lemma lists_meet_complete:
  "path_matches a f \<Longrightarrow> path_matches b f \<Longrightarrow> list_all probed f \<Longrightarrow> lists_meet a b"
proof (induction a b arbitrary: f rule: lists_meet.induct)
  case (3 x xs y ys)
  from "3.prems" show ?case
  proof (induction f)
    case Nil
    with "3.IH"(1) [of "[]"] show ?case by auto
  next
    case (Cons n f)
    consider (ss) "x = DOUBLE_STAR" "y = DOUBLE_STAR" | (s1) "x = DOUBLE_STAR" "y \<noteq> DOUBLE_STAR"
      | (s2) "x \<noteq> DOUBLE_STAR" "y = DOUBLE_STAR" | (ch) "x \<noteq> DOUBLE_STAR" "y \<noteq> DOUBLE_STAR" by blast
    then show ?case
    proof cases
      case ss
      with Cons.prems Cons.IH "3.IH"(1) [of "n # f"] "3.IH"(2) [of "n # f"] show ?thesis by auto
    next
      case s1
      with Cons.prems "3.IH"(1) [of "n # f"] "3.IH"(2) [of f] show ?thesis by auto
    next
      case s2
      with Cons.prems "3.IH"(3) [of "n # f"] "3.IH"(4) [of f] show ?thesis by auto
    next
      case ch
      with Cons.prems "3.IH"(5) [of f] segmentsIntersect_complete [of x n y] show ?thesis by simp
    qed
  qed
qed (auto simp: path_matches_Nil)

definition choosable_path :: "string list \<Rightarrow> bool" where
  "choosable_path ps \<longleftrightarrow> list_all (\<lambda>p. p = DOUBLE_STAR \<or> choosable (tokenise p)) ps"

lemma choosable_path_Cons [simp]:
  "choosable_path (p # ps) \<longleftrightarrow> (p = DOUBLE_STAR \<or> choosable (tokenise p)) \<and> choosable_path ps"
  by (simp add: choosable_path_def)

lemma double_star_prefix: "path_matches ps f \<Longrightarrow> path_matches (DOUBLE_STAR # ps) f"
  by (cases f) auto

lemma lists_meet_sound:
  "lists_meet a b \<Longrightarrow> choosable_path a \<Longrightarrow> choosable_path b \<Longrightarrow>
     \<exists>f. list_all probed f \<and> path_matches a f \<and> path_matches b f"
proof (induction a b rule: lists_meet.induct)
  case (3 x xs y ys)
  consider (sx) "x = DOUBLE_STAR" "lists_meet xs (y # ys)" | (sy) "y = DOUBLE_STAR" "lists_meet (x # xs) ys"
    | (xs) "x = DOUBLE_STAR" "y \<noteq> DOUBLE_STAR" "lists_meet (x # xs) ys"
    | (ys) "y = DOUBLE_STAR" "x \<noteq> DOUBLE_STAR" "lists_meet xs (y # ys)"
    | (ch) "x \<noteq> DOUBLE_STAR" "y \<noteq> DOUBLE_STAR" "segmentsIntersect x y" "lists_meet xs ys"
    using "3.prems"(1) by (auto split: if_splits)
  then show ?case
  proof cases
    case sx
    with "3.IH"(1) "3.prems"(2,3) show ?thesis by (auto intro: double_star_prefix)
  next
    case sy
    with "3.IH"(2,3) "3.prems"(2,3) show ?thesis
      by (cases "x = DOUBLE_STAR") (auto intro: double_star_prefix)
  next
    case xs
    with "3.IH"(2) "3.prems"(2,3) obtain f where "list_all probed f" "path_matches (x # xs) f" "path_matches ys f"
      by auto
    moreover obtain n where "probed n" "segment_matches (tokenise y) n"
      using xs "3.prems"(3) choosable_name by auto
    ultimately have "list_all probed (n # f)" "path_matches (x # xs) (n # f)" "path_matches (y # ys) (n # f)"
      using xs by simp_all
    then show ?thesis by blast
  next
    case ys
    with "3.IH"(4) "3.prems"(2,3) obtain f where "list_all probed f" "path_matches xs f" "path_matches (y # ys) f"
      by auto
    moreover obtain n where "probed n" "segment_matches (tokenise x) n"
      using ys "3.prems"(2) choosable_name by auto
    ultimately have "list_all probed (n # f)" "path_matches (x # xs) (n # f)" "path_matches (y # ys) (n # f)"
      using ys by simp_all
    then show ?thesis by blast
  next
    case ch
    obtain n where n: "probed n" "segment_matches (tokenise x) n" "segment_matches (tokenise y) n"
      using segmentsIntersect_sound [OF ch(3)] ch(1,2) "3.prems"(2,3) by auto
    from ch "3.IH"(5) "3.prems"(2,3) obtain f where "list_all probed f" "path_matches xs f" "path_matches ys f"
      by auto
    with ch n have "list_all probed (n # f)" "path_matches (x # xs) (n # f)" "path_matches (y # ys) (n # f)"
      by simp_all
    then show ?thesis by blast
  qed
qed (auto simp: path_matches_Nil intro!: exI [of _ "[]"])

section \<open>What the comparison promises\<close>

text \<open>C15. Neither memo table changes an answer: the tabled recursions of \<open>segmentsIntersect\<close> and
  \<open>segmentListsIntersect\<close>, one of which answers no for every cell it has seen, compute the plain
  recursions over the remaining tokens and segments, for every pair of inputs.\<close>

theorem memo_tables_are_transparent:
  "segmentsIntersect s t = tokens_meet (tokenise s) (tokenise t) \<and>
   segmentListsIntersect a b = lists_meet a b"
  by (simp add: segmentsIntersect_eq segmentListsIntersect_eq)

text \<open>C16. The pattern-against-pattern decision is exact: two segment lists whose character classes
  each admit some printable character are said to intersect exactly when some path of printable
  names is matched by both, with \<open>**\<close> standing for any number of names.\<close>

theorem segmentListsIntersect_exact:
  assumes "choosable_path a" and "choosable_path b"
  shows "segmentListsIntersect a b \<longleftrightarrow> (\<exists>f. list_all probed f \<and> path_matches a f \<and> path_matches b f)"
  using assms lists_meet_sound lists_meet_complete by (auto simp: segmentListsIntersect_eq)

lemma choosable_example:
  "choosable_path [''src'', ''*[a-z].ts'']" "choosable_path [''**'', ''foo?ts'']"
  by code_simp+

theorem segmentListsIntersect_exact_witness:
  "segmentListsIntersect [''src'', ''*[a-z].ts''] [''**'', ''foo?ts''] \<longleftrightarrow>
     (\<exists>f. list_all probed f \<and> path_matches [''src'', ''*[a-z].ts''] f \<and> path_matches [''**'', ''foo?ts''] f)"
  by (rule segmentListsIntersect_exact [OF choosable_example])

text \<open>
  The files a declared pattern stands for, in the normal form the comparison gives it (it normalises
  twice): the files whose path it matches, and, unless it ends in a star, everything below a directory it
  matches. The subtree is stated on the file's own path, without the patterns the comparison generates.
\<close>

definition owns_file :: "string \<Rightarrow> string \<Rightarrow> bool" where
  "owns_file pattern f \<longleftrightarrow>
     (let p = normaliseOwnershipPath (normaliseOwnershipPath pattern);
          path = split_on (CHR ''/'') f in
      p \<noteq> [] \<and>
      (path_matches (split_on (CHR ''/'') p) path \<or>
       last p \<noteq> CHR ''*'' \<and>
         list_ex (\<lambda>k. path_matches (split_on (CHR ''/'') p) (take k path)) [1..<length path]))"

lemma path_matches_below: "path_matches ps xs \<Longrightarrow> path_matches (ps @ [DOUBLE_STAR]) (xs @ ys)"
proof (induction ps xs rule: path_matches.induct)
  case (1 f)
  have "path_matches [DOUBLE_STAR] zs" for zs
    by (induction zs) simp_all
  with 1 show ?case by simp
next
  case (2 p ps)
  then have ps: "path_matches (ps @ [DOUBLE_STAR]) ys" and p: "p = DOUBLE_STAR" by simp_all
  from ps show ?case by (cases ys) (simp_all add: p)
next
  case (3 p ps n f)
  then show ?case by (auto split: if_splits)
qed

lemma split_on_subtree: "split_on (CHR ''/'') (p @ ''/**'') = split_on (CHR ''/'') p @ [DOUBLE_STAR]"
proof (induction p)
  case (Cons c p)
  then show ?case by (cases "split_on (CHR ''/'') p") auto
qed (simp add: DOUBLE_STAR_def)

lemma owns_file_expanded:
  assumes "owns_file pattern f"
  obtains p where "p \<in> set (expandOwnershipPattern (normaliseOwnershipPath pattern))"
    "path_matches (split_on (CHR ''/'') p) (split_on (CHR ''/'') f)"
proof -
  let ?p = "normaliseOwnershipPath (normaliseOwnershipPath pattern)" and ?path = "split_on (CHR ''/'') f"
  from assms have "?p \<noteq> []" and "path_matches (split_on (CHR ''/'') ?p) ?path \<or>
      last ?p \<noteq> CHR ''*'' \<and> (\<exists>k. path_matches (split_on (CHR ''/'') ?p) (take k ?path))"
    by (auto simp: owns_file_def Let_def list_ex_iff)
  then consider (itself) "path_matches (split_on (CHR ''/'') ?p) ?path"
    | (below) k where "last ?p \<noteq> CHR ''*''" "path_matches (split_on (CHR ''/'') ?p) (take k ?path)"
    by blast
  then show thesis
  proof cases
    case itself
    then show thesis
      using that [of ?p] \<open>?p \<noteq> []\<close> by (simp add: expandOwnershipPattern_def Let_def)
  next
    case below
    from path_matches_below [OF below(2), of "drop k ?path"]
    show thesis
      using that [of "?p @ ''/**''"] \<open>?p \<noteq> []\<close> below(1)
      by (simp only: split_on_subtree append_take_drop_id) (simp add: expandOwnershipPattern_def Let_def)
  qed
qed

lemma expand_empty: "expandOwnershipPattern [] = []"
  by code_simp

definition probed_file :: "string \<Rightarrow> bool" where
  "probed_file f \<longleftrightarrow> list_all probed (split_on (CHR ''/'') f)"

lemma disjoint_file:
  assumes "pathsIntersect a b = None" and "probed_file f"
  shows "\<not> (owns_file a f \<and> owns_file b f)"
proof
  assume "owns_file a f \<and> owns_file b f"
  then obtain p q where p: "p \<in> set (expandOwnershipPattern (normaliseOwnershipPath a))"
      and q: "q \<in> set (expandOwnershipPattern (normaliseOwnershipPath b))"
      and pf: "path_matches (split_on (CHR ''/'') p) (split_on (CHR ''/'') f)"
      and qf: "path_matches (split_on (CHR ''/'') q) (split_on (CHR ''/'') f)"
    by (elim conjE owns_file_expanded)
  have "segmentListsIntersect (split_on (CHR ''/'') p) (split_on (CHR ''/'') q)"
    unfolding segmentListsIntersect_eq using pf qf assms(2)
    by (intro lists_meet_complete) (simp_all add: probed_file_def)
  moreover have "normaliseOwnershipPath a \<noteq> []" "normaliseOwnershipPath b \<noteq> []"
    using p q expand_empty by auto
  ultimately show False
    using assms(1) p q by (auto simp: pathsIntersect_def Let_def list_ex_iff split: if_splits)
qed

text \<open>C17. The comparison errs towards yes: when it finds no overlap between two declared patterns,
  there is no file of printable names that both own, itself or as a file below a directory that a
  pattern matches.\<close>

theorem disjoint_patterns_share_no_file:
  assumes "pathsIntersect a b = None" and "probed_file f"
  shows "\<not> (owns_file a f \<and> owns_file b f)"
  by (rule disjoint_file [OF assms])

lemma disjoint_example:
  "pathsIntersect ''src/fo?'' ''./src//bar*'' = None" "probed_file ''src/foo/x.ts''"
  "owns_file ''src/fo?'' ''src/foo/x.ts''"
  by code_simp+

text \<open>A file below a directory that one of the patterns matches.\<close>

theorem disjoint_patterns_share_no_file_witness:
  "owns_file ''src/fo?'' ''src/foo/x.ts'' \<and> \<not> owns_file ''./src//bar*'' ''src/foo/x.ts''"
  using disjoint_patterns_share_no_file [OF disjoint_example(1,2)] disjoint_example(3) by blast

text \<open>
  Two classes that share only characters outside the probe range are said to be disjoint, although
  both match the same one-character name; and normalising twice is not normalising once.
\<close>

lemma nonprintable_class_missed:
  "\<not> segmentsIntersect [CHR ''['', CHR 0xE9, CHR '']''] [CHR ''['', CHR 0xE8, CHR ''-'', CHR 0xEA, CHR '']'']"
  "segment_matches (tokenise [CHR ''['', CHR 0xE9, CHR '']'']) [CHR 0xE9]"
  "segment_matches (tokenise [CHR ''['', CHR 0xE8, CHR ''-'', CHR 0xEA, CHR '']'']) [CHR 0xE9]"
  by code_simp+

lemma normalise_not_idempotent:
  "normaliseOwnershipPath ''/./a'' = ''./a''" "normaliseOwnershipPath ''./a'' = ''a''"
  by code_simp+

end
