(* ===== verification/Coupling.thy ===== *)
theory Coupling
  imports GlobPatterns Fixtures "HOL-Library.AList" "HOL-Library.Sublist" "HOL-Library.Multiset"
begin

text \<open>
  Which tasks may run at the same time (\<open>src/workflow/coupling.ts\<close>): the declared-ownership check,
  the cache of semantic verdicts, the decision for a pair, the greedy batch, and the rule that a
  writing worker never runs in the user's tree. The \<open>detail\<close> texts are not modelled.
\<close>

section \<open>Declared ownership\<close>

record overlapping_paths =
  op_a :: string
  op_b :: string
  op_rule :: overlap_rule

record ownership_intersection =
  oi_paths :: "overlapping_paths list"
  oi_components :: "string list"

definition EMPTY_INTERSECTION :: ownership_intersection where
  "EMPTY_INTERSECTION = \<lparr>oi_paths = [], oi_components = []\<rparr>"

definition ownershipIntersection :: "ownership \<Rightarrow> ownership \<Rightarrow> ownership_intersection" where
  "ownershipIntersection a b =
     (let paths = concat (map (\<lambda>pa. concat (map (\<lambda>pb.
             case pathsIntersect pa pb of None \<Rightarrow> []
             | Some rule \<Rightarrow> [\<lparr>op_a = pa, op_b = pb, op_rule = rule\<rparr>]) (ow_paths b))) (ow_paths a));
          aComponents = set (filter (\<lambda>c. c \<noteq> []) (map js_trim (ow_components a)));
          components = filter (\<lambda>c. c \<in> aComponents) (dedup (map js_trim (ow_components b)))
      in if paths = [] \<and> components = [] then EMPTY_INTERSECTION
         else \<lparr>oi_paths = paths, oi_components = components\<rparr>)"

definition hasOwnershipOverlap :: "ownership_intersection \<Rightarrow> bool" where
  "hasOwnershipOverlap overlap \<longleftrightarrow> oi_paths overlap \<noteq> [] \<or> oi_components overlap \<noteq> []"

definition ownershipConflict :: "task \<Rightarrow> task \<Rightarrow> ownership_intersection" where
  "ownershipConflict a b =
     (if t_id a = t_id b then EMPTY_INTERSECTION else ownershipIntersection (t_ownership a) (t_ownership b))"

section \<open>The cache of verdicts\<close>

datatype coupling_verdict = Independent | Coupled | UnknownCoupling

text \<open>One side of a key is \<open>id@revision\<close>.\<close>

definition key_side :: "task \<Rightarrow> string" where
  "key_side t = t_id t @ ''@'' @ digits (t_revision t)"

definition couplingKey :: "task \<Rightarrow> task \<Rightarrow> string" where
  "couplingKey a b =
     (let left = key_side a; right = key_side b in
      if left \<le> right then left @ ''|'' @ right else right @ ''|'' @ left)"

record cached_coupling =
  cc_verdict :: coupling_verdict
  cc_source :: "string option"
  cc_decisionId :: "string option"

text \<open>The entries of the \<open>Map\<close>, in insertion order; setting a key that exists keeps its place.\<close>

type_synonym coupling_cache = "(string \<times> cached_coupling) list"

definition cache_get :: "coupling_cache \<Rightarrow> task \<Rightarrow> task \<Rightarrow> cached_coupling option" where
  "cache_get c a b = map_of c (couplingKey a b)"

definition cache_verdict :: "coupling_cache \<Rightarrow> task \<Rightarrow> task \<Rightarrow> coupling_verdict" where
  "cache_verdict c a b = (case cache_get c a b of None \<Rightarrow> UnknownCoupling | Some e \<Rightarrow> cc_verdict e)"

definition cache_has :: "coupling_cache \<Rightarrow> task \<Rightarrow> task \<Rightarrow> bool" where
  "cache_has c a b \<longleftrightarrow> cache_get c a b \<noteq> None"

definition cache_set :: "task \<Rightarrow> task \<Rightarrow> cached_coupling \<Rightarrow> coupling_cache \<Rightarrow> coupling_cache" where
  "cache_set a b entry c = AList.update (couplingKey a b) entry c"

text \<open>\<open>s.slice(0, s.lastIndexOf("@"))\<close>; without an \<open>@\<close> the index is \<open>-1\<close>, which drops the last character.\<close>

definition up_to_last_at :: "string \<Rightarrow> string" where
  "up_to_last_at s =
     (if CHR ''@'' \<in> set s then butlast (rev (dropWhile (\<lambda>c. c \<noteq> CHR ''@'') (rev s))) else butlast s)"

definition mentions_task :: "string \<Rightarrow> string \<Rightarrow> bool" where
  "mentions_task taskId key \<longleftrightarrow> list_ex (\<lambda>side. up_to_last_at side = taskId) (split_on (CHR ''|'') key)"

definition cache_invalidateTask :: "string \<Rightarrow> coupling_cache \<Rightarrow> nat \<times> coupling_cache" where
  "cache_invalidateTask taskId c =
     (let gone = filter (mentions_task taskId) (map fst c) in
      (length gone, filter (\<lambda>(k, e). k \<notin> set gone) c))"

definition couplingRevisions :: "task \<Rightarrow> task \<Rightarrow> nat \<times> nat" where
  "couplingRevisions a b =
     (if t_id a \<le> t_id b then (t_revision a, t_revision b) else (t_revision b, t_revision a))"

section \<open>May two tasks run together?\<close>

datatype serial_reason = SrOwnershipConflict | SrCoupled | SrCouplingUncertain

record concurrency_verdict =
  cv_ok :: bool
  cv_reason :: "serial_reason option"
  cv_overlap :: ownership_intersection
  cv_coupling :: coupling_verdict

text \<open>A signal is the caller's function; \<open>None\<close> is a throw.\<close>

type_synonym coupling_signal = "task \<Rightarrow> task \<Rightarrow> coupling_verdict option"

record concurrency_options =
  co_cache :: "coupling_cache option"
  co_signal :: "coupling_signal option"

definition couplingVerdictFor :: "concurrency_options \<Rightarrow> task \<Rightarrow> task \<Rightarrow> coupling_verdict" where
  "couplingVerdictFor options a b =
     (case (case co_cache options of None \<Rightarrow> None | Some c \<Rightarrow> cache_get c a b) of
        Some cached \<Rightarrow> cc_verdict cached
      | None \<Rightarrow> (case co_signal options of
          None \<Rightarrow> UnknownCoupling
        | Some signal \<Rightarrow> (case signal a b of None \<Rightarrow> UnknownCoupling | Some v \<Rightarrow> v)))"

definition couplingSignalFrom :: "concurrency_options \<Rightarrow> coupling_signal" where
  "couplingSignalFrom options = (\<lambda>a b. Some (couplingVerdictFor options a b))"

definition canRunConcurrently :: "task \<Rightarrow> task \<Rightarrow> concurrency_options \<Rightarrow> concurrency_verdict" where
  "canRunConcurrently a b options =
     (if t_id a = t_id b
      then \<lparr>cv_ok = False, cv_reason = Some SrOwnershipConflict, cv_overlap = EMPTY_INTERSECTION,
            cv_coupling = UnknownCoupling\<rparr>
      else let overlap = ownershipConflict a b in
        if hasOwnershipOverlap overlap
        then \<lparr>cv_ok = False, cv_reason = Some SrOwnershipConflict, cv_overlap = overlap,
              cv_coupling = UnknownCoupling\<rparr>
        else (case couplingVerdictFor options a b of
            Coupled \<Rightarrow> \<lparr>cv_ok = False, cv_reason = Some SrCoupled, cv_overlap = overlap, cv_coupling = Coupled\<rparr>
          | UnknownCoupling \<Rightarrow> \<lparr>cv_ok = False, cv_reason = Some SrCouplingUncertain, cv_overlap = overlap,
              cv_coupling = UnknownCoupling\<rparr>
          | Independent \<Rightarrow> \<lparr>cv_ok = True, cv_reason = None, cv_overlap = overlap, cv_coupling = Independent\<rparr>))"

record concurrent_batch =
  cb_parallel :: "string list"
  cb_serial :: "(string \<times> serial_reason) list"

text \<open>The loop of \<open>selectConcurrentBatch\<close> over the candidates, with its three accumulators.\<close>

fun batch_loop ::
  "concurrency_options \<Rightarrow> task list \<Rightarrow> string list \<Rightarrow> task list \<Rightarrow> (string \<times> serial_reason) list \<Rightarrow> concurrent_batch"
where
  "batch_loop options [] par admitted serial = \<lparr>cb_parallel = par, cb_serial = serial\<rparr>"
| "batch_loop options (task # rest) par admitted serial =
     (case find (\<lambda>v. \<not> cv_ok v) (map (\<lambda>other. canRunConcurrently task other options) admitted) of
        Some blocked \<Rightarrow> (case cv_reason blocked of
            Some reason \<Rightarrow> batch_loop options rest par admitted (serial @ [(t_id task, reason)])
          | None \<Rightarrow> batch_loop options rest (par @ [t_id task]) (admitted @ [task]) serial)
      | None \<Rightarrow> batch_loop options rest (par @ [t_id task]) (admitted @ [task]) serial)"

definition selectConcurrentBatch :: "task list \<Rightarrow> concurrency_options \<Rightarrow> concurrent_batch" where
  "selectConcurrentBatch candidates options = batch_loop options candidates [] [] []"

section \<open>Asking about the pairs\<close>

record coupling_task_view =
  vw_id :: string
  vw_goal :: string
  vw_acceptanceCriteria :: "string list"
  vw_ownershipPaths :: "string list"
  vw_ownershipComponents :: "string list"

definition couplingViewOf :: "task \<Rightarrow> coupling_task_view" where
  "couplingViewOf task = \<lparr>vw_id = t_id task, vw_goal = t_goal task,
     vw_acceptanceCriteria = map ac_text (t_acceptanceCriteria task),
     vw_ownershipPaths = ow_paths (t_ownership task), vw_ownershipComponents = ow_components (t_ownership task)\<rparr>"

text \<open>The state sent out names the pair in the order of its ids.\<close>

definition couplingState ::
  "coupling_task_view \<Rightarrow> coupling_task_view \<Rightarrow> coupling_task_view \<times> coupling_task_view" where
  "couplingState a b = (if vw_id a \<le> vw_id b then (a, b) else (b, a))"

definition COUPLING_FALLBACK_VERDICT :: coupling_verdict where
  "COUPLING_FALLBACK_VERDICT = UnknownCoupling"

text \<open>The \<open>decide\<close> of \<open>tasks.coupling@1\<close> on the chosen option.\<close>

definition coupling_decide :: "string \<Rightarrow> coupling_verdict" where
  "coupling_decide choice = (if choice = ''independent'' then Independent
     else if choice = ''coupled'' then Coupled else UnknownCoupling)"

text \<open>
  The ask layer is a parameter: a call moves its state and returns a value with its key and decision
  id, or throws.
\<close>

type_synonym 's asker = "'s \<Rightarrow> coupling_task_view \<times> coupling_task_view \<Rightarrow> cached_coupling option \<times> 's"

definition QUESTION_KEY :: string where
  "QUESTION_KEY = ''tasks.coupling@1''"

definition askCoupling :: "'s asker \<Rightarrow> 's \<Rightarrow> task \<Rightarrow> task \<Rightarrow> cached_coupling \<times> 's" where
  "askCoupling ask s a b =
     (case ask s (couplingViewOf a, couplingViewOf b) of
        (Some result, s') \<Rightarrow> (result, s')
      | (None, s') \<Rightarrow> (\<lparr>cc_verdict = COUPLING_FALLBACK_VERDICT, cc_source = Some QUESTION_KEY,
          cc_decisionId = None\<rparr>, s'))"

fun fill_row :: "'s asker \<Rightarrow> task \<Rightarrow> task list \<Rightarrow> coupling_cache \<times> 's \<Rightarrow> coupling_cache \<times> 's" where
  "fill_row ask a [] st = st"
| "fill_row ask a (b # bs) (cache, s) =
     (if cache_has cache a b then fill_row ask a bs (cache, s)
      else if hasOwnershipOverlap (ownershipConflict a b) then fill_row ask a bs (cache, s)
      else let (entry, s') = askCoupling ask s a b in fill_row ask a bs (cache_set a b entry cache, s'))"

fun fillCouplingCache :: "'s asker \<Rightarrow> task list \<Rightarrow> coupling_cache \<times> 's \<Rightarrow> coupling_cache \<times> 's" where
  "fillCouplingCache ask [] st = st"
| "fillCouplingCache ask (a # rest) st = fillCouplingCache ask rest (fill_row ask a rest st)"

section \<open>Where a worker may write\<close>

record worktree_identity =
  wi_toplevel :: string
  wi_commonDir :: string
  wi_gitDir :: string
  wi_isLinkedWorktree :: bool

definition tryRun :: "(string list \<Rightarrow> string \<Rightarrow> string option) \<Rightarrow> string list \<Rightarrow> string \<Rightarrow> string option" where
  "tryRun runner args cwd = map_option js_trim (runner args cwd)"

text \<open>\<open>worktreeIdentity\<close>: git's answers to three queries, each absent when the command fails.\<close>

definition worktreeIdentity ::
  "(string list \<Rightarrow> string \<Rightarrow> string option) \<Rightarrow> string \<Rightarrow> worktree_identity option" where
  "worktreeIdentity runner cwd =
     (case tryRun runner [''rev-parse'', ''--show-toplevel''] cwd of
        None \<Rightarrow> None
      | Some toplevel \<Rightarrow>
          (case tryRun runner [''rev-parse'', ''--absolute-git-dir''] toplevel of
             None \<Rightarrow> None
           | Some gitDir \<Rightarrow>
               let commonDir = (case tryRun runner [''rev-parse'', ''--path-format=absolute'', ''--git-common-dir''] toplevel of
                     None \<Rightarrow> gitDir | Some d \<Rightarrow> d)
               in Some \<lparr>wi_toplevel = toplevel, wi_commonDir = commonDir, wi_gitDir = gitDir,
                    wi_isLinkedWorktree = (commonDir \<noteq> gitDir)\<rparr>))"

datatype worker_tree_refusal = NotARepository | DifferentRepository | IsMainTree

definition checkWorkerTree ::
  "worktree_identity option \<Rightarrow> worktree_identity option \<Rightarrow> bool \<Rightarrow> worker_tree_refusal option" where
  "checkWorkerTree worker main writes =
     (case worker of
        None \<Rightarrow> Some NotARepository
      | Some wk \<Rightarrow>
          if (case main of None \<Rightarrow> False | Some m \<Rightarrow> wi_commonDir m \<noteq> wi_commonDir wk) then Some DifferentRepository
          else if \<not> writes then None
          else if (case main of
                 Some m \<Rightarrow> wi_gitDir wk = wi_gitDir m \<or> wi_toplevel wk = wi_toplevel m
               | None \<Rightarrow> \<not> wi_isLinkedWorktree wk) then Some IsMainTree
          else None)"

definition READ_ONLY_ROLES :: "worker_role list" where
  "READ_ONLY_ROLES = [Scout, Reviewer]"

definition isReadOnlyRole :: "worker_role \<Rightarrow> bool" where
  "isReadOnlyRole role \<longleftrightarrow> role \<in> set READ_ONLY_ROLES"

definition checkRoleWorkerTree ::
  "(string list \<Rightarrow> string \<Rightarrow> string option) \<Rightarrow> worker_role \<Rightarrow> string \<Rightarrow> string \<Rightarrow> worker_tree_refusal option" where
  "checkRoleWorkerTree runner role workerCwd projectRoot =
     checkWorkerTree (worktreeIdentity runner workerCwd) (worktreeIdentity runner projectRoot) (\<not> isReadOnlyRole role)"

section \<open>What the overlap reports\<close>

lemma hasOwnershipOverlap_simps [simp]:
  "\<not> hasOwnershipOverlap EMPTY_INTERSECTION"
  by (simp add: hasOwnershipOverlap_def EMPTY_INTERSECTION_def)

lemma ownershipIntersection_paths:
  "\<lparr>op_a = pa, op_b = pb, op_rule = r\<rparr> \<in> set (oi_paths (ownershipIntersection a b)) \<longleftrightarrow>
     pa \<in> set (ow_paths a) \<and> pb \<in> set (ow_paths b) \<and> pathsIntersect pa pb = Some r"
proof -
  let ?paths = "concat (map (\<lambda>pa. concat (map (\<lambda>pb.
     case pathsIntersect pa pb of None \<Rightarrow> [] | Some rule \<Rightarrow> [\<lparr>op_a = pa, op_b = pb, op_rule = rule\<rparr>])
     (ow_paths b))) (ow_paths a))"
  have "oi_paths (ownershipIntersection a b) = ?paths"
    unfolding ownershipIntersection_def Let_def by (auto simp only: EMPTY_INTERSECTION_def ownership_intersection.simps split: if_splits)
  moreover have "\<lparr>op_a = pa, op_b = pb, op_rule = r\<rparr> \<in> set ?paths \<longleftrightarrow>
     pa \<in> set (ow_paths a) \<and> pb \<in> set (ow_paths b) \<and> pathsIntersect pa pb = Some r"
    by (force split: option.splits)
  ultimately show ?thesis by simp
qed

lemma ownershipIntersection_components:
  "set (oi_components (ownershipIntersection a b)) =
     {c. c \<noteq> [] \<and> c \<in> js_trim ` set (ow_components a) \<and> c \<in> js_trim ` set (ow_components b)}"
proof -
  let ?components = "filter (\<lambda>c. c \<in> set (filter (\<lambda>c. c \<noteq> []) (map js_trim (ow_components a))))
     (dedup (map js_trim (ow_components b)))"
  have "oi_components (ownershipIntersection a b) = ?components"
    unfolding ownershipIntersection_def Let_def by (auto simp only: EMPTY_INTERSECTION_def ownership_intersection.simps split: if_splits)
  then show ?thesis by auto
qed

definition paths_clear :: "ownership \<Rightarrow> ownership \<Rightarrow> bool" where
  "paths_clear a b \<longleftrightarrow> list_all (\<lambda>pa. list_all (\<lambda>pb. pathsIntersect pa pb = None) (ow_paths b)) (ow_paths a)"

definition components_clear :: "ownership \<Rightarrow> ownership \<Rightarrow> bool" where
  "components_clear a b \<longleftrightarrow>
     (\<forall>c \<in> set (ow_components a). js_trim c = [] \<or> js_trim c \<notin> js_trim ` set (ow_components b))"

lemma no_overlap_iff:
  "\<not> hasOwnershipOverlap (ownershipIntersection a b) \<longleftrightarrow> paths_clear a b \<and> components_clear a b"
proof -
  have "oi_paths (ownershipIntersection a b) = [] \<longleftrightarrow> paths_clear a b"
  proof
    assume "oi_paths (ownershipIntersection a b) = []"
    then show "paths_clear a b"
      using ownershipIntersection_paths [of _ _ _ a b] unfolding paths_clear_def list_all_iff
      by (metis empty_iff empty_set not_None_eq)
  next
    assume clear: "paths_clear a b"
    show "oi_paths (ownershipIntersection a b) = []"
    proof (rule ccontr)
      assume "oi_paths (ownershipIntersection a b) \<noteq> []"
      then obtain x where "x \<in> set (oi_paths (ownershipIntersection a b))" using hd_in_set by blast
      moreover have "x = \<lparr>op_a = op_a x, op_b = op_b x, op_rule = op_rule x\<rparr>" by (cases x) simp
      ultimately have "op_a x \<in> set (ow_paths a)" "op_b x \<in> set (ow_paths b)"
          "pathsIntersect (op_a x) (op_b x) = Some (op_rule x)"
        using ownershipIntersection_paths [of "op_a x" "op_b x" "op_rule x" a b] by metis+
      with clear show False
        by (auto simp: paths_clear_def list_all_iff)
    qed
  qed
  moreover have "oi_components (ownershipIntersection a b) = [] \<longleftrightarrow> components_clear a b"
    using ownershipIntersection_components [of a b] unfolding components_clear_def
    by (auto simp flip: set_empty)
  ultimately show ?thesis
    by (simp add: hasOwnershipOverlap_def)
qed

section \<open>The decision for a pair\<close>

definition share_no_file :: "task \<Rightarrow> task \<Rightarrow> bool" where
  "share_no_file a b \<longleftrightarrow> (\<forall>f pa pb. pa \<in> set (ow_paths (t_ownership a)) \<and> pb \<in> set (ow_paths (t_ownership b)) \<and>
     probed_file f \<longrightarrow> \<not> (owns_file pa f \<and> owns_file pb f))"

lemma paths_clear_share_no_file: "paths_clear (t_ownership a) (t_ownership b) \<Longrightarrow> share_no_file a b"
  using disjoint_file unfolding paths_clear_def list_all_iff share_no_file_def by blast

lemma canRun_ok_iff:
  "cv_ok (canRunConcurrently a b options) \<longleftrightarrow>
      t_id a \<noteq> t_id b \<and> paths_clear (t_ownership a) (t_ownership b) \<and>
      components_clear (t_ownership a) (t_ownership b) \<and> couplingVerdictFor options a b = Independent"
  using no_overlap_iff [of "t_ownership a" "t_ownership b"]
  by (auto simp: canRunConcurrently_def ownershipConflict_def Let_def split: coupling_verdict.splits)

text \<open>Two tasks may run together exactly when they are different tasks, no declared path pattern of
  one can meet one of the other, no trimmed component is shared, and the signal says independent;
  an ownership conflict gives the same refusal whatever cache or signal is supplied.\<close>

theorem canRunConcurrently_decides:
  "(cv_ok (canRunConcurrently a b options) \<longleftrightarrow>
      t_id a \<noteq> t_id b \<and> paths_clear (t_ownership a) (t_ownership b) \<and>
      components_clear (t_ownership a) (t_ownership b) \<and> couplingVerdictFor options a b = Independent) \<and>
   (cv_reason (canRunConcurrently a b options) = None \<longleftrightarrow> cv_ok (canRunConcurrently a b options)) \<and>
   (cv_reason (canRunConcurrently a b options) = Some SrOwnershipConflict \<longleftrightarrow>
      (\<forall>options'. canRunConcurrently a b options' = canRunConcurrently a b options \<and>
         \<not> cv_ok (canRunConcurrently a b options')))"
proof (cases "t_id a = t_id b \<or> hasOwnershipOverlap (ownershipConflict a b)")
  case True
  then have "\<And>options'. canRunConcurrently a b options' = canRunConcurrently a b options"
      "\<And>options'. \<not> cv_ok (canRunConcurrently a b options')"
      "cv_reason (canRunConcurrently a b options) = Some SrOwnershipConflict"
    by (auto simp: canRunConcurrently_def Let_def)
  moreover have "t_id a = t_id b \<or> \<not> (paths_clear (t_ownership a) (t_ownership b) \<and> components_clear (t_ownership a) (t_ownership b))"
    using True no_overlap_iff by (auto simp: ownershipConflict_def split: if_splits)
  ultimately show ?thesis using canRun_ok_iff by (metis option.distinct(1))
next
  case False
  then have clear: "t_id a \<noteq> t_id b" "paths_clear (t_ownership a) (t_ownership b)" "components_clear (t_ownership a) (t_ownership b)"
    using no_overlap_iff by (auto simp: ownershipConflict_def)
  define free :: concurrency_options where "free = \<lparr>co_cache = None, co_signal = Some (\<lambda>_ _. Some Independent)\<rparr>"
  have free: "cv_ok (canRunConcurrently a b free)"
    using False by (simp add: canRunConcurrently_def Let_def couplingVerdictFor_def free_def)
  have "cv_reason (canRunConcurrently a b options) \<noteq> Some SrOwnershipConflict"
    "cv_reason (canRunConcurrently a b options) = None \<longleftrightarrow> cv_ok (canRunConcurrently a b options)"
    using False by (auto simp: canRunConcurrently_def Let_def split: coupling_verdict.splits)
  with free show ?thesis
    using canRun_ok_iff by blast
qed

section \<open>The greedy batch\<close>

text \<open>
  What the loop keeps: the admitted tasks, in order, are those of the parallel list, every later one
  was checked against every earlier one, and every task set aside failed against an admitted one.
\<close>

definition pairwise_ok :: "concurrency_options \<Rightarrow> task list \<Rightarrow> bool" where
  "pairwise_ok options ts \<longleftrightarrow> sorted_wrt (\<lambda>a b. cv_ok (canRunConcurrently b a options)) ts"

lemma find_refusal:
  "find (\<lambda>v. \<not> cv_ok v) (map (\<lambda>other. canRunConcurrently task other options) admitted) = None \<longleftrightarrow>
     (\<forall>other \<in> set admitted. cv_ok (canRunConcurrently task other options))"
  by (auto simp: find_None_iff)

lemma find_refusal_reason:
  assumes "find (\<lambda>v. \<not> cv_ok v) (map (\<lambda>other. canRunConcurrently task other options) admitted) = Some v"
  shows "\<exists>other \<in> set admitted. cv_reason v = cv_reason (canRunConcurrently task other options) \<and>
     cv_reason v \<noteq> None \<and> \<not> cv_ok (canRunConcurrently task other options)"
proof -
  from assms obtain i where "i < length admitted" "v = canRunConcurrently task (admitted ! i) options" "\<not> cv_ok v"
    by (auto simp: find_Some_iff)
  then obtain other where "other \<in> set admitted" "v = canRunConcurrently task other options" "\<not> cv_ok v"
    by (metis nth_mem)
  moreover have "cv_reason v \<noteq> None" if "v = canRunConcurrently task other options" "\<not> cv_ok v" for other
    using that by (auto simp: canRunConcurrently_def Let_def split: coupling_verdict.splits if_splits)
  ultimately show ?thesis by blast
qed

definition refused_by :: "concurrency_options \<Rightarrow> task list \<Rightarrow> task list \<Rightarrow> string \<times> serial_reason \<Rightarrow> bool" where
  "refused_by options cs admitted held \<longleftrightarrow> (\<exists>task \<in> set cs. \<exists>other \<in> set admitted. t_id task = fst held \<and>
     \<not> cv_ok (canRunConcurrently task other options) \<and>
     cv_reason (canRunConcurrently task other options) = Some (snd held))"

lemma refused_by_mono:
  "refused_by options cs as h \<Longrightarrow> set cs \<subseteq> set cs' \<Longrightarrow> set as \<subseteq> set as' \<Longrightarrow> refused_by options cs' as' h"
  unfolding refused_by_def by blast

lemma batch_loop_Cons:
  "(\<forall>other \<in> set admitted. cv_ok (canRunConcurrently task other options)) \<and>
     batch_loop options (task # cs) par admitted serial =
       batch_loop options cs (par @ [t_id task]) (admitted @ [task]) serial \<or>
   (\<exists>reason. refused_by options [task] admitted (t_id task, reason) \<and>
     batch_loop options (task # cs) par admitted serial =
       batch_loop options cs par admitted (serial @ [(t_id task, reason)]))"
proof (cases "find (\<lambda>v. \<not> cv_ok v) (map (\<lambda>other. canRunConcurrently task other options) admitted)")
  case None
  then show ?thesis unfolding find_refusal by (simp add: None)
next
  case (Some v)
  from find_refusal_reason [OF Some] obtain other reason where
    "other \<in> set admitted" "cv_reason v = Some reason" "\<not> cv_ok (canRunConcurrently task other options)"
    "cv_reason (canRunConcurrently task other options) = Some reason"
    by (metis not_Some_eq)
  then have "refused_by options [task] admitted (t_id task, reason)"
      "batch_loop options (task # cs) par admitted serial =
        batch_loop options cs par admitted (serial @ [(t_id task, reason)])"
    by (auto simp: refused_by_def Some)
  then show ?thesis by blast
qed

definition batch_from :: "concurrency_options \<Rightarrow> task list \<Rightarrow> task list \<Rightarrow> (string \<times> serial_reason) list \<Rightarrow> concurrent_batch \<Rightarrow> bool" where
  "batch_from options cs admitted serial b \<longleftrightarrow> (\<exists>more_in out. cb_parallel b = map t_id (admitted @ more_in) \<and>
     cb_serial b = serial @ out \<and> subseq more_in cs \<and> pairwise_ok options (admitted @ more_in) \<and>
     mset (map t_id more_in) + mset (map fst out) = mset (map t_id cs) \<and>
     (\<forall>h \<in> set out. refused_by options cs (admitted @ more_in) h))"

lemma batch_from_admit:
  assumes "batch_from options cs (admitted @ [task]) serial b"
  shows "batch_from options (task # cs) admitted serial b"
proof -
  from assms obtain more_in out where m: "cb_parallel b = map t_id ((admitted @ [task]) @ more_in)"
      "cb_serial b = serial @ out" "subseq more_in cs" "pairwise_ok options ((admitted @ [task]) @ more_in)"
      "mset (map t_id more_in) + mset (map fst out) = mset (map t_id cs)"
      "\<forall>h \<in> set out. refused_by options cs ((admitted @ [task]) @ more_in) h"
    unfolding batch_from_def by blast
  then show ?thesis
    unfolding batch_from_def
    by (intro exI [of _ "task # more_in"] exI [of _ out]) (auto intro: refused_by_mono)
qed

lemma batch_from_hold:
  assumes "batch_from options cs admitted (serial @ [h]) b" and "refused_by options [task] admitted h"
    and "fst h = t_id task"
  shows "batch_from options (task # cs) admitted serial b"
proof -
  from assms(1) obtain more_in out where m: "cb_parallel b = map t_id (admitted @ more_in)"
      "cb_serial b = (serial @ [h]) @ out" "subseq more_in cs" "pairwise_ok options (admitted @ more_in)"
      "mset (map t_id more_in) + mset (map fst out) = mset (map t_id cs)"
      "\<forall>h \<in> set out. refused_by options cs (admitted @ more_in) h"
    unfolding batch_from_def by blast
  then show ?thesis
    unfolding batch_from_def using assms(2,3)
    by (intro exI [of _ more_in] exI [of _ "h # out"]) (auto intro: refused_by_mono)
qed

lemma batch_loop_from:
  "pairwise_ok options admitted \<Longrightarrow> par = map t_id admitted \<Longrightarrow>
     batch_from options cs admitted serial (batch_loop options cs par admitted serial)"
proof (induction cs arbitrary: par admitted serial)
  case Nil
  then show ?case by (auto simp: batch_from_def intro: exI [of _ "[]"])
next
  case (Cons task cs)
  from batch_loop_Cons [of admitted task options cs par serial] show ?case
  proof (elim disjE conjE exE)
    assume ok: "\<forall>other \<in> set admitted. cv_ok (canRunConcurrently task other options)"
      and eq: "batch_loop options (task # cs) par admitted serial =
        batch_loop options cs (par @ [t_id task]) (admitted @ [task]) serial"
    have "pairwise_ok options (admitted @ [task])"
      using ok Cons.prems(1) by (simp add: pairwise_ok_def sorted_wrt_append)
    with Cons show ?thesis
      unfolding eq by (intro batch_from_admit Cons.IH) simp_all
  next
    fix reason
    assume no: "refused_by options [task] admitted (t_id task, reason)"
      and eq: "batch_loop options (task # cs) par admitted serial =
        batch_loop options cs par admitted (serial @ [(t_id task, reason)])"
    from Cons.IH [OF Cons.prems] no show ?thesis
      unfolding eq by (rule batch_from_hold) simp
  qed
qed

lemma selectConcurrentBatch_from:
  "batch_from options cs [] [] (selectConcurrentBatch cs options)"
  unfolding selectConcurrentBatch_def by (rule batch_loop_from) (simp_all add: pairwise_ok_def)

lemma pairwise_ok_disjoint:
  assumes "pairwise_ok options ts" and "i < j" and "j < length ts"
  shows "t_id (ts ! i) \<noteq> t_id (ts ! j) \<and> share_no_file (ts ! j) (ts ! i) \<and>
     components_clear (t_ownership (ts ! j)) (t_ownership (ts ! i)) \<and>
     couplingVerdictFor options (ts ! j) (ts ! i) = Independent"
proof -
  have "cv_ok (canRunConcurrently (ts ! j) (ts ! i) options)"
    using assms unfolding pairwise_ok_def by (simp add: sorted_wrt_iff_nth_less)
  then show ?thesis
    using canRun_ok_iff paths_clear_share_no_file by metis
qed

text \<open>A batch is a set of tasks that may all run at once: the parallel list is a subsequence of the
  candidates, and any two of its tasks are different, own no common file and no common component, and
  were judged independent. Every other candidate is on the serial list with the reason it was
  refused against an admitted task, and no candidate is lost or duplicated.\<close>

theorem batch_runs_together_safely:
  "\<exists>admitted. cb_parallel (selectConcurrentBatch cs options) = map t_id admitted \<and> subseq admitted cs \<and>
     list_all (\<lambda>(i, j). t_id (admitted ! i) \<noteq> t_id (admitted ! j) \<and>
        share_no_file (admitted ! j) (admitted ! i) \<and>
        components_clear (t_ownership (admitted ! j)) (t_ownership (admitted ! i)) \<and>
        couplingVerdictFor options (admitted ! j) (admitted ! i) = Independent)
      (concat (map (\<lambda>j. map (\<lambda>i. (i, j)) [0..<j]) [0..<length admitted])) \<and>
     mset (cb_parallel (selectConcurrentBatch cs options)) +
       mset (map fst (cb_serial (selectConcurrentBatch cs options))) = mset (map t_id cs) \<and>
     list_all (refused_by options cs admitted) (cb_serial (selectConcurrentBatch cs options))"
proof -
  from selectConcurrentBatch_from [of options cs] obtain admitted out where
    "cb_parallel (selectConcurrentBatch cs options) = map t_id admitted" "subseq admitted cs"
    "pairwise_ok options admitted" "cb_serial (selectConcurrentBatch cs options) = out"
    "mset (map t_id admitted) + mset (map fst out) = mset (map t_id cs)"
    "\<forall>h \<in> set out. refused_by options cs admitted h"
    unfolding batch_from_def by auto
  then show ?thesis
    using pairwise_ok_disjoint by (intro exI [of _ admitted]) (auto simp: list_all_iff)
qed

text \<open>With no cache and no signal, as with Jev disabled, at most one task is admitted.\<close>

lemma batch_without_signal_is_serial:
  assumes "co_cache options = None" and "co_signal options = None"
  shows "length (cb_parallel (selectConcurrentBatch cs options)) \<le> 1"
proof (rule ccontr)
  assume "\<not> ?thesis"
  moreover from selectConcurrentBatch_from [of options cs] obtain admitted where
    a: "cb_parallel (selectConcurrentBatch cs options) = map t_id admitted" "pairwise_ok options admitted"
    unfolding batch_from_def by auto
  ultimately have "couplingVerdictFor options (admitted ! 1) (admitted ! 0) = Independent"
    using pairwise_ok_disjoint [of options admitted 0 1] by simp
  with assms show False by (simp add: couplingVerdictFor_def)
qed

section \<open>Keys\<close>

lemma last_at:
  "dropWhile (\<lambda>c. c \<noteq> CHR ''@'') (rev (digits n) @ CHR ''@'' # s) = CHR ''@'' # s"
  "takeWhile (\<lambda>c. c \<noteq> CHR ''@'') (rev (digits n) @ CHR ''@'' # s) = rev (digits n)"
proof -
  have plain: "c \<noteq> CHR ''@''" if "c \<in> set (rev (digits n))" for c
    using that digits_plain(1) by (metis set_rev)
  show "dropWhile (\<lambda>c. c \<noteq> CHR ''@'') (rev (digits n) @ CHR ''@'' # s) = CHR ''@'' # s"
    by (rule trans [OF dropWhile_append2]) (use plain in simp_all)
  show "takeWhile (\<lambda>c. c \<noteq> CHR ''@'') (rev (digits n) @ CHR ''@'' # s) = rev (digits n)"
    by (rule trans [OF takeWhile_append2]) (use plain in simp_all)
qed

lemma up_to_last_at_side: "up_to_last_at (key_side t) = t_id t"
proof -
  have "dropWhile (\<lambda>c. c \<noteq> CHR ''@'') (rev (key_side t)) = CHR ''@'' # rev (t_id t)"
    unfolding key_side_def by (simp add: last_at)
  then show ?thesis
    by (simp add: up_to_last_at_def key_side_def)
qed

text \<open>The revision is what follows the last \<open>@\<close>.\<close>

definition side_revision :: "string \<Rightarrow> nat" where
  "side_revision s = value_of_digits (rev (takeWhile (\<lambda>c. c \<noteq> CHR ''@'') (rev s)))"

lemma side_revision_side: "side_revision (key_side t) = t_revision t"
proof -
  have "takeWhile (\<lambda>c. c \<noteq> CHR ''@'') (rev (key_side t)) = rev (digits (t_revision t))"
    unfolding key_side_def by (simp add: last_at)
  then show ?thesis
    by (simp add: side_revision_def)
qed

definition parse_side :: "string \<Rightarrow> string \<times> nat" where
  "parse_side s = (up_to_last_at s, side_revision s)"

lemma parse_side_side [simp]: "parse_side (key_side t) = (t_id t, t_revision t)"
  by (simp add: parse_side_def up_to_last_at_side side_revision_side)

lemma split_on_fresh: "sep \<notin> set u \<Longrightarrow> split_on sep u = [u]"
  by (induction u) auto

lemma split_on_join: "sep \<notin> set u \<Longrightarrow> split_on sep (u @ sep # v) = u # split_on sep v"
  by (induction u) auto

lemma couplingKey_sides:
  assumes "CHR ''|'' \<notin> set (t_id a)" and "CHR ''|'' \<notin> set (t_id b)"
  shows "split_on (CHR ''|'') (couplingKey a b) =
     (if key_side a \<le> key_side b then [key_side a, key_side b] else [key_side b, key_side a])"
proof -
  have "CHR ''|'' \<notin> set (key_side a)" "CHR ''|'' \<notin> set (key_side b)"
    using assms by (simp_all add: key_side_def)
  then show ?thesis
    by (simp add: couplingKey_def Let_def split_on_join split_on_fresh)
qed

lemma couplingKey_sym: "couplingKey a b = couplingKey b a"
  by (auto simp: couplingKey_def Let_def)

lemma couplingKey_eq_iff:
  assumes "CHR ''|'' \<notin> set (t_id a)" "CHR ''|'' \<notin> set (t_id b)"
    and "CHR ''|'' \<notin> set (t_id c)" "CHR ''|'' \<notin> set (t_id d)"
  shows "couplingKey a b = couplingKey c d \<longleftrightarrow>
     (t_id a, t_revision a) = (t_id c, t_revision c) \<and> (t_id b, t_revision b) = (t_id d, t_revision d) \<or>
     (t_id a, t_revision a) = (t_id d, t_revision d) \<and> (t_id b, t_revision b) = (t_id c, t_revision c)"
    (is "?keys \<longleftrightarrow> ?pairs")
proof
  assume ?keys
  then have "map parse_side (split_on (CHR ''|'') (couplingKey a b)) = map parse_side (split_on (CHR ''|'') (couplingKey c d))"
    by simp
  then show ?pairs
    unfolding couplingKey_sides [OF assms(1,2)] couplingKey_sides [OF assms(3,4)]
    by (auto split: if_splits)
next
  assume ?pairs
  then have "key_side a = key_side c \<and> key_side b = key_side d \<or> key_side a = key_side d \<and> key_side b = key_side c"
    by (auto simp: key_side_def)
  then show ?keys
    by (auto simp: couplingKey_def Let_def)
qed

text \<open>C18. A cache key can be read back: splitting it on the bar and each side at its last \<open>@\<close> gives the
  two tasks at the revisions they were judged at, in the order of their texts, and the two
  directions of a pair have one key.\<close>

theorem couplingKey_round_trip:
  assumes "CHR ''|'' \<notin> set (t_id a)" and "CHR ''|'' \<notin> set (t_id b)"
  shows "map parse_side (split_on (CHR ''|'') (couplingKey a b)) =
     (if key_side a \<le> key_side b then [(t_id a, t_revision a), (t_id b, t_revision b)]
      else [(t_id b, t_revision b), (t_id a, t_revision a)]) \<and>
     couplingKey b a = couplingKey a b"
  using couplingKey_sides [OF assms] couplingKey_sym by simp

definition fx_named :: "string \<Rightarrow> nat \<Rightarrow> task" where
  "fx_named i r = (fx_task Ready)\<lparr>t_id := i, t_revision := r\<rparr>"

lemma round_trip_example:
  "CHR ''|'' \<notin> set (t_id (fx_named ''t1'' 12))" "CHR ''|'' \<notin> set (t_id (fx_named ''a@7'' 3))"
  by (simp_all add: fx_named_def)

theorem couplingKey_round_trip_witness:
  "couplingKey (fx_named ''t1'' 12) (fx_named ''a@7'' 3) = ''a@7@3|t1@12'' \<and>
   map parse_side (split_on (CHR ''|'') ''a@7@3|t1@12'') = [(''a@7'', 3), (''t1'', 12)]"
proof -
  have "couplingKey (fx_named ''t1'' 12) (fx_named ''a@7'' 3) = ''a@7@3|t1@12''"
    "key_side (fx_named ''t1'' 12) \<le> key_side (fx_named ''a@7'' 3) \<longleftrightarrow> False"
    by code_simp+
  then show ?thesis
    using couplingKey_round_trip [OF round_trip_example] by (simp add: fx_named_def)
qed

section \<open>The cache\<close>

definition plain_id :: "task \<Rightarrow> bool" where
  "plain_id t \<longleftrightarrow> CHR ''|'' \<notin> set (t_id t)"

definition same_pair :: "task \<Rightarrow> task \<Rightarrow> task \<Rightarrow> task \<Rightarrow> bool" where
  "same_pair a b c d \<longleftrightarrow> {(t_id a, t_revision a), (t_id b, t_revision b)} = {(t_id c, t_revision c), (t_id d, t_revision d)}"

lemma couplingKey_same_pair:
  assumes "plain_id a" "plain_id b" "plain_id c" "plain_id d"
  shows "couplingKey a b = couplingKey c d \<longleftrightarrow> same_pair a b c d"
  using assms couplingKey_eq_iff [of a b c d]
  by (simp add: plain_id_def same_pair_def doubleton_eq_iff)

lemma mentions_task_key:
  assumes "plain_id a" and "plain_id b"
  shows "mentions_task i (couplingKey a b) \<longleftrightarrow> i = t_id a \<or> i = t_id b"
  using assms by (auto simp: mentions_task_def couplingKey_sides plain_id_def up_to_last_at_side)

lemma map_of_drop_keys: "map_of (filter (\<lambda>(k, e). k \<notin> A) xs) k = (if k \<in> A then None else map_of xs k)"
  by (induction xs) auto

lemma cache_get_set:
  assumes "plain_id a" "plain_id b" "plain_id x" "plain_id y"
  shows "cache_get (cache_set a b e c) x y = (if same_pair a b x y then Some e else cache_get c x y)"
  using couplingKey_same_pair [OF assms] by (auto simp: cache_get_def cache_set_def update_conv')

lemma cache_get_invalidate:
  assumes "plain_id x" "plain_id y"
  shows "cache_get (snd (cache_invalidateTask i c)) x y = (if i = t_id x \<or> i = t_id y then None else cache_get c x y)"
proof -
  let ?k = "couplingKey x y"
  have "cache_get (snd (cache_invalidateTask i c)) x y =
      (if ?k \<in> set (filter (mentions_task i) (map fst c)) then None else map_of c ?k)"
    unfolding cache_get_def cache_invalidateTask_def Let_def snd_conv by (rule map_of_drop_keys)
  then show ?thesis
    using mentions_task_key [OF assms, of i]
    by (auto simp: cache_get_def map_of_eq_None_iff)
qed

text \<open>The cache answers for exactly the pair and revisions a verdict was recorded for: after \<open>set\<close> the
  pair reads the new entry in both orders and every other pair reads what it did, so a task edited to
  another revision misses; after \<open>invalidateTask\<close> no pair naming the task is left, at any revision, and
  every other pair reads what it did.\<close>

theorem cache_answers_for_the_pair:
  assumes "plain_id a" "plain_id b" "plain_id x" "plain_id y"
  shows "cache_get (cache_set a b e c) x y = (if same_pair a b x y then Some e else cache_get c x y) \<and>
    cache_get (cache_set a b e c) y x = cache_get (cache_set a b e c) x y \<and>
    cache_get (snd (cache_invalidateTask i c)) x y = (if i = t_id x \<or> i = t_id y then None else cache_get c x y) \<and>
    (cache_get c x y = None \<longrightarrow> cache_verdict c x y = UnknownCoupling)"
  using cache_get_set [OF assms, of e c] cache_get_invalidate [OF assms(3,4), of i c] couplingKey_sym [of x y]
  by (simp add: cache_get_def cache_verdict_def)

definition fx_independent :: cached_coupling where
  "fx_independent = \<lparr>cc_verdict = Independent, cc_source = None, cc_decisionId = None\<rparr>"

theorem cache_answers_for_the_pair_witness:
  "cache_get (cache_set (fx_named ''a'' 1) (fx_named ''b'' 1) fx_independent []) (fx_named ''b'' 1) (fx_named ''a'' 1)
     = Some fx_independent \<and>
   cache_get (cache_set (fx_named ''a'' 1) (fx_named ''b'' 1) fx_independent []) (fx_named ''a'' 2) (fx_named ''b'' 1) = None"
proof -
  have plain: "plain_id (fx_named ''a'' 1)" "plain_id (fx_named ''b'' 1)" "plain_id (fx_named ''a'' 2)"
    by (simp_all add: plain_id_def fx_named_def)
  have same: "same_pair (fx_named ''a'' 1) (fx_named ''b'' 1) (fx_named ''b'' 1) (fx_named ''a'' 1)"
    and other: "\<not> same_pair (fx_named ''a'' 1) (fx_named ''b'' 1) (fx_named ''a'' 2) (fx_named ''b'' 1)"
    and empty: "cache_get [] (fx_named ''a'' 2) (fx_named ''b'' 1) = None"
    by (auto simp: same_pair_def fx_named_def cache_get_def doubleton_eq_iff)
  show ?thesis
    using cache_answers_for_the_pair [OF plain(1,2,2,1), where e = fx_independent and c = "[]"]
      cache_answers_for_the_pair [OF plain(1,2,3,2), where e = fx_independent and c = "[]"]
    by (simp only: same other empty if_True if_False)
qed

text \<open>
  The comment on the cache says the revision covers exactly the fields the question is asked about.
  The question also carries the declared ownership, which is not part of the key.
\<close>

lemma ownership_edit_keeps_the_verdict:
  "cache_get c (a\<lparr>t_ownership := ow\<rparr>) b = cache_get c a b"
  "vw_ownershipPaths (couplingViewOf (a\<lparr>t_ownership := ow\<rparr>)) = ow_paths ow"
  by (simp_all add: cache_get_def couplingKey_def key_side_def couplingViewOf_def)

section \<open>Filling the cache\<close>

definition cache_extends :: "coupling_cache \<Rightarrow> coupling_cache \<Rightarrow> bool" where
  "cache_extends c c' \<longleftrightarrow> map_of c \<subseteq>\<^sub>m map_of c'"

lemma cache_extends_refl [simp]: "cache_extends c c"
  by (simp add: cache_extends_def)

lemma cache_extends_trans: "cache_extends c d \<Longrightarrow> cache_extends d e \<Longrightarrow> cache_extends c e"
  unfolding cache_extends_def by (rule map_le_trans)

lemma cache_set_extends: "\<not> cache_has c a b \<Longrightarrow> cache_extends c (cache_set a b e c)"
  by (auto simp: cache_extends_def cache_has_def cache_get_def cache_set_def update_conv' map_le_def)

lemma cache_has_extends: "cache_has c a b \<Longrightarrow> cache_extends c c' \<Longrightarrow> cache_has c' a b"
  by (auto simp: cache_has_def cache_get_def cache_extends_def map_le_def dom_def)

lemma fill_row_extends: "cache_extends (fst st) (fst (fill_row ask a bs st))"
proof (induction ask a bs st rule: fill_row.induct)
  case (2 ask a b bs cache s)
  obtain entry s' where e: "askCoupling ask s a b = (entry, s')" by (cases "askCoupling ask s a b")
  show ?case
    using 2(1) 2(2) 2(3) [OF _ _ e [symmetric]] cache_set_extends [of cache a b entry]
    by (auto simp: e intro: cache_extends_trans)
qed simp

lemma fill_row_covers:
  "b \<in> set bs \<Longrightarrow> cache_has (fst (fill_row ask a bs st)) a b \<or> hasOwnershipOverlap (ownershipConflict a b)"
proof (induction ask a bs st rule: fill_row.induct)
  case (2 ask a b' bs cache s)
  obtain entry s' where e: "askCoupling ask s a b' = (entry, s')" by (cases "askCoupling ask s a b'")
  have set_has: "cache_has (cache_set a b' entry cache) a b'"
    by (simp add: cache_has_def cache_get_def cache_set_def update_conv')
  show ?case
    using 2(1) 2(2) 2(3) [OF _ _ e [symmetric]] "2.prems"
      cache_has_extends [OF _ fill_row_extends [of "(cache, s)" ask a bs]]
      cache_has_extends [OF set_has] fill_row_extends [of "(cache_set a b' entry cache, s')" ask a bs]
    by (auto simp: e)
qed simp

lemma fillCouplingCache_extends: "cache_extends (fst st) (fst (fillCouplingCache ask ts st))"
  by (induction ask ts st rule: fillCouplingCache.induct) (auto intro: cache_extends_trans fill_row_extends)

text \<open>Filling the cache settles every pair of candidates the ownership check leaves open and never
  changes a verdict already recorded, however the ask layer answers, throws or changes its state.\<close>

theorem fillCouplingCache_settles_open_pairs:
  "cache_extends (fst st) (fst (fillCouplingCache ask ts st)) \<and>
   sorted_wrt (\<lambda>a b. cache_has (fst (fillCouplingCache ask ts st)) a b \<or>
     hasOwnershipOverlap (ownershipConflict a b)) ts"
proof (induction ask ts st rule: fillCouplingCache.induct)
  case (2 ask a rest st)
  have "cache_has (fst (fillCouplingCache ask rest (fill_row ask a rest st))) a b \<or>
      hasOwnershipOverlap (ownershipConflict a b)" if "b \<in> set rest" for b
    using fill_row_covers [OF that, of ask a st] cache_has_extends [OF _ fillCouplingCache_extends] by blast
  with 2 show ?case
    by (auto intro: cache_extends_trans fill_row_extends)
qed simp

end
