(* ===== verification/Scheduler.thy ===== *)
theory Scheduler
  imports Coupling Graph TaskTransitions
begin

text \<open>
  The dispatch loop of \<open>src/workflow/scheduler.ts\<close>: the selection of one pass, the claim of a task,
  the reservations, and the loop as a step relation in which workers settle in any order. The
  \<open>detail\<close> texts are not modelled. Hooks the caller injects are parameters.
\<close>

section \<open>What may run beside what\<close>

datatype hold_reason = HrConcurrencyCap | HrOwnershipConflict | HrCouplingUncertain | HrCoupled
  | HrBudgetRefused | HrClaimLost | HrCancelled

record held_task =
  ht_taskId :: string
  ht_reason :: hold_reason

record dispatch_plan =
  dp_dispatch :: "string list"
  dp_held :: "held_task list"
  dp_inFlight :: nat
  dp_limit :: "int option"

record ownership_overlap =
  ov_paths :: "string list"
  ov_components :: "string list"

definition ownershipOverlap :: "task \<Rightarrow> task \<Rightarrow> ownership_overlap" where
  "ownershipOverlap a b =
     \<lparr>ov_paths = filter (\<lambda>pb. list_ex (\<lambda>pa. pathsIntersect pa pb \<noteq> None) (ow_paths (t_ownership a)))
        (ow_paths (t_ownership b)),
      ov_components = filter (\<lambda>c. c \<in> set (ow_components (t_ownership a))) (ow_components (t_ownership b))\<rparr>"

definition conflictsOnOwnership :: "task \<Rightarrow> task \<Rightarrow> bool" where
  "conflictsOnOwnership a b \<longleftrightarrow>
     (let overlap = ownershipOverlap a b in ov_paths overlap \<noteq> [] \<or> ov_components overlap \<noteq> [])"

definition UNCERTAIN_COUPLING :: coupling_signal where
  "UNCERTAIN_COUPLING = (\<lambda>_ _. Some UnknownCoupling)"

record plan_pass_params =
  pp_phaseIds :: "string list"
  pp_inFlight :: "string list"
  pp_limit :: "int option"
  pp_coupling :: "coupling_signal option"
  pp_couplingCache :: "coupling_cache option"

definition resolveCouplingSignal :: "plan_pass_params \<Rightarrow> coupling_signal" where
  "resolveCouplingSignal params =
     (case pp_couplingCache params of
        None \<Rightarrow> (case pp_coupling params of None \<Rightarrow> UNCERTAIN_COUPLING | Some signal \<Rightarrow> signal)
      | Some c \<Rightarrow> couplingSignalFrom \<lparr>co_cache = Some c, co_signal = pp_coupling params\<rparr>)"

text \<open>
  \<open>mayRunConcurrently\<close>: the reason the pair may not run, if any. The outer option is \<open>None\<close> when the
  signal throws, which this function does not catch.
\<close>

definition mayRunConcurrently :: "task \<Rightarrow> task \<Rightarrow> coupling_signal \<Rightarrow> hold_reason option option" where
  "mayRunConcurrently candidate other coupling =
     (let overlap = ownershipOverlap candidate other in
      if ov_paths overlap \<noteq> [] \<or> ov_components overlap \<noteq> [] then Some (Some HrOwnershipConflict)
      else case coupling candidate other of
          None \<Rightarrow> None
        | Some Coupled \<Rightarrow> Some (Some HrCoupled)
        | Some UnknownCoupling \<Rightarrow> Some (Some HrCouplingUncertain)
        | Some Independent \<Rightarrow> Some None)"

section \<open>One pass\<close>

definition MAX_SAFE_INTEGER :: nat where
  "MAX_SAFE_INTEGER = 9007199254740991"

text \<open>\<open>new Map(order.map((id, index) => [id, index]))\<close>.\<close>

definition rank_of :: "string list \<Rightarrow> string \<Rightarrow> nat" where
  "rank_of order i =
     (case map_of (rev (zip order [0..<length order])) i of None \<Rightarrow> MAX_SAFE_INTEGER | Some n \<Rightarrow> n)"

definition pass_tasks :: "string list \<Rightarrow> db \<Rightarrow> task list" where
  "pass_tasks phaseIds d = concat (map (\<lambda>p. tasks_forPhase p d) phaseIds)"

definition ready_in_order :: "task list \<Rightarrow> string list" where
  "ready_in_order tasks = sort_key (rank_of (to_order (topoOrder tasks))) (readySet tasks None)"

definition hold :: "string \<Rightarrow> hold_reason \<Rightarrow> held_task" where
  "hold i r = \<lparr>ht_taskId = i, ht_reason = r\<rparr>"

text \<open>The loop of \<open>planPass\<close>, with \<open>blocking\<close>, \<open>selected\<close> and \<open>held\<close> as it builds them.\<close>

fun plan_loop ::
  "task list \<Rightarrow> coupling_signal \<Rightarrow> int option \<Rightarrow> nat \<Rightarrow> string list \<Rightarrow>
   task list \<Rightarrow> string list \<Rightarrow> held_task list \<Rightarrow> (string list \<times> held_task list) option"
where
  "plan_loop tasks coupling limit n [] blocking selected held = Some (selected, held)"
| "plan_loop tasks coupling limit n (taskId # ready) blocking selected held =
     (case task_by_id tasks taskId of
        None \<Rightarrow> plan_loop tasks coupling limit n ready blocking selected held
      | Some task \<Rightarrow>
          if \<not> hasExecutableCheck task
          then plan_loop tasks coupling limit n ready blocking selected (held @ [hold taskId HrClaimLost])
          else if (case limit of None \<Rightarrow> False | Some l \<Rightarrow> int (n + length selected) \<ge> l)
          then plan_loop tasks coupling limit n ready blocking selected (held @ [hold taskId HrConcurrencyCap])
          else (case those (map (\<lambda>other. mayRunConcurrently task other coupling) blocking) of
              None \<Rightarrow> None
            | Some verdicts \<Rightarrow>
                (case find (\<lambda>v. v \<noteq> None) verdicts of
                   Some (Some reason) \<Rightarrow>
                     plan_loop tasks coupling limit n ready blocking selected (held @ [hold taskId reason])
                 | _ \<Rightarrow> plan_loop tasks coupling limit n ready (blocking @ [task]) (selected @ [taskId]) held)))"

definition planPass :: "plan_pass_params \<Rightarrow> db \<Rightarrow> dispatch_plan option" where
  "planPass params d =
     (let inFlight = dedup (pp_inFlight params);
          tasks = pass_tasks (pp_phaseIds params) d;
          blocking = List.map_filter (task_by_id tasks) inFlight
      in map_option (\<lambda>(selected, held). \<lparr>dp_dispatch = selected, dp_held = held,
             dp_inFlight = length inFlight, dp_limit = pp_limit params\<rparr>)
           (plan_loop tasks (resolveCouplingSignal params) (pp_limit params) (length inFlight)
              (ready_in_order tasks) blocking [] []))"

section \<open>Claiming a task\<close>

record claim_hooks =
  ch_actor :: transition_actor
  ch_authorizationCurrent :: "task \<Rightarrow> guard_outcome"
  ch_dispatchAllowed :: "task \<Rightarrow> guard_outcome"

datatype claim_refusal = UnknownTask | NotReady task_status | Refused rejection_code

record claim_result =
  cl_taskId :: string
  cl_ok :: bool
  cl_task :: "task option"
  cl_reason :: "claim_refusal option"

definition claim_evidence :: "task \<Rightarrow> string" where
  "claim_evidence task = ''dispatch:'' @ t_id task @ ''@'' @ digits (t_revision task)"

definition claim_guards :: "claim_hooks \<Rightarrow> task \<Rightarrow> guard_table" where
  "claim_guards hooks task pc =
     (if pc = PcAuthorizationCurrent then Some (\<lambda>_. ch_authorizationCurrent hooks task)
      else if pc = PcDispatchAllowed then Some (\<lambda>_. ch_dispatchAllowed hooks task) else None)"

definition claim_request :: "claim_hooks \<Rightarrow> task \<Rightarrow> task_status transition_request" where
  "claim_request hooks task = \<lparr>rq_subject = t_id task, rq_to = Known Running, rq_actor = ch_actor hooks,
     rq_trigger = ''dispatch'', rq_guards = claim_guards hooks task, rq_evidenceRefs = [claim_evidence task],
     rq_gitRevision = None, rq_expectedStatus = Some Ready, rq_expectedRevision = Some (t_revision task),
     rq_blocker = None, rq_gateReceiptId = None\<rparr>"

definition claim_refused :: "string \<Rightarrow> claim_refusal \<Rightarrow> claim_result" where
  "claim_refused i r = \<lparr>cl_taskId = i, cl_ok = False, cl_task = None, cl_reason = Some r\<rparr>"

text \<open>A rejected transition is returned; every other error is thrown on.\<close>

definition claimTask :: "claim_hooks \<Rightarrow> string \<Rightarrow> claim_result io" where
  "claimTask hooks taskId =
     andThen (repo_get taskRepo taskId) (\<lambda>found.
       case found of
         None \<Rightarrow> ret (claim_refused taskId UnknownTask)
       | Some task \<Rightarrow>
           if t_status task \<noteq> Ready then ret (claim_refused taskId (NotReady (t_status task)))
           else tryCatch
             (andThen (transitionTask (claim_request hooks task)) (\<lambda>result.
                ret \<lparr>cl_taskId = taskId, cl_ok = True, cl_task = Some (re_subject result), cl_reason = None\<rparr>))
             (\<lambda>e. case e of TransitionRejected code failed ev \<Rightarrow> ret (claim_refused taskId (Refused code))
                | _ \<Rightarrow> throw e))"

section \<open>What a pass selects\<close>

lemma mayRunConcurrently_clear:
  "mayRunConcurrently t other coupling = Some None \<longleftrightarrow>
     \<not> conflictsOnOwnership t other \<and> coupling t other = Some Independent"
  by (auto simp: mayRunConcurrently_def conflictsOnOwnership_def Let_def split: option.splits coupling_verdict.splits)

lemma no_conflict_iff:
  "\<not> conflictsOnOwnership a b \<longleftrightarrow> paths_clear (t_ownership a) (t_ownership b) \<and>
     set (ow_components (t_ownership a)) \<inter> set (ow_components (t_ownership b)) = {}"
  by (auto simp: conflictsOnOwnership_def ownershipOverlap_def Let_def paths_clear_def filter_empty_conv
      list_all_iff list_ex_iff)

fun clear_chain :: "coupling_signal \<Rightarrow> task list \<Rightarrow> task list \<Rightarrow> bool" where
  "clear_chain coupling blocking [] \<longleftrightarrow> True"
| "clear_chain coupling blocking (t # ts) \<longleftrightarrow>
     list_all (\<lambda>other. mayRunConcurrently t other coupling = Some None) blocking \<and>
     clear_chain coupling (blocking @ [t]) ts"

lemma clear_chain_blocking:
  "clear_chain coupling blocking ts \<Longrightarrow> t \<in> set ts \<Longrightarrow> other \<in> set blocking \<Longrightarrow>
     mayRunConcurrently t other coupling = Some None"
  by (induction ts arbitrary: blocking) (auto simp: list_all_iff)

lemma clear_chain_pairs:
  "clear_chain coupling blocking ts \<Longrightarrow> sorted_wrt (\<lambda>a b. mayRunConcurrently b a coupling = Some None) ts"
proof (induction ts arbitrary: blocking)
  case (Cons t ts)
  then have "clear_chain coupling (blocking @ [t]) ts" by simp
  with Cons.IH [OF this] clear_chain_blocking [OF this, of _ t] show ?case by simp
qed simp

definition room :: "int option \<Rightarrow> nat \<Rightarrow> bool" where
  "room limit m \<longleftrightarrow> (case limit of None \<Rightarrow> True | Some l \<Rightarrow> int m < l)"

definition fits :: "int option \<Rightarrow> nat \<Rightarrow> bool" where
  "fits limit m \<longleftrightarrow> (case limit of None \<Rightarrow> True | Some l \<Rightarrow> int m \<le> l)"

definition plan_from ::
  "task list \<Rightarrow> coupling_signal \<Rightarrow> int option \<Rightarrow> nat \<Rightarrow> string list \<Rightarrow> task list \<Rightarrow> string list \<Rightarrow>
   held_task list \<Rightarrow> string list \<times> held_task list \<Rightarrow> bool"
where
  "plan_from tasks coupling limit n ready blocking selected held r \<longleftrightarrow> (\<exists>new out.
     fst r = selected @ map t_id new \<and> snd r = held @ out \<and> subseq (map t_id new) ready \<and>
     list_all (\<lambda>t. task_by_id tasks (t_id t) = Some t \<and> hasExecutableCheck t) new \<and>
     clear_chain coupling blocking new \<and>
     (new = [] \<or> fits limit (n + length selected + length new)) \<and>
     mset (map t_id new) + mset (map ht_taskId out) = mset (filter (\<lambda>i. task_by_id tasks i \<noteq> None) ready))"

lemma those_all_clear:
  assumes "those (map (\<lambda>other. mayRunConcurrently t other coupling) blocking) = Some vs"
    and "find (\<lambda>v. v \<noteq> None) vs = None"
  shows "list_all (\<lambda>other. mayRunConcurrently t other coupling = Some None) blocking"
  using assms
proof (induction blocking arbitrary: vs)
  case (Cons x xs)
  then show ?case
    by (cases "mayRunConcurrently t x coupling") (auto split: option.splits if_splits)
qed simp

lemma plan_loop_cases:
  assumes "plan_loop tasks coupling limit n (i # ready) blocking selected held = Some r"
  obtains (unknown) "task_by_id tasks i = None"
      "plan_loop tasks coupling limit n ready blocking selected held = Some r"
    | (held) reason where "task_by_id tasks i \<noteq> None"
      "plan_loop tasks coupling limit n ready blocking selected (held @ [hold i reason]) = Some r"
    | (admitted) t where "task_by_id tasks i = Some t" "hasExecutableCheck t" "room limit (n + length selected)"
      "list_all (\<lambda>other. mayRunConcurrently t other coupling = Some None) blocking"
      "plan_loop tasks coupling limit n ready (blocking @ [t]) (selected @ [i]) held = Some r"
proof (cases "task_by_id tasks i")
  case None
  with assms unknown show ?thesis by simp
next
  case (Some t)
  consider "\<not> hasExecutableCheck t" | "hasExecutableCheck t" "\<not> room limit (n + length selected)"
    | (free) "hasExecutableCheck t" "room limit (n + length selected)" by blast
  then show ?thesis
  proof cases
    case 1
    with assms Some show ?thesis by (intro held [of HrClaimLost]) simp_all
  next
    case 2
    with assms Some show ?thesis
      by (intro held [of HrConcurrencyCap]) (auto simp: room_def split: option.splits)
  next
    case free
    then have cap: "\<not> (case limit of None \<Rightarrow> False | Some l \<Rightarrow> int (n + length selected) \<ge> l)"
      by (auto simp: room_def split: option.splits)
    with assms Some free obtain vs where
      vs: "those (map (\<lambda>other. mayRunConcurrently t other coupling) blocking) = Some vs"
      by (auto split: option.splits)
    have run: "(case find (\<lambda>v. v \<noteq> None) vs of
        Some (Some reason) \<Rightarrow> plan_loop tasks coupling limit n ready blocking selected (held @ [hold i reason])
      | _ \<Rightarrow> plan_loop tasks coupling limit n ready (blocking @ [t]) (selected @ [i]) held) = Some r"
      using assms unfolding plan_loop.simps Some option.case if_not_P [OF cap] vs by (simp only: free(1) not_True_eq_False if_False)
    show ?thesis
    proof (cases "find (\<lambda>v. v \<noteq> None) vs")
      case None
      from run have "plan_loop tasks coupling limit n ready (blocking @ [t]) (selected @ [i]) held = Some r"
        unfolding None by simp
      with those_all_clear [OF vs None] Some free show ?thesis
        by (intro admitted [of t])
    next
      case (Some v)
      then obtain reason where "v = Some reason"
        by (auto simp: find_Some_iff)
      with run have "plan_loop tasks coupling limit n ready blocking selected (held @ [hold i reason]) = Some r"
        unfolding Some by simp
      with \<open>task_by_id tasks i = Some t\<close> show ?thesis
        by (intro held [of reason]) simp_all
    qed
  qed
qed

lemma plan_loop_from:
  "plan_loop tasks coupling limit n ready blocking selected held = Some r \<Longrightarrow>
     plan_from tasks coupling limit n ready blocking selected held r"
proof (induction ready arbitrary: blocking selected held)
  case Nil
  then show ?case by (auto simp: plan_from_def intro: exI [of _ "[]"])
next
  case (Cons i ready)
  from Cons.prems show ?case
  proof (cases rule: plan_loop_cases)
    case unknown
    with Cons.IH [OF unknown(2)] show ?thesis
      by (auto simp: plan_from_def)
  next
    case (held reason)
    from Cons.IH [OF held(2)] obtain new out where
      "fst r = selected @ map t_id new" "snd r = held @ hold i reason # out" "subseq (map t_id new) ready"
      "list_all (\<lambda>t. task_by_id tasks (t_id t) = Some t \<and> hasExecutableCheck t) new"
      "clear_chain coupling blocking new" "new = [] \<or> fits limit (n + length selected + length new)"
      "mset (map t_id new) + mset (map ht_taskId out) = mset (filter (\<lambda>i. task_by_id tasks i \<noteq> None) ready)"
      by (auto simp: plan_from_def)
    with held(1) show ?thesis
      unfolding plan_from_def
      by (intro exI [of _ new] exI [of _ "hold i reason # out"]) (auto simp: hold_def)
  next
    case (admitted t)
    have i: "t_id t = i" using task_by_id_Some [OF admitted(1)] by simp
    from Cons.IH [OF admitted(5)] obtain new out where
      "fst r = (selected @ [i]) @ map t_id new" "snd r = held @ out" "subseq (map t_id new) ready"
      "list_all (\<lambda>t. task_by_id tasks (t_id t) = Some t \<and> hasExecutableCheck t) new"
      "clear_chain coupling (blocking @ [t]) new" "new = [] \<or> fits limit (n + length (selected @ [i]) + length new)"
      "mset (map t_id new) + mset (map ht_taskId out) = mset (filter (\<lambda>i. task_by_id tasks i \<noteq> None) ready)"
      unfolding plan_from_def by blast
    moreover have "fits limit (Suc (n + length selected))"
      using admitted(3) by (auto simp: room_def fits_def split: option.splits)
    ultimately show ?thesis
      unfolding plan_from_def using admitted(1,2,4) i
      by (intro exI [of _ "t # new"] exI [of _ out]) auto
  qed
qed

lemma readySet_known: "i \<in> set (readySet tasks cs) \<Longrightarrow> task_by_id tasks i \<noteq> None"
  by (auto simp: readySet_def Let_def task_by_id_None)

lemma ready_in_order_mset: "mset (ready_in_order tasks) = mset (readySet tasks None)"
  by (simp add: ready_in_order_def)

lemma may_run_shares_no_file:
  "mayRunConcurrently t other coupling = Some None \<Longrightarrow> share_no_file t other \<and> coupling t other = Some Independent"
  by (simp add: mayRunConcurrently_clear no_conflict_iff paths_clear_share_no_file)

text \<open>
  The judgement on a pair, for the candidate \<open>b\<close> beside \<open>a\<close>: the verdict on record in the cache, and
  only where the cache has none what the caller's signal answers. Without either there is none.
\<close>

definition judged_independent :: "plan_pass_params \<Rightarrow> task \<Rightarrow> task \<Rightarrow> bool" where
  "judged_independent params b a \<longleftrightarrow>
     (case (case pp_couplingCache params of None \<Rightarrow> None | Some c \<Rightarrow> map_of c (couplingKey b a)) of
        Some entry \<Rightarrow> cc_verdict entry = Independent
      | None \<Rightarrow> (case pp_coupling params of None \<Rightarrow> False | Some signal \<Rightarrow> signal b a = Some Independent))"

definition fits_beside :: "plan_pass_params \<Rightarrow> task \<Rightarrow> task \<Rightarrow> bool" where
  "fits_beside params a b \<longleftrightarrow> share_no_file b a \<and>
     set (ow_components (t_ownership a)) \<inter> set (ow_components (t_ownership b)) = {} \<and>
     judged_independent params b a"

lemma resolved_independent:
  "resolveCouplingSignal params b a = Some Independent \<Longrightarrow> judged_independent params b a"
  by (auto simp: resolveCouplingSignal_def judged_independent_def couplingSignalFrom_def couplingVerdictFor_def
      cache_get_def UNCERTAIN_COUPLING_def split: option.splits)

lemma may_run_fits:
  assumes "mayRunConcurrently t other (resolveCouplingSignal params) = Some None"
  shows "fits_beside params other t"
  using assms may_run_shares_no_file [OF assms] resolved_independent
  by (auto simp: fits_beside_def mayRunConcurrently_clear conflictsOnOwnership_def ownershipOverlap_def Let_def
      filter_empty_conv)

text \<open>One task stands before another in a list.\<close>

definition listed_before :: "string list \<Rightarrow> string \<Rightarrow> string \<Rightarrow> bool" where
  "listed_before order i j \<longleftrightarrow> (\<exists>m n. m \<le> n \<and> n < length order \<and> order ! m = i \<and> order ! n = j)"

lemma topo_search:
  assumes "to_ok (topoOrder tasks)"
  shows "to_order (topoOrder tasks) = snd (findGraphCycles (task_edges tasks))"
    "fst (findGraphCycles (task_edges tasks)) = []"
  using assms by (auto simp: topoOrder_def validateGraph_def Let_def split: prod.splits if_splits)

lemma topo_order_covers:
  assumes "to_ok (topoOrder tasks)"
  shows "distinct (to_order (topoOrder tasks))" "set (to_order (topoOrder tasks)) = t_id ` set tasks"
    "deps_before (task_edges tasks) (to_order (topoOrder tasks))"
  using search_order [of "task_edges tasks"] search_clean [OF topo_search(2) [OF assms]]
  unfolding topo_search(1) [OF assms] by (simp_all add: task_edges_def image_image)

lemma rank_of_nth:
  assumes "distinct order" and "n < length order"
  shows "rank_of order (order ! n) = n"
proof -
  have "map_of (rev (zip order [0..<length order])) (order ! n) = Some n"
    by (rule map_of_is_SomeI) (use assms in \<open>auto simp: rev_map [symmetric] in_set_zip intro: exI [of _ n]\<close>)
  then show ?thesis by (simp add: rank_of_def)
qed

lemma ready_in_topological_order:
  assumes "to_ok (topoOrder tasks)"
  shows "sorted_wrt (listed_before (to_order (topoOrder tasks))) (ready_in_order tasks)"
proof (rule sorted_wrt_mono_rel)
  let ?order = "to_order (topoOrder tasks)"
  show "sorted_wrt (\<lambda>i j. rank_of ?order i \<le> rank_of ?order j) (ready_in_order tasks)"
    unfolding ready_in_order_def by (metis sorted_map sorted_sort_key)
  have place: "\<exists>n < length ?order. ?order ! n = i \<and> rank_of ?order i = n" if "i \<in> set (ready_in_order tasks)" for i
  proof -
    have "i \<in> set ?order"
      using that readySet_known [of i tasks None] topo_order_covers(2) [OF assms]
      by (auto simp: ready_in_order_def dest!: task_by_id_Some)
    then show ?thesis
      using rank_of_nth [OF topo_order_covers(1) [OF assms]] by (metis in_set_conv_nth)
  qed
  show "listed_before ?order i j"
    if "i \<in> set (ready_in_order tasks)" "j \<in> set (ready_in_order tasks)" "rank_of ?order i \<le> rank_of ?order j" for i j
    using place [OF that(1)] place [OF that(2)] that(3) unfolding listed_before_def by metis
qed

lemma sorted_wrt_subseq: "subseq xs ys \<Longrightarrow> sorted_wrt P ys \<Longrightarrow> sorted_wrt P xs"
proof (induction rule: list_emb.induct)
  case (list_emb_Cons2 x y xs ys)
  then show ?case using list_emb_set by fastforce
qed auto

definition in_flight_tasks :: "plan_pass_params \<Rightarrow> db \<Rightarrow> task list" where
  "in_flight_tasks params d = List.map_filter (task_by_id (pass_tasks (pp_phaseIds params) d)) (dedup (pp_inFlight params))"

lemma planPass_from:
  assumes "planPass params d = Some plan"
  shows "plan_from (pass_tasks (pp_phaseIds params) d) (resolveCouplingSignal params) (pp_limit params)
     (length (dedup (pp_inFlight params))) (ready_in_order (pass_tasks (pp_phaseIds params) d))
     (in_flight_tasks params d) [] [] (dp_dispatch plan, dp_held plan)"
proof -
  from assms obtain r where
    "plan_loop (pass_tasks (pp_phaseIds params) d) (resolveCouplingSignal params) (pp_limit params)
      (length (dedup (pp_inFlight params))) (ready_in_order (pass_tasks (pp_phaseIds params) d))
      (in_flight_tasks params d) [] [] = Some r"
    "(dp_dispatch plan, dp_held plan) = r"
    by (auto simp: planPass_def Let_def in_flight_tasks_def)
  then show ?thesis
    using plan_loop_from by blast
qed

text \<open>C19. A pass offers only tasks that are safe to start together: each is in the ready set read from the
  store and has a check that can fail; any two of them, and each with every task in flight, declare no
  common file or component and were judged independent by the cached verdict or, where there is none, by
  the caller's signal; with the tasks in flight they stay within the limit. On an acyclic graph they come
  in its topological order, which lists every task of the pass after the tasks it depends on. Every ready
  task is either offered or held with a reason.\<close>

theorem planPass_offers_safe_tasks:
  assumes "planPass params d = Some plan"
  shows "\<exists>offered. dp_dispatch plan = map t_id offered \<and>
     list_all (\<lambda>t. task_by_id (pass_tasks (pp_phaseIds params) d) (t_id t) = Some t \<and> hasExecutableCheck t \<and>
       t_id t \<in> set (readySet (pass_tasks (pp_phaseIds params) d) None) \<and>
       list_all (\<lambda>other. fits_beside params other t) (in_flight_tasks params d)) offered \<and>
     sorted_wrt (fits_beside params) offered \<and>
     (offered = [] \<or> fits (pp_limit params) (length (dedup (pp_inFlight params)) + length offered)) \<and>
     (let tasks = pass_tasks (pp_phaseIds params) d; order = to_order (topoOrder tasks) in
       to_ok (topoOrder tasks) \<longrightarrow> sorted_wrt (listed_before order) (dp_dispatch plan) \<and>
         distinct order \<and> set order = t_id ` set tasks \<and> deps_before (task_edges tasks) order) \<and>
     mset (dp_dispatch plan) + mset (map ht_taskId (dp_held plan)) =
       mset (readySet (pass_tasks (pp_phaseIds params) d) None)"
proof -
  let ?tasks = "pass_tasks (pp_phaseIds params) d"
  from planPass_from [OF assms] obtain new where
    new: "dp_dispatch plan = map t_id new" "subseq (map t_id new) (ready_in_order ?tasks)"
      "list_all (\<lambda>t. task_by_id ?tasks (t_id t) = Some t \<and> hasExecutableCheck t) new"
      "clear_chain (resolveCouplingSignal params) (in_flight_tasks params d) new"
      "new = [] \<or> fits (pp_limit params) (length (dedup (pp_inFlight params)) + length new)"
      "mset (map t_id new) + mset (map ht_taskId (dp_held plan)) =
         mset (filter (\<lambda>i. task_by_id ?tasks i \<noteq> None) (ready_in_order ?tasks))"
    unfolding plan_from_def by auto
  have all_known: "filter (\<lambda>i. task_by_id ?tasks i \<noteq> None) (ready_in_order ?tasks) = ready_in_order ?tasks"
    using readySet_known by (auto simp: filter_id_conv ready_in_order_def)
  have ready: "t_id t \<in> set (readySet ?tasks None)" if "t \<in> set new" for t
    using that list_emb_set [OF new(2)] by (auto simp: ready_in_order_def)
  have pairs: "sorted_wrt (fits_beside params) new"
    by (rule sorted_wrt_mono_rel [OF _ clear_chain_pairs [OF new(4)]]) (rule may_run_fits)
  have flight: "fits_beside params other t" if "t \<in> set new" "other \<in> set (in_flight_tasks params d)" for t other
    by (rule may_run_fits [OF clear_chain_blocking [OF new(4) that]])
  have split: "mset (map t_id new) + mset (map ht_taskId (dp_held plan)) = mset (readySet ?tasks None)"
    using new(6) unfolding all_known ready_in_order_mset .
  have order: "sorted_wrt (listed_before (to_order (topoOrder ?tasks))) (dp_dispatch plan)" if "to_ok (topoOrder ?tasks)"
    using sorted_wrt_subseq [OF new(2) ready_in_topological_order [OF that]] by (simp add: new(1))
  show ?thesis
    using new(1,3,5) ready pairs flight split order topo_order_covers [of ?tasks]
    by (intro exI [of _ new]) (auto simp: list_all_iff Let_def)
qed

definition fx_owner :: "string \<Rightarrow> string \<Rightarrow> task" where
  "fx_owner i path = (fx_task Ready)\<lparr>t_id := i, t_ownership := \<lparr>ow_paths = [path], ow_components = []\<rparr>\<rparr>"

definition fx_pass_db :: db where
  "fx_pass_db = (fx_db Ready PgRunning None)\<lparr>db_tasks :=
     [fx_owner ''a'' ''src/x*'', fx_owner ''b'' ''src/yz'', fx_owner ''c'' ''src/?y'', fx_owner ''d'' ''doc'']\<rparr>"

definition fx_pass_params :: plan_pass_params where
  "fx_pass_params = \<lparr>pp_phaseIds = [''p''], pp_inFlight = [], pp_limit = Some 2,
     pp_coupling = Some (\<lambda>_ _. Some Independent), pp_couplingCache = None\<rparr>"

definition fx_plan :: dispatch_plan where
  "fx_plan = \<lparr>dp_dispatch = [''a'', ''b''], dp_held = [hold ''c'' HrConcurrencyCap, hold ''d'' HrConcurrencyCap],
     dp_inFlight = 0, dp_limit = Some 2\<rparr>"

lemma fx_plan_runs: "planPass fx_pass_params fx_pass_db = Some fx_plan"
  by code_simp

theorem planPass_offers_safe_tasks_witness:
  "\<exists>offered. [''a'', ''b''] = map t_id offered \<and>
     sorted_wrt (fits_beside fx_pass_params) offered"
proof -
  have "dp_dispatch fx_plan = [''a'', ''b'']" by (simp add: fx_plan_def)
  with planPass_offers_safe_tasks [OF fx_plan_runs] show ?thesis by metis
qed

section \<open>A claim is won once\<close>

lemma claimTask_ok:
  assumes "claimTask hooks i w = (Inr res, w')" and "cl_ok res"
  obtains task r w0 where "tbl_get t_id i (db_tasks (w_db w)) = Some task" "t_status task = Ready"
    "w_db w0 = w_db w" "transitionTask (claim_request hooks task) w0 = (Inr r, w')"
    "cl_task res = Some (re_subject r)"
  using assms
  by (auto simp: claimTask_def andThen_eq_Inr tasks.get_eq claim_refused_def tryCatch_def
      split: option.splits if_splits prod.splits sum.splits failure.splits)

lemma dispatch_edge:
  assumes "edge \<in> set TASK_TRANSITIONS" and "tr_to edge = Running" and "tr_trigger edge = ''dispatch''"
  shows "tr_preconditions edge = READY_PRECONDITIONS @ [PcDispatchAllowed] \<and> tr_whoMayTrigger edge = [EngineOnly]"
  using assms by (auto simp: TASK_TRANSITIONS_def)

lemma engine_only: "actorRole k = EngineOnly \<longleftrightarrow> k = AkEngine"
  by (cases k) simp_all

lemma claim_needs_ready:
  assumes "transitionTask (claim_request hooks task) w = (Inr r, w')"
    and "tbl_get t_id (t_id task) (db_tasks (w_db w)) = Some x"
  shows "t_status x = Ready"
  using transitionTask_Inr [OF assms(1)] assms(2)
  by (auto simp: task_accepted_def task_stale_def claim_request_def)

lemma claim_moves_to_running:
  assumes "transitionTask (claim_request hooks task) w = (Inr r, w')"
    and "tbl_get t_id (t_id task) (db_tasks (w_db w)) = Some task"
  shows "t_status (re_subject r) = Running \<and> t_id (re_subject r) = t_id task \<and>
     tbl_get t_id (t_id task) (db_tasks (w_db w')) = Some (re_subject r)"
  using transitionTask_Inr [OF assms(1)] assms(2)
  by (auto simp: task_accepted_def task_written_def claim_request_def tbl_get_put)

lemma claim_preconditions:
  assumes "transitionTask (claim_request hooks task) w = (Inr r, w')"
    and "tbl_get t_id (t_id task) (db_tasks (w_db w)) = Some task"
  shows "ta_kind (ch_actor hooks) = AkEngine \<and> hasExecutableCheck task \<and> dependenciesDone (w_db w) task \<and>
     unresolvedKinds SkTask (t_id task) (w_db w) = [] \<and>
     ch_authorizationCurrent hooks task = GTrue \<and> ch_dispatchAllowed hooks task = GTrue"
proof -
  from transitionTask_Inr [OF assms(1)] assms(2) obtain edge ctx where
    acc: "task_accepted (claim_request hooks task) (w_db w) task edge Running ctx"
    by (auto simp: task_accepted_def claim_request_def)
  have edge: "edge \<in> set TASK_TRANSITIONS" "tr_to edge = Running" "tr_trigger edge = ''dispatch''"
    using acc by (auto simp: task_accepted_def claim_request_def)
  have met: "precondition_met (claim_request hooks task) (w_db w) task ctx pc"
    if "pc \<in> set (READY_PRECONDITIONS @ [PcDispatchAllowed])" for pc
    using accepted_preconditions [OF acc] dispatch_edge [OF edge] that by simp
  have "actorRole (ta_kind (ch_actor hooks)) = EngineOnly"
    using acc dispatch_edge [OF edge] by (simp add: task_accepted_def claim_request_def)
  then show ?thesis
    using met [of PcChecksRegistered] met [of PcReadinessValid] met [of PcAuthorizationCurrent] met [of PcDispatchAllowed]
    by (simp add: engine_only READY_PRECONDITIONS_def precondition_met_def claim_request_def claim_guards_def)
qed

text \<open>C20. A task is claimed at most once: a claim succeeds only on a ready task with a check that can
  fail, done dependencies, no unresolved blocker, current authorisation and the dispatch allowed, by
  the engine, and leaves it running; on the store it leaves, no further claim of the task succeeds,
  nor does the transition of a second scheduler that had read the task as ready before.\<close>

theorem claim_is_won_once:
  assumes "claimTask hooks i w = (Inr res, w')" and "cl_ok res"
  shows "\<exists>task claimed. tbl_get t_id i (db_tasks (w_db w)) = Some task \<and> t_status task = Ready \<and>
     hasExecutableCheck task \<and> dependenciesDone (w_db w) task \<and> unresolvedKinds SkTask i (w_db w) = [] \<and>
     ch_authorizationCurrent hooks task = GTrue \<and> ch_dispatchAllowed hooks task = GTrue \<and>
     ta_kind (ch_actor hooks) = AkEngine \<and>
     cl_task res = Some claimed \<and> t_status claimed = Running \<and>
     tbl_get t_id i (db_tasks (w_db w')) = Some claimed \<and>
     (\<forall>other w1 r w2. w_db w1 = w_db w' \<and> claimTask other i w1 = (Inr r, w2) \<longrightarrow> \<not> cl_ok r) \<and>
     (\<forall>other w1. w_db w1 = w_db w' \<longrightarrow> isl (fst (transitionTask (claim_request other task) w1)))"
proof -
  from claimTask_ok [OF assms] obtain task r w0 where
    task: "tbl_get t_id i (db_tasks (w_db w)) = Some task" "t_status task = Ready" and w0: "w_db w0 = w_db w"
    and run: "transitionTask (claim_request hooks task) w0 = (Inr r, w')" and res: "cl_task res = Some (re_subject r)" .
  have i: "t_id task = i" using tbl_get_key [OF task(1)] .
  have found: "tbl_get t_id (t_id task) (db_tasks (w_db w0)) = Some task" using task(1) w0 i by simp
  have after: "tbl_get t_id i (db_tasks (w_db w')) = Some (re_subject r)" "t_status (re_subject r) = Running"
    using claim_moves_to_running [OF run found] i by simp_all
  have again: "\<not> cl_ok x" if "w_db w1 = w_db w'" "claimTask other i w1 = (Inr x, w2)" for other w1 x w2
    using claimTask_ok [OF that(2)] that(1) after by fastforce
  have stale: "isl (fst (transitionTask (claim_request other task) w1))" if "w_db w1 = w_db w'" for other w1
  proof (rule ccontr)
    assume "\<not> ?thesis"
    then obtain x w2 where "transitionTask (claim_request other task) w1 = (Inr x, w2)"
      using accepted_run by blast
    from claim_needs_ready [OF this, of "re_subject r"] after i that show False by simp
  qed
  show ?thesis
    using claim_preconditions [OF run found] task after res again stale unfolding w0 i
    by (intro exI [of _ task] exI [of _ "re_subject r"]) blast
qed

definition fx_hooks :: claim_hooks where
  "fx_hooks = \<lparr>ch_actor = fx_engine, ch_authorizationCurrent = (\<lambda>_. GTrue), ch_dispatchAllowed = (\<lambda>_. GTrue)\<rparr>"

lemma fx_claim_runs:
  "case fst (claimTask fx_hooks ''t1'' (fx_world (fx_db Ready PgRunning None))) of
     Inl _ \<Rightarrow> False | Inr res \<Rightarrow> cl_ok res"
  by code_simp

theorem claim_is_won_once_witness:
  "\<exists>res w'. claimTask fx_hooks ''t1'' (fx_world (fx_db Ready PgRunning None)) = (Inr res, w') \<and>
     (\<exists>t. tbl_get t_id ''t1'' (db_tasks (w_db w')) = Some t \<and> t_status t = Running)"
proof -
  obtain res w' where "claimTask fx_hooks ''t1'' (fx_world (fx_db Ready PgRunning None)) = (Inr res, w')" "cl_ok res"
    using fx_claim_runs
    by (cases "claimTask fx_hooks ''t1'' (fx_world (fx_db Ready PgRunning None))") (auto split: sum.splits)
  with claim_is_won_once [OF this] show ?thesis by blast
qed

section \<open>Starting what a pass offers\<close>

text \<open>
  The scheduler's own state beside the store: the state behind the injected hooks (the ledger, the
  cancellation flag, the workers), the in-flight map in insertion order, and the ids dispatched so far.
\<close>

record ('s, 'r) sched =
  sc_world :: world
  sc_hooks :: 's
  sc_inFlight :: "(string \<times> 'r) list"
  sc_dispatched :: "string list"

record ('s, 'r) run_params =
  rp_phaseIds :: "string list"
  rp_limit :: "int option"
  rp_claim :: claim_hooks
  rp_coupling :: "coupling_signal option"
  rp_aborted :: "'s \<Rightarrow> bool"
  rp_reserve :: "task \<Rightarrow> 's \<Rightarrow> 'r option \<times> 's"
  rp_release :: "'r \<Rightarrow> 's \<Rightarrow> 's"

definition on_world :: "'a io \<Rightarrow> (('s, 'r) sched, failure, 'a) eff" where
  "on_world m s = (case m (sc_world s) of (r, w') \<Rightarrow> (r, s\<lparr>sc_world := w'\<rparr>))"

definition reserveFor :: "('s, 'r) run_params \<Rightarrow> task \<Rightarrow> (('s, 'r) sched, failure, 'r option) eff" where
  "reserveFor params task s =
     (case rp_reserve params task (sc_hooks s) of (r, h) \<Rightarrow> (Inr r, s\<lparr>sc_hooks := h\<rparr>))"

definition releaseNow :: "('s, 'r) run_params \<Rightarrow> 'r \<Rightarrow> (('s, 'r) sched, failure, unit) eff" where
  "releaseNow params r = modify (\<lambda>s. s\<lparr>sc_hooks := rp_release params r (sc_hooks s)\<rparr>)"

text \<open>
  One turn of the loop in \<open>startPass\<close>: \<open>None\<close> when the worker was started, otherwise the hold. The
  promise of \<open>startDispatch\<close> is kept as the reservation it will release when it settles.
\<close>

definition startOne ::
  "('s, 'r) run_params \<Rightarrow> string \<Rightarrow> (('s, 'r) sched, failure, held_task option) eff" where
  "startOne params taskId =
     andThen (gets (\<lambda>s. rp_aborted params (sc_hooks s))) (\<lambda>aborted.
     if aborted then ret (Some (hold taskId HrCancelled))
     else andThen (on_world (repo_get taskRepo taskId)) (\<lambda>found.
       case found of
         None \<Rightarrow> ret (Some (hold taskId HrClaimLost))
       | Some selected \<Rightarrow>
           andThen (reserveFor params selected) (\<lambda>reservation.
           case reservation of
             None \<Rightarrow> ret (Some (hold taskId HrBudgetRefused))
           | Some r \<Rightarrow>
               andThen (on_world (claimTask (rp_claim params) taskId)) (\<lambda>claim.
               if \<not> cl_ok claim \<or> cl_task claim = None
               then andThen (releaseNow params r) (\<lambda>_. ret (Some (hold taskId HrClaimLost)))
               else andThen (modify (\<lambda>s. s\<lparr>sc_inFlight := AList.update taskId r (sc_inFlight s),
                        sc_dispatched := sc_dispatched s @ [taskId]\<rparr>))
                     (\<lambda>_. ret None)))))"

fun startPass ::
  "('s, 'r) run_params \<Rightarrow> string list \<Rightarrow> held_task list \<Rightarrow> nat \<Rightarrow>
   (('s, 'r) sched, failure, nat \<times> held_task list) eff"
where
  "startPass params [] holds started = ret (started, holds)"
| "startPass params (taskId # rest) holds started =
     andThen (startOne params taskId) (\<lambda>held.
       case held of
         None \<Rightarrow> startPass params rest holds (Suc started)
       | Some h \<Rightarrow> startPass params rest (holds @ [h]) started)"

section \<open>The loop\<close>

record dispatch_outcome =
  do_taskId :: string
  do_ok :: bool

record ('s, 'r) sched_loop =
  lp_sched :: "('s, 'r) sched"
  lp_outcomes :: "dispatch_outcome list"
  lp_held :: "held_task list"
  lp_peak :: nat
  lp_cancelled :: bool
  lp_over :: bool

definition loop_start :: "world \<Rightarrow> 's \<Rightarrow> ('s, 'r) sched_loop" where
  "loop_start w h = \<lparr>lp_sched = \<lparr>sc_world = w, sc_hooks = h, sc_inFlight = [], sc_dispatched = []\<rparr>,
     lp_outcomes = [], lp_held = [], lp_peak = 0, lp_cancelled = False, lp_over = False\<rparr>"

definition loop_plan :: "('s, 'r) run_params \<Rightarrow> ('s, 'r) sched \<Rightarrow> dispatch_plan option" where
  "loop_plan params s = planPass \<lparr>pp_phaseIds = rp_phaseIds params, pp_inFlight = map fst (sc_inFlight s),
     pp_limit = rp_limit params,
     pp_coupling = Some (case rp_coupling params of None \<Rightarrow> UNCERTAIN_COUPLING | Some c \<Rightarrow> c),
     pp_couplingCache = None\<rparr> (w_db (sc_world s))"

text \<open>The part of a turn before anything is awaited: plan, start, and note the holds and the peak.\<close>

definition loop_pass ::
  "('s, 'r) run_params \<Rightarrow> ('s, 'r) sched_loop \<Rightarrow> (nat \<times> ('s, 'r) sched_loop) option" where
  "loop_pass params l =
     (case loop_plan params (lp_sched l) of
        None \<Rightarrow> None
      | Some plan \<Rightarrow>
          (case startPass params (dp_dispatch plan) [] 0 (lp_sched l) of
             (Inl e, s) \<Rightarrow> None
           | (Inr (started, holds), s) \<Rightarrow>
               Some (started, l\<lparr>lp_sched := s, lp_held := dp_held plan @ holds,
                 lp_peak := max (lp_peak l) (length (sc_inFlight s))\<rparr>)))"

text \<open>
  One turn of \<open>runScheduler\<close>. While a turn waits, the workers and other processes may change the
  store and the state behind the hooks in any way; some worker in flight settles first, and the entry
  removed is the one its outcome names.
\<close>

inductive sched_turn :: "('s, 'r) run_params \<Rightarrow> ('s, 'r) sched_loop \<Rightarrow> ('s, 'r) sched_loop \<Rightarrow> bool"
  for params where
  turn_aborted: "\<not> lp_over l \<Longrightarrow> rp_aborted params (sc_hooks (lp_sched l)) \<Longrightarrow>
     sched_turn params l (l\<lparr>lp_cancelled := True, lp_over := True\<rparr>)"
| turn_started: "\<not> lp_over l \<Longrightarrow> \<not> rp_aborted params (sc_hooks (lp_sched l)) \<Longrightarrow>
     loop_pass params l = Some (started, l') \<Longrightarrow> started > 0 \<Longrightarrow> sched_turn params l l'"
| turn_finished: "\<not> lp_over l \<Longrightarrow> \<not> rp_aborted params (sc_hooks (lp_sched l)) \<Longrightarrow>
     loop_pass params l = Some (0, l') \<Longrightarrow> sc_inFlight (lp_sched l') = [] \<Longrightarrow>
     sched_turn params l (l'\<lparr>lp_over := True\<rparr>)"
| turn_settled: "\<not> lp_over l \<Longrightarrow> \<not> rp_aborted params (sc_hooks (lp_sched l)) \<Longrightarrow>
     loop_pass params l = Some (0, l') \<Longrightarrow> (i, r) \<in> set (sc_inFlight (lp_sched l')) \<Longrightarrow>
     sched_turn params l (l'\<lparr>lp_outcomes := lp_outcomes l' @ [out],
       lp_sched := (lp_sched l')\<lparr>sc_world := w, sc_hooks := h,
         sc_inFlight := AList.delete (do_taskId out) (sc_inFlight (lp_sched l'))\<rparr>\<rparr>)"

inductive_cases sched_turnE: "sched_turn params l l'"

section \<open>Cancelling what was dispatched\<close>

definition cancel_request :: "transition_actor \<Rightarrow> string \<Rightarrow> task_status transition_request" where
  "cancel_request actor taskId = \<lparr>rq_subject = taskId, rq_to = Known Cancelled, rq_actor = actor,
     rq_trigger = ''cancel'', rq_guards = (\<lambda>pc. if pc = PcCancellationRequested then Some (\<lambda>_. GTrue) else None),
     rq_evidenceRefs = [''cancel:'' @ taskId, ''scheduler:cancellation_requested''],
     rq_gitRevision = None, rq_expectedStatus = None, rq_expectedRevision = None, rq_blocker = None,
     rq_gateReceiptId = None\<rparr>"

fun cancelRemaining :: "transition_actor \<Rightarrow> string list \<Rightarrow> string list io" where
  "cancelRemaining actor [] = ret []"
| "cancelRemaining actor (taskId # rest) =
     andThen (tryCatch (andThen (transitionTask (cancel_request actor taskId)) (\<lambda>_. ret [taskId]))
        (\<lambda>e. case e of TransitionRejected code failed ev \<Rightarrow> ret [] | _ \<Rightarrow> throw e)) (\<lambda>moved.
     andThen (cancelRemaining actor rest) (\<lambda>others. ret (moved @ others)))"

section \<open>What a pass starts\<close>

lemma on_world_Inr: "on_world m s = (Inr x, s') \<longleftrightarrow> (\<exists>w'. m (sc_world s) = (Inr x, w') \<and> s' = s\<lparr>sc_world := w'\<rparr>)"
  by (auto simp: on_world_def split: prod.splits)

lemma reserveFor_Inr:
  "reserveFor params t s = (Inr r, s') \<longleftrightarrow>
     (\<exists>h. rp_reserve params t (sc_hooks s) = (r, h) \<and> s' = s\<lparr>sc_hooks := h\<rparr>)"
  by (auto simp: reserveFor_def split: prod.splits)

lemma startOne_Inr:
  assumes "startOne params i s = (Inr res, s')"
  shows "case res of
      None \<Rightarrow> sc_dispatched s' = sc_dispatched s @ [i] \<and> (\<exists>r. sc_inFlight s' = AList.update i r (sc_inFlight s))
    | Some h \<Rightarrow> ht_taskId h = i \<and> sc_dispatched s' = sc_dispatched s \<and> sc_inFlight s' = sc_inFlight s"
  using assms
  by (auto simp: startOne_def andThen_eq_Inr on_world_Inr reserveFor_Inr releaseNow_def hold_def
      split: option.splits if_splits) (rule exI, rule refl)

definition starts :: "('s, 'r) sched \<Rightarrow> string list \<Rightarrow> ('s, 'r) sched \<Rightarrow> bool" where
  "starts s new s' \<longleftrightarrow> sc_dispatched s' = sc_dispatched s @ new \<and>
     length (sc_inFlight s') \<le> length (sc_inFlight s) + length new \<and>
     (distinct (map fst (sc_inFlight s)) \<longrightarrow> distinct (map fst (sc_inFlight s'))) \<and>
     fst ` set (sc_inFlight s') = fst ` set (sc_inFlight s) \<union> set new"

lemma length_update: "length (AList.update k v al) \<le> Suc (length al)"
  by (induction al) auto

lemma keys_update: "fst ` set (AList.update k v al) = insert k (fst ` set al)"
  by (induction al) auto

lemma starts_one:
  "sc_dispatched s' = sc_dispatched s @ [i] \<Longrightarrow> sc_inFlight s' = AList.update i r (sc_inFlight s) \<Longrightarrow>
     starts s' new s'' \<Longrightarrow> starts s (i # new) s''"
  using length_update [of i r "sc_inFlight s"] distinct_update [of "sc_inFlight s" i r]
  by (auto simp: starts_def keys_update)

lemma startPass_Inr:
  "startPass params ids holds n s = (Inr (n', holds'), s') \<Longrightarrow>
     \<exists>new out. n' = n + length new \<and> holds' = holds @ out \<and> subseq new ids \<and> starts s new s' \<and>
       mset new + mset (map ht_taskId out) = mset ids"
proof (induction ids arbitrary: holds n s)
  case Nil
  then show ?case by (auto simp: starts_def intro: exI [of _ "[]"])
next
  case (Cons i ids)
  from Cons.prems obtain res s1 where one: "startOne params i s = (Inr res, s1)"
    and rest: "(case res of None \<Rightarrow> startPass params ids holds (Suc n)
        | Some h \<Rightarrow> startPass params ids (holds @ [h]) n) s1 = (Inr (n', holds'), s')"
    by (auto simp: andThen_eq_Inr)
  show ?case
  proof (cases res)
    case None
    with startOne_Inr [OF one] obtain r where
      s1: "sc_dispatched s1 = sc_dispatched s @ [i]" "sc_inFlight s1 = AList.update i r (sc_inFlight s)" by auto
    from Cons.IH [of holds "Suc n" s1] rest None obtain new out where
      "n' = Suc n + length new" "holds' = holds @ out" "subseq new ids" "starts s1 new s'"
      "mset new + mset (map ht_taskId out) = mset ids" by auto
    then show ?thesis
      using starts_one [OF s1] by (intro exI [of _ "i # new"] exI [of _ out]) auto
  next
    case (Some h)
    with startOne_Inr [OF one] have
      s1: "sc_dispatched s1 = sc_dispatched s" "sc_inFlight s1 = sc_inFlight s" and h: "ht_taskId h = i" by auto
    from Cons.IH [of "holds @ [h]" n s1] rest Some obtain new out where
      "n' = n + length new" "holds' = (holds @ [h]) @ out" "subseq new ids" "starts s1 new s'"
      "mset new + mset (map ht_taskId out) = mset ids" by auto
    then show ?thesis
      using s1 h by (intro exI [of _ new] exI [of _ "h # out"]) (auto simp: starts_def)
  qed
qed

section \<open>Concurrency is bounded\<close>

lemma dedup_on_distinct: "distinct xs \<Longrightarrow> set xs \<inter> set seen = {} \<Longrightarrow> dedup_on seen xs = xs"
  by (induction seen xs rule: dedup_on.induct) auto

definition loop_ok :: "('s, 'r) run_params \<Rightarrow> ('s, 'r) sched_loop \<Rightarrow> bool" where
  "loop_ok params l \<longleftrightarrow> distinct (map fst (sc_inFlight (lp_sched l))) \<and>
     (sc_inFlight (lp_sched l) = [] \<or> fits (rp_limit params) (length (sc_inFlight (lp_sched l)))) \<and>
     (lp_peak l = 0 \<or> fits (rp_limit params) (lp_peak l)) \<and>
     fst ` set (sc_inFlight (lp_sched l)) \<subseteq> set (sc_dispatched (lp_sched l))"

lemma fits_mono: "fits limit m \<Longrightarrow> n \<le> m \<Longrightarrow> fits limit n"
  by (auto simp: fits_def split: option.splits)

lemma loop_pass_ok:
  assumes "loop_pass params l = Some (started, l')" and ok: "loop_ok params l"
  shows "loop_ok params l'"
proof -
  from assms(1) obtain plan holds s where plan: "loop_plan params (lp_sched l) = Some plan"
    and run: "startPass params (dp_dispatch plan) [] 0 (lp_sched l) = (Inr (started, holds), s)"
    and l': "l' = l\<lparr>lp_sched := s, lp_held := dp_held plan @ holds, lp_peak := max (lp_peak l) (length (sc_inFlight s))\<rparr>"
    by (auto simp: loop_pass_def split: option.splits prod.splits sum.splits)
  have keys: "dedup (map fst (sc_inFlight (lp_sched l))) = map fst (sc_inFlight (lp_sched l))"
    using ok by (simp add: dedup_def dedup_on_distinct loop_ok_def)
  from planPass_from [OF plan [unfolded loop_plan_def]] keys
  have offered: "dp_dispatch plan = [] \<or>
      fits (rp_limit params) (length (sc_inFlight (lp_sched l)) + length (dp_dispatch plan))"
    unfolding plan_from_def by auto
  from startPass_Inr [OF run] obtain new where
    new: "subseq new (dp_dispatch plan)" "starts (lp_sched l) new s" by auto
  have "length new \<le> length (dp_dispatch plan)"
    using list_emb_length [OF new(1)] .
  moreover have "length (sc_inFlight s) \<le> length (sc_inFlight (lp_sched l)) + length new"
    using new(2) by (simp add: starts_def)
  ultimately have "sc_inFlight s = [] \<or> fits (rp_limit params) (length (sc_inFlight s))"
    using offered ok fits_mono [of "rp_limit params" _ "length (sc_inFlight s)"] unfolding loop_ok_def
    by (cases "dp_dispatch plan = []") fastforce+
  then show ?thesis
    using ok new(2) unfolding l'
    by (auto simp: loop_ok_def starts_def max_def)
qed

lemma sched_turn_ok: "sched_turn params l l' \<Longrightarrow> loop_ok params l \<Longrightarrow> loop_ok params l'"
proof (induction rule: sched_turn.induct)
  case (turn_aborted l)
  then show ?case by (simp add: loop_ok_def)
next
  case (turn_started l started l')
  then show ?case using loop_pass_ok by blast
next
  case (turn_finished l l')
  then have "loop_ok params l'" using loop_pass_ok by blast
  then show ?case by (simp add: loop_ok_def)
next
  case (turn_settled l l' i r out w h)
  let ?left = "AList.delete (do_taskId out) (sc_inFlight (lp_sched l'))"
  from turn_settled have ok: "loop_ok params l'" using loop_pass_ok by blast
  have "length ?left \<le> length (sc_inFlight (lp_sched l'))"
    by (rule length_delete_le)
  then have "?left = [] \<or> fits (rp_limit params) (length ?left)"
    using ok by (cases "sc_inFlight (lp_sched l') = []") (auto simp: loop_ok_def intro: fits_mono)
  moreover have "distinct (map fst ?left)"
    using ok by (intro distinct_delete) (simp add: loop_ok_def)
  moreover have "fst ` set ?left \<subseteq> fst ` set (sc_inFlight (lp_sched l'))"
    by (auto simp: AList.delete_eq)
  ultimately show ?case
    using ok by (simp add: loop_ok_def) blast
qed

text \<open>C21. Along every run of the loop, whatever the workers and other processes do while it waits, the
  in-flight map has one entry per task, only of tasks it dispatched, and neither it nor the reported
  peak ever exceeds the configured limit.\<close>

theorem concurrency_never_exceeds_the_limit:
  assumes "(sched_turn params)\<^sup>*\<^sup>* (loop_start w h) l" and "rp_limit params = Some n" and "0 \<le> n"
  shows "int (lp_peak l) \<le> n \<and> int (length (sc_inFlight (lp_sched l))) \<le> n \<and>
     distinct (map fst (sc_inFlight (lp_sched l))) \<and>
     fst ` set (sc_inFlight (lp_sched l)) \<subseteq> set (sc_dispatched (lp_sched l))"
proof -
  from assms(1) have "loop_ok params l"
  proof (induction rule: rtranclp_induct)
    case base
    then show ?case by (simp add: loop_ok_def loop_start_def)
  next
    case (step l l')
    then show ?case by (blast intro: sched_turn_ok)
  qed
  then show ?thesis
    using assms(2,3) by (auto simp: loop_ok_def fits_def)
qed

definition fx_run :: "(nat, nat) run_params" where
  "fx_run = \<lparr>rp_phaseIds = [''p''], rp_limit = Some 1, rp_claim = fx_hooks,
     rp_coupling = Some (\<lambda>_ _. Some Independent), rp_aborted = (\<lambda>_. False),
     rp_reserve = (\<lambda>t h. (Some h, Suc h)), rp_release = (\<lambda>r h. h - 1)\<rparr>"

lemma fx_pass_starts:
  "case loop_pass fx_run (loop_start (fx_world fx_pass_db) 0) of None \<Rightarrow> False
   | Some (started, l') \<Rightarrow> started = 1 \<and> lp_peak l' = 1 \<and> sc_dispatched (lp_sched l') = [''a'']"
  by code_simp

theorem concurrency_never_exceeds_the_limit_witness:
  "\<exists>l. (sched_turn fx_run)\<^sup>*\<^sup>* (loop_start (fx_world fx_pass_db) 0) l \<and> lp_peak l = 1 \<and>
     length (sc_inFlight (lp_sched l)) \<le> 1"
proof -
  obtain l where l: "loop_pass fx_run (loop_start (fx_world fx_pass_db) 0) = Some (1, l)" "lp_peak l = 1"
    using fx_pass_starts by (auto split: option.splits prod.splits)
  have turn: "sched_turn fx_run (loop_start (fx_world fx_pass_db) 0) l"
    by (rule turn_started [OF _ _ l(1)]) (simp_all add: loop_start_def fx_run_def)
  have "int (length (sc_inFlight (lp_sched l))) \<le> 1"
    using concurrency_never_exceeds_the_limit [OF r_into_rtranclp [of "sched_turn fx_run", OF turn], of 1]
    by (simp add: fx_run_def)
  then show ?thesis
    using r_into_rtranclp [of "sched_turn fx_run", OF turn] l(2) by (intro exI [of _ l]) simp
qed

section \<open>Where the loop trusts its hooks\<close>

text \<open>
  The entry removed when a worker settles is the one its outcome names: an outcome that names another
  task leaves the settled worker in flight, and the same settlement is awaited again.
\<close>

lemma misreported_outcome_stays_in_flight:
  assumes "loop_pass params l = Some (0, l')" and "do_taskId out \<notin> fst ` set (sc_inFlight (lp_sched l'))"
  shows "AList.delete (do_taskId out) (sc_inFlight (lp_sched l')) = sc_inFlight (lp_sched l')"
  using assms(2) by (simp add: AList.delete_eq filter_id_conv) force

text \<open>A claim that throws anything but a rejection leaves its reservation taken.\<close>

lemma thrown_claim_keeps_the_reservation:
  assumes "\<not> rp_aborted params (sc_hooks s)" and "tbl_get t_id i (db_tasks (w_db (sc_world s))) = Some t"
    and "rp_reserve params t (sc_hooks s) = (Some r, h)"
    and "claimTask (rp_claim params) i (sc_world s) = (Inl e, w')"
  shows "startOne params i s = (Inl e, s\<lparr>sc_hooks := h, sc_world := w'\<rparr>)"
  using assms by (simp add: startOne_def andThen_def on_world_def reserveFor_def tasks.get_eq)

text \<open>
  A pass also offers tasks that are only proposed. Such a task takes a slot of the limit and its claim
  is then refused, so with one slot the loop ends with a ready task that was never tried.
\<close>

definition fx_starved_db :: db where
  "fx_starved_db = fx_pass_db\<lparr>db_tasks := [(fx_owner ''a'' ''src/x'')\<lparr>t_status := Proposed\<rparr>, fx_owner ''b'' ''doc'']\<rparr>"

lemma proposed_task_starves_a_ready_one:
  "readySet (pass_tasks [''p''] fx_starved_db) (Some [Ready]) = [''b'']"
  "case loop_pass fx_run (loop_start (fx_world fx_starved_db) 0) of None \<Rightarrow> False
   | Some (started, l') \<Rightarrow> started = 0 \<and> sc_inFlight (lp_sched l') = [] \<and> sc_dispatched (lp_sched l') = [] \<and>
       lp_held l' = [hold ''b'' HrConcurrencyCap, hold ''a'' HrClaimLost]"
  by code_simp+

text \<open>The scheduler compares component names as written, the coupling module trims them.\<close>

lemma untrimmed_components_differ:
  "conflictsOnOwnership ((fx_named ''a'' 1)\<lparr>t_ownership := \<lparr>ow_paths = [], ow_components = [''api'']\<rparr>\<rparr>)
     ((fx_named ''b'' 1)\<lparr>t_ownership := \<lparr>ow_paths = [], ow_components = ['' api'']\<rparr>\<rparr>) = False"
  "hasOwnershipOverlap (ownershipConflict ((fx_named ''a'' 1)\<lparr>t_ownership := \<lparr>ow_paths = [], ow_components = [''api'']\<rparr>\<rparr>)
     ((fx_named ''b'' 1)\<lparr>t_ownership := \<lparr>ow_paths = [], ow_components = ['' api'']\<rparr>\<rparr>))"
  by code_simp+

section \<open>What cancelling moves\<close>

lemma cancel_accepted:
  assumes "transitionTask (cancel_request actor i) w = (Inr r, w')"
  shows "\<exists>t. tbl_get t_id i (db_tasks (w_db w')) = Some t \<and> t_status t = Cancelled"
    and "\<And>k. k \<noteq> i \<Longrightarrow> tbl_get t_id k (db_tasks (w_db w')) = tbl_get t_id k (db_tasks (w_db w))"
    and "\<And>t. tbl_get t_id i (db_tasks (w_db w)) = Some t \<Longrightarrow> t_status t \<noteq> Done"
proof -
  from transitionTask_Inr [OF assms] obtain task edge ctx where
    acc: "task_accepted (cancel_request actor i) (w_db w) task edge Cancelled ctx"
    and wr: "task_written (cancel_request actor i) (w_db w) task edge Cancelled r (w_db w')"
    by (auto simp: task_accepted_def cancel_request_def)
  then have "tbl_get t_id i (db_tasks (w_db w)) = Some task" "t_status task \<notin> set TASK_TERMINAL_STATES"
    and row: "db_tasks (w_db w') = tbl_put t_id (re_subject r) (db_tasks (w_db w))"
      "t_id (re_subject r) = t_id task" "t_status (re_subject r) = Cancelled"
    by (auto simp: task_accepted_def task_written_def cancel_request_def)
  moreover have "t_id task = i"
    using tbl_get_key [OF \<open>tbl_get t_id i (db_tasks (w_db w)) = Some task\<close>] .
  ultimately show "\<exists>t. tbl_get t_id i (db_tasks (w_db w')) = Some t \<and> t_status t = Cancelled"
    and "\<And>k. k \<noteq> i \<Longrightarrow> tbl_get t_id k (db_tasks (w_db w')) = tbl_get t_id k (db_tasks (w_db w))"
    and "\<And>t. tbl_get t_id i (db_tasks (w_db w)) = Some t \<Longrightarrow> t_status t \<noteq> Done"
    by (auto simp: tbl_get_put TASK_TERMINAL_STATES_def)
qed

end
