(* ===== verification/Ledger.thy ===== *)
theory Ledger
  imports StoreRecords "HOL-Library.Multiset"
begin

text \<open>
  Usage accounting and budget reservations: \<open>src/telemetry/ledger.ts\<close>, the ledger repository of
  \<open>src/storage/repos/index.ts\<close> and the closing of abandoned reservations in
  \<open>src/storage/reconcile.ts\<close>. The table is the list of its rows in insertion order; each operation
  runs in one write transaction, so an error leaves the table as it was. Clock and id factory are the
  arguments \<open>ts\<close> and \<open>nid\<close>; amounts are exact where the code has doubles.
\<close>

section \<open>Cost\<close>

definition UNKNOWN_COST :: usage where
  "UNKNOWN_COST = \<lparr>us_inputTokens = None, us_outputTokens = None, us_requests = 1, us_spendUsd = None,
     us_costBasis = CostUnknown\<rparr>"

record price_metadata =
  pm_inputPerToken :: "rat option"
  pm_outputPerToken :: "rat option"

record token_counts =
  tc_inputTokens :: "int option"
  tc_outputTokens :: "int option"
  tc_requests :: "int option"

definition isPositivePrice :: "rat option \<Rightarrow> bool" where
  "isPositivePrice value = (case value of None \<Rightarrow> False | Some v \<Rightarrow> v > 0)"

definition hasUsablePrice :: "price_metadata option \<Rightarrow> bool" where
  "hasUsablePrice price =
     (case price of None \<Rightarrow> False
      | Some p \<Rightarrow> isPositivePrice (pm_inputPerToken p) \<or> isPositivePrice (pm_outputPerToken p))"

definition priceOrZero :: "rat option \<Rightarrow> rat" where
  "priceOrZero value = (if isPositivePrice value then the value else 0)"

definition normaliseTokens :: "int option \<Rightarrow> nat option" where
  "normaliseTokens value = (case value of None \<Rightarrow> None | Some v \<Rightarrow> if v < 0 then None else Some (nat v))"

definition or_zero :: "nat option \<Rightarrow> nat" where
  "or_zero n = (case n of None \<Rightarrow> 0 | Some k \<Rightarrow> k)"

text \<open>The basis a caller may claim: a provider's charge or an estimate.\<close>

definition classifyCost ::
  "token_counts option \<Rightarrow> price_metadata option \<Rightarrow> rat option \<Rightarrow> cost_basis \<Rightarrow> usage"
where
  "classifyCost tokens price reportedSpendUsd basis =
     (let requests = (case tokens of None \<Rightarrow> 1 | Some t \<Rightarrow> (case tc_requests t of None \<Rightarrow> 1 | Some r \<Rightarrow> r));
          inputTokens = (case tokens of None \<Rightarrow> None | Some t \<Rightarrow> normaliseTokens (tc_inputTokens t));
          outputTokens = (case tokens of None \<Rightarrow> None | Some t \<Rightarrow> normaliseTokens (tc_outputTokens t));
          base = \<lparr>us_inputTokens = inputTokens, us_outputTokens = outputTokens, us_requests = requests,
            us_spendUsd = None, us_costBasis = CostUnknown\<rparr>
      in if (case reportedSpendUsd of None \<Rightarrow> False | Some reported \<Rightarrow> reported \<ge> 0)
         then base\<lparr>us_spendUsd := reportedSpendUsd, us_costBasis := basis\<rparr>
         else if \<not> hasUsablePrice price then base
         else if inputTokens = None \<and> outputTokens = None then base
         else base\<lparr>us_spendUsd := Some (of_nat (or_zero inputTokens) * priceOrZero (pm_inputPerToken (the price)) +
                of_nat (or_zero outputTokens) * priceOrZero (pm_outputPerToken (the price))),
              us_costBasis := basis\<rparr>)"

definition unknownUsage :: "int \<Rightarrow> usage" where
  "unknownUsage requests = UNKNOWN_COST\<lparr>us_requests := requests\<rparr>"

definition noUsage :: usage where
  "noUsage = \<lparr>us_inputTokens = Some 0, us_outputTokens = Some 0, us_requests = 0, us_spendUsd = Some 0,
     us_costBasis = CostKnown\<rparr>"

datatype usage_fault = UnknownWithFigure | FigureMissing | NegativeRequests | NegativeSpend | NoSuchReservation | AlreadyClosed

definition assertHonestUsage :: "usage \<Rightarrow> usage_fault option" where
  "assertHonestUsage us =
     (if us_costBasis us = CostUnknown \<and> us_spendUsd us \<noteq> None then Some UnknownWithFigure
      else if us_costBasis us \<noteq> CostUnknown \<and> us_spendUsd us = None then Some FigureMissing
      else if us_requests us < 0 then Some NegativeRequests
      else if (case us_spendUsd us of None \<Rightarrow> 0 | Some s \<Rightarrow> s) < 0 then Some NegativeSpend
      else None)"

section \<open>Rows and totals\<close>

datatype usage_channel = ChModel | ChJev

datatype budget_scope_kind = BsWorkflow | BsPhase | BsTask | BsJev

datatype ledger_entry_kind = EkReservation | EkSettlement | EkRelease | EkAbandonment

record ledger_scope =
  lg_workflowId :: string
  lg_phaseId :: "string option"
  lg_taskId :: "string option"
  lg_attemptId :: "string option"

record ledger_entry =
  le_id :: string
  le_createdAt :: iso_timestamp
  le_scope :: ledger_scope
  le_channel :: usage_channel
  le_entryKind :: ledger_entry_kind
  le_reservationId :: string
  le_sessionId :: string
  le_usage :: usage
  le_elapsedMs :: nat
  le_label :: "string option"
  le_reason :: "string option"

datatype scope_column = ColWorkflow | ColPhase | ColTask

text \<open>\<open>WHERE column = ?\<close>: a missing nid never equals.\<close>

definition in_column :: "scope_column \<Rightarrow> string \<Rightarrow> ledger_entry \<Rightarrow> bool" where
  "in_column col i e = (case col of
       ColWorkflow \<Rightarrow> lg_workflowId (le_scope e) = i
     | ColPhase \<Rightarrow> lg_phaseId (le_scope e) = Some i
     | ColTask \<Rightarrow> lg_taskId (le_scope e) = Some i)"

definition on_channel :: "usage_channel option \<Rightarrow> ledger_entry \<Rightarrow> bool" where
  "on_channel ch e = (case ch of None \<Rightarrow> True | Some c \<Rightarrow> le_channel e = c)"

definition forReservation :: "string \<Rightarrow> ledger_entry list \<Rightarrow> ledger_entry list" where
  "forReservation rid rows = filter (\<lambda>e. le_reservationId e = rid) rows"

text \<open>\<open>reservationId NOT IN (SELECT reservationId ... WHERE entryKind <> 'reservation')\<close>.\<close>

definition is_closed :: "ledger_entry list \<Rightarrow> string \<Rightarrow> bool" where
  "is_closed rows rid = list_ex (\<lambda>e. le_reservationId e = rid \<and> le_entryKind e \<noteq> EkReservation) rows"

definition is_open :: "ledger_entry list \<Rightarrow> ledger_entry \<Rightarrow> bool" where
  "is_open rows e = (le_entryKind e = EkReservation \<and> \<not> is_closed rows (le_reservationId e))"

definition openReservations :: "ledger_entry list \<Rightarrow> ledger_entry list" where
  "openReservations rows = sort_key (\<lambda>e. (le_createdAt e, le_id e)) (filter (is_open rows) rows)"

record ledger_totals =
  lt_requests :: int
  lt_tokens :: nat
  lt_spendUsd :: rat
  lt_elapsedMs :: nat
  lt_unknownCostRequests :: int
  lt_estimatedRequests :: int
  lt_estimatedSpendUsd :: rat
  lt_knownSpendUsd :: rat

definition tokensOf :: "usage \<Rightarrow> nat" where
  "tokensOf us = or_zero (us_inputTokens us) + or_zero (us_outputTokens us)"

definition spend_of :: "usage \<Rightarrow> rat" where
  "spend_of us = (case us_spendUsd us of None \<Rightarrow> 0 | Some s \<Rightarrow> s)"

definition when_basis :: "cost_basis \<Rightarrow> usage \<Rightarrow> 'a \<Rightarrow> 'a::zero" where
  "when_basis b us x = (if us_costBasis us = b then x else 0)"

definition sum_rows :: "ledger_entry list \<Rightarrow> ledger_totals" where
  "sum_rows es = \<lparr>lt_requests = sum_list (map (\<lambda>e. us_requests (le_usage e)) es),
     lt_tokens = sum_list (map (\<lambda>e. tokensOf (le_usage e)) es),
     lt_spendUsd = sum_list (map (\<lambda>e. spend_of (le_usage e)) es),
     lt_elapsedMs = sum_list (map le_elapsedMs es),
     lt_unknownCostRequests = sum_list (map (\<lambda>e. when_basis CostUnknown (le_usage e) (us_requests (le_usage e))) es),
     lt_estimatedRequests = sum_list (map (\<lambda>e. when_basis CostEstimated (le_usage e) (us_requests (le_usage e))) es),
     lt_estimatedSpendUsd = sum_list (map (\<lambda>e. when_basis CostEstimated (le_usage e) (spend_of (le_usage e))) es),
     lt_knownSpendUsd = sum_list (map (\<lambda>e. when_basis CostKnown (le_usage e) (spend_of (le_usage e))) es)\<rparr>"

definition is_committed :: "ledger_entry list \<Rightarrow> ledger_entry \<Rightarrow> bool" where
  "is_committed rows e = (le_entryKind e \<in> {EkSettlement, EkAbandonment} \<or> is_open rows e)"

definition committedTotals ::
  "scope_column \<Rightarrow> string \<Rightarrow> usage_channel option \<Rightarrow> ledger_entry list \<Rightarrow> ledger_totals" where
  "committedTotals col i ch rows =
     sum_rows (filter (\<lambda>e. in_column col i e \<and> on_channel ch e \<and> is_committed rows e) rows)"

definition openCount :: "scope_column \<Rightarrow> string \<Rightarrow> usage_channel option \<Rightarrow> ledger_entry list \<Rightarrow> nat" where
  "openCount col i ch rows = length (filter (\<lambda>e. in_column col i e \<and> on_channel ch e \<and> is_open rows e) rows)"

section \<open>The ledger\<close>

datatype budget_cap = CapSpendUsd | CapTokens | CapRequests | CapConcurrency | CapElapsedMs

definition CUMULATIVE_CAPS :: "budget_cap list" where
  "CUMULATIVE_CAPS = [CapSpendUsd, CapTokens, CapRequests, CapElapsedMs]"

definition isCumulativeCap :: "budget_cap \<Rightarrow> bool" where
  "isCumulativeCap cap \<longleftrightarrow> cap \<in> set CUMULATIVE_CAPS"

datatype ledger_error =
    BudgetExceeded budget_scope_kind budget_cap rat rat rat
  | UsageIntegrity usage_fault
  | LedgerConstraint

record budgets_config =
  bg_workflow :: budget
  bg_phase :: budget
  bg_task :: budget
  bg_jev :: budget

text \<open>The ledger object: its caps and session, and which ids the foreign keys resolve.\<close>

record ledger_env =
  ln_budgets :: budgets_config
  ln_sessionId :: string
  ln_known :: "ledger_scope \<Rightarrow> bool"

record reservation =
  rv_id :: string
  rv_entryId :: string
  rv_scope :: ledger_scope
  rv_channel :: usage_channel
  rv_estimate :: usage
  rv_reservedAt :: iso_timestamp
  rv_label :: "string option"

definition SCOPE_ORDER :: "budget_scope_kind list" where
  "SCOPE_ORDER = [BsWorkflow, BsPhase, BsTask]"

definition scopeKindsFor :: "usage_channel \<Rightarrow> budget_scope_kind list" where
  "scopeKindsFor channel = (if channel = ChJev then BsJev # SCOPE_ORDER else SCOPE_ORDER)"

definition scopeTarget :: "budget_scope_kind \<Rightarrow> ledger_scope \<Rightarrow> (scope_column \<times> string) option" where
  "scopeTarget kind scope = (case kind of
       BsWorkflow \<Rightarrow> Some (ColWorkflow, lg_workflowId scope)
     | BsJev \<Rightarrow> Some (ColWorkflow, lg_workflowId scope)
     | BsPhase \<Rightarrow> map_option (Pair ColPhase) (lg_phaseId scope)
     | BsTask \<Rightarrow> map_option (Pair ColTask) (lg_taskId scope))"

definition capsFor :: "budgets_config \<Rightarrow> budget_scope_kind \<Rightarrow> budget" where
  "capsFor budgets kind = (case kind of BsWorkflow \<Rightarrow> bg_workflow budgets | BsPhase \<Rightarrow> bg_phase budgets
     | BsTask \<Rightarrow> bg_task budgets | BsJev \<Rightarrow> bg_jev budgets)"

definition channel_filter :: "budget_scope_kind \<Rightarrow> usage_channel option" where
  "channel_filter kind = (if kind = BsJev then Some ChJev else None)"

text \<open>\<open>check\<close>: the error of a cap the request would exceed.\<close>

definition cap_breach ::
  "budget_scope_kind \<Rightarrow> budget_cap \<Rightarrow> rat option \<Rightarrow> rat \<Rightarrow> rat \<Rightarrow> ledger_error option" where
  "cap_breach kind cap limit committed requested =
     (case limit of None \<Rightarrow> None
      | Some l \<Rightarrow> if committed + requested > l then Some (BudgetExceeded kind cap l committed requested) else None)"

definition first_some :: "'a option list \<Rightarrow> 'a option" where
  "first_some xs = (case find (\<lambda>x. x \<noteq> None) xs of None \<Rightarrow> None | Some y \<Rightarrow> y)"

definition kind_breach ::
  "ledger_env \<Rightarrow> ledger_scope \<Rightarrow> usage \<Rightarrow> ledger_entry list \<Rightarrow> budget_scope_kind \<Rightarrow> ledger_error option" where
  "kind_breach env scope estimate rows kind =
     (case scopeTarget kind scope of
        None \<Rightarrow> None
      | Some (col, i) \<Rightarrow>
          let caps = capsFor (ln_budgets env) kind;
              totals = committedTotals col i (channel_filter kind) rows;
              open_now = openCount col i (channel_filter kind) rows
          in first_some
              [cap_breach kind CapSpendUsd (maxSpendUsd caps) (lt_spendUsd totals) (spend_of estimate),
               cap_breach kind CapTokens (map_option of_nat (maxTokens caps)) (of_nat (lt_tokens totals)) (of_nat (tokensOf estimate)),
               cap_breach kind CapRequests (map_option of_nat (maxRequests caps)) (of_int (lt_requests totals)) (of_int (us_requests estimate)),
               cap_breach kind CapConcurrency (map_option of_nat (maxConcurrency caps)) (of_nat open_now) 1,
               cap_breach kind CapElapsedMs (map_option of_nat (maxElapsedMs caps)) (of_nat (lt_elapsedMs totals)) 0])"

definition assertWithinCaps ::
  "ledger_env \<Rightarrow> ledger_scope \<Rightarrow> usage_channel \<Rightarrow> usage \<Rightarrow> ledger_entry list \<Rightarrow> ledger_error option" where
  "assertWithinCaps env scope channel estimate rows =
     first_some (map (kind_breach env scope estimate rows) (scopeKindsFor channel))"

definition assertOpen :: "string \<Rightarrow> ledger_entry list \<Rightarrow> ledger_error option" where
  "assertOpen rid rows =
     (let found = forReservation rid rows in
      if found = [] then Some (UsageIntegrity NoSuchReservation)
      else if list_ex (\<lambda>e. le_entryKind e \<noteq> EkReservation) found then Some (UsageIntegrity AlreadyClosed)
      else None)"

text \<open>
  \<open>insert\<close> against the table's constraints: the primary key, the foreign keys, the honest-cost check
  and the unique index on terminal rows.
\<close>

definition ledger_insert :: "ledger_env \<Rightarrow> ledger_entry \<Rightarrow> ledger_entry list \<Rightarrow> ledger_entry list option" where
  "ledger_insert env row rows =
     (if list_ex (\<lambda>e. le_id e = le_id row) rows \<or> \<not> ln_known env (le_scope row) \<or>
         assertHonestUsage (le_usage row) \<noteq> None \<or>
         le_entryKind row \<noteq> EkReservation \<and> is_closed rows (le_reservationId row)
      then None else Some (rows @ [row]))"

definition append_row :: "ledger_env \<Rightarrow> ledger_entry \<Rightarrow> ledger_entry list \<Rightarrow> ledger_error + ledger_entry list" where
  "append_row env row rows = (case ledger_insert env row rows of None \<Rightarrow> Inl LedgerConstraint | Some rows' \<Rightarrow> Inr rows')"

definition reserve ::
  "ledger_env \<Rightarrow> iso_timestamp \<Rightarrow> string \<Rightarrow> ledger_scope \<Rightarrow> usage_channel \<Rightarrow> usage \<Rightarrow> string option \<Rightarrow>
   ledger_entry list \<Rightarrow> ledger_error + reservation \<times> ledger_entry list"
where
  "reserve env ts nid scope channel estimate label rows =
     (case assertHonestUsage estimate of Some f \<Rightarrow> Inl (UsageIntegrity f)
      | None \<Rightarrow> (case assertWithinCaps env scope channel estimate rows of Some e \<Rightarrow> Inl e
      | None \<Rightarrow>
          map_sum (\<lambda>e. e) (Pair \<lparr>rv_id = nid, rv_entryId = nid, rv_scope = scope, rv_channel = channel,
              rv_estimate = estimate, rv_reservedAt = ts, rv_label = label\<rparr>)
            (append_row env \<lparr>le_id = nid, le_createdAt = ts, le_scope = scope, le_channel = channel,
               le_entryKind = EkReservation, le_reservationId = nid, le_sessionId = ln_sessionId env,
               le_usage = estimate, le_elapsedMs = 0, le_label = label, le_reason = None\<rparr> rows)))"

definition close_row ::
  "ledger_env \<Rightarrow> iso_timestamp \<Rightarrow> string \<Rightarrow> reservation \<Rightarrow> ledger_entry_kind \<Rightarrow> usage \<Rightarrow> nat \<Rightarrow> string option \<Rightarrow> ledger_entry" where
  "close_row env ts nid r kind us elapsed reason =
     \<lparr>le_id = nid, le_createdAt = ts, le_scope = rv_scope r, le_channel = rv_channel r, le_entryKind = kind,
      le_reservationId = rv_id r, le_sessionId = ln_sessionId env, le_usage = us, le_elapsedMs = elapsed,
      le_label = rv_label r, le_reason = reason\<rparr>"

definition settle ::
  "ledger_env \<Rightarrow> iso_timestamp \<Rightarrow> string \<Rightarrow> reservation \<Rightarrow> usage \<Rightarrow> nat \<Rightarrow> string option \<Rightarrow>
   ledger_entry list \<Rightarrow> ledger_error + ledger_entry list"
where
  "settle env ts nid r actual elapsed reason rows =
     (case assertHonestUsage actual of Some f \<Rightarrow> Inl (UsageIntegrity f)
      | None \<Rightarrow> (case assertOpen (rv_id r) rows of Some e \<Rightarrow> Inl e
      | None \<Rightarrow> append_row env (close_row env ts nid r EkSettlement actual elapsed reason) rows))"

definition release_reservation ::
  "ledger_env \<Rightarrow> iso_timestamp \<Rightarrow> string \<Rightarrow> reservation \<Rightarrow> string \<Rightarrow> ledger_entry list \<Rightarrow> ledger_error + ledger_entry list"
where
  "release_reservation env ts nid r reason rows =
     (case assertOpen (rv_id r) rows of Some e \<Rightarrow> Inl e
      | None \<Rightarrow> append_row env (close_row env ts nid r EkRelease noUsage 0 (Some reason)) rows)"

text \<open>
  \<open>withReservation\<close>: reserve, run, then settle, or release when \<open>run\<close> throws. While it runs the table
  may change; \<open>run\<close> returns what it used, or the text of its error, and the table then. \<open>Inr (Inl _)\<close>
  is the error of \<open>run\<close>, thrown on after the release.
\<close>

definition withReservation ::
  "ledger_env \<Rightarrow> iso_timestamp \<Rightarrow> string \<times> string \<Rightarrow> ledger_scope \<Rightarrow> usage_channel \<Rightarrow> usage \<Rightarrow> string option \<Rightarrow>
   (reservation \<Rightarrow> ledger_entry list \<Rightarrow> (string + usage \<times> nat) \<times> ledger_entry list) \<Rightarrow>
   ledger_entry list \<Rightarrow> (ledger_error + (string + unit)) \<times> ledger_entry list"
where
  "withReservation env ts ids scope channel estimate label run rows =
     (case reserve env ts (fst ids) scope channel estimate label rows of
        Inl e \<Rightarrow> (Inl e, rows)
      | Inr (r, rows1) \<Rightarrow>
          (case run r rows1 of
             (Inl msg, rows2) \<Rightarrow>
               (case release_reservation env ts (snd ids) r msg rows2 of
                  Inl e \<Rightarrow> (Inl e, rows2) | Inr rows3 \<Rightarrow> (Inr (Inl msg), rows3))
           | (Inr (us, elapsed), rows2) \<Rightarrow>
               (case settle env ts (snd ids) r us elapsed None rows2 of
                  Inl e \<Rightarrow> (Inl e, rows2) | Inr rows3 \<Rightarrow> (Inr (Inr ()), rows3))))"

section \<open>Status\<close>

record cap_status =
  cs_limit :: "rat option"
  cs_used :: rat
  cs_remaining :: "rat option"

definition remaining :: "rat option \<Rightarrow> rat \<Rightarrow> cap_status" where
  "remaining limit used = \<lparr>cs_limit = limit, cs_used = used,
     cs_remaining = map_option (\<lambda>l. max 0 (l - used)) limit\<rparr>"

record scope_status =
  sx_scope :: budget_scope_kind
  sx_id :: string
  sx_spendUsd :: cap_status
  sx_tokens :: cap_status
  sx_requests :: cap_status
  sx_concurrency :: cap_status
  sx_elapsedMs :: cap_status
  sx_unknownCostRequests :: int
  sx_estimatedSpendUsd :: rat
  sx_knownSpendUsd :: rat
  sx_hasUnknownCost :: bool

definition statusFor ::
  "ledger_env \<Rightarrow> ledger_entry list \<Rightarrow> budget_scope_kind \<Rightarrow> scope_column \<times> string \<Rightarrow> usage_channel option \<Rightarrow> scope_status" where
  "statusFor env rows kind target channel =
     (let caps = capsFor (ln_budgets env) kind;
          totals = committedTotals (fst target) (snd target) channel rows;
          open_now = openCount (fst target) (snd target) channel rows
      in \<lparr>sx_scope = kind, sx_id = snd target,
          sx_spendUsd = remaining (maxSpendUsd caps) (lt_spendUsd totals),
          sx_tokens = remaining (map_option of_nat (maxTokens caps)) (of_nat (lt_tokens totals)),
          sx_requests = remaining (map_option of_nat (maxRequests caps)) (of_int (lt_requests totals)),
          sx_concurrency = remaining (map_option of_nat (maxConcurrency caps)) (of_nat open_now),
          sx_elapsedMs = remaining (map_option of_nat (maxElapsedMs caps)) (of_nat (lt_elapsedMs totals)),
          sx_unknownCostRequests = lt_unknownCostRequests totals,
          sx_estimatedSpendUsd = lt_estimatedSpendUsd totals, sx_knownSpendUsd = lt_knownSpendUsd totals,
          sx_hasUnknownCost = (lt_unknownCostRequests totals > 0)\<rparr>)"

definition ledger_status :: "ledger_env \<Rightarrow> ledger_entry list \<Rightarrow> ledger_scope \<Rightarrow> usage_channel \<Rightarrow> scope_status list \<times> bool" where
  "ledger_status env rows scope channel =
     (let scopes = List.map_filter (\<lambda>kind. map_option (\<lambda>target. statusFor env rows kind target (channel_filter kind))
            (scopeTarget kind scope)) (scopeKindsFor channel)
      in (scopes, list_ex sx_hasUnknownCost scopes))"

definition scopeStatus :: "ledger_env \<Rightarrow> ledger_entry list \<Rightarrow> budget_scope_kind \<Rightarrow> ledger_scope \<Rightarrow> scope_status option" where
  "scopeStatus env rows kind scope =
     map_option (\<lambda>target. statusFor env rows kind target (channel_filter kind)) (scopeTarget kind scope)"

section \<open>Closing what a dead session left\<close>

definition LEDGER_ABANDONED_REASON :: string where
  "LEDGER_ABANDONED_REASON = ''reservation had no settlement when the store was reopened''"

definition abandonment_row :: "iso_timestamp \<Rightarrow> string \<Rightarrow> ledger_entry \<Rightarrow> ledger_entry" where
  "abandonment_row ts nid op = op\<lparr>le_id := nid, le_createdAt := ts, le_entryKind := EkAbandonment,
     le_reason := Some LEDGER_ABANDONED_REASON\<rparr>"

text \<open>The loop over the open reservations read at the start; an id is drawn for each row closed.\<close>

fun close_abandoned ::
  "ledger_env \<Rightarrow> iso_timestamp \<Rightarrow> string option \<Rightarrow> (nat \<Rightarrow> string) \<Rightarrow> nat \<Rightarrow> ledger_entry list \<Rightarrow> ledger_entry list \<Rightarrow>
   ledger_error + ledger_entry list \<times> ledger_entry list"
where
  "close_abandoned env ts keep ids n [] rows = Inr ([], rows)"
| "close_abandoned env ts keep ids n (op # ops) rows =
     (if keep = Some (le_sessionId op) then close_abandoned env ts keep ids n ops rows
      else case append_row env (abandonment_row ts (ids n) op) rows of
          Inl e \<Rightarrow> Inl e
        | Inr rows' \<Rightarrow> map_sum (\<lambda>e. e) (\<lambda>(closed, final). (op # closed, final))
            (close_abandoned env ts keep ids (Suc n) ops rows'))"

definition reconcileOpenReservations ::
  "ledger_env \<Rightarrow> iso_timestamp \<Rightarrow> string option \<Rightarrow> (nat \<Rightarrow> string) \<Rightarrow> ledger_entry list \<Rightarrow>
   ledger_error + ledger_entry list \<times> ledger_entry list"
where
  "reconcileOpenReservations env ts keep ids rows = close_abandoned env ts keep ids 0 (openReservations rows) rows"

definition reconcileAbandonedReservations ::
  "ledger_env \<Rightarrow> iso_timestamp \<Rightarrow> string option \<Rightarrow> (nat \<Rightarrow> string) \<Rightarrow> ledger_entry list \<Rightarrow>
   ledger_error + ledger_entry list \<times> ledger_entry list"
where
  "reconcileAbandonedReservations env ts keep ids rows =
     reconcileOpenReservations env ts (Some (case keep of None \<Rightarrow> ln_sessionId env | Some s \<Rightarrow> s)) ids rows"

section \<open>Well-formed tables\<close>

definition is_terminal :: "ledger_entry \<Rightarrow> bool" where
  "is_terminal e \<longleftrightarrow> le_entryKind e \<noteq> EkReservation"

text \<open>
  The primary key, a reservation names itself, every row names a reservation of the table, at most one
  terminal row per reservation, honest amounts.
\<close>

definition ledger_ok :: "ledger_entry list \<Rightarrow> bool" where
  "ledger_ok rows \<longleftrightarrow> distinct (map le_id rows) \<and>
     (\<forall>e \<in> set rows. \<not> is_terminal e \<longrightarrow> le_reservationId e = le_id e) \<and>
     (\<forall>e \<in> set rows. \<exists>r \<in> set rows. \<not> is_terminal r \<and> le_id r = le_reservationId e) \<and>
     distinct (map le_reservationId (filter is_terminal rows)) \<and>
     (\<forall>e \<in> set rows. assertHonestUsage (le_usage e) = None)"

lemma ledger_ok_Nil [simp]: "ledger_ok []"
  by (simp add: ledger_ok_def)

lemma is_closed_iff: "is_closed rows rid \<longleftrightarrow> (\<exists>e \<in> set rows. is_terminal e \<and> le_reservationId e = rid)"
  by (auto simp: is_closed_def is_terminal_def list_ex_iff)

lemma is_open_iff: "is_open rows e \<longleftrightarrow> \<not> is_terminal e \<and> \<not> is_closed rows (le_reservationId e)"
  by (simp add: is_open_def is_terminal_def)

lemma is_closed_append: "is_closed (rows @ [row]) rid \<longleftrightarrow> is_closed rows rid \<or> is_terminal row \<and> le_reservationId row = rid"
  by (auto simp: is_closed_iff)

lemma ledger_insert_Some:
  "ledger_insert env row rows = Some rows' \<longleftrightarrow> rows' = rows @ [row] \<and> le_id row \<notin> le_id ` set rows \<and>
     ln_known env (le_scope row) \<and> assertHonestUsage (le_usage row) = None \<and>
     (is_terminal row \<longrightarrow> \<not> is_closed rows (le_reservationId row))"
proof -
  have "list_ex (\<lambda>e. le_id e = le_id row) rows \<longleftrightarrow> le_id row \<in> le_id ` set rows"
    unfolding list_ex_iff image_iff by metis
  then show ?thesis
    by (auto simp: ledger_insert_def is_terminal_def)
qed

lemma append_row_Inr: "append_row env row rows = Inr rows' \<longleftrightarrow> ledger_insert env row rows = Some rows'"
  by (simp add: append_row_def split: option.split)

lemma fresh_not_closed:
  assumes "ledger_ok rows" and "nid \<notin> le_id ` set rows"
  shows "\<not> is_closed rows nid"
  using assms unfolding ledger_ok_def is_closed_iff by (metis imageI)

lemma ledger_ok_add_reservation:
  assumes "ledger_ok rows" and "ledger_insert env row rows = Some rows'"
    and "\<not> is_terminal row" and "le_reservationId row = le_id row"
  shows "ledger_ok rows'"
  using assms by (auto simp: ledger_ok_def ledger_insert_Some)

lemma ledger_ok_add_terminal:
  assumes "ledger_ok rows" and "ledger_insert env row rows = Some rows'"
    and "is_terminal row" and "forReservation (le_reservationId row) rows \<noteq> []"
  shows "ledger_ok rows'"
proof -
  obtain e where e: "e \<in> set rows" "le_reservationId e = le_reservationId row"
    using assms(4) by (auto simp: forReservation_def filter_empty_conv)
  then obtain r where "r \<in> set rows" "\<not> is_terminal r" "le_id r = le_reservationId row"
    using assms(1) by (auto simp: ledger_ok_def)
  then show ?thesis
    using assms(1-3) by (auto simp: ledger_ok_def ledger_insert_Some is_closed_iff)
qed

section \<open>What a reservation leaves\<close>

lemma map_sum_eq_Inr: "map_sum f g x = Inr y \<longleftrightarrow> (\<exists>z. x = Inr z \<and> y = g z)"
  by (cases x) auto

lemma reserve_Inr:
  assumes "reserve env ts nid scope channel estimate label rows = Inr (r, rows')"
  obtains row where "ledger_insert env row rows = Some rows'" "\<not> is_terminal row" "le_id row = nid"
    "le_reservationId row = nid" "le_scope row = scope" "le_channel row = channel" "le_usage row = estimate"
    "le_elapsedMs row = 0" "le_sessionId row = ln_sessionId env" "rv_id r = nid"
    "assertWithinCaps env scope channel estimate rows = None"
  using assms
  by (auto simp: reserve_def map_sum_eq_Inr append_row_Inr is_terminal_def split: option.splits)

lemma is_open_add_reservation:
  assumes "\<not> is_terminal row"
  shows "is_open (rows @ [row]) e \<longleftrightarrow> is_open rows e"
  using assms by (simp add: is_open_iff is_closed_append)

lemma is_open_new_reservation:
  assumes "ledger_ok rows" and "le_id row \<notin> le_id ` set rows" and "\<not> is_terminal row" and "le_reservationId row = le_id row"
  shows "is_open (rows @ [row]) row"
  using assms fresh_not_closed [OF assms(1,2)] by (simp add: is_open_iff is_closed_append)

lemma committed_kinds: "le_entryKind e \<in> {EkSettlement, EkAbandonment} \<Longrightarrow> is_terminal e"
  by (auto simp: is_terminal_def)

lemma committed_add_reservation:
  assumes "ledger_ok rows" and "le_id row \<notin> le_id ` set rows" and "\<not> is_terminal row" and "le_reservationId row = le_id row"
  shows "filter (\<lambda>e. in_column col i e \<and> on_channel ch e \<and> is_committed (rows @ [row]) e) (rows @ [row]) =
     filter (\<lambda>e. in_column col i e \<and> on_channel ch e \<and> is_committed rows e) rows @
     (if in_column col i row \<and> on_channel ch row then [row] else [])"
  using is_open_new_reservation [OF assms] is_open_add_reservation [OF assms(3)]
  by (auto simp: is_committed_def intro!: filter_cong)

lemma open_add_reservation:
  assumes "ledger_ok rows" and "le_id row \<notin> le_id ` set rows" and "\<not> is_terminal row" and "le_reservationId row = le_id row"
  shows "openCount col i ch (rows @ [row]) =
     openCount col i ch rows + (if in_column col i row \<and> on_channel ch row then 1 else 0)"
  using is_open_new_reservation [OF assms] is_open_add_reservation [OF assms(3)]
  by (auto simp: openCount_def intro!: arg_cong [where f = length] filter_cong)

definition under :: "rat option \<Rightarrow> rat \<Rightarrow> bool" where
  "under limit used \<longleftrightarrow> (case limit of None \<Rightarrow> True | Some l \<Rightarrow> used \<le> l)"

text \<open>Every cap of a scope kind holds on a table.\<close>

definition caps_hold :: "ledger_env \<Rightarrow> ledger_entry list \<Rightarrow> budget_scope_kind \<Rightarrow> scope_column \<times> string \<Rightarrow> bool" where
  "caps_hold env rows kind target \<longleftrightarrow>
     (let caps = capsFor (ln_budgets env) kind;
          totals = committedTotals (fst target) (snd target) (channel_filter kind) rows in
      under (maxSpendUsd caps) (lt_spendUsd totals) \<and>
      under (map_option of_nat (maxTokens caps)) (of_nat (lt_tokens totals)) \<and>
      under (map_option of_nat (maxRequests caps)) (of_int (lt_requests totals)) \<and>
      under (map_option of_nat (maxConcurrency caps))
        (of_nat (openCount (fst target) (snd target) (channel_filter kind) rows)) \<and>
      under (map_option of_nat (maxElapsedMs caps)) (of_nat (lt_elapsedMs totals)))"

lemma cap_breach_None: "cap_breach kind cap limit c q = None \<longleftrightarrow> under limit (c + q)"
  by (auto simp: cap_breach_def under_def split: option.splits)

lemma first_some_None: "first_some xs = None \<longleftrightarrow> list_all (\<lambda>x. x = None) xs"
  by (auto simp: first_some_def find_None_iff list_all_iff split: option.splits dest: find_Some_D)

lemma scopeTarget_column:
  "scopeTarget kind scope = Some (col, i) \<Longrightarrow> le_scope row = scope \<Longrightarrow> in_column col i row"
  by (cases kind) (auto simp: scopeTarget_def in_column_def)

lemma scopeKinds_channel:
  "kind \<in> set (scopeKindsFor channel) \<Longrightarrow> le_channel row = channel \<Longrightarrow> on_channel (channel_filter kind) row"
  by (cases kind; cases channel) (auto simp: scopeKindsFor_def SCOPE_ORDER_def channel_filter_def on_channel_def)

lemma within_caps_after:
  assumes ok: "ledger_ok rows" and new: "le_id row \<notin> le_id ` set rows" "\<not> is_terminal row" "le_reservationId row = le_id row"
    and row: "le_scope row = scope" "le_channel row = channel" "le_usage row = estimate" "le_elapsedMs row = 0"
    and caps: "assertWithinCaps env scope channel estimate rows = None"
    and kind: "kind \<in> set (scopeKindsFor channel)" "scopeTarget kind scope = Some target"
  shows "caps_hold env (rows @ [row]) kind target"
proof -
  obtain col i where target: "target = (col, i)" by (cases target)
  have here: "in_column col i row" "on_channel (channel_filter kind) row"
    using scopeTarget_column kind(2) row(1) scopeKinds_channel [OF kind(1) row(2)] target by auto
  let ?es = "filter (\<lambda>e. in_column col i e \<and> on_channel (channel_filter kind) e \<and> is_committed rows e) rows"
  have totals: "committedTotals col i (channel_filter kind) (rows @ [row]) = sum_rows (?es @ [row])"
    unfolding committedTotals_def committed_add_reservation [OF ok new] using here by simp
  have "kind_breach env scope estimate rows kind = None"
    using caps kind(1) by (auto simp: assertWithinCaps_def first_some_None list_all_iff)
  then show ?thesis
    unfolding caps_hold_def target fst_conv snd_conv totals
    by (simp add: kind_breach_def kind(2) target first_some_None cap_breach_None Let_def
        open_add_reservation [OF ok new] here sum_rows_def committedTotals_def row add.commute [of 1])
qed

lemma granted_caps:
  assumes "ledger_ok rows" and "reserve env ts nid scope channel estimate label rows = Inr (r, rows')"
  obtains row where "rows' = rows @ [row]" "ledger_ok rows'" "le_id row \<notin> le_id ` set rows" "\<not> is_terminal row"
    "le_reservationId row = le_id row" "le_scope row = scope" "le_channel row = channel" "is_open rows' row"
    "le_reservationId row = rv_id r" "le_usage row = estimate"
    "\<And>kind target. kind \<in> set (scopeKindsFor channel) \<Longrightarrow> scopeTarget kind scope = Some target \<Longrightarrow>
       caps_hold env rows' kind target"
proof -
  from reserve_Inr [OF assms(2)] obtain row where
    ins: "ledger_insert env row rows = Some rows'" and row: "\<not> is_terminal row" "le_id row = nid"
      "le_reservationId row = nid" "le_scope row = scope" "le_channel row = channel" "le_usage row = estimate"
      "le_elapsedMs row = 0" "rv_id r = nid"
    and caps: "assertWithinCaps env scope channel estimate rows = None" by metis
  have rows': "rows' = rows @ [row]" and fresh: "le_id row \<notin> le_id ` set rows"
    using ins by (simp_all add: ledger_insert_Some)
  have "le_reservationId row = le_id row" using row by simp
  note new = fresh row(1) this
  show ?thesis
    using that [OF rows' ledger_ok_add_reservation [OF assms(1) ins row(1) new(3)] new row(4,5)]
      is_open_new_reservation [OF assms(1) new] within_caps_after [OF assms(1) new row(4-7) caps] row rows' by simp
qed

text \<open>C34. A reservation that is granted fits every cap of every scope it draws on: on the table it leaves,
  which counts the estimate and the reservation itself, spend, tokens, requests, concurrency and
  elapsed time of the workflow, and of the phase, the task and the Jev channel where they apply, are
  within their limits; the new row is open and the table stays well formed.\<close>

theorem granted_reservation_fits_every_cap:
  assumes "ledger_ok rows" and "reserve env ts nid scope channel estimate label rows = Inr (r, rows')"
  shows "ledger_ok rows' \<and>
     list_all (\<lambda>kind. case scopeTarget kind scope of None \<Rightarrow> True | Some target \<Rightarrow> caps_hold env rows' kind target)
       (scopeKindsFor channel) \<and>
     (\<exists>row. rows' = rows @ [row] \<and> is_open rows' row \<and> le_reservationId row = rv_id r \<and> le_usage row = estimate)"
proof -
  from granted_caps [OF assms] obtain row where row: "rows' = rows @ [row]" "ledger_ok rows'" "is_open rows' row"
      "le_reservationId row = rv_id r" "le_usage row = estimate"
    and caps: "\<And>kind target. kind \<in> set (scopeKindsFor channel) \<Longrightarrow> scopeTarget kind scope = Some target \<Longrightarrow>
       caps_hold env rows' kind target" by metis
  have "list_all (\<lambda>kind. case scopeTarget kind scope of None \<Rightarrow> True | Some target \<Rightarrow> caps_hold env rows' kind target)
      (scopeKindsFor channel)"
    using caps by (simp add: list_all_iff split: option.split)
  with row show ?thesis by blast
qed

section \<open>Closing a reservation\<close>

lemma assertOpen_None:
  "assertOpen rid rows = None \<longleftrightarrow> forReservation rid rows \<noteq> [] \<and> \<not> is_closed rows rid"
  by (auto simp: assertOpen_def Let_def is_closed_def forReservation_def list_ex_iff filter_empty_conv)

lemma settle_Inr:
  assumes "settle env ts nid r actual elapsed reason rows = Inr rows'"
  shows "ledger_insert env (close_row env ts nid r EkSettlement actual elapsed reason) rows = Some rows' \<and>
     forReservation (rv_id r) rows \<noteq> []"
  using assms by (auto simp: settle_def append_row_Inr assertOpen_None split: option.splits)

lemma release_Inr:
  assumes "release_reservation env ts nid r reason rows = Inr rows'"
  shows "ledger_insert env (close_row env ts nid r EkRelease noUsage 0 (Some reason)) rows = Some rows' \<and>
     forReservation (rv_id r) rows \<noteq> []"
  using assms by (auto simp: release_reservation_def append_row_Inr assertOpen_None split: option.splits)

lemma close_row_sel [simp]:
  "le_reservationId (close_row env ts nid r kind us elapsed reason) = rv_id r"
  "le_entryKind (close_row env ts nid r kind us elapsed reason) = kind"
  by (simp_all add: close_row_def)

lemma is_open_add_terminal:
  assumes "is_terminal row"
  shows "is_open (rows @ [row]) e \<longleftrightarrow> is_open rows e \<and> le_reservationId e \<noteq> le_reservationId row"
  using assms by (auto simp: is_open_iff is_closed_append)

lemma open_rows_add_terminal:
  assumes "is_terminal row"
  shows "filter (\<lambda>e. P e \<and> is_open (rows @ [row]) e) (rows @ [row]) =
     filter (\<lambda>e. le_reservationId e \<noteq> le_reservationId row) (filter (\<lambda>e. P e \<and> is_open rows e) rows)"
proof -
  have "\<not> is_open (rows @ [row]) row"
    using assms by (simp add: is_open_iff)
  then show ?thesis
    using is_open_add_terminal [OF assms, of rows] by (auto simp: filter_filter intro: filter_cong)
qed

lemma open_add_terminal:
  assumes "is_terminal row"
  shows "openCount col i ch (rows @ [row]) \<le> openCount col i ch rows"
  using open_rows_add_terminal [OF assms, of "\<lambda>e. in_column col i e \<and> on_channel ch e" rows]
  by (simp add: openCount_def conj_assoc del: filter_append filter_filter)

section \<open>Abandoned reservations\<close>

lemma close_abandoned_Cons_Inr:
  assumes "close_abandoned env ts keep ids n (op # ops) rows = Inr (gone, final)"
  shows "if keep = Some (le_sessionId op) then close_abandoned env ts keep ids n ops rows = Inr (gone, final)
    else \<exists>rows' rest. ledger_insert env (abandonment_row ts (ids n) op) rows = Some rows' \<and>
      close_abandoned env ts keep ids (Suc n) ops rows' = Inr (rest, final) \<and> gone = op # rest"
  using assms by (auto simp: append_row_Inr map_sum_eq_Inr split: if_splits sum.splits)

lemma abandonment_row_sel [simp]:
  "le_reservationId (abandonment_row ts nid op) = le_reservationId op" "le_usage (abandonment_row ts nid op) = le_usage op"
  "le_elapsedMs (abandonment_row ts nid op) = le_elapsedMs op" "le_entryKind (abandonment_row ts nid op) = EkAbandonment"
  "in_column col i (abandonment_row ts nid op) = in_column col i op" "on_channel ch (abandonment_row ts nid op) = on_channel ch op"
  "is_terminal (abandonment_row ts nid op)"
  by (simp_all add: abandonment_row_def in_column_def on_channel_def is_terminal_def split: scope_column.split option.split)

lemma open_unique:
  assumes "ledger_ok rows" and "e \<in> set rows" "op \<in> set rows" and "is_open rows e" "is_open rows op"
  shows "le_reservationId e = le_reservationId op \<longleftrightarrow> e = op"
proof
  assume "le_reservationId e = le_reservationId op"
  with assms have "le_id e = le_id op" by (simp add: ledger_ok_def is_open_iff)
  with assms(1-3) show "e = op" by (simp add: ledger_ok_def inj_on_def distinct_map)
qed simp

definition amounts :: "ledger_entry \<Rightarrow> usage \<times> nat" where
  "amounts e = (le_usage e, le_elapsedMs e)"

lemma sum_rows_amounts:
  assumes "mset (map amounts xs) = mset (map amounts ys)"
  shows "sum_rows xs = sum_rows ys"
proof -
  have sum: "sum_list (map (\<lambda>e. f (amounts e)) xs) = sum_list (map (\<lambda>e. f (amounts e)) ys)"
    for f :: "usage \<times> nat \<Rightarrow> 'b::comm_monoid_add"
  proof -
    have "sum_list (map f (map amounts xs)) = sum_list (map f (map amounts ys))"
      using assms by (metis mset_map sum_mset_sum_list)
    then show ?thesis by (simp add: comp_def)
  qed
  show ?thesis
    unfolding sum_rows_def
    using sum [of "\<lambda>a. us_requests (fst a)"] sum [of "\<lambda>a. tokensOf (fst a)"] sum [of "\<lambda>a. spend_of (fst a)"]
      sum [of snd] sum [of "\<lambda>a. when_basis CostUnknown (fst a) (us_requests (fst a))"]
      sum [of "\<lambda>a. when_basis CostEstimated (fst a) (us_requests (fst a))"]
      sum [of "\<lambda>a. when_basis CostEstimated (fst a) (spend_of (fst a))"]
      sum [of "\<lambda>a. when_basis CostKnown (fst a) (spend_of (fst a))"]
    by (simp add: amounts_def)
qed

lemma filter_but_one:
  assumes "distinct xs" and "op \<in> set xs" and "P op"
  shows "mset (filter P xs) = add_mset op (mset (filter (\<lambda>e. P e \<and> e \<noteq> op) xs))"
proof -
  obtain ys zs where xs: "xs = ys @ op # zs" "op \<notin> set ys" using split_list_first [OF assms(2)] by blast
  then have "op \<notin> set zs" using assms(1) by simp
  then have "filter (\<lambda>e. P e \<and> e \<noteq> op) ys = filter P ys" "filter (\<lambda>e. P e \<and> e \<noteq> op) zs = filter P zs"
    using xs(2) by (auto intro: filter_cong)
  then show ?thesis
    using assms(3) by (simp add: xs(1))
qed

text \<open>Abandoning one open reservation moves its amounts from one row to the other.\<close>

lemma abandon_keeps_totals:
  assumes ok: "ledger_ok rows" and op: "op \<in> set rows" "is_open rows op"
  shows "committedTotals col i ch (rows @ [abandonment_row ts nid op]) = committedTotals col i ch rows"
proof -
  let ?row = "abandonment_row ts nid op"
  let ?P = "\<lambda>e. in_column col i e \<and> on_channel ch e \<and> is_committed rows e"
  have dist: "distinct rows" using ok by (simp add: ledger_ok_def distinct_map)
  have committed: "is_committed (rows @ [?row]) e \<longleftrightarrow> is_committed rows e \<and> e \<noteq> op" if "e \<in> set rows" for e
    using open_unique [OF ok that op(1) _ op(2)] op(2) is_open_add_terminal [of ?row rows e]
    by (auto simp: is_committed_def is_open_iff is_terminal_def)
  have new: "is_committed (rows @ [?row]) ?row" by (simp add: is_committed_def)
  have old: "filter (\<lambda>e. in_column col i e \<and> on_channel ch e \<and> is_committed (rows @ [?row]) e) rows =
      filter (\<lambda>e. ?P e \<and> e \<noteq> op) rows"
    by (rule filter_cong) (auto simp: committed)
  have here: "is_committed rows op" using op(2) by (simp add: is_committed_def)
  show ?thesis
  proof (cases "?P op")
    case True
    then show ?thesis
      unfolding committedTotals_def using filter_but_one [of rows op ?P, OF dist op(1) True] new old
      by (intro sum_rows_amounts) (simp add: amounts_def del: mset_filter)
  next
    case False
    then have "filter (\<lambda>e. ?P e \<and> e \<noteq> op) rows = filter ?P rows"
      by (auto intro: filter_cong)
    then show ?thesis
      unfolding committedTotals_def using False here old by auto
  qed
qed

lemma abandon_open_rows:
  assumes "ledger_ok rows" and "op \<in> set rows" "is_open rows op"
  shows "filter (is_open (rows @ [abandonment_row ts nid op])) (rows @ [abandonment_row ts nid op]) =
     filter (\<lambda>e. e \<noteq> op) (filter (is_open rows) rows)"
proof -
  have "filter (\<lambda>e. le_reservationId e \<noteq> le_reservationId op) (filter (is_open rows) rows) =
      filter (\<lambda>e. e \<noteq> op) (filter (is_open rows) rows)"
    by (rule filter_cong) (use open_unique [OF assms(1) _ assms(2) _ assms(3)] in auto)
  then show ?thesis
    using open_rows_add_terminal [of "abandonment_row ts nid op" "\<lambda>_. True" rows] by (simp del: filter_append)
qed

lemma close_abandoned_effect:
  assumes "close_abandoned env ts keep ids n ops rows = Inr (gone, final)"
    and "ledger_ok rows" and "distinct ops" and "set ops \<subseteq> set (filter (is_open rows) rows)"
  shows "ledger_ok final \<and> gone = filter (\<lambda>e. keep \<noteq> Some (le_sessionId e)) ops \<and>
     (\<forall>col i ch. committedTotals col i ch final = committedTotals col i ch rows) \<and>
     filter (is_open final) final = filter (\<lambda>e. e \<notin> set gone) (filter (is_open rows) rows)"
  using assms
proof (induction ops arbitrary: n rows gone)
  case (Cons op ops)
  note step = close_abandoned_Cons_Inr [OF Cons.prems(1)]
  have op: "op \<in> set rows" "is_open rows op" using Cons.prems(4) by auto
  show ?case
  proof (cases "keep = Some (le_sessionId op)")
    case True
    with step Cons.prems show ?thesis using Cons.IH [of n rows gone] by simp
  next
    case False
    then obtain rows' rest where ins: "ledger_insert env (abandonment_row ts (ids n) op) rows = Some rows'"
      and rest: "close_abandoned env ts keep ids (Suc n) ops rows' = Inr (rest, final)" "gone = op # rest"
      using step by auto
    have rows': "rows' = rows @ [abandonment_row ts (ids n) op]"
      using ins by (simp add: ledger_insert_Some)
    have "forReservation (le_reservationId op) rows \<noteq> []"
      using op(1) by (auto simp: forReservation_def filter_empty_conv)
    then have ok: "ledger_ok rows'"
      using ledger_ok_add_terminal [OF Cons.prems(2) ins] by simp
    have opened: "filter (is_open rows') rows' = filter (\<lambda>e. e \<noteq> op) (filter (is_open rows) rows)"
      using abandon_open_rows [OF Cons.prems(2) op] by (simp only: rows')
    have "set ops \<subseteq> set (filter (is_open rows') rows')"
      using Cons.prems(3,4) unfolding opened by auto
    from Cons.IH [OF rest(1) ok _ this] Cons.prems(3) have
      "ledger_ok final" and gone: "rest = filter (\<lambda>e. keep \<noteq> Some (le_sessionId e)) ops"
      and totals: "\<And>col i ch. committedTotals col i ch final = committedTotals col i ch rows'"
      and left: "filter (is_open final) final = filter (\<lambda>e. e \<notin> set rest) (filter (is_open rows') rows')" by simp_all
    moreover have "filter (is_open final) final = filter (\<lambda>e. e \<notin> set gone) (filter (is_open rows) rows)"
      unfolding left opened rest(2) by (simp add: conj_commute conj_left_commute)
    ultimately show ?thesis
      using abandon_keeps_totals [OF Cons.prems(2) op] False rest(2) rows' by simp
  qed
qed auto

lemma reconcile_effect:
  assumes ok: "ledger_ok rows" and run: "reconcileOpenReservations env ts keep ids rows = Inr (gone, final)"
  shows "ledger_ok final \<and> gone = filter (\<lambda>e. keep \<noteq> Some (le_sessionId e)) (openReservations rows) \<and>
     (\<forall>col i ch. committedTotals col i ch final = committedTotals col i ch rows) \<and>
     openReservations final = filter (\<lambda>e. keep = Some (le_sessionId e)) (openReservations rows)"
proof -
  have dist: "distinct rows" using ok by (simp add: ledger_ok_def distinct_map)
  have effect: "ledger_ok final" "gone = filter (\<lambda>e. keep \<noteq> Some (le_sessionId e)) (openReservations rows)"
    "\<And>col i ch. committedTotals col i ch final = committedTotals col i ch rows"
    "filter (is_open final) final = filter (\<lambda>e. e \<notin> set gone) (filter (is_open rows) rows)"
    using close_abandoned_effect [OF run [unfolded reconcileOpenReservations_def] ok] dist
    by (auto simp: openReservations_def)
  have "filter (\<lambda>e. e \<notin> set gone) (filter (is_open rows) rows) =
      filter (\<lambda>e. keep = Some (le_sessionId e)) (filter (is_open rows) rows)"
    by (rule filter_cong) (auto simp: effect(2) openReservations_def)
  then have "openReservations final = filter (\<lambda>e. keep = Some (le_sessionId e)) (openReservations rows)"
    unfolding openReservations_def effect(4) by (simp add: filter_sort)
  with effect(1-3) show ?thesis by simp
qed

lemma close_abandoned_all_kept:
  "\<forall>op \<in> set ops. keep = Some (le_sessionId op) \<Longrightarrow> close_abandoned env ts keep ids n ops rows = Inr ([], rows)"
  by (induction ops) auto

text \<open>Reopening the store closes every open reservation another session left and nothing else: the
  committed totals of every scope and channel stay exactly what they were, the reservations still open are
  those of the session that is kept, and a second run finds nothing to close.\<close>

theorem reconcile_keeps_what_was_committed:
  assumes "ledger_ok rows" and "reconcileOpenReservations env ts keep ids rows = Inr (gone, final)"
  shows "ledger_ok final \<and>
     (\<forall>col i ch. committedTotals col i ch final = committedTotals col i ch rows) \<and>
     openReservations final = filter (\<lambda>e. keep = Some (le_sessionId e)) (openReservations rows) \<and>
     reconcileOpenReservations env ts' keep ids' final = Inr ([], final)"
  using reconcile_effect [OF assms] close_abandoned_all_kept [of "openReservations final" keep]
  by (auto simp: reconcileOpenReservations_def)

section \<open>Any interleaving\<close>

text \<open>The operations sessions apply to the one table, each with the session that runs it.\<close>

datatype ledger_op =
    OpReserve string iso_timestamp string ledger_scope usage_channel usage "string option"
  | OpSettle string iso_timestamp string reservation usage nat "string option"
  | OpRelease string iso_timestamp string reservation string
  | OpReconcile string iso_timestamp "string option" "nat \<Rightarrow> string"

definition ledger_step :: "ledger_env \<Rightarrow> ledger_entry list \<Rightarrow> ledger_op \<Rightarrow> ledger_entry list" where
  "ledger_step env rows op = (case op of
       OpReserve s ts nid scope channel estimate label \<Rightarrow>
         (case reserve (env\<lparr>ln_sessionId := s\<rparr>) ts nid scope channel estimate label rows of
            Inl _ \<Rightarrow> rows | Inr (_, rows') \<Rightarrow> rows')
     | OpSettle s ts nid r us elapsed reason \<Rightarrow>
         (case settle (env\<lparr>ln_sessionId := s\<rparr>) ts nid r us elapsed reason rows of Inl _ \<Rightarrow> rows | Inr rows' \<Rightarrow> rows')
     | OpRelease s ts nid r reason \<Rightarrow>
         (case release_reservation (env\<lparr>ln_sessionId := s\<rparr>) ts nid r reason rows of Inl _ \<Rightarrow> rows | Inr rows' \<Rightarrow> rows')
     | OpReconcile s ts keep ids \<Rightarrow>
         (case reconcileAbandonedReservations (env\<lparr>ln_sessionId := s\<rparr>) ts keep ids rows of
            Inl _ \<Rightarrow> rows | Inr (_, rows') \<Rightarrow> rows'))"

definition concurrency_kept :: "ledger_env \<Rightarrow> ledger_entry list \<Rightarrow> bool" where
  "concurrency_kept env rows \<longleftrightarrow> (\<forall>kind scope target limit. scopeTarget kind scope = Some target \<longrightarrow>
     maxConcurrency (capsFor (ln_budgets env) kind) = Some limit \<longrightarrow>
     openCount (fst target) (snd target) (channel_filter kind) rows \<le> limit)"

lemma row_in_target:
  assumes "scopeTarget kind scope = Some target" and "in_column (fst target) (snd target) row"
    and "on_channel (channel_filter kind) row"
  shows "scopeTarget kind (le_scope row) = Some target \<and> kind \<in> set (scopeKindsFor (le_channel row))"
  using assms by (cases kind; cases "le_channel row")
    (auto simp: scopeTarget_def in_column_def on_channel_def channel_filter_def scopeKindsFor_def SCOPE_ORDER_def)

lemma concurrency_after_reserve:
  assumes "ledger_ok rows" and "concurrency_kept env rows"
    and "reserve env ts nid scope channel estimate label rows = Inr (r, rows')"
  shows "concurrency_kept env rows'"
proof -
  from granted_caps [OF assms(1,3)] obtain row where row: "rows' = rows @ [row]" "le_id row \<notin> le_id ` set rows"
      "\<not> is_terminal row" "le_reservationId row = le_id row" "le_scope row = scope" "le_channel row = channel"
    and caps: "\<And>kind target. kind \<in> set (scopeKindsFor channel) \<Longrightarrow> scopeTarget kind scope = Some target \<Longrightarrow>
       caps_hold env rows' kind target" by metis
  show ?thesis
    unfolding concurrency_kept_def
  proof (intro allI impI)
    fix kind scope' target limit
    assume target: "scopeTarget kind scope' = Some target" and limit: "maxConcurrency (capsFor (ln_budgets env) kind) = Some limit"
    show "openCount (fst target) (snd target) (channel_filter kind) rows' \<le> limit"
    proof (cases "in_column (fst target) (snd target) row \<and> on_channel (channel_filter kind) row")
      case True
      then have "caps_hold env rows' kind target"
        using row_in_target [OF target, of row] caps row(5,6) by auto
      then show ?thesis
        using limit by (simp add: caps_hold_def under_def Let_def)
    next
      case False
      then show ?thesis
        using assms(2) target limit open_add_reservation [OF assms(1) row(2-4)] row(1)
        by (auto simp: concurrency_kept_def)
    qed
  qed
qed

lemma concurrency_kept_mono:
  assumes "concurrency_kept env rows" and "\<And>col i ch. openCount col i ch final \<le> openCount col i ch rows"
  shows "concurrency_kept env final"
  using assms(1) unfolding concurrency_kept_def by (meson assms(2) order_trans)

lemma terminal_step:
  assumes "ledger_ok rows" and "ledger_insert env row rows = Some rows'" and "is_terminal row"
    and "forReservation (le_reservationId row) rows \<noteq> []" and "concurrency_kept env0 rows"
  shows "ledger_ok rows' \<and> concurrency_kept env0 rows'"
proof -
  have rows': "rows' = rows @ [row]" using assms(2) by (simp add: ledger_insert_Some)
  show ?thesis
    using ledger_ok_add_terminal [OF assms(1-4)] concurrency_kept_mono [OF assms(5)]
      open_add_terminal [OF assms(3)] by (simp add: rows')
qed

lemma length_filter_filter: "length (filter Q (filter P xs)) \<le> length (filter Q xs)"
  by (induction xs) auto

lemma openCount_open_rows:
  "openCount col i ch rows = length (filter (\<lambda>e. in_column col i e \<and> on_channel ch e) (filter (is_open rows) rows))"
  unfolding openCount_def filter_filter by (rule arg_cong [where f = length], rule filter_cong) auto

lemma reconcile_step:
  assumes ok: "ledger_ok rows" and kept: "concurrency_kept env0 rows"
    and run: "reconcileOpenReservations env ts keep ids rows = Inr (gone, final)"
  shows "ledger_ok final \<and> concurrency_kept env0 final"
proof -
  have dist: "distinct rows" using ok by (simp add: ledger_ok_def distinct_map)
  have effect: "ledger_ok final" "filter (is_open final) final = filter (\<lambda>e. e \<notin> set gone) (filter (is_open rows) rows)"
    using close_abandoned_effect [OF run [unfolded reconcileOpenReservations_def] ok] dist
    by (auto simp: openReservations_def)
  have "openCount col i ch final \<le> openCount col i ch rows" for col i ch
    unfolding openCount_open_rows effect(2) by (rule length_filter_filter)
  with effect(1) concurrency_kept_mono [OF kept] show ?thesis
    by blast
qed

interpretation ledger_run: stepwise_invariant "ledger_step env" "\<lambda>rows. ledger_ok rows \<and> concurrency_kept env rows"
proof
  fix rows op
  assume inv: "ledger_ok rows \<and> concurrency_kept env rows"
  let ?env = "\<lambda>s. env\<lparr>ln_sessionId := s\<rparr>"
  have same: "concurrency_kept (?env s) rows = concurrency_kept env rows" for s rows
    by (simp add: concurrency_kept_def)
  show "ledger_ok (ledger_step env rows op) \<and> concurrency_kept env (ledger_step env rows op)"
  proof (cases op)
    case (OpReserve s ts nid scope channel estimate label)
    then show ?thesis
      using inv granted_caps [of rows "?env s" ts nid scope channel estimate label]
        concurrency_after_reserve [of rows "?env s" ts nid scope channel estimate label]
      by (auto simp: ledger_step_def same split: sum.split)
  next
    case (OpSettle s ts nid r us elapsed reason)
    then show ?thesis
      using inv settle_Inr [of "?env s" ts nid r us elapsed reason rows] terminal_step [of rows "?env s" _ _ env]
      by (auto simp: ledger_step_def is_terminal_def split: sum.split)
  next
    case (OpRelease s ts nid r reason)
    then show ?thesis
      using inv release_Inr [of "?env s" ts nid r reason rows] terminal_step [of rows "?env s" _ _ env]
      by (auto simp: ledger_step_def is_terminal_def split: sum.split)
  next
    case (OpReconcile s ts keep ids)
    then show ?thesis
      using inv reconcile_step [of rows env "?env s"]
      by (auto simp: ledger_step_def reconcileAbandonedReservations_def split: sum.split)
  qed
qed

text \<open>C35. However sessions interleave reservations, settlements, releases and reopenings over the one
  table, from the empty one on: no scope ever has more reservations open than its concurrency cap allows,
  every row belongs to a reservation of the table, and each reservation is closed at most once.\<close>

theorem no_interleaving_breaks_the_ledger:
  "ledger_ok (foldl (ledger_step env) [] ops) \<and> concurrency_kept env (foldl (ledger_step env) [] ops)"
proof (rule ledger_run.run_inv)
  show "ledger_ok [] \<and> concurrency_kept env []"
    by (simp add: concurrency_kept_def openCount_def)
qed

lemma closed_stays_closed:
  assumes "is_closed rows rid"
  shows "is_closed (ledger_step env rows op) rid"
proof -
  have add: "is_closed rows' rid" if "ledger_insert env' row rows = Some rows'" for env' row rows'
    using that assms by (simp add: ledger_insert_Some is_closed_append)
  have loop: "close_abandoned env' ts keep ids n os xs = Inr (gone, final) \<Longrightarrow> is_closed xs rid \<Longrightarrow> is_closed final rid"
    for env' ts keep ids n os xs gone final
  proof (induction os arbitrary: n xs gone)
    case (Cons o' os)
    from close_abandoned_Cons_Inr [OF Cons.prems(1)] Cons show ?case
      by (auto simp: ledger_insert_Some is_closed_append split: if_splits)
  qed simp
  show ?thesis
    using assms add loop
    by (cases op)
      (auto simp: ledger_step_def reconcileAbandonedReservations_def reconcileOpenReservations_def
        split: sum.split dest!: settle_Inr release_Inr elim!: reserve_Inr)
qed

interpretation closed_run: stepwise_invariant "ledger_step env" "\<lambda>rows. is_closed rows rid"
  by unfold_locales (rule closed_stays_closed)

lemma assertOpen_closed: "is_closed rows rid \<Longrightarrow> assertOpen rid rows = Some (UsageIntegrity AlreadyClosed)"
  by (auto simp: assertOpen_def Let_def is_closed_def forReservation_def list_ex_iff filter_empty_conv)

lemma closing_closes:
  assumes "settle env ts nid r us elapsed reason rows = Inr rows' \<or> release_reservation env ts nid r msg rows = Inr rows'"
  shows "is_closed rows' (rv_id r)"
  using assms by (auto dest!: settle_Inr release_Inr simp: ledger_insert_Some is_closed_append is_terminal_def)

text \<open>A reservation is spent once: after a settlement or a release of it, whatever else happens to the
  table, settling or releasing it again is refused as already closed.\<close>

theorem closed_reservation_is_spent:
  assumes "settle env ts nid r us elapsed reason rows = Inr rows' \<or> release_reservation env ts nid r msg rows = Inr rows'"
    and "rv_id r2 = rv_id r" and "assertHonestUsage us2 = None"
  shows "settle env2 ts2 nid2 r2 us2 elapsed2 reason2 (foldl (ledger_step env3) rows' ops) = Inl (UsageIntegrity AlreadyClosed) \<and>
     release_reservation env2 ts2 nid2 r2 msg2 (foldl (ledger_step env3) rows' ops) = Inl (UsageIntegrity AlreadyClosed)"
  using closed_run.run_inv [OF closing_closes [OF assms(1)]] assms(2,3)
  by (simp add: settle_def release_reservation_def assertOpen_closed)

section \<open>Honest figures\<close>

lemma spend_nonneg: "0 \<le> of_nat n * priceOrZero p"
  by (auto simp: priceOrZero_def isPositivePrice_def split: option.splits)


section \<open>Concrete ledgers\<close>

definition fx_caps :: budget where
  "fx_caps = \<lparr>maxSpendUsd = Some 10, maxTokens = None, maxRequests = Some 3, maxConcurrency = Some 2, maxElapsedMs = None\<rparr>"

definition fx_ledger_env :: "string \<Rightarrow> ledger_env" where
  "fx_ledger_env s = \<lparr>ln_budgets = \<lparr>bg_workflow = fx_caps, bg_phase = fx_caps, bg_task = fx_caps, bg_jev = fx_caps\<rparr>,
     ln_sessionId = s, ln_known = (\<lambda>_. True)\<rparr>"

definition fx_scope :: ledger_scope where
  "fx_scope = \<lparr>lg_workflowId = ''w'', lg_phaseId = Some ''p'', lg_taskId = Some ''t1'', lg_attemptId = None\<rparr>"

definition fx_charge :: "int \<Rightarrow> rat \<Rightarrow> usage" where
  "fx_charge n s = \<lparr>us_inputTokens = Some 5, us_outputTokens = None, us_requests = n, us_spendUsd = Some s, us_costBasis = CostEstimated\<rparr>"

definition fx_reservation :: "string \<Rightarrow> int \<Rightarrow> rat \<Rightarrow> reservation" where
  "fx_reservation i n s = \<lparr>rv_id = i, rv_entryId = i, rv_scope = fx_scope, rv_channel = ChModel, rv_estimate = fx_charge n s,
     rv_reservedAt = ''t'', rv_label = None\<rparr>"

definition fx_row :: "string \<Rightarrow> string \<Rightarrow> int \<Rightarrow> rat \<Rightarrow> ledger_entry" where
  "fx_row i s n spend = \<lparr>le_id = i, le_createdAt = ''t'', le_scope = fx_scope, le_channel = ChModel, le_entryKind = EkReservation,
     le_reservationId = i, le_sessionId = s, le_usage = fx_charge n spend, le_elapsedMs = 0, le_label = None, le_reason = None\<rparr>"

lemmas fx_ledger = fx_caps_def fx_ledger_env_def fx_scope_def fx_charge_def fx_reservation_def fx_row_def

lemma granted_reservation_witness:
  "ledger_ok [fx_row ''a'' ''s'' 2 6] \<and>
   reserve (fx_ledger_env ''s'') ''t'' ''b'' fx_scope ChModel (fx_charge 1 4) None [fx_row ''a'' ''s'' 2 6] =
     Inr (fx_reservation ''b'' 1 4, [fx_row ''a'' ''s'' 2 6, fx_row ''b'' ''s'' 1 4]) \<and>
   ledger_ok [fx_row ''a'' ''s'' 2 6, fx_row ''b'' ''s'' 1 4]"
proof -
  have ok: "ledger_ok [fx_row ''a'' ''s'' 2 6]" by code_simp
  moreover have run: "reserve (fx_ledger_env ''s'') ''t'' ''b'' fx_scope ChModel (fx_charge 1 4) None [fx_row ''a'' ''s'' 2 6] =
     Inr (fx_reservation ''b'' 1 4, [fx_row ''a'' ''s'' 2 6, fx_row ''b'' ''s'' 1 4])" by code_simp
  ultimately show ?thesis using granted_reservation_fits_every_cap [OF ok run] by simp
qed

lemma reconcile_witness:
  "\<exists>gone final. reconcileOpenReservations (fx_ledger_env ''s2'') ''u'' (Some ''s2'') (\<lambda>n. ''x'')
     [fx_row ''a'' ''s'' 2 6, fx_row ''b'' ''s2'' 1 4] = Inr (gone, final) \<and> gone = [fx_row ''a'' ''s'' 2 6] \<and>
     openReservations final = [fx_row ''b'' ''s2'' 1 4]"
proof -
  have ok: "ledger_ok [fx_row ''a'' ''s'' 2 6, fx_row ''b'' ''s2'' 1 4]" by code_simp
  have run: "reconcileOpenReservations (fx_ledger_env ''s2'') ''u'' (Some ''s2'') (\<lambda>n. ''x'')
     [fx_row ''a'' ''s'' 2 6, fx_row ''b'' ''s2'' 1 4] = Inr ([fx_row ''a'' ''s'' 2 6], [fx_row ''a'' ''s'' 2 6, fx_row ''b'' ''s2'' 1 4,
       abandonment_row ''u'' ''x'' (fx_row ''a'' ''s'' 2 6)])" by code_simp
  have kept: "filter (\<lambda>e. Some ''s2'' = Some (le_sessionId e)) (openReservations [fx_row ''a'' ''s'' 2 6, fx_row ''b'' ''s2'' 1 4]) =
     [fx_row ''b'' ''s2'' 1 4]" by code_simp
  show ?thesis
    using reconcile_keeps_what_was_committed [OF ok run] run unfolding kept by blast
qed

lemma spent_witness:
  "\<exists>rows'. release_reservation (fx_ledger_env ''s'') ''u'' ''b'' (fx_reservation ''a'' 2 6) ''r'' [fx_row ''a'' ''s'' 2 6] = Inr rows' \<and>
     settle (fx_ledger_env ''s'') ''v'' ''c'' (fx_reservation ''a'' 2 6) (fx_charge 2 6) 0 None rows' = Inl (UsageIntegrity AlreadyClosed)"
proof -
  have run: "release_reservation (fx_ledger_env ''s'') ''u'' ''b'' (fx_reservation ''a'' 2 6) ''r'' [fx_row ''a'' ''s'' 2 6] =
      Inr [fx_row ''a'' ''s'' 2 6, close_row (fx_ledger_env ''s'') ''u'' ''b'' (fx_reservation ''a'' 2 6) EkRelease noUsage 0 (Some ''r'')]"
    by code_simp
  have honest: "assertHonestUsage (fx_charge 2 6) = None" by code_simp
  show ?thesis
    using run closed_reservation_is_spent [OF disjI2 [OF run] refl honest, of _ _ _ _ _ undefined "[]"] by auto
qed


text \<open>
  A refusal on a cumulative cap can clear: the open estimate it counted is released.
\<close>

lemma cumulative_cap_can_clear:
  "\<exists>rows'. isCumulativeCap CapSpendUsd \<and>
     reserve (fx_ledger_env ''s'') ''t'' ''b'' fx_scope ChModel (fx_charge 1 6) None [fx_row ''a'' ''s'' 1 6] =
       Inl (BudgetExceeded BsWorkflow CapSpendUsd 10 6 6) \<and>
     release_reservation (fx_ledger_env ''s'') ''u'' ''c'' (fx_reservation ''a'' 1 6) ''r'' [fx_row ''a'' ''s'' 1 6] = Inr rows' \<and>
     \<not> Option.is_none (case reserve (fx_ledger_env ''s'') ''v'' ''b'' fx_scope ChModel (fx_charge 1 6) None rows' of
        Inl _ \<Rightarrow> None | Inr x \<Rightarrow> Some x)"
proof -
  let ?rows = "[fx_row ''a'' ''s'' 1 6, close_row (fx_ledger_env ''s'') ''u'' ''c'' (fx_reservation ''a'' 1 6) EkRelease noUsage 0 (Some ''r'')]"
  have "isCumulativeCap CapSpendUsd" by code_simp
  moreover have "reserve (fx_ledger_env ''s'') ''t'' ''b'' fx_scope ChModel (fx_charge 1 6) None [fx_row ''a'' ''s'' 1 6] =
       Inl (BudgetExceeded BsWorkflow CapSpendUsd 10 6 6)" by code_simp
  moreover have "release_reservation (fx_ledger_env ''s'') ''u'' ''c'' (fx_reservation ''a'' 1 6) ''r'' [fx_row ''a'' ''s'' 1 6] = Inr ?rows"
    by code_simp
  moreover have "\<not> Option.is_none (case reserve (fx_ledger_env ''s'') ''v'' ''b'' fx_scope ChModel (fx_charge 1 6) None ?rows of
        Inl _ \<Rightarrow> None | Inr x \<Rightarrow> Some x)" by code_simp
  ultimately show ?thesis by blast
qed

end
