(* ===== verification/RunPhases.thy ===== *)
theory RunPhases
  imports Blockers Ledger
begin

text \<open>
  \<open>/korwf run\<close>: the cost estimate shown before a run, starting and stopping its phases
  (\<open>src/workflow/run.ts\<close>, with the rows of \<open>src/storage/run-log.ts\<close>). The run table is the list
  of its rows. A result's \<open>reason\<close> is the refusal code instead of its message.
\<close>

section \<open>The estimate\<close>

record run_estimate_phase =
  ep_phaseId :: string
  ep_tasks :: nat
  ep_knownUsd :: rat
  ep_estimatedUsd :: rat
  ep_unknownTasks :: nat

record run_estimate =
  es_tasks :: nat
  es_knownUsd :: rat
  es_estimatedUsd :: rat
  es_unknownTasks :: nat
  es_perPhase :: "run_estimate_phase list"

record estimate_params =
  xp_tokensForTask :: "task \<Rightarrow> token_counts option"
  xp_priceForTask :: "task \<Rightarrow> price_metadata option"

definition task_usage :: "estimate_params \<Rightarrow> task \<Rightarrow> usage" where
  "task_usage params task = classifyCost (xp_tokensForTask params task) (xp_priceForTask params task) None CostEstimated"

definition estimate_task :: "run_estimate_phase \<Rightarrow> usage \<Rightarrow> run_estimate_phase" where
  "estimate_task ep us =
     (if us_costBasis us = CostUnknown then ep\<lparr>ep_unknownTasks := ep_unknownTasks ep + 1\<rparr>
      else if us_costBasis us = CostKnown then ep\<lparr>ep_knownUsd := ep_knownUsd ep + spend_of us\<rparr>
      else ep\<lparr>ep_estimatedUsd := ep_estimatedUsd ep + spend_of us\<rparr>)"

definition pending_tasks :: "db \<Rightarrow> string \<Rightarrow> task list" where
  "pending_tasks d pid = filter (\<lambda>t. t_status t \<notin> set TASK_TERMINAL_STATES) (tasks_forPhase pid d)"

definition estimatePhase :: "estimate_params \<Rightarrow> db \<Rightarrow> string \<Rightarrow> run_estimate_phase" where
  "estimatePhase params d pid =
     foldl (\<lambda>ep task. estimate_task ep (task_usage params task))
       \<lparr>ep_phaseId = pid, ep_tasks = length (pending_tasks d pid), ep_knownUsd = 0, ep_estimatedUsd = 0, ep_unknownTasks = 0\<rparr>
       (pending_tasks d pid)"

definition add_phase :: "run_estimate \<Rightarrow> run_estimate_phase \<Rightarrow> run_estimate" where
  "add_phase es ep = \<lparr>es_tasks = es_tasks es + ep_tasks ep, es_knownUsd = es_knownUsd es + ep_knownUsd ep,
     es_estimatedUsd = es_estimatedUsd es + ep_estimatedUsd ep,
     es_unknownTasks = es_unknownTasks es + ep_unknownTasks ep, es_perPhase = es_perPhase es @ [ep]\<rparr>"

definition estimateRun :: "estimate_params \<Rightarrow> string list \<Rightarrow> db \<Rightarrow> run_estimate" where
  "estimateRun params phaseIds d =
     foldl (\<lambda>es pid. add_phase es (estimatePhase params d pid))
       \<lparr>es_tasks = 0, es_knownUsd = 0, es_estimatedUsd = 0, es_unknownTasks = 0, es_perPhase = []\<rparr> phaseIds"

section \<open>Starting and stopping\<close>

record run_row =
  rn_runId :: string
  rn_createdAt :: iso_timestamp
  rn_workflowId :: string
  rn_phaseIds :: "string list"

datatype phase_reason = RsRejected rejection_code | RsUnknownPhase | RsNotPaused phase_gate_status
  | RsStillBlocked "string list"

record phase_result =
  pr_phaseId :: string
  pr_ok :: bool
  pr_phase :: "phase option"
  pr_reason :: "phase_reason option"

definition phase_refused :: "string \<Rightarrow> phase_reason \<Rightarrow> phase_result" where
  "phase_refused pid reason = \<lparr>pr_phaseId = pid, pr_ok = False, pr_phase = None, pr_reason = Some reason\<rparr>"

definition phase_moved :: "string \<Rightarrow> phase \<Rightarrow> phase_result" where
  "phase_moved pid phase = \<lparr>pr_phaseId = pid, pr_ok = True, pr_phase = Some phase, pr_reason = None\<rparr>"

text \<open>The handler all three share: a rejected transition is a result, anything else is thrown on.\<close>

definition rejected_or_throw :: "string \<Rightarrow> failure \<Rightarrow> phase_result io" where
  "rejected_or_throw pid e = (case e of TransitionRejected code failed ev \<Rightarrow> ret (phase_refused pid (RsRejected code))
     | _ \<Rightarrow> throw e)"

definition phaseStartValid :: "db \<Rightarrow> string \<Rightarrow> bool" where
  "phaseStartValid d pid =
     (let tasks = tasks_forPhase pid d in
      if tasks = [] then False
      else if list_all (\<lambda>t. t_status t = Done) tasks then True
      else list_ex (\<lambda>t. t_status t = Proposed \<or> t_status t = Ready) tasks)"

record start_run_params =
  st_workflowId :: string
  st_phaseIds :: "string list"
  st_actor :: transition_actor
  st_authorizationCurrent :: "string \<Rightarrow> guard_outcome"

definition start_request :: "start_run_params \<Rightarrow> string \<Rightarrow> string \<Rightarrow> phase_state transition_request" where
  "start_request params runId pid = \<lparr>rq_subject = pid, rq_to = Known PhRunning, rq_actor = st_actor params,
     rq_trigger = ''run'', rq_guards = (\<lambda>pc.
        if pc = PcPhaseStartValid then Some (\<lambda>ctx. of_verdict (phaseStartValid (gx_db ctx) pid))
        else if pc = PcAuthorizationCurrent then Some (\<lambda>_. st_authorizationCurrent params pid) else None),
     rq_evidenceRefs = [''run:'' @ pid, ''runId:'' @ runId], rq_gitRevision = None, rq_expectedStatus = None,
     rq_expectedRevision = None, rq_blocker = None, rq_gateReceiptId = None\<rparr>"

definition startPhase :: "start_run_params \<Rightarrow> string \<Rightarrow> string \<Rightarrow> phase_result io" where
  "startPhase params runId pid = tryCatch
     (andThen (transitionPhase (start_request params runId pid)) (\<lambda>result.
      andThen (phases_update (ph_id (re_subject result)) (\<lambda>p. p\<lparr>ph_runId := Some runId\<rparr>)) (\<lambda>tagged.
      ret (phase_moved pid tagged))))
     (rejected_or_throw pid)"

text \<open>\<open>RunLogStore.insert\<close>: the primary key, and the foreign key on the workflow.\<close>

definition runs_insert :: "run_row \<Rightarrow> run_row list \<Rightarrow> run_row list io" where
  "runs_insert row runs = andThen (getDb (workflow_exists (rn_workflowId row))) (\<lambda>known.
     if known \<and> \<not> list_ex (\<lambda>r. rn_runId r = rn_runId row) runs then ret (runs @ [row]) else throw ConstraintFailed)"

definition startRun :: "start_run_params \<Rightarrow> run_row list \<Rightarrow> (string \<times> phase_result list \<times> run_row list) io" where
  "startRun params runs =
     andThen newId (\<lambda>runId. andThen getNow (\<lambda>ts.
     andThen (runs_insert \<lparr>rn_runId = runId, rn_createdAt = ts, rn_workflowId = st_workflowId params,
        rn_phaseIds = st_phaseIds params\<rparr> runs) (\<lambda>runs'.
     andThen (mapEach (startPhase params runId) (st_phaseIds params)) (\<lambda>results.
     ret (runId, results, runs')))))"

record stop_run_params =
  so_workflowId :: string
  so_actor :: transition_actor
  so_reason :: string
  so_budgetStop :: bool
  so_phaseIds :: "string list option"
  so_blockerKind :: "string option"

definition stop_kind :: "stop_run_params \<Rightarrow> string" where
  "stop_kind params = (case so_blockerKind params of Some k \<Rightarrow> k
     | None \<Rightarrow> if so_budgetStop params then ''budget_hard_stop'' else ''user_stop'')"

definition stop_request :: "stop_run_params \<Rightarrow> phase \<Rightarrow> phase_state transition_request" where
  "stop_request params phase = \<lparr>rq_subject = ph_id phase, rq_to = Known PhPaused, rq_actor = so_actor params,
     rq_trigger = ''phase_stop'', rq_guards = (\<lambda>pc. if pc = PcPhaseStopPresent then Some (\<lambda>_. GTrue) else None),
     rq_evidenceRefs = [''stop:'' @ ph_id phase @ '':'' @ so_reason params], rq_gitRevision = None,
     rq_expectedStatus = None, rq_expectedRevision = None,
     rq_blocker = Some (stop_kind params, so_reason params), rq_gateReceiptId = None\<rparr>"

definition stop_targets :: "stop_run_params \<Rightarrow> db \<Rightarrow> phase list" where
  "stop_targets params d =
     filter (\<lambda>p. case so_phaseIds params of None \<Rightarrow> True | Some only \<Rightarrow> ph_id p \<in> set only)
       (filter (\<lambda>p. ph_gateStatus p \<noteq> PgPassed \<and> ph_gateStatus p \<noteq> PgCancelled)
         (phases_forWorkflow (so_workflowId params) d))"

definition stopPhase :: "stop_run_params \<Rightarrow> phase \<Rightarrow> phase_result io" where
  "stopPhase params phase = tryCatch
     (andThen (transitionPhase (stop_request params phase)) (\<lambda>result. ret (phase_moved (ph_id phase) (re_subject result))))
     (rejected_or_throw (ph_id phase))"

definition stopRun :: "stop_run_params \<Rightarrow> phase_result list io" where
  "stopRun params = andThen (getDb (stop_targets params)) (mapEach (stopPhase params))"

definition runForPhase :: "run_row list \<Rightarrow> string \<Rightarrow> db \<Rightarrow> run_row option" where
  "runForPhase runs pid d =
     (case tbl_get ph_id pid (db_phases d) of
        None \<Rightarrow> None
      | Some phase \<Rightarrow> (case ph_runId phase of None \<Rightarrow> None | Some rid \<Rightarrow> find (\<lambda>r. rn_runId r = rid) runs))"

section \<open>What one stop does\<close>

lemma store_write_depth: "store_write m w = (r, w') \<Longrightarrow> w_depth w = 0 \<Longrightarrow> w_depth w' = 0"
  by (auto simp: store_write_def split: if_splits prod.splits sum.splits)

lemma surface_refusal_depth: "surface_refusal e w = (r, w') \<Longrightarrow> w_depth w = 0 \<Longrightarrow> w_depth w' = 0"
  by (auto simp: surface_refusal_def flushRejection_def andThen_def split: failure.splits prod.splits sum.splits
      dest: store_write_depth)

lemma transitionPhase_depth: "transitionPhase rq w = (r, w') \<Longrightarrow> w_depth w = 0 \<Longrightarrow> w_depth w' = 0"
  by (auto simp: transitionPhase_def evaluatePhaseTransition_def tryCatch_def split: prod.splits sum.splits
      dest: store_write_depth surface_refusal_depth)

lemma unresolvedKinds_iff:
  "kind \<in> set (unresolvedKinds k i d) \<longleftrightarrow>
     (\<exists>b \<in> set (db_blockers d). b_subjectKind b = k \<and> b_subjectId b = i \<and> b_resolvedAt b = None \<and> b_kind b = kind)"
  by (auto simp: unresolvedKinds_def unresolvedForSubject_def)

lemma requested_blocker_raised:
  assumes "raiseRequestedBlocker rq k i wid w = (Inr raised, w')" and "rq_blocker rq = Some (kind, detail)"
  shows "kind \<in> set (unresolvedKinds k i (w_db w'))"
  using assms by (auto simp: raiseRequestedBlocker_def andThen_eq_Inr newId_def getNow_def
      unresolvedKinds_iff dest!: blocker_insert_Inr)

lemma unresolvedKinds_cong: "db_blockers d = db_blockers d' \<Longrightarrow> unresolvedKinds k i d = unresolvedKinds k i d'"
  by (simp add: unresolvedKinds_def unresolvedForSubject_def)

lemma commitPhaseEdge_raises:
  assumes "commitPhaseEdge rq phase wkf edge base src dst w = (Inr res, w')" and "rq_blocker rq = Some (kind, detail)"
  shows "kind \<in> set (unresolvedKinds SkPhase (ph_id phase) (w_db w'))"
proof -
  from assms(1) obtain raised w1 w2 ctx w3 u w4 kinds w5 upd w6 h w7 ev w8 base' where
      raise: "raiseRequestedBlocker rq SkPhase (ph_id phase) (ph_workflowId phase) w1 = (Inr raised, w2)"
    and ctx: "phase_guard_context rq phase wkf w2 = (Inr ctx, w3)"
    and guards: "checkGuards (tr_preconditions edge) (rq_guards rq) ctx base' w3 = (Inr u, w4)"
    and kinds: "(getDb (unresolvedKinds SkPhase (ph_id phase)) :: string list io) w4 = (Inr kinds, w5)"
    and upd: "phases_update (ph_id phase) (\<lambda>p. p\<lparr>ph_gateStatus := phaseGateStatusFor dst edge kinds\<rparr>) w5 = (Inr upd, w6)"
    and hash: "hashOf (PPhase upd) w6 = (Inr h, w7)"
    and ev: "appendEvent (base'\<lparr>dr_disposition := Accepted, dr_reasonCode := None, dr_failedGuards := [], dr_afterHash := h\<rparr>) w7 = (Inr ev, w8)"
    and "w' = w8"
    unfolding commitPhaseEdge_def Let_def by (elim andThen_InrE) (auto intro: that)
  have "w_db w3 = w_db w2" "w4 = w3" "w5 = w4"
    using ctx checkGuards_Inr(1) [OF guards] kinds by (auto simp: phase_guard_context_def andThen_eq_Inr getNow_def)
  moreover have "db_blockers (w_db w6) = db_blockers (w_db w5)"
    using upd by (rule phases_update_InrE) simp
  moreover have "db_blockers (w_db w8) = db_blockers (w_db w6)"
    using appendEvent_Inr [OF ev] hash by (auto simp: hashOf_def)
  ultimately have "db_blockers (w_db w') = db_blockers (w_db w2)"
    using \<open>w' = w8\<close> by simp
  then show ?thesis
    using requested_blocker_raised [OF raise assms(2)] unresolvedKinds_cong by metis
qed

lemma transitionPhase_raises:
  assumes "transitionPhase rq w = (Inr res, w')" and "rq_blocker rq = Some (kind, detail)"
  shows "kind \<in> set (unresolvedKinds SkPhase (rq_subject rq) (w_db w'))"
proof -
  from assms(1) obtain w1 d where run: "(andThen (repo_get phaseRepo (rq_subject rq)) (\<lambda>found.
       case found of
         None \<Rightarrow> throw (TransitionRejected UnknownSubject [] None)
       | Some phase \<Rightarrow>
           andThen (repo_require workflowRepo (ph_workflowId phase)) (\<lambda>wkf.
           andThen (hashOf (PPhase phase)) (\<lambda>prior.
             let src = phaseLifecycleState (ph_gateStatus phase)
             in phaseEdgeFor rq phase wkf (phase_draft rq phase wkf src prior) src))))
      (w\<lparr>w_depth := Suc (w_depth w)\<rparr>) = (Inr res, w1)" and w': "w' = w1\<lparr>w_depth := d\<rparr>"
    unfolding transitionPhase_def tryCatch_surface evaluatePhaseTransition_def
    by (elim store_write_InrE)
  from run obtain phase wkf base st w0 where phase: "tbl_get ph_id (rq_subject rq) (db_phases (w_db w)) = Some phase"
    and edge: "phaseEdgeFor rq phase wkf base st w0 = (Inr res, w1)"
    by (auto simp: andThen_eq_Inr phases.get_eq workflows.require_eq hashOf_def Let_def split: option.splits)
  have "ph_id phase = rq_subject rq" using phase by (rule tbl_get_key)
  with edge show ?thesis
    by (elim phaseEdgeFor_Inr) (auto simp: w' dest: commitPhaseEdge_raises [OF _ assms(2)])
qed

definition stop_frame :: "db \<Rightarrow> db \<Rightarrow> bool" where
  "stop_frame d d' \<longleftrightarrow> db_tasks d' = db_tasks d \<and> db_attempts d' = db_attempts d \<and> db_receipts d' = db_receipts d \<and>
     db_decisions d' = db_decisions d \<and> db_evidence d' = db_evidence d \<and> db_approvals d' = db_approvals d \<and>
     db_requests d' = db_requests d \<and>
     db_workflows d' = db_workflows d \<and> (\<exists>bs. db_blockers d' = db_blockers d @ bs)"

lemma stop_frame_refl [simp]: "stop_frame d d"
  by (simp add: stop_frame_def)

lemma stop_frame_trans: "stop_frame a b \<Longrightarrow> stop_frame b c \<Longrightarrow> stop_frame a c"
  by (auto simp: stop_frame_def)

lemma stop_frame_kinds:
  "stop_frame d d' \<Longrightarrow> kind \<in> set (unresolvedKinds k i d) \<Longrightarrow> kind \<in> set (unresolvedKinds k i d')"
  by (auto simp: stop_frame_def unresolvedKinds_iff)

text \<open>A phase that was stopped: paused, with the reason on record, and otherwise as it was.\<close>

definition stopped_phase :: "stop_run_params \<Rightarrow> db \<Rightarrow> string \<Rightarrow> db \<Rightarrow> bool" where
  "stopped_phase params d i d' \<longleftrightarrow> (\<exists>p p'. tbl_get ph_id i (db_phases d) = Some p \<and> tbl_get ph_id i (db_phases d') = Some p' \<and>
     p' = p\<lparr>ph_gateStatus := ph_gateStatus p', ph_updatedAt := ph_updatedAt p'\<rparr> \<and>
     ph_gateStatus p' \<in> {PgPausedCap, PgPausedApproval} \<and>
     (stop_kind params \<in> set CAP_BLOCKER_KINDS \<longrightarrow> ph_gateStatus p' = PgPausedCap) \<and>
     stop_kind params \<in> set (unresolvedKinds SkPhase i d'))"

lemma pause_edges: "edge \<in> set PHASE_TRANSITIONS \<Longrightarrow> tr_to edge = PhPaused \<Longrightarrow> tr_id edge \<noteq> PhaseStaleEvidence"
  by (auto simp: PHASE_TRANSITIONS_def)

lemma stop_accepted:
  assumes run: "transitionPhase (stop_request params phase) w = (Inr res, w')"
  shows "stopped_phase params (w_db w) (ph_id phase) (w_db w') \<and> stop_frame (w_db w) (w_db w') \<and>
     db_phases (w_db w') = tbl_put ph_id (re_subject res) (db_phases (w_db w)) \<and> ph_id (re_subject res) = ph_id phase"
proof -
  have rq: "rq_to (stop_request params phase) = Known PhPaused" "rq_subject (stop_request params phase) = ph_id phase"
    by (simp_all add: stop_request_def)
  from transitionPhase_Inr [OF run] rq obtain p src edge ctx where
      acc: "phase_accepted (stop_request params phase) (w_db w) p src edge PhPaused ctx"
    and wr: "phase_written (w_db w) p edge PhPaused res (w_db w')"
    by (auto simp: phase_accepted_def)
  have p: "tbl_get ph_id (ph_id phase) (db_phases (w_db w)) = Some p" "ph_id p = ph_id phase"
    using acc rq by (auto simp: phase_accepted_def dest: tbl_get_key)
  have edge: "tr_id edge \<noteq> PhaseStaleEvidence"
    using acc pause_edges by (auto simp: phase_accepted_def)
  have kind: "stop_kind params \<in> set (unresolvedKinds SkPhase (ph_id phase) (w_db w'))"
    using transitionPhase_raises [OF run, of "stop_kind params" "so_reason params"] by (simp add: stop_request_def)
  from wr obtain ts where subject: "re_subject res = p\<lparr>ph_gateStatus :=
        phaseGateStatusFor PhPaused edge (unresolvedKinds SkPhase (ph_id p) (w_db w')), ph_updatedAt := ts\<rparr>"
    and put: "db_phases (w_db w') = tbl_put ph_id (re_subject res) (db_phases (w_db w))"
    by (auto simp: phase_written_def)
  have "tbl_get ph_id (ph_id phase) (db_phases (w_db w')) = Some (re_subject res)"
    using p subject by (simp add: put tbl_get_put)
  moreover have "stop_kind params \<in> set CAP_BLOCKER_KINDS \<Longrightarrow> ph_gateStatus (re_subject res) = PgPausedCap"
    using kind p(2) by (auto simp: subject phaseGateStatusFor_def edge list_ex_iff)
  moreover have "ph_gateStatus (re_subject res) \<in> {PgPausedCap, PgPausedApproval}"
    by (simp add: subject phaseGateStatusFor_def edge)
  ultimately have "stopped_phase params (w_db w) (ph_id phase) (w_db w')"
    using p(1) kind subject unfolding stopped_phase_def by (intro exI [of _ p] exI [of _ "re_subject res"]) simp
  then show ?thesis
    using wr put p(2) subject by (simp add: phase_written_def stop_frame_def)
qed

lemma refused_with_frame:
  "refused_with k i st h d e d' \<Longrightarrow> stop_frame d d' \<and> db_phases d' = db_phases d \<and> db_blockers d' = db_blockers d"
  by (auto simp: refused_with_def stop_frame_def)

lemma stop_refused:
  assumes "transitionPhase rq w = (Inl e, w')" and "w_depth w = 0"
  shows "stop_frame (w_db w) (w_db w') \<and> db_phases (w_db w') = db_phases (w_db w)"
  using transitionPhase_Inl [OF assms] refused_with_frame by (auto split: option.splits)

text \<open>One phase: whether it was stopped or refused, nothing but its own row, blockers and events changed.\<close>

lemma stopPhase_effect:
  assumes "stopPhase params phase w = (Inr r, w')" and "w_depth w = 0"
  shows "w_depth w' = 0 \<and> pr_phaseId r = ph_id phase \<and> stop_frame (w_db w) (w_db w') \<and>
     (\<forall>i. i \<noteq> ph_id phase \<longrightarrow> tbl_get ph_id i (db_phases (w_db w')) = tbl_get ph_id i (db_phases (w_db w))) \<and>
     (if pr_ok r then stopped_phase params (w_db w) (ph_id phase) (w_db w') else db_phases (w_db w') = db_phases (w_db w))"
proof (cases "transitionPhase (stop_request params phase) w")
  case (Pair x w1)
  have depth: "w_depth w1 = 0" using transitionPhase_depth [OF Pair assms(2)] .
  show ?thesis
  proof (cases x)
    case (Inl e)
    then have "pr_phaseId r = ph_id phase \<and> \<not> pr_ok r \<and> w' = w1"
      using assms(1) Pair by (auto simp: stopPhase_def tryCatch_def andThen_def rejected_or_throw_def phase_refused_def
          split: failure.splits)
    then show ?thesis using stop_refused [OF Pair [unfolded Inl] assms(2)] depth by simp
  next
    case (Inr res)
    have "r = phase_moved (ph_id phase) (re_subject res)" "w' = w1"
      using assms(1) Pair Inr by (auto simp: stopPhase_def tryCatch_def andThen_def)
    then show ?thesis
      using stop_accepted [OF Pair [unfolded Inr]] depth by (auto simp: phase_moved_def tbl_get_put)
  qed
qed

section \<open>A whole stop\<close>

lemma stopped_phase_later:
  assumes "stopped_phase params d i d1" and "stop_frame d1 d2"
    and "tbl_get ph_id i (db_phases d2) = tbl_get ph_id i (db_phases d1)"
  shows "stopped_phase params d i d2"
  using assms(1,3) stop_frame_kinds [OF assms(2)] unfolding stopped_phase_def by auto

lemma stopped_phase_earlier:
  assumes "stopped_phase params d1 i d2" and "tbl_get ph_id i (db_phases d1) = tbl_get ph_id i (db_phases d)"
  shows "stopped_phase params d i d2"
  using assms unfolding stopped_phase_def by simp

definition result_backed :: "stop_run_params \<Rightarrow> db \<Rightarrow> db \<Rightarrow> phase_result \<Rightarrow> bool" where
  "result_backed params d d' r \<longleftrightarrow>
     (if pr_ok r then stopped_phase params d (pr_phaseId r) d'
      else tbl_get ph_id (pr_phaseId r) (db_phases d') = tbl_get ph_id (pr_phaseId r) (db_phases d))"

lemma stop_each:
  assumes "mapEach (stopPhase params) phases w = (Inr rs, w')" and "w_depth w = 0" and "distinct (map ph_id phases)"
  shows "map pr_phaseId rs = map ph_id phases \<and> stop_frame (w_db w) (w_db w') \<and>
     (\<forall>i. i \<notin> set (map ph_id phases) \<longrightarrow> tbl_get ph_id i (db_phases (w_db w')) = tbl_get ph_id i (db_phases (w_db w))) \<and>
     (\<forall>r \<in> set rs. result_backed params (w_db w) (w_db w') r)"
  using assms
proof (induction phases arbitrary: w rs)
  case (Cons phase phases)
  from Cons.prems(1) obtain r w1 rest where one: "stopPhase params phase w = (Inr r, w1)"
    and others: "mapEach (stopPhase params) phases w1 = (Inr rest, w')" and rs: "rs = r # rest"
    by (auto simp: andThen_eq_Inr)
  note A = stopPhase_effect [OF one Cons.prems(2)]
  have B: "map pr_phaseId rest = map ph_id phases" "stop_frame (w_db w1) (w_db w')"
      "\<And>i. i \<notin> set (map ph_id phases) \<Longrightarrow> tbl_get ph_id i (db_phases (w_db w')) = tbl_get ph_id i (db_phases (w_db w1))"
      "\<And>s. s \<in> set rest \<Longrightarrow> result_backed params (w_db w1) (w_db w') s"
    using Cons.IH [OF others] A Cons.prems(3) by auto
  have fresh: "ph_id phase \<notin> set (map ph_id phases)" using Cons.prems(3) by simp
  have "result_backed params (w_db w) (w_db w') r"
    using A B(3) [OF fresh] stopped_phase_later [OF _ B(2)]
    by (auto simp: result_backed_def split: if_splits)
  moreover have "result_backed params (w_db w) (w_db w') s" if s: "s \<in> set rest" for s
  proof -
    have "pr_phaseId s \<in> set (map pr_phaseId rest)" using s by simp
    then have "pr_phaseId s \<noteq> ph_id phase" using B(1) fresh by metis
    then have "tbl_get ph_id (pr_phaseId s) (db_phases (w_db w1)) = tbl_get ph_id (pr_phaseId s) (db_phases (w_db w))"
      using A by simp
    then show ?thesis
      using B(4) [OF s] stopped_phase_earlier by (auto simp: result_backed_def split: if_splits)
  qed
  ultimately show ?case
    using A B(1-3) stop_frame_trans rs by (auto simp: stop_frame_def)
qed auto

lemma stop_targets_distinct:
  assumes "distinct (map ph_id (db_phases d))"
  shows "distinct (map ph_id (stop_targets params d))"
  using assms by (simp add: stop_targets_def phases_forWorkflow_def repo_query_def phaseRepo_def distinct_map_filter
      distinct_map inj_on_def)

lemma stopRun_effect:
  assumes "stopRun params w = (Inr rs, w')" and "w_depth w = 0" and "distinct (map ph_id (db_phases (w_db w)))"
  shows "map pr_phaseId rs = map ph_id (stop_targets params (w_db w)) \<and> stop_frame (w_db w) (w_db w') \<and>
     (\<forall>i. i \<notin> set (map pr_phaseId rs) \<longrightarrow> tbl_get ph_id i (db_phases (w_db w')) = tbl_get ph_id i (db_phases (w_db w))) \<and>
     (\<forall>r \<in> set rs. if pr_ok r then stopped_phase params (w_db w) (pr_phaseId r) (w_db w')
        else tbl_get ph_id (pr_phaseId r) (db_phases (w_db w')) = tbl_get ph_id (pr_phaseId r) (db_phases (w_db w)))"
proof -
  have run: "mapEach (stopPhase params) (stop_targets params (w_db w)) w = (Inr rs, w')"
    using assms(1) by (auto simp: stopRun_def andThen_eq_Inr)
  show ?thesis
    using stop_each [OF run assms(2) stop_targets_distinct [OF assms(3)]] by (simp add: result_backed_def)
qed

text \<open>A stop of a run pauses every phase it targets that is not finished, or reports the refusal for
  it: a stopped phase is stored as paused, as a cap pause when the reason is a cap, with the reason as an
  unresolved blocker and its run id kept; every task, attempt, receipt, decision, piece of evidence and
  approval is exactly as before, and no other phase changes.\<close>

theorem stop_leaves_resumable_state:
  assumes "stopRun params w = (Inr rs, w')" and "w_depth w = 0" and "distinct (map ph_id (db_phases (w_db w)))"
  shows "map pr_phaseId rs = map ph_id (stop_targets params (w_db w)) \<and> stop_frame (w_db w) (w_db w') \<and>
     (\<forall>i. i \<notin> set (map pr_phaseId rs) \<longrightarrow> tbl_get ph_id i (db_phases (w_db w')) = tbl_get ph_id i (db_phases (w_db w))) \<and>
     (\<forall>r \<in> set rs. if pr_ok r then stopped_phase params (w_db w) (pr_phaseId r) (w_db w')
        else tbl_get ph_id (pr_phaseId r) (db_phases (w_db w')) = tbl_get ph_id (pr_phaseId r) (db_phases (w_db w)))"
  by (rule stopRun_effect [OF assms])

definition fx_stop :: stop_run_params where
  "fx_stop = \<lparr>so_workflowId = ''w'', so_actor = fx_engine, so_reason = ''cap'', so_budgetStop = True,
     so_phaseIds = None, so_blockerKind = None\<rparr>"

lemma fx_stop_runs:
  "case fst (stopRun fx_stop (fx_world (fx_db Running PgRunning None))) of Inl _ \<Rightarrow> False
   | Inr rs \<Rightarrow> map (\<lambda>r. (pr_phaseId r, pr_ok r)) rs = [(''p'', True)]"
  by code_simp

lemma stop_leaves_resumable_state_witness:
  "\<exists>rs w'. stopRun fx_stop (fx_world (fx_db Running PgRunning None)) = (Inr rs, w') \<and>
     db_tasks (w_db w') = [fx_task Running] \<and> (\<exists>p. tbl_get ph_id ''p'' (db_phases (w_db w')) = Some p \<and> ph_gateStatus p = PgPausedCap)"
proof -
  obtain rs w' where run: "stopRun fx_stop (fx_world (fx_db Running PgRunning None)) = (Inr rs, w')"
    and rs: "map (\<lambda>r. (pr_phaseId r, pr_ok r)) rs = [(''p'', True)]"
    using fx_stop_runs by (cases "stopRun fx_stop (fx_world (fx_db Running PgRunning None))") (auto split: sum.splits)
  then obtain r where r: "rs = [r]" "pr_phaseId r = ''p''" "pr_ok r" by auto
  have "distinct (map ph_id (db_phases (w_db (fx_world (fx_db Running PgRunning None)))))" by code_simp
  from stop_leaves_resumable_state [OF run _ this] show ?thesis
    using run r by (auto simp: stopped_phase_def stop_frame_def fx_stop_def stop_kind_def CAP_BLOCKER_KINDS_def fx_db_def)
qed

section \<open>A whole start\<close>

definition started_phase :: "string \<Rightarrow> string \<Rightarrow> db \<Rightarrow> bool" where
  "started_phase runId i d \<longleftrightarrow> (\<exists>p. tbl_get ph_id i (db_phases d) = Some p \<and> ph_gateStatus p = PgRunning \<and> ph_runId p = Some runId)"

lemma start_edges: "edge \<in> set PHASE_TRANSITIONS \<Longrightarrow> tr_to edge = PhRunning \<Longrightarrow> tr_trigger edge = ''run'' \<Longrightarrow>
    tr_id edge = PhaseStart \<and> tr_from edge = [PhPending] \<and>
    PcPhaseStartValid \<in> set (tr_preconditions edge) \<and> PcAuthorizationCurrent \<in> set (tr_preconditions edge)"
  by (auto simp: PHASE_TRANSITIONS_def)

lemma phaseStartValid_cong: "db_tasks d = db_tasks d' \<Longrightarrow> phaseStartValid d pid = phaseStartValid d' pid"
  by (simp add: phaseStartValid_def tasks_forPhase_def repo_query_def taskRepo_def)

lemma start_accepted:
  assumes run: "transitionPhase (start_request params runId pid) w = (Inr res, w')"
  shows "phaseStartValid (w_db w) pid \<and> st_authorizationCurrent params pid = GTrue \<and> db_tasks (w_db w') = db_tasks (w_db w) \<and>
     ph_id (re_subject res) = pid \<and> ph_gateStatus (re_subject res) = PgRunning \<and>
     tbl_get ph_id pid (db_phases (w_db w')) = Some (re_subject res) \<and>
     db_phases (w_db w') = tbl_put ph_id (re_subject res) (db_phases (w_db w))"
proof -
  let ?rq = "start_request params runId pid"
  have rq: "rq_to ?rq = Known PhRunning" "rq_subject ?rq = pid" "rq_trigger ?rq = ''run''"
    by (simp_all add: start_request_def)
  from transitionPhase_Inr [OF run] rq obtain p src edge ctx where
      acc: "phase_accepted ?rq (w_db w) p src edge PhRunning ctx"
    and wr: "phase_written (w_db w) p edge PhRunning res (w_db w')"
    by (auto simp: phase_accepted_def)
  have edge: "tr_id edge = PhaseStart" "PcPhaseStartValid \<in> set (tr_preconditions edge)"
      "PcAuthorizationCurrent \<in> set (tr_preconditions edge)"
    using acc start_edges [of edge] rq(3) by (simp_all add: phase_accepted_def)
  have p: "tbl_get ph_id pid (db_phases (w_db w)) = Some p" "ph_id p = pid"
    using acc rq by (auto simp: phase_accepted_def dest: tbl_get_key)
  have guards: "guards_hold (tr_preconditions edge) (rq_guards ?rq) ctx" "gx_task ctx = None" "db_tasks (gx_db ctx) = db_tasks (w_db w)"
    using acc by (simp_all add: phase_accepted_def)
  have "phaseStartValid (gx_db ctx) pid" "st_authorizationCurrent params pid = GTrue"
    using guards(1,2) edge(2,3)
    by (auto simp: guards_hold_iff structuralGuards_def start_request_def of_verdict_def split: if_splits)
  moreover have "ph_gateStatus (re_subject res) = PgRunning" "ph_id (re_subject res) = pid"
    using wr p(2) by (auto simp: phase_written_def phaseGateStatusFor_def edge(1) phaseStorageStatus_def)
  ultimately show ?thesis
    using wr p phaseStartValid_cong [OF guards(3)] by (simp add: phase_written_def tbl_get_put)
qed

definition not_rejection :: "failure \<Rightarrow> bool" where
  "not_rejection e \<longleftrightarrow> (\<forall>code failed ev. e \<noteq> TransitionRejected code failed ev)"

lemma throws_phases_update: "throws_only not_rejection (phases_update i f)"
  unfolding phases_update_def repo_update_def repo_require_def repo_get_def writeAuditRow_def Let_def
  by (intro throws_intros) (simp_all add: not_rejection_def)

lemma phases_update_Inr_row:
  assumes "phases_update i f w = (Inr p', w')"
  shows "\<exists>p ts. tbl_get ph_id i (db_phases (w_db w)) = Some p \<and> p' = (f p)\<lparr>ph_updatedAt := ts\<rparr> \<and>
     db_phases (w_db w') = tbl_put ph_id p' (db_phases (w_db w)) \<and> db_tasks (w_db w') = db_tasks (w_db w)"
  using assms
proof (rule phases_update_InrE)
  fix p ts row
  assume "tbl_get ph_id i (db_phases (w_db w)) = Some p" "p' = (f p)\<lparr>ph_updatedAt := ts\<rparr>"
    "w_db w' = (w_db w)\<lparr>db_phases := tbl_put ph_id p' (db_phases (w_db w)), db_audit := db_audit (w_db w) @ [row]\<rparr>"
  then show ?thesis by (intro exI [of _ p] exI [of _ ts]) simp
qed

lemma phases_update_depth: "phases_update i f w = (r, w') \<Longrightarrow> w_depth w = 0 \<Longrightarrow> w_depth w' = 0"
  unfolding phases_update_def repo_update_def by (rule store_write_depth)

lemma startPhase_effect:
  assumes "startPhase params runId pid w = (Inr r, w')" and "w_depth w = 0"
  shows "w_depth w' = 0 \<and> pr_phaseId r = pid \<and> db_tasks (w_db w') = db_tasks (w_db w) \<and>
     (\<forall>i. started_phase runId i (w_db w) \<longrightarrow> started_phase runId i (w_db w')) \<and>
     (if pr_ok r then phaseStartValid (w_db w) pid \<and> st_authorizationCurrent params pid = GTrue \<and> started_phase runId pid (w_db w')
      else db_phases (w_db w') = db_phases (w_db w))"
proof (cases "transitionPhase (start_request params runId pid) w")
  case (Pair x w1)
  have depth: "w_depth w1 = 0" using transitionPhase_depth [OF Pair assms(2)] .
  show ?thesis
  proof (cases x)
    case (Inl e)
    then have "pr_phaseId r = pid \<and> \<not> pr_ok r \<and> w' = w1"
      using assms(1) Pair by (auto simp: startPhase_def tryCatch_def andThen_def rejected_or_throw_def phase_refused_def
          split: failure.splits)
    then show ?thesis
      using stop_refused [OF Pair [unfolded Inl] assms(2)] depth by (simp add: stop_frame_def started_phase_def)
  next
    case (Inr res)
    note A = start_accepted [OF Pair [unfolded Inr]]
    have "\<not> (\<exists>e w2. phases_update (ph_id (re_subject res)) (\<lambda>p. p\<lparr>ph_runId := Some runId\<rparr>) w1 = (Inl e, w2))"
    proof
      assume "\<exists>e w2. phases_update (ph_id (re_subject res)) (\<lambda>p. p\<lparr>ph_runId := Some runId\<rparr>) w1 = (Inl e, w2)"
      then obtain e w2 where failed: "phases_update (ph_id (re_subject res)) (\<lambda>p. p\<lparr>ph_runId := Some runId\<rparr>) w1 = (Inl e, w2)"
        by blast
      have "not_rejection e" using throws_onlyD [OF throws_phases_update failed] .
      then show False
        using assms(1) Pair Inr failed
        by (auto simp: startPhase_def tryCatch_def andThen_def rejected_or_throw_def not_rejection_def split: failure.splits)
    qed
    then obtain tagged where upd: "phases_update (ph_id (re_subject res)) (\<lambda>p. p\<lparr>ph_runId := Some runId\<rparr>) w1 = (Inr tagged, w')"
      and r: "r = phase_moved pid tagged"
      using assms(1) Pair Inr by (auto simp: startPhase_def tryCatch_def andThen_def split: prod.splits sum.splits)
    from phases_update_Inr_row [OF upd] A obtain ts where
        t: "tagged = (re_subject res)\<lparr>ph_runId := Some runId, ph_updatedAt := ts\<rparr>"
      and put: "db_phases (w_db w') = tbl_put ph_id tagged (db_phases (w_db w1))" and tasks: "db_tasks (w_db w') = db_tasks (w_db w1)"
      by auto
    have "tbl_get ph_id pid (db_phases (w_db w1)) = Some (re_subject res)" "ph_id (re_subject res) = pid"
        "ph_gateStatus (re_subject res) = PgRunning"
      using A by blast+
    then have "started_phase runId pid (w_db w')"
      using t by (simp add: started_phase_def put tbl_get_put)
    moreover have "started_phase runId i (w_db w')" if "started_phase runId i (w_db w)" for i
    proof (cases "i = pid")
      case False
      then have "tbl_get ph_id i (db_phases (w_db w')) = tbl_get ph_id i (db_phases (w_db w))"
        using A t by (simp add: put tbl_get_put)
      then show ?thesis using that by (simp add: started_phase_def)
    qed (simp add: calculation)
    ultimately show ?thesis
      using A tasks r phases_update_depth [OF upd depth] by (simp add: phase_moved_def)
  qed
qed

lemma start_each:
  assumes "mapEach (startPhase params runId) pids w = (Inr rs, w')" and "w_depth w = 0"
  shows "map pr_phaseId rs = pids \<and> db_tasks (w_db w') = db_tasks (w_db w) \<and>
     (\<forall>i. started_phase runId i (w_db w) \<longrightarrow> started_phase runId i (w_db w')) \<and>
     (\<forall>r \<in> set rs. pr_ok r \<longrightarrow> phaseStartValid (w_db w) (pr_phaseId r) \<and>
        st_authorizationCurrent params (pr_phaseId r) = GTrue \<and> started_phase runId (pr_phaseId r) (w_db w')) \<and>
     ((\<forall>r \<in> set rs. \<not> pr_ok r) \<longrightarrow> db_phases (w_db w') = db_phases (w_db w))"
  using assms
proof (induction pids arbitrary: w rs)
  case (Cons pid pids)
  from Cons.prems(1) obtain r w1 rest where one: "startPhase params runId pid w = (Inr r, w1)"
    and others: "mapEach (startPhase params runId) pids w1 = (Inr rest, w')" and rs: "rs = r # rest"
    by (auto simp: andThen_eq_Inr)
  note A = startPhase_effect [OF one Cons.prems(2)]
  note B = Cons.IH [OF others conjunct1 [OF A]]
  have "phaseStartValid (w_db w1) i = phaseStartValid (w_db w) i" for i
    using phaseStartValid_cong A by blast
  then show ?case using A B rs by (auto split: if_splits)
qed auto

text \<open>A phase a run starts had work to schedule and a current authorisation, is stored as running and
  carries the id of the run, which was recorded with its targets before any phase was touched; a refusal
  of one phase does not keep the others from starting, and no task changes.\<close>

theorem run_starts_only_startable_phases:
  assumes "startRun params runs w = (Inr (runId, rs, runs'), w')" and "w_depth w = 0"
  shows "map pr_phaseId rs = st_phaseIds params \<and> db_tasks (w_db w') = db_tasks (w_db w) \<and>
     (\<exists>ts. runs' = runs @ [\<lparr>rn_runId = runId, rn_createdAt = ts, rn_workflowId = st_workflowId params,
        rn_phaseIds = st_phaseIds params\<rparr>]) \<and>
     (\<forall>r \<in> set rs. pr_ok r \<longrightarrow> phaseStartValid (w_db w) (pr_phaseId r) \<and>
        st_authorizationCurrent params (pr_phaseId r) = GTrue \<and> started_phase runId (pr_phaseId r) (w_db w')) \<and>
     ((\<forall>r \<in> set rs. \<not> pr_ok r) \<longrightarrow> db_phases (w_db w') = db_phases (w_db w))"
proof -
  from assms(1) obtain w1 where each: "mapEach (startPhase params runId) (st_phaseIds params) w1 = (Inr rs, w')"
    and w1: "w_db w1 = w_db w" "w_depth w1 = w_depth w"
    and runs': "\<exists>ts. runs' = runs @ [\<lparr>rn_runId = runId, rn_createdAt = ts, rn_workflowId = st_workflowId params,
        rn_phaseIds = st_phaseIds params\<rparr>]"
    by (auto simp: startRun_def andThen_eq_Inr newId_def getNow_def runs_insert_def split: if_splits)
  show ?thesis
    using start_each [OF each] w1 runs' assms(2) by simp
qed

definition fx_start :: start_run_params where
  "fx_start = \<lparr>st_workflowId = ''w'', st_phaseIds = [''p'', ''q''], st_actor = fx_engine, st_authorizationCurrent = (\<lambda>_. GTrue)\<rparr>"

lemma fx_start_runs:
  "case fst (startRun fx_start [] (fx_world (fx_db Ready PgPending None))) of Inl _ \<Rightarrow> False
   | Inr (runId, rs, runs') \<Rightarrow> map (\<lambda>r. (pr_phaseId r, pr_ok r)) rs = [(''p'', True), (''q'', False)]"
  by code_simp

lemma run_starts_only_startable_phases_witness:
  "\<exists>runId rs runs' w'. startRun fx_start [] (fx_world (fx_db Ready PgPending None)) = (Inr (runId, rs, runs'), w') \<and>
     started_phase runId ''p'' (w_db w') \<and> db_tasks (w_db w') = [fx_task Ready]"
proof -
  obtain runId rs runs' w' where run: "startRun fx_start [] (fx_world (fx_db Ready PgPending None)) = (Inr (runId, rs, runs'), w')"
    and rs: "map (\<lambda>r. (pr_phaseId r, pr_ok r)) rs = [(''p'', True), (''q'', False)]"
    using fx_start_runs by (cases "startRun fx_start [] (fx_world (fx_db Ready PgPending None))") (auto split: sum.splits)
  then obtain r s where r: "rs = [r, s]" "pr_phaseId r = ''p''" "pr_ok r" by auto
  have "w_depth (fx_world (fx_db Ready PgPending None)) = 0" by simp
  from run_starts_only_startable_phases [OF run this] show ?thesis
    using run r by (auto simp: fx_db_def)
qed

section \<open>What the estimate adds up\<close>

definition priced :: "estimate_params \<Rightarrow> task \<Rightarrow> bool" where
  "priced params t \<longleftrightarrow> us_costBasis (task_usage params t) \<noteq> CostUnknown"

lemma task_usage_basis: "us_costBasis (task_usage params t) \<noteq> CostKnown"
  by (simp add: task_usage_def classifyCost_def Let_def)

lemma estimate_fold:
  "foldl (\<lambda>ep task. estimate_task ep (task_usage params task)) ep ts = ep\<lparr>
     ep_estimatedUsd := ep_estimatedUsd ep + sum_list (map (\<lambda>t. spend_of (task_usage params t)) (filter (priced params) ts)),
     ep_unknownTasks := ep_unknownTasks ep + length (filter (\<lambda>t. \<not> priced params t) ts)\<rparr>"
  by (induction ts arbitrary: ep) (simp_all add: estimate_task_def priced_def task_usage_basis add.assoc)

lemma task_usage_nonneg: "0 \<le> spend_of (task_usage params t)"
proof -
  have "0 \<le> of_nat m * priceOrZero p + of_nat n * priceOrZero q" for m n p q
    by (intro add_nonneg_nonneg spend_nonneg)
  then show ?thesis
    by (auto simp: task_usage_def classifyCost_def spend_of_def Let_def)
qed

abbreviation run_tasks :: "db \<Rightarrow> string list \<Rightarrow> task list" where
  "run_tasks d pids \<equiv> concat (map (pending_tasks d) pids)"

lemma estimateRun_fold:
  "(let r = foldl (\<lambda>es pid. add_phase es (estimatePhase params d pid)) es pids in
     es_tasks r = es_tasks es + length (run_tasks d pids) \<and> es_knownUsd r = es_knownUsd es \<and>
     es_unknownTasks r = es_unknownTasks es + length (filter (\<lambda>t. \<not> priced params t) (run_tasks d pids)) \<and>
     es_estimatedUsd r = es_estimatedUsd es + sum_list (map (\<lambda>t. spend_of (task_usage params t)) (filter (priced params) (run_tasks d pids))))"
  by (induction pids arbitrary: es) (simp_all add: Let_def add_phase_def estimatePhase_def estimate_fold)

text \<open>The estimate shown before a run counts every unfinished task of the targeted phases exactly once:
  the ones without tokens or a price as unknown and never as a figure, the others with their estimate;
  it claims no known spend, and its figure is never negative.\<close>

theorem estimate_counts_every_task:
  "es_tasks (estimateRun params pids d) = length (run_tasks d pids) \<and>
   es_knownUsd (estimateRun params pids d) = 0 \<and>
   es_unknownTasks (estimateRun params pids d) = length (filter (\<lambda>t. \<not> priced params t) (run_tasks d pids)) \<and>
   es_estimatedUsd (estimateRun params pids d) =
     sum_list (map (\<lambda>t. spend_of (task_usage params t)) (filter (priced params) (run_tasks d pids))) \<and>
   0 \<le> es_estimatedUsd (estimateRun params pids d)"
proof -
  have "0 \<le> sum_list (map (\<lambda>t. spend_of (task_usage params t)) ts)" for ts
    by (rule sum_list_nonneg) (auto simp: task_usage_nonneg)
  then show ?thesis
    using estimateRun_fold [of params d "\<lparr>es_tasks = 0, es_knownUsd = 0, es_estimatedUsd = 0, es_unknownTasks = 0, es_perPhase = []\<rparr>" pids]
    by (simp add: estimateRun_def Let_def)
qed

end
