(* ===== verification/BudgetStops.thy ===== *)
theory BudgetStops
  imports RunPhases
begin

text \<open>
  The reaction to a refused reservation (\<open>src/workflow/budget-stops.ts\<close>): the latch, the
  reservation hook of the scheduler, the hard stop and the resume after a raised cap. The governor is
  a value passed along; ids of ledger rows come from the stream \<open>hp_ids\<close>; the text of a breach
  takes the rendering of a number as a parameter.
\<close>

section \<open>The latch\<close>

definition BUDGET_STOP_BLOCKER :: string where
  "BUDGET_STOP_BLOCKER = ''budget_hard_stop''"

record budget_breach =
  bb_scope :: budget_scope_kind
  bb_cap :: budget_cap
  bb_limit :: rat
  bb_committed :: rat
  bb_requested :: rat
  bb_cumulative :: bool
  bb_taskId :: "string option"
  bb_at :: iso_timestamp

primrec scope_name :: "budget_scope_kind \<Rightarrow> string" where
  "scope_name BsWorkflow = ''workflow''"
| "scope_name BsPhase = ''phase''"
| "scope_name BsTask = ''task''"
| "scope_name BsJev = ''jev''"

primrec cap_name :: "budget_cap \<Rightarrow> string" where
  "cap_name CapSpendUsd = ''maxSpendUsd''"
| "cap_name CapTokens = ''maxTokens''"
| "cap_name CapRequests = ''maxRequests''"
| "cap_name CapConcurrency = ''maxConcurrency''"
| "cap_name CapElapsedMs = ''maxElapsedMs''"

definition describeBreach :: "(rat \<Rightarrow> string) \<Rightarrow> budget_breach \<Rightarrow> string" where
  "describeBreach num b =
     scope_name (bb_scope b) @ '' budget cap '' @ cap_name (bb_cap b) @ '' = '' @ num (bb_limit b) @ '' reached: '' @
     num (bb_committed b) @ '' committed, '' @ num (bb_requested b) @ '' more requested'' @
     (case bb_taskId b of None \<Rightarrow> [] | Some t \<Rightarrow> '' (refused dispatch of task '' @ t @ '')'')"

text \<open>\<open>None\<close> when the error is not a \<open>BudgetExceededError\<close>.\<close>

fun breachOf :: "ledger_error \<Rightarrow> iso_timestamp \<Rightarrow> string option \<Rightarrow> budget_breach option" where
  "breachOf (BudgetExceeded kind cap limit committed requested) ts taskId =
     Some \<lparr>bb_scope = kind, bb_cap = cap, bb_limit = limit, bb_committed = committed, bb_requested = requested,
       bb_cumulative = isCumulativeCap cap, bb_taskId = taskId, bb_at = ts\<rparr>"
| "breachOf _ ts taskId = None"

record governor =
  gv_breaches :: "budget_breach list"
  gv_stopped :: "budget_breach option"

definition new_governor :: governor where
  "new_governor = \<lparr>gv_breaches = [], gv_stopped = None\<rparr>"

definition shouldStop :: "governor \<Rightarrow> bool" where
  "shouldStop g \<longleftrightarrow> gv_stopped g \<noteq> None"

definition record_breach :: "budget_breach \<Rightarrow> governor \<Rightarrow> governor" where
  "record_breach b g = g\<lparr>gv_breaches := gv_breaches g @ [b],
     gv_stopped := (if bb_cumulative b \<and> gv_stopped g = None then Some b else gv_stopped g)\<rparr>"

definition clearForRaisedCap :: "governor \<Rightarrow> governor" where
  "clearForRaisedCap g = g\<lparr>gv_stopped := None\<rparr>"

definition stopReason :: "(rat \<Rightarrow> string) \<Rightarrow> governor \<Rightarrow> string" where
  "stopReason num g = (case gv_stopped g of None \<Rightarrow> []
     | Some b \<Rightarrow> describeBreach num b @ ''. No further tasks were dispatched. '' @
         ''Spend already recorded is kept; raise the cap in config and re-run to resume.'')"

section \<open>The reservation hook\<close>

record hook_params =
  hp_env :: ledger_env
  hp_workflowId :: string
  hp_estimateFor :: "task \<Rightarrow> usage"
  hp_now :: iso_timestamp
  hp_label :: "(task \<Rightarrow> string) option"
  hp_actualFor :: "(task \<Rightarrow> usage option) option"
  hp_ids :: "nat \<Rightarrow> string"

record hook_state =
  hk_governor :: governor
  hk_rows :: "ledger_entry list"
  hk_ids :: nat

record dispatch_reservation =
  dv_reservation :: reservation
  dv_task :: task
  dv_released :: bool

definition task_scope :: "hook_params \<Rightarrow> task \<Rightarrow> ledger_scope" where
  "task_scope params task = \<lparr>lg_workflowId = hp_workflowId params, lg_phaseId = Some (t_phaseId task),
     lg_taskId = Some (t_id task), lg_attemptId = None\<rparr>"

definition budgetReservationHook ::
  "hook_params \<Rightarrow> task \<Rightarrow> hook_state \<Rightarrow> ledger_error + dispatch_reservation option \<times> hook_state"
where
  "budgetReservationHook params task h =
     (if shouldStop (hk_governor h) then Inr (None, h)
      else case reserve (hp_env params) (hp_now params) (hp_ids params (hk_ids h)) (task_scope params task) ChModel
          (hp_estimateFor params task) (map_option (\<lambda>f. f task) (hp_label params)) (hk_rows h) of
        Inl e \<Rightarrow>
          (case breachOf e (hp_now params) (Some (t_id task)) of
             None \<Rightarrow> Inl e
           | Some b \<Rightarrow> Inr (None, h\<lparr>hk_governor := record_breach b (hk_governor h)\<rparr>))
      | Inr (r, rows) \<Rightarrow> Inr (Some \<lparr>dv_reservation = r, dv_task = task, dv_released = False\<rparr>,
          h\<lparr>hk_rows := rows, hk_ids := Suc (hk_ids h)\<rparr>))"

text \<open>\<open>release\<close>: the flag is set before the ledger is called, so it stays set when the ledger throws.\<close>

definition releaseDispatch ::
  "hook_params \<Rightarrow> dispatch_reservation \<Rightarrow> hook_state \<Rightarrow> (ledger_error + hook_state) \<times> dispatch_reservation"
where
  "releaseDispatch params dv h =
     (if dv_released dv then (Inr h, dv)
      else let task = dv_task dv; nid = hp_ids params (hk_ids h); why = ''dispatch settled for task '' @ t_id task;
               closed_by = (case hp_actualFor params of None \<Rightarrow> None | Some f \<Rightarrow> f task) in
        (map_sum (\<lambda>e. e) (\<lambda>rows. h\<lparr>hk_rows := rows, hk_ids := Suc (hk_ids h)\<rparr>)
           (case closed_by of
              None \<Rightarrow> release_reservation (hp_env params) (hp_now params) nid (dv_reservation dv) why (hk_rows h)
            | Some actual \<Rightarrow> settle (hp_env params) (hp_now params) nid (dv_reservation dv) actual 0 (Some why) (hk_rows h)),
         dv\<lparr>dv_released := True\<rparr>))"

section \<open>The stop\<close>

record budget_stop_params =
  bs_workflowId :: string
  bs_actor :: transition_actor
  bs_phaseIds :: "string list"
  bs_num :: "rat \<Rightarrow> string"

record budget_stop_result =
  br_stopped :: bool
  br_breach :: "budget_breach option"
  br_reason :: string
  br_phases :: "phase_result list"

definition phaseOfBreach :: "budget_breach \<Rightarrow> db \<Rightarrow> string option" where
  "phaseOfBreach b d = (case bb_taskId b of None \<Rightarrow> None
     | Some tid \<Rightarrow> map_option t_phaseId (tbl_get t_id tid (db_tasks d)))"

definition affected_phases :: "budget_stop_params \<Rightarrow> budget_breach \<Rightarrow> db \<Rightarrow> string list" where
  "affected_phases params b d =
     (case (if bb_scope b = BsPhase then phaseOfBreach b d else None) of
        None \<Rightarrow> bs_phaseIds params
      | Some pid \<Rightarrow> filter (\<lambda>i. i = pid) (bs_phaseIds params))"

definition budget_stop_run :: "budget_stop_params \<Rightarrow> governor \<Rightarrow> string list \<Rightarrow> stop_run_params" where
  "budget_stop_run params g affected = \<lparr>so_workflowId = bs_workflowId params, so_actor = bs_actor params,
     so_reason = stopReason (bs_num params) g, so_budgetStop = True, so_phaseIds = Some affected,
     so_blockerKind = Some BUDGET_STOP_BLOCKER\<rparr>"

definition applyBudgetStop :: "budget_stop_params \<Rightarrow> governor \<Rightarrow> budget_stop_result io" where
  "applyBudgetStop params g =
     (case gv_stopped g of
        None \<Rightarrow> ret \<lparr>br_stopped = False, br_breach = None, br_reason = [], br_phases = []\<rparr>
      | Some b \<Rightarrow>
          andThen (getDb (affected_phases params b)) (\<lambda>affected.
          andThen (stopRun (budget_stop_run params g affected)) (\<lambda>phases.
          ret \<lparr>br_stopped = True, br_breach = Some b, br_reason = stopReason (bs_num params) g, br_phases = phases\<rparr>)))"

section \<open>Headroom and resume\<close>

record remaining_cap =
  rc_cap :: budget_cap
  rc_limit :: "rat option"
  rc_used :: rat
  rc_remaining :: "rat option"
  rc_exhausted :: bool

record remaining_budget =
  rb_scope :: budget_scope_kind
  rb_id :: string
  rb_caps :: "remaining_cap list"
  rb_exhausted :: bool
  rb_unknownCostRequests :: int

definition remaining_of :: "budget_cap \<times> cap_status \<Rightarrow> remaining_cap" where
  "remaining_of p = \<lparr>rc_cap = fst p, rc_limit = cs_limit (snd p), rc_used = cs_used (snd p),
     rc_remaining = cs_remaining (snd p),
     rc_exhausted = (case cs_remaining (snd p) of None \<Rightarrow> False | Some r \<Rightarrow> r \<le> 0)\<rparr>"

definition remaining_scope :: "scope_status \<Rightarrow> remaining_budget" where
  "remaining_scope s =
     (let caps = map remaining_of [(CapSpendUsd, sx_spendUsd s), (CapTokens, sx_tokens s), (CapRequests, sx_requests s),
        (CapConcurrency, sx_concurrency s), (CapElapsedMs, sx_elapsedMs s)]
      in \<lparr>rb_scope = sx_scope s, rb_id = sx_id s, rb_caps = caps,
        rb_exhausted = list_ex (\<lambda>c. rc_exhausted c \<and> isCumulativeCap (rc_cap c)) caps,
        rb_unknownCostRequests = sx_unknownCostRequests s\<rparr>)"

definition remainingBudget :: "ledger_env \<Rightarrow> ledger_entry list \<Rightarrow> ledger_scope \<Rightarrow> remaining_budget list" where
  "remainingBudget env rows scope = map remaining_scope (fst (ledger_status env rows scope ChModel))"

record resume_params =
  rm_workflowId :: string
  rm_env :: ledger_env
  rm_actor :: transition_actor
  rm_phaseIds :: "string list"
  rm_authorizationCurrent :: "string \<Rightarrow> guard_outcome"

definition resume_scope :: "resume_params \<Rightarrow> governor \<Rightarrow> ledger_scope" where
  "resume_scope params g = \<lparr>lg_workflowId = rm_workflowId params,
     lg_phaseId = (case rm_phaseIds params of [] \<Rightarrow> None | i # _ \<Rightarrow> Some i),
     lg_taskId = (case gv_stopped g of None \<Rightarrow> None | Some b \<Rightarrow> bb_taskId b), lg_attemptId = None\<rparr>"

text \<open>The breach that still holds the resume back, if any.\<close>

definition resume_refusal :: "governor \<Rightarrow> remaining_budget list \<Rightarrow> remaining_cap option" where
  "resume_refusal g remaining_now =
     (case gv_stopped g of None \<Rightarrow> None
      | Some b \<Rightarrow> (case find (\<lambda>r. rb_scope r = bb_scope b) remaining_now of None \<Rightarrow> None
          | Some still \<Rightarrow> (case find (\<lambda>c. rc_cap c = bb_cap b) (rb_caps still) of None \<Rightarrow> None
              | Some c \<Rightarrow> if rc_exhausted c then Some c else None)))"

definition resume_request :: "resume_params \<Rightarrow> string \<Rightarrow> phase_state transition_request" where
  "resume_request params pid = \<lparr>rq_subject = pid, rq_to = Known PhPending, rq_actor = rm_actor params,
     rq_trigger = ''user_resume'', rq_guards = (\<lambda>pc.
        if pc = PcManualResumeValid then Some (\<lambda>_. GTrue)
        else if pc = PcAuthorizationCurrent then Some (\<lambda>_. rm_authorizationCurrent params pid) else None),
     rq_evidenceRefs = [''budget-cap-raised:'' @ pid, ''resume:user_resume''], rq_gitRevision = None,
     rq_expectedStatus = None, rq_expectedRevision = None, rq_blocker = None, rq_gateReceiptId = None\<rparr>"

definition resumeOnePhase :: "resume_params \<Rightarrow> string \<Rightarrow> phase_result io" where
  "resumeOnePhase params pid =
     andThen (repo_get phaseRepo pid) (\<lambda>found.
       case found of
         None \<Rightarrow> ret (phase_refused pid RsUnknownPhase)
       | Some phase \<Rightarrow>
           if ph_gateStatus phase \<noteq> PgPausedCap \<and> ph_gateStatus phase \<noteq> PgPausedApproval
           then ret (phase_refused pid (RsNotPaused (ph_gateStatus phase)))
           else andThen (resolveBlockersOfKind (rm_actor params) SkPhase pid BUDGET_STOP_BLOCKER
                 ''user raised the budget cap in config'') (\<lambda>_.
             andThen (getDb (unresolvedKinds SkPhase pid)) (\<lambda>kinds.
             if kinds \<noteq> [] then ret (phase_refused pid (RsStillBlocked kinds))
             else tryCatch
               (andThen (transitionPhase (resume_request params pid)) (\<lambda>result. ret (phase_moved pid (re_subject result))))
               (rejected_or_throw pid))))"

record resume_result =
  rt_resumed :: bool
  rt_refusal :: "remaining_cap option"
  rt_phases :: "phase_result list"
  rt_remaining :: "remaining_budget list"

definition resumeAfterCapRaised ::
  "resume_params \<Rightarrow> governor \<Rightarrow> ledger_entry list \<Rightarrow> (resume_result \<times> governor) io"
where
  "resumeAfterCapRaised params g rows =
     (let remaining_now = remainingBudget (rm_env params) rows (resume_scope params g) in
      case resume_refusal g remaining_now of
        Some c \<Rightarrow> ret (\<lparr>rt_resumed = False, rt_refusal = Some c, rt_phases = [], rt_remaining = remaining_now\<rparr>, g)
      | None \<Rightarrow> andThen (mapEach (resumeOnePhase params) (rm_phaseIds params)) (\<lambda>phases.
          ret (\<lparr>rt_resumed = list_ex pr_ok phases, rt_refusal = None, rt_phases = phases,
            rt_remaining = remaining_now\<rparr>, clearForRaisedCap g)))"

section \<open>No dispatch after a cap is reached\<close>

datatype hook_op = HkAsk task | HkRelease dispatch_reservation

definition hook_step :: "hook_params \<Rightarrow> hook_state \<Rightarrow> hook_op \<Rightarrow> hook_state" where
  "hook_step params h op = (case op of
       HkAsk task \<Rightarrow> (case budgetReservationHook params task h of Inl _ \<Rightarrow> h | Inr (_, h') \<Rightarrow> h')
     | HkRelease dv \<Rightarrow> (case fst (releaseDispatch params dv h) of Inl _ \<Rightarrow> h | Inr h' \<Rightarrow> h'))"

lemma release_keeps_governor:
  "fst (releaseDispatch params dv h) = Inr h' \<Longrightarrow> hk_governor h' = hk_governor h"
  by (auto simp: releaseDispatch_def Let_def map_sum_eq_Inr split: if_splits)

lemma stopped_hook: "shouldStop (hk_governor h) \<Longrightarrow> budgetReservationHook params task h = Inr (None, h)"
  by (simp add: budgetReservationHook_def)

interpretation latched: stepwise_invariant "hook_step params" "\<lambda>h. gv_stopped (hk_governor h) = Some b"
proof
  fix h :: hook_state and op
  assume "gv_stopped (hk_governor h) = Some b"
  then show "gv_stopped (hk_governor (hook_step params h op)) = Some b"
    using stopped_hook [of h] release_keeps_governor [of params _ h]
    by (auto simp: hook_step_def shouldStop_def split: hook_op.split sum.split)
qed

lemma breach_latches:
  assumes "reserve (hp_env params) (hp_now params) (hp_ids params (hk_ids h)) (task_scope params task) ChModel
       (hp_estimateFor params task) (map_option (\<lambda>f. f task) (hp_label params)) (hk_rows h) =
       Inl (BudgetExceeded kind cap limit committed requested)"
    and "isCumulativeCap cap"
  shows "\<exists>h'. budgetReservationHook params task h = Inr (None, h') \<and> hk_rows h' = hk_rows h \<and> shouldStop (hk_governor h')"
  using assms by (auto simp: budgetReservationHook_def shouldStop_def record_breach_def)

text \<open>C38. Once the ledger has refused a reservation on a cumulative cap, no further task is dispatched in
  that run: the refusal leaves the ledger as it was, and however further requests and releases follow one
  another, every request is refused without touching the ledger or the recorded breach.\<close>

theorem no_dispatch_after_a_cap_is_reached:
  assumes "reserve (hp_env params) (hp_now params) (hp_ids params (hk_ids h)) (task_scope params task) ChModel
       (hp_estimateFor params task) (map_option (\<lambda>f. f task) (hp_label params)) (hk_rows h) =
       Inl (BudgetExceeded kind cap limit committed requested)"
    and "isCumulativeCap cap"
  shows "\<exists>h'. budgetReservationHook params task h = Inr (None, h') \<and> hk_rows h' = hk_rows h \<and>
     budgetReservationHook params task2 (foldl (hook_step params) h' ops) = Inr (None, foldl (hook_step params) h' ops) \<and>
     gv_stopped (hk_governor (foldl (hook_step params) h' ops)) = gv_stopped (hk_governor h')"
proof -
  from breach_latches [OF assms] obtain h' b where h': "budgetReservationHook params task h = Inr (None, h')"
      "hk_rows h' = hk_rows h" and b: "gv_stopped (hk_governor h') = Some b"
    by (auto simp: shouldStop_def)
  have "gv_stopped (hk_governor (foldl (hook_step params) h' ops)) = Some b"
    using b by (rule latched.run_inv)
  then show ?thesis
    using h' b stopped_hook by (auto simp: shouldStop_def)
qed

definition fx_hook :: hook_params where
  "fx_hook = \<lparr>hp_env = fx_ledger_env ''s'', hp_workflowId = ''w'', hp_estimateFor = (\<lambda>_. fx_charge 1 6), hp_now = ''t'',
     hp_label = None, hp_actualFor = None, hp_ids = (\<lambda>n. replicate (Suc n) CHR ''k'')\<rparr>"

definition fx_hook_state :: "ledger_entry list \<Rightarrow> hook_state" where
  "fx_hook_state rows = \<lparr>hk_governor = new_governor, hk_rows = rows, hk_ids = 0\<rparr>"

lemma no_dispatch_witness:
  "\<exists>h'. budgetReservationHook fx_hook (fx_task Ready) (fx_hook_state [fx_row ''a'' ''s'' 1 6]) = Inr (None, h') \<and>
     budgetReservationHook fx_hook (fx_task Ready) h' = Inr (None, h')"
proof -
  have refused: "reserve (hp_env fx_hook) (hp_now fx_hook) (hp_ids fx_hook (hk_ids (fx_hook_state [fx_row ''a'' ''s'' 1 6])))
      (task_scope fx_hook (fx_task Ready)) ChModel (hp_estimateFor fx_hook (fx_task Ready))
      (map_option (\<lambda>f. f (fx_task Ready)) (hp_label fx_hook)) (hk_rows (fx_hook_state [fx_row ''a'' ''s'' 1 6])) =
      Inl (BudgetExceeded BsWorkflow CapSpendUsd 10 6 6)" by code_simp
  have "isCumulativeCap CapSpendUsd" by code_simp
  from no_dispatch_after_a_cap_is_reached [OF refused this, of "fx_task Ready" "[]"] show ?thesis by auto
qed

section \<open>A dispatch holds one reservation\<close>

lemma granted_hook:
  assumes "budgetReservationHook params task h = Inr (Some dv, h')"
  shows "\<not> shouldStop (hk_governor h) \<and> hk_governor h' = hk_governor h \<and> dv_task dv = task \<and> \<not> dv_released dv \<and>
     reserve (hp_env params) (hp_now params) (hp_ids params (hk_ids h)) (task_scope params task) ChModel
       (hp_estimateFor params task) (map_option (\<lambda>f. f task) (hp_label params)) (hk_rows h) = Inr (dv_reservation dv, hk_rows h')"
  using assms by (auto simp: budgetReservationHook_def split: if_splits sum.splits option.splits)

lemma closing_rows:
  assumes "ledger_ok rows" and "is_open rows row" "row \<in> set rows" "le_reservationId row = rv_id r"
    and "settle env ts nid r us elapsed reason rows = Inr rows' \<or> release_reservation env ts nid r msg rows = Inr rows'"
  shows "filter (is_open rows') rows' = filter (\<lambda>e. e \<noteq> row) (filter (is_open rows) rows)"
proof -
  from assms(5) obtain last_row where rows': "rows' = rows @ [last_row]" and last: "is_terminal last_row"
      "le_reservationId last_row = rv_id r"
    by (auto dest!: settle_Inr release_Inr simp: ledger_insert_Some is_terminal_def)
  have "filter (is_open rows') rows' = filter (\<lambda>e. le_reservationId e \<noteq> rv_id r) (filter (is_open rows) rows)"
    using open_rows_add_terminal [OF last(1), of "\<lambda>_. True" rows] by (simp add: rows' last(2) del: filter_append)
  also have "\<dots> = filter (\<lambda>e. e \<noteq> row) (filter (is_open rows) rows)"
    by (rule filter_cong) (use open_unique [OF assms(1) _ assms(3) _ assms(2)] assms(4) in auto)
  finally show ?thesis .
qed

text \<open>A granted dispatch holds exactly one reservation, within every cap, and its release closes exactly
  that one: after asking and releasing, the open reservations are those from before, and releasing again
  does nothing.\<close>

theorem dispatch_reserves_and_releases_once:
  assumes "ledger_ok (hk_rows h)" and "budgetReservationHook params task h = Inr (Some dv, h1)"
    and "releaseDispatch params dv h1 = (Inr h2, dv2)"
  shows "(\<exists>row. hk_rows h1 = hk_rows h @ [row] \<and> is_open (hk_rows h1) row) \<and>
     list_all (\<lambda>kind. case scopeTarget kind (task_scope params task) of None \<Rightarrow> True
        | Some target \<Rightarrow> caps_hold (hp_env params) (hk_rows h1) kind target) SCOPE_ORDER \<and>
     filter (is_open (hk_rows h2)) (hk_rows h2) = filter (is_open (hk_rows h)) (hk_rows h) \<and>
     releaseDispatch params dv2 h3 = (Inr h3, dv2)"
proof -
  note grant = granted_hook [OF assms(2)]
  from grant have res: "reserve (hp_env params) (hp_now params) (hp_ids params (hk_ids h)) (task_scope params task) ChModel
       (hp_estimateFor params task) (map_option (\<lambda>f. f task) (hp_label params)) (hk_rows h) = Inr (dv_reservation dv, hk_rows h1)"
    by blast
  from granted_caps [OF assms(1) res] obtain row where row: "hk_rows h1 = hk_rows h @ [row]" "ledger_ok (hk_rows h1)"
      "le_id row \<notin> le_id ` set (hk_rows h)" "\<not> is_terminal row" "is_open (hk_rows h1) row"
      "le_reservationId row = rv_id (dv_reservation dv)"
    and caps: "\<And>kind target. kind \<in> set (scopeKindsFor ChModel) \<Longrightarrow>
       scopeTarget kind (task_scope params task) = Some target \<Longrightarrow> caps_hold (hp_env params) (hk_rows h1) kind target"
    by metis
  have "list_all (\<lambda>kind. case scopeTarget kind (task_scope params task) of None \<Rightarrow> True
        | Some target \<Rightarrow> caps_hold (hp_env params) (hk_rows h1) kind target) SCOPE_ORDER"
    using caps by (simp add: list_all_iff scopeKindsFor_def split: option.split)
  moreover from assms(3) grant obtain actual why where
      "settle (hp_env params) (hp_now params) (hp_ids params (hk_ids h1)) (dv_reservation dv) actual 0 (Some why) (hk_rows h1) = Inr (hk_rows h2) \<or>
       release_reservation (hp_env params) (hp_now params) (hp_ids params (hk_ids h1)) (dv_reservation dv) why (hk_rows h1) = Inr (hk_rows h2)"
    by (auto simp: releaseDispatch_def Let_def map_sum_eq_Inr split: option.splits)
  from closing_rows [OF row(2,5) _ row(6) this] row(1) have
    "filter (is_open (hk_rows h2)) (hk_rows h2) = filter (\<lambda>e. e \<noteq> row) (filter (is_open (hk_rows h1)) (hk_rows h1))" by simp
  moreover have "filter (\<lambda>e. e \<noteq> row) (filter (is_open (hk_rows h1)) (hk_rows h1)) = filter (is_open (hk_rows h)) (hk_rows h)"
    using row(3) is_open_add_reservation [OF row(4)] by (auto simp: row(1) intro!: filter_cong)
  moreover have "releaseDispatch params dv2 h3 = (Inr h3, dv2)"
    using assms(3) grant by (auto simp: releaseDispatch_def Let_def)
  ultimately show ?thesis using row(1,5) by auto
qed

lemma dispatch_reserves_witness:
  "\<exists>dv h1 h2 dv2. budgetReservationHook fx_hook (fx_task Ready) (fx_hook_state []) = Inr (Some dv, h1) \<and>
     releaseDispatch fx_hook dv h1 = (Inr h2, dv2) \<and> filter (is_open (hk_rows h2)) (hk_rows h2) = []"
proof -
  have runs: "case budgetReservationHook fx_hook (fx_task Ready) (fx_hook_state []) of Inl _ \<Rightarrow> False | Inr (x, h1) \<Rightarrow>
      (case x of None \<Rightarrow> False | Some dv \<Rightarrow> \<not> isl (fst (releaseDispatch fx_hook dv h1)))"
    by code_simp
  then obtain dv h1 where ask: "budgetReservationHook fx_hook (fx_task Ready) (fx_hook_state []) = Inr (Some dv, h1)"
    and "\<not> isl (fst (releaseDispatch fx_hook dv h1))"
    by (auto split: sum.splits option.splits)
  then obtain h2 dv2 where "releaseDispatch fx_hook dv h1 = (Inr h2, dv2)"
    by (metis prod.collapse sum.collapse(2))
  note run = ask this
  have "ledger_ok (hk_rows (fx_hook_state []))" by (simp add: fx_hook_state_def)
  from dispatch_reserves_and_releases_once [OF this run] show ?thesis
    using run by (auto simp: fx_hook_state_def)
qed

section \<open>The hard stop\<close>

lemma budget_stop_kind: "stop_kind (budget_stop_run params g affected) = ''budget_hard_stop''"
  by (simp add: stop_kind_def budget_stop_run_def BUDGET_STOP_BLOCKER_def)

text \<open>A hard stop on a latched breach pauses only phases the run targeted, and only the breached phase
  when the breach is of a phase's cap and names a known task; every phase it stops is stored as a cap
  pause with the budget blocker unresolved, no work is failed or cancelled, and without a breach it
  changes nothing.\<close>

theorem hard_stop_pauses_as_a_cap:
  assumes "applyBudgetStop params g w = (Inr r, w')" and "w_depth w = 0" and "distinct (map ph_id (db_phases (w_db w)))"
  shows "stop_frame (w_db w) (w_db w') \<and> br_breach r = gv_stopped g \<and> (gv_stopped g = None \<longrightarrow> w' = w) \<and>
     (\<forall>x \<in> set (br_phases r). pr_phaseId x \<in> set (bs_phaseIds params) \<and>
        (\<forall>b pid. gv_stopped g = Some b \<and> bb_scope b = BsPhase \<and> phaseOfBreach b (w_db w) = Some pid \<longrightarrow> pr_phaseId x = pid) \<and>
        (pr_ok x \<longrightarrow> (\<exists>p. tbl_get ph_id (pr_phaseId x) (db_phases (w_db w')) = Some p \<and> ph_gateStatus p = PgPausedCap) \<and>
           ''budget_hard_stop'' \<in> set (unresolvedKinds SkPhase (pr_phaseId x) (w_db w'))))"
proof (cases "gv_stopped g")
  case None
  then show ?thesis using assms(1) by (auto simp: applyBudgetStop_def)
next
  case (Some b)
  let ?stop = "budget_stop_run params g (affected_phases params b (w_db w))"
  from assms(1) Some have run: "stopRun ?stop w = (Inr (br_phases r), w')" "br_breach r = Some b"
    by (auto simp: applyBudgetStop_def andThen_eq_Inr)
  note effect = stopRun_effect [OF run(1) assms(2,3)]
  have target: "pr_phaseId x \<in> set (affected_phases params b (w_db w))" if "x \<in> set (br_phases r)" for x
  proof -
    have "pr_phaseId x \<in> set (map ph_id (stop_targets ?stop (w_db w)))"
      using effect that by (metis in_set_conv_nth length_map nth_map)
    then show ?thesis by (auto simp: stop_targets_def budget_stop_run_def)
  qed
  have stopped: "stopped_phase ?stop (w_db w) (pr_phaseId x) (w_db w')" if "x \<in> set (br_phases r)" "pr_ok x" for x
    using effect that by auto
  have "(\<exists>p. tbl_get ph_id (pr_phaseId x) (db_phases (w_db w')) = Some p \<and> ph_gateStatus p = PgPausedCap) \<and>
      ''budget_hard_stop'' \<in> set (unresolvedKinds SkPhase (pr_phaseId x) (w_db w'))" if "x \<in> set (br_phases r)" "pr_ok x" for x
    using stopped [OF that] unfolding stopped_phase_def budget_stop_kind by (auto simp: CAP_BLOCKER_KINDS_def)
  moreover have "pr_phaseId x \<in> set (bs_phaseIds params) \<and>
      (bb_scope b = BsPhase \<and> phaseOfBreach b (w_db w) = Some pid \<longrightarrow> pr_phaseId x = pid)" if "x \<in> set (br_phases r)" for x pid
    using target [OF that] by (auto simp: affected_phases_def split: option.splits if_splits)
  ultimately show ?thesis
    using effect run(2) Some by auto
qed

definition fx_breach :: "budget_scope_kind \<Rightarrow> budget_breach" where
  "fx_breach kind = \<lparr>bb_scope = kind, bb_cap = CapSpendUsd, bb_limit = 10, bb_committed = 6, bb_requested = 6,
     bb_cumulative = True, bb_taskId = Some ''t1'', bb_at = ''t''\<rparr>"

definition fx_governor :: "budget_scope_kind \<Rightarrow> governor" where
  "fx_governor kind = record_breach (fx_breach kind) new_governor"

definition fx_budget_stop :: budget_stop_params where
  "fx_budget_stop = \<lparr>bs_workflowId = ''w'', bs_actor = fx_engine, bs_phaseIds = [''p''], bs_num = (\<lambda>_. ''n'')\<rparr>"

lemma fx_budget_stop_runs:
  "case fst (applyBudgetStop fx_budget_stop (fx_governor BsPhase) (fx_world (fx_db Running PgRunning None))) of Inl _ \<Rightarrow> False
   | Inr r \<Rightarrow> map (\<lambda>x. (pr_phaseId x, pr_ok x)) (br_phases r) = [(''p'', True)]"
  by code_simp

lemma hard_stop_witness:
  "\<exists>r w'. applyBudgetStop fx_budget_stop (fx_governor BsPhase) (fx_world (fx_db Running PgRunning None)) = (Inr r, w') \<and>
     ''budget_hard_stop'' \<in> set (unresolvedKinds SkPhase ''p'' (w_db w'))"
proof -
  obtain r w' where run: "applyBudgetStop fx_budget_stop (fx_governor BsPhase) (fx_world (fx_db Running PgRunning None)) = (Inr r, w')"
    and r: "map (\<lambda>x. (pr_phaseId x, pr_ok x)) (br_phases r) = [(''p'', True)]"
    using fx_budget_stop_runs
    by (cases "applyBudgetStop fx_budget_stop (fx_governor BsPhase) (fx_world (fx_db Running PgRunning None))") (auto split: sum.splits)
  then obtain x where x: "br_phases r = [x]" "pr_phaseId x = ''p''" "pr_ok x" by auto
  have "w_depth (fx_world (fx_db Running PgRunning None)) = 0"
    "distinct (map ph_id (db_phases (w_db (fx_world (fx_db Running PgRunning None)))))" by (simp, code_simp)
  from hard_stop_pauses_as_a_cap [OF run this] x have "''budget_hard_stop'' \<in> set (unresolvedKinds SkPhase ''p'' (w_db w'))"
    by auto
  with run show ?thesis by blast
qed

section \<open>Resuming after a raised cap\<close>

lemma resume_edges: "edge \<in> set PHASE_TRANSITIONS \<Longrightarrow> tr_to edge = PhPending \<Longrightarrow> tr_trigger edge = ''user_resume'' \<Longrightarrow>
    tr_from edge = [PhPaused] \<and> tr_whoMayTrigger edge = [UserActor] \<and> PcAuthorizationCurrent \<in> set (tr_preconditions edge) \<and>
    tr_id edge \<noteq> PhaseStaleEvidence"
  by (auto simp: PHASE_TRANSITIONS_def)

lemma resume_accepted:
  assumes run: "transitionPhase (resume_request params pid) w = (Inr res, w')"
  shows "ta_kind (rm_actor params) = AkUser \<and> rm_authorizationCurrent params pid = GTrue \<and> ph_gateStatus (re_subject res) = PgPending \<and>
     tbl_get ph_id pid (db_phases (w_db w')) = Some (re_subject res) \<and> db_tasks (w_db w') = db_tasks (w_db w)"
proof -
  let ?rq = "resume_request params pid"
  have rq: "rq_to ?rq = Known PhPending" "rq_subject ?rq = pid" "rq_trigger ?rq = ''user_resume''"
    by (simp_all add: resume_request_def)
  from transitionPhase_Inr [OF run] rq obtain p src edge ctx where
      acc: "phase_accepted ?rq (w_db w) p src edge PhPending ctx"
    and wr: "phase_written (w_db w) p edge PhPending res (w_db w')"
    by (auto simp: phase_accepted_def)
  have edge: "tr_whoMayTrigger edge = [UserActor]" "PcAuthorizationCurrent \<in> set (tr_preconditions edge)" "tr_id edge \<noteq> PhaseStaleEvidence"
    using acc resume_edges [of edge] rq(3) by (simp_all add: phase_accepted_def)
  have p: "tbl_get ph_id pid (db_phases (w_db w)) = Some p" "ph_id p = pid"
    using acc rq by (auto simp: phase_accepted_def dest: tbl_get_key)
  have "ta_kind (rm_actor params) = AkUser"
    using acc edge(1) by (cases "ta_kind (rm_actor params)") (auto simp: phase_accepted_def resume_request_def)
  moreover have "rm_authorizationCurrent params pid = GTrue"
    using acc edge(2) by (auto simp: phase_accepted_def guards_hold_iff structuralGuards_def resume_request_def)
  moreover have "ph_gateStatus (re_subject res) = PgPending" "ph_id (re_subject res) = pid"
    using wr p(2) edge(3) by (auto simp: phase_written_def phaseGateStatusFor_def phaseStorageStatus_def)
  ultimately show ?thesis
    using wr p by (simp add: phase_written_def tbl_get_put)
qed

lemma resolve_keeps_others:
  assumes "resolveBlocker actor bid detail w = (Inr r, w')" and "x \<in> set (db_blockers (w_db w))" "b_blockerId x \<noteq> bid"
  shows "x \<in> set (db_blockers (w_db w'))"
proof -
  from assms(1) obtain b ts and w1 :: world where R: "blocker_get bid (w_db w) = Some b"
    "rs_blocker r = b\<lparr>b_resolvedAt := Some ts, b_resolvedBy := Some (actor_text actor), b_resolutionDetail := Some detail\<rparr>"
    "w_db w1 = (w_db w)\<lparr>db_blockers := tbl_put b_blockerId (rs_blocker r) (db_blockers (w_db w))\<rparr>"
    and "db_blockers (w_db w') = db_blockers (w_db w1)"
    by (rule resolveBlocker_Inr) auto
  moreover have "b_blockerId (rs_blocker r) = bid"
    using R(1,2) by (auto simp: blocker_get_def dest: tbl_get_key)
  ultimately show ?thesis
    using assms(2,3) by (auto simp: tbl_put_def image_iff)
qed

lemma resolve_phases:
  assumes "resolveBlocker actor bid detail w = (Inr r, w')"
  shows "db_phases (w_db w') = db_phases (w_db w)"
  using assms by (rule resolveBlocker_Inr) auto

lemma resolve_each_keeps:
  assumes "mapEach (\<lambda>b. andThen (resolveBlocker actor (b_blockerId b) detail) (\<lambda>r. ret (rs_blocker r))) bs w = (Inr rs, w')"
    and "x \<in> set (db_blockers (w_db w))" "b_blockerId x \<notin> b_blockerId ` set bs"
  shows "x \<in> set (db_blockers (w_db w'))"
  using assms
proof (induction bs arbitrary: w rs)
  case (Cons b bs)
  then show ?case
    by (auto simp: andThen_eq_Inr dest: resolve_keeps_others)
qed auto

lemma resolve_each_phases:
  assumes "mapEach (\<lambda>b. andThen (resolveBlocker actor (b_blockerId b) detail) (\<lambda>r. ret (rs_blocker r))) bs w = (Inr rs, w')"
  shows "db_phases (w_db w') = db_phases (w_db w)"
  using assms by (induction bs arbitrary: w rs) (auto simp: andThen_eq_Inr dest!: resolve_phases)

lemma resolve_kind_effect:
  assumes "resolveBlockersOfKind actor k i kind detail w = (Inr rs, w')" and "distinct (map b_blockerId (db_blockers (w_db w)))"
  shows "db_phases (w_db w') = db_phases (w_db w) \<and>
     (\<forall>x \<in> set (db_blockers (w_db w)). b_kind x \<noteq> kind \<longrightarrow> x \<in> set (db_blockers (w_db w')))"
proof -
  let ?bs = "filter (\<lambda>b. b_kind b = kind) (unresolvedForSubject k i (w_db w))"
  from assms(1) obtain w1 d where run: "mapEach (\<lambda>b. andThen (resolveBlocker actor (b_blockerId b) detail) (\<lambda>r. ret (rs_blocker r))) ?bs
      (w\<lparr>w_depth := Suc (w_depth w)\<rparr>) = (Inr rs, w1)" and w': "w' = w1\<lparr>w_depth := d\<rparr>"
    unfolding resolveBlockersOfKind_def by (elim store_write_InrE) (auto simp: andThen_eq_Inr)
  have "b_blockerId x \<notin> b_blockerId ` set ?bs" if "x \<in> set (db_blockers (w_db w))" "b_kind x \<noteq> kind" for x
    using that assms(2) by (auto simp: unresolvedForSubject_def distinct_map inj_on_def)
  then show ?thesis
    using resolve_each_keeps [OF run] resolve_each_phases [OF run] by (auto simp: w')
qed

text \<open>C39. Raising a cap resumes a phase only by its user with a current authorisation, and only when the
  budget was all that held it: a phase with any other unresolved reason stays as it was, and a resumed
  one is pending, so it must be started again.\<close>

theorem raised_cap_resumes_only_the_budget_stop:
  assumes "resumeOnePhase params pid w = (Inr r, w')" and "w_depth w = 0"
    and "distinct (map b_blockerId (db_blockers (w_db w)))"
  shows "if pr_ok r
     then ta_kind (rm_actor params) = AkUser \<and> rm_authorizationCurrent params pid = GTrue \<and>
       (\<exists>p. tbl_get ph_id pid (db_phases (w_db w')) = Some p \<and> ph_gateStatus p = PgPending) \<and>
       set (unresolvedKinds SkPhase pid (w_db w)) \<subseteq> {''budget_hard_stop''}
     else db_phases (w_db w') = db_phases (w_db w)"
proof (cases "pr_ok r \<or> (\<exists>phase. tbl_get ph_id pid (db_phases (w_db w)) = Some phase \<and>
    (ph_gateStatus phase = PgPausedCap \<or> ph_gateStatus phase = PgPausedApproval))")
  case False
  then show ?thesis
    using assms(1) by (auto simp: resumeOnePhase_def andThen_eq_Inr phases.get_eq phase_refused_def split: option.splits if_splits)
next
  case True
  then obtain rs w1 where res: "resolveBlockersOfKind (rm_actor params) SkPhase pid BUDGET_STOP_BLOCKER
        ''user raised the budget cap in config'' w = (Inr rs, w1)"
    and rest: "(if unresolvedKinds SkPhase pid (w_db w1) \<noteq> [] then ret (phase_refused pid (RsStillBlocked (unresolvedKinds SkPhase pid (w_db w1))))
       else tryCatch (andThen (transitionPhase (resume_request params pid)) (\<lambda>result. ret (phase_moved pid (re_subject result))))
         (rejected_or_throw pid)) w1 = (Inr r, w')"
    using assms(1) by (auto simp: resumeOnePhase_def andThen_eq_Inr phases.get_eq phase_refused_def split: option.splits if_splits)
  note effect = resolve_kind_effect [OF res assms(3)]
  have depth: "w_depth w1 = 0"
    using res assms(2) unfolding resolveBlockersOfKind_def by (rule store_write_depth)
  show ?thesis
  proof (cases "unresolvedKinds SkPhase pid (w_db w1) = []")
    case False
    then show ?thesis using rest effect by (auto simp: phase_refused_def)
  next
    case True
    have only: "set (unresolvedKinds SkPhase pid (w_db w)) \<subseteq> {''budget_hard_stop''}"
    proof
      fix kind
      assume "kind \<in> set (unresolvedKinds SkPhase pid (w_db w))"
      then obtain b where b: "b \<in> set (db_blockers (w_db w))" "b_subjectKind b = SkPhase" "b_subjectId b = pid"
          "b_resolvedAt b = None" "b_kind b = kind" by (auto simp: unresolvedKinds_iff)
      have "kind = BUDGET_STOP_BLOCKER"
      proof (rule ccontr)
        assume "kind \<noteq> BUDGET_STOP_BLOCKER"
        then have "kind \<in> set (unresolvedKinds SkPhase pid (w_db w1))"
          using b effect by (auto simp: unresolvedKinds_iff)
        with True show False by simp
      qed
      then show "kind \<in> {''budget_hard_stop''}" by (simp add: BUDGET_STOP_BLOCKER_def)
    qed
    show ?thesis
    proof (cases "transitionPhase (resume_request params pid) w1")
      case (Pair x w2)
      show ?thesis
      proof (cases x)
        case (Inl e)
        then have "\<not> pr_ok r \<and> w' = w2"
          using rest True Pair by (auto simp: tryCatch_def andThen_def rejected_or_throw_def phase_refused_def split: failure.splits)
        then show ?thesis
          using stop_refused [OF Pair [unfolded Inl] depth] effect by simp
      next
        case (Inr res)
        then have "pr_ok r \<and> w' = w2"
          using rest True Pair by (auto simp: tryCatch_def andThen_def phase_moved_def)
        then show ?thesis
          using resume_accepted [OF Pair [unfolded Inr]] only by auto
      qed
    qed
  qed
qed

definition fx_resume :: resume_params where
  "fx_resume = \<lparr>rm_workflowId = ''w'', rm_env = fx_ledger_env ''s'', rm_actor = \<lparr>ta_kind = AkUser, ta_identity = ''u''\<rparr>,
     rm_phaseIds = [''p''], rm_authorizationCurrent = (\<lambda>_. GTrue)\<rparr>"

definition fx_paused :: db where
  "fx_paused = (fx_db Ready PgPausedCap None)\<lparr>db_blockers := [\<lparr>b_blockerId = ''b'', b_createdAt = ''t'', b_workflowId = ''w'',
     b_subjectKind = SkPhase, b_subjectId = ''p'', b_kind = ''budget_hard_stop'', b_detail = [], b_raisedBy = [],
     b_resolvedAt = None, b_resolvedBy = None, b_resolutionDetail = None\<rparr>]\<rparr>"

lemma fx_resume_runs:
  "case fst (resumeOnePhase fx_resume ''p'' (fx_world fx_paused)) of Inl _ \<Rightarrow> False | Inr r \<Rightarrow> pr_ok r"
  by code_simp

lemma raised_cap_witness:
  "\<exists>r w' p. resumeOnePhase fx_resume ''p'' (fx_world fx_paused) = (Inr r, w') \<and> pr_ok r \<and>
     tbl_get ph_id ''p'' (db_phases (w_db w')) = Some p \<and> ph_gateStatus p = PgPending"
proof -
  obtain r w' where run: "resumeOnePhase fx_resume ''p'' (fx_world fx_paused) = (Inr r, w')" and ok: "pr_ok r"
    using fx_resume_runs by (cases "resumeOnePhase fx_resume ''p'' (fx_world fx_paused)") (auto split: sum.splits)
  have "w_depth (fx_world fx_paused) = 0" "distinct (map b_blockerId (db_blockers (w_db (fx_world fx_paused))))" by (simp, code_simp)
  from raised_cap_resumes_only_the_budget_stop [OF run this] run ok show ?thesis by auto
qed

section \<open>Where the resume check looks elsewhere\<close>

text \<open>
  The comment says a resume is refused while the caps still leave no headroom in the scope that
  breached, as resuming into an immediate re-stop would be no progress. The check reads the first
  targeted phase, so the exhausted cap of another one is not seen; and it asks for any headroom at
  all, so with the caps unchanged a refused reservation is resumed into the same refusal.
\<close>

definition fx_other_scope :: ledger_scope where
  "fx_other_scope = \<lparr>lg_workflowId = ''w'', lg_phaseId = Some ''q'', lg_taskId = Some ''t2'', lg_attemptId = None\<rparr>"

definition fx_spent :: "ledger_entry list" where
  "fx_spent = [(fx_row ''a'' ''s'' 1 10)\<lparr>le_scope := fx_other_scope\<rparr>]"

lemma breach_of_a_later_phase_is_not_checked:
  "map (\<lambda>r. (rb_scope r, rb_exhausted r)) (remainingBudget (fx_ledger_env ''s'') fx_spent fx_other_scope) =
     [(BsWorkflow, True), (BsPhase, True), (BsTask, True)]"
  "resume_refusal (fx_governor BsPhase) (remainingBudget (fx_ledger_env ''s'') fx_spent
     (resume_scope (fx_resume\<lparr>rm_phaseIds := [''p'', ''q'']\<rparr>) (fx_governor BsPhase))) = None"
  by code_simp+

lemma resume_into_the_same_refusal:
  "resume_refusal (fx_governor BsWorkflow) (remainingBudget (fx_ledger_env ''s'') [fx_row ''a'' ''s'' 1 6]
     (resume_scope fx_resume (fx_governor BsWorkflow))) = None"
  "reserve (fx_ledger_env ''s'') ''t'' ''b'' fx_scope ChModel (fx_charge 1 6) None [fx_row ''a'' ''s'' 1 6] =
     Inl (BudgetExceeded BsWorkflow CapSpendUsd 10 6 6)"
  by code_simp+

end
