(* ===== verification/Resilience.thy ===== *)
theory Resilience
  imports KorwfPrelude
begin

text \<open>
  Retries, deadlines and the circuit breaker around the Jev transport (\<open>src/jev/resilience.ts\<close>). The
  transport, the clock, the random source and the abort signal are parameters over a state; while a call
  waits, that state, the breaker shared with other calls included, may change. Times are integers, delays
  exact.
\<close>

section \<open>Retrying\<close>

record 's retry_options =
  ro_maxAttempts :: int
  ro_idempotent :: bool
  ro_baseDelayMs :: rat
  ro_maxDelayMs :: rat
  ro_jitterRatio :: rat
  ro_aborted :: "'s \<Rightarrow> bool"
  ro_random :: "'s \<Rightarrow> rat \<times> 's"
  ro_sleep :: "rat \<Rightarrow> 's \<Rightarrow> 's"

definition DEFAULT_BASE_DELAY_MS :: rat where "DEFAULT_BASE_DELAY_MS = 200"
definition DEFAULT_MAX_DELAY_MS :: rat where "DEFAULT_MAX_DELAY_MS = 5000"
definition DEFAULT_JITTER_RATIO :: rat where "DEFAULT_JITTER_RATIO = 1 / 4"

definition backoffDelay :: "nat \<Rightarrow> rat \<Rightarrow> rat \<Rightarrow> rat \<Rightarrow> rat \<Rightarrow> rat" where
  "backoffDelay attempt baseDelayMs maxDelayMs jitterRatio random =
     (let base = min maxDelayMs (baseDelayMs * 2 ^ attempt); jitter = base * jitterRatio * random in base + jitter)"

datatype 'e retry_error = RunFailed 'e | RetryAborted

function retry_loop ::
  "(nat \<Rightarrow> 's \<Rightarrow> ('e + 'a) \<times> 's) \<Rightarrow> ('e \<Rightarrow> nat \<Rightarrow> bool) \<Rightarrow> 's retry_options \<Rightarrow> nat \<Rightarrow> nat \<Rightarrow> 's \<Rightarrow> ('e retry_error + 'a) \<times> 's"
where
  "retry_loop run isRetryable options maxAttempts attempt s =
     (if ro_aborted options s then (Inl RetryAborted, s)
      else case run attempt s of
          (Inr x, s1) \<Rightarrow> (Inr x, s1)
        | (Inl e, s1) \<Rightarrow>
            if ro_aborted options s1 then (Inl RetryAborted, s1)
            else if Suc attempt \<ge> maxAttempts \<or> \<not> isRetryable e attempt then (Inl (RunFailed e), s1)
            else (case ro_random options s1 of (u, s2) \<Rightarrow>
              let s3 = ro_sleep options
                    (backoffDelay attempt (ro_baseDelayMs options) (ro_maxDelayMs options) (ro_jitterRatio options) u) s2
              in if ro_aborted options s3 then (Inl RetryAborted, s3)
                 else retry_loop run isRetryable options maxAttempts (Suc attempt) s3))"
  by pat_completeness auto
termination by (relation "measure (\<lambda>(_, _, _, maxAttempts, attempt, _). maxAttempts - attempt)") auto

declare retry_loop.simps [simp del]

definition retry_limit :: "'s retry_options \<Rightarrow> nat" where
  "retry_limit options = (if ro_idempotent options then nat (max 1 (ro_maxAttempts options)) else 1)"

definition withRetry ::
  "(nat \<Rightarrow> 's \<Rightarrow> ('e + 'a) \<times> 's) \<Rightarrow> ('e \<Rightarrow> nat \<Rightarrow> bool) \<Rightarrow> 's retry_options \<Rightarrow> 's \<Rightarrow> ('e retry_error + 'a) \<times> 's"
where
  "withRetry run isRetryable options s = retry_loop run isRetryable options (retry_limit options) 0 s"

section \<open>The breaker\<close>

datatype breaker_state = BkClosed | BkOpen | BkHalfOpen

record breaker_options =
  bo_failureThreshold :: nat
  bo_resetTimeoutMs :: int
  bo_halfOpenMaxCalls :: nat

record breaker =
  bk_state :: breaker_state
  bk_failures :: nat
  bk_openedAt :: "int option"
  bk_halfOpenInFlight :: nat

record breaker_status =
  bks_state :: breaker_state
  bks_failures :: nat
  bks_openedAt :: "int option"
  bks_nextAttemptAt :: "int option"

definition new_breaker :: breaker where
  "new_breaker = \<lparr>bk_state = BkClosed, bk_failures = 0, bk_openedAt = None, bk_halfOpenInFlight = 0\<rparr>"

definition trip :: "int \<Rightarrow> breaker \<Rightarrow> breaker" where
  "trip now b = b\<lparr>bk_state := BkOpen, bk_openedAt := Some now, bk_halfOpenInFlight := 0\<rparr>"

definition maybeTransitionToHalfOpen :: "breaker_options \<Rightarrow> int \<Rightarrow> breaker \<Rightarrow> breaker" where
  "maybeTransitionToHalfOpen options now b =
     (case bk_openedAt b of
        None \<Rightarrow> b
      | Some openedAt \<Rightarrow>
          if bk_state b = BkOpen \<and> now - openedAt \<ge> bo_resetTimeoutMs options
          then b\<lparr>bk_state := BkHalfOpen, bk_halfOpenInFlight := 0\<rparr> else b)"

definition breaker_status_of :: "breaker_options \<Rightarrow> int \<Rightarrow> breaker \<Rightarrow> breaker_status \<times> breaker" where
  "breaker_status_of options now b =
     (let b' = maybeTransitionToHalfOpen options now b in
      (\<lparr>bks_state = bk_state b', bks_failures = bk_failures b', bks_openedAt = bk_openedAt b',
        bks_nextAttemptAt = map_option (\<lambda>t. t + bo_resetTimeoutMs options) (bk_openedAt b')\<rparr>, b'))"

definition canProceed :: "breaker_options \<Rightarrow> int \<Rightarrow> breaker \<Rightarrow> bool \<times> breaker" where
  "canProceed options now b =
     (let b' = maybeTransitionToHalfOpen options now b in
      (case bk_state b' of BkClosed \<Rightarrow> True
        | BkHalfOpen \<Rightarrow> bk_halfOpenInFlight b' < bo_halfOpenMaxCalls options
        | BkOpen \<Rightarrow> False, b'))"

definition beforeCall :: "breaker_options \<Rightarrow> int \<Rightarrow> breaker \<Rightarrow> breaker" where
  "beforeCall options now b =
     (let b' = maybeTransitionToHalfOpen options now b in
      if bk_state b' = BkHalfOpen then b'\<lparr>bk_halfOpenInFlight := bk_halfOpenInFlight b' + 1\<rparr> else b')"

definition release_slot :: "breaker \<Rightarrow> breaker" where
  "release_slot b = (if bk_state b = BkHalfOpen then b\<lparr>bk_halfOpenInFlight := bk_halfOpenInFlight b - 1\<rparr> else b)"

definition onSuccess :: "breaker \<Rightarrow> breaker" where
  "onSuccess b = (release_slot b)\<lparr>bk_state := BkClosed, bk_failures := 0, bk_openedAt := None\<rparr>"

definition onCancelled :: "breaker \<Rightarrow> breaker" where
  "onCancelled b = release_slot b"

definition onFailure :: "breaker_options \<Rightarrow> int \<Rightarrow> breaker \<Rightarrow> breaker" where
  "onFailure options now b =
     (if bk_state b = BkHalfOpen then trip now (release_slot b)
      else let b' = b\<lparr>bk_failures := bk_failures b + 1\<rparr>
        in if bk_failures b' \<ge> bo_failureThreshold options then trip now b' else b')"

text \<open>The registry: the breakers by host, in the order of first use.\<close>

type_synonym registry = "(string \<times> breaker) list"

definition registry_get :: "string \<Rightarrow> registry \<Rightarrow> breaker \<times> registry" where
  "registry_get host reg = (case map_of reg host of
       Some b \<Rightarrow> (b, reg) | None \<Rightarrow> (new_breaker, reg @ [(host, new_breaker)]))"

definition registry_put :: "string \<Rightarrow> breaker \<Rightarrow> registry \<Rightarrow> registry" where
  "registry_put host b reg = map (\<lambda>(h, x). if h = host then (h, b) else (h, x)) reg"

definition snapshot :: "breaker_options \<Rightarrow> int \<Rightarrow> registry \<Rightarrow> (string \<times> breaker_status) list \<times> registry" where
  "snapshot options now reg =
     (map (\<lambda>(h, b). (h, fst (breaker_status_of options now b))) reg,
      map (\<lambda>(h, b). (h, snd (breaker_status_of options now b))) reg)"

section \<open>The wrapped call\<close>

datatype jev_result = JevOk string | JevError string int | JevDisabled string

definition RETRYABLE_CODES :: "string list" where
  "RETRYABLE_CODES = [''jev.rate_limited'', ''jev.overloaded'', ''jev.unavailable'', ''jev.unknown'']"

definition BREAKER_OPEN_MESSAGE :: string where
  "BREAKER_OPEN_MESSAGE = ''Jev circuit breaker is open after repeated failures: every Jev-assisted decision takes its '' @
     ''deterministic fallback until it recovers.''"

text \<open>What became of a call of the transport within its deadline.\<close>

datatype inner_call = Settles jev_result | Rejects string | Outlives

record 'e jev_world =
  jw_env :: 'e
  jw_registry :: registry

datatype call_error = RetryableResult jev_result | DeadlineExceeded int | InnerThrew string

record 'e resilient_options =
  ji_deadlineMs :: int
  ji_maxRetries :: int
  ji_breaker :: breaker_options
  ji_host :: string
  ji_now :: "'e jev_world \<Rightarrow> int"
  ji_call :: "int \<Rightarrow> 'e jev_world \<Rightarrow> inner_call \<times> 'e jev_world"
  ji_aborted :: "'e jev_world \<Rightarrow> bool"
  ji_random :: "'e jev_world \<Rightarrow> rat \<times> 'e jev_world"
  ji_sleep :: "rat \<Rightarrow> 'e jev_world \<Rightarrow> 'e jev_world"

text \<open>\<open>withDeadline\<close>: a call that outlives its deadline is abandoned with an error.\<close>

definition withDeadline ::
  "'e resilient_options \<Rightarrow> int \<Rightarrow> 'e jev_world \<Rightarrow> (call_error + jev_result) \<times> 'e jev_world" where
  "withDeadline options deadlineMs w =
     (case ji_call options deadlineMs w of
        (Settles r, w') \<Rightarrow> (Inr r, w')
      | (Rejects msg, w') \<Rightarrow> (Inl (InnerThrew msg), w')
      | (Outlives, w') \<Rightarrow> (Inl (DeadlineExceeded (ji_now options w' - ji_now options w)), w'))"

definition is_retryable :: "jev_result \<Rightarrow> bool" where
  "is_retryable r = (case r of JevError code _ \<Rightarrow> code \<in> set RETRYABLE_CODES | _ \<Rightarrow> False)"

definition one_attempt ::
  "'e resilient_options \<Rightarrow> int \<Rightarrow> int \<Rightarrow> nat \<Rightarrow> 'e jev_world \<Rightarrow> (call_error + jev_result) \<times> 'e jev_world" where
  "one_attempt options allowedMs start attempt w =
     (let left = allowedMs - (ji_now options w - start) in
      if left \<le> 0 then (Inl (DeadlineExceeded (ji_now options w - start)), w)
      else case withDeadline options left w of
          (Inr r, w') \<Rightarrow> if is_retryable r then (Inl (RetryableResult r), w') else (Inr r, w')
        | failed \<Rightarrow> failed)"

definition call_retry_options :: "'e resilient_options \<Rightarrow> 'e jev_world retry_options" where
  "call_retry_options options = \<lparr>ro_maxAttempts = 1 + max 0 (ji_maxRetries options), ro_idempotent = True,
     ro_baseDelayMs = DEFAULT_BASE_DELAY_MS, ro_maxDelayMs = DEFAULT_MAX_DELAY_MS, ro_jitterRatio = DEFAULT_JITTER_RATIO,
     ro_aborted = ji_aborted options, ro_random = ji_random options, ro_sleep = ji_sleep options\<rparr>"

definition on_breaker :: "'e resilient_options \<Rightarrow> (breaker \<Rightarrow> breaker) \<Rightarrow> 'e jev_world \<Rightarrow> 'e jev_world" where
  "on_breaker options f w =
     (let (b, reg) = registry_get (ji_host options) (jw_registry w)
      in w\<lparr>jw_registry := registry_put (ji_host options) (f b) reg\<rparr>)"

text \<open>What the breaker is told of the outcome.\<close>

definition report :: "'e resilient_options \<Rightarrow> jev_result \<Rightarrow> 'e jev_world \<Rightarrow> 'e jev_world" where
  "report options outcome w = on_breaker options (case outcome of
       JevOk _ \<Rightarrow> onSuccess
     | JevError code _ \<Rightarrow> if code = ''jev.cancelled'' then onCancelled else onFailure (ji_breaker options) (ji_now options w)
     | JevDisabled _ \<Rightarrow> onFailure (ji_breaker options) (ji_now options w)) w"

text \<open>\<open>run\<close> of the wrapper; \<open>Inl\<close> is an error of the transport that is thrown on.\<close>

definition resilient_call ::
  "'e resilient_options \<Rightarrow> int option \<Rightarrow> 'e jev_world \<Rightarrow> (string + jev_result) \<times> 'e jev_world" where
  "resilient_call options deadline w =
     (let (b, reg) = registry_get (ji_host options) (jw_registry w);
          (allowed, b') = canProceed (ji_breaker options) (ji_now options w) b;
          w1 = w\<lparr>jw_registry := registry_put (ji_host options) b' reg\<rparr>
      in if \<not> allowed then (Inr (JevDisabled BREAKER_OPEN_MESSAGE), w1)
         else let w2 = on_breaker options (beforeCall (ji_breaker options) (ji_now options w1)) w1;
                  allowedMs = (case deadline of None \<Rightarrow> ji_deadlineMs options | Some d \<Rightarrow> d);
                  start = ji_now options w2
           in case withRetry (one_attempt options allowedMs start) (\<lambda>e _. case e of RetryableResult _ \<Rightarrow> True | _ \<Rightarrow> False)
                  (call_retry_options options) w2 of
                (Inr r, w3) \<Rightarrow> (Inr r, report options r w3)
              | (Inl (RunFailed (RetryableResult r)), w3) \<Rightarrow> (Inr r, report options r w3)
              | (Inl (RunFailed (DeadlineExceeded elapsed)), w3) \<Rightarrow>
                  let r = JevError ''jev.unavailable'' elapsed in (Inr r, report options r w3)
              | (Inl RetryAborted, w3) \<Rightarrow>
                  let r = JevError ''jev.cancelled'' (ji_now options w3 - start) in (Inr r, report options r w3)
              | (Inl (RunFailed (InnerThrew msg)), w3) \<Rightarrow>
                  (Inl msg, on_breaker options (onFailure (ji_breaker options) (ji_now options w3)) w3))"

section \<open>Attempts are bounded\<close>

text \<open>The same retry, with the attempts it makes written down beside the state.\<close>

definition logged :: "(nat \<Rightarrow> 's \<Rightarrow> 'r \<times> 's) \<Rightarrow> nat \<Rightarrow> 's \<times> nat list \<Rightarrow> 'r \<times> ('s \<times> nat list)" where
  "logged run n p = (case run n (fst p) of (r, s) \<Rightarrow> (r, (s, snd p @ [n])))"

definition logging :: "'s retry_options \<Rightarrow> ('s \<times> nat list) retry_options" where
  "logging options = \<lparr>ro_maxAttempts = ro_maxAttempts options, ro_idempotent = ro_idempotent options,
     ro_baseDelayMs = ro_baseDelayMs options, ro_maxDelayMs = ro_maxDelayMs options, ro_jitterRatio = ro_jitterRatio options,
     ro_aborted = (\<lambda>p. ro_aborted options (fst p)), ro_random = (\<lambda>p. case ro_random options (fst p) of (u, s) \<Rightarrow> (u, (s, snd p))),
     ro_sleep = (\<lambda>d p. (ro_sleep options d (fst p), snd p))\<rparr>"

lemma logged_apply: "logged run n (s, seen) = (case run n s of (r, s') \<Rightarrow> (r, (s', seen @ [n])))"
  by (simp add: logged_def)

lemma logging_sel [simp]:
  "ro_maxAttempts (logging options) = ro_maxAttempts options" "ro_idempotent (logging options) = ro_idempotent options"
  "ro_baseDelayMs (logging options) = ro_baseDelayMs options" "ro_maxDelayMs (logging options) = ro_maxDelayMs options"
  "ro_jitterRatio (logging options) = ro_jitterRatio options" "ro_aborted (logging options) (s, seen) = ro_aborted options s"
  "ro_random (logging options) (s, seen) = (case ro_random options s of (u, s') \<Rightarrow> (u, (s', seen)))"
  "ro_sleep (logging options) d (s, seen) = (ro_sleep options d s, seen)"
  by (simp_all add: logging_def)

lemma retry_loop_logged:
  assumes "attempt < maxAttempts"
  shows "\<exists>k. attempt \<le> k \<and> k \<le> maxAttempts \<and>
     retry_loop (logged run) isRetryable (logging options) maxAttempts attempt (s, seen) =
       (case retry_loop run isRetryable options maxAttempts attempt s of (r, s') \<Rightarrow> (r, (s', seen @ [attempt..<k])))"
  using assms
proof (induction run isRetryable options maxAttempts attempt s arbitrary: seen rule: retry_loop.induct)
  case (1 run isRetryable options maxAttempts attempt s)
  show ?case
  proof (cases "ro_aborted options s")
    case True
    then show ?thesis
      by (intro exI [of _ attempt]) (use 1(2) in \<open>simp add: retry_loop.simps\<close>)
  next
    case False
    obtain r s1 where run: "run attempt s = (r, s1)" by (cases "run attempt s")
    obtain u s2 where random: "ro_random options s1 = (u, s2)" by (cases "ro_random options s1")
    define s3 where "s3 = ro_sleep options
       (backoffDelay attempt (ro_baseDelayMs options) (ro_maxDelayMs options) (ro_jitterRatio options) u) s2"
    show ?thesis
    proof (cases "\<exists>e. r = Inl e \<and> \<not> ro_aborted options s1 \<and> \<not> (Suc attempt \<ge> maxAttempts \<or> \<not> isRetryable e attempt) \<and>
        \<not> ro_aborted options s3")
      case True
      then obtain e where e: "r = Inl e" "\<not> ro_aborted options s1" "\<not> (Suc attempt \<ge> maxAttempts \<or> \<not> isRetryable e attempt)"
          "\<not> ro_aborted options s3" by blast
      then have "Suc attempt < maxAttempts" by simp
      from 1(1) [OF False run [symmetric, unfolded e(1)] refl e(2,3) random [symmetric] s3_def e(4) this, of "seen @ [attempt]"]
      obtain k where k: "Suc attempt \<le> k" "k \<le> maxAttempts"
        "retry_loop (logged run) isRetryable (logging options) maxAttempts (Suc attempt) (s3, seen @ [attempt]) =
          (case retry_loop run isRetryable options maxAttempts (Suc attempt) s3 of (r, s') \<Rightarrow> (r, (s', (seen @ [attempt]) @ [Suc attempt..<k])))"
        by blast
      have "[attempt..<k] = attempt # [Suc attempt..<k]"
        using k(1) by (simp add: upt_conv_Cons)
      then show ?thesis
        using k False run random e
        by (intro exI [of _ k]) (simp add: retry_loop.simps [of _ _ _ _ attempt] logged_apply s3_def [symmetric])
    next
      case stop: False
      have "[attempt..<Suc attempt] = [attempt]" by simp
      then show ?thesis
        using 1(2) False run random stop
        by (intro exI [of _ "Suc attempt"])
          (auto simp: retry_loop.simps [of _ _ _ _ attempt] logged_apply s3_def [symmetric] Let_def split: sum.split)
    qed
  qed
qed

text \<open>A retried call runs its attempts in order from the first, never more than the limit and never twice
  when it is not idempotent, whatever its errors, the delays and the abort signal are; writing the attempts
  down changes nothing else.\<close>

theorem retries_are_in_order_and_bounded:
  "\<exists>k. k \<le> (if ro_idempotent options then nat (max 1 (ro_maxAttempts options)) else 1) \<and>
     withRetry (logged run) isRetryable (logging options) (s, []) =
       (case withRetry run isRetryable options s of (r, s') \<Rightarrow> (r, (s', [0..<k])))"
proof -
  have "retry_limit (logging options) = retry_limit options" "0 < retry_limit options"
    by (auto simp: retry_limit_def max_def)
  then show ?thesis
    using retry_loop_logged [of 0 "retry_limit options" run isRetryable options s "[]"]
    by (auto simp: withRetry_def retry_limit_def)
qed

text \<open>The delay before a retry lies between the capped exponential and that plus the jitter.\<close>

lemma backoff_bounds:
  assumes "0 \<le> base" "0 \<le> most" "0 \<le> jitter" "0 \<le> u" "u \<le> 1"
  shows "min most (base * 2 ^ n) \<le> backoffDelay n base most jitter u \<and> backoffDelay n base most jitter u \<le> most * (1 + jitter)"
proof -
  let ?b = "min most (base * 2 ^ n)"
  have b: "0 \<le> ?b" "?b \<le> most" using assms by auto
  have "0 \<le> ?b * jitter * u" using b(1) assms by simp
  moreover have "?b * jitter * u \<le> ?b * jitter" using b(1) assms by (simp add: mult_left_le)
  moreover have "?b * jitter \<le> most * jitter" using b(2) assms by (intro mult_right_mono)
  ultimately show ?thesis
    using b(2) by (simp add: backoffDelay_def Let_def distrib_left)
qed

section \<open>The breaker over any sequence of events\<close>

text \<open>
  Calls overlap, so an outcome may be reported long after the permission it belongs to. The breaker's
  operations are therefore taken in any order; the time is that of the operation.
\<close>

datatype breaker_op = AskStatus int | AskProceed int | TakeSlot int | Succeeded | Cancelled | Failed int

fun breaker_step :: "breaker_options \<Rightarrow> breaker \<Rightarrow> breaker_op \<Rightarrow> breaker" where
  "breaker_step options b (AskStatus now) = snd (breaker_status_of options now b)"
| "breaker_step options b (AskProceed now) = snd (canProceed options now b)"
| "breaker_step options b (TakeSlot now) = beforeCall options now b"
| "breaker_step options b Succeeded = onSuccess b"
| "breaker_step options b Cancelled = onCancelled b"
| "breaker_step options b (Failed now) = onFailure options now b"

text \<open>The reference: the failures reported since the last success.\<close>

fun failures_since_success :: "nat \<Rightarrow> breaker_op list \<Rightarrow> nat" where
  "failures_since_success n [] = n"
| "failures_since_success n (Succeeded # ops) = failures_since_success 0 ops"
| "failures_since_success n (Failed t # ops) = failures_since_success (Suc n) ops"
| "failures_since_success n (_ # ops) = failures_since_success n ops"

fun count_failure :: "nat \<Rightarrow> breaker_op \<Rightarrow> nat" where
  "count_failure n Succeeded = 0"
| "count_failure n (Failed t) = Suc n"
| "count_failure n op = n"

definition breaker_counts :: "breaker_options \<Rightarrow> breaker \<times> nat \<Rightarrow> bool" where
  "breaker_counts options = (\<lambda>(b, n).
     if bk_state b = BkClosed then bk_failures b = n \<and> n < bo_failureThreshold options \<and> bk_openedAt b = None
     else bo_failureThreshold options \<le> n \<and> bo_failureThreshold options \<le> bk_failures b \<and> bk_openedAt b \<noteq> None)"

lemmas breaker_ops = breaker_status_of_def canProceed_def beforeCall_def onSuccess_def onCancelled_def onFailure_def
  release_slot_def trip_def maybeTransitionToHalfOpen_def Let_def

lemma breaker_counts_step:
  assumes "0 < bo_failureThreshold options" "breaker_counts options (b, n)"
  shows "breaker_counts options (breaker_step options b op, count_failure n op)"
  using assms by (cases op) (auto simp: breaker_counts_def breaker_ops split: option.splits if_splits)

text \<open>The machine of a breaker with at least one failure to spend, its count beside it.\<close>

definition counted_step :: "breaker_options \<Rightarrow> breaker \<times> nat \<Rightarrow> breaker_op \<Rightarrow> breaker \<times> nat" where
  "counted_step options s op = (breaker_step options (fst s) op, count_failure (snd s) op)"

interpretation breaker_run: stepwise_invariant "counted_step options"
    "\<lambda>s. 0 < bo_failureThreshold options \<longrightarrow> breaker_counts options s" for options
  by unfold_locales (metis breaker_counts_step counted_step_def prod.collapse)

lemma counted_run:
  "foldl (counted_step options) (b, n) ops = (foldl (breaker_step options) b ops, failures_since_success n ops)"
proof (induction ops arbitrary: b n)
  case (Cons op ops)
  then show ?case by (cases op) (simp_all add: counted_step_def)
qed simp

lemma breaker_state_counts:
  assumes "0 < bo_failureThreshold options"
  shows "breaker_counts options (foldl (breaker_step options) new_breaker ops, failures_since_success 0 ops)"
proof -
  have "breaker_counts options (new_breaker, 0)" using assms by (simp add: breaker_counts_def new_breaker_def)
  then show ?thesis
    using breaker_run.run_inv [of options "(new_breaker, 0)" ops] assms by (simp add: counted_run)
qed

text \<open>C40. Whatever calls overlap and in whatever order their outcomes, cancellations and status reads reach it, a
  breaker is closed exactly while fewer failures than its threshold have been reported since the last success, and
  it has a time of opening exactly when it is not closed.\<close>

theorem breaker_closed_iff:
  assumes "0 < bo_failureThreshold options"
  shows "(bk_state (foldl (breaker_step options) new_breaker ops) = BkClosed)
       = (failures_since_success 0 ops < bo_failureThreshold options) \<and>
     (bk_openedAt (foldl (breaker_step options) new_breaker ops) = None)
       = (bk_state (foldl (breaker_step options) new_breaker ops) = BkClosed)"
  using breaker_state_counts [OF assms, of ops] by (auto simp: breaker_counts_def split: if_splits)

definition breaker_defaults :: breaker_options where
  "breaker_defaults = \<lparr>bo_failureThreshold = 5, bo_resetTimeoutMs = 30000, bo_halfOpenMaxCalls = 1\<rparr>"

lemma breaker_closed_iff_witness:
  "bk_state (foldl (breaker_step breaker_defaults) new_breaker [Failed 0, Failed 1, Succeeded, Failed 2]) = BkClosed \<and>
   bk_state (foldl (breaker_step breaker_defaults) new_breaker [Failed 0, Failed 1, Failed 2, Cancelled, Failed 3, Failed 4]) \<noteq> BkClosed"
  using breaker_closed_iff [of breaker_defaults "[Failed 0, Failed 1, Succeeded, Failed 2]"]
    breaker_closed_iff [of breaker_defaults "[Failed 0, Failed 1, Failed 2, Cancelled, Failed 3, Failed 4]"]
  by (simp add: breaker_defaults_def)

text \<open>An open breaker lets nothing through before its timeout, and lets a probe through from then on.\<close>

lemma open_breaker_proceeds_iff:
  assumes "bk_state b = BkOpen" "bk_openedAt b = Some t"
  shows "fst (canProceed options now b) = (t + bo_resetTimeoutMs options \<le> now \<and> 0 < bo_halfOpenMaxCalls options)"
  using assms by (auto simp: breaker_ops algebra_simps)

section \<open>The breaker around a call\<close>

lemma registry_put_same:
  assumes "distinct (map fst reg)" "map_of reg host = Some b"
  shows "registry_put host b reg = reg"
  unfolding registry_put_def
proof (rule map_idI)
  fix p assume "p \<in> set reg"
  then have "map_of reg (fst p) = Some (snd p)" using assms(1) by (simp add: map_of_eq_Some_iff)
  then show "(case p of (h, x) \<Rightarrow> if h = host then (h, b) else (h, x)) = p"
    using assms(2) by (cases p) auto
qed

lemma open_call_refused:
  assumes "distinct (map fst (jw_registry w))" "map_of (jw_registry w) (ji_host options) = Some b"
    and "bk_state b = BkOpen" "bk_openedAt b = Some t" "ji_now options w < t + bo_resetTimeoutMs (ji_breaker options)"
  shows "resilient_call options deadline w = (Inr (JevDisabled BREAKER_OPEN_MESSAGE), w)"
  using assms registry_put_same [OF assms(1,2)]
  by (simp add: resilient_call_def registry_get_def breaker_ops)

text \<open>While a host's breaker is open and its timeout has not passed, a call for that host answers that Jev is
  disabled and changes nothing: the transport is not called, nothing is retried or slept for, the breaker stays as it is.\<close>

theorem open_breaker_never_reaches_the_transport:
  assumes "distinct (map fst (jw_registry w))" "map_of (jw_registry w) (ji_host options) = Some b"
    and "bk_state b = BkOpen" "bk_openedAt b = Some t" "ji_now options w < t + bo_resetTimeoutMs (ji_breaker options)"
  shows "resilient_call options deadline w = (Inr (JevDisabled BREAKER_OPEN_MESSAGE), w)"
  by (rule open_call_refused [OF assms])

lemma one_attempt_guard:
  "one_attempt (options\<lparr>ji_call := \<lambda>left w. if left \<le> 0 then late left w else ji_call options left w\<rparr>) allowedMs start n w
   = one_attempt options allowedMs start n w"
  by (simp add: one_attempt_def withDeadline_def Let_def split: prod.split inner_call.split)

text \<open>Once the deadline of a call has passed, no attempt of it reaches the transport: what the transport would do
  with no time left makes no difference to the call.\<close>

theorem no_attempt_after_the_deadline:
  "resilient_call (options\<lparr>ji_call := \<lambda>left w. if left \<le> 0 then late left w else ji_call options left w\<rparr>) deadline w
   = resilient_call options deadline w"
proof -
  let ?o = "options\<lparr>ji_call := \<lambda>left w. if left \<le> 0 then late left w else ji_call options left w\<rparr>"
  have attempt: "one_attempt ?o = one_attempt options"
    by (intro ext) (rule one_attempt_guard)
  have sels: "call_retry_options ?o = call_retry_options options" "ji_host ?o = ji_host options"
    "ji_breaker ?o = ji_breaker options" "ji_now ?o = ji_now options" "ji_deadlineMs ?o = ji_deadlineMs options"
    by (cases options; simp add: call_retry_options_def)+
  have breaker: "on_breaker ?o = on_breaker options"
    by (intro ext) (simp only: on_breaker_def sels)
  have told: "report ?o = report options"
    by (intro ext) (simp only: report_def breaker sels)
  show ?thesis by (simp only: resilient_call_def attempt sels breaker told)
qed

text \<open>A transport that always settles with one result, on a clock that does not move; the breaker of its host
  as given.\<close>

definition settling :: "jev_result \<Rightarrow> unit resilient_options" where
  "settling r = \<lparr>ji_deadlineMs = 1000, ji_maxRetries = 2, ji_breaker = breaker_defaults, ji_host = ''jev'',
     ji_now = (\<lambda>_. 0), ji_call = (\<lambda>_ w. (Settles r, w)), ji_aborted = (\<lambda>_. False), ji_random = (\<lambda>w. (0, w)),
     ji_sleep = (\<lambda>_ w. w)\<rparr>"

definition world_with :: "breaker \<Rightarrow> unit jev_world" where
  "world_with b = \<lparr>jw_env = (), jw_registry = [(''jev'', b)]\<rparr>"

definition open_breaker :: breaker where
  "open_breaker = foldl (breaker_step breaker_defaults) new_breaker [Failed 0, Failed 0, Failed 0, Failed 0, Failed 0]"

lemma open_breaker_eq: "open_breaker = \<lparr>bk_state = BkOpen, bk_failures = 5, bk_openedAt = Some 0, bk_halfOpenInFlight = 0\<rparr>"
  by (simp add: open_breaker_def new_breaker_def breaker_ops breaker_defaults_def)

lemma open_breaker_witness:
  "resilient_call (settling (JevOk ''yes'')) None (world_with open_breaker)
     = (Inr (JevDisabled BREAKER_OPEN_MESSAGE), world_with open_breaker)"
  by (rule open_breaker_never_reaches_the_transport [where b = open_breaker and t = 0])
    (simp_all add: world_with_def settling_def open_breaker_eq breaker_defaults_def)

lemmas evaluate_call = resilient_call_def registry_get_def registry_put_def on_breaker_def report_def withRetry_def
  retry_limit_def call_retry_options_def one_attempt_def withDeadline_def is_retryable_def RETRYABLE_CODES_def
  retry_loop.simps settling_def world_with_def

text \<open>Exhausted retries answer the last error, not that Jev is disabled; and a transport that answers that it is
  disabled is counted against the breaker like a failure.\<close>

lemma exhausted_retries_answer_the_error:
  "fst (resilient_call (settling (JevError ''jev.unavailable'' 3)) None (world_with new_breaker))
     = Inr (JevError ''jev.unavailable'' 3)"
  by (simp add: evaluate_call new_breaker_def breaker_ops breaker_defaults_def)

lemma disabled_transport_counts_as_failing:
  "jw_registry (snd (resilient_call (settling (JevDisabled ''off'')) None (world_with new_breaker)))
     = [(''jev'', new_breaker\<lparr>bk_failures := 1\<rparr>)]"
  by (simp add: evaluate_call new_breaker_def breaker_ops breaker_defaults_def)

text \<open>A call from before the trip that is cancelled while a probe runs gives the probe's slot away: a second call is
  let through although one probe is allowed and it is still running. One that succeeds closes the open breaker.\<close>

lemma late_cancel_frees_the_probe_slot:
  "fst (canProceed breaker_defaults 30000 (foldl (breaker_step breaker_defaults) open_breaker
     [AskProceed 30000, TakeSlot 30000, Cancelled]))"
  "\<not> fst (canProceed breaker_defaults 30000 (foldl (breaker_step breaker_defaults) open_breaker
     [AskProceed 30000, TakeSlot 30000]))"
  by (simp_all add: open_breaker_eq breaker_ops breaker_defaults_def)

lemma late_success_closes_an_open_breaker:
  "bk_state (foldl (breaker_step breaker_defaults) open_breaker [Succeeded]) = BkClosed"
  by (simp add: open_breaker_eq breaker_ops)

end
