(* ===== verification/ApprovalClasses.thy ===== *)
theory ApprovalClasses
  imports StoreRecords
begin

text \<open>
  The approval classes of \<open>src/workflow/approval-classes.ts\<close>: the table of default dispositions, the
  validation of a configured table, the disposition of an act and the classifier. The prose columns
  \<open>act\<close> and \<open>why\<close> and the message texts are not modelled.
\<close>

section \<open>Classes\<close>

datatype approval_decision = DecAuto | DecQueue | DecStop

definition DECISION_ORDER :: "approval_decision list" where
  "DECISION_ORDER = [DecAuto, DecQueue, DecStop]"

definition WORKFLOW_MODES :: "workflow_mode list" where
  "WORKFLOW_MODES = [Shadow, Advisory, Supervised, BoundedAutonomous]"

type_synonym policy_per_mode = "workflow_mode \<Rightarrow> approval_decision"

definition pm :: "approval_decision \<Rightarrow> approval_decision \<Rightarrow> approval_decision \<Rightarrow> approval_decision \<Rightarrow> policy_per_mode" where
  "pm shadow advisory supervised bounded mode = (case mode of Shadow \<Rightarrow> shadow | Advisory \<Rightarrow> advisory
     | Supervised \<Rightarrow> supervised | BoundedAutonomous \<Rightarrow> bounded)"

definition STOP_ALL :: policy_per_mode where
  "STOP_ALL = pm DecStop DecStop DecStop DecStop"

datatype approval_class =
    ClsReadRepository | ClsEditWorktree | ClsDeleteFile | ClsWriteOutsideOwnership |
    ClsModifyProjectConfig | ClsRunChecks | ClsRunShell | ClsRunMigration | ClsInstallDependencies |
    ClsAddDependency | ClsNetworkAccess | ClsLocalCommit | ClsPushOwnBranch | ClsSpawnWorker |
    ClsModelFallback | ClsModelSubstituteMoreExpensive | ClsSpendOverEstimate | ClsCompleteTask |
    ClsScopeChange | ClsReplan | ClsModelSubstitutePinned | ClsDestructiveCleanup | ClsDestructiveGit |
    ClsRemotePush | ClsDeployment | ClsPublishing | ClsCredentialAccess | ClsModifyPolicy

primrec class_id :: "approval_class \<Rightarrow> string" where
  "class_id ClsReadRepository = ''read_repository''"
| "class_id ClsEditWorktree = ''edit_worktree''"
| "class_id ClsDeleteFile = ''delete_file''"
| "class_id ClsWriteOutsideOwnership = ''write_outside_ownership''"
| "class_id ClsModifyProjectConfig = ''modify_project_config''"
| "class_id ClsRunChecks = ''run_checks''"
| "class_id ClsRunShell = ''run_shell''"
| "class_id ClsRunMigration = ''run_migration''"
| "class_id ClsInstallDependencies = ''install_dependencies''"
| "class_id ClsAddDependency = ''add_dependency''"
| "class_id ClsNetworkAccess = ''network_access''"
| "class_id ClsLocalCommit = ''local_commit''"
| "class_id ClsPushOwnBranch = ''push_own_branch''"
| "class_id ClsSpawnWorker = ''spawn_worker''"
| "class_id ClsModelFallback = ''model_fallback''"
| "class_id ClsModelSubstituteMoreExpensive = ''model_substitute_more_expensive''"
| "class_id ClsSpendOverEstimate = ''spend_over_estimate''"
| "class_id ClsCompleteTask = ''complete_task''"
| "class_id ClsScopeChange = ''scope_change''"
| "class_id ClsReplan = ''replan''"
| "class_id ClsModelSubstitutePinned = ''model_substitute_pinned''"
| "class_id ClsDestructiveCleanup = ''destructive_cleanup''"
| "class_id ClsDestructiveGit = ''destructive_git''"
| "class_id ClsRemotePush = ''remote_push''"
| "class_id ClsDeployment = ''deployment''"
| "class_id ClsPublishing = ''publishing''"
| "class_id ClsCredentialAccess = ''credential_access''"
| "class_id ClsModifyPolicy = ''modify_policy''"

definition CONFIGURABLE_CLASSES :: "approval_class list" where
  "CONFIGURABLE_CLASSES =
     [ClsReadRepository, ClsEditWorktree, ClsDeleteFile, ClsWriteOutsideOwnership, ClsModifyProjectConfig,
      ClsRunChecks, ClsRunShell, ClsRunMigration, ClsInstallDependencies, ClsAddDependency, ClsNetworkAccess,
      ClsLocalCommit, ClsPushOwnBranch, ClsSpawnWorker, ClsModelFallback, ClsModelSubstituteMoreExpensive,
      ClsSpendOverEstimate, ClsCompleteTask]"

definition NO_AUTO_CLASSES :: "approval_class list" where
  "NO_AUTO_CLASSES =
     [ClsScopeChange, ClsReplan, ClsModelSubstitutePinned]"

definition HIGH_RISK_CLASSES :: "approval_class list" where
  "HIGH_RISK_CLASSES =
     [ClsDestructiveCleanup, ClsDestructiveGit, ClsRemotePush, ClsDeployment, ClsPublishing,
      ClsCredentialAccess, ClsModifyPolicy]"

record approval_class_definition =
  cd_id :: approval_class
  cd_tier :: class_tier
  cd_risk :: risk_class
  cd_defaults :: policy_per_mode
  cd_payload :: "string list"

definition class_row :: "approval_class \<Rightarrow> class_tier \<Rightarrow> risk_class \<Rightarrow> policy_per_mode \<Rightarrow> string list \<Rightarrow> approval_class_definition" where
  "class_row c tier risk defaults payload = \<lparr>cd_id = c, cd_tier = tier, cd_risk = risk, cd_defaults = defaults, cd_payload = payload\<rparr>"

definition APPROVAL_CLASS_TABLE :: "approval_class_definition list" where
  "APPROVAL_CLASS_TABLE =
    [class_row ClsReadRepository TierConfigurable RiskLow (pm DecAuto DecAuto DecAuto DecAuto) [''paths''],
     class_row ClsEditWorktree TierConfigurable RiskLow (pm DecStop DecStop DecQueue DecAuto) [''paths'', ''bytesChanged''],
     class_row ClsDeleteFile TierConfigurable RiskLow (pm DecStop DecStop DecQueue DecAuto) [''paths''],
     class_row ClsWriteOutsideOwnership TierConfigurable RiskMedium (pm DecStop DecStop DecQueue DecQueue) [''paths'', ''ownerTaskIds''],
     class_row ClsModifyProjectConfig TierConfigurable RiskMedium (pm DecStop DecStop DecQueue DecQueue) [''paths'', ''checksAffected''],
     class_row ClsRunChecks TierConfigurable RiskLow (pm DecStop DecStop DecAuto DecAuto) [''checkId'', ''command''],
     class_row ClsRunShell TierConfigurable RiskMedium (pm DecStop DecStop DecQueue DecQueue) [''command'', ''cwd''],
     class_row ClsRunMigration TierConfigurable RiskMedium (pm DecStop DecStop DecQueue DecQueue) [''command'', ''target''],
     class_row ClsInstallDependencies TierConfigurable RiskMedium (pm DecStop DecStop DecQueue DecQueue) [''command'', ''packageManager''],
     class_row ClsAddDependency TierConfigurable RiskMedium (pm DecStop DecStop DecQueue DecQueue) [''packages'', ''manifestPaths''],
     class_row ClsNetworkAccess TierConfigurable RiskMedium (pm DecStop DecStop DecQueue DecQueue) [''hosts'', ''purpose''],
     class_row ClsLocalCommit TierConfigurable RiskLow (pm DecStop DecStop DecQueue DecAuto) [''branch'', ''sha''],
     class_row ClsPushOwnBranch TierConfigurable RiskLow (pm DecStop DecStop DecQueue DecAuto) [''branch'', ''remote'', ''sha''],
     class_row ClsSpawnWorker TierConfigurable RiskLow (pm DecStop DecStop DecQueue DecAuto) [''role'', ''modelRef'', ''estimatedCost''],
     class_row ClsModelFallback TierConfigurable RiskLow (pm DecAuto DecAuto DecQueue DecAuto) [''fromModelRef'', ''toModelRef'', ''reason''],
     class_row ClsModelSubstituteMoreExpensive TierConfigurable RiskMedium (pm DecAuto DecAuto DecQueue DecQueue) [''fromModelRef'', ''toModelRef'', ''estimatedCostDelta''],
     class_row ClsModelSubstitutePinned TierNoAuto RiskMedium (pm DecQueue DecQueue DecQueue DecQueue) [''pinnedModelRef'', ''reason'', ''candidateModelRef''],
     class_row ClsSpendOverEstimate TierConfigurable RiskMedium (pm DecAuto DecAuto DecQueue DecQueue) [''estimateUsd'', ''projectedUsd'', ''capUsd''],
     class_row ClsCompleteTask TierConfigurable RiskLow (pm DecStop DecStop DecQueue DecAuto) [''gateReceiptId''],
     class_row ClsScopeChange TierNoAuto RiskMedium (pm DecStop DecStop DecQueue DecQueue) [''planRevisionFrom'', ''planRevisionTo'', ''diffSummary''],
     class_row ClsReplan TierNoAuto RiskMedium (pm DecStop DecStop DecQueue DecQueue) [''reason'', ''planRevisionFrom'', ''proposedTaskCount''],
     class_row ClsDestructiveCleanup TierHighRisk RiskHigh (STOP_ALL) [''paths''],
     class_row ClsDestructiveGit TierHighRisk RiskHigh (STOP_ALL) [''command'', ''refs''],
     class_row ClsRemotePush TierHighRisk RiskHigh (STOP_ALL) [''branch'', ''remote'', ''sha''],
     class_row ClsDeployment TierHighRisk RiskHigh (STOP_ALL) [''target'', ''command''],
     class_row ClsPublishing TierHighRisk RiskHigh (STOP_ALL) [''artifact'', ''target''],
     class_row ClsCredentialAccess TierHighRisk RiskHigh (STOP_ALL) [''paths'', ''secretKind''],
     class_row ClsModifyPolicy TierHighRisk RiskHigh (STOP_ALL) [''paths'', ''keysChanged'']]"

text \<open>\<open>APPROVAL_CLASS_TABLE.find((c) => c.id === classId)\<close>: the table has a row for every class.\<close>

definition approvalClassDefinition :: "approval_class \<Rightarrow> approval_class_definition" where
  "approvalClassDefinition c = (case find (\<lambda>d. cd_id d = c) APPROVAL_CLASS_TABLE of Some d \<Rightarrow> d
     | None \<Rightarrow> class_row c TierHighRisk RiskHigh STOP_ALL [])"

definition DEFAULT_APPROVAL_CLASSES :: "approval_class \<Rightarrow> policy_per_mode" where
  "DEFAULT_APPROVAL_CLASSES c = cd_defaults (approvalClassDefinition c)"

section \<open>Validation\<close>

datatype class_violation = V4 approval_class workflow_mode | V10 approval_class workflow_mode
  | V11 approval_class workflow_mode | V12 approval_class

definition NON_MUTATING_MODES :: "workflow_mode list" where
  "NON_MUTATING_MODES = [Shadow, Advisory]"

definition MUTATION_CLASSES :: "approval_class list" where
  "MUTATION_CLASSES = map cd_id (filter (\<lambda>d. cd_id d \<notin> {ClsReadRepository, ClsModelFallback,
     ClsModelSubstituteMoreExpensive, ClsSpendOverEstimate}) APPROVAL_CLASS_TABLE)"

text \<open>A configured object may leave out classes and modes.\<close>

type_synonym class_config = "approval_class \<Rightarrow> (workflow_mode \<Rightarrow> approval_decision option) option"

definition mode_violations :: "approval_class_definition \<Rightarrow> (workflow_mode \<Rightarrow> approval_decision option) \<Rightarrow> workflow_mode \<Rightarrow> class_violation list" where
  "mode_violations def row mode =
     (case row mode of
        None \<Rightarrow> [V12 (cd_id def)]
      | Some d \<Rightarrow>
          (if cd_tier def = TierHighRisk \<and> d \<noteq> DecStop then [V10 (cd_id def) mode] else []) @
          (if cd_tier def = TierNoAuto \<and> d = DecAuto then [V11 (cd_id def) mode] else []) @
          (if cd_tier def = TierConfigurable \<and> d = DecAuto \<and> mode \<in> set NON_MUTATING_MODES \<and>
              cd_id def \<in> set MUTATION_CLASSES then [V4 (cd_id def) mode] else []))"

definition validateApprovalClasses :: "class_config \<Rightarrow> class_violation list" where
  "validateApprovalClasses classes = concat (map (\<lambda>def.
     case classes (cd_id def) of None \<Rightarrow> [] | Some row \<Rightarrow> concat (map (mode_violations def row) WORKFLOW_MODES))
     APPROVAL_CLASS_TABLE)"

section \<open>Disposition\<close>

primrec decision_index :: "approval_decision \<Rightarrow> nat" where
  "decision_index DecAuto = 0"
| "decision_index DecQueue = 1"
| "decision_index DecStop = 2"

definition isMoreRestrictive :: "approval_decision \<Rightarrow> approval_decision \<Rightarrow> bool" where
  "isMoreRestrictive a b \<longleftrightarrow> decision_index a > decision_index b"

record jev_escalation =
  je_questionId :: string
  je_proposed :: approval_decision
  je_probability :: rat

record class_disposition =
  di_classId :: approval_class
  di_mode :: workflow_mode
  di_ruleDecision :: approval_decision
  di_decision :: approval_decision
  di_jevEscalation :: "jev_escalation option"

definition rule_decision :: "approval_class \<Rightarrow> workflow_mode \<Rightarrow> (approval_class \<Rightarrow> policy_per_mode) \<Rightarrow> approval_decision" where
  "rule_decision c mode table =
     (let tier = cd_tier (approvalClassDefinition c);
          r = (if tier = TierHighRisk then DecStop else table c mode)
      in if tier = TierNoAuto \<and> r = DecAuto then DecQueue else r)"

definition resolveDisposition ::
  "approval_class \<Rightarrow> workflow_mode \<Rightarrow> (approval_class \<Rightarrow> policy_per_mode) \<Rightarrow> jev_escalation option \<Rightarrow> class_disposition" where
  "resolveDisposition c mode table jev =
     (let r = rule_decision c mode table;
          escalate = (case jev of None \<Rightarrow> False | Some j \<Rightarrow> isMoreRestrictive (je_proposed j) r)
      in \<lparr>di_classId = c, di_mode = mode, di_ruleDecision = r,
          di_decision = (if escalate then je_proposed (the jev) else r),
          di_jevEscalation = (if escalate then jev else None)\<rparr>)"

section \<open>Classifying an act\<close>

datatype act_kind = ActRead | ActWrite | ActDelete | ActExec | ActGit | ActNetwork | ActModel | ActPlan | ActTask

datatype git_op = GitCommit | GitPush | GitForcePush | GitRewrite | GitDeleteRef | GitTag

datatype plan_op = PlanScopeChange | PlanReplan

datatype task_op = TaskSpawnWorker | TaskComplete | TaskSpendOverEstimate

text \<open>An optional flag that is left out is tested with \<open>=== true\<close> or \<open>!== true\<close>: it is false.\<close>

record act_facts =
  af_kind :: act_kind
  af_insideWorktree :: bool
  af_insideOwnership :: bool
  af_gitTracked :: bool
  af_touchesDenyPath :: bool
  af_touchesKorwfPolicy :: bool
  af_touchesProjectConfig :: bool
  af_touchesDependencyManifest :: bool
  af_isRegisteredCheck :: bool
  af_isMigration :: bool
  af_targetIsEphemeral :: bool
  af_isInstallOfDeclared :: bool
  af_gitOp :: "git_op option"
  af_refOwnedByWorkflow :: bool
  af_remoteIsConfigured :: bool
  af_hostAllowlisted :: bool
  af_costDeltaUsd :: "rat option"
  af_planOp :: "plan_op option"
  af_taskOp :: "task_op option"
  af_isDeploy :: bool
  af_isPublish :: bool

definition classifyAct :: "act_facts \<Rightarrow> approval_class" where
  "classifyAct f =
     (if af_touchesDenyPath f then ClsCredentialAccess
      else if af_touchesKorwfPolicy f then ClsModifyPolicy
      else if af_isPublish f \<or> af_gitOp f = Some GitTag then ClsPublishing
      else if af_isDeploy f \<or> af_isMigration f \<and> \<not> af_targetIsEphemeral f then ClsDeployment
      else if af_gitOp f = Some GitForcePush \<or> af_gitOp f = Some GitRewrite \<or> af_gitOp f = Some GitDeleteRef then ClsDestructiveGit
      else if af_gitOp f = Some GitPush \<and> (\<not> af_refOwnedByWorkflow f \<or> \<not> af_remoteIsConfigured f) then ClsRemotePush
      else if af_kind f = ActDelete \<and> (\<not> af_gitTracked f \<or> \<not> af_insideWorktree f) then ClsDestructiveCleanup
      else if (af_kind f = ActWrite \<or> af_kind f = ActDelete) \<and> \<not> af_insideWorktree f then ClsDestructiveCleanup
      else if af_planOp f = Some PlanScopeChange then ClsScopeChange
      else if af_planOp f = Some PlanReplan then ClsReplan
      else if af_kind f = ActNetwork then (if af_hostAllowlisted f then ClsReadRepository else ClsNetworkAccess)
      else if af_kind f = ActModel then
        (if (case af_costDeltaUsd f of None \<Rightarrow> 0 | Some d \<Rightarrow> d) > 0 then ClsModelSubstituteMoreExpensive else ClsModelFallback)
      else if af_kind f = ActTask then
        (if af_taskOp f = Some TaskSpendOverEstimate then ClsSpendOverEstimate
         else if af_taskOp f = Some TaskComplete then ClsCompleteTask else ClsSpawnWorker)
      else if af_kind f = ActGit then (if af_gitOp f = Some GitPush then ClsPushOwnBranch else ClsLocalCommit)
      else if af_kind f = ActExec then
        (if af_isRegisteredCheck f then ClsRunChecks
         else if af_isMigration f then ClsRunMigration
         else if af_touchesDependencyManifest f then ClsAddDependency
         else if af_isInstallOfDeclared f then ClsInstallDependencies else ClsRunShell)
      else if af_kind f = ActRead then ClsReadRepository
      else if af_touchesDependencyManifest f then ClsAddDependency
      else if af_touchesProjectConfig f then ClsModifyProjectConfig
      else if \<not> af_insideOwnership f then ClsWriteOutsideOwnership
      else if af_kind f = ActDelete then ClsDeleteFile else ClsEditWorktree)"

section \<open>The table\<close>

lemma table_by_tier:
  "map cd_id (filter (\<lambda>d. cd_tier d = TierHighRisk) APPROVAL_CLASS_TABLE) = HIGH_RISK_CLASSES"
  "set (map cd_id (filter (\<lambda>d. cd_tier d = TierNoAuto) APPROVAL_CLASS_TABLE)) = set NO_AUTO_CLASSES"
  "distinct (map cd_id APPROVAL_CLASS_TABLE)"
  "set (map cd_id (filter (\<lambda>d. cd_tier d = TierConfigurable) APPROVAL_CLASS_TABLE)) = set CONFIGURABLE_CLASSES"
  by code_simp+

lemma row_of: "d \<in> set APPROVAL_CLASS_TABLE \<Longrightarrow> approvalClassDefinition (cd_id d) = d"
proof -
  assume d: "d \<in> set APPROVAL_CLASS_TABLE"
  have "find (\<lambda>x. cd_id x = cd_id d) xs = Some d" if "d \<in> set xs" "distinct (map cd_id xs)" for xs
    using that by (induction xs) (auto simp: image_iff)
  from this [OF d table_by_tier(3)] show ?thesis
    by (simp add: approvalClassDefinition_def)
qed

lemma class_listed: "c \<in> set (map cd_id APPROVAL_CLASS_TABLE)"
  by (cases c; hypsubst; code_simp)

lemma class_in_table: "approvalClassDefinition c \<in> set APPROVAL_CLASS_TABLE \<and> cd_id (approvalClassDefinition c) = c"
proof -
  obtain d where "d \<in> set APPROVAL_CLASS_TABLE" "cd_id d = c"
    using class_listed [of c] by auto
  then show ?thesis using row_of by auto
qed

lemma tier_high: "cd_tier (approvalClassDefinition c) = TierHighRisk \<longleftrightarrow> c \<in> set HIGH_RISK_CLASSES"
  unfolding table_by_tier(1) [symmetric] using class_in_table [of c] row_of by force

lemma tier_no_auto: "cd_tier (approvalClassDefinition c) = TierNoAuto \<longleftrightarrow> c \<in> set NO_AUTO_CLASSES"
  unfolding table_by_tier(2) [symmetric] using class_in_table [of c] row_of by force

section \<open>Properties\<close>

text \<open>No table and no Jev signal lowers a disposition: the decision is never below the rule's, it is what Jev
  proposed exactly when that is more restrictive, a high-risk class always stops, and a class that may
  never be silent is never automatic, whatever the configured table says.\<close>

theorem disposition_only_tightens:
  "decision_index (rule_decision c mode table) \<le> decision_index (di_decision (resolveDisposition c mode table jev)) \<and>
   (c \<in> set HIGH_RISK_CLASSES \<longrightarrow> di_decision (resolveDisposition c mode table jev) = DecStop) \<and>
   (c \<in> set NO_AUTO_CLASSES \<longrightarrow> di_decision (resolveDisposition c mode table jev) \<noteq> DecAuto) \<and>
   di_decision (resolveDisposition c mode table jev) = (case jev of None \<Rightarrow> rule_decision c mode table
     | Some j \<Rightarrow> if isMoreRestrictive (je_proposed j) (rule_decision c mode table) then je_proposed j else rule_decision c mode table)"
proof -
  have high: "rule_decision c mode table = DecStop" if "c \<in> set HIGH_RISK_CLASSES"
    using that by (simp add: rule_decision_def Let_def tier_high [symmetric])
  have no_auto: "rule_decision c mode table \<noteq> DecAuto" if "c \<in> set NO_AUTO_CLASSES"
    using that by (simp add: rule_decision_def Let_def tier_no_auto [symmetric])
  have top: "\<not> isMoreRestrictive d DecStop" for d
    by (cases d) (simp_all add: isMoreRestrictive_def)
  have decision: "di_decision (resolveDisposition c mode table jev) = (case jev of None \<Rightarrow> rule_decision c mode table
     | Some j \<Rightarrow> if isMoreRestrictive (je_proposed j) (rule_decision c mode table) then je_proposed j else rule_decision c mode table)"
    by (simp add: resolveDisposition_def Let_def split: option.split)
  have "je_proposed j \<noteq> DecAuto" if "isMoreRestrictive (je_proposed j) r" for j r
    using that by (auto simp: isMoreRestrictive_def)
  then show ?thesis
    unfolding decision using high no_auto top by (auto simp: isMoreRestrictive_def split: option.split)
qed

lemma disposition_witness:
  "di_decision (resolveDisposition ClsPublishing BoundedAutonomous (\<lambda>_ _. DecAuto)
     (Some \<lparr>je_questionId = [], je_proposed = DecAuto, je_probability = 1\<rparr>)) = DecStop"
proof -
  have "ClsPublishing \<in> set HIGH_RISK_CLASSES" by code_simp
  then show ?thesis
    using disposition_only_tightens [of ClsPublishing BoundedAutonomous "\<lambda>_ _. DecAuto"] by blast
qed

lemma high_risk_classes: "set HIGH_RISK_CLASSES = {ClsDestructiveCleanup, ClsDestructiveGit, ClsRemotePush, ClsDeployment,
    ClsPublishing, ClsCredentialAccess, ClsModifyPolicy}"
  by (simp add: HIGH_RISK_CLASSES_def insert_commute)

definition unvouched_classes :: "approval_class list" where
  "unvouched_classes = [ClsScopeChange, ClsReplan, ClsRunMigration, ClsAddDependency, ClsInstallDependencies, ClsRunShell,
     ClsModifyProjectConfig, ClsWriteOutsideOwnership]"

lemma unvouched_never_automatic:
  "list_all (\<lambda>c. list_all (\<lambda>mode. di_decision (resolveDisposition c mode DEFAULT_APPROVAL_CLASSES None) \<noteq> DecAuto) WORKFLOW_MODES)
     (HIGH_RISK_CLASSES @ unvouched_classes)"
  by code_simp

text \<open>The classifier calls an act high-risk exactly when one of the listed facts makes it so, and an act that
  changes or runs something without the facts that vouch for it (a registered check, or a file inside the
  worktree and the task's ownership) is never automatic by default, in any mode.\<close>

theorem classifier_is_restrictive:
  "(classifyAct f \<in> set HIGH_RISK_CLASSES \<longleftrightarrow>
     af_touchesDenyPath f \<or> af_touchesKorwfPolicy f \<or> af_isPublish f \<or> af_isDeploy f \<or>
     af_isMigration f \<and> \<not> af_targetIsEphemeral f \<or>
     af_gitOp f \<in> {Some GitTag, Some GitForcePush, Some GitRewrite, Some GitDeleteRef} \<or>
     af_gitOp f = Some GitPush \<and> \<not> (af_refOwnedByWorkflow f \<and> af_remoteIsConfigured f) \<or>
     af_kind f \<in> {ActWrite, ActDelete} \<and> \<not> af_insideWorktree f \<or> af_kind f = ActDelete \<and> \<not> af_gitTracked f) \<and>
   (af_kind f \<in> {ActExec, ActWrite, ActDelete} \<and> \<not> af_isRegisteredCheck f \<and> \<not> (af_insideWorktree f \<and> af_insideOwnership f) \<longrightarrow>
     di_decision (resolveDisposition (classifyAct f) mode DEFAULT_APPROVAL_CLASSES None) \<noteq> DecAuto)"
proof -
  have never: "di_decision (resolveDisposition c mode DEFAULT_APPROVAL_CLASSES None) \<noteq> DecAuto"
    if "c \<in> set HIGH_RISK_CLASSES \<union> {ClsScopeChange, ClsReplan, ClsRunMigration, ClsAddDependency, ClsInstallDependencies, ClsRunShell,
        ClsModifyProjectConfig, ClsWriteOutsideOwnership}" for c
  proof -
    have "c \<in> set (HIGH_RISK_CLASSES @ unvouched_classes)" using that by (auto simp: unvouched_classes_def)
    moreover have "mode \<in> set WORKFLOW_MODES" by (cases mode) (simp_all add: WORKFLOW_MODES_def)
    ultimately show ?thesis using unvouched_never_automatic unfolding list_all_iff by blast
  qed
  have risky: "classifyAct f \<in> set HIGH_RISK_CLASSES \<longleftrightarrow>
     af_touchesDenyPath f \<or> af_touchesKorwfPolicy f \<or> af_isPublish f \<or> af_isDeploy f \<or>
     af_isMigration f \<and> \<not> af_targetIsEphemeral f \<or>
     af_gitOp f \<in> {Some GitTag, Some GitForcePush, Some GitRewrite, Some GitDeleteRef} \<or>
     af_gitOp f = Some GitPush \<and> \<not> (af_refOwnedByWorkflow f \<and> af_remoteIsConfigured f) \<or>
     af_kind f \<in> {ActWrite, ActDelete} \<and> \<not> af_insideWorktree f \<or> af_kind f = ActDelete \<and> \<not> af_gitTracked f"
    unfolding high_risk_classes by (simp add: classifyAct_def)
  have "classifyAct f \<in> set HIGH_RISK_CLASSES \<union> {ClsScopeChange, ClsReplan, ClsRunMigration, ClsAddDependency,
      ClsInstallDependencies, ClsRunShell, ClsModifyProjectConfig, ClsWriteOutsideOwnership}"
    if "af_kind f \<in> {ActExec, ActWrite, ActDelete}" "\<not> af_isRegisteredCheck f" "\<not> (af_insideWorktree f \<and> af_insideOwnership f)"
    using that unfolding high_risk_classes by (auto simp: classifyAct_def)
  with risky never show ?thesis by blast
qed

definition fx_act :: "act_kind \<Rightarrow> act_facts" where
  "fx_act kind = \<lparr>af_kind = kind, af_insideWorktree = True, af_insideOwnership = False, af_gitTracked = False,
     af_touchesDenyPath = False, af_touchesKorwfPolicy = False, af_touchesProjectConfig = False,
     af_touchesDependencyManifest = False, af_isRegisteredCheck = False, af_isMigration = False, af_targetIsEphemeral = False,
     af_isInstallOfDeclared = False, af_gitOp = None, af_refOwnedByWorkflow = False, af_remoteIsConfigured = False,
     af_hostAllowlisted = False, af_costDeltaUsd = None, af_planOp = None, af_taskOp = None, af_isDeploy = False, af_isPublish = False\<rparr>"

lemma classifier_witness:
  "classifyAct (fx_act ActDelete) \<in> set HIGH_RISK_CLASSES \<and>
   di_decision (resolveDisposition (classifyAct (fx_act ActExec)) BoundedAutonomous DEFAULT_APPROVAL_CLASSES None) \<noteq> DecAuto"
  using classifier_is_restrictive [of "fx_act ActDelete" Shadow] classifier_is_restrictive [of "fx_act ActExec" BoundedAutonomous]
  by (simp add: fx_act_def)

text \<open>
  The classifier's comment says an act that satisfies several rules lands in the most restrictive
  class. A registered check that also changes the dependency manifest is classified as the check.
\<close>

lemma less_restrictive_class_wins:
  "classifyAct ((fx_act ActExec)\<lparr>af_touchesDependencyManifest := True\<rparr>) = ClsAddDependency"
  "classifyAct ((fx_act ActExec)\<lparr>af_touchesDependencyManifest := True, af_isRegisteredCheck := True\<rparr>) = ClsRunChecks"
  "isMoreRestrictive (DEFAULT_APPROVAL_CLASSES ClsAddDependency Supervised) (DEFAULT_APPROVAL_CLASSES ClsRunChecks Supervised)"
  by code_simp+

section \<open>Accepted configurations\<close>

text \<open>A configuration of the classes is accepted exactly when every listed class decides for all four modes, no
  high-risk class is below stop, no class that may never be silent is automatic, and no mutating class is
  automatic in the modes that do not mutate; so an accepted table never raises what the rules pin.\<close>

theorem accepted_classes_iff:
  "validateApprovalClasses classes = [] \<longleftrightarrow>
     (\<forall>c row mode. classes c = Some row \<longrightarrow> (\<exists>d. row mode = Some d \<and>
        (c \<in> set HIGH_RISK_CLASSES \<longrightarrow> d = DecStop) \<and> (c \<in> set NO_AUTO_CLASSES \<longrightarrow> d \<noteq> DecAuto) \<and>
        (mode \<in> {Shadow, Advisory} \<and> c \<in> set CONFIGURABLE_CLASSES \<and> c \<in> set MUTATION_CLASSES \<longrightarrow> d \<noteq> DecAuto)))"
proof -
  have tiers: "cd_tier (approvalClassDefinition c) = TierConfigurable \<longleftrightarrow> c \<in> set CONFIGURABLE_CLASSES" for c
    unfolding table_by_tier(4) [symmetric] using class_in_table [of c] row_of by force
  have one: "mode_violations (approvalClassDefinition c) row mode = [] \<longleftrightarrow> (\<exists>d. row mode = Some d \<and>
        (c \<in> set HIGH_RISK_CLASSES \<longrightarrow> d = DecStop) \<and> (c \<in> set NO_AUTO_CLASSES \<longrightarrow> d \<noteq> DecAuto) \<and>
        (mode \<in> {Shadow, Advisory} \<and> c \<in> set CONFIGURABLE_CLASSES \<and> c \<in> set MUTATION_CLASSES \<longrightarrow> d \<noteq> DecAuto))" for c row mode
    using class_in_table [of c]
    by (auto simp: mode_violations_def tier_high tier_no_auto tiers NON_MUTATING_MODES_def split: option.splits if_splits)
  have modes: "mode \<in> set WORKFLOW_MODES" for mode
    by (cases mode) (simp_all add: WORKFLOW_MODES_def)
  have "validateApprovalClasses classes = [] \<longleftrightarrow>
      (\<forall>c row mode. classes c = Some row \<longrightarrow> mode_violations (approvalClassDefinition c) row mode = [])"
  proof -
    have rows: "(\<forall>d \<in> set APPROVAL_CLASS_TABLE. P d) \<longleftrightarrow> (\<forall>c. P (approvalClassDefinition c))" for P
      using class_in_table row_of by metis
    show ?thesis
      unfolding validateApprovalClasses_def concat_eq_Nil_conv
      using modes class_in_table by (auto simp: rows split: option.splits)
  qed
  then show ?thesis by (simp only: one)
qed

lemma accepted_classes_witness:
  "validateApprovalClasses (\<lambda>c. if c = ClsPublishing then Some (\<lambda>_. Some DecQueue) else None) \<noteq> []"
proof -
  have "ClsPublishing \<in> set HIGH_RISK_CLASSES" by code_simp
  then show ?thesis unfolding accepted_classes_iff by auto
qed

end
