(* ===== verification/JsDate.thy ===== *)
theory JsDate
  imports JsText
begin

text \<open>
  The part of JavaScript's \<open>Date\<close> the program uses on its timestamps: \<open>Date.parse\<close> of the text that
  \<open>toISOString\<close> writes, and \<open>toISOString\<close> of a number of milliseconds. A text in another format is
  out of the model (\<open>None\<close>, like \<open>NaN\<close>); so is a time beyond the range of \<open>Date\<close>, where
  \<open>toISOString\<close> throws.
\<close>

section \<open>The calendar\<close>

text \<open>Days from 1 January 1970 in the proleptic Gregorian calendar; the year of a computation starts in March.\<close>

definition days_from_civil :: "int \<Rightarrow> int \<Rightarrow> int \<Rightarrow> int" where
  "days_from_civil y m d =
     (let y' = (if m \<le> 2 then y - 1 else y); era = y' div 400; yoe = y' mod 400;
          doy = (153 * (if m > 2 then m - 3 else m + 9) + 2) div 5 + d - 1;
          doe = yoe * 365 + yoe div 4 - yoe div 100 + doy
      in era * 146097 + doe - 719468)"

definition civil_from_days :: "int \<Rightarrow> int \<times> int \<times> int" where
  "civil_from_days z =
     (let z' = z + 719468; era = z' div 146097; doe = z' mod 146097;
          yoe = (doe - doe div 1460 + doe div 36524 - doe div 146096) div 365;
          doy = doe - (365 * yoe + yoe div 4 - yoe div 100);
          mp = (5 * doy + 2) div 153;
          d = doy - (153 * mp + 2) div 5 + 1;
          m = (if mp < 10 then mp + 3 else mp - 9)
      in (yoe + era * 400 + (if m \<le> 2 then 1 else 0), m, d))"

section \<open>The text\<close>

text \<open>\<open>padStart(n, "0")\<close> of a number.\<close>

definition pad :: "nat \<Rightarrow> nat \<Rightarrow> string" where
  "pad n x = (let t = digits x in replicate (n - length t) CHR ''0'' @ t)"

definition MAX_TIME :: int where "MAX_TIME = 8640000000000000"

definition toISOString :: "int \<Rightarrow> string option" where
  "toISOString ms =
     (if \<bar>ms\<bar> > MAX_TIME then None
      else let days = ms div 86400000; rest = ms mod 86400000; (y, m, d) = civil_from_days days;
             year = (if 0 \<le> y \<and> y \<le> 9999 then pad 4 (nat y)
                     else (if y < 0 then ''-'' else ''+'') @ pad 6 (nat \<bar>y\<bar>))
       in Some (year @ ''-'' @ pad 2 (nat m) @ ''-'' @ pad 2 (nat d) @ ''T'' @ pad 2 (nat (rest div 3600000)) @ '':'' @
            pad 2 (nat (rest div 60000 mod 60)) @ '':'' @ pad 2 (nat (rest div 1000 mod 60)) @ ''.'' @
            pad 3 (nat (rest mod 1000)) @ ''Z''))"

definition is_digit :: "char \<Rightarrow> bool" where
  "is_digit c \<longleftrightarrow> 48 \<le> (of_char c :: nat) \<and> (of_char c :: nat) \<le> 57"

definition num :: "nat \<Rightarrow> nat \<Rightarrow> string \<Rightarrow> int" where
  "num i n s = int (value_of_digits (take n (drop i s)))"

text \<open>\<open>yyyy-mm-ddThh:mm:ss.mmmZ\<close>, each number in its range.\<close>

definition parseIso :: "string \<Rightarrow> int option" where
  "parseIso s =
     (if length s = 24 \<and> s ! 4 = CHR ''-'' \<and> s ! 7 = CHR ''-'' \<and> s ! 10 = CHR ''T'' \<and> s ! 13 = CHR '':'' \<and>
         s ! 16 = CHR '':'' \<and> s ! 19 = CHR ''.'' \<and> s ! 23 = CHR ''Z'' \<and>
         list_all (\<lambda>i. is_digit (s ! i)) [0, 1, 2, 3, 5, 6, 8, 9, 11, 12, 14, 15, 17, 18, 20, 21, 22] \<and>
         1 \<le> num 5 2 s \<and> num 5 2 s \<le> 12 \<and> 1 \<le> num 8 2 s \<and> num 8 2 s \<le> 31 \<and>
         num 11 2 s \<le> 23 \<and> num 14 2 s \<le> 59 \<and> num 17 2 s \<le> 59
      then Some (days_from_civil (num 0 4 s) (num 5 2 s) (num 8 2 s) * 86400000 + num 11 2 s * 3600000 +
        num 14 2 s * 60000 + num 17 2 s * 1000 + num 20 3 s)
      else None)"

text \<open>\<open>new Date(Date.parse(t) + ms).toISOString()\<close>.\<close>

definition iso_plus :: "string \<Rightarrow> int \<Rightarrow> string option" where
  "iso_plus t ms = (case parseIso t of None \<Rightarrow> None | Some x \<Rightarrow> toISOString (x + ms))"

text \<open>Across a leap day and across the end of a year.\<close>

lemma iso_plus_leap_day:
  "iso_plus ''2024-02-28T23:59:59.500Z'' 600 = Some ''2024-02-29T00:00:00.100Z''"
  "iso_plus ''2023-12-31T23:59:59.999Z'' 1 = Some ''2024-01-01T00:00:00.000Z''"
  by code_simp+

end
