(* ===== verification/Approvals.thy ===== *)
theory Approvals
  imports ApprovalClasses Fixtures JsDate
begin

text \<open>
  Human approvals: the queue of questions (\<open>src/storage/approval-requests.ts\<close>) and the life of an
  approval (\<open>src/workflow/approvals.ts\<close>): request, grant, deny, sweep, consume, revoke, and the
  readers. Message texts are not modelled.
\<close>

section \<open>The request store\<close>

definition request_rows :: "(approval_request \<Rightarrow> bool) \<Rightarrow> db \<Rightarrow> approval_request list" where
  "request_rows P d = sort_key aq_createdAt (filter P (db_requests d))"

definition request_find :: "string \<Rightarrow> db \<Rightarrow> approval_request option" where
  "request_find rid d = tbl_get aq_requestId rid (db_requests d)"

definition requests_forWorkflow :: "string \<Rightarrow> db \<Rightarrow> approval_request list" where
  "requests_forWorkflow wid = request_rows (\<lambda>q. aq_workflowId q = wid)"

definition pendingForWorkflow :: "string \<Rightarrow> db \<Rightarrow> approval_request list" where
  "pendingForWorkflow wid = request_rows (\<lambda>q. aq_workflowId q = wid \<and> aq_status q = RqPending)"

definition pendingForTask :: "string \<Rightarrow> db \<Rightarrow> approval_request list" where
  "pendingForTask tid = request_rows (\<lambda>q. aq_scope q = ScTask tid \<and> aq_status q = RqPending)"

definition asks_the_same :: "string \<Rightarrow> string \<Rightarrow> approval_request \<Rightarrow> bool" where
  "asks_the_same wid key q \<longleftrightarrow> aq_workflowId q = wid \<and> aq_requestKey q = key \<and> aq_status q = RqPending"

definition findPendingByKey :: "string \<Rightarrow> string \<Rightarrow> db \<Rightarrow> approval_request option" where
  "findPendingByKey wid key d = (case request_rows (asks_the_same wid key) d of [] \<Rightarrow> None | q # _ \<Rightarrow> Some q)"

text \<open>\<open>insert\<close>: the primary key, the foreign keys and the unique index over the pending rows.\<close>

definition request_insert :: "approval_request \<Rightarrow> approval_request io" where
  "request_insert q =
     andThen (getDb (\<lambda>d.
       if workflow_exists (aq_workflowId q) d \<and> scope_exists (aq_scope q) d \<and>
          \<not> (aq_status q = RqPending \<and> list_ex (asks_the_same (aq_workflowId q) (aq_requestKey q)) (db_requests d))
       then tbl_add aq_requestId q (db_requests d) else None)) (\<lambda>added.
     case added of None \<Rightarrow> throw ConstraintFailed
     | Some rows \<Rightarrow> andThen (modifyDb (\<lambda>d. d\<lparr>db_requests := rows\<rparr>)) (\<lambda>_. ret q))"

datatype request_resolution = ResGranted string | ResDenied | ResInvalidated string

definition resolved_request ::
  "iso_timestamp \<Rightarrow> request_resolution \<Rightarrow> string \<Rightarrow> string option \<Rightarrow> approval_request \<Rightarrow> approval_request" where
  "resolved_request ts res who detail q =
     q\<lparr>aq_status := (case res of ResGranted _ \<Rightarrow> RqGranted | ResDenied \<Rightarrow> RqDenied | ResInvalidated _ \<Rightarrow> RqInvalidated),
       aq_resolvedAt := Some ts, aq_resolvedBy := Some who,
       aq_approvalId := (case res of ResGranted i \<Rightarrow> Some i | _ \<Rightarrow> None),
       aq_invalidationReason := (case res of ResInvalidated why \<Rightarrow> Some why | _ \<Rightarrow> None), aq_detail := detail\<rparr>"

definition request_resolve ::
  "string \<Rightarrow> iso_timestamp \<Rightarrow> request_resolution \<Rightarrow> string \<Rightarrow> string option \<Rightarrow> bool io" where
  "request_resolve rid ts res who detail =
     andThen (getDb (request_find rid)) (\<lambda>found.
       case found of None \<Rightarrow> ret False
       | Some q \<Rightarrow>
           if aq_status q \<noteq> RqPending then ret False
           else andThen (getDb (\<lambda>d. case res of ResGranted i \<Rightarrow> tbl_get ap_id i (db_approvals d) \<noteq> None | _ \<Rightarrow> True)) (\<lambda>ok.
             if \<not> ok then throw ConstraintFailed
             else andThen (modifyDb (\<lambda>d. d\<lparr>db_requests :=
                 tbl_put aq_requestId (resolved_request ts res who detail q) (db_requests d)\<rparr>)) (\<lambda>_. ret True)))"

primrec mode_text :: "workflow_mode \<Rightarrow> string" where
  "mode_text Shadow = ''shadow''"
| "mode_text Advisory = ''advisory''"
| "mode_text Supervised = ''supervised''"
| "mode_text BoundedAutonomous = ''bounded_autonomous''"

definition scope_parts :: "approval_scope \<Rightarrow> string list" where
  "scope_parts sc = (case sc of ScTask i \<Rightarrow> [''task'', i] | ScPhase i \<Rightarrow> [''phase'', i]
     | ScPlan \<Rightarrow> [''plan'', ''plan''] | ScWorkflow \<Rightarrow> [''workflow'', ''workflow''])"

definition requestKeyFor ::
  "approval_class \<Rightarrow> approval_scope \<Rightarrow> string \<Rightarrow> revision option \<Rightarrow> revision \<Rightarrow> string \<Rightarrow> workflow_mode \<Rightarrow> string" where
  "requestKeyFor c sc action taskRev planRev policy mode = join_str ''|''
     ([class_id c] @ scope_parts sc @ [action, (case taskRev of None \<Rightarrow> ''-'' | Some r \<Rightarrow> digits r), digits planRev,
        policy, mode_text mode])"

section \<open>Asking\<close>

definition tierOf :: "approval_class \<Rightarrow> class_tier" where
  "tierOf c = cd_tier (approvalClassDefinition c)"

definition isHighRiskClass :: "approval_class \<Rightarrow> bool" where
  "isHighRiskClass c \<longleftrightarrow> tierOf c = TierHighRisk"

definition requiresHumanApproval ::
  "approval_class \<Rightarrow> workflow_mode \<Rightarrow> (approval_class \<Rightarrow> policy_per_mode) \<Rightarrow> jev_escalation option \<Rightarrow> bool" where
  "requiresHumanApproval c mode table jev \<longleftrightarrow>
     isHighRiskClass c \<or> di_decision (resolveDisposition c mode table jev) \<noteq> DecAuto"

record request_options =
  qo_workflowId :: string
  qo_classId :: approval_class
  qo_scope :: approval_scope
  qo_permittedAction :: string
  qo_summary :: string
  qo_taskRevision :: "revision option"
  qo_now :: iso_timestamp
  qo_ttlMs :: "int option"
  qo_jev :: "jev_escalation option"
  qo_table :: "approval_class \<Rightarrow> policy_per_mode"

datatype request_outcome = OutAuto | OutQueued | OutStop | OutAlreadyPending

record request_result =
  qr_outcome :: request_outcome
  qr_disposition :: class_disposition
  qr_request :: "approval_request option"

definition expires_at :: "iso_timestamp \<Rightarrow> int option \<Rightarrow> iso_timestamp option io" where
  "expires_at now ttl = (case ttl of None \<Rightarrow> ret None
     | Some ms \<Rightarrow> (case iso_plus now ms of None \<Rightarrow> throw InvalidTime | Some t \<Rightarrow> ret (Some t)))"

definition request_of ::
  "request_options \<Rightarrow> workflow \<Rightarrow> class_disposition \<Rightarrow> string \<Rightarrow> string \<Rightarrow> iso_timestamp option \<Rightarrow> approval_request" where
  "request_of opts wkf disposition key rid expiry =
     \<lparr>aq_requestId = rid, aq_createdAt = qo_now opts, aq_workflowId = qo_workflowId opts, aq_classId = class_id (qo_classId opts),
      aq_tier = cd_tier (approvalClassDefinition (qo_classId opts)),
      aq_decision = (if di_decision disposition = DecStop then AskStop else AskQueue), aq_mode = wf_mode wkf,
      aq_policyVersion = wf_policyVersion wkf, aq_scope = qo_scope opts, aq_taskRevision = qo_taskRevision opts,
      aq_planRevision = wf_planRevision wkf, aq_permittedAction = qo_permittedAction opts,
      aq_riskClass = cd_risk (approvalClassDefinition (qo_classId opts)), aq_requestKey = key, aq_summary = qo_summary opts,
      aq_expiresAt = expiry, aq_status = RqPending, aq_resolvedAt = None, aq_resolvedBy = None, aq_approvalId = None,
      aq_invalidationReason = None, aq_detail = None\<rparr>"

text \<open>The transaction: the pending row of the same question, or a new one.\<close>

definition queueQuestion :: "request_options \<Rightarrow> workflow \<Rightarrow> class_disposition \<Rightarrow> string \<Rightarrow> request_result io" where
  "queueQuestion opts wkf disposition key =
     andThen (getDb (findPendingByKey (qo_workflowId opts) key)) (\<lambda>existing.
       case existing of
         Some q \<Rightarrow> ret \<lparr>qr_outcome = OutAlreadyPending, qr_disposition = disposition, qr_request = Some q\<rparr>
       | None \<Rightarrow>
           andThen newId (\<lambda>rid.
           andThen (expires_at (qo_now opts) (qo_ttlMs opts)) (\<lambda>expiry.
           andThen (request_insert (request_of opts wkf disposition key rid expiry)) (\<lambda>q.
           ret \<lparr>qr_outcome = (if di_decision disposition = DecStop then OutStop else OutQueued),
               qr_disposition = disposition, qr_request = Some q\<rparr>))))"

definition key_of :: "request_options \<Rightarrow> workflow \<Rightarrow> string" where
  "key_of opts wkf = requestKeyFor (qo_classId opts) (qo_scope opts) (qo_permittedAction opts) (qo_taskRevision opts)
     (wf_planRevision wkf) (wf_policyVersion wkf) (wf_mode wkf)"

definition requestApproval :: "request_options \<Rightarrow> request_result io" where
  "requestApproval opts =
     andThen (repo_require workflowRepo (qo_workflowId opts)) (\<lambda>wkf.
       let disposition = resolveDisposition (qo_classId opts) (wf_mode wkf) (qo_table opts) (qo_jev opts) in
       if di_decision disposition = DecAuto
       then ret \<lparr>qr_outcome = OutAuto, qr_disposition = disposition, qr_request = None\<rparr>
       else store_write (queueQuestion opts wkf disposition (key_of opts wkf)))"

section \<open>Answering\<close>

datatype grant_refusal =
    RequestNotFound | RequestNotPending | RequestExpired | ActorNotUser | TaskRevisionMoved | PlanRevisionMoved
  | ModeMoved | PolicyVersionMoved | ScopeTaskMissing

primrec grant_refusal_text :: "grant_refusal \<Rightarrow> string" where
  "grant_refusal_text RequestNotFound = ''request_not_found''"
| "grant_refusal_text RequestNotPending = ''request_not_pending''"
| "grant_refusal_text RequestExpired = ''request_expired''"
| "grant_refusal_text ActorNotUser = ''actor_not_user''"
| "grant_refusal_text TaskRevisionMoved = ''task_revision_changed''"
| "grant_refusal_text PlanRevisionMoved = ''plan_revision_changed''"
| "grant_refusal_text ModeMoved = ''mode_changed''"
| "grant_refusal_text PolicyVersionMoved = ''policy_version_changed''"
| "grant_refusal_text ScopeTaskMissing = ''scope_task_missing''"

definition requestStaleness :: "approval_request \<Rightarrow> iso_timestamp \<Rightarrow> db \<Rightarrow> grant_refusal option" where
  "requestStaleness q now d =
     (if (case aq_expiresAt q of None \<Rightarrow> False | Some t \<Rightarrow> t \<le> now) then Some RequestExpired
      else case tbl_get wf_id (aq_workflowId q) (db_workflows d) of
          None \<Rightarrow> Some PlanRevisionMoved
        | Some wkf \<Rightarrow>
            if wf_planRevision wkf \<noteq> aq_planRevision q then Some PlanRevisionMoved
            else if wf_mode wkf \<noteq> aq_mode q then Some ModeMoved
            else if wf_policyVersion wkf \<noteq> aq_policyVersion q then Some PolicyVersionMoved
            else (case aq_scope q of
                ScTask i \<Rightarrow> (case tbl_get t_id i (db_tasks d) of
                    None \<Rightarrow> Some ScopeTaskMissing
                  | Some t \<Rightarrow> if Some (t_revision t) \<noteq> aq_taskRevision q then Some TaskRevisionMoved else None)
              | _ \<Rightarrow> None))"

definition approval_actor_text :: "approval_actor \<Rightarrow> string" where
  "approval_actor_text a = (case a of ApUser i \<Rightarrow> ''user:'' @ i | ApPolicy i \<Rightarrow> ''policy:'' @ i)"

definition is_user :: "approval_actor \<Rightarrow> bool" where
  "is_user a = (case a of ApUser _ \<Rightarrow> True | ApPolicy _ \<Rightarrow> False)"

record grant_options =
  go_requestId :: string
  go_actor :: approval_actor
  go_now :: iso_timestamp
  go_ttlMs :: "int option"
  go_detail :: "string option"

datatype grant_result = Granted approval approval_request | Refused grant_refusal

definition approval_of :: "grant_options \<Rightarrow> approval_request \<Rightarrow> string \<Rightarrow> iso_timestamp option \<Rightarrow> approval" where
  "approval_of g q i expiry =
     \<lparr>ap_id = i, ap_createdAt = go_now g, ap_updatedAt = go_now g, ap_workflowId = aq_workflowId q, ap_actor = go_actor g,
      ap_scope = aq_scope q, ap_taskRevision = aq_taskRevision q, ap_planRevision = aq_planRevision q,
      ap_permittedAction = aq_permittedAction q, ap_riskClass = aq_riskClass q, ap_expiresAt = expiry, ap_invalidation = None\<rparr>"

definition grantApproval :: "grant_options \<Rightarrow> grant_result io" where
  "grantApproval g = store_write (
     andThen (getDb (request_find (go_requestId g))) (\<lambda>found.
       case found of None \<Rightarrow> ret (Refused RequestNotFound)
       | Some q \<Rightarrow>
           if aq_status q \<noteq> RqPending then ret (Refused RequestNotPending)
           else andThen (getDb (requestStaleness q (go_now g))) (\<lambda>staleness.
             case staleness of
               Some why \<Rightarrow>
                 andThen (request_resolve (aq_requestId q) (go_now g) (ResInvalidated (grant_refusal_text why))
                     (approval_actor_text (go_actor g)) (Some (''refused at grant time: '' @ grant_refusal_text why)))
                   (\<lambda>_. ret (Refused why))
             | None \<Rightarrow>
                 if aq_tier q = TierHighRisk \<and> \<not> is_user (go_actor g) then ret (Refused ActorNotUser)
                 else andThen newId (\<lambda>i. andThen (expires_at (go_now g) (go_ttlMs g)) (\<lambda>expiry.
                   andThen (approvals_insert (approval_of g q i expiry)) (\<lambda>ap.
                   andThen (request_resolve (aq_requestId q) (go_now g) (ResGranted (ap_id ap))
                       (approval_actor_text (go_actor g)) (go_detail g)) (\<lambda>_.
                   andThen (getDb (request_find (aq_requestId q))) (\<lambda>resolved.
                   ret (Granted ap (case resolved of None \<Rightarrow> q | Some q' \<Rightarrow> q'))))))))))"

definition denyApproval :: "string \<Rightarrow> approval_actor \<Rightarrow> iso_timestamp \<Rightarrow> string option \<Rightarrow> approval_request option io" where
  "denyApproval rid actor now detail = store_write (
     andThen (request_resolve rid now ResDenied (approval_actor_text actor) detail) (\<lambda>ok.
       if ok then getDb (request_find rid) else ret None))"

fun sweep_requests :: "approval_request list \<Rightarrow> iso_timestamp \<Rightarrow> string \<Rightarrow> approval_request list io" where
  "sweep_requests [] now who = ret []"
| "sweep_requests (q # qs) now who =
     andThen (getDb (requestStaleness q now)) (\<lambda>reason.
       case reason of None \<Rightarrow> sweep_requests qs now who
       | Some why \<Rightarrow>
           andThen (request_resolve (aq_requestId q) now (ResInvalidated (grant_refusal_text why)) who
               (Some (''swept: '' @ grant_refusal_text why))) (\<lambda>_.
           andThen (getDb (request_find (aq_requestId q))) (\<lambda>resolved.
           andThen (sweep_requests qs now who) (\<lambda>out.
           ret (case resolved of None \<Rightarrow> out | Some r \<Rightarrow> r # out)))))"

definition invalidatePendingRequests ::
  "string \<Rightarrow> iso_timestamp \<Rightarrow> approval_actor option \<Rightarrow> approval_request list io" where
  "invalidatePendingRequests wid now actor = store_write (
     andThen (getDb (pendingForWorkflow wid)) (\<lambda>pending.
       sweep_requests pending now (case actor of None \<Rightarrow> ''engine:korwf'' | Some a \<Rightarrow> approval_actor_text a)))"

definition or_text :: "string option \<Rightarrow> string \<Rightarrow> string" where
  "or_text t d = (case t of None \<Rightarrow> d | Some x \<Rightarrow> x)"

definition consumeApproval :: "string \<Rightarrow> iso_timestamp \<Rightarrow> string option \<Rightarrow> approval io" where
  "consumeApproval i now detail = store_write (approvals_invalidate i
     \<lparr>iv_reason = IrConsumed, iv_at = now, iv_detail = Some (or_text detail ''the approved action completed and was recorded'')\<rparr>)"

definition revokeApproval :: "string \<Rightarrow> iso_timestamp \<Rightarrow> string option \<Rightarrow> approval io" where
  "revokeApproval i now detail = store_write (approvals_invalidate i
     \<lparr>iv_reason = IrRevoked, iv_at = now, iv_detail = Some (or_text detail ''withdrawn by the user'')\<rparr>)"

section \<open>Reading\<close>

record queue_row =
  qq_request :: approval_request
  qq_highRisk :: bool
  qq_stopsPhase :: bool
  qq_staleReason :: "grant_refusal option"

definition approvalQueue :: "string \<Rightarrow> iso_timestamp \<Rightarrow> db \<Rightarrow> queue_row list" where
  "approvalQueue wid now d = map (\<lambda>q. \<lparr>qq_request = q, qq_highRisk = (aq_tier q = TierHighRisk),
     qq_stopsPhase = (aq_decision q = AskStop), qq_staleReason = requestStaleness q now d\<rparr>) (pendingForWorkflow wid d)"

record valid_options =
  vo_workflowId :: string
  vo_permittedAction :: string
  vo_taskId :: "string option"
  vo_now :: iso_timestamp
  vo_requireUserActor :: bool

definition covers_act :: "valid_options \<Rightarrow> task option \<Rightarrow> workflow \<Rightarrow> approval \<Rightarrow> bool" where
  "covers_act v task wkf ap \<longleftrightarrow> ap_permittedAction ap = vo_permittedAction v \<and>
     (case vo_taskId v of None \<Rightarrow> True | Some i \<Rightarrow> ap_scope ap = ScTask i) \<and>
     (vo_requireUserActor v \<longrightarrow> is_user (ap_actor ap)) \<and>
     approvalInvalidReason ap (map_option (\<lambda>t. (t_id t, t_revision t)) task) (wf_planRevision wkf) (vo_now v) = None"

definition validApprovalsFor :: "valid_options \<Rightarrow> approval list io" where
  "validApprovalsFor v =
     andThen (repo_require workflowRepo (vo_workflowId v)) (\<lambda>wkf.
     andThen (getDb (\<lambda>d. case vo_taskId v of None \<Rightarrow> None | Some i \<Rightarrow> tbl_get t_id i (db_tasks d))) (\<lambda>task.
     andThen (getDb (repo_query approvalRepo (\<lambda>ap. ap_workflowId ap = vo_workflowId v))) (\<lambda>all.
     ret (filter (covers_act v task wkf) all))))"

definition isActionApproved :: "valid_options \<Rightarrow> bool io" where
  "isActionApproved v = andThen (validApprovalsFor (v\<lparr>vo_requireUserActor := True\<rparr>)) (\<lambda>aps. ret (aps \<noteq> []))"

section \<open>Condition 3 and the two standing questions\<close>

definition first_class :: "approval_class list \<Rightarrow> approval_class option" where
  "first_class cs = (case cs of [] \<Rightarrow> None | c # _ \<Rightarrow> Some c)"

definition evaluatePolicyReview ::
  "approval_class list \<Rightarrow> risk_class \<Rightarrow> string \<Rightarrow> string \<Rightarrow> revision \<Rightarrow> approval_class list \<Rightarrow> policy_review_result" where
  "evaluatePolicyReview classes taskRisk policy sha taskRev reviewClasses =
     (let highRisk = filter isHighRiskClass classes; noAuto = filter (\<lambda>c. tierOf c = TierNoAuto) classes in
      \<lparr>po_modelReview = list_ex (\<lambda>c. c \<in> set reviewClasses) classes,
       po_humanApproval = (highRisk \<noteq> [] \<or> taskRisk = RiskHigh),
       po_changeClass = (case first_class (highRisk @ noAuto @ classes) of None \<Rightarrow> ''none'' | Some c \<Rightarrow> class_id c),
       po_policyVersion = policy, po_revision = sha, po_taskRevision = taskRev\<rparr>)"

definition COMPLETE_TASK_ACTION :: string where "COMPLETE_TASK_ACTION = ''complete_task''"

record completion_options =
  co_workflowId :: string
  co_taskId :: string
  co_classId :: "approval_class option"
  co_summary :: string
  co_now :: iso_timestamp
  co_ttlMs :: "int option"
  co_table :: "(approval_class \<Rightarrow> policy_per_mode) option"

definition or_complete :: "approval_class option \<Rightarrow> approval_class" where
  "or_complete c = (case c of None \<Rightarrow> ClsCompleteTask | Some x \<Rightarrow> x)"

definition or_shipped :: "(approval_class \<Rightarrow> policy_per_mode) option \<Rightarrow> approval_class \<Rightarrow> policy_per_mode" where
  "or_shipped table = (case table of None \<Rightarrow> DEFAULT_APPROVAL_CLASSES | Some t \<Rightarrow> t)"

definition requestTaskCompletionApproval :: "completion_options \<Rightarrow> request_result io" where
  "requestTaskCompletionApproval c =
     andThen (repo_require taskRepo (co_taskId c)) (\<lambda>task.
       requestApproval \<lparr>qo_workflowId = co_workflowId c, qo_classId = or_complete (co_classId c), qo_scope = ScTask (co_taskId c),
         qo_permittedAction = COMPLETE_TASK_ACTION, qo_summary = co_summary c, qo_taskRevision = Some (t_revision task),
         qo_now = co_now c, qo_ttlMs = co_ttlMs c, qo_jev = None, qo_table = or_shipped (co_table c)\<rparr>)"

record human_check =
  hc_workflowId :: string
  hc_taskId :: string
  hc_taskRevision :: revision
  hc_permittedAction :: string
  hc_instruction :: string

definition requestHumanCheckApproval ::
  "human_check \<Rightarrow> approval_class option \<Rightarrow> iso_timestamp \<Rightarrow> int option \<Rightarrow> (approval_class \<Rightarrow> policy_per_mode) option \<Rightarrow> request_result io" where
  "requestHumanCheckApproval p c now ttl table =
     requestApproval \<lparr>qo_workflowId = hc_workflowId p, qo_classId = or_complete c, qo_scope = ScTask (hc_taskId p),
       qo_permittedAction = hc_permittedAction p, qo_summary = hc_instruction p, qo_taskRevision = Some (hc_taskRevision p),
       qo_now = now, qo_ttlMs = ttl, qo_jev = None, qo_table = or_shipped table\<rparr>"

section \<open>The operations, inverted\<close>

lemma request_find_id: "request_find rid d = Some q \<Longrightarrow> aq_requestId q = rid"
  unfolding request_find_def by (rule tbl_get_key)

lemma expires_at_Inr: "expires_at now ttl w = (Inr e, w') \<Longrightarrow> w' = w"
  by (auto simp: expires_at_def split: option.splits)

lemma resolved_request_sel [simp]:
  "aq_requestId (resolved_request ts res who detail q) = aq_requestId q"
  "aq_status (resolved_request ts res who detail q) \<noteq> RqPending"
  "aq_tier (resolved_request ts res who detail q) = aq_tier q" "aq_riskClass (resolved_request ts res who detail q) = aq_riskClass q"
  by (auto simp: resolved_request_def split: request_resolution.split)

lemma request_resolve_Inr:
  assumes "request_resolve rid ts res who detail w = (Inr ok, w')"
  shows "(\<not> ok \<and> w' = w \<and> (\<forall>q. request_find rid (w_db w) = Some q \<longrightarrow> aq_status q \<noteq> RqPending)) \<or>
    (ok \<and> (\<exists>q. request_find rid (w_db w) = Some q \<and> aq_status q = RqPending \<and>
       w' = w\<lparr>w_db := (w_db w)\<lparr>db_requests := tbl_put aq_requestId (resolved_request ts res who detail q) (db_requests (w_db w))\<rparr>\<rparr>))"
  using assms by (auto simp: request_resolve_def andThen_eq_Inr split: option.splits if_splits)

lemma history_put_request:
  assumes "request_find k d = Some q" and "aq_status q = RqPending"
  shows "history_extends d (d\<lparr>db_requests := tbl_put aq_requestId (resolved_request ts res who detail q) (db_requests d)\<rparr>)"
proof -
  have "request_step q (resolved_request ts res who detail q)"
    using assms(2) resolved_request_sel(2) [of ts res who detail q]
    unfolding request_step_def resolved_request_def by (intro disjI2 conjI exI) (auto split: request_resolution.splits)
  then have "rows_move aq_requestId request_step (db_requests d)
      (tbl_put aq_requestId (resolved_request ts res who detail q) (db_requests d))"
    using assms(1) request_find_id [OF assms(1)]
    by (intro rows_move_put [where r = q]) (simp_all add: request_find_def)
  then show ?thesis
    by (simp add: history_extends_def rows_move_refl)
qed

lemma history_request_resolve: "evolves history_extends (request_resolve rid ts res who detail)"
proof (rule evolvesI)
  fix w r w' assume run: "request_resolve rid ts res who detail w = (r, w')"
  show "history_extends (w_db w) (w_db w')"
  proof (cases r)
    case (Inr ok)
    with run have "request_resolve rid ts res who detail w = (Inr ok, w')" by simp
    from request_resolve_Inr [OF this] show ?thesis
      by (auto simp: history_refl intro: history_put_request)
  next
    case (Inl e)
    then show ?thesis
      using run by (auto simp: request_resolve_def andThen_def history_refl split: option.splits if_splits)
  qed
qed

lemma history_request_insert: "evolves history_extends (request_insert q)"
  unfolding request_insert_def
  by (intro history.ev_read)
    (auto simp: tbl_add_def andThen_def history_refl history_extends_def rows_move_refl rows_move_append split: option.splits)

lemma history_expires_at: "evolves history_extends (expires_at now ttl)"
  unfolding expires_at_def by (intro history.ev_rules)

text \<open>Every operation only adds to the history.\<close>

lemma history_requestApproval: "evolves history_extends (requestApproval opts)"
  unfolding requestApproval_def queueQuestion_def Let_def
  by (intro history.ev_rules history_repo_require history_request_insert history_expires_at)

lemma history_grantApproval: "evolves history_extends (grantApproval g)"
  unfolding grantApproval_def
  by (intro history.ev_rules history_request_resolve history_expires_at history_approvals_insert)

lemma history_denyApproval: "evolves history_extends (denyApproval rid actor now detail)"
  unfolding denyApproval_def by (intro history.ev_rules history_request_resolve)

text \<open>The sweep respects every relation its resolutions respect.\<close>

context db_relation begin

lemma ev_sweep:
  assumes "\<And>rid res detail. evolves R (request_resolve rid now res who detail)"
  shows "evolves R (sweep_requests qs now who)"
proof (induction qs)
  case Nil
  show ?case unfolding sweep_requests.simps by (rule ev_ret)
next
  case (Cons q qs)
  let ?B = "\<lambda>why. andThen (request_resolve (aq_requestId q) now (ResInvalidated (grant_refusal_text why)) who
               (Some (''swept: '' @ grant_refusal_text why))) (\<lambda>_.
           andThen (getDb (request_find (aq_requestId q))) (\<lambda>resolved.
           andThen (sweep_requests qs now who) (\<lambda>out.
           ret (case resolved of None \<Rightarrow> out | Some r \<Rightarrow> r # out))))"
  have "evolves R (?B why)" for why
    by (intro ev_rules assms Cons)
  then have "evolves R (case reason of None \<Rightarrow> sweep_requests qs now who | Some why \<Rightarrow> ?B why)" for reason
    using Cons by (cases reason) (simp_all only: option.case)
  then show ?case
    unfolding sweep_requests.simps by (intro ev_andThen ev_gets)
qed

lemma ev_invalidatePendingRequests:
  assumes "\<And>rid res who detail. evolves R (request_resolve rid now res who detail)"
  shows "evolves R (invalidatePendingRequests wid now actor)"
  unfolding invalidatePendingRequests_def by (intro ev_rules ev_sweep assms)

end

lemma history_invalidatePendingRequests: "evolves history_extends (invalidatePendingRequests wid now actor)"
  by (rule history.ev_invalidatePendingRequests [OF history_request_resolve])

lemma history_consumeApproval: "evolves history_extends (consumeApproval i now detail)"
  unfolding consumeApproval_def by (intro history.ev_rules history_approvals_invalidate)

lemma history_revokeApproval: "evolves history_extends (revokeApproval i now detail)"
  unfolding revokeApproval_def by (intro history.ev_rules history_approvals_invalidate)

section \<open>What a grant is\<close>

text \<open>The question a grant answers: pending, still about the current world, and put to a user when it is high risk.\<close>

definition answerable :: "grant_options \<Rightarrow> approval_request \<Rightarrow> db \<Rightarrow> bool" where
  "answerable g q d \<longleftrightarrow> request_find (go_requestId g) d = Some q \<and> aq_status q = RqPending \<and>
     requestStaleness q (go_now g) d = None \<and> (aq_tier q = TierHighRisk \<longrightarrow> is_user (go_actor g))"

definition resolved_by_grant :: "grant_options \<Rightarrow> approval \<Rightarrow> approval_request \<Rightarrow> approval_request" where
  "resolved_by_grant g ap = resolved_request (go_now g) (ResGranted (ap_id ap)) (approval_actor_text (go_actor g)) (go_detail g)"

text \<open>The terms of the approval are the question's; the caller's are its own identity and the lifetime.\<close>

definition same_terms :: "approval \<Rightarrow> approval_request \<Rightarrow> bool" where
  "same_terms ap q \<longleftrightarrow> ap_workflowId ap = aq_workflowId q \<and> ap_scope ap = aq_scope q \<and>
     ap_taskRevision ap = aq_taskRevision q \<and> ap_planRevision ap = aq_planRevision q \<and>
     ap_permittedAction ap = aq_permittedAction q \<and> ap_riskClass ap = aq_riskClass q"

lemma approval_of_terms: "same_terms (approval_normalise ts (approval_of g q i expiry)) q"
  by (simp add: same_terms_def approval_normalise_def approval_of_def)

lemma store_write_Inr_db:
  assumes "store_write m w = (Inr x, w')"
  shows "\<exists>w1 d. m (w\<lparr>w_depth := Suc (w_depth w)\<rparr>) = (Inr x, w1) \<and> w' = w1\<lparr>w_depth := d\<rparr>"
  using assms by (elim store_write_InrE) blast

lemma grantApproval_Inr:
  assumes "grantApproval g w = (Inr res, w')"
  shows "case res of
      Granted ap q' \<Rightarrow> (\<exists>q row. answerable g q (w_db w) \<and> same_terms ap q \<and> ap_actor ap = go_actor g \<and>
        ap_invalidation ap = None \<and> tbl_get ap_id (ap_id ap) (db_approvals (w_db w)) = None \<and>
        q' = resolved_by_grant g ap q \<and>
        w_db w' = (w_db w)\<lparr>db_approvals := db_approvals (w_db w) @ [ap],
          db_requests := tbl_put aq_requestId q' (db_requests (w_db w)), db_audit := db_audit (w_db w) @ [row]\<rparr>)
    | Refused why \<Rightarrow> db_approvals (w_db w') = db_approvals (w_db w) \<and>
        (\<forall>q. answerable g q (w_db w) \<longrightarrow> False) \<and>
        (w_db w' = w_db w \<or> (\<exists>q. request_find (go_requestId g) (w_db w) = Some q \<and> aq_status q = RqPending \<and>
           requestStaleness q (go_now g) (w_db w) = Some why \<and>
           w_db w' = (w_db w)\<lparr>db_requests := tbl_put aq_requestId (resolved_request (go_now g)
             (ResInvalidated (grant_refusal_text why)) (approval_actor_text (go_actor g))
             (Some (''refused at grant time: '' @ grant_refusal_text why)) q) (db_requests (w_db w))\<rparr>))"
proof -
  define w0 where "w0 = w\<lparr>w_depth := Suc (w_depth w)\<rparr>"
  have w0: "w_db w0 = w_db w" by (simp add: w0_def)
  from store_write_Inr_db [OF assms [unfolded grantApproval_def]] obtain w1 d where
    body: "andThen (getDb (request_find (go_requestId g))) (\<lambda>found.
       case found of None \<Rightarrow> ret (Refused RequestNotFound)
       | Some q \<Rightarrow>
           if aq_status q \<noteq> RqPending then ret (Refused RequestNotPending)
           else andThen (getDb (requestStaleness q (go_now g))) (\<lambda>staleness.
             case staleness of
               Some why \<Rightarrow>
                 andThen (request_resolve (aq_requestId q) (go_now g) (ResInvalidated (grant_refusal_text why))
                     (approval_actor_text (go_actor g)) (Some (''refused at grant time: '' @ grant_refusal_text why)))
                   (\<lambda>_. ret (Refused why))
             | None \<Rightarrow>
                 if aq_tier q = TierHighRisk \<and> \<not> is_user (go_actor g) then ret (Refused ActorNotUser)
                 else andThen newId (\<lambda>i. andThen (expires_at (go_now g) (go_ttlMs g)) (\<lambda>expiry.
                   andThen (approvals_insert (approval_of g q i expiry)) (\<lambda>ap.
                   andThen (request_resolve (aq_requestId q) (go_now g) (ResGranted (ap_id ap))
                       (approval_actor_text (go_actor g)) (go_detail g)) (\<lambda>_.
                   andThen (getDb (request_find (aq_requestId q))) (\<lambda>resolved.
                   ret (Granted ap (case resolved of None \<Rightarrow> q | Some q' \<Rightarrow> q'))))))))) w0 = (Inr res, w1)"
    and w': "w_db w' = w_db w1"
    unfolding w0_def by auto
  show ?thesis
  proof (cases "request_find (go_requestId g) (w_db w)")
    case None
    then show ?thesis using body w' w0 by (auto simp: andThen_eq_Inr answerable_def)
  next
    case (Some q)
    have rid: "aq_requestId q = go_requestId g" using Some by (rule request_find_id)
    show ?thesis
    proof (cases "aq_status q = RqPending")
      case False
      then show ?thesis using body w' w0 Some by (auto simp: andThen_eq_Inr answerable_def)
    next
      case pending: True
      show ?thesis
      proof (cases "requestStaleness q (go_now g) (w_db w)")
        case (Some why)
        with body pending \<open>request_find _ _ = Some q\<close> obtain ok where
          "request_resolve (aq_requestId q) (go_now g) (ResInvalidated (grant_refusal_text why))
             (approval_actor_text (go_actor g)) (Some (''refused at grant time: '' @ grant_refusal_text why)) w0 = (Inr ok, w1)"
          and res: "res = Refused why"
          by (auto simp: andThen_eq_Inr w0)
        from request_resolve_Inr [OF this(1)] show ?thesis
          using pending \<open>request_find _ _ = Some q\<close> Some w' res by (auto simp: rid w0 answerable_def)
      next
        case fresh: None
        show ?thesis
        proof (cases "aq_tier q = TierHighRisk \<and> \<not> is_user (go_actor g)")
          case True
          then show ?thesis using body w' w0 Some pending fresh by (auto simp: andThen_eq_Inr answerable_def)
        next
          case False
          with body Some pending fresh obtain i w2 expiry w3 ap w4 ok where
            run: "newId w0 = (Inr i, w2)" "expires_at (go_now g) (go_ttlMs g) w2 = (Inr expiry, w3)"
              "approvals_insert (approval_of g q i expiry) w3 = (Inr ap, w4)"
              "request_resolve (aq_requestId q) (go_now g) (ResGranted (ap_id ap))
                 (approval_actor_text (go_actor g)) (go_detail g) w4 = (Inr ok, w1)"
            and res: "res = Granted ap (case request_find (aq_requestId q) (w_db w1) of None \<Rightarrow> q | Some q' \<Rightarrow> q')"
            by (auto simp: andThen_eq_Inr w0)
          have w3: "w_db w3 = w_db w" using run(1) expires_at_Inr [OF run(2)] by (auto simp: newId_def w0)
          from run(3) obtain row ts where ap: "ap = approval_normalise ts (approval_of g q i expiry)"
              "tbl_get ap_id (ap_id (approval_of g q i expiry)) (db_approvals (w_db w)) = None"
              "w_db w4 = (w_db w)\<lparr>db_approvals := db_approvals (w_db w) @ [ap], db_audit := db_audit (w_db w) @ [row]\<rparr>"
            by (rule approvals_insert_Inr) (auto simp: w3)
          have ids: "ap_id ap = ap_id (approval_of g q i expiry)" by (simp add: ap(1) approval_normalise_def)
          have found: "request_find (aq_requestId q) (w_db w4) = Some q"
            using Some by (simp add: ap(3) request_find_def rid)
          then have w1: "w_db w1 = (w_db w4)\<lparr>db_requests := tbl_put aq_requestId (resolved_by_grant g ap q) (db_requests (w_db w4))\<rparr>"
            using request_resolve_Inr [OF run(4)] pending by (auto simp: resolved_by_grant_def)
          have "request_find (aq_requestId q) (w_db w1) = Some (resolved_by_grant g ap q)"
            using found by (simp add: w1 request_find_def tbl_get_put resolved_by_grant_def)
          then have "res = Granted ap (resolved_by_grant g ap q)" by (simp add: res)
          moreover have "answerable g q (w_db w)" using Some pending fresh False by (simp add: answerable_def)
          moreover have "w_db w' = (w_db w)\<lparr>db_approvals := db_approvals (w_db w) @ [ap],
              db_requests := tbl_put aq_requestId (resolved_by_grant g ap q) (db_requests (w_db w)),
              db_audit := db_audit (w_db w) @ [row]\<rparr>"
            by (simp add: w' w1 ap(3))
          moreover have "same_terms ap q" "ap_actor ap = go_actor g" "ap_invalidation ap = None"
            unfolding ap(1) by (rule approval_of_terms, simp_all add: approval_normalise_def approval_of_def)
          moreover have "tbl_get ap_id (ap_id ap) (db_approvals (w_db w)) = None" using ap(2) ids by simp
          ultimately show ?thesis by auto
        qed
      qed
    qed
  qed
qed

text \<open>A granted approval answers a question that was pending, still about the current world and, when it is of
  high risk, answered by a user; its scope, revisions, act and risk are the question's and never the caller's,
  and nothing else of the approvals and questions changes.\<close>

theorem grant_answers_a_live_question:
  assumes "grantApproval g w = (Inr (Granted ap q'), w')"
  shows "\<exists>q row. request_find (go_requestId g) (w_db w) = Some q \<and> aq_status q = RqPending \<and>
     requestStaleness q (go_now g) (w_db w) = None \<and> (aq_tier q = TierHighRisk \<longrightarrow> is_user (go_actor g)) \<and>
     same_terms ap q \<and> ap_actor ap = go_actor g \<and> ap_invalidation ap = None \<and>
     aq_status q' = RqGranted \<and> aq_approvalId q' = Some (ap_id ap) \<and>
     w_db w' = (w_db w)\<lparr>db_approvals := db_approvals (w_db w) @ [ap],
       db_requests := tbl_put aq_requestId q' (db_requests (w_db w)), db_audit := db_audit (w_db w) @ [row]\<rparr>"
proof -
  from grantApproval_Inr [OF assms] obtain q row where "answerable g q (w_db w)" "same_terms ap q"
    "ap_actor ap = go_actor g" "ap_invalidation ap = None" and q': "q' = resolved_by_grant g ap q" and
    db: "w_db w' = (w_db w)\<lparr>db_approvals := db_approvals (w_db w) @ [ap],
       db_requests := tbl_put aq_requestId q' (db_requests (w_db w)), db_audit := db_audit (w_db w) @ [row]\<rparr>"
    by auto
  moreover have "aq_status q' = RqGranted" "aq_approvalId q' = Some (ap_id ap)"
    by (simp_all add: q' resolved_by_grant_def resolved_request_def)
  ultimately show ?thesis
    unfolding answerable_def by (intro exI [of _ q] exI [of _ row]) (use db in auto)
qed

section \<open>Every approval is an answer\<close>

definition same_grant :: "approval \<Rightarrow> approval \<Rightarrow> bool" where
  "same_grant a b \<longleftrightarrow> ap_id b = ap_id a \<and> ap_workflowId b = ap_workflowId a \<and> ap_actor b = ap_actor a \<and>
     ap_scope b = ap_scope a \<and> ap_taskRevision b = ap_taskRevision a \<and> ap_planRevision b = ap_planRevision a \<and>
     ap_permittedAction b = ap_permittedAction a \<and> ap_riskClass b = ap_riskClass a"

definition answers :: "approval \<Rightarrow> approval_request \<Rightarrow> bool" where
  "answers ap q \<longleftrightarrow> aq_status q = RqGranted \<and> aq_approvalId q = Some (ap_id ap) \<and> same_terms ap q \<and>
     (ap_riskClass ap = RiskHigh \<longrightarrow> is_user (ap_actor ap))"

definition all_answered :: "db \<Rightarrow> bool" where
  "all_answered d \<longleftrightarrow> (\<forall>ap \<in> set (db_approvals d). \<exists>rid q. request_find rid d = Some q \<and> answers ap q)"

text \<open>The risk of a question is high exactly when its class is of the high-risk tier.\<close>

definition requests_classed :: "db \<Rightarrow> bool" where
  "requests_classed d \<longleftrightarrow> (\<forall>q \<in> set (db_requests d). aq_riskClass q = RiskHigh \<longleftrightarrow> aq_tier q = TierHighRisk)"

definition no_new_grant :: "db \<Rightarrow> db \<Rightarrow> bool" where
  "no_new_grant d d' \<longleftrightarrow> (\<forall>b \<in> set (db_approvals d'). \<exists>a \<in> set (db_approvals d). same_grant a b)"

definition keeps_requests_classed :: "db \<Rightarrow> db \<Rightarrow> bool" where
  "keeps_requests_classed d d' \<longleftrightarrow> (requests_classed d \<longrightarrow> requests_classed d')"

definition same_approvals :: "db \<Rightarrow> db \<Rightarrow> bool" where
  "same_approvals d d' \<longleftrightarrow> db_approvals d' = db_approvals d"

interpretation approvals_kept: db_relation same_approvals
  by unfold_locales (simp_all add: same_approvals_def)

interpretation classed: db_relation keeps_requests_classed
  by unfold_locales (simp_all add: keeps_requests_classed_def)

lemma same_grant_refl [simp]: "same_grant a a"
  by (simp add: same_grant_def)

lemma risk_high_iff_tier: "cd_risk (approvalClassDefinition c) = RiskHigh \<longleftrightarrow> cd_tier (approvalClassDefinition c) = TierHighRisk"
proof -
  have "list_all (\<lambda>d. (cd_risk d = RiskHigh) = (cd_tier d = TierHighRisk)) APPROVAL_CLASS_TABLE"
    by code_simp
  then show ?thesis using class_in_table [of c] by (auto simp: list_all_iff)
qed

lemma all_answered_mono:
  assumes "history_extends d d'" "no_new_grant d d'" "all_answered d"
  shows "all_answered d'"
  unfolding all_answered_def
proof
  fix b assume "b \<in> set (db_approvals d')"
  then obtain a rid q where a: "same_grant a b" "request_find rid d = Some q" "answers a q"
    using assms(2,3) unfolding no_new_grant_def all_answered_def by meson
  have "rows_move aq_requestId request_step (db_requests d) (db_requests d')"
    using assms(1) by (simp add: history_extends_def)
  then obtain q' where "request_find rid d' = Some q'" "request_step q q'"
    using a(2) unfolding rows_move_def request_find_def by blast
  moreover from this(2) have "q' = q" using a(3) by (auto simp: request_step_def answers_def)
  moreover have "answers b q" using a(1,3) by (simp add: answers_def same_grant_def same_terms_def)
  ultimately show "\<exists>rid q. request_find rid d' = Some q \<and> answers b q" by blast
qed

lemma same_approvals_no_new: "same_approvals d d' \<Longrightarrow> no_new_grant d d'"
  by (auto simp: same_approvals_def no_new_grant_def intro!: bexI)

lemma kept_request_insert: "evolves same_approvals (request_insert q)"
  unfolding request_insert_def
  by (intro approvals_kept.ev_read) (auto simp: same_approvals_def andThen_def split: option.splits)

lemma kept_request_resolve: "evolves same_approvals (request_resolve rid ts res who detail)"
  unfolding request_resolve_def
  by (intro approvals_kept.ev_read) (auto simp: same_approvals_def andThen_def split: option.splits)

lemma kept_require: "evolves same_approvals (repo_require rp i)"
  unfolding repo_require_def repo_get_def by (intro approvals_kept.ev_rules)

lemma kept_expires_at: "evolves same_approvals (expires_at now ttl)"
  unfolding expires_at_def by (intro approvals_kept.ev_rules)

lemma kept_requestApproval: "evolves same_approvals (requestApproval opts)"
  unfolding requestApproval_def queueQuestion_def Let_def
  by (intro approvals_kept.ev_rules kept_require kept_request_insert kept_expires_at)

lemma kept_denyApproval: "evolves same_approvals (denyApproval rid actor now detail)"
  unfolding denyApproval_def by (intro approvals_kept.ev_rules kept_request_resolve)

lemma classed_put:
  assumes "request_find k d = Some q"
  shows "keeps_requests_classed d (d\<lparr>db_requests := tbl_put aq_requestId (resolved_request ts res who detail q) (db_requests d)\<rparr>)"
  using assms by (auto simp: keeps_requests_classed_def requests_classed_def request_find_def
      dest!: tbl_put_set dest: tbl_get_in)

lemma classed_request_resolve: "evolves keeps_requests_classed (request_resolve rid ts res who detail)"
  unfolding request_resolve_def
  by (intro classed.ev_read)
    (auto simp: andThen_def keeps_requests_classed_def split: option.splits dest!: classed_put)

lemma classed_requestApproval: "evolves keeps_requests_classed (requestApproval opts)"
proof -
  have "evolves keeps_requests_classed (request_insert (request_of opts wkf disposition key rid expiry))"
    for wkf disposition key rid expiry
    unfolding request_insert_def
    by (intro classed.ev_read)
      (auto simp: andThen_def keeps_requests_classed_def requests_classed_def tbl_add_def request_of_def risk_high_iff_tier
        split: option.splits)
  then show ?thesis
    unfolding requestApproval_def queueQuestion_def repo_require_def repo_get_def expires_at_def Let_def
    by (intro classed.ev_rules)
qed

lemma classed_denyApproval: "evolves keeps_requests_classed (denyApproval rid actor now detail)"
  unfolding denyApproval_def by (intro classed.ev_rules classed_request_resolve)

text \<open>Spending or withdrawing an approval touches its invalidation and nothing else.\<close>

lemma approvals_invalidate_Inr:
  assumes "approvals_invalidate i why w = (Inr ap, w')"
  shows "\<exists>a ts row. tbl_get ap_id i (db_approvals (w_db w)) = Some a \<and> ap_invalidation a = None \<and>
    ap = a\<lparr>ap_invalidation := Some why, ap_updatedAt := ts\<rparr> \<and>
    w_db w' = (w_db w)\<lparr>db_approvals := tbl_put ap_id ap (db_approvals (w_db w)), db_audit := db_audit (w_db w) @ [row]\<rparr>"
proof -
  have "vetting (approval_beforeUpdate False)"
    by (simp add: vetting_def approval_beforeUpdate_def)
  then show ?thesis
  proof (rule approvals.update_Inr [OF _ assms [unfolded approvals_invalidate_def approvals_update_def]], goal_cases)
    case (1 r ts row w0 w1)
    have "ap_invalidation r = None"
      using 1(5) by (simp add: approval_beforeUpdate_def split: if_splits)
    then show ?case
      using 1(1,2,6) by (intro exI [of _ r] exI [of _ ts] exI [of _ row]) (simp add: Let_def)
  qed
qed

definition spends :: "(approval io) \<Rightarrow> string \<Rightarrow> bool" where
  "spends m i \<longleftrightarrow> (\<exists>why. m = store_write (approvals_invalidate i why))"

lemma spends_ops: "spends (consumeApproval i now detail) i" "spends (revokeApproval i now detail) i"
  by (auto simp: spends_def consumeApproval_def revokeApproval_def)

lemma spends_Inr:
  assumes "spends m i" "m w = (Inr ap, w')"
  shows "\<exists>a why ts row. tbl_get ap_id i (db_approvals (w_db w)) = Some a \<and> ap_invalidation a = None \<and>
    ap = a\<lparr>ap_invalidation := Some why, ap_updatedAt := ts\<rparr> \<and>
    w_db w' = (w_db w)\<lparr>db_approvals := tbl_put ap_id ap (db_approvals (w_db w)), db_audit := db_audit (w_db w) @ [row]\<rparr>"
proof -
  obtain why where m: "m = store_write (approvals_invalidate i why)" using assms(1) by (auto simp: spends_def)
  from store_write_Inr_db [OF assms(2) [unfolded m]] obtain w1 d where
    "approvals_invalidate i why (w\<lparr>w_depth := Suc (w_depth w)\<rparr>) = (Inr ap, w1)" "w' = w1\<lparr>w_depth := d\<rparr>" by blast
  from approvals_invalidate_Inr [OF this(1)] this(2) show ?thesis by auto
qed

lemma spends_step:
  assumes "spends m i" "m w = (r, w')" "w_depth w = 0"
  shows "no_new_grant (w_db w) (w_db w')" "db_requests (w_db w') = db_requests (w_db w)"
proof -
  have "no_new_grant (w_db w) (w_db w') \<and> db_requests (w_db w') = db_requests (w_db w)"
  proof (cases r)
    case (Inl e)
    then have "w_db w' = w_db w"
      using assms store_write_rollback by (auto simp: spends_def)
    then show ?thesis by (auto simp: no_new_grant_def intro!: bexI)
  next
    case (Inr ap)
    from spends_Inr [OF assms(1) assms(2) [unfolded Inr]] obtain a why ts row where
      a: "tbl_get ap_id i (db_approvals (w_db w)) = Some a" "ap = a\<lparr>ap_invalidation := Some why, ap_updatedAt := ts\<rparr>"
      "w_db w' = (w_db w)\<lparr>db_approvals := tbl_put ap_id ap (db_approvals (w_db w)), db_audit := db_audit (w_db w) @ [row]\<rparr>"
      by blast
    have "same_grant a ap" by (simp add: a(2) same_grant_def)
    then show ?thesis
      using tbl_get_in [OF a(1)] tbl_put_set [of _ ap_id ap "db_approvals (w_db w)"]
      unfolding no_new_grant_def a(3) by (auto intro: same_grant_refl)
  qed
  then show "no_new_grant (w_db w) (w_db w')" "db_requests (w_db w') = db_requests (w_db w)" by auto
qed

section \<open>The approvals as a machine\<close>

text \<open>
  The steps of the approval desk, each a call at the top level, on the databases before and after; and the steps
  of everything else: other writers may touch any table, and may invalidate approvals, but like every write they
  respect the history, and they ask no question, answer none and give no approval. The other writers of approvals
  (\<open>invalidation.ts\<close>, \<open>plan-store.ts\<close>, \<open>scope-change.ts\<close>) are such steps (theory Invalidation).
\<close>

inductive desk_step :: "db \<Rightarrow> db \<Rightarrow> bool" where
  ask: "requestApproval opts w = (r, w') \<Longrightarrow> w_depth w = 0 \<Longrightarrow> desk_step (w_db w) (w_db w')"
| grant: "grantApproval g w = (r, w') \<Longrightarrow> w_depth w = 0 \<Longrightarrow> desk_step (w_db w) (w_db w')"
| deny: "denyApproval rid actor now detail w = (r, w') \<Longrightarrow> w_depth w = 0 \<Longrightarrow> desk_step (w_db w) (w_db w')"
| sweep: "invalidatePendingRequests wid now by_actor w = (r, w') \<Longrightarrow> w_depth w = 0 \<Longrightarrow> desk_step (w_db w) (w_db w')"
| consume: "consumeApproval i now detail w = (r, w') \<Longrightarrow> w_depth w = 0 \<Longrightarrow> desk_step (w_db w) (w_db w')"
| revoke: "revokeApproval i now detail w = (r, w') \<Longrightarrow> w_depth w = 0 \<Longrightarrow> desk_step (w_db w) (w_db w')"
| elsewhere: "history_extends d d' \<Longrightarrow> no_new_grant d d' \<Longrightarrow> db_requests d' = db_requests d \<Longrightarrow> desk_step d d'"

lemma desk_step_history: "desk_step d d' \<Longrightarrow> history_extends d d'"
proof (induction rule: desk_step.induct)
  case (ask opts w r w') show ?case by (rule evolvesD [OF history_requestApproval ask(1)])
next
  case (grant g w r w') show ?case by (rule evolvesD [OF history_grantApproval grant(1)])
next
  case (deny rid actor now detail w r w') show ?case by (rule evolvesD [OF history_denyApproval deny(1)])
next
  case (sweep wid now by_actor w r w') show ?case by (rule evolvesD [OF history_invalidatePendingRequests sweep(1)])
next
  case (consume i now detail w r w') show ?case by (rule evolvesD [OF history_consumeApproval consume(1)])
next
  case (revoke i now detail w r w') show ?case by (rule evolvesD [OF history_revokeApproval revoke(1)])
qed

lemma classed_same: "db_requests d' = db_requests d \<Longrightarrow> requests_classed d \<Longrightarrow> requests_classed d'"
  by (simp add: requests_classed_def)

text \<open>One step keeps both invariants.\<close>

lemma grant_keeps:
  assumes run: "grantApproval g w = (r, w')" and "w_depth w = 0" and inv: "all_answered (w_db w)" "requests_classed (w_db w)"
  shows "all_answered (w_db w') \<and> requests_classed (w_db w')"
proof -
  have hist: "history_extends (w_db w) (w_db w')" using run by (rule evolvesD [OF history_grantApproval])
  show ?thesis
  proof (cases r)
    case (Inl e)
    then have "w_db w' = w_db w" using run assms(2) store_write_rollback by (auto simp: grantApproval_def)
    then show ?thesis using inv by simp
  next
    case (Inr res)
    note eff = grantApproval_Inr [OF run [unfolded Inr]]
    show ?thesis
    proof (cases res)
      case (Refused why)
      then have "same_approvals (w_db w) (w_db w')" "keeps_requests_classed (w_db w) (w_db w')"
        using eff by (auto simp: same_approvals_def keeps_requests_classed_def dest!: classed_put)
      then show ?thesis
        using all_answered_mono [OF hist same_approvals_no_new] inv by (simp add: keeps_requests_classed_def)
    next
      case (Granted ap q')
      then obtain q row where q: "answerable g q (w_db w)" "same_terms ap q" "ap_actor ap = go_actor g"
          "q' = resolved_by_grant g ap q"
        and db: "w_db w' = (w_db w)\<lparr>db_approvals := db_approvals (w_db w) @ [ap],
          db_requests := tbl_put aq_requestId q' (db_requests (w_db w)), db_audit := db_audit (w_db w) @ [row]\<rparr>"
        using eff by auto
      have found: "request_find (go_requestId g) (w_db w) = Some q" "aq_tier q = TierHighRisk \<longrightarrow> is_user (go_actor g)"
        using q(1) by (simp_all add: answerable_def)
      have here: "request_find (go_requestId g) (w_db w') = Some q'"
        using found(1) request_find_id [OF found(1)] by (simp add: db request_find_def tbl_get_put q(4) resolved_by_grant_def)
      have "aq_riskClass q = RiskHigh \<longleftrightarrow> aq_tier q = TierHighRisk"
        using inv(2) tbl_get_in [of aq_requestId _ "db_requests (w_db w)" q] found(1)
        by (auto simp: requests_classed_def request_find_def)
      then have "answers ap q'"
        using q found(2) by (auto simp: answers_def resolved_by_grant_def resolved_request_def same_terms_def)
      moreover have "all_answered ((w_db w')\<lparr>db_approvals := db_approvals (w_db w)\<rparr>)"
      proof (rule all_answered_mono [OF _ same_approvals_no_new inv(1)])
        show "history_extends (w_db w) ((w_db w')\<lparr>db_approvals := db_approvals (w_db w)\<rparr>)"
          using hist by (simp add: history_extends_def rows_move_refl)
      qed (simp add: same_approvals_def)
      ultimately have "all_answered (w_db w')"
        using here by (auto simp: all_answered_def db request_find_def)
      moreover have "requests_classed (w_db w')"
        using classed_put [OF found(1)] inv(2)
        by (simp add: db keeps_requests_classed_def requests_classed_def q(4) resolved_by_grant_def)
      ultimately show ?thesis by blast
    qed
  qed
qed

lemma desk_step_keeps:
  assumes "desk_step d d'" "all_answered d" "requests_classed d"
  shows "all_answered d' \<and> requests_classed d'"
proof -
  have hist: "history_extends d d'" using assms(1) by (rule desk_step_history)
  have by_rows: "all_answered d' \<and> requests_classed d'" if "no_new_grant d d'" "keeps_requests_classed d d'"
    using all_answered_mono [OF hist that(1) assms(2)] that(2) assms(3) by (simp add: keeps_requests_classed_def)
  from assms(1) show ?thesis
  proof cases
    case (ask opts w r w')
    then show ?thesis
      using by_rows same_approvals_no_new evolvesD [OF kept_requestApproval ask(3)] evolvesD [OF classed_requestApproval ask(3)] by simp
  next
    case (grant g w r w')
    then show ?thesis using grant_keeps [OF grant(3,4)] assms(2,3) by simp
  next
    case (deny rid actor now detail w r w')
    then show ?thesis
      using by_rows same_approvals_no_new evolvesD [OF kept_denyApproval deny(3)] evolvesD [OF classed_denyApproval deny(3)] by simp
  next
    case (sweep wid now by_actor w r w')
    then show ?thesis
      using by_rows same_approvals_no_new evolvesD [OF approvals_kept.ev_invalidatePendingRequests [OF kept_request_resolve] sweep(3)]
        evolvesD [OF classed.ev_invalidatePendingRequests [OF classed_request_resolve] sweep(3)] by simp
  next
    case (consume i now detail w r w')
    then show ?thesis
      using by_rows spends_step [OF spends_ops(1) consume(3,4)] classed_same by (simp add: keeps_requests_classed_def)
  next
    case (revoke i now detail w r w')
    then show ?thesis
      using by_rows spends_step [OF spends_ops(2) revoke(3,4)] classed_same by (simp add: keeps_requests_classed_def)
  next
    case elsewhere
    then show ?thesis
      using by_rows classed_same by (simp add: keeps_requests_classed_def)
  qed
qed

lemma desk_run_keeps:
  assumes "desk_step\<^sup>*\<^sup>* d d'" "all_answered d" "requests_classed d"
  shows "all_answered d' \<and> requests_classed d'"
  using assms by (induction rule: rtranclp_induct) (auto dest: desk_step_keeps)

lemma desk_run_history: "desk_step\<^sup>*\<^sup>* d d' \<Longrightarrow> history_extends d d'"
  by (induction rule: rtranclp_induct) (auto intro: history_refl dest: desk_step_history elim: history_trans)

text \<open>C23. Over any run of the approval desk, beside any other writes of the program that respect the history and
  neither ask, answer nor approve (invalidations of approvals among them), every approval answers a question that
  was asked, granted once and carries the approval's id, on the question's own terms; and an approval of high risk
  was given by a user.\<close>

theorem every_approval_answers_a_question:
  assumes "desk_step\<^sup>*\<^sup>* d d'" "db_approvals d = []" "db_requests d = []" "ap \<in> set (db_approvals d')"
  shows "\<exists>rid q. request_find rid d' = Some q \<and> aq_status q = RqGranted \<and> aq_approvalId q = Some (ap_id ap) \<and>
     same_terms ap q \<and> (ap_riskClass ap = RiskHigh \<longrightarrow> is_user (ap_actor ap))"
proof -
  have "all_answered d'"
    using desk_run_keeps [OF assms(1)] assms(2,3) by (simp add: all_answered_def requests_classed_def)
  then show ?thesis using assms(4) unfolding all_answered_def answers_def by blast
qed

section \<open>Single use\<close>

lemma request_resolved_stays:
  assumes "history_extends d d'" "request_find rid d = Some q" "aq_status q \<noteq> RqPending"
  shows "request_find rid d' = Some q"
proof -
  have "rows_move aq_requestId request_step (db_requests d) (db_requests d')"
    using assms(1) by (simp add: history_extends_def)
  then obtain q' where "request_find rid d' = Some q'" "request_step q q'"
    using assms(2) unfolding rows_move_def request_find_def by blast
  then show ?thesis using assms(3) by (auto simp: request_step_def)
qed

text \<open>A question that was once granted, denied or found stale is answered for good: however the run goes on, a
  later grant of it is refused and changes nothing.\<close>

theorem answered_question_is_closed:
  assumes "request_find (go_requestId g) d = Some q" "aq_status q \<noteq> RqPending" "desk_step\<^sup>*\<^sup>* d (w_db w)"
    and "w_writable w" "grantApproval g w = (r, w')"
  shows "r = Inr (Refused RequestNotPending) \<and> w_db w' = w_db w"
proof -
  have "request_find (go_requestId g) (w_db w) = Some q"
    using request_resolved_stays [OF desk_run_history [OF assms(3)] assms(1,2)] .
  then show ?thesis
    using assms(2,4,5) by (auto simp: grantApproval_def store_write_def andThen_def split: if_splits)
qed

lemma spent_stays:
  assumes "history_extends d d'" "tbl_get ap_id i (db_approvals d) = Some a" "ap_invalidation a \<noteq> None"
  shows "tbl_get ap_id i (db_approvals d') = Some a"
proof -
  have "rows_move ap_id approval_step (db_approvals d) (db_approvals d')"
    using assms(1) by (simp add: history_extends_def)
  then obtain a' where "tbl_get ap_id i (db_approvals d') = Some a'" "approval_step a a'"
    using assms(2) unfolding rows_move_def by blast
  then show ?thesis using assms(3) by (auto simp: approval_step_def)
qed

lemma validApprovalsFor_Inr:
  assumes "validApprovalsFor v w = (Inr aps, w')"
  shows "w' = w \<and> (\<exists>wkf. tbl_get wf_id (vo_workflowId v) (db_workflows (w_db w)) = Some wkf \<and>
    set aps = {ap \<in> set (db_approvals (w_db w)). ap_workflowId ap = vo_workflowId v \<and>
      covers_act v (case vo_taskId v of None \<Rightarrow> None | Some i \<Rightarrow> tbl_get t_id i (db_tasks (w_db w))) wkf ap})"
  using assms
  by (auto simp: validApprovalsFor_def andThen_eq_Inr workflows.require_eq repo_query_def split: option.splits)

text \<open>C24. An approval that was consumed or revoked never again covers an act, however the run goes on: with further
  questions, grants, denials, sweeps and withdrawals, and beside any other writes that respect the history, the
  invalidations of the rest of the program among them.\<close>

theorem spent_approval_covers_nothing:
  assumes "consumeApproval i now detail w = (Inr ap, w1) \<or> revokeApproval i now detail w = (Inr ap, w1)"
    and "desk_step\<^sup>*\<^sup>* (w_db w1) (w_db w2)" "tbl_ok ap_id (db_approvals (w_db w2))"
    and "validApprovalsFor v w2 = (Inr aps, w3)" "a \<in> set aps"
  shows "ap_id a \<noteq> i"
proof
  assume i: "ap_id a = i"
  obtain m where m: "spends m i" "m w = (Inr ap, w1)" using assms(1) spends_ops by blast
  from spends_Inr [OF m] obtain a0 why ts row where
    a0: "tbl_get ap_id i (db_approvals (w_db w)) = Some a0" "ap = a0\<lparr>ap_invalidation := Some why, ap_updatedAt := ts\<rparr>"
    "w_db w1 = (w_db w)\<lparr>db_approvals := tbl_put ap_id ap (db_approvals (w_db w)), db_audit := db_audit (w_db w) @ [row]\<rparr>"
    by blast
  have "ap_id ap = i" using tbl_get_key [OF a0(1)] by (simp add: a0(2))
  then have "tbl_get ap_id i (db_approvals (w_db w1)) = Some ap"
    using a0(1) by (simp add: a0(3) tbl_get_put)
  then have "tbl_get ap_id i (db_approvals (w_db w2)) = Some ap"
    using spent_stays [OF desk_run_history [OF assms(2)]] by (simp add: a0(2))
  moreover have "a \<in> set (db_approvals (w_db w2))" "ap_invalidation a = None"
    using validApprovalsFor_Inr [OF assms(4)] assms(5)
    by (auto simp: covers_act_def approvalInvalidReason_def split: option.splits)
  ultimately show False
    using tbl_ok_get [OF assms(3)] i by (auto simp: a0(2))
qed

section \<open>Acting on an approval\<close>

text \<open>An act that is approved when it asks has an unspent, unexpired approval of exactly that act at the current plan
  revision, and at the task's current revision when it concerns a task; if the desk started empty, it is the answer of
  a user to a question on those terms.\<close>

theorem approved_act_was_asked_and_granted:
  assumes "isActionApproved v w = (Inr True, w')" "desk_step\<^sup>*\<^sup>* d (w_db w)" "db_approvals d = []" "db_requests d = []"
  shows "\<exists>ap wkf rid q. tbl_get wf_id (vo_workflowId v) (db_workflows (w_db w)) = Some wkf \<and>
     ap_permittedAction ap = vo_permittedAction v \<and> ap_invalidation ap = None \<and>
     (\<forall>t. ap_expiresAt ap = Some t \<longrightarrow> vo_now v < t) \<and> ap_planRevision ap = wf_planRevision wkf \<and>
     (\<forall>i. vo_taskId v = Some i \<longrightarrow> ap_scope ap = ScTask i \<and>
        (\<exists>t. tbl_get t_id i (db_tasks (w_db w)) = Some t \<and> ap_taskRevision ap = Some (t_revision t))) \<and>
     is_user (ap_actor ap) \<and>
     request_find rid (w_db w) = Some q \<and> aq_status q = RqGranted \<and> aq_approvalId q = Some (ap_id ap) \<and> same_terms ap q"
proof -
  let ?v = "v\<lparr>vo_requireUserActor := True\<rparr>"
  obtain aps where aps: "validApprovalsFor ?v w = (Inr aps, w')" "aps \<noteq> []"
    using assms(1) by (auto simp: isActionApproved_def andThen_eq_Inr)
  let ?task = "case vo_taskId v of None \<Rightarrow> None | Some i \<Rightarrow> tbl_get t_id i (db_tasks (w_db w))"
  from validApprovalsFor_Inr [OF aps(1)] obtain wkf where
    wkf: "tbl_get wf_id (vo_workflowId v) (db_workflows (w_db w)) = Some wkf" and
    set: "set aps = {ap \<in> set (db_approvals (w_db w)). ap_workflowId ap = vo_workflowId v \<and> covers_act ?v ?task wkf ap}"
    by (auto split: option.splits)
  obtain ap where "ap \<in> set aps" using aps(2) by (cases aps) auto
  then have ap: "ap \<in> set (db_approvals (w_db w))" "covers_act ?v ?task wkf ap" using set by auto
  have "all_answered (w_db w)"
    using desk_run_keeps [OF assms(2)] assms(3,4) by (simp add: all_answered_def requests_classed_def)
  then obtain rid q where "request_find rid (w_db w) = Some q" "answers ap q"
    using ap(1) unfolding all_answered_def by blast
  moreover have "ap_permittedAction ap = vo_permittedAction v" "is_user (ap_actor ap)"
    using ap(2) by (simp_all add: covers_act_def)
  moreover have "ap_invalidation ap = None" "\<forall>t. ap_expiresAt ap = Some t \<longrightarrow> vo_now v < t" "ap_planRevision ap = wf_planRevision wkf"
    using ap(2) by (auto simp: covers_act_def approvalInvalidReason_def split: option.splits if_splits)
  moreover have "ap_scope ap = ScTask i \<and>
        (\<exists>t. tbl_get t_id i (db_tasks (w_db w)) = Some t \<and> ap_taskRevision ap = Some (t_revision t))" if "vo_taskId v = Some i" for i
    using ap(2) that by (auto simp: covers_act_def approvalInvalidReason_def split: option.splits if_splits)
  ultimately show ?thesis
    using wkf by (intro exI [of _ ap] exI [of _ wkf] exI [of _ rid] exI [of _ q]) (auto simp: answers_def)
qed

lemma resolve_auto:
  "di_decision (resolveDisposition c mode table jev) = DecAuto \<Longrightarrow>
   cd_tier (approvalClassDefinition c) = TierConfigurable \<and> table c mode = DecAuto"
  by (cases "cd_tier (approvalClassDefinition c)")
    (auto simp: resolveDisposition_def rule_decision_def isMoreRestrictive_def Let_def split: option.splits if_splits)

lemma findPendingByKey_Some:
  "findPendingByKey wid key d = Some q \<Longrightarrow> q \<in> set (db_requests d) \<and> asks_the_same wid key q"
proof -
  assume "findPendingByKey wid key d = Some q"
  then have "q \<in> set (request_rows (asks_the_same wid key) d)"
    by (auto simp: findPendingByKey_def split: list.splits)
  then show ?thesis by (simp add: request_rows_def)
qed

text \<open>A question the transaction returned is pending under its key: the one that was there, or a new last row.\<close>

lemma queueQuestion_Inr:
  assumes "queueQuestion opts wkf disposition key w = (Inr res, w')"
  shows "\<exists>q. qr_request res = Some q \<and> asks_the_same (qo_workflowId opts) key q \<and> q \<in> set (db_requests (w_db w')) \<and>
     ((qr_outcome res = OutAlreadyPending \<and> w' = w) \<or>
      (qr_outcome res = (if di_decision disposition = DecStop then OutStop else OutQueued) \<and>
       (\<exists>rid expiry. q = request_of opts wkf disposition key rid expiry) \<and>
       db_requests (w_db w') = db_requests (w_db w) @ [q] \<and>
       \<not> list_ex (asks_the_same (qo_workflowId opts) key) (db_requests (w_db w))))"
proof (cases "findPendingByKey (qo_workflowId opts) key (w_db w)")
  case (Some q)
  then show ?thesis
    using assms findPendingByKey_Some [OF Some] by (auto simp: queueQuestion_def andThen_eq_Inr)
next
  case None
  with assms obtain rid w2 expiry w3 q where
    run: "newId w = (Inr rid, w2)" "expires_at (qo_now opts) (qo_ttlMs opts) w2 = (Inr expiry, w3)"
      "request_insert (request_of opts wkf disposition key rid expiry) w3 = (Inr q, w')"
    and res: "res = \<lparr>qr_outcome = (if di_decision disposition = DecStop then OutStop else OutQueued),
               qr_disposition = disposition, qr_request = Some q\<rparr>"
    by (auto simp: queueQuestion_def andThen_eq_Inr)
  have w3: "w_db w3 = w_db w" using run(1) expires_at_Inr [OF run(2)] by (auto simp: newId_def)
  have q: "q = request_of opts wkf disposition key rid expiry" "db_requests (w_db w') = db_requests (w_db w) @ [q]"
    using run(3) by (auto simp: request_insert_def andThen_eq_Inr w3 tbl_add_def split: option.splits if_splits)
  have "\<not> list_ex (asks_the_same (qo_workflowId opts) key) (db_requests (w_db w))"
    using run(3) by (auto simp: request_insert_def andThen_eq_Inr w3 request_of_def split: option.splits if_splits)
  moreover have "asks_the_same (qo_workflowId opts) key q"
    by (simp add: q(1) request_of_def asks_the_same_def)
  ultimately show ?thesis using q by (auto simp: res)
qed

text \<open>Asking never waits and never authorises: an automatic class leaves no question and is never of high risk or
  of a tier that may not be silent; otherwise exactly one pending question with the act's key is on record, the one
  returned, and no approval is written. A class that stops the phase says so.\<close>

theorem asking_leaves_one_question:
  assumes "requestApproval opts w = (Inr res, w')"
  shows "db_approvals (w_db w') = db_approvals (w_db w) \<and>
     (\<exists>wkf. tbl_get wf_id (qo_workflowId opts) (db_workflows (w_db w)) = Some wkf \<and>
      (if qr_outcome res = OutAuto
       then cd_tier (approvalClassDefinition (qo_classId opts)) = TierConfigurable \<and> qr_request res = None \<and> w_db w' = w_db w
       else \<exists>q. qr_request res = Some q \<and> q \<in> set (db_requests (w_db w')) \<and>
         asks_the_same (qo_workflowId opts) (key_of opts wkf) q \<and>
         (if qr_outcome res = OutAlreadyPending then w_db w' = w_db w
          else db_requests (w_db w') = db_requests (w_db w) @ [q] \<and>
            aq_taskRevision q = qo_taskRevision opts \<and> aq_planRevision q = wf_planRevision wkf \<and>
            aq_scope q = qo_scope opts \<and> aq_permittedAction q = qo_permittedAction opts \<and>
            \<not> (\<exists>p \<in> set (db_requests (w_db w)). asks_the_same (qo_workflowId opts) (key_of opts wkf) p) \<and>
            (qr_outcome res = OutStop \<longleftrightarrow> aq_decision q = AskStop))))"
proof -
  have kept: "db_approvals (w_db w') = db_approvals (w_db w)"
    using evolvesD [OF kept_requestApproval assms] by (simp add: same_approvals_def)
  from assms obtain wkf where wkf: "tbl_get wf_id (qo_workflowId opts) (db_workflows (w_db w)) = Some wkf"
    by (auto simp: requestApproval_def andThen_eq_Inr workflows.require_eq split: option.splits)
  define disposition where "disposition = resolveDisposition (qo_classId opts) (wf_mode wkf) (qo_table opts) (qo_jev opts)"
  show ?thesis
  proof (cases "di_decision disposition = DecAuto")
    case True
    then have "qr_outcome res = OutAuto \<and> qr_request res = None \<and> w' = w"
      using assms wkf by (auto simp: requestApproval_def andThen_eq_Inr workflows.require_eq disposition_def)
    then show ?thesis using True kept resolve_auto wkf unfolding disposition_def by auto
  next
    case False
    have "store_write (queueQuestion opts wkf disposition (key_of opts wkf)) w = (Inr res, w')"
      using assms wkf False
      by (auto simp: requestApproval_def andThen_eq_Inr workflows.require_eq disposition_def [symmetric] Let_def)
    from store_write_Inr_db [OF this] obtain w1 d where
      body: "queueQuestion opts wkf disposition (key_of opts wkf) (w\<lparr>w_depth := Suc (w_depth w)\<rparr>) = (Inr res, w1)"
      and w': "w' = w1\<lparr>w_depth := d\<rparr>" by blast
    from queueQuestion_Inr [OF body] show ?thesis
      using kept wkf False by (cases "di_decision disposition = DecStop") (auto simp: w' request_of_def list_ex_iff)
  qed
qed

section \<open>Examples and gaps\<close>

definition fx_ask :: "approval_class \<Rightarrow> request_options" where
  "fx_ask c = \<lparr>qo_workflowId = ''w'', qo_classId = c, qo_scope = ScTask ''t1'', qo_permittedAction = ''publish:v1'',
     qo_summary = [], qo_taskRevision = Some 0, qo_now = ''2024-01-01T00:00:00.000Z'', qo_ttlMs = Some 1000, qo_jev = None,
     qo_table = DEFAULT_APPROVAL_CLASSES\<rparr>"

definition fx_grant :: "approval_actor \<Rightarrow> iso_timestamp \<Rightarrow> grant_options" where
  "fx_grant who now = \<lparr>go_requestId = [], go_actor = who, go_now = now, go_ttlMs = None, go_detail = None\<rparr>"

definition fx_acts :: valid_options where
  "fx_acts = \<lparr>vo_workflowId = ''w'', vo_permittedAction = ''publish:v1'', vo_taskId = Some ''t1'',
     vo_now = ''2024-01-01T00:00:00.600Z'', vo_requireUserActor = True\<rparr>"

definition fx_question :: approval_request where
  "fx_question = request_of (fx_ask ClsPublishing) fx_workflow
     (resolveDisposition ClsPublishing Supervised DEFAULT_APPROVAL_CLASSES None) (key_of (fx_ask ClsPublishing) fx_workflow) []
     (Some ''2024-01-01T00:00:01.000Z'')"

definition fx_desk :: db where
  "fx_desk = fx_db Running PgRunning None"

lemma fx_desk_sel [simp]: "db_approvals fx_desk = []" "db_requests fx_desk = []" "db_workflows fx_desk = [fx_workflow]"
  "db_tasks fx_desk = [fx_task Running]" "db_audit fx_desk = []"
  by (simp_all add: fx_desk_def fx_db_def)

lemma fx_workflow_sel [simp]: "wf_id fx_workflow = ''w''" "wf_mode fx_workflow = Supervised" "wf_planRevision fx_workflow = 1"
  "wf_policyVersion fx_workflow = ''p1''" "t_id (fx_task st) = ''t1''" "t_revision (fx_task st) = 0"
  by (simp_all add: fx_workflow_def fx_task_def)

lemma fx_disposition: "di_decision (resolveDisposition ClsPublishing Supervised DEFAULT_APPROVAL_CLASSES None) = DecStop"
  by code_simp

lemma fx_expiry: "iso_plus ''2024-01-01T00:00:00.000Z'' 1000 = Some ''2024-01-01T00:00:01.000Z''"
  by code_simp

lemmas fx_approval_defs = store_write_def andThen_def fx_world_def fx_env_def newId_def getNow_def hashOf_def
  workflow_exists_def scope_exists_def writeAuditRow_def tbl_add_def

lemma fx_asks:
  "requestApproval (fx_ask ClsPublishing) (fx_world fx_desk) =
     (Inr \<lparr>qr_outcome = OutStop, qr_disposition = resolveDisposition ClsPublishing Supervised DEFAULT_APPROVAL_CLASSES None,
        qr_request = Some fx_question\<rparr>, (fx_world (fx_desk\<lparr>db_requests := [fx_question]\<rparr>))\<lparr>w_ids := 1\<rparr>)"
  by (simp add: requestApproval_def queueQuestion_def workflows.require_eq fx_approval_defs request_rows_def findPendingByKey_def
      request_insert_def expires_at_def fx_ask_def fx_disposition fx_expiry fx_question_def request_of_def
      Let_def asks_the_same_def)

definition fx_approval :: approval where
  "fx_approval = approval_of (fx_grant (ApUser ''ann'') ''2024-01-01T00:00:00.500Z'') fx_question ''i'' None"

definition fx_granted :: db where
  "fx_granted = fx_desk\<lparr>db_approvals := [fx_approval],
     db_requests := [resolved_by_grant (fx_grant (ApUser ''ann'') ''2024-01-01T00:00:00.500Z'') fx_approval fx_question],
     db_audit := [\<lparr>au_id = ''ii'', au_createdAt = ''t'', au_workflowId = Some ''w'', au_table = TbApproval, au_recordId = ''i'',
        au_operation = AuInsert, au_beforeHash = None, au_afterHash = ''h'', au_actor = ''e''\<rparr>]\<rparr>"

lemma fx_question_sel [simp]:
  "aq_requestId fx_question = []" "aq_status fx_question = RqPending" "aq_tier fx_question = TierHighRisk"
  "aq_workflowId fx_question = ''w''" "aq_scope fx_question = ScTask ''t1''" "aq_planRevision fx_question = 1"
  "aq_mode fx_question = Supervised" "aq_policyVersion fx_question = ''p1''" "aq_taskRevision fx_question = Some 0"
  "aq_expiresAt fx_question = Some ''2024-01-01T00:00:01.000Z''"
proof -
  have "cd_tier (approvalClassDefinition ClsPublishing) = TierHighRisk" by code_simp
  then show "aq_tier fx_question = TierHighRisk" by (simp add: fx_question_def request_of_def fx_ask_def)
qed (simp_all add: fx_question_def request_of_def fx_ask_def)

lemma fx_live: "\<not> ''2024-01-01T00:00:01.000Z'' \<le> (''2024-01-01T00:00:00.500Z'' :: string)"
  by code_simp

lemma fx_grants:
  "grantApproval (fx_grant (ApUser ''ann'') ''2024-01-01T00:00:00.500Z'')
     ((fx_world (fx_desk\<lparr>db_requests := [fx_question]\<rparr>))\<lparr>w_ids := 1\<rparr>) =
   (Inr (Granted fx_approval (resolved_by_grant (fx_grant (ApUser ''ann'') ''2024-01-01T00:00:00.500Z'') fx_approval fx_question)),
    (fx_world fx_granted)\<lparr>w_ids := 3, w_clock := 1\<rparr>)"
  by (simp add: grantApproval_def request_find_def requestStaleness_def fx_grant_def fx_live is_user_def expires_at_def
      approvals_insert_def repo_insert_def fx_approval_defs approval_normalise_def approval_of_def request_resolve_def
      fx_approval_def fx_granted_def resolved_by_grant_def approvalRepo_def tbl_put_def Let_def resolved_request_def)

lemma fx_desk_world_sel [simp]: "w_db (fx_world d) = d" "w_depth (fx_world d) = 0" "w_writable (fx_world d)"
  by (simp_all add: fx_world_def)

lemma fx_run: "desk_step\<^sup>*\<^sup>* fx_desk fx_granted"
proof -
  have "desk_step fx_desk (fx_desk\<lparr>db_requests := [fx_question]\<rparr>)"
    using desk_step.ask [OF fx_asks] by simp
  moreover have "desk_step (fx_desk\<lparr>db_requests := [fx_question]\<rparr>) fx_granted"
    using desk_step.grant [OF fx_grants] by simp
  ultimately show ?thesis by (meson converse_rtranclp_into_rtranclp rtranclp.rtrancl_refl)
qed

lemma grant_witness:
  "\<exists>q. aq_status q = RqPending \<and> requestStaleness q ''2024-01-01T00:00:00.500Z'' (fx_desk\<lparr>db_requests := [fx_question]\<rparr>) = None \<and>
     same_terms fx_approval q"
  using grant_answers_a_live_question [OF fx_grants] by (auto simp: fx_grant_def)

lemma every_approval_witness: "\<exists>rid q. request_find rid fx_granted = Some q \<and> aq_approvalId q = Some (ap_id fx_approval)"
  using every_approval_answers_a_question [OF fx_run, of fx_approval] by (auto simp: fx_granted_def)

lemma answered_question_witness:
  "fst (grantApproval (fx_grant (ApUser ''bob'') ''2024-01-01T00:00:00.700Z'') (fx_world fx_granted)) = Inr (Refused RequestNotPending)"
proof -
  have "request_find [] fx_granted = Some (resolved_by_grant (fx_grant (ApUser ''ann'') ''2024-01-01T00:00:00.500Z'') fx_approval fx_question)"
    by (simp add: request_find_def fx_granted_def resolved_by_grant_def)
  then show ?thesis
    using answered_question_is_closed [of "fx_grant (ApUser ''bob'') ''2024-01-01T00:00:00.700Z''" fx_granted _ "fx_world fx_granted"
      "fst (grantApproval (fx_grant (ApUser ''bob'') ''2024-01-01T00:00:00.700Z'') (fx_world fx_granted))"
      "snd (grantApproval (fx_grant (ApUser ''bob'') ''2024-01-01T00:00:00.700Z'') (fx_world fx_granted))"]
    by (simp add: resolved_by_grant_def fx_grant_def)
qed

lemma fx_granted_sel [simp]: "db_workflows fx_granted = [fx_workflow]" "db_tasks fx_granted = [fx_task Running]"
  "db_approvals fx_granted = [fx_approval]" "map au_id (db_audit fx_granted) = [''ii'']" "tbl_get au_id [] (db_audit fx_granted) = None"
  by (simp_all add: fx_granted_def)

lemma fx_approval_sel [simp]: "ap_id fx_approval = ''i''" "ap_workflowId fx_approval = ''w''" "ap_actor fx_approval = ApUser ''ann''"
  "ap_scope fx_approval = ScTask ''t1''" "ap_permittedAction fx_approval = ''publish:v1''" "ap_invalidation fx_approval = None"
  "ap_expiresAt fx_approval = None" "ap_planRevision fx_approval = 1" "ap_taskRevision fx_approval = Some 0"
  "ap_createdAt fx_approval = ''2024-01-01T00:00:00.500Z''"
  by (simp_all add: fx_approval_def approval_of_def fx_grant_def fx_question_def request_of_def fx_ask_def)

lemma fx_acts_now: "fst (isActionApproved fx_acts (fx_world fx_granted)) = Inr True" "snd (isActionApproved fx_acts (fx_world fx_granted)) = fx_world fx_granted"
  by (simp_all add: isActionApproved_def validApprovalsFor_def andThen_def workflows.require_eq fx_acts_def repo_query_def
      covers_act_def approvalInvalidReason_def is_user_def)

lemma approved_act_witness:
  "\<exists>ap :: approval. ap_permittedAction ap = ''publish:v1'' \<and> is_user (ap_actor ap) \<and> ap_scope ap = ScTask ''t1'' \<and> ap_taskRevision ap = Some 0"
proof -
  have "isActionApproved fx_acts (fx_world fx_granted) = (Inr True, fx_world fx_granted)"
    using fx_acts_now by (metis prod.collapse)
  from approved_act_was_asked_and_granted [OF this, of fx_desk] show ?thesis
    using fx_run by (auto simp: fx_acts_def)
qed

lemma approvalRepo_more: "rp_workflow approvalRepo = (\<lambda>r. Some (ap_workflowId r))" "rp_payload approvalRepo = PApproval"
  by (simp_all add: approvalRepo_def)

lemma fx_consumes:
  "\<exists>ap w1. consumeApproval ''i'' ''2024-01-01T00:00:01.000Z'' None (fx_world fx_granted) = (Inr ap, w1) \<and>
     map ap_id (db_approvals (w_db w1)) = [''i''] \<and> db_tasks (w_db w1) = [fx_task Running] \<and> db_workflows (w_db w1) = [fx_workflow]"
  by (simp add: consumeApproval_def approvals_invalidate_def approvals_update_def repo_update_def fx_approval_defs approvals.require_eq
      approval_beforeUpdate_def approvalRepo_more tbl_put_def Let_def)

lemma spent_approval_witness:
  "\<exists>ap w1 aps. consumeApproval ''i'' ''2024-01-01T00:00:01.000Z'' None (fx_world fx_granted) = (Inr ap, w1) \<and>
     validApprovalsFor fx_acts w1 = (Inr aps, w1) \<and> (\<forall>a \<in> set aps. ap_id a \<noteq> ''i'')"
proof -
  from fx_consumes obtain ap w1 where
    c: "consumeApproval ''i'' ''2024-01-01T00:00:01.000Z'' None (fx_world fx_granted) = (Inr ap, w1) \<and>
      map ap_id (db_approvals (w_db w1)) = [''i''] \<and> db_tasks (w_db w1) = [fx_task Running] \<and> db_workflows (w_db w1) = [fx_workflow]"
    by (elim exE)
  then have run: "consumeApproval ''i'' ''2024-01-01T00:00:01.000Z'' None (fx_world fx_granted) = (Inr ap, w1)"
    and ids: "map ap_id (db_approvals (w_db w1)) = [''i'']" "db_workflows (w_db w1) = [fx_workflow]" by blast+
  have "\<exists>aps. validApprovalsFor fx_acts w1 = (Inr aps, w1)"
    using ids(2) by (simp add: validApprovalsFor_def andThen_def workflows.require_eq fx_acts_def)
  then obtain aps where aps: "validApprovalsFor fx_acts w1 = (Inr aps, w1)" by blast
  have "tbl_ok ap_id (db_approvals (w_db w1))" using ids(1) by (simp add: tbl_ok_def)
  then have "ap_id a \<noteq> ''i''" if "a \<in> set aps" for a
    using spent_approval_covers_nothing [of "''i''" "''2024-01-01T00:00:01.000Z''" None "fx_world fx_granted" ap w1 w1 fx_acts aps w1 a]
      run aps that by auto
  then show ?thesis using run aps by blast
qed

lemma asking_witness:
  "\<exists>q. asks_the_same ''w'' (key_of (fx_ask ClsPublishing) fx_workflow) q \<and> aq_decision q = AskStop"
  using asking_leaves_one_question [OF fx_asks]
  by (auto simp: fx_ask_def)

text \<open>The parts of a key are joined unescaped: two acts on two tasks can be the same question.\<close>

lemma different_acts_same_key:
  "requestKeyFor ClsPublishing (ScTask ''t|a'') ''b'' None 1 ''p1'' Supervised =
   requestKeyFor ClsPublishing (ScTask ''t'') ''a|b'' None 1 ''p1'' Supervised"
  by code_simp

text \<open>An expired question that nobody swept is returned as the pending one, although no answer to it can be granted.\<close>

lemma fx_expired: "''2024-01-01T00:00:01.000Z'' \<le> (''2024-01-02T00:00:00.000Z'' :: string)"
  by code_simp

lemma expired_question_blocks_asking:
  "fst (requestApproval ((fx_ask ClsPublishing)\<lparr>qo_now := ''2024-01-02T00:00:00.000Z''\<rparr>) (fx_world (fx_desk\<lparr>db_requests := [fx_question]\<rparr>)))
     = Inr \<lparr>qr_outcome = OutAlreadyPending,
         qr_disposition = resolveDisposition ClsPublishing Supervised DEFAULT_APPROVAL_CLASSES None, qr_request = Some fx_question\<rparr>"
  "requestStaleness fx_question ''2024-01-02T00:00:00.000Z'' (fx_desk\<lparr>db_requests := [fx_question]\<rparr>) = Some RequestExpired"
proof -
  have "asks_the_same ''w'' (key_of ((fx_ask ClsPublishing)\<lparr>qo_now := ''2024-01-02T00:00:00.000Z''\<rparr>) fx_workflow) fx_question"
    by (simp add: asks_the_same_def key_of_def fx_question_def request_of_def fx_ask_def)
  then show "fst (requestApproval ((fx_ask ClsPublishing)\<lparr>qo_now := ''2024-01-02T00:00:00.000Z''\<rparr>)
        (fx_world (fx_desk\<lparr>db_requests := [fx_question]\<rparr>)))
     = Inr \<lparr>qr_outcome = OutAlreadyPending,
         qr_disposition = resolveDisposition ClsPublishing Supervised DEFAULT_APPROVAL_CLASSES None, qr_request = Some fx_question\<rparr>"
    by (simp add: requestApproval_def queueQuestion_def workflows.require_eq fx_approval_defs request_rows_def findPendingByKey_def
      fx_ask_def fx_disposition Let_def)
qed (simp add: requestStaleness_def fx_expired)

text \<open>A denied question is asked again: only the pending rows are looked at.\<close>

definition fx_denied :: approval_request where
  "fx_denied = resolved_request ''2024-01-01T00:00:00.500Z'' ResDenied ''user:ann'' None fx_question"

lemma denied_question_is_asked_again:
  "map_sum id qr_outcome (fst (requestApproval (fx_ask ClsPublishing)
     ((fx_world (fx_desk\<lparr>db_requests := [fx_denied]\<rparr>))\<lparr>w_ids := 1\<rparr>))) = Inr OutStop"
proof -
  have "\<not> asks_the_same ''w'' key fx_denied" for key
    by (simp add: asks_the_same_def fx_denied_def)
  moreover have "tbl_get aq_requestId ''i'' [fx_denied] = None"
    by (simp add: fx_denied_def)
  ultimately show ?thesis
    by (simp add: requestApproval_def queueQuestion_def workflows.require_eq fx_approval_defs request_rows_def findPendingByKey_def
      request_insert_def expires_at_def fx_ask_def fx_disposition fx_expiry request_of_def Let_def)
qed

text \<open>Revoking an approval leaves every question as it is.\<close>

lemma revoke_keeps_the_questions:
  assumes "revokeApproval i now detail w = (Inr ap, w')" shows "db_requests (w_db w') = db_requests (w_db w)"
  using spends_Inr [OF spends_ops(2) assms] by auto

text \<open>An approval does not carry the mode and the policy it was granted under: it covers the act after both moved.\<close>

lemma approval_outlives_mode_and_policy:
  "fst (isActionApproved fx_acts (fx_world (fx_granted\<lparr>db_workflows :=
     [fx_workflow\<lparr>wf_mode := Shadow, wf_policyVersion := ''p2''\<rparr>]\<rparr>))) = Inr True"
  by (simp add: isActionApproved_def validApprovalsFor_def andThen_def workflows.require_eq fx_acts_def repo_query_def
      covers_act_def approvalInvalidReason_def is_user_def)

text \<open>Of two configurable classes the first is named, not the more restrictive one.\<close>

lemma change_class_is_the_first:
  "po_changeClass (evaluatePolicyReview [ClsReadRepository, ClsRunShell] RiskLow ''p1'' [] 0 []) = ''read_repository''"
  "isMoreRestrictive (DEFAULT_APPROVAL_CLASSES ClsRunShell Supervised) (DEFAULT_APPROVAL_CLASSES ClsReadRepository Supervised)"
  by code_simp+

section \<open>Condition 3 only rises\<close>

text \<open>A change with a high-risk class, or on a high-risk task, always needs a human; the class named is then high risk.\<close>

lemma policy_review_needs_a_human:
  "po_humanApproval (evaluatePolicyReview classes risk policy sha taskRev reviewed) \<longleftrightarrow>
     (\<exists>c \<in> set classes. isHighRiskClass c) \<or> risk = RiskHigh"
  "c \<in> set classes \<Longrightarrow> isHighRiskClass c \<Longrightarrow>
     \<exists>h \<in> set classes. isHighRiskClass h \<and>
       po_changeClass (evaluatePolicyReview classes risk policy sha taskRev reviewed) = class_id h"
proof -
  show "po_humanApproval (evaluatePolicyReview classes risk policy sha taskRev reviewed) \<longleftrightarrow>
     (\<exists>c \<in> set classes. isHighRiskClass c) \<or> risk = RiskHigh"
    by (auto simp: evaluatePolicyReview_def Let_def filter_empty_conv)
  assume "c \<in> set classes" "isHighRiskClass c"
  then obtain h rest where h: "filter isHighRiskClass classes = h # rest"
    by (cases "filter isHighRiskClass classes") (auto simp: filter_empty_conv)
  then have "h \<in> set (filter isHighRiskClass classes)" by (simp only: h list.set_intros)
  then show "\<exists>h \<in> set classes. isHighRiskClass h \<and>
       po_changeClass (evaluatePolicyReview classes risk policy sha taskRev reviewed) = class_id h"
    unfolding set_filter using h
    by (intro bexI [of _ h]) (simp_all add: evaluatePolicyReview_def Let_def first_class_def)
qed

end
