(* ===== verification/Invalidation.thy ===== *)
theory Invalidation
  imports Blockers Approvals RunPhases
begin

text \<open>
  Approval invalidation at run time (\<open>src/workflow/invalidation.ts\<close>): one event makes approvals unusable, blocks the
  affected tasks and pauses the affected phases in one transaction, and a changed task gets a new revision.
  The two prose columns of the contract are not modelled.
\<close>

section \<open>The contract\<close>

datatype task_effect = BlocksTask | KeepsTaskUnlessRepeated

datatype phase_effect = PausesPhase | ByApprovalClass | KeepsPhaseUnlessRepeated

record invalidation_event =
  ie_event :: invalidation_reason
  ie_taskEffect :: task_effect
  ie_phaseEffect :: phase_effect

definition APPROVAL_INVALIDATION_EVENTS :: "invalidation_event list" where
  "APPROVAL_INVALIDATION_EVENTS =
    [\<lparr>ie_event = IrTaskRevisionChanged, ie_taskEffect = BlocksTask, ie_phaseEffect = PausesPhase\<rparr>,
     \<lparr>ie_event = IrPlanRevisionChanged, ie_taskEffect = BlocksTask, ie_phaseEffect = PausesPhase\<rparr>,
     \<lparr>ie_event = IrExpired, ie_taskEffect = BlocksTask, ie_phaseEffect = ByApprovalClass\<rparr>,
     \<lparr>ie_event = IrModeChanged, ie_taskEffect = BlocksTask, ie_phaseEffect = ByApprovalClass\<rparr>,
     \<lparr>ie_event = IrPolicyVersionChanged, ie_taskEffect = BlocksTask, ie_phaseEffect = ByApprovalClass\<rparr>,
     \<lparr>ie_event = IrRevoked, ie_taskEffect = BlocksTask, ie_phaseEffect = ByApprovalClass\<rparr>,
     \<lparr>ie_event = IrSessionReconciled, ie_taskEffect = BlocksTask, ie_phaseEffect = PausesPhase\<rparr>,
     \<lparr>ie_event = IrConsumed, ie_taskEffect = KeepsTaskUnlessRepeated, ie_phaseEffect = KeepsPhaseUnlessRepeated\<rparr>]"

text \<open>The row of an event; every reason has one, so the error for an unknown reason is never thrown.\<close>

definition invalidationContract :: "invalidation_reason \<Rightarrow> invalidation_event" where
  "invalidationContract reason = (case find (\<lambda>e. ie_event e = reason) APPROVAL_INVALIDATION_EVENTS of
     Some e \<Rightarrow> e | None \<Rightarrow> \<lparr>ie_event = reason, ie_taskEffect = BlocksTask, ie_phaseEffect = PausesPhase\<rparr>)"

primrec reason_text :: "invalidation_reason \<Rightarrow> string" where
  "reason_text IrTaskRevisionChanged = ''task_revision_changed''"
| "reason_text IrPlanRevisionChanged = ''plan_revision_changed''"
| "reason_text IrExpired = ''expired''"
| "reason_text IrModeChanged = ''mode_changed''"
| "reason_text IrPolicyVersionChanged = ''policy_version_changed''"
| "reason_text IrConsumed = ''consumed''"
| "reason_text IrRevoked = ''revoked''"
| "reason_text IrSessionReconciled = ''session_reconciled''"

datatype phase_disposition = QueueAndContinue | StopPhase

record invalidation_options =
  io_workflowId :: string
  io_reason :: invalidation_reason
  io_detail :: string
  io_actor :: transition_actor
  io_taskId :: "string option"
  io_phaseDisposition :: "phase_disposition option"

record invalidation_effect =
  fe_reason :: invalidation_reason
  fe_invalidatedApprovals :: "string list"
  fe_blockedTasks :: "string list"
  fe_pausedPhases :: "string list"
  fe_excludedEvidence :: "string list"
  fe_unchangedTerminal :: "string list"

section \<open>Approvals\<close>

text \<open>For a changed task: its own approvals, those of its phase, of the plan and of the workflow.\<close>

definition scope_touches :: "string \<Rightarrow> task option \<Rightarrow> approval_scope \<Rightarrow> bool" where
  "scope_touches tid task sc = (case sc of ScTask i \<Rightarrow> i = tid
     | ScPhase p \<Rightarrow> (case task of None \<Rightarrow> False | Some t \<Rightarrow> p = t_phaseId t) | _ \<Rightarrow> True)"

definition live_approvals :: "string \<Rightarrow> db \<Rightarrow> approval list" where
  "live_approvals wid d = filter (\<lambda>ap. ap_invalidation ap = None) (repo_query approvalRepo (\<lambda>ap. ap_workflowId ap = wid) d)"

definition affectedApprovals :: "invalidation_options \<Rightarrow> approval list io" where
  "affectedApprovals opts =
     andThen (getDb (live_approvals (io_workflowId opts))) (\<lambda>all.
       case io_taskId opts of
         Some tid \<Rightarrow>
           if io_reason opts = IrTaskRevisionChanged
           then andThen (repo_get taskRepo tid) (\<lambda>task. ret (filter (\<lambda>ap. scope_touches tid task (ap_scope ap)) all))
           else if io_reason opts = IrExpired
           then andThen getNow (\<lambda>ts. ret (filter (\<lambda>ap. case ap_expiresAt ap of None \<Rightarrow> False | Some x \<Rightarrow> x \<le> ts) all))
           else ret all
       | None \<Rightarrow>
           if io_reason opts = IrExpired
           then andThen getNow (\<lambda>ts. ret (filter (\<lambda>ap. case ap_expiresAt ap of None \<Rightarrow> False | Some x \<Rightarrow> x \<le> ts) all))
           else ret all)"

definition closeApproval :: "invalidation_options \<Rightarrow> iso_timestamp \<Rightarrow> approval \<Rightarrow> unit io" where
  "closeApproval opts ts ap = andThen (approvals_invalidate (ap_id ap)
     \<lparr>iv_reason = io_reason opts, iv_at = ts, iv_detail = Some (io_detail opts)\<rparr>) (\<lambda>_. ret ())"

definition invalidateAll :: "invalidation_options \<Rightarrow> iso_timestamp \<Rightarrow> approval list \<Rightarrow> unit io" where
  "invalidateAll opts ts aps = forEach aps (closeApproval opts ts)"

section \<open>Evidence\<close>

definition evidence_forTask :: "string \<Rightarrow> db \<Rightarrow> evidence list" where
  "evidence_forTask tid d = sort_key (\<lambda>e. (e_createdAt e, e_id e)) (filter (\<lambda>e. e_taskId e = tid) (db_evidence d))"

definition forTaskRevision :: "string \<Rightarrow> revision \<Rightarrow> db \<Rightarrow> evidence list" where
  "forTaskRevision tid r d =
     sort_key (\<lambda>e. (e_createdAt e, e_id e)) (filter (\<lambda>e. e_taskId e = tid \<and> e_taskRevision e = r) (db_evidence d))"

definition staleEvidenceIds :: "invalidation_options \<Rightarrow> db \<Rightarrow> string list" where
  "staleEvidenceIds opts d =
     concat (map (\<lambda>tid. case tbl_get t_id tid (db_tasks d) of None \<Rightarrow> []
         | Some t \<Rightarrow> map e_id (filter (\<lambda>e. e_taskRevision e \<noteq> t_revision t) (evidence_forTask tid d)))
       (case io_taskId opts of None \<Rightarrow> map t_id (tasks_findByWorkflow (io_workflowId opts) d) | Some tid \<Rightarrow> [tid]))"

definition evidenceForCurrentRevision :: "task \<Rightarrow> git_sha option \<Rightarrow> db \<Rightarrow> evidence list" where
  "evidenceForCurrentRevision task sha d =
     filter (\<lambda>e. case sha of None \<Rightarrow> True | Some g \<Rightarrow> e_revision e = g) (forTaskRevision (t_id task) (t_revision task) d)"

definition excludedEvidence :: "task \<Rightarrow> git_sha option \<Rightarrow> db \<Rightarrow> evidence list" where
  "excludedEvidence task sha d =
     filter (\<lambda>e. e_taskRevision e \<noteq> t_revision task \<or> (case sha of None \<Rightarrow> False | Some g \<Rightarrow> e_revision e \<noteq> g))
       (evidence_forTask (t_id task) d)"

section \<open>Tasks and phases\<close>

definition invalidation_blocker :: "invalidation_options \<Rightarrow> raise_options" where
  "invalidation_blocker opts = \<lparr>ro_actor = io_actor opts, ro_kind = ''approval_invalidated'',
     ro_detail = reason_text (io_reason opts) @ '': '' @ io_detail opts, ro_evidenceRefs = None\<rparr>"

definition engine_for :: "invalidation_options \<Rightarrow> transition_actor" where
  "engine_for opts = \<lparr>ta_kind = AkEngine, ta_identity = ta_identity (io_actor opts)\<rparr>"

definition invalidate_task_request :: "invalidation_options \<Rightarrow> string \<Rightarrow> task_status transition_request" where
  "invalidate_task_request opts tid = \<lparr>rq_subject = tid, rq_to = Known Blocked, rq_actor = engine_for opts,
     rq_trigger = ''approval_invalidated'', rq_guards = (\<lambda>pc. if pc = PcInvalidationApplies then Some (\<lambda>_. GTrue) else None),
     rq_evidenceRefs = [''invalidation:'' @ reason_text (io_reason opts)], rq_gitRevision = None, rq_expectedStatus = None,
     rq_expectedRevision = None, rq_blocker = None, rq_gateReceiptId = None\<rparr>"

definition blockTask :: "invalidation_options \<Rightarrow> task \<Rightarrow> unit io" where
  "blockTask opts task =
     andThen (insertBlocker (invalidation_blocker opts) SkTask (t_id task) (t_workflowId task)) (\<lambda>_.
       if t_status task = Blocked then ret ()
       else andThen (transitionTask (invalidate_task_request opts (t_id task))) (\<lambda>_. ret ()))"

text \<open>The tasks an event affects, and the task left alone because it is terminal.\<close>

definition invalidation_candidates :: "invalidation_options \<Rightarrow> db \<Rightarrow> task list \<times> string list" where
  "invalidation_candidates opts d =
     (case io_taskId opts of
        None \<Rightarrow> (nonterminalTasks (io_workflowId opts) d, [])
      | Some tid \<Rightarrow> (case tbl_get t_id tid (db_tasks d) of
            None \<Rightarrow> ([], [])
          | Some t \<Rightarrow> if t_status t = Done \<or> t_status t = Cancelled then ([], [t_id t]) else ([t], [])))"

definition blockAffectedTasks :: "invalidation_options \<Rightarrow> (string list \<times> string list) io" where
  "blockAffectedTasks opts =
     andThen (getDb (invalidation_candidates opts)) (\<lambda>(candidates, terminal).
     andThen (forEach candidates (blockTask opts)) (\<lambda>_. ret (map t_id candidates, terminal)))"

definition invalidate_phase_request :: "invalidation_options \<Rightarrow> string \<Rightarrow> phase_state transition_request" where
  "invalidate_phase_request opts pid = \<lparr>rq_subject = pid, rq_to = Known PhPaused, rq_actor = engine_for opts,
     rq_trigger = ''approval_invalidated'',
     rq_guards = (\<lambda>pc. if pc = PcInvalidationApplies \<or> pc = PcStopPhaseRequired then Some (\<lambda>_. GTrue) else None),
     rq_evidenceRefs = [''invalidation:'' @ reason_text (io_reason opts)], rq_gitRevision = None, rq_expectedStatus = None,
     rq_expectedRevision = None,
     rq_blocker = Some (ro_kind (invalidation_blocker opts), ro_detail (invalidation_blocker opts)), rq_gateReceiptId = None\<rparr>"

definition pauseOne :: "invalidation_options \<Rightarrow> phase \<Rightarrow> unit io" where
  "pauseOne opts phase =
     (if phaseLifecycleState (ph_gateStatus phase) = Some PhPaused
      then andThen (insertBlocker (invalidation_blocker opts) SkPhase (ph_id phase) (ph_workflowId phase)) (\<lambda>_. ret ())
      else andThen (transitionPhase (invalidate_phase_request opts (ph_id phase))) (\<lambda>_. ret ()))"

definition pause_candidates :: "invalidation_options \<Rightarrow> string list \<Rightarrow> db \<Rightarrow> phase list" where
  "pause_candidates opts blocked d =
     (let affected = map t_phaseId (List.map_filter (\<lambda>tid. tbl_get t_id tid (db_tasks d)) blocked) in
      if io_taskId opts = None \<and> affected = [] then nonterminalPhases (io_workflowId opts) d
      else filter (\<lambda>p. ph_id p \<in> set affected) (nonterminalPhases (io_workflowId opts) d))"

definition keeps_phases :: "invalidation_options \<Rightarrow> phase_effect \<Rightarrow> bool" where
  "keeps_phases opts e \<longleftrightarrow> e = KeepsPhaseUnlessRepeated \<or>
     (e = ByApprovalClass \<and> io_phaseDisposition opts = Some QueueAndContinue)"

definition pauseAffectedPhases :: "invalidation_options \<Rightarrow> invalidation_event \<Rightarrow> string list \<Rightarrow> string list io" where
  "pauseAffectedPhases opts contract blocked =
     (if keeps_phases opts (ie_phaseEffect contract) then ret []
      else andThen (getDb (pause_candidates opts blocked)) (\<lambda>candidates.
        andThen (forEach candidates (pauseOne opts)) (\<lambda>_. ret (map ph_id candidates))))"

section \<open>Applying an event\<close>

definition excluded_by :: "invalidation_options \<Rightarrow> db \<Rightarrow> string list" where
  "excluded_by opts d = (if io_reason opts = IrTaskRevisionChanged \<or> io_reason opts = IrPlanRevisionChanged
     then staleEvidenceIds opts d else [])"

text \<open>What follows once the approvals are closed: the affected tasks, then the phases that contain them.\<close>

definition stopAffected :: "invalidation_options \<Rightarrow> string list \<Rightarrow> string list \<Rightarrow> invalidation_effect io" where
  "stopAffected opts invalidated excluded =
     (let contract = invalidationContract (io_reason opts) in
       if ie_taskEffect contract = KeepsTaskUnlessRepeated
       then ret \<lparr>fe_reason = io_reason opts, fe_invalidatedApprovals = invalidated, fe_blockedTasks = [],
         fe_pausedPhases = [], fe_excludedEvidence = excluded, fe_unchangedTerminal = []\<rparr>
       else
         andThen (blockAffectedTasks opts) (\<lambda>(blocked, terminal).
         andThen (pauseAffectedPhases opts contract blocked) (\<lambda>paused.
         ret \<lparr>fe_reason = io_reason opts, fe_invalidatedApprovals = invalidated, fe_blockedTasks = blocked,
           fe_pausedPhases = paused, fe_excludedEvidence = excluded, fe_unchangedTerminal = terminal\<rparr>)))"

definition applyInvalidation :: "invalidation_options \<Rightarrow> invalidation_effect io" where
  "applyInvalidation opts = store_write (
     andThen getNow (\<lambda>ts.
     andThen (affectedApprovals opts) (\<lambda>aps.
     andThen (invalidateAll opts ts aps) (\<lambda>_.
     andThen (getDb (excluded_by opts)) (\<lambda>excluded. stopAffected opts (map ap_id aps) excluded)))))"

section \<open>Revising a task\<close>

record revise_patch =
  vp_goal :: "string option"
  vp_acceptanceCriteria :: "acceptance_criterion list option"
  vp_checks :: "check_definition list option"
  vp_ownership :: "ownership option"

record revise_options =
  vr_taskId :: string
  vr_patch :: revise_patch
  vr_actor :: transition_actor
  vr_detail :: string

text \<open>A field that does not differ is dropped; two values have the same canonical JSON exactly when they are equal.\<close>

definition changed :: "'a option \<Rightarrow> 'a \<Rightarrow> 'a option" where
  "changed v old = (case v of None \<Rightarrow> None | Some x \<Rightarrow> if x = old then None else Some x)"

definition effective_patch :: "revise_patch \<Rightarrow> task \<Rightarrow> task_patch" where
  "effective_patch p t = no_patch\<lparr>pt_goal := changed (vp_goal p) (t_goal t),
     pt_acceptanceCriteria := changed (vp_acceptanceCriteria p) (t_acceptanceCriteria t),
     pt_checks := changed (vp_checks p) (t_checks t), pt_ownership := changed (vp_ownership p) (t_ownership t)\<rparr>"

record revise_result =
  vs_task :: task
  vs_effect :: "invalidation_effect option"
  vs_revisionBumped :: bool

definition revise_invalidation :: "revise_options \<Rightarrow> task \<Rightarrow> invalidation_options" where
  "revise_invalidation opts t = \<lparr>io_workflowId = t_workflowId t, io_reason = IrTaskRevisionChanged, io_detail = vr_detail opts,
     io_actor = vr_actor opts, io_taskId = Some (t_id t), io_phaseDisposition = None\<rparr>"

definition reviseTask :: "revise_options \<Rightarrow> revise_result io" where
  "reviseTask opts = store_write (
     andThen (repo_require taskRepo (vr_taskId opts)) (\<lambda>before_task.
       let patch = effective_patch (vr_patch opts) before_task;
           definitionChanged = (pt_goal patch \<noteq> None \<or> pt_acceptanceCriteria patch \<noteq> None \<or> pt_checks patch \<noteq> None)
       in if \<not> definitionChanged \<and> pt_ownership patch = None
          then ret \<lparr>vs_task = before_task, vs_effect = None, vs_revisionBumped = False\<rparr>
          else andThen (tasks_update (vr_taskId opts)
              (if definitionChanged then patch\<lparr>pt_revision := Some (t_revision before_task + 1)\<rparr> else patch)) (\<lambda>task.
            andThen (applyInvalidation (revise_invalidation opts task)) (\<lambda>eff.
            ret \<lparr>vs_task = task, vs_effect = Some eff, vs_revisionBumped = definitionChanged\<rparr>))))"


section \<open>What one blocked task and one paused phase are\<close>

abbreviation invalidation_kind :: string where "invalidation_kind \<equiv> ''approval_invalidated''"

definition row_blocked :: "string \<Rightarrow> db \<Rightarrow> db \<Rightarrow> bool" where
  "row_blocked i d d' \<longleftrightarrow> (\<exists>t t'. tbl_get t_id i (db_tasks d) = Some t \<and> tbl_get t_id i (db_tasks d') = Some t' \<and>
     t' = t\<lparr>t_status := Blocked, t_blocker := t_blocker t', t_updatedAt := t_updatedAt t'\<rparr> \<and>
     invalidation_kind \<in> set (unresolvedKinds SkTask i d'))"

definition row_paused :: "string \<Rightarrow> db \<Rightarrow> db \<Rightarrow> bool" where
  "row_paused i d d' \<longleftrightarrow> (\<exists>p p'. tbl_get ph_id i (db_phases d) = Some p \<and> tbl_get ph_id i (db_phases d') = Some p' \<and>
     p' = p\<lparr>ph_gateStatus := ph_gateStatus p', ph_updatedAt := ph_updatedAt p'\<rparr> \<and>
     phaseLifecycleState (ph_gateStatus p') = Some PhPaused \<and> invalidation_kind \<in> set (unresolvedKinds SkPhase i d'))"

text \<open>What no step of an invalidation touches; blockers are only added.\<close>

definition side_frame :: "db \<Rightarrow> db \<Rightarrow> bool" where
  "side_frame d d' \<longleftrightarrow> db_attempts d' = db_attempts d \<and> db_receipts d' = db_receipts d \<and>
     db_decisions d' = db_decisions d \<and> db_evidence d' = db_evidence d \<and> db_requests d' = db_requests d \<and>
     db_workflows d' = db_workflows d \<and> (\<exists>bs. db_blockers d' = db_blockers d @ bs)"

lemma side_frame_trans: "side_frame a b \<Longrightarrow> side_frame b c \<Longrightarrow> side_frame a c"
  by (auto simp: side_frame_def)

lemma side_frame_refl [simp]: "side_frame d d"
  by (simp add: side_frame_def)

lemma side_frame_kinds:
  "side_frame d d' \<Longrightarrow> kind \<in> set (unresolvedKinds k i d) \<Longrightarrow> kind \<in> set (unresolvedKinds k i d')"
  by (auto simp: side_frame_def unresolvedKinds_iff)

lemma row_blocked_later:
  assumes "row_blocked i d d1" and "side_frame d1 d2" and "tbl_get t_id i (db_tasks d2) = tbl_get t_id i (db_tasks d1)"
  shows "row_blocked i d d2"
  using assms(1,3) side_frame_kinds [OF assms(2)] unfolding row_blocked_def by auto

lemma row_blocked_earlier:
  "row_blocked i d1 d2 \<Longrightarrow> tbl_get t_id i (db_tasks d1) = tbl_get t_id i (db_tasks d) \<Longrightarrow> row_blocked i d d2"
  unfolding row_blocked_def by simp

lemma row_paused_later:
  assumes "row_paused i d d1" and "side_frame d1 d2" and "tbl_get ph_id i (db_phases d2) = tbl_get ph_id i (db_phases d1)"
  shows "row_paused i d d2"
  using assms(1,3) side_frame_kinds [OF assms(2)] unfolding row_paused_def by auto

lemma row_paused_earlier:
  "row_paused i d1 d2 \<Longrightarrow> tbl_get ph_id i (db_phases d1) = tbl_get ph_id i (db_phases d) \<Longrightarrow> row_paused i d d2"
  unfolding row_paused_def by simp

lemma inserted_kind:
  assumes "insertBlocker opts k i wid w = (Inr b, w')"
  shows "ro_kind opts \<in> set (unresolvedKinds k i (w_db w'))"
  using insertBlocker_Inr [OF assms] by (auto simp: unresolvedKinds_iff)

lemma inserted_frame:
  assumes "insertBlocker opts k i wid w = (Inr b, w')"
  shows "side_frame (w_db w) (w_db w') \<and> db_tasks (w_db w') = db_tasks (w_db w) \<and>
     db_phases (w_db w') = db_phases (w_db w) \<and> db_approvals (w_db w') = db_approvals (w_db w)"
  using insertBlocker_Inr [OF assms] by (simp add: side_frame_def)

section \<open>One task\<close>

lemma invalidate_task_request_sel [simp]:
  "rq_to (invalidate_task_request opts i) = Known Blocked" "rq_subject (invalidate_task_request opts i) = i"
  "rq_blocker (invalidate_task_request opts i) = None"
  by (simp_all add: invalidate_task_request_def)

lemma invalidated_task_moved:
  assumes run: "transitionTask (invalidate_task_request opts i) w = (Inr res, w')"
    and kind: "invalidation_kind \<in> set (unresolvedKinds SkTask i (w_db w))"
  shows "row_blocked i (w_db w) (w_db w') \<and> side_frame (w_db w) (w_db w') \<and>
     (\<forall>j. j \<noteq> i \<longrightarrow> tbl_get t_id j (db_tasks (w_db w')) = tbl_get t_id j (db_tasks (w_db w))) \<and>
     db_phases (w_db w') = db_phases (w_db w) \<and> db_approvals (w_db w') = db_approvals (w_db w)"
proof -
  from transitionTask_Inr [OF run] obtain t edge ctx where
      acc: "task_accepted (invalidate_task_request opts i) (w_db w) t edge Blocked ctx"
    and wr: "task_written (invalidate_task_request opts i) (w_db w) t edge Blocked res (w_db w')"
    by (auto simp: task_accepted_def)
  have t: "tbl_get t_id i (db_tasks (w_db w)) = Some t" "t_id t = i"
    using acc by (auto simp: task_accepted_def dest: tbl_get_key)
  have frame: "side_frame (w_db w) (w_db w')" and put: "db_tasks (w_db w') = tbl_put t_id (re_subject res) (db_tasks (w_db w))"
    using wr by (simp_all add: task_written_def side_frame_def)
  from wr obtain ts where subject: "re_subject res = t\<lparr>t_status := Blocked,
      t_blocker := deriveBlockerField SkTask (t_id t) (w_db w'), t_updatedAt := ts\<rparr>"
    by (auto simp: task_written_def)
  have "tbl_get t_id i (db_tasks (w_db w')) = Some (re_subject res)"
    using t subject by (simp add: put tbl_get_put)
  then have "row_blocked i (w_db w) (w_db w')"
    using t(1) side_frame_kinds [OF frame kind] subject unfolding row_blocked_def
    by (intro exI [of _ t] exI [of _ "re_subject res"]) simp
  then show ?thesis
    using frame wr t(2) subject by (simp add: task_written_def tbl_get_put)
qed

lemma blockTask_effect:
  assumes "blockTask opts task w = (Inr u, w')" and "tbl_get t_id (t_id task) (db_tasks (w_db w)) = Some task"
  shows "row_blocked (t_id task) (w_db w) (w_db w') \<and> side_frame (w_db w) (w_db w') \<and>
     (\<forall>j. j \<noteq> t_id task \<longrightarrow> tbl_get t_id j (db_tasks (w_db w')) = tbl_get t_id j (db_tasks (w_db w))) \<and>
     db_phases (w_db w') = db_phases (w_db w) \<and> db_approvals (w_db w') = db_approvals (w_db w)"
proof -
  from assms(1) obtain b w1 where ins: "insertBlocker (invalidation_blocker opts) SkTask (t_id task) (t_workflowId task) w = (Inr b, w1)"
    and rest: "(if t_status task = Blocked then ret ()
       else andThen (transitionTask (invalidate_task_request opts (t_id task))) (\<lambda>_. ret ())) w1 = (Inr u, w')"
    by (auto simp: blockTask_def andThen_eq_Inr)
  have kind: "invalidation_kind \<in> set (unresolvedKinds SkTask (t_id task) (w_db w1))"
    using inserted_kind [OF ins] by (simp add: invalidation_blocker_def)
  note same = inserted_frame [OF ins]
  show ?thesis
  proof (cases "t_status task = Blocked")
    case True
    then have "w' = w1" using rest by simp
    then show ?thesis using same kind assms(2) True by (auto simp: row_blocked_def)
  next
    case False
    then obtain res where "transitionTask (invalidate_task_request opts (t_id task)) w1 = (Inr res, w')"
      using rest by (auto simp: andThen_eq_Inr)
    from invalidated_task_moved [OF this kind] show ?thesis
      using same side_frame_trans row_blocked_earlier by metis
  qed
qed

lemma block_each:
  assumes "forEach tasks (blockTask opts) w = (Inr u, w')" and "distinct (map t_id tasks)"
    and "\<forall>t \<in> set tasks. tbl_get t_id (t_id t) (db_tasks (w_db w)) = Some t"
  shows "(\<forall>t \<in> set tasks. row_blocked (t_id t) (w_db w) (w_db w')) \<and> side_frame (w_db w) (w_db w') \<and>
     (\<forall>j. j \<notin> set (map t_id tasks) \<longrightarrow> tbl_get t_id j (db_tasks (w_db w')) = tbl_get t_id j (db_tasks (w_db w))) \<and>
     db_phases (w_db w') = db_phases (w_db w) \<and> db_approvals (w_db w') = db_approvals (w_db w)"
  using assms
proof (induction tasks arbitrary: w)
  case (Cons t tasks)
  from Cons.prems(1) obtain w1 v where one: "blockTask opts t w = (Inr v, w1)"
    and others: "forEach tasks (blockTask opts) w1 = (Inr u, w')"
    by (auto simp: andThen_eq_Inr)
  have here: "tbl_get t_id (t_id t) (db_tasks (w_db w)) = Some t" using Cons.prems(3) by simp
  note A = blockTask_effect [OF one here]
  have fresh: "t_id t \<notin> set (map t_id tasks)" "distinct (map t_id tasks)" using Cons.prems(2) by simp_all
  have kept: "\<forall>s \<in> set tasks. tbl_get t_id (t_id s) (db_tasks (w_db w1)) = Some s"
    using A Cons.prems(3) fresh(1) by (metis image_eqI list.set_intros(2) set_map)
  note B = Cons.IH [OF others fresh(2) kept]
  have "row_blocked (t_id t) (w_db w) (w_db w')"
    using row_blocked_later [OF conjunct1 [OF A], of "w_db w'"] B fresh(1) by simp
  moreover have "row_blocked (t_id s) (w_db w) (w_db w')" if "s \<in> set tasks" for s
    using B that A fresh(1) row_blocked_earlier by (metis image_eqI set_map)
  ultimately show ?case using A B side_frame_trans by auto
qed simp


section \<open>One phase\<close>

lemma invalidate_phase_request_sel [simp]:
  "rq_to (invalidate_phase_request opts i) = Known PhPaused" "rq_subject (invalidate_phase_request opts i) = i"
  "rq_blocker (invalidate_phase_request opts i) = Some (invalidation_kind, ro_detail (invalidation_blocker opts))"
  by (simp_all add: invalidate_phase_request_def invalidation_blocker_def)

lemma invalidated_phase_moved:
  assumes run: "transitionPhase (invalidate_phase_request opts i) w = (Inr res, w')"
  shows "row_paused i (w_db w) (w_db w') \<and> side_frame (w_db w) (w_db w') \<and>
     (\<forall>j. j \<noteq> i \<longrightarrow> tbl_get ph_id j (db_phases (w_db w')) = tbl_get ph_id j (db_phases (w_db w))) \<and>
     db_tasks (w_db w') = db_tasks (w_db w) \<and> db_approvals (w_db w') = db_approvals (w_db w)"
proof -
  from transitionPhase_Inr [OF run] obtain p src edge ctx where
      acc: "phase_accepted (invalidate_phase_request opts i) (w_db w) p src edge PhPaused ctx"
    and wr: "phase_written (w_db w) p edge PhPaused res (w_db w')"
    by (auto simp: phase_accepted_def)
  have p: "tbl_get ph_id i (db_phases (w_db w)) = Some p" "ph_id p = i"
    using acc by (auto simp: phase_accepted_def dest: tbl_get_key)
  have edge: "edge \<in> set PHASE_TRANSITIONS" "tr_to edge = PhPaused"
    using acc by (simp_all add: phase_accepted_def)
  have kind: "invalidation_kind \<in> set (unresolvedKinds SkPhase i (w_db w'))"
    using transitionPhase_raises [OF run] by simp
  from wr obtain ts where subject: "re_subject res = p\<lparr>ph_gateStatus :=
        phaseGateStatusFor PhPaused edge (unresolvedKinds SkPhase (ph_id p) (w_db w')), ph_updatedAt := ts\<rparr>"
    and put: "db_phases (w_db w') = tbl_put ph_id (re_subject res) (db_phases (w_db w))"
    by (auto simp: phase_written_def)
  have "tbl_get ph_id i (db_phases (w_db w')) = Some (re_subject res)"
    using p subject by (simp add: put tbl_get_put)
  then have "row_paused i (w_db w) (w_db w')"
    using p(1) kind subject phaseGateStatusFor_state [OF edge] unfolding row_paused_def
    by (intro exI [of _ p] exI [of _ "re_subject res"]) simp
  then show ?thesis
    using wr put p(2) subject by (simp add: phase_written_def side_frame_def tbl_get_put)
qed

lemma pauseOne_effect:
  assumes "pauseOne opts phase w = (Inr u, w')" and "tbl_get ph_id (ph_id phase) (db_phases (w_db w)) = Some phase"
  shows "row_paused (ph_id phase) (w_db w) (w_db w') \<and> side_frame (w_db w) (w_db w') \<and>
     (\<forall>j. j \<noteq> ph_id phase \<longrightarrow> tbl_get ph_id j (db_phases (w_db w')) = tbl_get ph_id j (db_phases (w_db w))) \<and>
     db_tasks (w_db w') = db_tasks (w_db w) \<and> db_approvals (w_db w') = db_approvals (w_db w)"
proof (cases "phaseLifecycleState (ph_gateStatus phase) = Some PhPaused")
  case True
  then obtain b where ins: "insertBlocker (invalidation_blocker opts) SkPhase (ph_id phase) (ph_workflowId phase) w = (Inr b, w')"
    using assms(1) by (auto simp: pauseOne_def andThen_eq_Inr)
  show ?thesis
    using inserted_kind [OF ins] inserted_frame [OF ins] True assms(2) by (auto simp: row_paused_def invalidation_blocker_def)
next
  case False
  then obtain res where "transitionPhase (invalidate_phase_request opts (ph_id phase)) w = (Inr res, w')"
    using assms(1) by (auto simp: pauseOne_def andThen_eq_Inr)
  then show ?thesis by (rule invalidated_phase_moved)
qed

lemma pause_each:
  assumes "forEach phases (pauseOne opts) w = (Inr u, w')" and "distinct (map ph_id phases)"
    and "\<forall>p \<in> set phases. tbl_get ph_id (ph_id p) (db_phases (w_db w)) = Some p"
  shows "(\<forall>p \<in> set phases. row_paused (ph_id p) (w_db w) (w_db w')) \<and> side_frame (w_db w) (w_db w') \<and>
     (\<forall>j. j \<notin> set (map ph_id phases) \<longrightarrow> tbl_get ph_id j (db_phases (w_db w')) = tbl_get ph_id j (db_phases (w_db w))) \<and>
     db_tasks (w_db w') = db_tasks (w_db w) \<and> db_approvals (w_db w') = db_approvals (w_db w)"
  using assms
proof (induction phases arbitrary: w)
  case (Cons p phases)
  from Cons.prems(1) obtain w1 v where one: "pauseOne opts p w = (Inr v, w1)"
    and others: "forEach phases (pauseOne opts) w1 = (Inr u, w')"
    by (auto simp: andThen_eq_Inr)
  have here: "tbl_get ph_id (ph_id p) (db_phases (w_db w)) = Some p" using Cons.prems(3) by simp
  note A = pauseOne_effect [OF one here]
  have fresh: "ph_id p \<notin> set (map ph_id phases)" "distinct (map ph_id phases)" using Cons.prems(2) by simp_all
  have kept: "\<forall>s \<in> set phases. tbl_get ph_id (ph_id s) (db_phases (w_db w1)) = Some s"
    using A Cons.prems(3) fresh(1) by (metis image_eqI list.set_intros(2) set_map)
  note B = Cons.IH [OF others fresh(2) kept]
  have "row_paused (ph_id p) (w_db w) (w_db w')"
    using row_paused_later [OF conjunct1 [OF A], of "w_db w'"] B fresh(1) by simp
  moreover have "row_paused (ph_id s) (w_db w) (w_db w')" if "s \<in> set phases" for s
    using B that A fresh(1) row_paused_earlier by (metis image_eqI set_map)
  ultimately show ?case using A B side_frame_trans by auto
qed simp

section \<open>The approvals\<close>

definition closed_by :: "invalidation_options \<Rightarrow> string \<Rightarrow> db \<Rightarrow> db \<Rightarrow> bool" where
  "closed_by opts i d d' \<longleftrightarrow> (\<exists>a :: approval. \<exists>a' :: approval. \<exists>ts. tbl_get ap_id i (db_approvals d) = Some a \<and> ap_invalidation a = None \<and>
     tbl_get ap_id i (db_approvals d') = Some a' \<and> a' = a\<lparr>ap_invalidation := ap_invalidation a', ap_updatedAt := ap_updatedAt a'\<rparr> \<and>
     ap_invalidation a' = Some \<lparr>iv_reason = io_reason opts, iv_at = ts, iv_detail = Some (io_detail opts)\<rparr>)"

lemma closed_by_shift:
  "closed_by opts i d d' \<Longrightarrow> tbl_get ap_id i (db_approvals e) = tbl_get ap_id i (db_approvals d) \<Longrightarrow>
   tbl_get ap_id i (db_approvals e') = tbl_get ap_id i (db_approvals d') \<Longrightarrow> closed_by opts i e e'"
  by (simp add: closed_by_def)

lemma invalidate_one:
  assumes "closeApproval opts ts old w = (Inr u, w')" and i: "i = ap_id old"
  shows "closed_by opts i (w_db w) (w_db w') \<and> side_frame (w_db w) (w_db w') \<and>
     (\<forall>j. j \<noteq> i \<longrightarrow> tbl_get ap_id j (db_approvals (w_db w')) = tbl_get ap_id j (db_approvals (w_db w))) \<and>
     db_tasks (w_db w') = db_tasks (w_db w) \<and> db_phases (w_db w') = db_phases (w_db w)"
proof -
  from assms(1) obtain ap where
    run: "approvals_invalidate i \<lparr>iv_reason = io_reason opts, iv_at = ts, iv_detail = Some (io_detail opts)\<rparr> w = (Inr ap, w')"
    by (auto simp: closeApproval_def andThen_eq_Inr i)
  from approvals_invalidate_Inr [OF run] obtain a ts' row where a: "tbl_get ap_id i (db_approvals (w_db w)) = Some a" "ap_invalidation a = None"
    "ap = a\<lparr>ap_invalidation := Some \<lparr>iv_reason = io_reason opts, iv_at = ts, iv_detail = Some (io_detail opts)\<rparr>, ap_updatedAt := ts'\<rparr>"
    and db: "w_db w' = (w_db w)\<lparr>db_approvals := tbl_put ap_id ap (db_approvals (w_db w)), db_audit := db_audit (w_db w) @ [row]\<rparr>"
    by blast
  have "ap_id a = i" using a(1) by (rule tbl_get_key)
  then show ?thesis
    using a by (auto simp: db side_frame_def closed_by_def tbl_get_put)
qed

lemma invalidate_each:
  assumes "invalidateAll opts ts aps w = (Inr u, w')" and "distinct (map ap_id aps)"
  shows "(\<forall>a \<in> set aps. closed_by opts (ap_id a) (w_db w) (w_db w')) \<and> side_frame (w_db w) (w_db w') \<and>
     (\<forall>j. j \<notin> set (map ap_id aps) \<longrightarrow> tbl_get ap_id j (db_approvals (w_db w')) = tbl_get ap_id j (db_approvals (w_db w))) \<and>
     db_tasks (w_db w') = db_tasks (w_db w) \<and> db_phases (w_db w') = db_phases (w_db w)"
  using assms unfolding invalidateAll_def
proof (induction aps arbitrary: w)
  case (Cons a aps)
  from Cons.prems(1) obtain w1 v where
      one: "closeApproval opts ts a w = (Inr v, w1)" and others: "forEach aps (closeApproval opts ts) w1 = (Inr u, w')"
    by (auto simp: andThen_eq_Inr)
  note A = invalidate_one [OF one refl]
  have fresh: "ap_id a \<notin> set (map ap_id aps)" "distinct (map ap_id aps)" using Cons.prems(2) by simp_all
  note B = Cons.IH [OF others fresh(2)]
  have "closed_by opts (ap_id a) (w_db w) (w_db w')"
    using closed_by_shift [OF conjunct1 [OF A], of "w_db w" "w_db w'"] B fresh(1) by simp
  moreover have "closed_by opts (ap_id b) (w_db w) (w_db w')" if b: "b \<in> set aps" for b
  proof -
    have "ap_id b \<noteq> ap_id a" using b fresh(1) by (metis imageI set_map)
    then show ?thesis
      using closed_by_shift [of opts "ap_id b" "w_db w1" "w_db w'" "w_db w" "w_db w'"] A B b by simp
  qed
  ultimately show ?case using A B side_frame_trans by auto
qed simp


section \<open>Applying an event, as a whole\<close>

lemma found_rows:
  assumes "tbl_ok key rows" and "set xs \<subseteq> set rows"
  shows "\<forall>x \<in> set xs. tbl_get key (key x) rows = Some x"
  using assms tbl_ok_get by fastforce

text \<open>The approvals of the workflow an event other than an expiry is about.\<close>

definition concerned :: "invalidation_options \<Rightarrow> db \<Rightarrow> approval \<Rightarrow> bool" where
  "concerned opts d ap \<longleftrightarrow> (case io_taskId opts of None \<Rightarrow> True
     | Some tid \<Rightarrow> io_reason opts = IrTaskRevisionChanged \<longrightarrow> scope_touches tid (tbl_get t_id tid (db_tasks d)) (ap_scope ap))"

lemma live_approvals_rows: "tbl_ok ap_id (db_approvals d) \<Longrightarrow> distinct (map ap_id (filter P (live_approvals wid d)))"
  by (simp add: live_approvals_def repo_query_def approvalRepo_def tbl_ok_def distinct_map_filter distinct_map inj_on_def)

lemma affectedApprovals_Inr:
  assumes "affectedApprovals opts w = (Inr aps, w')"
  shows "w_db w' = w_db w \<and> (\<exists>P. aps = filter P (live_approvals (io_workflowId opts) (w_db w))) \<and>
    (io_reason opts \<noteq> IrExpired \<longrightarrow> aps = filter (concerned opts (w_db w)) (live_approvals (io_workflowId opts) (w_db w)))"
proof -
  have all: "\<exists>P. xs = filter P xs" for xs :: "approval list"
    by (rule exI [of _ "\<lambda>_. True"]) simp
  show ?thesis
    using assms by (auto simp: affectedApprovals_def andThen_eq_Inr getNow_def tasks.get_eq concerned_def [abs_def] all
        split: option.splits if_splits)
qed

lemma keeps_task_iff: "ie_taskEffect (invalidationContract r) = KeepsTaskUnlessRepeated \<longleftrightarrow> r = IrConsumed"
  by (cases r) (simp_all add: invalidationContract_def APPROVAL_INVALIDATION_EVENTS_def)

lemma candidates_rows:
  assumes "tbl_ok t_id (db_tasks d)" and "invalidation_candidates opts d = (ts, terminal)"
  shows "distinct (map t_id ts) \<and> set ts \<subseteq> set (db_tasks d)"
  using assms tbl_get_in [of t_id _ "db_tasks d"]
  by (auto simp: invalidation_candidates_def nonterminalTasks_def tasks_findByWorkflow_def repo_query_def taskRepo_def tbl_ok_def
      distinct_map_filter distinct_map inj_on_def split: option.splits if_splits)

lemma pause_candidates_rows:
  assumes "tbl_ok ph_id (db_phases d)"
  shows "distinct (map ph_id (pause_candidates opts blocked d)) \<and> set (pause_candidates opts blocked d) \<subseteq> set (db_phases d)"
  using assms
  by (auto simp: pause_candidates_def Let_def nonterminalPhases_def phases_forWorkflow_def repo_query_def phaseRepo_def tbl_ok_def
      distinct_map_filter distinct_map inj_on_def)


text \<open>What an applied event did, read off the database before and after it. The contract says which approvals an
  event is about without naming one for four reasons; an expiry, a revocation, a reconciliation and a consumption
  are about approvals of their own.\<close>

definition named_by_contract :: "invalidation_options \<Rightarrow> bool" where
  "named_by_contract opts \<longleftrightarrow> io_reason opts \<in> {IrPlanRevisionChanged, IrModeChanged, IrPolicyVersionChanged} \<or>
     (io_reason opts = IrTaskRevisionChanged \<and> io_taskId opts \<noteq> None)"

definition applied :: "invalidation_options \<Rightarrow> db \<Rightarrow> invalidation_effect \<Rightarrow> db \<Rightarrow> bool" where
  "applied opts d eff d' \<longleftrightarrow>
     (\<forall>i. if i \<in> set (fe_invalidatedApprovals eff) then closed_by opts i d d'
          else tbl_get ap_id i (db_approvals d') = tbl_get ap_id i (db_approvals d)) \<and>
     (\<forall>i. if i \<in> set (fe_blockedTasks eff) then row_blocked i d d'
          else tbl_get t_id i (db_tasks d') = tbl_get t_id i (db_tasks d)) \<and>
     (\<forall>i. if i \<in> set (fe_pausedPhases eff) then row_paused i d d'
          else tbl_get ph_id i (db_phases d') = tbl_get ph_id i (db_phases d)) \<and>
     side_frame d d' \<and>
     (named_by_contract opts \<longrightarrow>
        fe_invalidatedApprovals eff = map ap_id (filter (concerned opts d) (live_approvals (io_workflowId opts) d))) \<and>
     (if io_reason opts = IrConsumed then fe_blockedTasks eff = [] \<and> fe_pausedPhases eff = []
      else fe_blockedTasks eff = map t_id (fst (invalidation_candidates opts d)))"

lemma blockAffectedTasks_effect:
  assumes "blockAffectedTasks opts w = (Inr (blocked, terminal), w')" and "tbl_ok t_id (db_tasks (w_db w))"
  shows "blocked = map t_id (fst (invalidation_candidates opts (w_db w))) \<and>
     (\<forall>i. if i \<in> set blocked then row_blocked i (w_db w) (w_db w')
          else tbl_get t_id i (db_tasks (w_db w')) = tbl_get t_id i (db_tasks (w_db w))) \<and>
     side_frame (w_db w) (w_db w') \<and> db_phases (w_db w') = db_phases (w_db w) \<and> db_approvals (w_db w') = db_approvals (w_db w)"
proof -
  obtain ts terms where c: "invalidation_candidates opts (w_db w) = (ts, terms)" by force
  from assms(1) c obtain u where run: "forEach ts (blockTask opts) w = (Inr u, w')" and b: "blocked = map t_id ts"
    by (auto simp: blockAffectedTasks_def andThen_eq_Inr)
  note rows = candidates_rows [OF assms(2) c]
  show ?thesis
    using block_each [OF run conjunct1 [OF rows] found_rows [OF assms(2) conjunct2 [OF rows]]] b c by auto
qed

lemma pauseAffectedPhases_effect:
  assumes "pauseAffectedPhases opts contract blocked w = (Inr paused, w')" and "tbl_ok ph_id (db_phases (w_db w))"
  shows "(\<forall>i. if i \<in> set paused then row_paused i (w_db w) (w_db w')
          else tbl_get ph_id i (db_phases (w_db w')) = tbl_get ph_id i (db_phases (w_db w))) \<and>
     side_frame (w_db w) (w_db w') \<and> db_tasks (w_db w') = db_tasks (w_db w) \<and> db_approvals (w_db w') = db_approvals (w_db w)"
proof (cases "keeps_phases opts (ie_phaseEffect contract)")
  case True
  then show ?thesis using assms(1) by (simp add: pauseAffectedPhases_def)
next
  case False
  let ?ps = "pause_candidates opts blocked (w_db w)"
  from False assms(1) obtain u where run: "forEach ?ps (pauseOne opts) w = (Inr u, w')" and p: "paused = map ph_id ?ps"
    by (auto simp: pauseAffectedPhases_def andThen_eq_Inr)
  note rows = pause_candidates_rows [OF assms(2), of opts blocked]
  show ?thesis
    using pause_each [OF run conjunct1 [OF rows] found_rows [OF assms(2) conjunct2 [OF rows]]] p by auto
qed

lemma stopAffected_effect:
  assumes "stopAffected opts ids excluded w = (Inr eff, w')" and "tbl_ok t_id (db_tasks (w_db w))"
    and "tbl_ok ph_id (db_phases (w_db w))"
  shows "fe_invalidatedApprovals eff = ids \<and>
     (\<forall>i. if i \<in> set (fe_blockedTasks eff) then row_blocked i (w_db w) (w_db w')
          else tbl_get t_id i (db_tasks (w_db w')) = tbl_get t_id i (db_tasks (w_db w))) \<and>
     (\<forall>i. if i \<in> set (fe_pausedPhases eff) then row_paused i (w_db w) (w_db w')
          else tbl_get ph_id i (db_phases (w_db w')) = tbl_get ph_id i (db_phases (w_db w))) \<and>
     side_frame (w_db w) (w_db w') \<and> db_approvals (w_db w') = db_approvals (w_db w) \<and>
     (if io_reason opts = IrConsumed then fe_blockedTasks eff = [] \<and> fe_pausedPhases eff = []
      else fe_blockedTasks eff = map t_id (fst (invalidation_candidates opts (w_db w))))"
proof (cases "io_reason opts = IrConsumed")
  case True
  then show ?thesis using assms(1) by (auto simp: stopAffected_def Let_def keeps_task_iff)
next
  case False
  with assms(1) obtain blocked terminal paused w1 where
      blocks: "blockAffectedTasks opts w = (Inr (blocked, terminal), w1)"
    and pauses: "pauseAffectedPhases opts (invalidationContract (io_reason opts)) blocked w1 = (Inr paused, w')"
    and eff: "fe_invalidatedApprovals eff = ids" "fe_blockedTasks eff = blocked" "fe_pausedPhases eff = paused"
    by (auto simp: stopAffected_def Let_def keeps_task_iff andThen_eq_Inr)
  note A = blockAffectedTasks_effect [OF blocks assms(2)]
  have "tbl_ok ph_id (db_phases (w_db w1))" using A assms(3) by simp
  note B = pauseAffectedPhases_effect [OF pauses this]
  have later: "row_blocked i (w_db w) (w_db w')" if "row_blocked i (w_db w) (w_db w1)" for i
    using row_blocked_later [OF that] B by simp
  have earlier: "row_paused i (w_db w) (w_db w')" if "row_paused i (w_db w1) (w_db w')" for i
    using row_paused_earlier [OF that] A by simp
  show ?thesis
    using A B later earlier False side_frame_trans unfolding eff by (auto split: if_splits)
qed

lemma applyInvalidation_effect:
  assumes "applyInvalidation opts w = (Inr eff, w')" and "tbl_ok t_id (db_tasks (w_db w))"
    and "tbl_ok ph_id (db_phases (w_db w))" and "tbl_ok ap_id (db_approvals (w_db w))"
  shows "applied opts (w_db w) eff (w_db w')"
proof -
  from store_write_Inr_db [OF assms(1) [unfolded applyInvalidation_def]] obtain w1 w2 w3 ts aps u where
      affected: "affectedApprovals opts (w\<lparr>w_depth := Suc (w_depth w), w_clock := Suc (w_clock w)\<rparr>) = (Inr aps, w2)"
    and close: "invalidateAll opts ts aps w2 = (Inr u, w3)" and w': "w_db w' = w_db w1"
    and stop: "stopAffected opts (map ap_id aps) (excluded_by opts (w_db w3)) w3 = (Inr eff, w1)"
    by (auto simp: andThen_eq_Inr getNow_def)
  from affectedApprovals_Inr [OF affected] obtain P where w2: "w_db w2 = w_db w"
    and aps: "aps = filter P (live_approvals (io_workflowId opts) (w_db w))"
      "io_reason opts \<noteq> IrExpired \<longrightarrow> aps = filter (concerned opts (w_db w)) (live_approvals (io_workflowId opts) (w_db w))"
    by auto
  have "distinct (map ap_id aps)" using live_approvals_rows [OF assms(4)] aps(1) by simp
  note A = invalidate_each [OF close this, unfolded w2]
  have same: "db_tasks (w_db w3) = db_tasks (w_db w)" "db_phases (w_db w3) = db_phases (w_db w)"
      "side_frame (w_db w) (w_db w3)" using A by simp_all
  have "invalidation_candidates opts (w_db w3) = invalidation_candidates opts (w_db w)"
    by (simp add: same invalidation_candidates_def nonterminalTasks_def tasks_findByWorkflow_def repo_query_def taskRepo_def
        split: option.splits)
  note B = stopAffected_effect [OF stop, unfolded same this, OF assms(2,3)]
  have blocked: "row_blocked i (w_db w) (w_db w')" if "row_blocked i (w_db w3) (w_db w1)" for i
    using row_blocked_earlier [OF that] same w' by simp
  have paused: "row_paused i (w_db w) (w_db w')" if "row_paused i (w_db w3) (w_db w1)" for i
    using row_paused_earlier [OF that] same w' by simp
  have closed: "closed_by opts i (w_db w) (w_db w1)" if "closed_by opts i (w_db w) (w_db w3)" for i
    using closed_by_shift [OF that, of "w_db w" "w_db w1"] B by simp
  have "io_reason opts \<noteq> IrExpired" if "named_by_contract opts"
    using that by (auto simp: named_by_contract_def)
  then show ?thesis
    using A B aps(2) blocked paused closed side_frame_trans [OF same(3)] unfolding applied_def w'
    by (auto split: if_splits)
qed


lemma live_gone:
  assumes "applied opts d eff d'" and "named_by_contract opts" and "tbl_get ap_id i (db_approvals d') = Some a"
    and "ap_workflowId a = io_workflowId opts" and "concerned opts d a"
  shows "ap_invalidation a \<noteq> None"
proof (cases "i \<in> set (fe_invalidatedApprovals eff)")
  case True
  then have "closed_by opts i d d'" using assms(1) by (simp add: applied_def)
  then show ?thesis using assms(3) by (auto simp: closed_by_def)
next
  case False
  then have a: "tbl_get ap_id i (db_approvals d) = Some a" using assms(1,3) by (simp add: applied_def)
  have "a \<in> set (filter (concerned opts d) (live_approvals (io_workflowId opts) d))" if "ap_invalidation a = None"
    using tbl_get_in [OF a] that assms(4,5) by (simp add: live_approvals_def repo_query_def approvalRepo_def)
  then have "ap_id a \<in> set (fe_invalidatedApprovals eff)" if "ap_invalidation a = None"
    using that assms(1,2) by (simp add: applied_def)
  then show ?thesis
    using False tbl_get_key [OF a] by blast
qed

lemma none_at_work:
  assumes "applied opts d eff d'" and "io_reason opts \<noteq> IrConsumed" and "io_taskId opts = None"
    and "tbl_get t_id i (db_tasks d') = Some t" and "t_workflowId t = io_workflowId opts"
  shows "t_status t \<in> {Done, Cancelled, Blocked}"
proof (cases "i \<in> set (fe_blockedTasks eff)")
  case True
  then have "row_blocked i d d'" using assms(1) by (simp add: applied_def)
  then obtain t0 where "t = t0\<lparr>t_status := Blocked, t_blocker := t_blocker t, t_updatedAt := t_updatedAt t\<rparr>"
    using assms(4) by (auto simp: row_blocked_def)
  then have "t_status t = Blocked" by (metis task.select_convs(13) task.surjective task.update_convs)
  then show ?thesis by simp
next
  case False
  then have t: "tbl_get t_id i (db_tasks d) = Some t" using assms(1,4) by (simp add: applied_def)
  have "t \<in> set (nonterminalTasks (io_workflowId opts) d)" if "t_status t \<notin> set TASK_TERMINAL_STATES"
    using tbl_get_in [OF t] that assms(5)
    by (simp add: nonterminalTasks_def tasks_findByWorkflow_def repo_query_def taskRepo_def)
  then show ?thesis
    using False assms(1-3) tbl_get_key [OF t] by (auto simp: applied_def invalidation_candidates_def TASK_TERMINAL_STATES_def)
qed



section \<open>What a revision does\<close>

text \<open>The edit, in terms of the task before it.\<close>

definition new_definition :: "revise_patch \<Rightarrow> task \<Rightarrow> bool" where
  "new_definition p t \<longleftrightarrow> set_opt (vp_goal p) (t_goal t) \<noteq> t_goal t \<or>
     set_opt (vp_acceptanceCriteria p) (t_acceptanceCriteria t) \<noteq> t_acceptanceCriteria t \<or>
     set_opt (vp_checks p) (t_checks t) \<noteq> t_checks t"

definition edited :: "revise_patch \<Rightarrow> task \<Rightarrow> task" where
  "edited p t = t\<lparr>t_goal := set_opt (vp_goal p) (t_goal t),
     t_acceptanceCriteria := set_opt (vp_acceptanceCriteria p) (t_acceptanceCriteria t),
     t_checks := set_opt (vp_checks p) (t_checks t), t_ownership := set_opt (vp_ownership p) (t_ownership t),
     t_revision := (if new_definition p t then t_revision t + 1 else t_revision t)\<rparr>"

lemma set_opt_changed: "set_opt (changed v x) x = set_opt v x" "changed v x = None \<longleftrightarrow> set_opt v x = x"
  by (auto simp: changed_def split: option.splits)

lemma effective_patch_sel [simp]:
  "pt_goal (effective_patch p t) = changed (vp_goal p) (t_goal t)"
  "pt_acceptanceCriteria (effective_patch p t) = changed (vp_acceptanceCriteria p) (t_acceptanceCriteria t)"
  "pt_checks (effective_patch p t) = changed (vp_checks p) (t_checks t)"
  "pt_ownership (effective_patch p t) = changed (vp_ownership p) (t_ownership t)"
  by (simp_all add: effective_patch_def no_patch_def)

lemma changes_iff:
  "pt_goal (effective_patch p t) \<noteq> None \<or> pt_acceptanceCriteria (effective_patch p t) \<noteq> None \<or>
     pt_checks (effective_patch p t) \<noteq> None \<longleftrightarrow> new_definition p t"
  "pt_ownership (effective_patch p t) = None \<longleftrightarrow> set_opt (vp_ownership p) (t_ownership t) = t_ownership t"
  by (simp_all only: effective_patch_sel set_opt_changed new_definition_def)

lemma apply_effective:
  "apply_task_patch (if new_definition p t then (effective_patch p t)\<lparr>pt_revision := Some (t_revision t + 1)\<rparr>
     else effective_patch p t) t = edited p t"
  by (simp add: apply_task_patch_def edited_def effective_patch_def no_patch_def set_opt_changed)

lemma reviseTask_Inr:
  assumes "reviseTask opts w = (Inr res, w')"
  shows "\<exists>t. tbl_get t_id (vr_taskId opts) (db_tasks (w_db w)) = Some t \<and> vs_revisionBumped res = new_definition (vr_patch opts) t \<and>
     (if edited (vr_patch opts) t = t then w_db w' = w_db w \<and> vs_effect res = None
      else \<exists>ts row w1 w2 eff. w_db w1 = (w_db w)\<lparr>db_tasks := tbl_put t_id ((edited (vr_patch opts) t)\<lparr>t_updatedAt := ts\<rparr>) (db_tasks (w_db w)),
          db_audit := db_audit (w_db w) @ [row]\<rparr> \<and>
        applyInvalidation (revise_invalidation opts ((edited (vr_patch opts) t)\<lparr>t_updatedAt := ts\<rparr>)) w1 = (Inr eff, w2) \<and>
        vs_effect res = Some eff \<and> w_db w' = w_db w2)"
proof -
  let ?p = "vr_patch opts"
  from store_write_Inr_db [OF assms [unfolded reviseTask_def]] obtain t w1 where
      t: "tbl_get t_id (vr_taskId opts) (db_tasks (w_db w)) = Some t" and w': "w_db w' = w_db w1"
    and rest: "(if \<not> new_definition ?p t \<and> set_opt (vp_ownership ?p) (t_ownership t) = t_ownership t
          then ret \<lparr>vs_task = t, vs_effect = None, vs_revisionBumped = False\<rparr>
          else andThen (tasks_update (vr_taskId opts)
              (if new_definition ?p t then (effective_patch ?p t)\<lparr>pt_revision := Some (t_revision t + 1)\<rparr> else effective_patch ?p t)) (\<lambda>task.
            andThen (applyInvalidation (revise_invalidation opts task)) (\<lambda>eff.
            ret \<lparr>vs_task = task, vs_effect = Some eff, vs_revisionBumped = new_definition ?p t\<rparr>)))
       (w\<lparr>w_depth := Suc (w_depth w)\<rparr>) = (Inr res, w1)"
    unfolding Let_def changes_iff by (auto simp: andThen_eq_Inr tasks.require_eq split: option.splits)
  have same: "edited ?p t = t \<longleftrightarrow> \<not> new_definition ?p t \<and> set_opt (vp_ownership ?p) (t_ownership t) = t_ownership t"
    by (cases t) (auto simp: edited_def new_definition_def)
  show ?thesis
  proof (cases "edited ?p t = t")
    case True
    then show ?thesis using rest t w' same by auto
  next
    case False
    with rest same obtain task w2 w3 eff where
        upd: "tasks_update (vr_taskId opts) (if new_definition ?p t then (effective_patch ?p t)\<lparr>pt_revision := Some (t_revision t + 1)\<rparr>
            else effective_patch ?p t) (w\<lparr>w_depth := Suc (w_depth w)\<rparr>) = (Inr task, w2)"
      and inv: "applyInvalidation (revise_invalidation opts task) w2 = (Inr eff, w1)"
      and res: "vs_effect res = Some eff" "vs_revisionBumped res = new_definition ?p t"
      by (auto simp: andThen_eq_Inr)
    from upd show ?thesis
    proof (rule tasks_update_InrE, goal_cases)
      case (1 t0 ts row)
      then have "t0 = t" using t by simp
      then have "task = (edited ?p t)\<lparr>t_updatedAt := ts\<rparr>"
        using 1(2) by (simp only: apply_effective)
      with 1(3) inv res t False w' show ?case by auto
    qed
  qed
qed

lemma revised_row:
  fixes opts :: revise_options
  defines "edit t ts \<equiv> (edited (vr_patch opts) t)\<lparr>t_updatedAt := ts\<rparr>"
  assumes t: "tbl_get t_id (vr_taskId opts) (db_tasks d) = Some t"
    and d1: "d1 = d\<lparr>db_tasks := tbl_put t_id (edit t ts) (db_tasks d), db_audit := aud\<rparr>"
    and a: "applied (revise_invalidation opts (edit t ts)) d1 eff d'"
  shows "db_evidence d' = db_evidence d \<and>
     (\<exists>t'. tbl_get t_id (vr_taskId opts) (db_tasks d') = Some t' \<and>
          t' = (edited (vr_patch opts) t)\<lparr>t_status := t_status t', t_blocker := t_blocker t', t_updatedAt := t_updatedAt t'\<rparr> \<and>
          t_status t' = (if t_status t \<in> {Done, Cancelled} then t_status t else Blocked)) \<and>
     (\<forall>i (a :: approval). tbl_get ap_id i (db_approvals d') = Some a \<and> ap_workflowId a = t_workflowId t \<and>
           scope_touches (t_id t) (Some t) (ap_scope a) \<longrightarrow> ap_invalidation a \<noteq> None)"
proof -
  let ?o = "revise_invalidation opts (edit t ts)"
  have key: "t_id t = vr_taskId opts" using t by (rule tbl_get_key)
  have sel: "io_taskId ?o = Some (vr_taskId opts)" "io_reason ?o = IrTaskRevisionChanged" "io_workflowId ?o = t_workflowId t"
    by (simp_all add: revise_invalidation_def edit_def edited_def key)
  have row: "tbl_get t_id (vr_taskId opts) (db_tasks d1) = Some (edit t ts)"
    using t by (simp add: d1 tbl_get_put edit_def edited_def key)
  have status: "t_status (edit t ts) = t_status t" by (simp add: edit_def edited_def)
  have "concerned ?o d1 ap \<longleftrightarrow> scope_touches (t_id t) (Some t) (ap_scope ap)" for ap
  proof -
    have "t_phaseId (edit t ts) = t_phaseId t" by (simp add: edit_def edited_def)
    then show ?thesis
      unfolding concerned_def sel option.case row key by (simp add: scope_touches_def split: approval_scope.splits)
  qed
  then have gone: "ap_invalidation ap \<noteq> None" if "tbl_get ap_id i (db_approvals d') = Some ap" "ap_workflowId ap = t_workflowId t"
      "scope_touches (t_id t) (Some t) (ap_scope ap)" for i ap
    using live_gone [OF a, of i ap] that sel by (simp add: named_by_contract_def)
  have evidence: "db_evidence d' = db_evidence d" using a by (simp add: applied_def side_frame_def d1)
  have blocked: "fe_blockedTasks eff = (if t_status t \<in> {Done, Cancelled} then [] else [vr_taskId opts])"
    using a by (simp add: applied_def sel invalidation_candidates_def row status) (simp add: edit_def edited_def key)
  show ?thesis
  proof (cases "t_status t \<in> {Done, Cancelled}")
    case True
    then have "tbl_get t_id (vr_taskId opts) (db_tasks d') = Some (edit t ts)"
      using a blocked row by (simp add: applied_def)
    then show ?thesis using gone evidence True by (auto simp: edit_def edited_def)
  next
    case False
    then have "row_blocked (vr_taskId opts) d1 d'"
      using a blocked by (simp add: applied_def)
    then obtain t' where t': "tbl_get t_id (vr_taskId opts) (db_tasks d') = Some t'"
        "t' = (edit t ts)\<lparr>t_status := Blocked, t_blocker := t_blocker t', t_updatedAt := t_updatedAt t'\<rparr>"
      using row by (auto simp: row_blocked_def)
    have "t_status t' = Blocked" by (subst t'(2)) simp
    moreover have "t' = (edited (vr_patch opts) t)\<lparr>t_status := t_status t', t_blocker := t_blocker t', t_updatedAt := t_updatedAt t'\<rparr>"
      using t'(2) calculation by (simp add: edit_def)
    ultimately show ?thesis using gone evidence False t'(1) by auto
  qed
qed

text \<open>C27. Editing a task to what it already is changes nothing at all. Any other edit is stored; the revision
  goes up by one exactly when goal, criteria or checks really changed; an unfinished task is left
  blocked; no approval of the task, its phase, the plan or the workflow is live afterwards; the
  evidence stays.\<close>

theorem an_edit_voids_what_it_was_approved_for:
  assumes "reviseTask opts w = (Inr res, w')" and "tbl_ok t_id (db_tasks (w_db w))"
    and "tbl_ok ph_id (db_phases (w_db w))" and "tbl_ok ap_id (db_approvals (w_db w))"
  shows "\<exists>t. tbl_get t_id (vr_taskId opts) (db_tasks (w_db w)) = Some t \<and> vs_revisionBumped res = new_definition (vr_patch opts) t \<and>
     db_evidence (w_db w') = db_evidence (w_db w) \<and>
     (if edited (vr_patch opts) t = t then w_db w' = w_db w
      else (\<exists>t'. tbl_get t_id (vr_taskId opts) (db_tasks (w_db w')) = Some t' \<and>
          t' = (edited (vr_patch opts) t)\<lparr>t_status := t_status t', t_blocker := t_blocker t', t_updatedAt := t_updatedAt t'\<rparr> \<and>
          t_status t' = (if t_status t \<in> {Done, Cancelled} then t_status t else Blocked)) \<and>
        (\<forall>i (a :: approval). tbl_get ap_id i (db_approvals (w_db w')) = Some a \<and> ap_workflowId a = t_workflowId t \<and>
           scope_touches (t_id t) (Some t) (ap_scope a) \<longrightarrow> ap_invalidation a \<noteq> None))"
proof -
  from reviseTask_Inr [OF assms(1)] obtain t where t: "tbl_get t_id (vr_taskId opts) (db_tasks (w_db w)) = Some t"
    and bumped: "vs_revisionBumped res = new_definition (vr_patch opts) t"
    and step: "if edited (vr_patch opts) t = t then w_db w' = w_db w \<and> vs_effect res = None
      else \<exists>ts row w1 w2 eff. w_db w1 = (w_db w)\<lparr>db_tasks := tbl_put t_id ((edited (vr_patch opts) t)\<lparr>t_updatedAt := ts\<rparr>) (db_tasks (w_db w)),
          db_audit := db_audit (w_db w) @ [row]\<rparr> \<and>
        applyInvalidation (revise_invalidation opts ((edited (vr_patch opts) t)\<lparr>t_updatedAt := ts\<rparr>)) w1 = (Inr eff, w2) \<and>
        vs_effect res = Some eff \<and> w_db w' = w_db w2"
    by blast
  show ?thesis
  proof (cases "edited (vr_patch opts) t = t")
    case True
    then show ?thesis using t bumped step by auto
  next
    case False
    with step obtain ts row w1 w2 eff where w1: "w_db w1 = (w_db w)\<lparr>db_tasks := tbl_put t_id ((edited (vr_patch opts) t)\<lparr>t_updatedAt := ts\<rparr>) (db_tasks (w_db w)),
          db_audit := db_audit (w_db w) @ [row]\<rparr>"
      and inv: "applyInvalidation (revise_invalidation opts ((edited (vr_patch opts) t)\<lparr>t_updatedAt := ts\<rparr>)) w1 = (Inr eff, w2)"
      and w': "w_db w' = w_db w2"
      by auto
    have "applied (revise_invalidation opts ((edited (vr_patch opts) t)\<lparr>t_updatedAt := ts\<rparr>)) (w_db w1) eff (w_db w')"
      unfolding w' by (rule applyInvalidation_effect [OF inv]) (simp_all add: w1 assms(2-4) tbl_ok_put)
    note row = revised_row [OF t w1 this]
    show ?thesis
    proof (intro exI [of _ t] conjI t bumped, goal_cases)
      case 1
      show ?case using row by (rule conjunct1)
    next
      case 2
      show ?case unfolding if_not_P [OF False] using row by (rule conjunct2)
    qed
  qed
qed


section \<open>Evidence\<close>

text \<open>What a gate may count and what is set aside for it are the two halves of the task's evidence:
  nothing is counted twice or lost, and what counts was captured at the task's current revision and at
  the given commit.\<close>

theorem evidence_is_counted_or_excluded:
  "mset (evidenceForCurrentRevision task sha d) + mset (excludedEvidence task sha d) = mset (evidence_forTask (t_id task) d) \<and>
   (\<forall>e \<in> set (evidenceForCurrentRevision task sha d). e_taskId e = t_id task \<and> e_taskRevision e = t_revision task \<and>
      (sha = None \<or> sha = Some (e_revision e)))"
proof -
  let ?here = "\<lambda>e. e_taskRevision e = t_revision task \<and> (case sha of None \<Rightarrow> True | Some g \<Rightarrow> e_revision e = g)"
  let ?all = "filter_mset (\<lambda>e. e_taskId e = t_id task) (mset (db_evidence d))"
  have a: "mset (evidenceForCurrentRevision task sha d) = filter_mset ?here ?all"
    by (cases sha) (simp_all add: evidenceForCurrentRevision_def forTaskRevision_def filter_filter_mset conj_ac)
  have b: "mset (excludedEvidence task sha d) = filter_mset (\<lambda>e. \<not> ?here e) ?all"
    by (cases sha) (simp_all add: excludedEvidence_def evidence_forTask_def)
  have "mset (evidenceForCurrentRevision task sha d) + mset (excludedEvidence task sha d) = ?all"
    unfolding a b by (rule multiset_partition [symmetric])
  then show ?thesis
    by (auto simp: evidence_forTask_def evidenceForCurrentRevision_def forTaskRevision_def split: option.splits)
qed

section \<open>The other writers of approvals are steps of the desk\<close>

text \<open>
  Two more writers invalidate approvals. A revision of the plan voids every approval that is still
  live (\<open>invalidateApprovals\<close> of \<open>src/workflow/plan-store.ts\<close>), and an accepted scope change spends the
  approval it was made under (\<open>applyScopeChange\<close> of \<open>src/workflow/scope-change.ts\<close>); the rest of those two
  functions is not modelled.
\<close>

definition plan_void_reason :: "string list \<Rightarrow> approval \<Rightarrow> invalidation_reason" where
  "plan_void_reason changed_tasks ap =
     (case ap_scope ap of
        ScTask tid \<Rightarrow> if tid \<in> set changed_tasks then IrTaskRevisionChanged else IrPlanRevisionChanged
      | _ \<Rightarrow> IrPlanRevisionChanged)"

definition invalidateApprovals ::
  "string \<Rightarrow> iso_timestamp \<Rightarrow> nat \<Rightarrow> string list \<Rightarrow> string list \<Rightarrow> bool \<Rightarrow>
   (string \<times> invalidation_reason) list io"
where
  "invalidateApprovals wid now planRevision revisedTasks supersededTasks isRevision =
     (if \<not> isRevision then ret []
      else andThen (getDb (live_approvals wid)) (\<lambda>aps.
        let reason = plan_void_reason (revisedTasks @ supersededTasks) in
        andThen (forEach aps (\<lambda>ap. andThen (approvals_invalidate (ap_id ap)
           \<lparr>iv_reason = reason ap, iv_at = now, iv_detail = Some (''plan revision '' @ digits planRevision)\<rparr>)
           (\<lambda>_. ret ()))) (\<lambda>_.
        ret (map (\<lambda>ap. (ap_id ap, reason ap)) aps))))"

definition spendScopeApproval :: "string \<Rightarrow> string \<Rightarrow> unit io" where
  "spendScopeApproval approvalId permitted =
     andThen (repo_get approvalRepo approvalId) (\<lambda>after.
       case after of
         None \<Rightarrow> ret ()
       | Some ap \<Rightarrow>
           if ap_invalidation ap = None
           then andThen getNow (\<lambda>ts. andThen (approvals_invalidate approvalId
               \<lparr>iv_reason = IrConsumed, iv_at = ts, iv_detail = Some permitted\<rparr>) (\<lambda>_. ret ()))
           else ret ())"

text \<open>What a step from elsewhere may do; writes that touch neither approvals nor questions are such steps.\<close>

definition asks_nothing :: "db \<Rightarrow> db \<Rightarrow> bool" where
  "asks_nothing d d' \<longleftrightarrow> history_extends d d' \<and> no_new_grant d d' \<and> db_requests d' = db_requests d"

definition untouched :: "db \<Rightarrow> db \<Rightarrow> bool" where
  "untouched d d' \<longleftrightarrow> db_approvals d' = db_approvals d \<and> db_requests d' = db_requests d"

lemma same_grant_trans: "same_grant a b \<Longrightarrow> same_grant b c \<Longrightarrow> same_grant a c"
  by (simp add: same_grant_def)

lemma no_new_grant_trans:
  assumes "no_new_grant a b" "no_new_grant b c"
  shows "no_new_grant a c"
  using assms same_grant_trans unfolding no_new_grant_def by meson

interpretation quiet: db_relation asks_nothing
proof
  show "asks_nothing d d" for d
    by (auto simp: asks_nothing_def history_refl no_new_grant_def intro!: bexI)
  show "asks_nothing d1 d2 \<Longrightarrow> asks_nothing d2 d3 \<Longrightarrow> asks_nothing d1 d3" for d1 d2 d3
    using history_trans no_new_grant_trans unfolding asks_nothing_def by metis
qed

interpretation untouched: db_relation untouched
  by unfold_locales (simp_all add: untouched_def)

lemma quiet_untouched: "evolves history_extends m \<Longrightarrow> evolves untouched m \<Longrightarrow> evolves asks_nothing m"
  using same_approvals_no_new by (auto simp: evolves_def untouched_def asks_nothing_def same_approvals_def)

lemma untouched_audit: "evolves untouched (writeAuditRow tab i oper h0 h1 wid who)"
  unfolding writeAuditRow_def Let_def
  by (intro untouched.ev_rules untouched.ev_read) (auto simp: tbl_add_def untouched_def split: option.splits)

lemma quiet_audit: "evolves asks_nothing (writeAuditRow tab i oper h0 h1 wid who)"
  by (rule quiet_untouched [OF history_writeAuditRow untouched_audit])

lemma quiet_inserts:
  "evolves asks_nothing (transitionLog_insert ev)" "evolves asks_nothing (blocker_insert b)"
  "evolves asks_nothing (blocker_resolve i ts who detail)" "evolves asks_nothing (receipt_consume rid ts)"
proof -
  have "evolves untouched (transitionLog_insert ev)" "evolves untouched (blocker_insert b)"
      "evolves untouched (blocker_resolve i ts who detail)" "evolves untouched (receipt_consume rid ts)"
    unfolding transitionLog_insert_def blocker_insert_def blocker_resolve_def receipt_consume_def
    by (intro untouched.ev_read; auto simp: andThen_def Let_def untouched_def split: option.splits)+
  then show "evolves asks_nothing (transitionLog_insert ev)" "evolves asks_nothing (blocker_insert b)"
      "evolves asks_nothing (blocker_resolve i ts who detail)" "evolves asks_nothing (receipt_consume rid ts)"
    by (blast intro: quiet_untouched history_transitionLog_insert history_blocker_insert
        history_blocker_resolve history_receipt_consume)+
qed

lemma quiet_reads: "evolves asks_nothing (repo_require rp i)" "evolves asks_nothing (repo_get rp i)"
  unfolding repo_require_def repo_get_def by (intro quiet.ev_rules)+

lemma quiet_authoriseDone: "evolves asks_nothing (authoriseDone rid)"
  unfolding authoriseDone_def by (intro quiet.ev_rules quiet_reads quiet_inserts quiet.ev_modify) simp

lemma quiet_updates: "evolves asks_nothing (tasks_update i patch)" "evolves asks_nothing (phases_update i f)"
proof -
  have "evolves untouched (tasks_update i patch)"
    unfolding tasks_update_def
    by (intro untouched.ev_repo_update task_beforeUpdate_vets untouched_audit) (simp add: untouched_def)
  then show "evolves asks_nothing (tasks_update i patch)"
    by (rule quiet_untouched [OF history_tasks_update])
  have "evolves untouched (phases_update i f)"
    unfolding phases_update_def
    by (intro untouched.ev_repo_update untouched_audit) (simp_all add: untouched_def vetting_def)
  then show "evolves asks_nothing (phases_update i f)"
    by (rule quiet_untouched [OF history_phases_update])
qed

lemma quiet_approvals_invalidate: "evolves asks_nothing (approvals_invalidate i why)"
  unfolding approvals_invalidate_def approvals_update_def
proof (rule quiet.ev_repo_update [OF _ _ quiet_audit])
  show "vetting (approval_beforeUpdate False)"
    by (simp add: vetting_def approval_beforeUpdate_def)
next
  fix d r ts w w'
  assume r: "tbl_get (rp_id approvalRepo) i (rp_rows approvalRepo d) = Some r"
    and live: "approval_beforeUpdate False r (rp_touch approvalRepo ts (r\<lparr>ap_invalidation := Some why\<rparr>)) w =
      (Inr (rp_touch approvalRepo ts (r\<lparr>ap_invalidation := Some why\<rparr>)), w')"
  let ?r = "r\<lparr>ap_invalidation := Some why, ap_updatedAt := ts\<rparr>"
  have "ap_invalidation r = None"
    using live by (simp add: approval_beforeUpdate_def split: if_splits)
  then have "rows_move ap_id approval_step (db_approvals d) (tbl_put ap_id ?r (db_approvals d))"
    using r tbl_get_key [of ap_id i "db_approvals d" r]
    by (intro rows_move_put [where r = r]) (auto simp: approval_step_def)
  moreover have grant: "same_grant r ?r" "r \<in> set (db_approvals d)"
    using r tbl_get_in [of ap_id i "db_approvals d" r] by (simp_all add: same_grant_def)
  have "\<exists>a \<in> set (db_approvals d). same_grant a b" if "b \<in> set (tbl_put ap_id ?r (db_approvals d))" for b
    using tbl_put_set [OF that] grant same_grant_refl [of b] by metis
  then have "no_new_grant d (d\<lparr>db_approvals := tbl_put ap_id ?r (db_approvals d)\<rparr>)"
    by (simp add: no_new_grant_def)
  ultimately show "asks_nothing d (rp_set approvalRepo (tbl_put (rp_id approvalRepo)
      (rp_touch approvalRepo ts (r\<lparr>ap_invalidation := Some why\<rparr>)) (rp_rows approvalRepo d)) d)"
    by (simp add: asks_nothing_def history_extends_def rows_move_refl)
qed

text \<open>The transitions, built from these.\<close>

lemma quiet_prod: "(\<And>x y. evolves R (f x y)) \<Longrightarrow> evolves R (case p of (x, y) \<Rightarrow> f x y)"
  by (cases p) simp

lemma quiet_reject: "evolves asks_nothing (reject dr code failed)"
  unfolding reject_def buildEvent_def by (intro quiet.ev_rules)

lemma quiet_surface: "evolves asks_nothing (surface_refusal e)"
  unfolding surface_refusal_def flushRejection_def
  by (cases e) (auto intro!: quiet.ev_rules quiet_inserts)

lemmas quiet_primitives = quiet.ev_rules quiet_prod quiet_reads quiet_inserts quiet_updates quiet_authoriseDone
  quiet_reject quiet_surface quiet_approvals_invalidate

lemma quiet_commit_parts:
  "evolves asks_nothing (admitEdge edge rq stale dr)" "evolves asks_nothing (checkGuards pcs gs ctx dr)"
  "evolves asks_nothing (authoriseCompletion rq' dst dr)" "evolves asks_nothing (raiseRequestedBlocker rq k i wid)"
  "evolves asks_nothing (applyTaskBlockerSideEffects rq' task dst tedge)" "evolves asks_nothing (appendEvent dr)"
  "evolves asks_nothing (task_guard_context rq' task wkf bs)" "evolves asks_nothing (phase_guard_context prq phase wkf)"
  unfolding admitEdge_def checkGuards_def authoriseCompletion_def raiseRequestedBlocker_def
    applyTaskBlockerSideEffects_def resolve_one_def appendEvent_def buildEvent_def task_guard_context_def
    phase_guard_context_def Let_def
  by (intro quiet_primitives)+

lemma quiet_transitionTask: "evolves asks_nothing (transitionTask rq)"
proof -
  have "evolves asks_nothing (commitTaskEdge rq task wkf edge dr unres dst)" for task wkf edge dr unres dst
    unfolding commitTaskEdge_def Let_def by (intro quiet_primitives quiet_commit_parts)
  then have "evolves asks_nothing (taskEdgeFor rq task wkf dr unres)" for task wkf dr unres
    unfolding taskEdgeFor_def by (cases "rq_to rq") (auto intro!: quiet_primitives)
  then show ?thesis
    unfolding transitionTask_def evaluateTaskTransition_def by (intro quiet_primitives)
qed

lemma quiet_transitionPhase: "evolves asks_nothing (transitionPhase rq)"
proof -
  have "evolves asks_nothing (commitPhaseEdge rq phase wkf edge dr src dst)" for phase wkf edge dr src dst
    unfolding commitPhaseEdge_def Let_def by (intro quiet_primitives quiet_commit_parts)
  then have "evolves asks_nothing (phaseEdgeFor rq phase wkf dr src)" for phase wkf dr src
    unfolding phaseEdgeFor_def by (cases src; cases "rq_to rq") (auto intro!: quiet_primitives)
  then show ?thesis
    unfolding transitionPhase_def evaluatePhaseTransition_def Let_def by (intro quiet_primitives)
qed

lemma quiet_applyInvalidation: "evolves asks_nothing (applyInvalidation opts)"
proof -
  have "evolves asks_nothing (blockTask opts t)" "evolves asks_nothing (pauseOne opts p)"
      "evolves asks_nothing (closeApproval opts ts ap)" "evolves asks_nothing (affectedApprovals opts)" for t p ts ap
    unfolding blockTask_def pauseOne_def insertBlocker_def closeApproval_def affectedApprovals_def
    by (intro quiet_primitives quiet_transitionTask quiet_transitionPhase)+
  then show ?thesis
    unfolding applyInvalidation_def stopAffected_def blockAffectedTasks_def pauseAffectedPhases_def
      invalidateAll_def Let_def
    by (intro quiet_primitives)
qed

text \<open>Every one of these calls, at the top level or inside a transaction, is a step from elsewhere.\<close>

lemma quiet_desk_step: "evolves asks_nothing m \<Longrightarrow> m w = (r, w') \<Longrightarrow> desk_step (w_db w) (w_db w')"
  by (drule (1) evolvesD) (simp add: asks_nothing_def desk_step.elsewhere)

lemma quiet_writers:
  "evolves asks_nothing (reviseTask ropts)"
  "evolves asks_nothing (invalidateApprovals wid now n ts ss isRevision)"
  "evolves asks_nothing (spendScopeApproval i permitted)"
  unfolding reviseTask_def invalidateApprovals_def spendScopeApproval_def Let_def
  by (intro quiet_primitives quiet_applyInvalidation)+

lemma other_writers_are_desk_steps:
  "applyInvalidation opts w = (r1, w') \<Longrightarrow> desk_step (w_db w) (w_db w')"
  "reviseTask ropts w = (r2, w') \<Longrightarrow> desk_step (w_db w) (w_db w')"
  "invalidateApprovals wid now n ts ss isRevision w = (r3, w') \<Longrightarrow> desk_step (w_db w) (w_db w')"
  "spendScopeApproval i permitted w = (r4, w') \<Longrightarrow> desk_step (w_db w) (w_db w')"
  "transitionTask rq w = (r5, w') \<Longrightarrow> desk_step (w_db w) (w_db w')"
  "transitionPhase prq w = (r6, w') \<Longrightarrow> desk_step (w_db w) (w_db w')"
  by (erule quiet_desk_step [rotated]; rule quiet_applyInvalidation quiet_writers quiet_transitionTask quiet_transitionPhase)+

section \<open>Witnesses\<close>

definition fx_authorised :: db where
  "fx_authorised = (fx_db Running PgRunning None)\<lparr>db_approvals := [fx_approval]\<rparr>"

definition fx_mode_change :: invalidation_options where
  "fx_mode_change = \<lparr>io_workflowId = ''w'', io_reason = IrModeChanged, io_detail = ''gone'', io_actor = fx_engine, io_taskId = None,
     io_phaseDisposition = None\<rparr>"

definition fx_revision :: "string option \<Rightarrow> revise_options" where
  "fx_revision goal = \<lparr>vr_taskId = ''t1'', vr_patch = \<lparr>vp_goal = goal, vp_acceptanceCriteria = None, vp_checks = None, vp_ownership = None\<rparr>,
     vr_actor = fx_engine, vr_detail = ''edit''\<rparr>"

definition fx_sibling :: task where
  "fx_sibling = (fx_task Running)\<lparr>t_id := ''t2''\<rparr>"

definition fx_two_tasks :: db where
  "fx_two_tasks = (fx_db Running PgRunning None)\<lparr>db_tasks := [fx_task Running, fx_sibling],
     db_approvals := [fx_approval\<lparr>ap_scope := ScPhase ''p''\<rparr>]\<rparr>"

text \<open>The runs of the witnesses, evaluated together.\<close>

lemma fx_invalidation_runs:
  "(case fst (applyInvalidation fx_mode_change (fx_world fx_authorised)) of Inl _ \<Rightarrow> False
    | Inr eff \<Rightarrow> fe_invalidatedApprovals eff = [''i''] \<and> fe_blockedTasks eff = [''t1''] \<and> fe_pausedPhases eff = [''p'']) \<and>
   \<not> isl (fst (reviseTask (fx_revision (Some ''new'')) (fx_world fx_authorised))) \<and>
   (case reviseTask (fx_revision (Some ''new'')) (fx_world fx_two_tasks) of (Inl _, _) \<Rightarrow> False
    | (Inr res, w') \<Rightarrow> live_approvals ''w'' (w_db w') = [] \<and> map_option t_status (tbl_get t_id ''t2'' (db_tasks (w_db w'))) = Some Running)"
  by code_simp

lemma fx_authorised_sel [simp]:
  "db_tasks fx_authorised = [fx_task Running]" "db_phases fx_authorised = [fx_phase PgRunning]"
  "db_approvals fx_authorised = [fx_approval]"
  by (simp_all add: fx_authorised_def)

lemma fx_authorised_ok:
  "tbl_ok t_id (db_tasks fx_authorised)" "tbl_ok ph_id (db_phases fx_authorised)" "tbl_ok ap_id (db_approvals fx_authorised)"
  by (simp_all add: tbl_ok_def)


lemma edit_witness:
  "\<exists>res w'. reviseTask (fx_revision (Some ''new'')) (fx_world fx_authorised) = (Inr res, w') \<and> vs_revisionBumped res \<and>
     (\<exists>t. tbl_get t_id ''t1'' (db_tasks (w_db w')) = Some t \<and> t_status t = Blocked)"
proof -
  obtain res w' where run: "reviseTask (fx_revision (Some ''new'')) (fx_world fx_authorised) = (Inr res, w')"
    using accepted_run fx_invalidation_runs by blast
  have new: "new_definition (vr_patch (fx_revision (Some ''new''))) (fx_task Running)"
      "edited (vr_patch (fx_revision (Some ''new''))) (fx_task Running) \<noteq> fx_task Running"
    by code_simp+
  have get: "tbl_get t_id (vr_taskId (fx_revision (Some ''new''))) (db_tasks (w_db (fx_world fx_authorised))) = Some (fx_task Running)"
    by (simp add: fx_revision_def fx_task_def)
  from an_edit_voids_what_it_was_approved_for [OF run] fx_authorised_ok
  have "vs_revisionBumped res \<and> (\<exists>t. tbl_get t_id (vr_taskId (fx_revision (Some ''new''))) (db_tasks (w_db w')) = Some t \<and>
      t_status t = Blocked)"
    unfolding get using new by (auto simp: fx_task_def)
  then show ?thesis
    using run by (simp add: fx_revision_def)
qed

section \<open>Where code and documentation part\<close>

text \<open>Every event the contract names for single approvals closes all of them: an event \<open>consumed\<close> raised
  for one action's approval voids the approvals of every other action of the workflow.\<close>

lemma consumed_event_voids_the_others:
  assumes "io_reason opts = IrConsumed"
  shows "fst (affectedApprovals opts w) = Inr (live_approvals (io_workflowId opts) (w_db w))"
  using assms by (auto simp: affectedApprovals_def andThen_def split: option.splits)

text \<open>An approval of a phase is voided with a revised task, and a sibling task of that phase keeps running.\<close>

lemma sibling_keeps_running:
  "case reviseTask (fx_revision (Some ''new'')) (fx_world fx_two_tasks) of (Inl _, _) \<Rightarrow> False
   | (Inr res, w') \<Rightarrow> live_approvals ''w'' (w_db w') = [] \<and> map_option t_status (tbl_get t_id ''t2'' (db_tasks (w_db w'))) = Some Running"
  by (rule fx_invalidation_runs [THEN conjunct2, THEN conjunct2])

text \<open>The reason added to a task that is already blocked does not reach its blocker field, which keeps its old text.\<close>

lemma blocked_task_keeps_its_field:
  assumes "blockTask opts task w = (Inr u, w')" and "t_status task = Blocked"
  shows "db_tasks (w_db w') = db_tasks (w_db w)"
  using assms inserted_frame by (auto simp: blockTask_def andThen_eq_Inr)

end
