(* ===== verification/Routes.thy ===== *)
theory Routes
  imports StoreRecords JsText "HOL-Library.Multiset"
begin

text \<open>
  Routes to models (\<open>src/models/route.ts\<close>, \<open>availability.ts\<close>, \<open>catalog.ts\<close>): a route is a provider entry with
  a model under it; caps are kept per route; the catalog is what the registry, the session's scope and the
  allowlist leave. The hash function is a parameter.
\<close>

section \<open>Routes\<close>

record route =
  rt_routeId :: string
  rt_providerId :: string
  rt_modelId :: string
  rt_ref :: string

definition ROUTE_ID_PREFIX :: string where "ROUTE_ID_PREFIX = ''r1_''"

datatype route_error = EmptyProvider | EmptyModel

text \<open>The text that is hashed, and the id: the prefix with the first 32 hexadecimal digits.\<close>

definition route_key :: "string \<Rightarrow> string \<Rightarrow> string" where
  "route_key providerId modelId =
     digits (length providerId) @ '':'' @ providerId @ ''|'' @ digits (length modelId) @ '':'' @ modelId"

definition deriveRouteId :: "(string \<Rightarrow> string) \<Rightarrow> string \<Rightarrow> string \<Rightarrow> route_error + string" where
  "deriveRouteId sha256 providerId modelId =
     (if providerId = [] then Inl EmptyProvider
      else if modelId = [] then Inl EmptyModel
      else Inr (ROUTE_ID_PREFIX @ take 32 (sha256 (route_key providerId modelId))))"

definition toModelRef :: "string \<Rightarrow> string \<Rightarrow> string" where
  "toModelRef providerId modelId = providerId @ ''/'' @ modelId"

definition makeRoute :: "(string \<Rightarrow> string) \<Rightarrow> string \<Rightarrow> string \<Rightarrow> route_error + route" where
  "makeRoute sha256 providerId modelId = (case deriveRouteId sha256 providerId modelId of Inl e \<Rightarrow> Inl e
     | Inr rid \<Rightarrow> Inr \<lparr>rt_routeId = rid, rt_providerId = providerId, rt_modelId = modelId, rt_ref = toModelRef providerId modelId\<rparr>)"

text \<open>Every route the registry exposes, one per id, the first entry winning.\<close>

fun routesFrom :: "(string \<Rightarrow> string) \<Rightarrow> route list \<Rightarrow> (string \<times> string) list \<Rightarrow> route_error + route list" where
  "routesFrom sha256 seen [] = Inr seen"
| "routesFrom sha256 seen ((p, m) # rest) = (case makeRoute sha256 p m of Inl e \<Rightarrow> Inl e
     | Inr r \<Rightarrow> routesFrom sha256 (if tbl_get rt_routeId (rt_routeId r) seen = None then seen @ [r] else seen) rest)"

definition routesFromRegistry :: "(string \<Rightarrow> string) \<Rightarrow> (string \<times> string) list \<Rightarrow> route_error + route list" where
  "routesFromRegistry sha256 models = routesFrom sha256 [] models"

definition routesForModel :: "route list \<Rightarrow> string \<Rightarrow> route list" where
  "routesForModel routes modelId = filter (\<lambda>r. rt_modelId r = modelId) routes"

definition hasMultiRouteModels :: "route list \<Rightarrow> bool" where
  "hasMultiRouteModels routes = list_ex (\<lambda>r. length (routesForModel routes (rt_modelId r)) > 1) routes"

definition routeLabel :: "route \<Rightarrow> string" where
  "routeLabel r = rt_ref r @ '' ['' @ take 8 (drop (length ROUTE_ID_PREFIX) (rt_routeId r)) @ '']''"

section \<open>Availability\<close>

datatype cap_kind = CapQuota | CapRate | CapBudget | CapUnavailable | CapNone

datatype probe_result = ProbeAvailable | ProbeCapped | ProbeError

record probe =
  pb_at :: iso_timestamp
  pb_result :: probe_result
  pb_detail :: "string option"

record route_availability =
  ra_routeId :: string
  ra_providerId :: string
  ra_modelId :: string
  ra_capKind :: cap_kind
  ra_detectedAt :: "iso_timestamp option"
  ra_estimatedReset :: "iso_timestamp option"
  ra_lastProbe :: "probe option"

record cap_observation =
  co_capKind :: cap_kind
  co_at :: iso_timestamp
  co_estimatedReset :: "iso_timestamp option"
  co_detail :: "string option"

definition available_row :: "route \<Rightarrow> iso_timestamp option \<Rightarrow> route_availability" where
  "available_row r ts = \<lparr>ra_routeId = rt_routeId r, ra_providerId = rt_providerId r, ra_modelId = rt_modelId r, ra_capKind = CapNone,
     ra_detectedAt = None, ra_estimatedReset = None,
     ra_lastProbe = map_option (\<lambda>x. \<lparr>pb_at = x, pb_result = ProbeAvailable, pb_detail = None\<rparr>) ts\<rparr>"

text \<open>The table is a map from route ids in insertion order; setting a key that is there keeps its place.\<close>

definition rows_set :: "route_availability \<Rightarrow> route_availability list \<Rightarrow> route_availability list" where
  "rows_set row rows = (if tbl_get ra_routeId (ra_routeId row) rows = None then rows @ [row] else tbl_put ra_routeId row rows)"

definition fromRows :: "route_availability list \<Rightarrow> route_availability list" where
  "fromRows rows = foldl (\<lambda>t r. rows_set r t) [] rows"

definition markCapped :: "route \<Rightarrow> cap_observation \<Rightarrow> route_availability list \<Rightarrow> route_availability list" where
  "markCapped r cap rows = rows_set ((available_row r None)\<lparr>ra_capKind := co_capKind cap, ra_detectedAt := Some (co_at cap),
     ra_estimatedReset := co_estimatedReset cap,
     ra_lastProbe := Some \<lparr>pb_at = co_at cap, pb_result = ProbeCapped, pb_detail = co_detail cap\<rparr>\<rparr>) rows"

definition markAvailable :: "route \<Rightarrow> iso_timestamp \<Rightarrow> route_availability list \<Rightarrow> route_availability list" where
  "markAvailable r ts rows = rows_set (available_row r (Some ts)) rows"

definition isEligible :: "string \<Rightarrow> iso_timestamp \<Rightarrow> route_availability list \<Rightarrow> bool" where
  "isEligible routeId now rows = (case tbl_get ra_routeId routeId rows of None \<Rightarrow> True
     | Some row \<Rightarrow> if ra_capKind row = CapNone then True
         else (case ra_estimatedReset row of None \<Rightarrow> False | Some t \<Rightarrow> t \<le> now))"

text \<open>What is kept, and the ids dropped.\<close>

definition prune :: "string list \<Rightarrow> route_availability list \<Rightarrow> route_availability list \<times> string list" where
  "prune known rows = (filter (\<lambda>r. ra_routeId r \<in> set known) rows, map ra_routeId (filter (\<lambda>r. ra_routeId r \<notin> set known) rows))"

section \<open>Selecting a route\<close>

text \<open>The first place of a reference in the static order.\<close>

definition position :: "string list \<Rightarrow> string \<Rightarrow> nat" where
  "position order ref = length (takeWhile (\<lambda>x. x \<noteq> ref) order)"

definition by_static_order :: "('c \<Rightarrow> string) \<Rightarrow> string list \<Rightarrow> 'c list \<Rightarrow> 'c list" where
  "by_static_order ref order cs =
     sort_key (\<lambda>c. position order (ref c)) (filter (\<lambda>c. ref c \<in> set order) cs) @ filter (\<lambda>c. ref c \<notin> set order) cs"

definition rankRoutes :: "route list \<Rightarrow> string list \<Rightarrow> route list" where
  "rankRoutes candidates order = by_static_order rt_ref order candidates"

datatype route_selection = RouteSelected route nat | AllCapped "iso_timestamp option" | NoCandidates

fun first_eligible :: "(string \<Rightarrow> bool) \<Rightarrow> nat \<Rightarrow> route list \<Rightarrow> (route \<times> nat) option" where
  "first_eligible ok i [] = None"
| "first_eligible ok i (r # rs) = (if ok (rt_routeId r) then Some (r, i) else first_eligible ok (Suc i) rs)"

text \<open>The earliest reset on record among the routes.\<close>

definition earlier :: "iso_timestamp option \<Rightarrow> iso_timestamp option \<Rightarrow> iso_timestamp option" where
  "earlier earliest reset = (case reset of None \<Rightarrow> earliest
     | Some t \<Rightarrow> (case earliest of None \<Rightarrow> Some t | Some e \<Rightarrow> if t < e then Some t else Some e))"

definition reset_of :: "route_availability list \<Rightarrow> string \<Rightarrow> iso_timestamp option" where
  "reset_of rows routeId = (case tbl_get ra_routeId routeId rows of None \<Rightarrow> None | Some row \<Rightarrow> ra_estimatedReset row)"

definition earliest_reset :: "route_availability list \<Rightarrow> string list \<Rightarrow> iso_timestamp option" where
  "earliest_reset rows ids = foldl (\<lambda>e i. earlier e (reset_of rows i)) None ids"

definition selectRoute :: "route list \<Rightarrow> route_availability list \<Rightarrow> iso_timestamp \<Rightarrow> string list \<Rightarrow> route_selection" where
  "selectRoute candidates rows now order =
     (if candidates = [] then NoCandidates
      else let ranked = rankRoutes candidates order in
        (case first_eligible (\<lambda>i. isEligible i now rows) 0 ranked of
           Some (r, rank) \<Rightarrow> RouteSelected r rank
         | None \<Rightarrow> AllCapped (earliest_reset rows (map rt_routeId ranked))))"

section \<open>The catalog\<close>

record registry_cost =
  rc_input :: rat
  rc_output :: rat
  rc_cacheRead :: rat
  rc_cacheWrite :: rat

datatype modality = TextInput | ImageInput

record registry_model =
  rm_provider :: string
  rm_id :: string
  rm_name :: string
  rm_reasoning :: bool
  rm_thinkingLevelMap :: "(string \<times> string option) list option"
  rm_input :: "modality list"
  rm_contextWindow :: nat
  rm_maxTokens :: nat
  rm_cost :: registry_cost

record scoped_model =
  sm_model :: "string \<times> string"
  sm_thinkingLevel :: "string option"

record registry_snapshot =
  sn_available :: "registry_model list"
  sn_scoped :: "scoped_model list"
  sn_enabledModelsConfigured :: "bool option"

record model_allowlist =
  al_providers :: "string list"
  al_models :: "string list"
  al_pins :: "string \<rightharpoonup> string"

text \<open>\<open>None\<close> is \<open>unknown\<close>.\<close>

record catalog_entry =
  ce_id :: string
  ce_provider :: string
  ce_name :: string
  ce_routeId :: string
  ce_reasoning :: bool
  ce_thinkingLevelMap :: "(string \<times> string option) list option"
  ce_input :: "modality list"
  ce_contextWindow :: "nat option"
  ce_maxTokens :: "nat option"
  ce_cost :: "registry_cost option"
  ce_thinkingLevelCap :: "string option"

datatype exclusion_reason = NotScoped | ProviderNotAllowlisted | ModelNotAllowlisted | DisabledByOverride

record excluded_model =
  xm_id :: string
  xm_provider :: string
  xm_reason :: exclusion_reason

record catalog_config =
  cc_allowlist :: model_allowlist
  cc_overrides :: "string \<rightharpoonup> bool option"

definition model_ref :: "registry_model \<Rightarrow> string" where
  "model_ref m = rm_provider m @ ''/'' @ rm_id m"

definition isZeroCost :: "registry_cost \<Rightarrow> bool" where
  "isZeroCost c \<longleftrightarrow> rc_input c = 0 \<and> rc_output c = 0 \<and> rc_cacheRead c = 0 \<and> rc_cacheWrite c = 0"

definition providerAllowed :: "model_allowlist \<Rightarrow> string \<Rightarrow> bool" where
  "providerAllowed al p \<longleftrightarrow> al_providers al = [] \<or> p \<in> set (al_providers al)"

definition modelAllowed :: "model_allowlist \<Rightarrow> string \<Rightarrow> bool" where
  "modelAllowed al ref \<longleftrightarrow> al_models al = [] \<or> ref \<in> set (al_models al)"

text \<open>The scope: whether one is configured, and the last entry for a reference.\<close>

definition scope_configured :: "registry_snapshot \<Rightarrow> bool" where
  "scope_configured sn \<longleftrightarrow> sn_enabledModelsConfigured sn = Some True \<or> sn_scoped sn \<noteq> []"

definition scope_of :: "registry_snapshot \<Rightarrow> string \<Rightarrow> scoped_model option" where
  "scope_of sn ref = find (\<lambda>s. fst (sm_model s) @ ''/'' @ snd (sm_model s) = ref) (rev (sn_scoped sn))"

definition exclusion :: "registry_snapshot \<Rightarrow> catalog_config \<Rightarrow> registry_model \<Rightarrow> exclusion_reason option" where
  "exclusion sn cfg m =
     (if scope_configured sn \<and> scope_of sn (model_ref m) = None then Some NotScoped
      else if \<not> providerAllowed (cc_allowlist cfg) (rm_provider m) then Some ProviderNotAllowlisted
      else if \<not> modelAllowed (cc_allowlist cfg) (model_ref m) then Some ModelNotAllowlisted
      else if cc_overrides cfg (model_ref m) = Some (Some True) then Some DisabledByOverride
      else None)"

definition catalog_entry_of :: "registry_snapshot \<Rightarrow> registry_model \<Rightarrow> route \<Rightarrow> catalog_entry" where
  "catalog_entry_of sn m r = \<lparr>ce_id = model_ref m, ce_provider = rm_provider m, ce_name = rm_name m, ce_routeId = rt_routeId r,
     ce_reasoning = rm_reasoning m, ce_thinkingLevelMap = rm_thinkingLevelMap m, ce_input = rm_input m,
     ce_contextWindow = Some (rm_contextWindow m), ce_maxTokens = Some (rm_maxTokens m),
     ce_cost = (if isZeroCost (rm_cost m) then None else Some (rm_cost m)),
     ce_thinkingLevelCap = (case scope_of sn (model_ref m) of None \<Rightarrow> None | Some s \<Rightarrow> sm_thinkingLevel s)\<rparr>"

fun catalog_loop :: "(string \<Rightarrow> string) \<Rightarrow> registry_snapshot \<Rightarrow> catalog_config \<Rightarrow> registry_model list \<Rightarrow>
    route_error + (catalog_entry list \<times> excluded_model list)"
where
  "catalog_loop sha256 sn cfg [] = Inr ([], [])"
| "catalog_loop sha256 sn cfg (m # rest) =
     (case exclusion sn cfg m of
        Some why \<Rightarrow> map_sum id (\<lambda>(es, xs). (es, \<lparr>xm_id = model_ref m, xm_provider = rm_provider m, xm_reason = why\<rparr> # xs))
            (catalog_loop sha256 sn cfg rest)
      | None \<Rightarrow> (case makeRoute sha256 (rm_provider m) (rm_id m) of
            Inl e \<Rightarrow> Inl e
          | Inr r \<Rightarrow> map_sum id (\<lambda>(es, xs). (catalog_entry_of sn m r # es, xs)) (catalog_loop sha256 sn cfg rest)))"

definition buildCatalog :: "(string \<Rightarrow> string) \<Rightarrow> registry_snapshot \<Rightarrow> catalog_config \<Rightarrow>
    route_error + (catalog_entry list \<times> excluded_model list)" where
  "buildCatalog sha256 sn cfg = catalog_loop sha256 sn cfg (sn_available sn)"


section \<open>Route ids\<close>

lemma split_at_colon:
  assumes "xs @ CHR '':'' # ys = xs' @ CHR '':'' # ys'" and "CHR '':'' \<notin> set xs" and "CHR '':'' \<notin> set xs'"
  shows "xs = xs' \<and> ys = ys'"
  using assms by (induction xs arbitrary: xs') (auto simp: Cons_eq_append_conv append_eq_Cons_conv)

text \<open>The text hashed for a route determines the provider and the model.\<close>

theorem route_key_tells_routes_apart:
  "route_key p m = route_key p' m' \<longleftrightarrow> p = p' \<and> m = m'"
proof
  assume eq: "route_key p m = route_key p' m'"
  have a: "digits (length p) = digits (length p') \<and>
      p @ ''|'' @ digits (length m) @ '':'' @ m = p' @ ''|'' @ digits (length m') @ '':'' @ m'"
    using eq split_at_colon [OF _ digits_plain(3) digits_plain(3)] by (simp add: route_key_def)
  then have len: "length p = length p'" by (metis value_of_digits_digits)
  with a have p: "p = p'" and rest: "digits (length m) @ CHR '':'' # m = digits (length m') @ CHR '':'' # m'"
    by simp_all
  show "p = p' \<and> m = m'"
    using p split_at_colon [OF rest digits_plain(3) digits_plain(3)] by simp
qed simp

section \<open>Caps\<close>

lemma rows_set_get: "tbl_get ra_routeId i (rows_set row rows) = (if i = ra_routeId row then Some row else tbl_get ra_routeId i rows)"
  by (auto simp: rows_set_def tbl_get_put tbl_get_append split: option.splits)

lemma cap_is_of_one_route:
  "isEligible i now (markCapped r cap rows) =
     (if i = rt_routeId r then co_capKind cap = CapNone \<or> (\<exists>t. co_estimatedReset cap = Some t \<and> t \<le> now) else isEligible i now rows)"
  "isEligible i now (markAvailable r ts rows) = (i = rt_routeId r \<or> isEligible i now rows)"
  by (auto simp: isEligible_def markCapped_def markAvailable_def rows_set_get available_row_def split: option.splits)

lemma prune_forgets: "isEligible i now (fst (prune known rows)) = (i \<in> set known \<longrightarrow> isEligible i now rows)"
proof -
  have "tbl_get ra_routeId i (filter (\<lambda>r. ra_routeId r \<in> set known) rows) = (if i \<in> set known then tbl_get ra_routeId i rows else None)"
    by (induction rows) auto
  then show ?thesis by (auto simp: isEligible_def prune_def)
qed

section \<open>The order of routes\<close>

lemma mset_by_static_order: "mset (by_static_order ref order cs) = mset cs"
  using multiset_partition [of "mset cs" "\<lambda>c. ref c \<in> set order"] by (simp add: by_static_order_def)

lemma set_by_static_order [simp]: "set (by_static_order ref order cs) = set cs"
  by (auto simp: by_static_order_def)

lemma by_static_order_Nil [simp]: "by_static_order ref order cs = [] \<longleftrightarrow> cs = []"
  by (metis set_by_static_order set_empty)

lemma position_less: "position order r < length order \<longleftrightarrow> r \<in> set order"
  unfolding position_def by (induction order) auto

lemma position_absent: "r \<notin> set order \<Longrightarrow> position order r = length order"
  unfolding position_def by (induction order) auto

text \<open>The listed references come first in the order of the list, the others after them as given.\<close>

lemma by_static_order_sorted: "sorted (map (\<lambda>c. position order (ref c)) (by_static_order ref order cs))"
proof -
  have "position order (ref c) \<le> position order (ref c')" if "ref c \<in> set order" "ref c' \<notin> set order" for c c'
    using that position_less [of order "ref c"] position_absent [of "ref c'" order] by simp
  moreover have "sorted (map (\<lambda>c. position order (ref c)) (filter (\<lambda>c. ref c \<notin> set order) cs))"
    by (induction cs) (auto simp: position_absent)
  ultimately show ?thesis
    by (auto simp: by_static_order_def sorted_append)
qed

section \<open>Selecting a route\<close>

lemma first_eligible_Some:
  "first_eligible ok i rs = Some (r, k) \<Longrightarrow> \<exists>n. k = i + n \<and> n < length rs \<and> rs ! n = r \<and> ok (rt_routeId r) \<and>
     (\<forall>j < n. \<not> ok (rt_routeId (rs ! j)))"
proof (induction rs arbitrary: i)
  case (Cons x rs)
  show ?case
  proof (cases "ok (rt_routeId x)")
    case True
    then show ?thesis using Cons.prems by (intro exI [of _ 0]) simp
  next
    case False
    then have "first_eligible ok (Suc i) rs = Some (r, k)" using Cons.prems by simp
    from Cons.IH [OF this] obtain n where n: "k = Suc i + n" "n < length rs" "rs ! n = r" "ok (rt_routeId r)"
        "\<forall>j < n. \<not> ok (rt_routeId (rs ! j))" by blast
    then show ?thesis
      using False by (intro exI [of _ "Suc n"]) (auto simp: less_Suc_eq_0_disj)
  qed
qed simp

lemma first_eligible_None: "first_eligible ok i rs = None \<longleftrightarrow> (\<forall>r \<in> set rs. \<not> ok (rt_routeId r))"
  by (induction rs arbitrary: i) auto

text \<open>The least of the resets on record.\<close>

definition least_reset :: "route_availability list \<Rightarrow> string list \<Rightarrow> iso_timestamp option \<Rightarrow> bool" where
  "least_reset rows ids e \<longleftrightarrow> (case e of
     None \<Rightarrow> (\<forall>i \<in> set ids. reset_of rows i = None)
   | Some t \<Rightarrow> (\<exists>i \<in> set ids. reset_of rows i = Some t) \<and> (\<forall>i \<in> set ids. \<forall>t'. reset_of rows i = Some t' \<longrightarrow> t \<le> t'))"

lemma earliest_reset_least: "least_reset rows ids (earliest_reset rows ids)"
proof (induction ids rule: rev_induct)
  case (snoc i ids)
  then show ?case
    by (auto simp: least_reset_def earliest_reset_def earlier_def split: option.splits if_splits)
qed (simp add: least_reset_def earliest_reset_def)

section \<open>The catalog\<close>

lemma catalog_loop_Inr:
  assumes "catalog_loop sha256 sn cfg ms = Inr (es, xs)"
  shows "map ce_id es = map model_ref (filter (\<lambda>m. exclusion sn cfg m = None) ms) \<and>
     map xm_id xs = map model_ref (filter (\<lambda>m. exclusion sn cfg m \<noteq> None) ms) \<and>
     map (Some \<circ> xm_reason) xs = map (exclusion sn cfg) (filter (\<lambda>m. exclusion sn cfg m \<noteq> None) ms) \<and>
     map ce_provider es = map rm_provider (filter (\<lambda>m. exclusion sn cfg m = None) ms)"
  using assms
proof (induction ms arbitrary: es xs)
  case (Cons m ms)
  show ?case
  proof (cases "exclusion sn cfg m")
    case None
    with Cons.prems obtain r es' where "catalog_loop sha256 sn cfg ms = Inr (es', xs)" "es = catalog_entry_of sn m r # es'"
      by (cases "catalog_loop sha256 sn cfg ms") (auto split: sum.splits)
    then show ?thesis using Cons.IH None by (simp add: catalog_entry_of_def)
  next
    case (Some why)
    with Cons.prems obtain xs' where "catalog_loop sha256 sn cfg ms = Inr (es, xs')"
        "xs = \<lparr>xm_id = model_ref m, xm_provider = rm_provider m, xm_reason = why\<rparr> # xs'"
      by (cases "catalog_loop sha256 sn cfg ms") auto
    then show ?thesis using Cons.IH Some by simp
  qed
qed simp


text \<open>Every entry is built from a registry model that is not excluded, with that model's own route id.\<close>

lemma catalog_loop_entry:
  assumes "catalog_loop sha256 sn cfg ms = Inr (es, xs)" and "e \<in> set es"
  obtains m where "m \<in> set ms" "exclusion sn cfg m = None" "ce_id e = model_ref m"
    "deriveRouteId sha256 (rm_provider m) (rm_id m) = Inr (ce_routeId e)"
proof -
  have "\<exists>m \<in> set ms. exclusion sn cfg m = None \<and> ce_id e = model_ref m \<and>
      deriveRouteId sha256 (rm_provider m) (rm_id m) = Inr (ce_routeId e)"
    using assms
  proof (induction ms arbitrary: es xs)
    case (Cons m ms)
    show ?case
    proof (cases "exclusion sn cfg m")
      case None
      with Cons.prems obtain r es' where "makeRoute sha256 (rm_provider m) (rm_id m) = Inr r"
          "catalog_loop sha256 sn cfg ms = Inr (es', xs)" "es = catalog_entry_of sn m r # es'"
        by (cases "catalog_loop sha256 sn cfg ms") (auto split: sum.splits)
      then show ?thesis
        using Cons None by (auto simp: catalog_entry_of_def makeRoute_def split: sum.splits)
    next
      case (Some why)
      with Cons show ?thesis by (cases "catalog_loop sha256 sn cfg ms") auto
    qed
  qed simp
  then show thesis using that by blast
qed

text \<open>A route is open when no cap is on record for it, or one whose estimated reset has passed.\<close>

definition route_open :: "string \<Rightarrow> iso_timestamp \<Rightarrow> route_availability list \<Rightarrow> bool" where
  "route_open i ts rows \<longleftrightarrow>
     (case tbl_get ra_routeId i rows of
        None \<Rightarrow> True
      | Some row \<Rightarrow> ra_capKind row = CapNone \<or> (case ra_estimatedReset row of None \<Rightarrow> False | Some t \<Rightarrow> t \<le> ts))"

lemma eligible_open: "isEligible i ts rows = route_open i ts rows"
  by (auto simp: isEligible_def route_open_def split: option.splits)

definition route_selected :: "route list \<Rightarrow> route_availability list \<Rightarrow> iso_timestamp \<Rightarrow> string list \<Rightarrow> route_selection \<Rightarrow> bool" where
  "route_selected candidates rows now order sel \<longleftrightarrow>
     (case sel of
        NoCandidates \<Rightarrow> candidates = []
      | RouteSelected r k \<Rightarrow> k < length candidates \<and> rankRoutes candidates order ! k = r \<and> isEligible (rt_routeId r) now rows \<and>
          (\<forall>j < k. \<not> isEligible (rt_routeId (rankRoutes candidates order ! j)) now rows)
      | AllCapped e \<Rightarrow> candidates \<noteq> [] \<and> (\<forall>r \<in> set candidates. \<not> isEligible (rt_routeId r) now rows) \<and>
          least_reset rows (map rt_routeId candidates) e)"

lemma least_reset_cong: "set ids = set ids' \<Longrightarrow> least_reset rows ids e = least_reset rows ids' e"
  by (cases e) (simp_all add: least_reset_def)

text \<open>Selection takes the first open route in rank order, with every route ranked before it capped, and answers
  that all are capped exactly when none is open, with the least reset on record; the ranking is the given
  routes, those of the static order first.\<close>

theorem selectRoute_correct:
  "route_selected candidates rows now order (selectRoute candidates rows now order) \<and>
   mset (rankRoutes candidates order) = mset candidates \<and>
   sorted (map (\<lambda>r. position order (rt_ref r)) (rankRoutes candidates order))"
proof -
  let ?ranked = "rankRoutes candidates order"
  have m: "mset ?ranked = mset candidates" by (simp add: rankRoutes_def mset_by_static_order)
  then have len: "length ?ranked = length candidates" and elems: "set ?ranked = set candidates"
    by (metis size_mset, metis set_mset_mset)
  have "route_selected candidates rows now order (selectRoute candidates rows now order)"
  proof (cases "candidates = []")
    case True
    then show ?thesis by (simp add: selectRoute_def route_selected_def)
  next
    case False
    show ?thesis
    proof (cases "first_eligible (\<lambda>i. isEligible i now rows) 0 ?ranked")
      case None
      then have "selectRoute candidates rows now order = AllCapped (earliest_reset rows (map rt_routeId ?ranked))"
        using False by (simp add: selectRoute_def Let_def)
      moreover have "least_reset rows (map rt_routeId candidates) (earliest_reset rows (map rt_routeId ?ranked))"
        by (rule iffD1 [OF least_reset_cong earliest_reset_least]) (simp add: elems)
      ultimately show ?thesis
        using None False elems by (simp add: route_selected_def first_eligible_None)
    next
      case (Some rk)
      obtain r k where rk: "rk = (r, k)" by force
      show ?thesis
        using first_eligible_Some [OF Some [unfolded rk]] Some rk False len by (auto simp: selectRoute_def route_selected_def)
    qed
  qed
  then show ?thesis using m by (simp add: rankRoutes_def by_static_order_sorted)
qed

section \<open>The catalog, as a set of models\<close>

text \<open>A catalog that was built lists exactly the available models that are in scope, allowed by provider and by
  reference and not disabled, once per registry entry and in its order, and reports every other one with the
  first reason it fails for.\<close>

theorem catalog_is_the_intersection:
  assumes "buildCatalog sha256 sn cfg = Inr (es, xs)"
  shows "map ce_id es = map model_ref (filter (\<lambda>m. exclusion sn cfg m = None) (sn_available sn)) \<and>
     map xm_id xs = map model_ref (filter (\<lambda>m. exclusion sn cfg m \<noteq> None) (sn_available sn)) \<and>
     map (Some \<circ> xm_reason) xs = map (exclusion sn cfg) (filter (\<lambda>m. exclusion sn cfg m \<noteq> None) (sn_available sn)) \<and>
     length es + length xs = length (sn_available sn)"
proof -
  note A = catalog_loop_Inr [OF assms [unfolded buildCatalog_def]]
  then have "length es = length (filter (\<lambda>m. exclusion sn cfg m = None) (sn_available sn))"
      "length xs = length (filter (\<lambda>m. exclusion sn cfg m \<noteq> None) (sn_available sn))"
    by (metis length_map)+
  then show ?thesis
    using A sum_length_filter_compl [of "\<lambda>m. exclusion sn cfg m = None" "sn_available sn"] by simp
qed


section \<open>Witnesses\<close>

definition fx_hash :: "string \<Rightarrow> string" where
  "fx_hash s = s"

definition fx_model :: "string \<Rightarrow> string \<Rightarrow> registry_model" where
  "fx_model p i = \<lparr>rm_provider = p, rm_id = i, rm_name = i, rm_reasoning = False, rm_thinkingLevelMap = None, rm_input = [TextInput],
     rm_contextWindow = 1000, rm_maxTokens = 100, rm_cost = \<lparr>rc_input = 0, rc_output = 0, rc_cacheRead = 0, rc_cacheWrite = 0\<rparr>\<rparr>"

definition fx_snapshot :: registry_snapshot where
  "fx_snapshot = \<lparr>sn_available = [fx_model ''a'' ''m'', fx_model ''b'' ''m'', fx_model ''c'' ''n''], sn_scoped = [],
     sn_enabledModelsConfigured = None\<rparr>"

definition fx_catalog_config :: catalog_config where
  "fx_catalog_config = \<lparr>cc_allowlist = \<lparr>al_providers = [''a'', ''b''], al_models = [], al_pins = Map.empty\<rparr>, cc_overrides = Map.empty\<rparr>"

lemma fx_catalog_builds: "\<not> isl (buildCatalog fx_hash fx_snapshot fx_catalog_config)"
  by code_simp

lemma catalog_witness:
  "\<exists>es xs. buildCatalog fx_hash fx_snapshot fx_catalog_config = Inr (es, xs) \<and> map ce_id es = [''a/m'', ''b/m''] \<and> map xm_id xs = [''c/n'']"
proof -
  obtain es xs where run: "buildCatalog fx_hash fx_snapshot fx_catalog_config = Inr (es, xs)"
    using fx_catalog_builds by (cases "buildCatalog fx_hash fx_snapshot fx_catalog_config") auto
  from catalog_is_the_intersection [OF run] show ?thesis
    using run by (simp add: exclusion_def fx_snapshot_def fx_catalog_config_def fx_model_def scope_configured_def providerAllowed_def
        modelAllowed_def model_ref_def)
qed

end
