(* ===== verification/Selection.thy ===== *)
theory Selection
  imports Routes JsDate
begin

text \<open>
  Choosing a model (\<open>src/models/select.ts\<close>, \<open>pins.ts\<close>, \<open>fallback.ts\<close>): code computes the eligible set, a pin
  outranks every ranking, Jev ranks what is eligible, and every winner is checked against the allowlist, the
  eligible set and the budget. The answers of the ask layer, the budget check, the cost comparison and the
  ids of the decision recorder are parameters; the decisions recorded are returned.
\<close>

section \<open>Candidates\<close>

text \<open>A card is looked up, passed on to Jev and never inspected.\<close>

record 'card candidate =
  ca_ref :: string
  ca_routeId :: string
  ca_card :: 'card
  ca_entry :: catalog_entry

definition eligibleCandidates ::
  "catalog_entry list \<Rightarrow> (string \<rightharpoonup> 'card) \<Rightarrow> route_availability list \<Rightarrow> iso_timestamp \<Rightarrow> 'card candidate list"
where
  "eligibleCandidates entries cards rows now = List.map_filter (\<lambda>e.
     if \<not> isEligible (ce_routeId e) now rows then None
     else (case cards (ce_id e) of None \<Rightarrow> None
       | Some c \<Rightarrow> Some \<lparr>ca_ref = ce_id e, ca_routeId = ce_routeId e, ca_card = c, ca_entry = e\<rparr>)) entries"

section \<open>Jev's ranking\<close>

datatype answer_source = FromJev | FromFallback

record jev_answer =
  ja_value :: bool
  ja_source :: answer_source
  ja_decisionId :: "string option"

record 'card ranked_candidate =
  rk_candidate :: "'card candidate"
  rk_adequate :: bool
  rk_source :: answer_source
  rk_decisionId :: "string option"

text \<open>One answer per candidate, in the order asked; a missing answer counts as fallen back.\<close>

definition rank_one :: "'card candidate \<Rightarrow> jev_answer option \<Rightarrow> 'card ranked_candidate" where
  "rank_one c a = \<lparr>rk_candidate = c, rk_adequate = (case a of None \<Rightarrow> False | Some x \<Rightarrow> ja_value x),
     rk_source = (case a of None \<Rightarrow> FromFallback | Some x \<Rightarrow> ja_source x),
     rk_decisionId = (case a of None \<Rightarrow> None | Some x \<Rightarrow> ja_decisionId x)\<rparr>"

definition answer_at :: "jev_answer list \<Rightarrow> nat \<Rightarrow> jev_answer option" where
  "answer_at answers i = (if i < length answers then Some (answers ! i) else None)"

definition rankWithJev ::
  "('card candidate list \<Rightarrow> jev_answer list) \<Rightarrow> 'card candidate list \<Rightarrow> 'card ranked_candidate list \<times> bool"
where
  "rankWithJev askAll candidates =
     (let answers = askAll candidates;
          ranked = map (\<lambda>(i, c). rank_one c (answer_at answers i)) (enumerate 0 candidates)
      in (ranked, list_all (\<lambda>r. rk_source r = FromFallback) ranked))"

section \<open>Policy\<close>

datatype policy_rejection = NotInAllowlist | BudgetUnavailable | NotEligible

definition ref_provider :: "string \<Rightarrow> string" where
  "ref_provider ref = takeWhile (\<lambda>c. c \<noteq> CHR ''/'') ref"

definition inAllowlist :: "string \<Rightarrow> model_allowlist \<Rightarrow> bool" where
  "inAllowlist ref al \<longleftrightarrow>
     (al_providers al = [] \<or> ref_provider ref \<in> set (al_providers al)) \<and> (al_models al = [] \<or> ref \<in> set (al_models al))"

text \<open>\<open>None\<close> is accepted.\<close>

definition enforcePolicy ::
  "string \<Rightarrow> string list \<Rightarrow> model_allowlist \<Rightarrow> (string \<Rightarrow> bool) option \<Rightarrow> policy_rejection option"
where
  "enforcePolicy ref eligible al checkBudget =
     (if \<not> inAllowlist ref al then Some NotInAllowlist
      else if ref \<notin> set eligible then Some NotEligible
      else (case checkBudget of None \<Rightarrow> None | Some ok \<Rightarrow> if ok ref then None else Some BudgetUnavailable))"

section \<open>Pins\<close>

record pin_scopes =
  ps_task :: "string option"
  ps_phase :: "string option"
  ps_workflow :: "string option"
  ps_config :: "string option"

definition resolvePin :: "pin_scopes \<Rightarrow> (string \<rightharpoonup> string) \<Rightarrow> string \<Rightarrow> string option" where
  "resolvePin sc pins taskKind =
     (case ps_task sc of Some r \<Rightarrow> Some r | None \<Rightarrow>
      (case ps_phase sc of Some r \<Rightarrow> Some r | None \<Rightarrow>
       (case ps_workflow sc of Some r \<Rightarrow> Some r | None \<Rightarrow>
        (case ps_config sc of Some r \<Rightarrow> Some r | None \<Rightarrow>
         (case pins taskKind of Some r \<Rightarrow> Some r | None \<Rightarrow> pins ''default'')))))"

datatype ask_reason = AskCapped | AskNotEligible | AskPolicyRejected

datatype 'card pin_resolution =
    NoPin
  | Pinned string "'card candidate"
  | NeedsAsk string ask_reason "policy_rejection option"

definition applyPin ::
  "string option \<Rightarrow> 'card candidate list \<Rightarrow> model_allowlist \<Rightarrow> (string \<Rightarrow> bool) option \<Rightarrow> 'card pin_resolution"
where
  "applyPin pin candidates al checkBudget =
     (case pin of None \<Rightarrow> NoPin
      | Some ref \<Rightarrow> (case find (\<lambda>c. ca_ref c = ref) candidates of
            None \<Rightarrow> NeedsAsk ref AskCapped None
          | Some c \<Rightarrow> (case enforcePolicy ref (map ca_ref candidates) al checkBudget of
                Some why \<Rightarrow> NeedsAsk ref AskPolicyRejected (Some why)
              | None \<Rightarrow> Pinned ref c)))"

section \<open>Selecting\<close>

text \<open>What the recorder was given, in order; the id of a decision is the recorder's.\<close>

datatype selection_rule = RuleStatic | RulePin | RulePinBlocked ask_reason | RulePolicyRejected policy_rejection

type_synonym recorded = "selection_rule \<times> string"

datatype none_reason = NoneInadequate | NoneInsufficientInfo

datatype rationale = RatPin string | RatStatic | RatJev string

datatype selection_result =
    Selected string string "fallback_reason option" rationale "string option"
    \<comment> \<open>requested model, used model, fallback reason, rationale, decision id\<close>
  | NoneSelected none_reason "string option"
  | PinBlocked string ask_reason

record 'card select_params =
  se_askAll :: "('card candidate list \<Rightarrow> jev_answer list) option"
  se_candidates :: "'card candidate list"
  se_allowlist :: model_allowlist
  se_staticOrder :: "string list"
  se_checkBudget :: "(string \<Rightarrow> bool) option"
  se_recorder :: "(nat \<Rightarrow> string) option"
  se_pin :: "string option"

definition record_decision :: "(nat \<Rightarrow> string) option \<Rightarrow> recorded \<Rightarrow> recorded list \<Rightarrow> string option \<times> recorded list" where
  "record_decision recorder d ds = (case recorder of None \<Rightarrow> (None, ds) | Some next \<Rightarrow> (Some (next (length ds)), ds @ [d]))"

text \<open>The first candidate of the list that passes, and the rejections recorded on the way.\<close>

fun firstPolicyPassing ::
  "'card select_params \<Rightarrow> 'card candidate list \<Rightarrow> recorded list \<Rightarrow> 'card candidate option \<times> recorded list"
where
  "firstPolicyPassing p [] ds = (None, ds)"
| "firstPolicyPassing p (c # cs) ds =
     (case enforcePolicy (ca_ref c) (map ca_ref (se_candidates p)) (se_allowlist p) (se_checkBudget p) of
        None \<Rightarrow> (Some c, ds)
      | Some why \<Rightarrow> firstPolicyPassing p cs (snd (record_decision (se_recorder p) (RulePolicyRejected why, ca_ref c) ds)))"

definition orderByStatic :: "'card candidate list \<Rightarrow> string list \<Rightarrow> 'card candidate list" where
  "orderByStatic candidates order = by_static_order ca_ref order candidates"

definition runStatic :: "'card select_params \<Rightarrow> recorded list \<Rightarrow> selection_result \<times> recorded list" where
  "runStatic p ds =
     (case orderByStatic (se_candidates p) (se_staticOrder p) of
        [] \<Rightarrow> (NoneSelected NoneInsufficientInfo None, ds)
      | requested # rest \<Rightarrow>
          (case firstPolicyPassing p (requested # rest) ds of
             (None, ds') \<Rightarrow> (NoneSelected NoneInsufficientInfo None, ds')
           | (Some used, ds') \<Rightarrow>
               (case record_decision (se_recorder p) (RuleStatic, ca_ref used) ds' of
                  (i, ds'') \<Rightarrow> (Selected (ca_ref requested) (ca_ref used)
                    (if ca_ref used = ca_ref requested then None else Some FrStaticOrder) RatStatic i, ds''))))"

definition runJev :: "'card select_params \<Rightarrow> 'card ranked_candidate list \<Rightarrow> recorded list \<Rightarrow> selection_result \<times> recorded list" where
  "runJev p ranked ds =
     (case filter rk_adequate ranked of
        [] \<Rightarrow> (NoneSelected NoneInadequate None, ds)
      | best # others \<Rightarrow>
          (let adequate = best # others; requested = rk_candidate best in
           (case firstPolicyPassing p (map rk_candidate adequate) ds of
              (None, ds') \<Rightarrow> (NoneSelected NoneInadequate (rk_decisionId best), ds')
            | (Some used, ds') \<Rightarrow>
                (Selected (ca_ref requested) (ca_ref used)
                   (if ca_ref used = ca_ref requested then None else Some FrJevSubstitute) (RatJev (ca_ref used))
                   (case find (\<lambda>r. ca_ref (rk_candidate r) = ca_ref used) adequate of None \<Rightarrow> None | Some r \<Rightarrow> rk_decisionId r), ds'))))"

definition rankAndSelect :: "'card select_params \<Rightarrow> recorded list \<Rightarrow> selection_result \<times> recorded list" where
  "rankAndSelect p ds =
     (case se_askAll p of
        None \<Rightarrow> runStatic p ds
      | Some askAll \<Rightarrow>
          if se_candidates p = [] then runStatic p ds
          else (case rankWithJev askAll (se_candidates p) of
                  (ranked, allFellBack) \<Rightarrow> if allFellBack then runStatic p ds else runJev p ranked ds))"

definition selectModel :: "'card select_params \<Rightarrow> recorded list \<Rightarrow> selection_result \<times> recorded list" where
  "selectModel p ds =
     (case applyPin (se_pin p) (se_candidates p) (se_allowlist p) (se_checkBudget p) of
        Pinned ref c \<Rightarrow> (case record_decision (se_recorder p) (RulePin, ref) ds of
            (i, ds') \<Rightarrow> (Selected ref ref None (RatPin ref) i, ds'))
      | NeedsAsk ref why check \<Rightarrow> (PinBlocked ref why, snd (record_decision (se_recorder p) (RulePinBlocked why, ref) ds))
      | NoPin \<Rightarrow> rankAndSelect p ds)"

section \<open>Falling back\<close>

datatype dwell_policy = RemainderOfTask | RemainderOfPhase | DwellMinutes

record fallback_attempt =
  fa_requestedModel :: string
  fa_usedModel :: string
  fa_pin :: "string option"
  fa_fallbackSince :: "iso_timestamp option"

datatype pause_reason = PauseAllCapped | PauseNoAdequate | PausePinCapped | PausePreferWait

datatype fallback_decision =
    Unchanged
  | Switch string string "fallback_reason option" rationale "string option"
    \<comment> \<open>requested model, used model, reason, rationale, decision id\<close>
  | Pause pause_reason "iso_timestamp option" "string list"
    \<comment> \<open>reason, earliest reset, routes to watch\<close>

record 'card fallback_params =
  fp_askAll :: "('card candidate list \<Rightarrow> jev_answer list) option"
  fp_attempt :: fallback_attempt
  fp_candidates :: "'card candidate list"
  fp_availability :: "route_availability list"
  fp_now :: iso_timestamp
  fp_allowlist :: model_allowlist
  fp_staticOrder :: "string list"
  fp_dwell :: dwell_policy
  fp_dwellMinutes :: rat
  fp_preferWait :: rat
  fp_checkBudget :: "(string \<Rightarrow> bool) option"
  fp_costOf :: "(string \<Rightarrow> rat option) option"
  fp_recorder :: "(nat \<Rightarrow> string) option"
  fp_atTaskBoundary :: bool

primrec fallbackReasonFromCap :: "cap_kind \<Rightarrow> fallback_reason option" where
  "fallbackReasonFromCap CapQuota = Some FrQuotaExhausted"
| "fallbackReasonFromCap CapRate = Some FrRateLimited"
| "fallbackReasonFromCap CapBudget = Some FrBudgetCap"
| "fallbackReasonFromCap CapUnavailable = Some FrModelUnavailable"
| "fallbackReasonFromCap CapNone = None"

text \<open>A comparison with a time that does not parse is false.\<close>

definition inDwell :: "fallback_attempt \<Rightarrow> dwell_policy \<Rightarrow> rat \<Rightarrow> iso_timestamp \<Rightarrow> bool \<Rightarrow> bool" where
  "inDwell attempt dwell minutes now boundary =
     (case fa_fallbackSince attempt of None \<Rightarrow> False
      | Some since \<Rightarrow> (case dwell of
            DwellMinutes \<Rightarrow> (case (parseIso since, parseIso now) of
                (Some a, Some b) \<Rightarrow> of_int b < of_int a + minutes * 60000 | _ \<Rightarrow> False)
          | RemainderOfTask \<Rightarrow> \<not> boundary
          | RemainderOfPhase \<Rightarrow> True))"

definition earliestResetAmong :: "'card candidate list \<Rightarrow> route_availability list \<Rightarrow> iso_timestamp option" where
  "earliestResetAmong candidates rows = earliest_reset rows (map ca_routeId candidates)"

definition isResumable :: "string list \<Rightarrow> route_availability list \<Rightarrow> iso_timestamp \<Rightarrow> bool" where
  "isResumable watch rows now = list_ex (\<lambda>i. isEligible i now rows) watch"

definition usable :: "'card fallback_params \<Rightarrow> 'card candidate \<Rightarrow> bool" where
  "usable p c = isEligible (ca_routeId c) (fp_now p) (fp_availability p)"

definition candidate_of :: "'card fallback_params \<Rightarrow> string \<Rightarrow> 'card candidate option" where
  "candidate_of p ref = find (\<lambda>c. ca_ref c = ref) (fp_candidates p)"

definition pinned_decision :: "'card fallback_params \<Rightarrow> string \<Rightarrow> fallback_decision" where
  "pinned_decision p pin = (case candidate_of p pin of
       None \<Rightarrow> Pause PausePinCapped None []
     | Some c \<Rightarrow> if usable p c then Unchanged
         else Pause PausePinCapped (reset_of (fp_availability p) (ca_routeId c)) [ca_routeId c])"

definition holds_dwell :: "'card fallback_params \<Rightarrow> bool" where
  "holds_dwell p \<longleftrightarrow> (case candidate_of p (fa_usedModel (fp_attempt p)) of None \<Rightarrow> False | Some c \<Rightarrow> usable p c) \<and>
     inDwell (fp_attempt p) (fp_dwell p) (fp_dwellMinutes p) (fp_now p) (fp_atTaskBoundary p)"

text \<open>Switching would cost more, or nobody can say.\<close>

definition dearer :: "'card fallback_params \<Rightarrow> string \<Rightarrow> string \<Rightarrow> bool" where
  "dearer p substitute requested = (case fp_costOf p of None \<Rightarrow> True
     | Some cost \<Rightarrow> (case (cost substitute, cost requested) of (Some a, Some b) \<Rightarrow> a > b | _ \<Rightarrow> True))"

definition prefer_wait :: "'card fallback_params \<Rightarrow> 'card candidate list \<Rightarrow> fallback_decision option" where
  "prefer_wait p available =
     (case candidate_of p (fa_requestedModel (fp_attempt p)) of None \<Rightarrow> None
      | Some c \<Rightarrow> if \<not> fp_preferWait p > 0 then None
          else (case reset_of (fp_availability p) (ca_routeId c) of None \<Rightarrow> None
            | Some reset \<Rightarrow> (case (parseIso reset, parseIso (fp_now p)) of
                  (Some a, Some b) \<Rightarrow>
                    if 0 \<le> a - b \<and> of_int (a - b) / 60000 \<le> fp_preferWait p \<and> dearer p (ca_ref (hd available)) (ca_ref c)
                    then Some (Pause PausePreferWait (Some reset) [ca_routeId c]) else None
                | _ \<Rightarrow> None)))"

text \<open>At a boundary the requested model is looked at first; a reference is expected once in the list.\<close>

definition boundary_order :: "'card fallback_params \<Rightarrow> 'card candidate list \<Rightarrow> 'card candidate list" where
  "boundary_order p available =
     (if fp_atTaskBoundary p
      then filter (\<lambda>c. ca_ref c = fa_requestedModel (fp_attempt p)) available @ filter (\<lambda>c. ca_ref c \<noteq> fa_requestedModel (fp_attempt p)) available
      else available)"

definition fallback_selection :: "'card fallback_params \<Rightarrow> 'card candidate list \<Rightarrow> 'card select_params" where
  "fallback_selection p available = \<lparr>se_askAll = fp_askAll p, se_candidates = boundary_order p available, se_allowlist = fp_allowlist p,
     se_staticOrder = fp_staticOrder p, se_checkBudget = fp_checkBudget p, se_recorder = fp_recorder p, se_pin = None\<rparr>"

definition all_capped :: "'card fallback_params \<Rightarrow> pause_reason \<Rightarrow> fallback_decision" where
  "all_capped p why = Pause why (earliestResetAmong (fp_candidates p) (fp_availability p)) (map ca_routeId (fp_candidates p))"

definition switch_reason :: "'card fallback_params \<Rightarrow> fallback_reason" where
  "switch_reason p =
     (case tbl_get ra_routeId (case candidate_of p (fa_requestedModel (fp_attempt p)) of None \<Rightarrow> [] | Some c \<Rightarrow> ca_routeId c)
           (fp_availability p) of
        None \<Rightarrow> FrModelUnavailable
      | Some row \<Rightarrow> (case fallbackReasonFromCap (ra_capKind row) of None \<Rightarrow> FrModelUnavailable | Some r \<Rightarrow> r))"

definition after_selection :: "'card fallback_params \<Rightarrow> selection_result \<Rightarrow> fallback_decision" where
  "after_selection p result = (case result of
       PinBlocked ref why \<Rightarrow> all_capped p PauseAllCapped
     | NoneSelected why d \<Rightarrow> all_capped p (if why = NoneInadequate then PauseNoAdequate else PauseAllCapped)
     | Selected requested used fr rationale d \<Rightarrow>
         if used = fa_usedModel (fp_attempt p) then Unchanged
         else if used = fa_requestedModel (fp_attempt p) then Switch (fa_requestedModel (fp_attempt p)) used None rationale d
         else Switch (fa_requestedModel (fp_attempt p)) used (Some (switch_reason p)) rationale d)"

definition chooseFallback :: "'card fallback_params \<Rightarrow> recorded list \<Rightarrow> fallback_decision \<times> recorded list" where
  "chooseFallback p ds =
     (case fa_pin (fp_attempt p) of
        Some pin \<Rightarrow> (pinned_decision p pin, ds)
      | None \<Rightarrow>
          if holds_dwell p then (Unchanged, ds)
          else let available = filter (usable p) (fp_candidates p) in
            if available = [] then (all_capped p PauseAllCapped, ds)
            else (case prefer_wait p available of
                    Some d \<Rightarrow> (d, ds)
                  | None \<Rightarrow> (case selectModel (fallback_selection p available) ds of
                      (result, ds') \<Rightarrow> (after_selection p result, ds'))))"


section \<open>What a selection guarantees\<close>

text \<open>What policy permits, and a selection that keeps to it.\<close>

definition permitted :: "'card select_params \<Rightarrow> string \<Rightarrow> bool" where
  "permitted p ref \<longleftrightarrow> inAllowlist ref (se_allowlist p) \<and> ref \<in> ca_ref ` set (se_candidates p) \<and>
     (\<forall>ok. se_checkBudget p = Some ok \<longrightarrow> ok ref)"

lemma enforcePolicy_None:
  "enforcePolicy ref (map ca_ref (se_candidates p)) (se_allowlist p) (se_checkBudget p) = None \<longleftrightarrow> permitted p ref"
  by (auto simp: enforcePolicy_def permitted_def split: option.splits)

lemma firstPolicyPassing_Some:
  "firstPolicyPassing p cs ds = (Some c, ds') \<Longrightarrow> permitted p (ca_ref c) \<and>
     (\<exists>xs ys. cs = xs @ c # ys \<and> (\<forall>x \<in> set xs. \<not> permitted p (ca_ref x)))"
proof (induction cs arbitrary: ds)
  case (Cons x cs)
  show ?case
  proof (cases "permitted p (ca_ref x)")
    case True
    then show ?thesis using Cons.prems enforcePolicy_None [of "ca_ref x" p] by (intro conjI exI [of _ "[]"] exI [of _ cs]) auto
  next
    case False
    then obtain why where "enforcePolicy (ca_ref x) (map ca_ref (se_candidates p)) (se_allowlist p) (se_checkBudget p) = Some why"
      using enforcePolicy_None [of "ca_ref x" p] by auto
    then have "firstPolicyPassing p cs (snd (record_decision (se_recorder p) (RulePolicyRejected why, ca_ref x) ds)) = (Some c, ds')"
      using Cons.prems by simp
    from Cons.IH [OF this] obtain xs ys where "permitted p (ca_ref c)" "cs = xs @ c # ys" "\<forall>x \<in> set xs. \<not> permitted p (ca_ref x)"
      by blast
    then show ?thesis using False by (intro conjI exI [of _ "x # xs"] exI [of _ ys]) auto
  qed
qed simp

lemma firstPolicyPassing_None: "fst (firstPolicyPassing p cs ds) = None \<longleftrightarrow> (\<forall>c \<in> set cs. \<not> permitted p (ca_ref c))"
  by (induction cs arbitrary: ds) (auto simp: enforcePolicy_None split: option.splits simp flip: enforcePolicy_None)

text \<open>Jev said yes to a candidate of this reference.\<close>

definition jev_approved :: "'card select_params \<Rightarrow> string \<Rightarrow> bool" where
  "jev_approved p ref \<longleftrightarrow> (\<exists>askAll i. se_askAll p = Some askAll \<and> i < length (se_candidates p) \<and> ca_ref (se_candidates p ! i) = ref \<and>
     (\<exists>a. answer_at (askAll (se_candidates p)) i = Some a \<and> ja_value a))"

lemma rankWithJev_adequate:
  assumes "rankWithJev askAll cs = (ranked, fell)" and "r \<in> set (filter rk_adequate ranked)"
  shows "\<exists>i < length cs. rk_candidate r = cs ! i \<and> (\<exists>a. answer_at (askAll cs) i = Some a \<and> ja_value a)"
proof -
  from assms obtain i c where "(i, c) \<in> set (enumerate 0 cs)" "r = rank_one c (answer_at (askAll cs) i)" "rk_adequate r"
    by (auto simp: rankWithJev_def Let_def)
  then show ?thesis
    by (intro exI [of _ i]) (auto simp: in_set_enumerate_eq rank_one_def split: option.splits)
qed

lemma runStatic_Selected:
  assumes "runStatic p ds = (Selected rq used fr why i, ds')"
  shows "permitted p used \<and> why = RatStatic \<and> (fr = None \<longleftrightarrow> used = rq) \<and> rq \<in> ca_ref ` set (se_candidates p)"
proof -
  from assms obtain c rest u ds1 where order: "orderByStatic (se_candidates p) (se_staticOrder p) = c # rest"
    and pick: "firstPolicyPassing p (c # rest) ds = (Some u, ds1)"
    and res: "rq = ca_ref c" "used = ca_ref u" "why = RatStatic" "fr = (if ca_ref u = ca_ref c then None else Some FrStaticOrder)"
    by (auto simp: runStatic_def simp del: firstPolicyPassing.simps split: list.splits prod.splits option.splits)
  have "set (c # rest) = set (se_candidates p)"
    using order by (metis orderByStatic_def set_by_static_order)
  then have "c \<in> set (se_candidates p)" by auto
  then show ?thesis using firstPolicyPassing_Some [OF pick] res by auto
qed

lemma runJev_Selected:
  assumes "runJev p ranked ds = (Selected rq used fr why i, ds')"
  shows "permitted p used \<and> why = RatJev used \<and> (fr = None \<longleftrightarrow> used = rq) \<and>
     (\<exists>r \<in> set (filter rk_adequate ranked). ca_ref (rk_candidate r) = used) \<and>
     (\<exists>r \<in> set (filter rk_adequate ranked). ca_ref (rk_candidate r) = rq)"
proof -
  from assms obtain best others u ds1 where adequate: "filter rk_adequate ranked = best # others"
    and pick: "firstPolicyPassing p (map rk_candidate (best # others)) ds = (Some u, ds1)"
    and res: "rq = ca_ref (rk_candidate best)" "used = ca_ref u" "why = RatJev (ca_ref u)"
      "fr = (if ca_ref u = ca_ref (rk_candidate best) then None else Some FrJevSubstitute)"
    by (auto simp: runJev_def Let_def simp del: firstPolicyPassing.simps split: list.splits prod.splits option.splits)
  from firstPolicyPassing_Some [OF pick] obtain xs ys where "permitted p (ca_ref u)" "map rk_candidate (best # others) = xs @ u # ys"
    by blast
  moreover from this(2) have "u \<in> set (map rk_candidate (best # others))" by (metis in_set_conv_decomp)
  then obtain r where "r \<in> set (best # others)" "rk_candidate r = u" by auto
  ultimately show ?thesis unfolding adequate res by auto
qed

definition honest_selection :: "'card select_params \<Rightarrow> selection_result \<Rightarrow> bool" where
  "honest_selection p res \<longleftrightarrow> (case res of
       Selected rq used fr why i \<Rightarrow> permitted p used \<and> (fr = None \<longleftrightarrow> used = rq) \<and>
         (case why of RatPin ref \<Rightarrow> se_pin p = Some ref \<and> used = ref \<and> rq = ref
          | RatStatic \<Rightarrow> se_pin p = None
          | RatJev ref \<Rightarrow> se_pin p = None \<and> used = ref \<and> jev_approved p used \<and> jev_approved p rq)
     | NoneSelected r i \<Rightarrow> se_pin p = None
     | PinBlocked ref why \<Rightarrow> se_pin p = Some ref \<and> \<not> permitted p ref)"

lemma applyPin_cases:
  "(case applyPin (se_pin p) (se_candidates p) (se_allowlist p) (se_checkBudget p) of
      NoPin \<Rightarrow> se_pin p = None
    | Pinned ref c \<Rightarrow> se_pin p = Some ref \<and> permitted p ref
    | NeedsAsk ref why check \<Rightarrow> se_pin p = Some ref \<and> \<not> permitted p ref)"
proof (cases "se_pin p")
  case (Some ref)
  show ?thesis
  proof (cases "find (\<lambda>c. ca_ref c = ref) (se_candidates p)")
    case None
    then have "\<not> permitted p ref" by (auto simp: permitted_def find_None_iff)
    then show ?thesis using Some None by (simp add: applyPin_def)
  next
    case (Some c)
    then show ?thesis
      using \<open>se_pin p = Some ref\<close> enforcePolicy_None [of ref p]
      by (cases "enforcePolicy ref (map ca_ref (se_candidates p)) (se_allowlist p) (se_checkBudget p)") (auto simp: applyPin_def)
  qed
qed (simp add: applyPin_def)

lemma selectModel_honest: "honest_selection p (fst (selectModel p ds))"
proof (cases "applyPin (se_pin p) (se_candidates p) (se_allowlist p) (se_checkBudget p)")
  case NoPin
  then have pin: "se_pin p = None" using applyPin_cases [of p] by simp
  have static: "honest_selection p (fst (runStatic p ds))"
  proof (cases "runStatic p ds")
    case (Pair res ds')
    then show ?thesis
      using runStatic_Selected [of p ds] pin
      by (cases res) (auto simp: honest_selection_def, auto simp: runStatic_def split: list.splits prod.splits option.splits)
  qed
  have jev: "honest_selection p (fst (runJev p ranked ds))" if ask: "se_askAll p = Some askAll" and
      ranked: "rankWithJev askAll (se_candidates p) = (ranked, fell)" for askAll ranked fell
  proof (cases "runJev p ranked ds")
    case (Pair res ds')
    have yes: "jev_approved p (ca_ref (rk_candidate r))" if "r \<in> set (filter rk_adequate ranked)" for r
      using rankWithJev_adequate [OF ranked that] ask unfolding jev_approved_def by metis
    show ?thesis
    proof (cases res)
      case (Selected rq used fr why i)
      from runJev_Selected [OF Pair [unfolded Selected]] show ?thesis
        using pin yes Pair Selected by (auto simp: honest_selection_def simp del: set_filter)
    next
      case (PinBlocked ref why)
      then show ?thesis using Pair by (auto simp: runJev_def Let_def split: list.splits prod.splits option.splits)
    qed (use pin Pair in \<open>simp add: honest_selection_def\<close>)
  qed
  show ?thesis
    using NoPin static jev by (auto simp: selectModel_def rankAndSelect_def split: option.splits prod.splits)
qed (use applyPin_cases [of p] in \<open>auto simp: selectModel_def honest_selection_def record_decision_def split: option.splits prod.splits\<close>)


text \<open>C30. However Jev answers, a selected model is allowed by the allowlist, one of the candidates and within the
  budget; the reason says whether it is the requested one; a model named by Jev is one Jev called adequate; a
  pin that can be honoured is used as it is, and one that cannot stops the selection instead of being
  replaced.\<close>

theorem selection_never_widens: "honest_selection p (fst (selectModel p ds))"
  by (rule selectModel_honest)

lemma eligibleCandidates_open:
  "c \<in> set (eligibleCandidates entries cards rows now) \<Longrightarrow>
     \<exists>e \<in> set entries. ca_ref c = ce_id e \<and> ca_routeId c = ce_routeId e \<and> isEligible (ce_routeId e) now rows"
  by (auto simp: eligibleCandidates_def map_filter_def split: if_splits option.splits)

text \<open>C31. From the registry to the selection: whatever model a selection over the catalog's open candidates
  ends in is a model of the registry. When a scope is configured, the scope lists it; its provider and it are on
  the allowlists that are not empty; no override disables it; and its own route, whose id is derived from its
  provider and its id, has no cap on record or one whose estimated reset has passed.\<close>

theorem selected_model_is_available:
  assumes "buildCatalog sha256 sn cfg = Inr (es, xs)"
    and "se_candidates p = eligibleCandidates es cards rows now"
    and "selectModel p ds = (Selected rq used fr why i, ds')"
  shows "\<exists>m \<in> set (sn_available sn). rm_provider m @ ''/'' @ rm_id m = used \<and>
     (sn_enabledModelsConfigured sn = Some True \<or> sn_scoped sn \<noteq> [] \<longrightarrow>
        (\<exists>s \<in> set (sn_scoped sn). fst (sm_model s) @ ''/'' @ snd (sm_model s) = used)) \<and>
     (al_providers (cc_allowlist cfg) = [] \<or> rm_provider m \<in> set (al_providers (cc_allowlist cfg))) \<and>
     (al_models (cc_allowlist cfg) = [] \<or> used \<in> set (al_models (cc_allowlist cfg))) \<and>
     cc_overrides cfg used \<noteq> Some (Some True) \<and>
     rm_provider m \<noteq> [] \<and> rm_id m \<noteq> [] \<and>
     route_open (''r1_'' @ take 32 (sha256 (route_key (rm_provider m) (rm_id m)))) now rows"
proof -
  have "permitted p used" using selectModel_honest [of p ds] assms(3) by (simp add: honest_selection_def)
  then obtain c where "c \<in> set (eligibleCandidates es cards rows now)" "ca_ref c = used"
    using assms(2) by (auto simp: permitted_def)
  from eligibleCandidates_open [OF this(1)] this(2) obtain e where
    e: "e \<in> set es" "ce_id e = used" "route_open (ce_routeId e) now rows"
    by (auto simp: eligible_open)
  from catalog_loop_entry [OF assms(1) [unfolded buildCatalog_def] e(1)] obtain m where
    m: "m \<in> set (sn_available sn)" "exclusion sn cfg m = None" "used = model_ref m"
      "deriveRouteId sha256 (rm_provider m) (rm_id m) = Inr (ce_routeId e)"
    using e(2) by metis
  have route: "rm_provider m \<noteq> []" "rm_id m \<noteq> []"
      "ce_routeId e = ''r1_'' @ take 32 (sha256 (route_key (rm_provider m) (rm_id m)))"
    using m(4) by (auto simp: deriveRouteId_def ROUTE_ID_PREFIX_def split: if_splits)
  have "\<exists>s \<in> set (sn_scoped sn). fst (sm_model s) @ ''/'' @ snd (sm_model s) = used" if "scope_of sn used \<noteq> None"
    using that find_Some_D unfolding scope_of_def by fastforce
  moreover have "scope_configured sn \<Longrightarrow> scope_of sn used \<noteq> None" "providerAllowed (cc_allowlist cfg) (rm_provider m)"
      "modelAllowed (cc_allowlist cfg) used" "cc_overrides cfg used \<noteq> Some (Some True)"
    using m(2) unfolding m(3) by (auto simp: exclusion_def split: if_splits)
  ultimately show ?thesis
    using m(1,3) e(3) route
    by (intro bexI [of _ m]) (auto simp: scope_configured_def providerAllowed_def modelAllowed_def model_ref_def)
qed

section \<open>What a fallback guarantees\<close>

lemma candidate_of_Some: "candidate_of p ref = Some c \<Longrightarrow> c \<in> set (fp_candidates p) \<and> ca_ref c = ref"
  unfolding candidate_of_def using find_Some_D by fastforce

definition switched_well :: "'card fallback_params \<Rightarrow> fallback_decision \<Rightarrow> bool" where
  "switched_well p d \<longleftrightarrow> (case d of
       Unchanged \<Rightarrow> True
     | Switch rq used fr why i \<Rightarrow> fa_pin (fp_attempt p) = None \<and> rq = fa_requestedModel (fp_attempt p) \<and>
         used \<noteq> fa_usedModel (fp_attempt p) \<and> (fr = None \<longleftrightarrow> used = rq) \<and> inAllowlist used (fp_allowlist p) \<and>
         (\<forall>ok. fp_checkBudget p = Some ok \<longrightarrow> ok used) \<and> \<not> holds_dwell p \<and>
         (\<exists>c \<in> set (fp_candidates p). ca_ref c = used \<and> usable p c)
     | Pause why reset watch \<Rightarrow> (why = PausePinCapped \<longleftrightarrow> fa_pin (fp_attempt p) \<noteq> None) \<and> set watch \<subseteq> ca_routeId ` set (fp_candidates p))"

lemma boundary_order_set [simp]: "set (boundary_order p cs) = set cs"
  by (auto simp: boundary_order_def)

lemma prefer_wait_Some:
  "prefer_wait p cs = Some d \<Longrightarrow> \<exists>c reset. candidate_of p (fa_requestedModel (fp_attempt p)) = Some c \<and>
     d = Pause PausePreferWait (Some reset) [ca_routeId c]"
  by (auto simp: prefer_wait_def split: option.splits if_splits)

lemma chooseFallback_reselects:
  assumes "fa_pin (fp_attempt p) = None" "\<not> holds_dwell p" "filter (usable p) (fp_candidates p) \<noteq> []"
    "prefer_wait p (filter (usable p) (fp_candidates p)) = None"
  shows "fst (chooseFallback p ds) =
    after_selection p (fst (selectModel (fallback_selection p (filter (usable p) (fp_candidates p))) ds))"
  using assms by (simp add: chooseFallback_def Let_def split: prod.split)

lemma chooseFallback_switched_well: "switched_well p (fst (chooseFallback p ds))"
proof (cases "fa_pin (fp_attempt p)")
  case (Some pin)
  then show ?thesis
    using candidate_of_Some by (fastforce simp: chooseFallback_def pinned_decision_def switched_well_def split: option.splits)
next
  case None
  note pin = this
  let ?open = "filter (usable p) (fp_candidates p)"
  show ?thesis
  proof (cases "holds_dwell p \<or> ?open = []")
    case True
    then show ?thesis using pin by (auto simp: chooseFallback_def switched_well_def all_capped_def Let_def)
  next
    case False
    show ?thesis
    proof (cases "prefer_wait p ?open")
      case (Some d)
      from prefer_wait_Some [OF Some] obtain c reset where "candidate_of p (fa_requestedModel (fp_attempt p)) = Some c"
          "d = Pause PausePreferWait (Some reset) [ca_routeId c]" by blast
      then show ?thesis using False pin Some candidate_of_Some by (auto simp: chooseFallback_def switched_well_def Let_def)
    next
      case None
      let ?sel = "selectModel (fallback_selection p ?open) ds"
      have d: "fst (chooseFallback p ds) = after_selection p (fst ?sel)"
        using False pin None by (intro chooseFallback_reselects) simp_all
      have "honest_selection (fallback_selection p ?open) (fst ?sel)" by (rule selectModel_honest)
      then show ?thesis
        unfolding d using False pin
        by (cases "fst ?sel") (auto simp: after_selection_def switched_well_def honest_selection_def permitted_def
            fallback_selection_def all_capped_def)
    qed
  qed
qed

text \<open>C32. A fallback never touches a pin without asking: with a pin it only keeps it or pauses for it. It switches
  only when no dwell holds, to another model that is a candidate on an open route, allowed and within the
  budget, with a reason exactly when that is not the requested model.\<close>

theorem fallback_switches_only_to_open_routes: "switched_well p (fst (chooseFallback p ds))"
  by (rule chooseFallback_switched_well)

text \<open>The fallback pauses for caps exactly as the availability says: when every candidate is capped it pauses for
  that, and the pause can be resumed by exactly the clearing of one of the candidates' routes.\<close>

lemma all_capped_pause:
  assumes "fa_pin (fp_attempt p) = None" and "\<forall>c \<in> set (fp_candidates p). \<not> usable p c"
  shows "fst (chooseFallback p ds) = Pause PauseAllCapped (earliestResetAmong (fp_candidates p) (fp_availability p))
           (map ca_routeId (fp_candidates p)) \<and>
     \<not> isResumable (map ca_routeId (fp_candidates p)) (fp_availability p) (fp_now p)"
proof -
  have "\<not> holds_dwell p"
    using assms(2) candidate_of_Some by (auto simp: holds_dwell_def split: option.splits)
  then show ?thesis
    using assms by (auto simp: chooseFallback_def all_capped_def isResumable_def usable_def list_ex_iff filter_empty_conv)
qed

section \<open>Where code and documentation part\<close>

text \<open>A pause because Jev found no candidate adequate watches all candidates, open ones included: it can be resumed at
  once, into the same answer.\<close>

lemma no_adequate_pause_is_resumable:
  assumes "fst (chooseFallback p ds) = Pause PauseNoAdequate reset watch"
  shows "isResumable watch (fp_availability p) (fp_now p)"
proof -
  let ?open = "filter (usable p) (fp_candidates p)"
  have pin: "fa_pin (fp_attempt p) = None"
    using assms by (auto simp: chooseFallback_def pinned_decision_def split: option.splits if_splits)
  have "\<not> holds_dwell p"
    using assms pin by (cases "holds_dwell p") (simp_all add: chooseFallback_def)
  moreover from this have "?open \<noteq> []"
    using assms pin by (cases "?open = []") (simp_all add: chooseFallback_def all_capped_def)
  moreover from calculation have "prefer_wait p ?open = None"
    using assms pin prefer_wait_Some [of p ?open] by (cases "prefer_wait p ?open") (auto simp: chooseFallback_def Let_def)
  ultimately have "after_selection p (fst (selectModel (fallback_selection p ?open) ds)) = Pause PauseNoAdequate reset watch" "?open \<noteq> []"
    using assms pin chooseFallback_reselects [of p ds] by simp_all
  moreover from this have "watch = map ca_routeId (fp_candidates p)"
    by (auto simp: after_selection_def all_capped_def split: selection_result.splits if_splits)
  ultimately show ?thesis
    by (auto simp: isResumable_def list_ex_iff usable_def filter_empty_conv)
qed


text \<open>The catalog compares the provider key as it is configured, the policy check the text up to the first slash: a
  model of a provider whose key has a slash is in the catalog and never accepted.\<close>

lemma provider_key_with_slash:
  assumes "CHR ''/'' \<in> set provider" and "al_providers al = [provider]"
  shows "providerAllowed al provider \<and> \<not> inAllowlist (provider @ ''/'' @ i) al"
proof -
  have "ref_provider (provider @ ''/'' @ i) \<noteq> provider"
    using assms(1) by (auto simp: ref_provider_def dest: arg_cong [of _ _ set] set_takeWhileD)
  then show ?thesis using assms(2) by (simp add: providerAllowed_def inAllowlist_def)
qed

definition fx_candidate :: "string \<Rightarrow> string \<Rightarrow> unit candidate" where
  "fx_candidate p i = \<lparr>ca_ref = p @ ''/'' @ i, ca_routeId = p, ca_card = (), ca_entry = \<lparr>ce_id = p @ ''/'' @ i, ce_provider = p, ce_name = i,
     ce_routeId = p, ce_reasoning = False, ce_thinkingLevelMap = None, ce_input = [TextInput], ce_contextWindow = None, ce_maxTokens = None,
     ce_cost = None, ce_thinkingLevelCap = None\<rparr>\<rparr>"

definition fx_capped_row :: "string \<Rightarrow> iso_timestamp \<Rightarrow> route_availability" where
  "fx_capped_row i reset = \<lparr>ra_routeId = i, ra_providerId = i, ra_modelId = ''m'', ra_capKind = CapRate, ra_detectedAt = None,
     ra_estimatedReset = Some reset, ra_lastProbe = None\<rparr>"

definition fx_fallback :: "unit fallback_params" where
  "fx_fallback = \<lparr>fp_askAll = None, fp_attempt = \<lparr>fa_requestedModel = ''a/m'', fa_usedModel = ''b/m'', fa_pin = None,
       fa_fallbackSince = Some ''2024-01-01T00:00:00.000Z''\<rparr>,
     fp_candidates = [fx_candidate ''a'' ''m'', fx_candidate ''b'' ''m''],
     fp_availability = [fx_capped_row ''a'' ''2024-01-01T00:10:00.000Z''], fp_now = ''2024-01-01T00:10:00.000Z'',
     fp_allowlist = \<lparr>al_providers = [], al_models = [], al_pins = Map.empty\<rparr>, fp_staticOrder = [], fp_dwell = RemainderOfTask,
     fp_dwellMinutes = 0, fp_preferWait = 5, fp_checkBudget = None, fp_costOf = None, fp_recorder = None, fp_atTaskBoundary = True\<rparr>"

text \<open>At the very moment of its reset the primary is open, and the fallback still pauses to wait for it.\<close>

lemma waits_for_an_open_primary:
  "usable fx_fallback (fx_candidate ''a'' ''m'') \<and>
   fst (chooseFallback fx_fallback []) = Pause PausePreferWait (Some ''2024-01-01T00:10:00.000Z'') [''a''] \<and>
   fst (chooseFallback (fx_fallback\<lparr>fp_now := ''2024-01-01T00:10:00.001Z''\<rparr>) []) = Switch ''a/m'' ''a/m'' None RatStatic None"
  by code_simp

section \<open>Witnesses\<close>

definition fx_capped_rows :: "route_availability list" where
  "fx_capped_rows = [fx_capped_row ''r1_1:a|1:m'' ''9'', fx_capped_row ''r1_1:b|1:m'' ''1'']"

definition fx_selection :: "unit select_params" where
  "fx_selection = \<lparr>se_askAll = Some (\<lambda>cs. map (\<lambda>c. \<lparr>ja_value = ca_ref c = ''b/m'', ja_source = FromJev, ja_decisionId = None\<rparr>) cs),
     se_candidates = eligibleCandidates (case buildCatalog fx_hash fx_snapshot fx_catalog_config of Inr (es, xs) \<Rightarrow> es | Inl _ \<Rightarrow> [])
       (\<lambda>_. Some ()) fx_capped_rows ''5'',
     se_allowlist = cc_allowlist fx_catalog_config, se_staticOrder = [], se_checkBudget = None, se_recorder = None, se_pin = None\<rparr>"

lemma fx_selects: "fst (selectModel fx_selection []) = Selected ''b/m'' ''b/m'' None (RatJev ''b/m'') None"
  by code_simp

text \<open>Of two capped routes the one whose estimated reset has passed is selected; the other one is not open.\<close>

lemma fx_closed_route: "\<not> route_open (''r1_'' @ take 32 (fx_hash (route_key ''a'' ''m''))) ''5'' fx_capped_rows"
  by code_simp

lemma selected_model_witness:
  "\<exists>m \<in> set (sn_available fx_snapshot). rm_provider m @ ''/'' @ rm_id m = ''b/m'' \<and> rm_provider m \<in> {''a'', ''b''} \<and>
     route_open (''r1_'' @ take 32 (fx_hash (route_key (rm_provider m) (rm_id m)))) ''5'' fx_capped_rows"
proof -
  obtain es xs where built: "buildCatalog fx_hash fx_snapshot fx_catalog_config = Inr (es, xs)"
    using fx_catalog_builds by (cases "buildCatalog fx_hash fx_snapshot fx_catalog_config") auto
  have cands: "se_candidates fx_selection = eligibleCandidates es (\<lambda>_. Some ()) fx_capped_rows ''5''"
    by (simp add: fx_selection_def built)
  have allowed: "al_providers (cc_allowlist fx_catalog_config) = [''a'', ''b'']"
    by (simp add: fx_catalog_config_def)
  obtain ds' where "selectModel fx_selection [] = (Selected ''b/m'' ''b/m'' None (RatJev ''b/m'') None, ds')"
    using fx_selects by (cases "selectModel fx_selection []") auto
  from selected_model_is_available [OF built cands this] show ?thesis
    unfolding allowed by (elim bexE conjE) (intro bexI conjI; simp)
qed

end
