(* ===== verification/CapPause.thy ===== *)
theory CapPause
  imports Selection BudgetStops
begin

text \<open>
  Applying a fallback decision (\<open>src/models/cap-pause.ts\<close>): a pause moves the task and its phase to their
  paused states in one transaction, a cleared cap moves both back, a switch is recorded on the attempt.
\<close>

section \<open>Operations\<close>

record cap_pause_deps =
  cp_taskId :: string
  cp_phaseId :: string
  cp_actor :: transition_actor

record cap_pause_result =
  cr_task :: "(task, task_edge) transition_result"
  cr_phase :: "(phase, phase_edge) transition_result"

definition cap_blocker :: string where "cap_blocker = ''all_candidates_capped''"

text \<open>The text of a decision's blocker is a parameter.\<close>

definition pause_detail :: "pause_reason \<Rightarrow> string \<Rightarrow> string" where
  "pause_detail why blocker = (case why of
       PauseNoAdequate \<Rightarrow> ''no adequate substitute for this task profile ('' @ blocker @ '')''
     | PausePinCapped \<Rightarrow> ''pinned model is capped; ask before any substitute ('' @ blocker @ '')''
     | PausePreferWait \<Rightarrow> ''waiting for the primary's cap to clear ('' @ blocker @ '')''
     | PauseAllCapped \<Rightarrow> ''all eligible candidates capped ('' @ blocker @ '')'')"

definition reset_evidence :: "iso_timestamp option \<Rightarrow> string" where
  "reset_evidence reset = ''availability:earliest_reset='' @ (case reset of None \<Rightarrow> ''unknown'' | Some t \<Rightarrow> t)"

definition cap_guards :: guard_table where
  "cap_guards pc = (if pc = PcAllEligibleModelsCapped then Some (\<lambda>_. GTrue) else None)"

definition cap_request :: "transition_actor \<Rightarrow> string \<Rightarrow> 's \<Rightarrow> string list \<Rightarrow> string \<Rightarrow> 's transition_request" where
  "cap_request actor i dst refs detail = \<lparr>rq_subject = i, rq_to = Known dst, rq_actor = actor, rq_trigger = ''all_candidates_capped'',
     rq_guards = cap_guards, rq_evidenceRefs = refs, rq_gitRevision = None, rq_expectedStatus = None, rq_expectedRevision = None,
     rq_blocker = Some (cap_blocker, detail), rq_gateReceiptId = None\<rparr>"

definition applyCapPause ::
  "cap_pause_deps \<Rightarrow> pause_reason \<Rightarrow> iso_timestamp option \<Rightarrow> string list \<Rightarrow> string \<Rightarrow> cap_pause_result io"
where
  "applyCapPause deps why reset watch blocker = store_write (
     andThen (transitionTask (cap_request (cp_actor deps) (cp_taskId deps) PausedCap
        (reset_evidence reset # map (\<lambda>r. ''route:'' @ r) watch) (pause_detail why blocker))) (\<lambda>task.
     andThen (transitionPhase (cap_request (cp_actor deps) (cp_phaseId deps) PhPaused
        [reset_evidence reset] (pause_detail why blocker))) (\<lambda>phase.
     ret \<lparr>cr_task = task, cr_phase = phase\<rparr>)))"

text \<open>An omitted guard is satisfied.\<close>

record resume_guards =
  rg_authorizationCurrent :: "guard_outcome option"
  rg_recoveryAuthorized :: "guard_outcome option"

definition or_true :: "guard_outcome option \<Rightarrow> guard_outcome" where
  "or_true v = (case v of None \<Rightarrow> GTrue | Some b \<Rightarrow> b)"

definition cleared_guards :: "resume_guards \<Rightarrow> guard_table" where
  "cleared_guards g pc =
     (if pc = PcCapResumeValid then Some (\<lambda>_. GTrue)
      else if pc = PcAuthorizationCurrent then Some (\<lambda>_. or_true (rg_authorizationCurrent g))
      else if pc = PcRecoveryAuthorized then Some (\<lambda>_. or_true (rg_recoveryAuthorized g))
      else None)"

definition cleared_request :: "resume_guards \<Rightarrow> transition_actor \<Rightarrow> string \<Rightarrow> 's \<Rightarrow> string list \<Rightarrow> 's transition_request" where
  "cleared_request g actor i dst refs = \<lparr>rq_subject = i, rq_to = Known dst, rq_actor = actor, rq_trigger = ''eligible_cap_cleared'',
     rq_guards = cleared_guards g, rq_evidenceRefs = refs, rq_gitRevision = None, rq_expectedStatus = None, rq_expectedRevision = None,
     rq_blocker = None, rq_gateReceiptId = None\<rparr>"

definition cleared_detail :: "iso_timestamp \<Rightarrow> string" where
  "cleared_detail ts = ''resolved: route available at '' @ ts"

text \<open>The cap's blockers are resolved first, so that the guards see only the other reasons.\<close>

definition clearCapPause ::
  "cap_pause_deps \<Rightarrow> string list \<Rightarrow> resume_guards \<Rightarrow> iso_timestamp \<Rightarrow> cap_pause_result io"
where
  "clearCapPause deps watch g ts = store_write (
     andThen (resolveBlockersOfKind (cp_actor deps) SkTask (cp_taskId deps) cap_blocker (cleared_detail ts)) (\<lambda>_.
     andThen (resolveBlockersOfKind (cp_actor deps) SkPhase (cp_phaseId deps) cap_blocker (cleared_detail ts)) (\<lambda>_.
     andThen (transitionTask (cleared_request g (cp_actor deps) (cp_taskId deps) Ready
        ((''availability:cleared_at='' @ ts) # map (\<lambda>r. ''route:'' @ r) watch))) (\<lambda>task.
     andThen (transitionPhase (cleared_request g (cp_actor deps) (cp_phaseId deps) PhRunning [''availability:cleared_at='' @ ts])) (\<lambda>phase.
     ret \<lparr>cr_task = task, cr_phase = phase\<rparr>)))))"

definition resumeIfCapCleared ::
  "cap_pause_deps \<Rightarrow> string list \<Rightarrow> route_availability list \<Rightarrow> resume_guards \<Rightarrow> cap_pause_result option io"
where
  "resumeIfCapCleared deps watch rows g = andThen getNow (\<lambda>ts.
     if \<not> list_ex (\<lambda>i. isEligible i ts rows) watch then ret None
     else andThen (clearCapPause deps watch g ts) (\<lambda>r. ret (Some r)))"

definition recordFallbackSwitch :: "string \<Rightarrow> string \<Rightarrow> fallback_reason option \<Rightarrow> attempt io" where
  "recordFallbackSwitch attemptId used why = attempts_update attemptId (\<lambda>a. a\<lparr>a_usedModel := used, a_fallbackReason := why\<rparr>)"


section \<open>The edges\<close>

lemma cap_edges:
  "edge \<in> set TASK_TRANSITIONS \<Longrightarrow> tr_to edge = PausedCap \<Longrightarrow> tr_from edge = [Ready, Running, Verifying, Review]"
  "pedge \<in> set PHASE_TRANSITIONS \<Longrightarrow> tr_to pedge = PhPaused \<Longrightarrow> tr_trigger pedge = ''all_candidates_capped'' \<Longrightarrow>
     tr_from pedge = [PhRunning, PhGating]"
  by (auto simp: TASK_TRANSITIONS_def PHASE_TRANSITIONS_def)

lemma cleared_edges:
  "edge \<in> set TASK_TRANSITIONS \<Longrightarrow> tr_to edge = Ready \<Longrightarrow> tr_trigger edge = ''eligible_cap_cleared'' \<Longrightarrow>
     tr_from edge = [PausedCap] \<and> tr_preconditions edge = READY_PRECONDITIONS @ [PcCapResumeValid, PcRecoveryAuthorized]"
  "pedge \<in> set PHASE_TRANSITIONS \<Longrightarrow> tr_to pedge = PhRunning \<Longrightarrow> tr_trigger pedge = ''eligible_cap_cleared'' \<Longrightarrow>
     tr_from pedge = [PhPaused] \<and> tr_id pedge \<noteq> PhaseStaleEvidence"
  by (auto simp: TASK_TRANSITIONS_def PHASE_TRANSITIONS_def)

section \<open>Pausing\<close>

text \<open>A task of a cap pause: from where the table allows it, to the paused state.\<close>

definition cap_paused :: "cap_pause_deps \<Rightarrow> db \<Rightarrow> db \<Rightarrow> bool" where
  "cap_paused deps d d' \<longleftrightarrow> (\<exists>t t' p p' src.
     tbl_get t_id (cp_taskId deps) (db_tasks d) = Some t \<and> t_status t \<in> {Ready, Running, Verifying, Review} \<and>
     tbl_get t_id (cp_taskId deps) (db_tasks d') = Some t' \<and> t_status t' = PausedCap \<and>
     tbl_get ph_id (cp_phaseId deps) (db_phases d) = Some p \<and> phaseLifecycleState (ph_gateStatus p) = Some src \<and>
     src \<in> {PhRunning, PhGating} \<and>
     tbl_get ph_id (cp_phaseId deps) (db_phases d') = Some p' \<and> ph_gateStatus p' = PgPausedCap)"

lemma task_to_paused:
  assumes run: "transitionTask (cap_request actor i PausedCap refs detail) w = (Inr res, w')"
  shows "\<exists>t t'. tbl_get t_id i (db_tasks (w_db w)) = Some t \<and> t_status t \<in> {Ready, Running, Verifying, Review} \<and>
     tbl_get t_id i (db_tasks (w_db w')) = Some t' \<and> t_status t' = PausedCap \<and> db_phases (w_db w') = db_phases (w_db w)"
proof -
  let ?rq = "cap_request actor i PausedCap refs detail"
  from transitionTask_Inr [OF run] obtain t edge ctx where acc: "task_accepted ?rq (w_db w) t edge PausedCap ctx"
    and wr: "task_written ?rq (w_db w) t edge PausedCap res (w_db w')"
    by (auto simp: task_accepted_def cap_request_def)
  have t: "tbl_get t_id i (db_tasks (w_db w)) = Some t" "t_id t = i"
    using acc by (auto simp: task_accepted_def cap_request_def dest: tbl_get_key)
  have "t_status t \<in> {Ready, Running, Verifying, Review}"
    using acc cap_edges(1) [of edge] by (auto simp: task_accepted_def)
  moreover have "tbl_get t_id i (db_tasks (w_db w')) = Some (re_subject res)" "t_status (re_subject res) = PausedCap"
      "db_phases (w_db w') = db_phases (w_db w)"
    using wr t by (auto simp: task_written_def tbl_get_put)
  ultimately show ?thesis using t by blast
qed

lemma phase_to_paused:
  assumes run: "transitionPhase (cap_request actor i PhPaused refs detail) w = (Inr res, w')"
  shows "\<exists>p p' src. tbl_get ph_id i (db_phases (w_db w)) = Some p \<and> phaseLifecycleState (ph_gateStatus p) = Some src \<and>
     src \<in> {PhRunning, PhGating} \<and> tbl_get ph_id i (db_phases (w_db w')) = Some p' \<and> ph_gateStatus p' = PgPausedCap \<and>
     db_tasks (w_db w') = db_tasks (w_db w)"
proof -
  let ?rq = "cap_request actor i PhPaused refs detail"
  have sel: "rq_to ?rq = Known PhPaused" "rq_subject ?rq = i" "rq_trigger ?rq = ''all_candidates_capped''"
      "rq_blocker ?rq = Some (cap_blocker, detail)"
    by (simp_all add: cap_request_def)
  from transitionPhase_Inr [OF run] sel obtain p src edge ctx where acc: "phase_accepted ?rq (w_db w) p src edge PhPaused ctx"
    and wr: "phase_written (w_db w) p edge PhPaused res (w_db w')"
    by (auto simp: phase_accepted_def)
  have p: "tbl_get ph_id i (db_phases (w_db w)) = Some p" "ph_id p = i"
    using acc sel by (auto simp: phase_accepted_def dest: tbl_get_key)
  have src: "phaseLifecycleState (ph_gateStatus p) = Some src" "src \<in> {PhRunning, PhGating}"
    using acc cap_edges(2) [of edge] sel by (auto simp: phase_accepted_def)
  have kind: "cap_blocker \<in> set (unresolvedKinds SkPhase i (w_db w'))"
    using transitionPhase_raises [OF run sel(4)] sel(2) by simp
  have "tr_id edge \<noteq> PhaseStaleEvidence" using acc pause_edges by (auto simp: phase_accepted_def)
  with wr kind p(2) have "ph_gateStatus (re_subject res) = PgPausedCap" "ph_id (re_subject res) = i"
    by (auto simp: phase_written_def phaseGateStatusFor_def list_ex_iff CAP_BLOCKER_KINDS_def cap_blocker_def)
  moreover have "tbl_get ph_id i (db_phases (w_db w')) = Some (re_subject res)" "db_tasks (w_db w') = db_tasks (w_db w)"
    using wr p calculation(2) by (simp_all add: phase_written_def tbl_get_put)
  ultimately show ?thesis using p src by blast
qed

lemma applyCapPause_effect:
  assumes "applyCapPause deps why reset watch blocker w = (Inr r, w')"
  shows "cap_paused deps (w_db w) (w_db w')"
proof -
  from assms obtain wa d where body: "andThen (transitionTask (cap_request (cp_actor deps) (cp_taskId deps) PausedCap
        (reset_evidence reset # map (\<lambda>r. ''route:'' @ r) watch) (pause_detail why blocker))) (\<lambda>task.
     andThen (transitionPhase (cap_request (cp_actor deps) (cp_phaseId deps) PhPaused
        [reset_evidence reset] (pause_detail why blocker))) (\<lambda>phase.
     ret \<lparr>cr_task = task, cr_phase = phase\<rparr>)) (w\<lparr>w_depth := Suc (w_depth w)\<rparr>) = (Inr r, wa)" and w': "w' = wa\<lparr>w_depth := d\<rparr>"
    unfolding applyCapPause_def by (elim store_write_InrE)
  from body obtain tres w1 pres where
      task: "transitionTask (cap_request (cp_actor deps) (cp_taskId deps) PausedCap
        (reset_evidence reset # map (\<lambda>r. ''route:'' @ r) watch) (pause_detail why blocker)) (w\<lparr>w_depth := Suc (w_depth w)\<rparr>) = (Inr tres, w1)"
    and phase: "transitionPhase (cap_request (cp_actor deps) (cp_phaseId deps) PhPaused
        [reset_evidence reset] (pause_detail why blocker)) w1 = (Inr pres, wa)"
    by (auto simp: andThen_eq_Inr)
  from task_to_paused [OF task] phase_to_paused [OF phase] show ?thesis
    unfolding cap_paused_def w' by auto
qed


section \<open>Resuming\<close>

lemma resolve_ids:
  assumes "resolveBlocker actor bid detail w = (Inr r, w')"
  shows "map b_blockerId (db_blockers (w_db w')) = map b_blockerId (db_blockers (w_db w))"
  using assms by (rule resolveBlocker_Inr) (auto simp: tbl_put_def)

lemma resolve_each_ids:
  assumes "mapEach (\<lambda>b. andThen (resolveBlocker actor (b_blockerId b) detail) (\<lambda>r. ret (rs_blocker r))) bs w = (Inr rs, w')"
  shows "map b_blockerId (db_blockers (w_db w')) = map b_blockerId (db_blockers (w_db w))"
  using assms by (induction bs arbitrary: w rs) (auto simp: andThen_eq_Inr dest!: resolve_ids)

lemma resolve_kind_ids:
  assumes "resolveBlockersOfKind actor k i kind detail w = (Inr rs, w')"
  shows "map b_blockerId (db_blockers (w_db w')) = map b_blockerId (db_blockers (w_db w))"
  using assms unfolding resolveBlockersOfKind_def
  by (elim store_write_InrE) (auto simp: andThen_eq_Inr dest!: resolve_each_ids)

text \<open>Resolving a blocker rewrites the task's blocker text and nothing else a resume looks at.\<close>

definition standing :: "db \<Rightarrow> string \<Rightarrow> (task_status \<times> check_definition list \<times> string list) option" where
  "standing d i = map_option (\<lambda>t. (t_status t, t_checks t, t_dependencies t)) (tbl_get t_id i (db_tasks d))"

lemma standing_put:
  assumes "tbl_get t_id k (db_tasks d) = Some t" "db_tasks d' = tbl_put t_id t' (db_tasks d)"
    and "t_id t' = t_id t" "t_status t' = t_status t" "t_checks t' = t_checks t" "t_dependencies t' = t_dependencies t"
  shows "standing d' = standing d"
  using assms tbl_get_key [of t_id k "db_tasks d" t] by (auto simp: standing_def fun_eq_iff tbl_get_put)

lemma standing_cong: "db_tasks d' = db_tasks d \<Longrightarrow> standing d' = standing d"
  by (simp add: standing_def fun_eq_iff)

lemma resolve_standing:
  assumes "resolveBlocker actor bid detail w = (Inr r, w')"
  shows "standing (w_db w') = standing (w_db w)"
  using assms
proof (rule resolveBlocker_Inr)
  fix b ts w1
  assume db: "w_db w1 = (w_db w)\<lparr>db_blockers := tbl_put b_blockerId (rs_blocker r) (db_blockers (w_db w))\<rparr>"
    and "(b_subjectKind b = SkTask \<and> (\<exists>task. tbl_get t_id (b_subjectId b) (db_tasks (w_db w)) = Some task \<and>
        t_status task \<notin> {Done, Cancelled} \<and> (\<exists>ts row t'.
        t' = task\<lparr>t_blocker := deriveBlockerField SkTask (b_subjectId b) (w_db w1), t_updatedAt := ts\<rparr> \<and>
        w_db w' = (w_db w1)\<lparr>db_tasks := tbl_put t_id t' (db_tasks (w_db w1)),
           db_audit := db_audit (w_db w1) @ [row]\<rparr> \<and> w_pending w' = None))) \<or>
     (w_db w' = w_db w1 \<and> w_pending w' = w_pending w \<and>
        (b_subjectKind b = SkTask \<longrightarrow> (\<forall>task. tbl_get t_id (b_subjectId b) (db_tasks (w_db w)) = Some task \<longrightarrow>
           t_status task \<in> {Done, Cancelled})))"
  then show ?thesis
    by (elim disjE conjE exE) (auto intro: standing_put standing_cong)
qed

lemma resolve_each_standing:
  assumes "mapEach (\<lambda>b. andThen (resolveBlocker actor (b_blockerId b) detail) (\<lambda>r. ret (rs_blocker r))) bs w = (Inr rs, w')"
  shows "standing (w_db w') = standing (w_db w)"
  using assms by (induction bs arbitrary: w rs) (auto simp: andThen_eq_Inr dest!: resolve_standing)

lemma resolve_kind_standing:
  assumes "resolveBlockersOfKind actor k i kind detail w = (Inr rs, w')"
  shows "standing (w_db w') = standing (w_db w)"
  using assms unfolding resolveBlockersOfKind_def
  by (elim store_write_InrE) (auto simp: andThen_eq_Inr dest!: resolve_each_standing)

text \<open>Only blockers of the kind asked for are resolved, so what is gone of a subject's reasons is that kind.\<close>

lemma resolve_kind_left:
  assumes "resolveBlockersOfKind actor k i kind detail w = (Inr rs, w')" and "distinct (map b_blockerId (db_blockers (w_db w)))"
  shows "set (unresolvedKinds k' i' (w_db w)) \<subseteq> insert kind (set (unresolvedKinds k' i' (w_db w')))"
proof
  fix x
  assume "x \<in> set (unresolvedKinds k' i' (w_db w))"
  then obtain b where "b \<in> set (db_blockers (w_db w))" "b_subjectKind b = k'" "b_subjectId b = i'" "b_resolvedAt b = None" "b_kind b = x"
    by (auto simp: unresolvedKinds_iff)
  then show "x \<in> insert kind (set (unresolvedKinds k' i' (w_db w')))"
    using resolve_kind_effect [OF assms] by (cases "x = kind") (auto simp: unresolvedKinds_iff)
qed

lemma task_cleared:
  assumes run: "transitionTask (cleared_request g actor i Ready refs) w = (Inr res, w')"
  shows "\<exists>t t'. tbl_get t_id i (db_tasks (w_db w)) = Some t \<and> t_status t = PausedCap \<and> hasExecutableCheck t \<and>
     dependenciesDone (w_db w) t \<and> unresolvedKinds SkTask i (w_db w) = [] \<and>
     or_true (rg_authorizationCurrent g) = GTrue \<and> or_true (rg_recoveryAuthorized g) = GTrue \<and>
     tbl_get t_id i (db_tasks (w_db w')) = Some t' \<and> t_status t' = Ready \<and> db_phases (w_db w') = db_phases (w_db w)"
proof -
  let ?rq = "cleared_request g actor i Ready refs"
  have sel: "rq_to ?rq = Known Ready" "rq_subject ?rq = i" "rq_trigger ?rq = ''eligible_cap_cleared''" "rq_blocker ?rq = None"
      "rq_guards ?rq = cleared_guards g"
    by (simp_all add: cleared_request_def)
  from transitionTask_Inr [OF run] sel obtain t edge ctx where acc: "task_accepted ?rq (w_db w) t edge Ready ctx"
    and wr: "task_written ?rq (w_db w) t edge Ready res (w_db w')"
    by (auto simp: task_accepted_def)
  have t: "tbl_get t_id i (db_tasks (w_db w)) = Some t" "t_id t = i"
    using acc sel by (auto simp: task_accepted_def dest: tbl_get_key)
  have edge: "tr_from edge = [PausedCap]" "tr_preconditions edge = READY_PRECONDITIONS @ [PcCapResumeValid, PcRecoveryAuthorized]"
    using acc cleared_edges(1) [of edge] sel by (simp_all add: task_accepted_def)
  have ctx: "gx_task ctx = Some t" "gx_unresolvedBlockers ctx = unresolvedKinds SkTask i (w_db w)" "db_tasks (gx_db ctx) = db_tasks (w_db w)"
    using acc sel t by (simp_all add: task_accepted_def)
  have "guards_hold (tr_preconditions edge) (cleared_guards g) ctx" using acc sel by (simp add: task_accepted_def)
  then have "hasExecutableCheck t" "unresolvedKinds SkTask i (w_db w) = []" "dependenciesDone (gx_db ctx) t"
      "or_true (rg_authorizationCurrent g) = GTrue" "or_true (rg_recoveryAuthorized g) = GTrue"
    by (auto simp: guards_hold_iff edge READY_PRECONDITIONS_def structuralGuards_def ctx cleared_guards_def of_verdict_def split: if_splits)
  moreover have "dependenciesDone (gx_db ctx) t = dependenciesDone (w_db w) t"
    by (simp add: dependenciesDone_def ctx)
  moreover have "t_status t = PausedCap" using acc edge(1) by (simp add: task_accepted_def)
  moreover have "tbl_get t_id i (db_tasks (w_db w')) = Some (re_subject res)" "t_status (re_subject res) = Ready"
      "db_phases (w_db w') = db_phases (w_db w)"
    using wr t by (auto simp: task_written_def tbl_get_put)
  ultimately show ?thesis using t by blast
qed

lemma phase_cleared:
  assumes run: "transitionPhase (cleared_request g actor i PhRunning refs) w = (Inr res, w')"
  shows "(\<exists>p. tbl_get ph_id i (db_phases (w_db w')) = Some p \<and> ph_gateStatus p = PgRunning) \<and> db_tasks (w_db w') = db_tasks (w_db w)"
proof -
  let ?rq = "cleared_request g actor i PhRunning refs"
  have sel: "rq_to ?rq = Known PhRunning" "rq_subject ?rq = i" "rq_trigger ?rq = ''eligible_cap_cleared''"
    by (simp_all add: cleared_request_def)
  from transitionPhase_Inr [OF run] sel obtain p src edge ctx where acc: "phase_accepted ?rq (w_db w) p src edge PhRunning ctx"
    and wr: "phase_written (w_db w) p edge PhRunning res (w_db w')"
    by (auto simp: phase_accepted_def)
  have p: "tbl_get ph_id i (db_phases (w_db w)) = Some p" "ph_id p = i"
    using acc sel by (auto simp: phase_accepted_def dest: tbl_get_key)
  have "tr_id edge \<noteq> PhaseStaleEvidence" using acc cleared_edges(2) [of edge] sel by (simp add: phase_accepted_def)
  with wr p(2) have "ph_gateStatus (re_subject res) = PgRunning" "ph_id (re_subject res) = i"
    by (auto simp: phase_written_def phaseGateStatusFor_def phaseStorageStatus_def)
  then show ?thesis using wr p by (simp add: phase_written_def tbl_get_put)
qed


text \<open>A resume that did something: the task was paused for its caps and no unresolved blocker of another kind
  was on it, it has a check that can fail and finished dependencies, the supplied guards held, and it is ready
  again; its phase runs if no unresolved blocker of another kind was on the phase.\<close>

definition cap_resumed :: "cap_pause_deps \<Rightarrow> resume_guards \<Rightarrow> db \<Rightarrow> db \<Rightarrow> bool" where
  "cap_resumed deps g d d' \<longleftrightarrow>
     (\<exists>t. tbl_get t_id (cp_taskId deps) (db_tasks d) = Some t \<and> t_status t = PausedCap \<and> hasExecutableCheck t \<and>
        dependenciesDone d t) \<and>
     set (unresolvedKinds SkTask (cp_taskId deps) d) \<subseteq> {cap_blocker} \<and>
     or_true (rg_authorizationCurrent g) = GTrue \<and> or_true (rg_recoveryAuthorized g) = GTrue \<and>
     (\<exists>t'. tbl_get t_id (cp_taskId deps) (db_tasks d') = Some t' \<and> t_status t' = Ready) \<and>
     (set (unresolvedKinds SkPhase (cp_phaseId deps) d) \<subseteq> {cap_blocker} \<longrightarrow>
        (\<exists>p'. tbl_get ph_id (cp_phaseId deps) (db_phases d') = Some p' \<and> ph_gateStatus p' = PgRunning))"

lemma dependenciesDone_iff:
  "dependenciesDone d t \<longleftrightarrow> (\<forall>k \<in> set (t_dependencies t). \<exists>x. tbl_get t_id k (db_tasks d) = Some x \<and> t_status x = Done)"
  by (auto simp: dependenciesDone_def list_all_iff split: option.splits)

lemma standing_task:
  assumes same: "standing d = standing d'" and t': "tbl_get t_id i (db_tasks d') = Some t'"
    and ok: "hasExecutableCheck t'" "dependenciesDone d' t'"
  shows "\<exists>t. tbl_get t_id i (db_tasks d) = Some t \<and> t_status t = t_status t' \<and> hasExecutableCheck t \<and> dependenciesDone d t"
proof -
  have "standing d i = Some (t_status t', t_checks t', t_dependencies t')"
    unfolding same by (simp add: standing_def t')
  then obtain t where t: "tbl_get t_id i (db_tasks d) = Some t" "t_status t = t_status t'" "t_checks t = t_checks t'"
      "t_dependencies t = t_dependencies t'"
    by (auto simp: standing_def)
  have done_same: "(\<exists>x. tbl_get t_id k (db_tasks d) = Some x \<and> t_status x = Done) \<longleftrightarrow>
      (\<exists>x. tbl_get t_id k (db_tasks d') = Some x \<and> t_status x = Done)" for k
  proof -
    have "(\<exists>x. tbl_get t_id k (db_tasks e) = Some x \<and> t_status x = Done) \<longleftrightarrow> map_option fst (standing e k) = Some Done" for e
      by (auto simp: standing_def)
    then show ?thesis by (simp add: same)
  qed
  show ?thesis
    using t ok done_same by (auto simp: hasExecutableCheck_def dependenciesDone_iff)
qed

lemma clearCapPause_effect:
  assumes "clearCapPause deps watch g ts w = (Inr r, w')" and "distinct (map b_blockerId (db_blockers (w_db w)))"
  shows "cap_resumed deps g (w_db w) (w_db w')"
proof -
  let ?w0 = "w\<lparr>w_depth := Suc (w_depth w)\<rparr>"
  let ?task = "cleared_request g (cp_actor deps) (cp_taskId deps) Ready ((''availability:cleared_at='' @ ts) # map (\<lambda>r. ''route:'' @ r) watch)"
  let ?phase = "cleared_request g (cp_actor deps) (cp_phaseId deps) PhRunning [''availability:cleared_at='' @ ts]"
  from assms(1) obtain wa d where body:
      "(andThen (resolveBlockersOfKind (cp_actor deps) SkTask (cp_taskId deps) cap_blocker (cleared_detail ts)) (\<lambda>_.
       andThen (resolveBlockersOfKind (cp_actor deps) SkPhase (cp_phaseId deps) cap_blocker (cleared_detail ts)) (\<lambda>_.
       andThen (transitionTask ?task) (\<lambda>task. andThen (transitionPhase ?phase) (\<lambda>phase.
       ret \<lparr>cr_task = task, cr_phase = phase\<rparr>))))) ?w0 = (Inr r, wa)"
    and w': "w' = wa\<lparr>w_depth := d\<rparr>"
    unfolding clearCapPause_def by (elim store_write_InrE)
  from body obtain bs w1 bs' w2 tres w3 pres where
      r1: "resolveBlockersOfKind (cp_actor deps) SkTask (cp_taskId deps) cap_blocker (cleared_detail ts) ?w0 = (Inr bs, w1)"
    and r2: "resolveBlockersOfKind (cp_actor deps) SkPhase (cp_phaseId deps) cap_blocker (cleared_detail ts) w1 = (Inr bs', w2)"
    and task: "transitionTask ?task w2 = (Inr tres, w3)" and phase: "transitionPhase ?phase w3 = (Inr pres, wa)"
    by (auto simp: andThen_eq_Inr)
  have d1: "distinct (map b_blockerId (db_blockers (w_db ?w0)))" using assms(2) by simp
  have d2: "distinct (map b_blockerId (db_blockers (w_db w1)))" using resolve_kind_ids [OF r1] d1 by simp
  have "set (unresolvedKinds SkTask (cp_taskId deps) (w_db w)) \<subseteq> {cap_blocker}"
    using resolve_kind_left [OF r1 d1, of SkTask "cp_taskId deps"] resolve_kind_left [OF r2 d2, of SkTask "cp_taskId deps"]
      task_cleared [OF task] by auto
  moreover have "standing (w_db w) = standing (w_db w2)"
    using resolve_kind_standing [OF r1] resolve_kind_standing [OF r2] by simp
  ultimately show ?thesis
    using task_cleared [OF task] phase_cleared [OF phase] standing_task [of "w_db w" "w_db w2" "cp_taskId deps"]
    by (auto simp: cap_resumed_def w')
qed

lemma resumable_open: "isResumable watch rows ts \<longleftrightarrow> (\<exists>i \<in> set watch. route_open i ts rows)"
  by (simp add: isResumable_def list_ex_iff eligible_open)

lemma resumeIfCapCleared_effect:
  assumes "resumeIfCapCleared deps watch rows g w = (Inr res, w')" and "distinct (map b_blockerId (db_blockers (w_db w)))"
  shows "if \<exists>i \<in> set watch. route_open i (env_now (w_env w) (w_clock w)) rows
     then res \<noteq> None \<and> cap_resumed deps g (w_db w) (w_db w')
     else res = None \<and> w_db w' = w_db w"
proof -
  let ?ts = "env_now (w_env w) (w_clock w)"
  let ?w0 = "w\<lparr>w_clock := Suc (w_clock w)\<rparr>"
  have step: "(if \<not> isResumable watch rows ?ts then ret None
     else andThen (clearCapPause deps watch g ?ts) (\<lambda>r. ret (Some r))) ?w0 = (Inr res, w')"
    using assms(1) by (simp add: resumeIfCapCleared_def andThen_eq_Inr [of getNow] getNow_def isResumable_def)
  show ?thesis
  proof (cases "isResumable watch rows ?ts")
    case True
    with step obtain r where run: "clearCapPause deps watch g ?ts ?w0 = (Inr r, w')" and res: "res = Some r"
      by (auto simp: andThen_eq_Inr)
    have "distinct (map b_blockerId (db_blockers (w_db ?w0)))" using assms(2) by simp
    from clearCapPause_effect [OF run this] True res show ?thesis
      unfolding resumable_open by simp
  qed (use step in \<open>auto simp: resumable_open\<close>)
qed



section \<open>Where code and documentation part\<close>

text \<open>The second task of a phase whose candidates are all capped cannot be paused: its phase already is, and the
  refusal of the phase rolls the task's move back.\<close>

lemma second_capped_task_is_not_paused:
  assumes "tbl_get ph_id (cp_phaseId deps) (db_phases (w_db w)) = Some p" and "phaseLifecycleState (ph_gateStatus p) = Some PhPaused"
  shows "isl (fst (applyCapPause deps why reset watch blocker w))"
proof (cases "applyCapPause deps why reset watch blocker w")
  case (Pair x w')
  show ?thesis
  proof (cases x)
    case (Inr r)
    then show ?thesis
      using applyCapPause_effect [OF Pair [unfolded Inr]] assms by (auto simp: cap_paused_def)
  qed (simp add: Pair)
qed

text \<open>Other reasons hold the task but not the phase: a phase the user paused runs again when a cap clears.\<close>

definition fx_blocker :: "string \<Rightarrow> subject_kind \<Rightarrow> string \<Rightarrow> string \<Rightarrow> blocker_row" where
  "fx_blocker i k sid kind = \<lparr>b_blockerId = i, b_createdAt = ''t'', b_workflowId = ''w'', b_subjectKind = k, b_subjectId = sid,
     b_kind = kind, b_detail = [], b_raisedBy = [], b_resolvedAt = None, b_resolvedBy = None, b_resolutionDetail = None\<rparr>"

definition fx_capped :: db where
  "fx_capped = (fx_db PausedCap PgPausedCap None)\<lparr>db_blockers :=
     [fx_blocker ''b1'' SkTask ''t1'' cap_blocker, fx_blocker ''b2'' SkPhase ''p'' cap_blocker, fx_blocker ''b3'' SkPhase ''p'' ''user_pause'']\<rparr>"

definition fx_deps :: cap_pause_deps where
  "fx_deps = \<lparr>cp_taskId = ''t1'', cp_phaseId = ''p'', cp_actor = fx_engine\<rparr>"

definition fx_guards :: resume_guards where
  "fx_guards = \<lparr>rg_authorizationCurrent = None, rg_recoveryAuthorized = None\<rparr>"

lemma paused_phase_resumes:
  "case resumeIfCapCleared fx_deps [''a''] [] fx_guards (fx_world fx_capped) of (Inl _, _) \<Rightarrow> False
   | (Inr res, w') \<Rightarrow> res \<noteq> None \<and> map ph_gateStatus (db_phases (w_db w')) = [PgRunning] \<and>
       unresolvedKinds SkPhase ''p'' (w_db w') = [''user_pause'']"
  by code_simp

text \<open>A cap that is still on record counts as cleared once its estimated reset has passed.\<close>

lemma passed_estimate_resumes:
  "case resumeIfCapCleared fx_deps [''a''] [fx_capped_row ''a'' ''s''] fx_guards (fx_world fx_capped) of (Inl _, _) \<Rightarrow> False
   | (Inr res, w') \<Rightarrow> res \<noteq> None"
  by code_simp

definition fx_capped_only :: db where
  "fx_capped_only = (fx_db PausedCap PgPausedCap None)\<lparr>db_blockers :=
     [fx_blocker ''b1'' SkTask ''t1'' cap_blocker, fx_blocker ''b2'' SkPhase ''p'' cap_blocker]\<rparr>"

lemma fx_resumes:
  "\<not> isl (fst (resumeIfCapCleared fx_deps [''b'', ''a''] [fx_capped_row ''b'' ''u''] fx_guards (fx_world fx_capped_only)))"
  "route_open ''a'' (env_now fx_env 0) [fx_capped_row ''b'' ''u'']"
  "set (unresolvedKinds SkPhase ''p'' fx_capped_only) \<subseteq> {cap_blocker}"
  by code_simp+


end
