(* ===== verification/CheckRuns.thy ===== *)
theory CheckRuns
  imports TaskGate Blockers WeakChecks
begin

text \<open>
  \<open>src/verification/checks.ts\<close> and \<open>src/verification/flaky.ts\<close>: registering project checks,
  running one check, reconciling several runs of it into one state, and reading the states back from
  the evidence rows. What the operating system answers (the revision of the worktree, whether a
  directory exists, the events of the child process) is a record given to every run; the redactor
  and the content hash are parameters. Sending signals to the process tree is not modelled.
\<close>

section \<open>Registration\<close>

record project_check =
  pj_id :: string
  pj_kind :: "check_kind option"
  pj_command :: string
  pj_cwd :: "string option"
  pj_expectedExitCode :: "int option"
  pj_required :: "bool option"

definition PROJECT_CHECK_PREFIX :: string where
  "PROJECT_CHECK_PREFIX = ''project:''"

definition isProjectCheck :: "check_definition \<Rightarrow> bool" where
  "isProjectCheck c = starts_with PROJECT_CHECK_PREFIX (ck_id c)"

definition or_else :: "'a option \<Rightarrow> 'a \<Rightarrow> 'a" where
  "or_else v d = (case v of None \<Rightarrow> d | Some x \<Rightarrow> x)"

definition projectCheckDefinition :: "project_check \<Rightarrow> check_definition" where
  "projectCheckDefinition p =
     \<lparr>ck_id = PROJECT_CHECK_PREFIX @ pj_id p, ck_kind = or_else (pj_kind p) CkCommand,
      ck_command = pj_command p, ck_cwd = or_else (pj_cwd p) ''.'',
      ck_expectedExitCode = or_else (pj_expectedExitCode p) 0, ck_coversCriteria = [],
      ck_required = or_else (pj_required p) True\<rparr>"

text \<open>\<open>Map.set\<close> and \<open>values()\<close>: a key keeps its first position and takes its last value.\<close>

fun map_set :: "check_definition \<Rightarrow> check_definition list \<Rightarrow> check_definition list" where
  "map_set c [] = [c]"
| "map_set c (d # ds) = (if ck_id d = ck_id c then c # ds else d # map_set c ds)"

definition registeredChecks :: "check_definition list \<Rightarrow> project_check list \<Rightarrow> check_definition list" where
  "registeredChecks taskChecks projectChecks =
     taskChecks @ fold (\<lambda>p ds. map_set (projectCheckDefinition p) ds) projectChecks []"

section \<open>The process tree\<close>

text \<open>
  \<open>descendantPids\<close>: a breadth-first walk over the process table, rows \<open>(pid, ppid)\<close>.
\<close>

definition add_child :: "int \<Rightarrow> int list \<Rightarrow> int \<times> int \<Rightarrow> int list \<Rightarrow> int list" where
  "add_child parent seen row found =
     (if snd row = parent \<and> fst row \<notin> set seen \<and> fst row \<notin> set found then found @ [fst row] else found)"

definition children_of :: "(int \<times> int) list \<Rightarrow> int \<Rightarrow> int list \<Rightarrow> int list" where
  "children_of table parent seen = fold (add_child parent seen) table []"

lemma children_found:
  "set (fold (add_child parent seen) table acc) = set acc \<union> {p. (p, parent) \<in> set table \<and> p \<notin> set seen}"
  by (induction table arbitrary: acc) (auto simp: add_child_def)

lemma set_children_of: "set (children_of table parent seen) = {p. (p, parent) \<in> set table \<and> p \<notin> set seen}"
  by (simp add: children_of_def children_found)

lemma children_distinct: "distinct acc \<Longrightarrow> distinct (fold (add_child parent seen) table acc)"
  by (induction table arbitrary: acc) (auto simp: add_child_def)

lemma distinct_children_of: "distinct (children_of table parent seen)"
  by (simp add: children_of_def children_distinct)

definition unseen_pids :: "(int \<times> int) list \<Rightarrow> int list \<Rightarrow> nat" where
  "unseen_pids table seen = card (fst ` set table - set seen)"

lemma unseen_pids_drop:
  assumes "children_of table parent seen = c # cs"
  shows "unseen_pids table (seen @ c # cs) < unseen_pids table seen"
proof -
  have "c \<in> set (children_of table parent seen)"
    by (simp add: assms)
  then have "(c, parent) \<in> set table" "c \<notin> set seen"
    by (auto simp: set_children_of)
  then have "fst ` set table - set (seen @ c # cs) \<subset> fst ` set table - set seen"
    by force
  then show ?thesis
    by (simp add: unseen_pids_def psubset_card_mono)
qed

function walk_pids :: "(int \<times> int) list \<Rightarrow> int list \<Rightarrow> int list \<Rightarrow> int list \<Rightarrow> int list" where
  "walk_pids table seen [] out = out"
| "walk_pids table seen (parent # queue) out =
     (let found = children_of table parent seen in
      walk_pids table (seen @ found) (queue @ found) (out @ found))"
  by pat_completeness auto
termination
proof (relation "measures [\<lambda>(table, seen, queue, out). unseen_pids table seen,
                           \<lambda>(table, seen, queue, out). length queue]", goal_cases)
  case (2 table seen parent queue out found)
  then show ?case
    using unseen_pids_drop [of table parent seen]
    by (cases "children_of table parent seen") auto
qed simp

definition descendantPids :: "int \<Rightarrow> (int \<times> int) list \<Rightarrow> int list" where
  "descendantPids root_pid table = walk_pids table [root_pid] [root_pid] []"

text \<open>
  The walk reaches exactly the processes below the root, each of them once: a process whose parent
  link leads back to the root through others is killed with it, an unrelated one never is.
\<close>

definition parent_links :: "(int \<times> int) list \<Rightarrow> (int \<times> int) set" where
  "parent_links table = {(ppid, pid). (pid, ppid) \<in> set table}"

lemma walk_pids_reach:
  assumes "set queue \<subseteq> set seen" and "set seen = insert r (set out)" and "r \<notin> set out" and "distinct out"
    and "\<And>p. p \<in> set seen \<Longrightarrow> (r, p) \<in> (parent_links table)\<^sup>*"
    and "\<And>p c. p \<in> set seen \<Longrightarrow> p \<notin> set queue \<Longrightarrow> (p, c) \<in> parent_links table \<Longrightarrow> c \<in> set seen"
  shows "set (walk_pids table seen queue out) = {p. (r, p) \<in> (parent_links table)\<^sup>*} - {r}
    \<and> distinct (walk_pids table seen queue out)"
  using assms
proof (induction table seen queue out rule: walk_pids.induct)
  case (1 table seen out)
  have "p \<in> set seen" if "(r, p) \<in> (parent_links table)\<^sup>*" for p
    using that
  proof (induction rule: rtrancl_induct)
    case base
    then show ?case
      using 1(2) by simp
  next
    case (step p c)
    then show ?case
      using 1(6) [of p c] by simp
  qed
  then have "set seen = {p. (r, p) \<in> (parent_links table)\<^sup>*}"
    using 1(5) by blast
  then show ?case
    using 1(2-4) by simp blast
next
  case (2 table seen parent queue out)
  let ?found = "children_of table parent seen"
  have found: "set ?found = {c. (parent, c) \<in> parent_links table \<and> c \<notin> set seen}"
    by (auto simp: set_children_of parent_links_def)
  have reach: "(r, p) \<in> (parent_links table)\<^sup>*" if "p \<in> set (seen @ ?found)" for p
    using that 2(2,6) found by (auto intro: rtrancl_into_rtrancl)
  have closed_up: "c \<in> set (seen @ ?found)"
    if "p \<in> set (seen @ ?found)" "p \<notin> set (queue @ ?found)" "(p, c) \<in> parent_links table" for p c
    using that 2(7) [of p c] found by (cases "p = parent") auto
  have steps: "distinct (out @ ?found)" "r \<notin> set (out @ ?found)" "set (queue @ ?found) \<subseteq> set (seen @ ?found)"
    "set (seen @ ?found) = insert r (set (out @ ?found))"
    using 2(2-5) found by (auto simp: distinct_children_of)
  show ?case
    unfolding walk_pids.simps Let_def
    by (rule 2(1) [OF refl steps(3) steps(4) steps(2) steps(1)], erule reach, erule (2) closed_up)
qed

lemma descendants_are_the_processes_below:
  "set (descendantPids r table) = {p. (r, p) \<in> (parent_links table)\<^sup>*} - {r}
   \<and> distinct (descendantPids r table)"
  unfolding descendantPids_def by (rule walk_pids_reach) auto

section \<open>Captured output\<close>

text \<open>
  A stream is the sequence of its bytes: a character is one byte of the buffer the source slices.
\<close>

record captured_stream =
  cs_text :: string
  cs_truncated :: bool
  cs_originalBytes :: nat
  cs_contentHash :: content_hash

definition DEFAULT_OUTPUT_LIMIT_BYTES :: nat where
  "DEFAULT_OUTPUT_LIMIT_BYTES = 64 * 1024"

definition TRUNCATION_MARKER :: string where
  "TRUNCATION_MARKER = CHR 0x0A # ''[... truncated by korwf: output limit reached ...]'' @ [CHR 0x0A]"

definition capturedOutput ::
  "(string \<Rightarrow> string) \<Rightarrow> (string \<Rightarrow> content_hash) \<Rightarrow> nat \<Rightarrow> string \<Rightarrow> captured_stream"
where
  "capturedOutput redact hash limitBytes raw =
     (let redacted = redact raw; originalBytes = length redacted in
      if originalBytes \<le> limitBytes
      then \<lparr>cs_text = redacted, cs_truncated = False, cs_originalBytes = originalBytes,
            cs_contentHash = hash redacted\<rparr>
      else let half = max 1 ((limitBytes - length TRUNCATION_MARKER) div 2);
               txt = take half redacted @ TRUNCATION_MARKER @ drop (originalBytes - half) redacted
           in \<lparr>cs_text = txt, cs_truncated = True, cs_originalBytes = originalBytes,
               cs_contentHash = hash txt\<rparr>)"

lemma captured_is_bounded:
  assumes "length TRUNCATION_MARKER + 2 \<le> limitBytes"
  shows "length (cs_text (capturedOutput redact hash limitBytes raw)) \<le> limitBytes"
  using assms by (auto simp: capturedOutput_def Let_def)

section \<open>Executing a command\<close>

text \<open>
  \<open>executeCommand\<close>: the promise settles at the child's first \<open>error\<close> or \<open>close\<close> event, or at
  once when \<open>spawn\<close> throws. What the child did before is the list of its events: output, a
  deadline or an abort (both call \<open>terminate\<close>), and the end of the killing.
\<close>

datatype child_event = EvStdout string | EvStderr string | EvTerminate | EvKilled "int list"

datatype settle_event =
    SpawnThrew "string option" string
  | ChildError "string option" string
  | ChildClosed "int option" "string option"

record child_run =
  cr_before :: "child_event list"
  cr_settled :: settle_event
  cr_elapsed :: nat

record executed = command_outcome +
  co_durationMs :: nat
  co_killedPids :: "int list"

record child_state =
  cd_stdout :: string
  cd_stderr :: string
  cd_timedOut :: bool
  cd_killedPids :: "int list"

fun child_step :: "child_event \<Rightarrow> child_state \<Rightarrow> child_state" where
  "child_step (EvStdout chunk) st = st\<lparr>cd_stdout := cd_stdout st @ chunk\<rparr>"
| "child_step (EvStderr chunk) st = st\<lparr>cd_stderr := cd_stderr st @ chunk\<rparr>"
| "child_step EvTerminate st = st\<lparr>cd_timedOut := True\<rparr>"
| "child_step (EvKilled pids) st = st\<lparr>cd_killedPids := pids\<rparr>"

definition spawnFailure :: "string option \<Rightarrow> string \<Rightarrow> nat \<Rightarrow> executed" where
  "spawnFailure code message durationMs =
     \<lparr>co_exitCode = None, co_signal = None, co_timedOut = False,
      co_unavailable = Some (if code = Some ''ENOENT'' then ''command_not_found''
                             else if code = Some ''EACCES'' then ''not_executable'' else ''spawn_failed''),
      co_stdout = [], co_stderr = message, co_durationMs = durationMs, co_killedPids = []\<rparr>"

definition executeCommand :: "child_run \<Rightarrow> executed" where
  "executeCommand c =
     (let st = fold child_step (cr_before c)
                 \<lparr>cd_stdout = [], cd_stderr = [], cd_timedOut = False, cd_killedPids = []\<rparr>
      in case cr_settled c of
           SpawnThrew code message \<Rightarrow> spawnFailure code message (cr_elapsed c)
         | ChildError code message \<Rightarrow>
             (spawnFailure code message (cr_elapsed c))
               \<lparr>co_stdout := cd_stdout st, co_stderr := cd_stderr st\<rparr>
         | ChildClosed code sig \<Rightarrow>
             \<lparr>co_exitCode = code, co_signal = sig, co_timedOut = cd_timedOut st, co_unavailable = None,
              co_stdout = cd_stdout st, co_stderr = cd_stderr st, co_durationMs = cr_elapsed c,
              co_killedPids = cd_killedPids st\<rparr>)"

section \<open>Running one check\<close>

text \<open>
  What one run finds: the environment of the process, the revision git reports for the worktree at
  that moment, the directories that exist, and what a command does there under a deadline.
\<close>

record machine =
  mc_env :: "(string \<times> string option) list"
  mc_nodeVersion :: string
  mc_platform :: string
  mc_arch :: string
  mc_shell :: string
  mc_revision :: "git_sha option"
  mc_exists :: "string \<Rightarrow> bool"
  mc_spawn :: "string \<Rightarrow> string \<Rightarrow> nat \<Rightarrow> child_run"
  mc_redact :: "string \<Rightarrow> string"
  mc_hash :: "string \<Rightarrow> content_hash"
  mc_hashEnvironment :: "environment_fingerprint \<Rightarrow> content_hash"

record check_options =
  op_cwd :: string
  op_subject :: evidence_subject
  op_timeoutMs :: "nat option"
  op_outputLimitBytes :: "nat option"

record check_run =
  kr_checkId :: string
  kr_status :: check_run_status
  kr_exitStatus :: exit_status
  kr_revision :: "git_sha option"
  kr_stdout :: captured_stream
  kr_stderr :: captured_stream
  kr_durationMs :: nat
  kr_fingerprint :: environment_fingerprint
  kr_killedPids :: "int list"
  kr_evidence :: "evidence option"
  kr_caveats :: "string list"

definition DEFAULT_CHECK_TIMEOUT_MS :: nat where
  "DEFAULT_CHECK_TIMEOUT_MS = 10 * 60 * 1000"

text \<open>\<open>path.resolve\<close> of an absolute directory and a relative path.\<close>

fun normal_segments :: "string list \<Rightarrow> string list \<Rightarrow> string list" where
  "normal_segments acc [] = rev acc"
| "normal_segments acc (s # ss) =
     (if s = [] \<or> s = ''.'' then normal_segments acc ss
      else if s = ''..'' then normal_segments (tl acc) ss
      else normal_segments (s # acc) ss)"

definition path_resolve :: "string \<Rightarrow> string \<Rightarrow> string" where
  "path_resolve base p =
     CHR ''/'' # join_str ''/'' (normal_segments [] (split_on (CHR ''/'') (base @ ''/'' @ p)))"

definition resolveCheckCwd :: "string \<Rightarrow> string \<Rightarrow> string" where
  "resolveCheckCwd worktree checkCwd =
     (if checkCwd = [] \<or> checkCwd = ''.'' then worktree
      else if starts_with ''/'' checkCwd then worktree
      else path_resolve worktree checkCwd)"

definition captured :: "machine \<Rightarrow> check_options \<Rightarrow> string \<Rightarrow> captured_stream" where
  "captured m opts raw =
     capturedOutput (mc_redact m) (mc_hash m) (or_else (op_outputLimitBytes opts) DEFAULT_OUTPUT_LIMIT_BYTES) raw"

definition machine_fingerprint :: "machine \<Rightarrow> environment_fingerprint" where
  "machine_fingerprint m =
     fingerprintEnvironment (mc_env m) (mc_nodeVersion m) (mc_platform m) (mc_arch m) (mc_shell m)"

text \<open>A draft has no envelope: its id and creation time are empty until the store assigns them.\<close>

definition check_draft ::
  "machine \<Rightarrow> check_options \<Rightarrow> check_definition \<Rightarrow> git_sha \<Rightarrow> exit_status \<Rightarrow> string list \<Rightarrow> evidence"
where
  "check_draft m opts check rv status caveats =
     buildEvidenceDraft (mc_hashEnvironment m) [] [] (op_subject opts) check rv (machine_fingerprint m)
       status None caveats"

definition unavailableResult ::
  "machine \<Rightarrow> check_options \<Rightarrow> check_definition \<Rightarrow> string \<Rightarrow> string \<Rightarrow> git_sha option \<Rightarrow> check_run"
where
  "unavailableResult m opts check why detail rv =
     \<lparr>kr_checkId = ck_id check, kr_status = CsUnavailable, kr_exitStatus = Unavailable why,
      kr_revision = rv, kr_stdout = captured m opts [], kr_stderr = captured m opts detail,
      kr_durationMs = 0, kr_fingerprint = machine_fingerprint m, kr_killedPids = [],
      kr_evidence = map_option (\<lambda>r. check_draft m opts check r (Unavailable why) [detail]) rv,
      kr_caveats = [detail]\<rparr>"

definition resultCaveats :: "exit_status \<Rightarrow> captured_stream \<Rightarrow> captured_stream \<Rightarrow> executed \<Rightarrow> string list" where
  "resultCaveats status sout serr oc =
     (if cs_truncated sout then [''stdout truncated from '' @ digits (cs_originalBytes sout) @ '' bytes''] else []) @
     (if cs_truncated serr then [''stderr truncated from '' @ digits (cs_originalBytes serr) @ '' bytes''] else []) @
     (if status = TimedOut
      then (''killed on deadline after '' @ digits (co_durationMs oc) @ ''ms'') #
           (if co_killedPids oc \<noteq> []
            then [''process tree terminated: '' @ digits (length (co_killedPids oc)) @ '' pid(s)''] else [])
      else []) @
     (case status of Unavailable why \<Rightarrow> [''unavailable: '' @ why] | _ \<Rightarrow> [])"

definition quoted :: "string \<Rightarrow> string" where
  "quoted s = CHR 0x22 # s @ [CHR 0x22]"

definition executed_result ::
  "machine \<Rightarrow> check_options \<Rightarrow> check_definition \<Rightarrow> git_sha \<Rightarrow> executed \<Rightarrow> check_run"
where
  "executed_result m opts check rv oc =
     (let status = classifyOutcome (command_outcome.truncate oc);
          sout = captured m opts (co_stdout oc);
          serr = captured m opts (co_stderr oc);
          caveats = resultCaveats status sout serr oc
      in \<lparr>kr_checkId = ck_id check, kr_status = runStatusOf status (ck_expectedExitCode check),
          kr_exitStatus = status, kr_revision = Some rv, kr_stdout = sout, kr_stderr = serr,
          kr_durationMs = co_durationMs oc, kr_fingerprint = machine_fingerprint m,
          kr_killedPids = co_killedPids oc,
          kr_evidence = Some (check_draft m opts check rv status caveats), kr_caveats = caveats\<rparr>)"

definition runCheck :: "check_definition \<Rightarrow> check_options \<Rightarrow> machine \<Rightarrow> check_run" where
  "runCheck check opts m =
     (if ck_kind check = CkHuman
      then unavailableResult m opts check ''weak_check''
             (''check '' @ quoted (ck_id check) @ '' is a human check: it is satisfied by an approval, not by running a command (see requestHumanCheck)'')
             (mc_revision m)
      else if \<not> isVerifyingCheck check
      then unavailableResult m opts check ''weak_check''
             (''check '' @ quoted (ck_id check) @ '' cannot fail, so running it verifies nothing'') (mc_revision m)
      else case mc_revision m of
        None \<Rightarrow> unavailableResult m opts check ''no_revision''
                  (''no git revision available for worktree '' @ op_cwd opts @ ''; evidence cannot be pinned'') None
      | Some rv \<Rightarrow>
          let cwd = resolveCheckCwd (op_cwd opts) (ck_cwd check) in
          if \<not> mc_exists m cwd
          then unavailableResult m opts check ''cwd_missing''
                 (''working directory '' @ quoted (ck_cwd check) @ '' does not exist in the worktree'') (Some rv)
          else executed_result m opts check rv
                 (executeCommand (mc_spawn m (ck_command check) cwd (or_else (op_timeoutMs opts) DEFAULT_CHECK_TIMEOUT_MS))))"

section \<open>Human checks and the whole suite\<close>

definition humanCheckAction :: "string \<Rightarrow> string" where
  "humanCheckAction i = ''verify_check:'' @ i"

record pending_approval =
  pa_checkId :: string
  pa_workflowId :: string
  pa_taskId :: string
  pa_taskRevision :: revision
  pa_revision :: "git_sha option"
  pa_instruction :: string
  pa_permittedAction :: string
  pa_coversCriteria :: "string list"
  pa_required :: bool

primrec check_kind_text :: "check_kind \<Rightarrow> string" where
  "check_kind_text CkCommand = ''command''"
| "check_kind_text CkAssertion = ''assertion''"
| "check_kind_text CkLint = ''lint''"
| "check_kind_text CkTypecheck = ''typecheck''"
| "check_kind_text CkHuman = ''human''"

definition requestHumanCheck ::
  "check_definition \<Rightarrow> check_options \<Rightarrow> machine \<Rightarrow> string + pending_approval"
where
  "requestHumanCheck check opts m =
     (if ck_kind check \<noteq> CkHuman then Inl (''check '' @ quoted (ck_id check) @ '' is '' @
                                           check_kind_text (ck_kind check) @ '', not a human check'')
      else Inr \<lparr>pa_checkId = ck_id check, pa_workflowId = es_workflowId (op_subject opts),
                pa_taskId = es_taskId (op_subject opts), pa_taskRevision = es_taskRevision (op_subject opts),
                pa_revision = mc_revision m, pa_instruction = ck_command check,
                pa_permittedAction = humanCheckAction (ck_id check),
                pa_coversCriteria = ck_coversCriteria check, pa_required = ck_required check\<rparr>)"

record suite_result =
  sr_results :: "check_run list"
  sr_pendingApprovals :: "pending_approval list"
  sr_allPassed :: bool

text \<open>The checks run one after the other; \<open>ms i\<close> is the machine as the \<open>i\<close>-th of them finds it.\<close>

fun run_suite ::
  "check_options \<Rightarrow> (check_definition \<Rightarrow> nat option) \<Rightarrow> (nat \<Rightarrow> machine) \<Rightarrow> nat \<Rightarrow>
   check_definition list \<Rightarrow> check_run list \<times> pending_approval list"
where
  "run_suite opts timeoutMsFor ms i [] = ([], [])"
| "run_suite opts timeoutMsFor ms i (check # rest) =
     (let (results, pending) = run_suite opts timeoutMsFor ms (Suc i) rest in
      case requestHumanCheck check opts (ms i) of
        Inr request \<Rightarrow> (results, request # pending)
      | Inl not_human \<Rightarrow>
          let timeoutMs = (case timeoutMsFor check of None \<Rightarrow> op_timeoutMs opts | Some t \<Rightarrow> Some t)
          in (runCheck check (opts\<lparr>op_timeoutMs := timeoutMs\<rparr>) (ms i) # results, pending))"

definition runChecks ::
  "check_definition list \<Rightarrow> check_options \<Rightarrow> (check_definition \<Rightarrow> nat option) \<Rightarrow> (nat \<Rightarrow> machine) \<Rightarrow> suite_result"
where
  "runChecks checks opts timeoutMsFor ms =
     (let (results, pending) = run_suite opts timeoutMsFor ms 0 checks in
      \<lparr>sr_results = results, sr_pendingApprovals = pending,
       sr_allPassed = (pending = [] \<and> results \<noteq> [] \<and> list_all (\<lambda>r. kr_status r = CsPass) results)\<rparr>)"

section \<open>Several runs of one check\<close>

definition MISSING_CHECK_BLOCKER :: string where
  "MISSING_CHECK_BLOCKER = ''missing_check''"

record rerun_policy =
  rp_rerunOnFail :: bool
  rp_maxReruns :: nat
  rp_allowFlakyToPass :: bool

definition DEFAULT_RERUN_POLICY :: rerun_policy where
  "DEFAULT_RERUN_POLICY = \<lparr>rp_rerunOnFail = True, rp_maxReruns = 1, rp_allowFlakyToPass = False\<rparr>"

record flaky_result =
  fr_checkId :: string
  fr_runs :: "check_run list"
  fr_status :: check_run_status
  fr_revision :: "git_sha option"
  fr_evidence :: "evidence list"

definition NON_EXIT_RUN_CODE :: int where
  "NON_EXIT_RUN_CODE = -1"

definition run_code :: "check_run \<Rightarrow> int" where
  "run_code r = (case kr_exitStatus r of Exited code \<Rightarrow> code | _ \<Rightarrow> NON_EXIT_RUN_CODE)"

definition drafts_of :: "check_run list \<Rightarrow> evidence list" where
  "drafts_of runs = List.map_filter kr_evidence runs"

definition flakyDraft :: "check_run list \<Rightarrow> evidence list" where
  "flakyDraft sameRevision =
     (case last_opt (drafts_of sameRevision) of
        None \<Rightarrow> []
      | Some base \<Rightarrow>
          [base\<lparr>e_exitStatus := FlakyRuns (map run_code sameRevision),
                e_caveats := e_caveats base @
                  [''runs at revision '' @ e_revision base @ '' disagreed ('' @
                   join_str '', '' (map (check_status_text \<circ> kr_status) sameRevision) @
                   ''); flaky never satisfies the gate (PLAN '' @ CHR 0xA7 # ''3.F)''],
                e_supersedesId := None\<rparr>])"

definition same_revision :: "check_run list \<Rightarrow> check_run list" where
  "same_revision runs =
     filter (\<lambda>r. kr_revision r = kr_revision (hd runs) \<and> kr_revision r \<noteq> None) runs"

definition runs_disagree :: "check_run list \<Rightarrow> bool" where
  "runs_disagree same \<longleftrightarrow> 1 < length same \<and> list_ex (\<lambda>r. kr_status r = CsPass) same \<and>
     list_ex (\<lambda>r. kr_status r \<noteq> CsPass) same"

definition reconcileRuns :: "string \<Rightarrow> check_run list \<Rightarrow> string + flaky_result" where
  "reconcileRuns checkId runs =
     (if runs = [] then Inl (''reconcileRuns('' @ quoted checkId @ '') called with no runs'')
      else let same = same_revision runs; evidence = drafts_of runs in
        if runs_disagree same
        then Inr \<lparr>fr_checkId = checkId, fr_runs = runs, fr_status = CsFlaky,
                  fr_revision = kr_revision (hd runs), fr_evidence = evidence @ flakyDraft same\<rparr>
        else let final = (case last_opt same of None \<Rightarrow> hd runs | Some r \<Rightarrow> r)
             in Inr \<lparr>fr_checkId = checkId, fr_runs = runs, fr_status = kr_status final,
                     fr_revision = kr_revision final, fr_evidence = evidence\<rparr>)"

definition rerunnable :: "check_run_status \<Rightarrow> bool" where
  "rerunnable st \<longleftrightarrow> st = CsFail \<or> st = CsTimeout"

fun reruns :: "(nat \<Rightarrow> check_run) \<Rightarrow> git_sha option \<Rightarrow> nat \<Rightarrow> nat \<Rightarrow> check_run list" where
  "reruns run rv i 0 = []"
| "reruns run rv i (Suc n) =
     (let r = run i in
      if kr_status r = CsPass \<and> kr_revision r = rv then [r] else r # reruns run rv (Suc i) n)"

text \<open>\<open>ms i\<close> is the machine as the \<open>i\<close>-th run finds it: the worktree may have moved in between.\<close>

definition policy_runs ::
  "check_definition \<Rightarrow> check_options \<Rightarrow> rerun_policy \<Rightarrow> (nat \<Rightarrow> machine) \<Rightarrow> check_run list"
where
  "policy_runs check opts policy ms =
     (let first = runCheck check opts (ms 0) in
      first # (if rp_rerunOnFail policy \<and> rerunnable (kr_status first)
               then reruns (\<lambda>i. runCheck check opts (ms i)) (kr_revision first) 1 (rp_maxReruns policy)
               else []))"

definition runCheckWithRerunPolicy ::
  "check_definition \<Rightarrow> check_options \<Rightarrow> rerun_policy \<Rightarrow> (nat \<Rightarrow> machine) \<Rightarrow> string + flaky_result"
where
  "runCheckWithRerunPolicy check opts policy ms = reconcileRuns (ck_id check) (policy_runs check opts policy ms)"

section \<open>Reading the states back\<close>

definition isFreshEvidence :: "evidence \<Rightarrow> revision \<Rightarrow> git_sha \<Rightarrow> string list \<Rightarrow> bool" where
  "isFreshEvidence e taskRevision currentSha superseded \<longleftrightarrow>
     e_taskRevision e = taskRevision \<and> e_revision e = currentSha \<and> e_id e \<notin> set superseded"

definition newer_row :: "evidence \<Rightarrow> evidence \<Rightarrow> evidence" where
  "newer_row best e =
     (if e_createdAt best < e_createdAt e then e
      else if e_createdAt e < e_createdAt best then best
      else if e_id best < e_id e then e else best)"

definition latestFreshEvidence :: "evidence list \<Rightarrow> revision \<Rightarrow> git_sha \<Rightarrow> string list \<Rightarrow> evidence option" where
  "latestFreshEvidence rows taskRevision currentSha superseded =
     (case filter (\<lambda>e. isFreshEvidence e taskRevision currentSha superseded) rows of
        [] \<Rightarrow> None
      | e # es \<Rightarrow> Some (foldl newer_row e es))"

fun stateFromExitStatus :: "exit_status \<Rightarrow> int \<Rightarrow> check_run_status" where
  "stateFromExitStatus (Exited code) expected = (if code = expected then CsPass else CsFail)"
| "stateFromExitStatus TimedOut expected = CsTimeout"
| "stateFromExitStatus (Unavailable why) expected = CsUnavailable"
| "stateFromExitStatus (FlakyRuns codes) expected = CsFlaky"
| "stateFromExitStatus (Signalled sig) expected = CsFail"
| "stateFromExitStatus Missing expected = CsMissing"

definition checkState ::
  "check_definition \<Rightarrow> evidence list \<Rightarrow> revision \<Rightarrow> git_sha \<Rightarrow> string list \<Rightarrow> check_run_status"
where
  "checkState check rows taskRevision currentSha superseded =
     (case latestFreshEvidence rows taskRevision currentSha superseded of
        None \<Rightarrow> CsMissing
      | Some e \<Rightarrow> stateFromExitStatus (e_exitStatus e) (ck_expectedExitCode check))"

definition uncoveredCriteria :: "acceptance_criterion list \<Rightarrow> check_definition list \<Rightarrow> string list" where
  "uncoveredCriteria criteria checks =
     map ac_id (filter (\<lambda>ac. ac_id ac \<notin> set (concat (map ck_coversCriteria checks))) criteria)"

definition missingCheckBlockerDetail :: "string \<Rightarrow> string" where
  "missingCheckBlockerDetail i = ''acceptance criterion '' @ quoted i @ '' has no registered check covering it''"

record task_check_summary =
  ts_checks :: "(string \<times> check_run_status) list"
  ts_uncoveredCriteria :: "string list"

definition rows_of_check :: "string \<Rightarrow> evidence list \<Rightarrow> evidence list" where
  "rows_of_check i rows = filter (\<lambda>e. or_else (e_checkId e) [] = i) rows"

definition taskCheckSummary :: "task \<Rightarrow> evidence list \<Rightarrow> git_sha option \<Rightarrow> string list \<Rightarrow> task_check_summary" where
  "taskCheckSummary task rows currentSha superseded =
     \<lparr>ts_checks = map (\<lambda>check. (ck_id check,
        case currentSha of None \<Rightarrow> CsMissing
        | Some sha \<Rightarrow> checkState check (rows_of_check (ck_id check) rows) (t_revision task) sha superseded))
        (t_checks task),
      ts_uncoveredCriteria = uncoveredCriteria (t_acceptanceCriteria task) (t_checks task)\<rparr>"

definition missing_check_raise :: "transition_actor \<Rightarrow> string \<Rightarrow> raise_options" where
  "missing_check_raise actor i = \<lparr>ro_actor = actor, ro_kind = MISSING_CHECK_BLOCKER,
     ro_detail = missingCheckBlockerDetail i, ro_evidenceRefs = None\<rparr>"

definition raise_missing_check :: "transition_actor \<Rightarrow> string \<Rightarrow> string \<Rightarrow> (task, task_edge) raise_result io" where
  "raise_missing_check actor tid i = raiseTaskBlocker (missing_check_raise actor i) tid"

definition raiseMissingCheckBlockers ::
  "transition_actor \<Rightarrow> task \<Rightarrow> string option \<Rightarrow> (task, task_edge) raise_result list io"
where
  "raiseMissingCheckBlockers actor task taskId =
     mapEach (raise_missing_check actor (or_else taskId (t_id task)))
       (uncoveredCriteria (t_acceptanceCriteria task) (t_checks task))"

section \<open>What a passing run shows\<close>

lemma executeCommand_terminated:
  assumes "EvTerminate \<in> set (cr_before c)" and "cr_settled c = ChildClosed code sig"
  shows "co_timedOut (executeCommand c)"
proof -
  have kept: "cd_timedOut st \<Longrightarrow> cd_timedOut (fold child_step es st)" for es st
  proof (induction es arbitrary: st)
    case (Cons e es)
    then show ?case
      by (cases e) auto
  qed simp
  have "EvTerminate \<in> set es \<Longrightarrow> cd_timedOut (fold child_step es st)" for es st
    by (induction es arbitrary: st) (auto simp: kept)
  with assms show ?thesis
    by (simp add: executeCommand_def Let_def)
qed

lemma truncate_sel [simp]:
  "co_exitCode (command_outcome.truncate oc) = co_exitCode oc"
  "co_signal (command_outcome.truncate oc) = co_signal oc"
  "co_timedOut (command_outcome.truncate oc) = co_timedOut oc"
  "co_unavailable (command_outcome.truncate oc) = co_unavailable oc"
  "co_stderr (command_outcome.truncate oc) = co_stderr oc"
  by (simp_all add: command_outcome.truncate_def)

definition check_command_ran :: "check_definition \<Rightarrow> check_options \<Rightarrow> machine \<Rightarrow> child_run \<Rightarrow> bool" where
  "check_command_ran check opts m c \<longleftrightarrow>
     c = mc_spawn m (ck_command check) (resolveCheckCwd (op_cwd opts) (ck_cwd check))
           (or_else (op_timeoutMs opts) DEFAULT_CHECK_TIMEOUT_MS)"

text \<open>
  A run is recorded as passed only when its check can fail, the worktree had a revision, and the
  check's own command was run there to its own end, before any deadline or abort, and closed with the
  expected code.
\<close>

lemma runCheck_pass:
  assumes "kr_status (runCheck check opts m) = CsPass"
  shows "isVerifyingCheck check \<and> ck_kind check \<noteq> CkHuman \<and> mc_revision m \<noteq> None \<and>
    (\<exists>c. check_command_ran check opts m c \<and> EvTerminate \<notin> set (cr_before c) \<and>
         cr_settled c = ChildClosed (Some (ck_expectedExitCode check)) None)"
proof -
  let ?c = "mc_spawn m (ck_command check) (resolveCheckCwd (op_cwd opts) (ck_cwd check))
              (or_else (op_timeoutMs opts) DEFAULT_CHECK_TIMEOUT_MS)"
  obtain rv where guards: "ck_kind check \<noteq> CkHuman" "isVerifyingCheck check" "mc_revision m = Some rv"
    and "kr_status (executed_result m opts check rv (executeCommand ?c)) = CsPass"
    using assms
    by (auto simp: runCheck_def unavailableResult_def Let_def split: if_splits option.splits)
  then have oc: "co_unavailable (executeCommand ?c) = None" "\<not> co_timedOut (executeCommand ?c)"
    "co_signal (executeCommand ?c) = None" "co_exitCode (executeCommand ?c) = Some (ck_expectedExitCode check)"
    by (simp_all add: executed_result_def Let_def runStatusOf_pass classifyOutcome_Exited)
  then have "cr_settled ?c = ChildClosed (Some (ck_expectedExitCode check)) None"
    by (auto simp: executeCommand_def spawnFailure_def Let_def split: settle_event.splits)
  with guards oc(2) show ?thesis
    using executeCommand_terminated [of ?c] unfolding check_command_ran_def by blast
qed

lemma run_suite_pending:
  "snd (run_suite opts tmo ms i checks) = [] \<Longrightarrow>
     (\<forall>c \<in> set checks. ck_kind c \<noteq> CkHuman) \<and>
     length (fst (run_suite opts tmo ms i checks)) = length checks \<and>
     (\<forall>j < length checks. \<exists>t. fst (run_suite opts tmo ms i checks) ! j =
        runCheck (checks ! j) (opts\<lparr>op_timeoutMs := t\<rparr>) (ms (i + j)))"
proof (induction checks arbitrary: i)
  case (Cons c cs)
  obtain results pending where rest: "run_suite opts tmo ms (Suc i) cs = (results, pending)"
    by fastforce
  have "ck_kind c \<noteq> CkHuman" "pending = []"
    using Cons.prems rest by (auto simp: requestHumanCheck_def split: if_splits)
  with Cons.IH [of "Suc i"] rest show ?case
    by (auto simp: requestHumanCheck_def Let_def nth_Cons split: nat.splits)
qed simp

text \<open>
  C29. \<open>allPassed\<close> means that every check of a non-empty list was executed and passed: one human check,
  one check that cannot fail, or one command that was killed makes it false.
\<close>

theorem all_passed_means_every_check_ran:
  assumes "sr_allPassed (runChecks checks opts tmo ms)"
  shows "checks \<noteq> [] \<and>
    (\<forall>j < length checks. isVerifyingCheck (checks ! j) \<and> ck_kind (checks ! j) \<noteq> CkHuman \<and>
       (\<exists>t c. check_command_ran (checks ! j) (opts\<lparr>op_timeoutMs := t\<rparr>) (ms j) c \<and>
          EvTerminate \<notin> set (cr_before c) \<and>
          cr_settled c = ChildClosed (Some (ck_expectedExitCode (checks ! j))) None))"
proof -
  obtain results where suite: "run_suite opts tmo ms 0 checks = (results, [])" "results \<noteq> []"
    and passed: "\<forall>r \<in> set results. kr_status r = CsPass"
    using assms by (auto simp: runChecks_def Let_def list_all_iff split: prod.splits)
  have ran: "length results = length checks"
    "\<And>j. j < length checks \<Longrightarrow> \<exists>t. results ! j = runCheck (checks ! j) (opts\<lparr>op_timeoutMs := t\<rparr>) (ms j)"
    using run_suite_pending [of opts tmo ms 0 checks] suite by simp_all
  have "isVerifyingCheck (checks ! j) \<and> ck_kind (checks ! j) \<noteq> CkHuman \<and>
       (\<exists>t c. check_command_ran (checks ! j) (opts\<lparr>op_timeoutMs := t\<rparr>) (ms j) c \<and>
          EvTerminate \<notin> set (cr_before c) \<and>
          cr_settled c = ChildClosed (Some (ck_expectedExitCode (checks ! j))) None)"
    if j: "j < length checks" for j
  proof -
    obtain t where "results ! j = runCheck (checks ! j) (opts\<lparr>op_timeoutMs := t\<rparr>) (ms j)"
      using ran(2) j by blast
    moreover have "kr_status (results ! j) = CsPass"
      using passed ran(1) j by simp
    ultimately show ?thesis
      using runCheck_pass [of "checks ! j" "opts\<lparr>op_timeoutMs := t\<rparr>" "ms j"] by auto
  qed
  with suite(2) ran(1) show ?thesis
    by auto
qed

section \<open>What the gate reads after several runs\<close>

text \<open>The store gives each draft its id and creation time.\<close>

definition stored_row :: "iso_timestamp \<times> string \<Rightarrow> evidence \<Rightarrow> evidence" where
  "stored_row k d = d\<lparr>e_createdAt := fst k, e_id := snd k\<rparr>"

definition row_key :: "evidence \<Rightarrow> iso_timestamp \<times> string" where
  "row_key e = (e_createdAt e, e_id e)"

lemma stored_row_sel [simp]:
  "row_key (stored_row k d) = k" "e_id (stored_row k d) = snd k" "e_revision (stored_row k d) = e_revision d"
  "e_taskRevision (stored_row k d) = e_taskRevision d" "e_taskId (stored_row k d) = e_taskId d"
  "e_checkId (stored_row k d) = e_checkId d" "e_reviewer (stored_row k d) = e_reviewer d"
  "e_exitStatus (stored_row k d) = e_exitStatus d" "e_commandIdentity (stored_row k d) = e_commandIdentity d"
  by (simp_all add: stored_row_def row_key_def)

lemma last_opt_sort_key_greatest:
  assumes "z \<in> set xs" and "\<And>y. y \<in> set xs \<Longrightarrow> y \<noteq> z \<Longrightarrow> f y < f z"
  shows "last_opt (sort_key f xs) = Some z"
proof -
  have "sort_key f xs \<noteq> []"
    using assms(1) by (metis empty_iff list.set(1) set_sort)
  then obtain x where x: "last_opt (sort_key f xs) = Some x"
    by (simp add: last_opt_def)
  then have "f z \<le> f x" "x \<in> set xs"
    using last_opt_sort_key_max [of f xs x z] assms(1) last_opt_Some [OF x] by simp_all
  with assms(2) [of x] x show ?thesis
    by fastforce
qed

text \<open>The draft that speaks for a run of a check that is executed.\<close>

definition speaks_for :: "check_definition \<Rightarrow> evidence_subject \<Rightarrow> git_sha \<Rightarrow> evidence \<Rightarrow> bool" where
  "speaks_for check subject rv d \<longleftrightarrow>
     e_revision d = rv \<and> e_taskId d = es_taskId subject \<and> e_taskRevision d = es_taskRevision subject \<and>
     e_checkId d = Some (ck_id check) \<and> e_reviewer d = ByCheck \<and>
     (\<exists>ident. e_commandIdentity d = Some ident \<and> ci_command ident = ck_command check \<and> ci_cwd ident = ck_cwd check)"

lemma check_draft_speaks: "speaks_for check (op_subject opts) rv (check_draft m opts check rv st cav)"
  by (simp add: speaks_for_def check_draft_def buildEvidenceDraft_def commandIdentityOf_def)

lemma check_draft_status: "e_exitStatus (check_draft m opts check rv st cav) = st"
  by (simp add: check_draft_def buildEvidenceDraft_def)

lemma runCheck_evidence:
  "(case kr_revision (runCheck check opts m) of
      None \<Rightarrow> kr_evidence (runCheck check opts m) = None \<and> kr_status (runCheck check opts m) \<noteq> CsPass
    | Some rv \<Rightarrow> \<exists>d. kr_evidence (runCheck check opts m) = Some d \<and> speaks_for check (op_subject opts) rv d \<and>
        e_exitStatus d = kr_exitStatus (runCheck check opts m) \<and>
        runStatusOf (e_exitStatus d) (ck_expectedExitCode check) = kr_status (runCheck check opts m))"
  by (auto simp: runCheck_def unavailableResult_def executed_result_def Let_def check_draft_speaks
        check_draft_status split: option.splits)

text \<open>The runs a policy makes: the first one and what is rerun, all of them runs of this check.\<close>

definition run_of :: "check_definition \<Rightarrow> check_options \<Rightarrow> check_run \<Rightarrow> bool" where
  "run_of check opts r \<longleftrightarrow> (\<exists>m. r = runCheck check opts m)"

lemma reruns_are_runs: "r \<in> set (reruns run rv i n) \<Longrightarrow> \<exists>j. r = run j"
  by (induction n arbitrary: i) (auto simp: Let_def split: if_splits)

lemma policy_runs_are_runs: "\<forall>r \<in> set (policy_runs check opts policy ms). run_of check opts r"
  by (auto simp: policy_runs_def Let_def run_of_def dest!: reruns_are_runs)

lemma policy_result:
  assumes "runCheckWithRerunPolicy check opts policy ms = Inr res"
  shows "reconcileRuns (ck_id check) (fr_runs res) = Inr res" "fr_runs res \<noteq> []"
    "\<forall>r \<in> set (fr_runs res). run_of check opts r"
proof -
  have "fr_runs res = policy_runs check opts policy ms" "fr_runs res \<noteq> []"
    using assms by (auto simp: runCheckWithRerunPolicy_def reconcileRuns_def Let_def split: if_splits)
  with assms policy_runs_are_runs [of check opts policy ms]
  show "reconcileRuns (ck_id check) (fr_runs res) = Inr res" "fr_runs res \<noteq> []"
    "\<forall>r \<in> set (fr_runs res). run_of check opts r"
    by (simp_all add: runCheckWithRerunPolicy_def)
qed

lemma drafts_of_simps [simp]:
  "drafts_of [] = []"
  "drafts_of (r # rs) = (case kr_evidence r of None \<Rightarrow> drafts_of rs | Some d \<Rightarrow> d # drafts_of rs)"
  "drafts_of (rs @ rs') = drafts_of rs @ drafts_of rs'"
  by (simp_all add: drafts_of_def map_filter_def split: option.splits)

text \<open>
  The last draft at the first run's revision carries the reconciled status, whatever else was run
  in between at other revisions.
\<close>

definition final_draft :: "check_definition \<Rightarrow> check_options \<Rightarrow> flaky_result \<Rightarrow> git_sha \<Rightarrow> evidence \<Rightarrow> bool" where
  "final_draft check opts res sha d \<longleftrightarrow>
     speaks_for check (op_subject opts) sha d \<and>
     runStatusOf (e_exitStatus d) (ck_expectedExitCode check) = fr_status res \<and>
     (\<exists>before after_it. fr_evidence res = before @ d # after_it \<and> (\<forall>e \<in> set after_it. e_revision e \<noteq> sha))"

lemma run_draft:
  assumes "run_of check opts r" and "kr_revision r = Some sha"
  obtains d where "kr_evidence r = Some d" "speaks_for check (op_subject opts) sha d"
    "runStatusOf (e_exitStatus d) (ck_expectedExitCode check) = kr_status r"
proof -
  obtain m where r: "r = runCheck check opts m"
    using assms(1) unfolding run_of_def by blast
  show thesis
    using runCheck_evidence [of check opts m] assms(2) that by (auto simp flip: r)
qed

lemma run_draft_revision:
  assumes "run_of check opts r" and "kr_evidence r = Some d"
  shows "kr_revision r = Some (e_revision d)"
proof -
  obtain m where r: "r = runCheck check opts m"
    using assms(1) unfolding run_of_def by blast
  show ?thesis
    using runCheck_evidence [of check opts m] assms(2)
    by (cases "kr_revision r") (auto simp: speaks_for_def simp flip: r)
qed

lemma other_revision_drafts:
  assumes "\<forall>r \<in> set runs. run_of check opts r" and "\<forall>r \<in> set runs. kr_revision r \<noteq> Some sha"
  shows "\<forall>d \<in> set (drafts_of runs). e_revision d \<noteq> sha"
  using assms
proof (induction runs)
  case (Cons r rs)
  have "kr_evidence r = Some d \<Longrightarrow> e_revision d \<noteq> sha" for d
    using Cons.prems run_draft_revision [of check opts r d] by auto
  with Cons show ?case
    by (auto split: option.splits)
qed simp

lemma last_opt_filter_split:
  assumes "last_opt (filter P xs) = Some x"
  obtains us vs where "xs = us @ x # vs" "P x" "\<forall>y \<in> set vs. \<not> P y"
  using assms
proof (induction xs arbitrary: thesis rule: rev_induct)
  case (snoc y xs)
  show ?case
  proof (cases "P y")
    case True
    with snoc.prems show ?thesis
      by (auto simp: last_opt_append)
  next
    case False
    then obtain us vs where "xs = us @ x # vs" "P x" "\<forall>y \<in> set vs. \<not> P y"
      using snoc by auto
    with False snoc.prems(1) [of us "vs @ [y]"] show ?thesis
      by auto
  qed
qed (simp add: last_opt_def)

lemma reconciled_final_draft:
  assumes rec: "reconcileRuns (ck_id check) runs = Inr res" and runs: "\<forall>r \<in> set runs. run_of check opts r"
    and sha: "kr_revision (hd runs) = Some sha" and "runs \<noteq> []"
  shows "\<exists>d. final_draft check opts res sha d"
proof -
  have "hd runs \<in> set (same_revision runs)"
    using sha \<open>runs \<noteq> []\<close> by (cases runs) (auto simp: same_revision_def)
  then obtain r where r: "last_opt (same_revision runs) = Some r"
    by (cases "last_opt (same_revision runs)") auto
  then obtain us vs where parts: "runs = us @ r # vs" "kr_revision r = Some sha"
    "\<forall>q \<in> set vs. kr_revision q \<noteq> Some sha"
    using sha unfolding same_revision_def by (auto elim!: last_opt_filter_split)
  then obtain d where d: "kr_evidence r = Some d" "speaks_for check (op_subject opts) sha d"
    "runStatusOf (e_exitStatus d) (ck_expectedExitCode check) = kr_status r"
    using run_draft [of check opts r sha] runs by auto
  have drafts: "drafts_of runs = drafts_of us @ d # drafts_of vs"
    using parts(1) d(1) by simp
  have after_it: "\<forall>e \<in> set (drafts_of vs). e_revision e \<noteq> sha"
    using other_revision_drafts [of vs check opts sha] runs parts by simp
  show ?thesis
  proof (cases "runs_disagree (same_revision runs)")
    case False
    then have "fr_evidence res = drafts_of runs" "fr_status res = kr_status r"
      using rec r \<open>runs \<noteq> []\<close> by (auto simp: reconcileRuns_def Let_def)
    with d drafts after_it show ?thesis
      unfolding final_draft_def by auto
  next
    case True
    obtain ys where "same_revision runs = ys @ [r]"
      using r by (metis append_butlast_last_id last_opt_def option.distinct(1) option.inject)
    then have "last_opt (drafts_of (same_revision runs)) = Some d"
      using d(1) by (simp add: last_opt_append)
    then obtain e where e: "flakyDraft (same_revision runs) = [e]" "speaks_for check (op_subject opts) sha e"
      "runStatusOf (e_exitStatus e) (ck_expectedExitCode check) = CsFlaky"
      using d(2) by (simp add: flakyDraft_def speaks_for_def)
    have "fr_evidence res = drafts_of runs @ [e]" "fr_status res = CsFlaky"
      using rec True e(1) \<open>runs \<noteq> []\<close> by (auto simp: reconcileRuns_def Let_def)
    with e(2,3) show ?thesis
      unfolding final_draft_def by (intro exI [of _ e] conjI exI [of _ "drafts_of runs"] exI [of _ "[]"]) simp_all
  qed
qed


lemma reconciled_pass:
  assumes rec: "reconcileRuns i runs = Inr res" and sha: "kr_revision (hd runs) = Some sha" and "runs \<noteq> []"
  shows "fr_status res = CsPass \<longleftrightarrow> (\<forall>r \<in> set runs. kr_revision r = Some sha \<longrightarrow> kr_status r = CsPass)"
proof -
  have same: "set (same_revision runs) = {r \<in> set runs. kr_revision r = Some sha}"
    using sha by (auto simp: same_revision_def)
  then have "hd runs \<in> set (same_revision runs)"
    using sha \<open>runs \<noteq> []\<close> by simp
  then obtain ys r where ys: "same_revision runs = ys @ [r]"
    by (cases "same_revision runs" rule: rev_cases) auto
  show ?thesis
  proof (cases "runs_disagree (same_revision runs)")
    case True
    then have "fr_status res = CsFlaky"
      using rec \<open>runs \<noteq> []\<close> by (auto simp: reconcileRuns_def Let_def)
    moreover have "\<exists>r \<in> set (same_revision runs). kr_status r \<noteq> CsPass"
      using True by (simp add: runs_disagree_def list_ex_iff)
    ultimately show ?thesis
      using same by auto
  next
    case False
    then have "fr_status res = kr_status r"
      using rec ys \<open>runs \<noteq> []\<close> by (auto simp: reconcileRuns_def Let_def last_opt_append)
    moreover have "kr_status r = CsPass \<Longrightarrow> \<forall>q \<in> set (same_revision runs). kr_status q = CsPass"
      using False ys by (cases ys) (auto simp: runs_disagree_def list_ex_iff)
    moreover have "r \<in> set (same_revision runs)"
      using ys by simp
    ultimately show ?thesis
      using same by auto
  qed
qed

lemma not_disagreeing_flaky:
  "kr_status (runCheck check opts m) \<noteq> CsFlaky"
  by (auto simp: runCheck_def unavailableResult_def executed_result_def classifyOutcome_def Let_def
        split: option.splits)

text \<open>The store holds older rows and then the drafts of this run, in order, under increasing keys.\<close>

definition appended ::
  "evidence list \<Rightarrow> (iso_timestamp \<times> string) list \<Rightarrow> evidence list \<Rightarrow> evidence list \<Rightarrow> bool"
where
  "appended rows keys drafts old \<longleftrightarrow>
     rows = old @ map2 stored_row keys drafts \<and> length keys = length drafts \<and> sorted_wrt (<) keys \<and>
     (\<forall>e \<in> set old. \<forall>k \<in> set keys. row_key e < k) \<and>
     (\<forall>k \<in> set keys. snd k \<notin> set (supersededIds rows))"

lemma map2_split:
  assumes "length ks = length (xs @ y # ys)"
  obtains k1 k k2 where "ks = k1 @ k # k2" "map2 f ks (xs @ y # ys) = map2 f k1 xs @ f k y # map2 f k2 ys"
    "length k1 = length xs" "length k2 = length ys"
proof -
  let ?k1 = "take (length xs) ks" and ?k2 = "drop (Suc (length xs)) ks"
  have "ks = ?k1 @ ks ! length xs # ?k2"
    using assms by (simp add: id_take_nth_drop)
  moreover have "map2 f (?k1 @ ks ! length xs # ?k2) (xs @ y # ys) = map2 f ?k1 xs @ f (ks ! length xs) y # map2 f ?k2 ys"
    using assms by simp
  ultimately show thesis
    using that [of ?k1 "ks ! length xs" ?k2] assms by simp
qed

lemma keys_below:
  assumes "sorted_wrt (<) (k1 @ k # k2)" and "e \<in> set (map2 stored_row k1 ds)"
  shows "row_key e < k"
  using assms by (auto simp: sorted_wrt_append dest!: set_zip_leftD)

lemma revision_of_stored:
  "e \<in> set (map2 stored_row ks ds) \<Longrightarrow> \<exists>d \<in> set ds. e_revision e = e_revision d"
  by (auto dest: set_zip_rightD)

lemma gate_reads_the_final_draft:
  assumes kind: "ck_kind check \<noteq> CkHuman"
    and subj: "es_taskId (op_subject opts) = t_id task" "es_taskRevision (op_subject opts) = t_revision task"
    and rows: "appended rows keys (fr_evidence res) old" and fd: "final_draft check opts res sha d"
  shows "fst (gateCheckState check (freshEvidence task rows sha)) = fr_status res"
proof -
  obtain d1 d2 where ds: "fr_evidence res = d1 @ d # d2" "\<forall>e \<in> set d2. e_revision e \<noteq> sha"
    and d: "speaks_for check (op_subject opts) sha d"
      "runStatusOf (e_exitStatus d) (ck_expectedExitCode check) = fr_status res"
    using fd unfolding final_draft_def by blast
  then obtain k1 k k2 where ks: "keys = k1 @ k # k2"
      "map2 stored_row keys (fr_evidence res) = map2 stored_row k1 d1 @ stored_row k d # map2 stored_row k2 d2"
    using rows map2_split [of keys d1 d d2 stored_row] unfolding appended_def by metis
  let ?z = "stored_row k d"
  let ?fresh = "\<lambda>row. e_taskId row = t_id task \<and>
          stalenessReason row (t_revision task) sha (supersededIds rows) = None"
  let ?mine = "\<lambda>row. e_checkId row = Some (ck_id check) \<and> wanted_reviewer check (e_reviewer row)"
  have rows': "rows = old @ map2 stored_row k1 d1 @ ?z # map2 stored_row k2 d2"
    using rows ks(2) by (simp add: appended_def)
  have below: "row_key e < k" if "e \<in> set old \<or> e \<in> set (map2 stored_row k1 d1)" for e
    using that rows ks(1) keys_below [of k1 k k2 e d1] unfolding appended_def by auto
  have stale: "\<not> ?fresh e" if "e \<in> set (map2 stored_row k2 d2)" for e
    using revision_of_stored [OF that] ds(2) by (auto simp: stalenessReason_def)
  have z: "?fresh ?z \<and> ?mine ?z"
    using rows ks(1) d(1) subj kind
    by (auto simp: appended_def speaks_for_def stalenessReason_def wanted_reviewer_def)
  have "last_opt (sort_key row_key (filter ?mine (filter ?fresh rows))) = Some ?z"
  proof (rule last_opt_sort_key_greatest)
    show "?z \<in> set (filter ?mine (filter ?fresh rows))"
      using z rows' by simp
    fix y assume y: "y \<in> set (filter ?mine (filter ?fresh rows))" "y \<noteq> ?z"
    then have "?fresh y" "y \<in> set rows"
      by simp_all
    moreover from this(2) have "y \<in> set old \<or> y \<in> set (map2 stored_row k1 d1) \<or> y = ?z \<or> y \<in> set (map2 stored_row k2 d2)"
      unfolding rows' set_append list.set(2) by blast
    ultimately have "y \<in> set old \<or> y \<in> set (map2 stored_row k1 d1)"
      using stale y(2) by blast
    then show "row_key y < row_key ?z"
      using below by simp
  qed
  then have "latestResultFor check (freshEvidence task rows sha) = Some ?z"
    by (simp add: latestResultFor_def freshEvidence_def filter_sort row_key_def [abs_def])
  then show ?thesis
    using kind d by (auto simp: gateCheckState_def speaks_for_def Let_def)
qed

section \<open>The board and the gate read the same row\<close>

lemma newer_row_key: "newer_row best e = (if row_key best < row_key e then e else best)"
  by (auto simp: newer_row_def row_key_def less_prod_def)

lemma foldl_newer_row:
  "foldl newer_row e es \<in> set (e # es) \<and> (\<forall>y \<in> set (e # es). row_key y \<le> row_key (foldl newer_row e es))"
proof (induction es arbitrary: e)
  case (Cons x es)
  have "row_key y \<le> row_key (newer_row e x)" if "y = e \<or> y = x" for y
    using that by (auto simp: newer_row_key)
  moreover have "newer_row e x = e \<or> newer_row e x = x"
    by (simp add: newer_row_key)
  ultimately show ?case
    using Cons.IH [of "newer_row e x"] by fastforce
qed simp

lemma newest_is_last:
  assumes "distinct (map row_key (e # es))"
  shows "last_opt (sort_key row_key (e # es)) = Some (foldl newer_row e es)"
proof (rule last_opt_sort_key_greatest)
  fix y assume y: "y \<in> set (e # es)" "y \<noteq> foldl newer_row e es"
  then have "row_key y \<noteq> row_key (foldl newer_row e es)"
    using assms foldl_newer_row [of e es] by (meson distinct_map inj_onD)
  with y(1) show "row_key y < row_key (foldl newer_row e es)"
    using foldl_newer_row [of e es] by (metis le_neq_trans)
qed (use foldl_newer_row in blast)

lemma stateFromExitStatus_eq: "stateFromExitStatus st expected = runStatusOf st expected"
  by (cases st) auto

text \<open>
  \<open>checkState\<close> folds over the rows and \<open>latestResultFor\<close> sorts them. On the rows of an executed
  check that carry its own command, both give the same state.
\<close>

theorem board_agrees_with_gate:
  assumes kind: "ck_kind check \<noteq> CkHuman" and named: "ck_id check \<noteq> []"
    and mine: "\<And>e. e \<in> set rows \<Longrightarrow> e_checkId e = Some (ck_id check) \<Longrightarrow>
      speaks_for check subject (e_revision e) e \<and> e_taskId e = t_id task"
    and keys: "distinct (map row_key rows)"
  shows "checkState check (rows_of_check (ck_id check) rows) (t_revision task) sha (supersededIds rows)
    = fst (gateCheckState check (freshEvidence task rows sha))"
proof -
  let ?P = "\<lambda>e. e_checkId e = Some (ck_id check) \<and> e_taskRevision e = t_revision task \<and>
              e_revision e = sha \<and> e_id e \<notin> set (supersededIds rows)"
  have board: "filter (\<lambda>e. isFreshEvidence e (t_revision task) sha (supersededIds rows))
      (rows_of_check (ck_id check) rows) = filter ?P rows"
    using named by (auto simp: rows_of_check_def isFreshEvidence_def or_else_def intro!: filter_cong split: option.splits)
  have gate: "latestResultFor check (freshEvidence task rows sha) = last_opt (sort_key row_key (filter ?P rows))"
  proof -
    have "filter (\<lambda>row. (e_taskId row = t_id task \<and>
          stalenessReason row (t_revision task) sha (supersededIds rows) = None) \<and>
          e_checkId row = Some (ck_id check) \<and> wanted_reviewer check (e_reviewer row)) rows = filter ?P rows"
      using mine kind
      by (intro filter_cong) (auto simp: stalenessReason_def wanted_reviewer_def speaks_for_def split: if_splits)
    then show ?thesis
      by (simp add: latestResultFor_def freshEvidence_def filter_sort row_key_def [abs_def] conj_ac)
  qed
  show ?thesis
  proof (cases "filter ?P rows")
    case Nil
    then show ?thesis
      using gate board by (simp add: checkState_def latestFreshEvidence_def gateCheckState_def last_opt_def)
  next
    case (Cons e es)
    let ?z = "foldl newer_row e es"
    have "distinct (map row_key (filter ?P rows))"
      using keys by (simp add: distinct_map inj_on_def)
    then have "last_opt (sort_key row_key (filter ?P rows)) = Some ?z"
      using newest_is_last [of e es] by (simp only: Cons)
    moreover have "?z \<in> set (filter ?P rows)"
      using foldl_newer_row [of e es] by (simp only: Cons)
    then have "?z \<in> set rows" "e_checkId ?z = Some (ck_id check)"
      by simp_all
    then have "speaks_for check subject (e_revision ?z) ?z"
      using mine by blast
    moreover have "checkState check (rows_of_check (ck_id check) rows) (t_revision task) sha (supersededIds rows)
        = runStatusOf (e_exitStatus ?z) (ck_expectedExitCode check)"
      using board Cons by (simp add: checkState_def latestFreshEvidence_def stateFromExitStatus_eq)
    ultimately show ?thesis
      using kind gate by (auto simp: gateCheckState_def speaks_for_def Let_def)
  qed
qed

section \<open>Properties\<close>

lemma reconciled_flaky:
  assumes rec: "reconcileRuns i runs = Inr res" and sha: "kr_revision (hd runs) = Some sha" and "runs \<noteq> []"
    and single: "\<forall>r \<in> set runs. kr_status r \<noteq> CsFlaky"
  shows "fr_status res = CsFlaky \<longleftrightarrow>
     (\<exists>r \<in> set runs. kr_revision r = Some sha \<and> kr_status r = CsPass) \<and>
     (\<exists>r \<in> set runs. kr_revision r = Some sha \<and> kr_status r \<noteq> CsPass)"
proof -
  have same: "set (same_revision runs) = {r \<in> set runs. kr_revision r = Some sha}"
    using sha by (auto simp: same_revision_def)
  have "runs_disagree (same_revision runs) \<longleftrightarrow>
      (\<exists>r \<in> set (same_revision runs). kr_status r = CsPass) \<and> (\<exists>r \<in> set (same_revision runs). kr_status r \<noteq> CsPass)"
    by (cases "same_revision runs"; cases "tl (same_revision runs)") (auto simp: runs_disagree_def list_ex_iff)
  moreover have "fr_status res = CsFlaky \<longleftrightarrow> runs_disagree (same_revision runs)"
  proof (cases "runs_disagree (same_revision runs)")
    case True
    then show ?thesis using rec \<open>runs \<noteq> []\<close> by (auto simp: reconcileRuns_def Let_def)
  next
    case False
    then have "fr_status res = kr_status (case last_opt (same_revision runs) of None \<Rightarrow> hd runs | Some r \<Rightarrow> r)"
      using rec \<open>runs \<noteq> []\<close> by (auto simp: reconcileRuns_def Let_def)
    moreover have "(case last_opt (same_revision runs) of None \<Rightarrow> hd runs | Some r \<Rightarrow> r) \<in> set runs"
      using same \<open>runs \<noteq> []\<close> by (cases "same_revision runs" rule: rev_cases) (auto simp: last_opt_append last_opt_def)
    ultimately show ?thesis using single False by metis
  qed
  ultimately show ?thesis unfolding same by blast
qed

text \<open>Under the policy a passing first run is the only run, so a pass at the revision is a pass of every run.\<close>

lemma policy_pass_all:
  assumes "kr_status (hd (policy_runs check opts policy ms)) = CsPass"
  shows "\<forall>r \<in> set (policy_runs check opts policy ms). kr_status r = CsPass"
  using assms by (simp add: policy_runs_def Let_def rerunnable_def)


definition fx_subject :: evidence_subject where
  "fx_subject = \<lparr>es_workflowId = ''w'', es_taskId = ''t1'', es_taskRevision = 0, es_attemptId = None,
     es_requirementId = ''a'', es_supersedesId = None\<rparr>"

definition fx_options :: check_options where
  "fx_options = \<lparr>op_cwd = ''/w'', op_subject = fx_subject, op_timeoutMs = None, op_outputLimitBytes = Some 100\<rparr>"

definition fx_closing :: "int \<Rightarrow> child_run" where
  "fx_closing code = \<lparr>cr_before = [], cr_settled = ChildClosed (Some code) None, cr_elapsed = 5\<rparr>"

definition fx_machine :: "nat \<Rightarrow> machine" where
  "fx_machine i = \<lparr>mc_env = [], mc_nodeVersion = [], mc_platform = [], mc_arch = [], mc_shell = [],
     mc_revision = Some ''s1'', mc_exists = (\<lambda>_. True),
     mc_spawn = (\<lambda>_ _ _. fx_closing (if i = 0 then 1 else 0)), mc_redact = (\<lambda>s. s),
     mc_hash = (\<lambda>_. ''h''), mc_hashEnvironment = (\<lambda>_. ''e'')\<rparr>"

definition fx_flaky :: flaky_result where
  "fx_flaky = (case runCheckWithRerunPolicy fx_check fx_options DEFAULT_RERUN_POLICY fx_machine of
      Inr res \<Rightarrow> res
    | Inl message \<Rightarrow> \<lparr>fr_checkId = [], fr_runs = [], fr_status = CsMissing, fr_revision = None, fr_evidence = []\<rparr>)"

definition fx_keys :: "(iso_timestamp \<times> string) list" where
  "fx_keys = [(''1'', ''a''), (''1'', ''b''), (''1'', ''c'')]"

lemma fx_flaky_runs:
  "isl (runCheckWithRerunPolicy fx_check fx_options DEFAULT_RERUN_POLICY fx_machine) = False \<and>
   map kr_revision (fr_runs fx_flaky) = [Some ''s1'', Some ''s1''] \<and> fr_status fx_flaky = CsFlaky \<and>
   map e_supersedesId (fr_evidence fx_flaky) = [None, None, None] \<and> ck_kind fx_check = CkCommand \<and>
   es_taskId (op_subject fx_options) = t_id (fx_task Done) \<and>
   es_taskRevision (op_subject fx_options) = t_revision (fx_task Done)"
  by code_simp


text \<open>
  The rows of one run can carry one creation time, and then the gate's tie-break is the row's random id: with
  the passing rerun's id the greatest of the three, the flaky check is read as a pass.
\<close>

lemma tie_break_hides_the_flaky_row:
  "fr_status fx_flaky = CsFlaky \<and>
   fst (gateCheckState fx_check (freshEvidence (fx_task Done)
     (map2 stored_row [(''1'', ''a''), (''1'', ''c''), (''1'', ''b'')] (fr_evidence fx_flaky)) ''s1'')) = CsPass"
  by code_simp

text \<open>
  \<open>allowFlakyToPass\<close> is documented as the policy that lets a flaky result satisfy the gate; no
  result depends on it.
\<close>

theorem allow_flaky_has_no_effect:
  "runCheckWithRerunPolicy check opts (policy\<lparr>rp_allowFlakyToPass := b\<rparr>) ms =
   runCheckWithRerunPolicy check opts policy ms"
  by (simp add: runCheckWithRerunPolicy_def policy_runs_def Let_def cong: if_cong)

text \<open>
  \<open>FlakyAwareResult.status\<close> is documented as never \<open>pass\<close> unless every run passed; a failing
  run at another revision than the first leaves it at \<open>pass\<close>.
\<close>

theorem pass_although_a_run_failed:
  assumes "kr_status r1 = CsPass" and "kr_revision r1 = Some s1"
    and "kr_status r2 = CsFail" and "kr_revision r2 = Some s2" and "s1 \<noteq> s2"
  shows "\<exists>res. reconcileRuns i [r1, r2] = Inr res \<and> fr_status res = CsPass \<and> fr_runs res = [r1, r2]"
  using assms by (simp add: reconcileRuns_def same_revision_def runs_disagree_def last_opt_def)

definition fx_passing :: "nat \<Rightarrow> machine" where
  "fx_passing i = (fx_machine i)\<lparr>mc_spawn := (\<lambda>_ _ _. fx_closing 0)\<rparr>"

lemma fx_suite_passes: "sr_allPassed (runChecks [fx_check] fx_options (\<lambda>_. None) fx_passing)"
  by code_simp

theorem all_passed_witness:
  "isVerifyingCheck fx_check \<and> ck_kind fx_check \<noteq> CkHuman \<and>
   (\<exists>t c. check_command_ran fx_check (fx_options\<lparr>op_timeoutMs := t\<rparr>) (fx_passing 0) c \<and>
      EvTerminate \<notin> set (cr_before c))"
  using all_passed_means_every_check_ran [OF fx_suite_passes] by auto

end
