(* ===== verification/OutputBudget.thy ===== *)
theory OutputBudget
  imports JsText
begin

text \<open>
  \<open>src/workflow/output-budget.ts\<close>: sizing the artifacts of a task against the output ceiling of one
  turn. Token ceilings are integers and estimates are exact rationals: the source computes on
  doubles, which agree as long as the products stay far below 2^53. An estimate that is not a number
  is not represented.
\<close>

section \<open>The budget of one turn\<close>

datatype thinking_level = ThOff | ThLow | ThMedium | ThHigh

record model_output_limits =
  ml_maxTokens :: "int option"
  ml_contextWindow :: "int option"

definition ASSUMED_MAX_OUTPUT_TOKENS :: int where
  "ASSUMED_MAX_OUTPUT_TOKENS = 16384"

definition DECOMPOSE_FRACTION :: rat where
  "DECOMPOSE_FRACTION = 1 / 2"

definition WARN_FRACTION :: rat where
  "WARN_FRACTION = 1 / 4"

primrec THINKING_RESERVE :: "thinking_level \<Rightarrow> rat" where
  "THINKING_RESERVE ThOff = 0"
| "THINKING_RESERVE ThLow = 1 / 10"
| "THINKING_RESERVE ThMedium = 1 / 4"
| "THINKING_RESERVE ThHigh = 1 / 2"

definition TOKENS_PER_LINE :: rat where
  "TOKENS_PER_LINE = 14"

definition BYTES_PER_TOKEN :: rat where
  "BYTES_PER_TOKEN = 7 / 2"

datatype size_estimate = InTokens rat | InLines rat | InBytes rat

record expected_artifact =
  xa_path :: string
  xa_estimate :: size_estimate
  xa_atomic :: "bool option"

fun estimate_value :: "size_estimate \<Rightarrow> rat" where
  "estimate_value (InTokens v) = v"
| "estimate_value (InLines v) = v"
| "estimate_value (InBytes v) = v"

fun in_tokens :: "size_estimate \<Rightarrow> rat" where
  "in_tokens (InTokens v) = v"
| "in_tokens (InLines v) = v * TOKENS_PER_LINE"
| "in_tokens (InBytes v) = v / BYTES_PER_TOKEN"

datatype size_error = BadEstimate rat

definition estimateTokens :: "size_estimate \<Rightarrow> size_error + int" where
  "estimateTokens e =
     (if estimate_value e < 0 then Inl (BadEstimate (estimate_value e)) else Inr (ceiling (in_tokens e)))"

record output_budget =
  ob_maxTokens :: int
  ob_assumed :: bool
  ob_thinking :: thinking_level
  ob_reasoningReserve :: int
  ob_usableTokens :: int
  ob_decomposeAbove :: int
  ob_warnAbove :: int

definition usable_ceiling :: "model_output_limits \<Rightarrow> int option" where
  "usable_ceiling limits =
     (case ml_maxTokens limits of None \<Rightarrow> None | Some n \<Rightarrow> if n \<le> 0 then None else Some n)"

definition outputBudget :: "model_output_limits \<Rightarrow> thinking_level \<Rightarrow> output_budget" where
  "outputBudget limits thinking =
     (let assumed = (usable_ceiling limits = None);
          maxTokens = (case usable_ceiling limits of None \<Rightarrow> ASSUMED_MAX_OUTPUT_TOKENS | Some n \<Rightarrow> n);
          reserve = floor (of_int maxTokens * THINKING_RESERVE thinking);
          usable = max 1 (maxTokens - reserve)
      in \<lparr>ob_maxTokens = maxTokens, ob_assumed = assumed, ob_thinking = thinking,
          ob_reasoningReserve = reserve, ob_usableTokens = usable,
          ob_decomposeAbove = floor (of_int usable * DECOMPOSE_FRACTION),
          ob_warnAbove = floor (of_int usable * WARN_FRACTION)\<rparr>)"

definition outputCeilingBindsFirst :: "model_output_limits \<Rightarrow> bool" where
  "outputCeilingBindsFirst limits =
     (case ml_contextWindow limits of
        None \<Rightarrow> True
      | Some context \<Rightarrow> context \<le> 0 \<or> ob_maxTokens (outputBudget limits ThOff) < context)"

section \<open>Sizing a task\<close>

datatype sizing_verdict = SzFits | SzTight | SzDecompose | SzFlag

primrec VERDICT_RANK :: "sizing_verdict \<Rightarrow> nat" where
  "VERDICT_RANK SzFits = 0"
| "VERDICT_RANK SzTight = 1"
| "VERDICT_RANK SzDecompose = 2"
| "VERDICT_RANK SzFlag = 3"

record artifact_sizing =
  as_path :: string
  as_estimatedOutputTokens :: int
  as_fractionOfBudget :: rat
  as_verdict :: sizing_verdict
  as_suggestedSteps :: int
  as_reason :: string

record task_sizing =
  tz_budget :: output_budget
  tz_artifacts :: "artifact_sizing list"
  tz_verdict :: sizing_verdict
  tz_mustDecompose :: bool
  tz_totalEstimatedOutputTokens :: int
  tz_notes :: "string list"

text \<open>\<open>Math.max(1, Math.ceil(tokens / Math.max(1, decomposeAbove)))\<close>.\<close>

definition step_count :: "int \<Rightarrow> output_budget \<Rightarrow> int" where
  "step_count tokens b = max 1 (ceiling (of_int tokens / (of_int (max 1 (ob_decomposeAbove b)) :: rat)))"

definition percent :: "rat \<Rightarrow> string" where
  "percent f = int_text (floor (f * 100 + 1 / 2)) @ ''%''"

definition sizing_head :: "expected_artifact \<Rightarrow> int \<Rightarrow> rat \<Rightarrow> output_budget \<Rightarrow> string" where
  "sizing_head a tokens fraction b =
     xa_path a @ '': ~'' @ int_text tokens @ '' output tokens is '' @ percent fraction @
     '' of the usable single-turn budget ('' @ int_text (ob_usableTokens b) @ '')''"

definition sizing_verdict_of :: "expected_artifact \<Rightarrow> int \<Rightarrow> output_budget \<Rightarrow> sizing_verdict" where
  "sizing_verdict_of a tokens b =
     (if ob_decomposeAbove b < tokens
      then (if xa_atomic a = Some True then SzFlag else SzDecompose)
      else if ob_warnAbove b < tokens then SzTight else SzFits)"

fun sizing_reason :: "sizing_verdict \<Rightarrow> expected_artifact \<Rightarrow> int \<Rightarrow> rat \<Rightarrow> output_budget \<Rightarrow> string" where
  "sizing_reason SzFlag a tokens fraction b = sizing_head a tokens fraction b @
     '' and the artifact is declared atomic, so incremental writes cannot fix it. A turn that exceeds the ceiling is cut off before its tool call is emitted and writes nothing. Reduce the artifact or make it splittable before dispatching.''"
| "sizing_reason SzDecompose a tokens fraction b = sizing_head a tokens fraction b @
     ''; produce it in at least '' @ int_text (step_count tokens b) @
     '' steps (short write, then edits), committing after each.''"
| "sizing_reason SzTight a tokens fraction b = sizing_head a tokens fraction b @
     ''; it fits but leaves little headroom for reasoning and narration.''"
| "sizing_reason SzFits a tokens fraction b =
     xa_path a @ '': ~'' @ int_text tokens @ '' output tokens ('' @ percent fraction @ '' of '' @
     int_text (ob_usableTokens b) @ '') fits in one turn.''"

definition sizeArtifact :: "expected_artifact \<Rightarrow> output_budget \<Rightarrow> size_error + artifact_sizing" where
  "sizeArtifact a b =
     (case estimateTokens (xa_estimate a) of
        Inl e \<Rightarrow> Inl e
      | Inr tokens \<Rightarrow>
          let fraction = of_int tokens / of_int (ob_usableTokens b);
              verdict = sizing_verdict_of a tokens b
          in Inr \<lparr>as_path = xa_path a, as_estimatedOutputTokens = tokens, as_fractionOfBudget = fraction,
                  as_verdict = verdict,
                  as_suggestedSteps = (if ob_decomposeAbove b < tokens then step_count tokens b else 1),
                  as_reason = sizing_reason verdict a tokens fraction b\<rparr>)"

text \<open>\<open>Array.prototype.map\<close> with a function that may throw.\<close>

fun map_throwing :: "('a \<Rightarrow> 'e + 'b) \<Rightarrow> 'a list \<Rightarrow> 'e + 'b list" where
  "map_throwing f [] = Inr []"
| "map_throwing f (x # xs) =
     (case f x of
        Inl e \<Rightarrow> Inl e
      | Inr y \<Rightarrow> (case map_throwing f xs of Inl e \<Rightarrow> Inl e | Inr ys \<Rightarrow> Inr (y # ys)))"

definition worse_verdict :: "artifact_sizing \<Rightarrow> sizing_verdict \<Rightarrow> sizing_verdict" where
  "worse_verdict s v = (if VERDICT_RANK v < VERDICT_RANK (as_verdict s) then as_verdict s else v)"

definition thinking_text :: "thinking_level \<Rightarrow> string" where
  "thinking_text t =
     (case t of ThOff \<Rightarrow> ''off'' | ThLow \<Rightarrow> ''low'' | ThMedium \<Rightarrow> ''medium'' | ThHigh \<Rightarrow> ''high'')"

definition sizing_notes :: "output_budget \<Rightarrow> artifact_sizing list \<Rightarrow> string list" where
  "sizing_notes b sized =
     (if ob_assumed b
      then [''Model reported no maxTokens; assuming the conservative floor of '' @
            int_text ASSUMED_MAX_OUTPUT_TOKENS @ '' output tokens. Unreported is not unlimited.'']
      else []) @
     (if 0 < ob_reasoningReserve b
      then [''Thinking level '' @ CHR 0x27 # thinking_text (ob_thinking b) @ CHR 0x27 # '' reserves '' @
            int_text (ob_reasoningReserve b) @ '' of '' @ int_text (ob_maxTokens b) @
            '' output tokens for reasoning, leaving '' @ int_text (ob_usableTokens b) @ '' usable.'']
      else []) @
     [''Decompose above '' @ int_text (ob_decomposeAbove b) @
      '' tokens per artifact (0.5 of usable); warn above '' @ int_text (ob_warnAbove b) @ ''.''] @
     map as_reason (filter (\<lambda>s. as_verdict s \<noteq> SzFits) sized)"

definition sizeTaskOutput ::
  "expected_artifact list \<Rightarrow> model_output_limits \<Rightarrow> thinking_level \<Rightarrow> size_error + task_sizing"
where
  "sizeTaskOutput artifacts limits thinking =
     (let b = outputBudget limits thinking in
      case map_throwing (\<lambda>a. sizeArtifact a b) artifacts of
        Inl e \<Rightarrow> Inl e
      | Inr sized \<Rightarrow>
          let verdict = fold worse_verdict sized SzFits
          in Inr \<lparr>tz_budget = b, tz_artifacts = sized, tz_verdict = verdict,
                  tz_mustDecompose = (verdict = SzDecompose \<or> verdict = SzFlag),
                  tz_totalEstimatedOutputTokens = sum_list (map as_estimatedOutputTokens sized),
                  tz_notes = sizing_notes b sized\<rparr>)"

section \<open>Producing an artifact in steps\<close>

datatype step_kind = WriteStep | EditStep

record production_step =
  st_step :: nat
  st_kind :: step_kind
  st_estimatedOutputTokens :: int

definition production_step_at :: "int \<Rightarrow> int \<Rightarrow> nat \<Rightarrow> production_step" where
  "production_step_at tokens per i =
     \<lparr>st_step = i + 1, st_kind = (if i = 0 then WriteStep else EditStep),
      st_estimatedOutputTokens = min per (tokens - per * int i)\<rparr>"

definition planIncrementalSteps ::
  "expected_artifact \<Rightarrow> model_output_limits \<Rightarrow> thinking_level \<Rightarrow> size_error + production_step list"
where
  "planIncrementalSteps a limits thinking =
     (case estimateTokens (xa_estimate a) of
        Inl e \<Rightarrow> Inl e
      | Inr tokens \<Rightarrow>
          let steps = step_count tokens (outputBudget limits thinking);
              per = ceiling (of_int tokens / (of_int steps :: rat))
          in Inr (map (production_step_at tokens per) [0..<nat steps]))"

record planned_task_output =
  pl_taskId :: string
  pl_expectedArtifacts :: "expected_artifact list"

record planned_task_sizing =
  pz_taskId :: string
  pz_sizing :: task_sizing
  pz_decompositions :: "(string \<times> production_step list) list"

definition steps_of_artifact ::
  "model_output_limits \<Rightarrow> thinking_level \<Rightarrow> expected_artifact \<Rightarrow> size_error + string \<times> production_step list"
where
  "steps_of_artifact limits thinking a =
     (case planIncrementalSteps a limits thinking of Inl e \<Rightarrow> Inl e | Inr steps \<Rightarrow> Inr (xa_path a, steps))"

definition size_planned ::
  "model_output_limits \<Rightarrow> thinking_level \<Rightarrow> planned_task_output \<Rightarrow> size_error + planned_task_sizing"
where
  "size_planned limits thinking task =
     (case sizeTaskOutput (pl_expectedArtifacts task) limits thinking of
        Inl e \<Rightarrow> Inl e
      | Inr sizing \<Rightarrow>
          let over = map as_path (filter (\<lambda>s. as_verdict s = SzDecompose) (tz_artifacts sizing))
          in case map_throwing (steps_of_artifact limits thinking)
                 (filter (\<lambda>a. xa_path a \<in> set over) (pl_expectedArtifacts task)) of
               Inl e \<Rightarrow> Inl e
             | Inr ds \<Rightarrow> Inr \<lparr>pz_taskId = pl_taskId task, pz_sizing = sizing, pz_decompositions = ds\<rparr>)"

definition sizePlan ::
  "planned_task_output list \<Rightarrow> model_output_limits \<Rightarrow> thinking_level \<Rightarrow> size_error + planned_task_sizing list"
where
  "sizePlan tasks limits thinking = map_throwing (size_planned limits thinking) tasks"

section \<open>The steps fit and cover the artifact\<close>

text \<open>The arithmetic of equal steps: \<open>n\<close> tokens, at most \<open>d\<close> in one step.\<close>

definition steps_of :: "int \<Rightarrow> int \<Rightarrow> int" where
  "steps_of n d = max 1 (- (- n div d))"

lemma neg_div_bounds:
  assumes "(0::int) < d"
  shows "n \<le> d * (- (- n div d))" and "d * (- (- n div d)) < n + d"
proof -
  have "d * (- n div d) + - n mod d = - n"
    by (rule mult_div_mod_eq)
  moreover have "0 \<le> - n mod d" "- n mod d < d"
    using assms by simp_all
  ultimately show "n \<le> d * (- (- n div d))" "d * (- (- n div d)) < n + d"
    unfolding mult_minus_right by linarith+
qed

lemma equal_steps:
  assumes "0 < n" and "1 \<le> d"
  defines "s \<equiv> steps_of n d" and "p \<equiv> - (- n div steps_of n d)"
  shows "1 \<le> s" "p \<le> d" "n \<le> p * s" "p * (s - 1) < n" "0 < p" "d * (s - 1) < n"
proof -
  have d: "n \<le> d * (- (- n div d))" "d * (- (- n div d)) < n + d"
    using neg_div_bounds [of d n] assms(2) by simp_all
  then have "0 < - (- n div d)"
    using assms(1,2) by (smt (verit) mult_nonneg_nonpos)
  then have s: "s = - (- n div d)"
    by (simp add: s_def steps_of_def)
  show "1 \<le> s"
    by (simp add: s_def steps_of_def)
  then have p: "n \<le> s * p" "s * p < n + s"
    using neg_div_bounds [of s n] by (simp_all add: p_def s_def)
  show "d * (s - 1) < n"
    using d(2) s by (simp add: algebra_simps)
  have "s * p < s * d + s"
    using p(2) d(1) s by (simp add: algebra_simps)
  then have "s * p < s * (d + 1)"
    by (simp add: algebra_simps)
  then show "p \<le> d"
    using \<open>1 \<le> s\<close> by (simp add: mult_less_cancel_left)
  then have "p * (s - 1) \<le> d * (s - 1)"
    using \<open>1 \<le> s\<close> by (intro mult_right_mono) simp_all
  with \<open>d * (s - 1) < n\<close> show "p * (s - 1) < n"
    by simp
  show "n \<le> p * s"
    using p(1) by (simp add: mult.commute)
  with assms(1) \<open>1 \<le> s\<close> show "0 < p"
    by (smt (verit) mult_nonneg_nonpos2)
qed

lemma step_count_eq: "step_count n b = steps_of n (max 1 (ob_decomposeAbove b))"
  unfolding step_count_def steps_of_def ceiling_divide_eq_div ..

definition step_sizes :: "int \<Rightarrow> int \<Rightarrow> int list" where
  "step_sizes n d = (let s = steps_of n d; p = - (- n div s)
                     in map (\<lambda>i. min p (n - p * int i)) [0..<nat s])"

lemma step_sizes_cover:
  assumes "0 \<le> n" and "1 \<le> d"
  shows "sum_list (step_sizes n d) = n" "\<forall>x \<in> set (step_sizes n d). x \<le> d \<and> (0 < n \<longrightarrow> 0 < x)"
proof -
  show "sum_list (step_sizes n d) = n"
  proof (cases "n = 0")
    case False
    define s p where "s = steps_of n d" and "p = - (- n div s)"
    note e = equal_steps [OF _ assms(2), of n, folded s_def, folded p_def]
    obtain k where k: "nat s = Suc k" "int k = s - 1"
      using e(1) False assms(1) by (metis Suc_nat_eq_nat_zadd1 diff_add_cancel diff_ge_0_iff_ge int_nat_eq add.commute linorder_not_less order_le_less)
    have whole: "min p (n - p * int i) = p" if "i < k" for i
    proof -
      have "p * int i + p \<le> p * (s - 1)"
        using mult_left_mono [of "int i + 1" "s - 1" p] that k(2) e(5) False assms(1)
        by (simp add: distrib_left)
      with e(4) False assms(1) show ?thesis
        by simp
    qed
    have "sum_list (map (\<lambda>i. min p (n - p * int i)) [0..<k]) = sum_list (map (\<lambda>i. p) [0..<k])"
      using whole by (intro arg_cong [of _ _ sum_list] map_cong) simp_all
    also have "\<dots> = p * int k"
      by (simp add: sum_list_triv)
    finally have "sum_list (map (\<lambda>i. min p (n - p * int i)) [0..<nat s]) = p * int k + min p (n - p * int k)"
      by (simp add: k(1))
    also have "\<dots> = n"
    proof -
      have "p * s = p * int k + p"
        using k(2) by (simp add: right_diff_distrib)
      with e(3) False assms(1) show ?thesis
        by simp
    qed
    finally show ?thesis
      by (simp only: step_sizes_def Let_def p_def s_def)
  qed (simp add: step_sizes_def steps_of_def)
next
  show "\<forall>x \<in> set (step_sizes n d). x \<le> d \<and> (0 < n \<longrightarrow> 0 < x)"
  proof (cases "n = 0")
    case True
    then show ?thesis
      using assms(2) by (simp add: step_sizes_def steps_of_def)
  next
    case False
    define s p where "s = steps_of n d" and "p = - (- n div s)"
    note e = equal_steps [OF _ assms(2), of n, folded s_def, folded p_def]
    have "0 < n - p * int i" if "i < nat s" for i
    proof -
      have "p * int i \<le> p * (s - 1)"
        using that e(5) False assms(1) by (intro mult_left_mono) simp_all
      with e(4) False assms(1) show ?thesis
        by simp
    qed
    then have "min p (n - p * int i) \<le> d \<and> 0 < min p (n - p * int i)" if "i < nat s" for i
      using that e(2,5) False assms(1) by (simp add: min.coboundedI1)
    then have "\<forall>x \<in> set (map (\<lambda>i. min p (n - p * int i)) [0..<nat s]). x \<le> d \<and> 0 < x"
      by simp
    then show ?thesis
      by (simp only: step_sizes_def Let_def p_def s_def) blast
  qed
qed

text \<open>No shorter list of steps covers the artifact.\<close>

lemma step_count_least:
  assumes "0 \<le> n" and "1 \<le> d" and "\<forall>x \<in> set xs. x \<le> d" and "sum_list xs = n" and "xs \<noteq> []"
  shows "steps_of n d \<le> int (length xs)"
proof (cases "n = 0")
  case True
  then show ?thesis
    using \<open>xs \<noteq> []\<close> by (cases xs) (simp_all add: steps_of_def)
next
  case False
  have "sum_list xs \<le> d * int (length xs)"
    using assms(3) by (induction xs) (auto simp: algebra_simps)
  moreover have "d * (steps_of n d - 1) < n"
    using equal_steps(6) [of n d] assms False by simp
  ultimately have less: "d * (steps_of n d - 1) < d * int (length xs)"
    using assms(4) by linarith
  have "0 \<le> d"
    using assms(2) by simp
  with less have "steps_of n d - 1 < int (length xs)"
    by (rule mult_left_less_imp_less)
  then show ?thesis
    by simp
qed

section \<open>Properties\<close>

lemma estimateTokens_Inr: "estimateTokens e = Inr n \<Longrightarrow> 0 \<le> n"
  by (cases e) (auto simp: estimateTokens_def TOKENS_PER_LINE_def BYTES_PER_TOKEN_def split: if_splits
      intro: order_trans [of _ 0])

lemma planIncrementalSteps_Inr:
  assumes "planIncrementalSteps a limits thinking = Inr steps"
  obtains n where "estimateTokens (xa_estimate a) = Inr n"
    "map st_estimatedOutputTokens steps = step_sizes n (max 1 (ob_decomposeAbove (outputBudget limits thinking)))"
    "map st_step steps = map Suc [0..<length steps]"
    "map st_kind steps = map (\<lambda>i. if i = 0 then WriteStep else EditStep) [0..<length steps]"
    "length steps = nat (steps_of n (max 1 (ob_decomposeAbove (outputBudget limits thinking))))"
  using assms
  by (auto simp: planIncrementalSteps_def Let_def step_count_eq ceiling_divide_eq_div production_step_at_def
      step_sizes_def comp_def split: sum.splits)

text \<open>
  The production steps of an artifact together produce exactly its tokens, each of them fits in
  one turn and does some work, the first writes the file and the others edit it, and no plan with
  fewer steps could respect the ceiling.
\<close>

theorem steps_fit_one_turn:
  assumes "planIncrementalSteps a limits thinking = Inr steps"
    and "d = max 1 (ob_decomposeAbove (outputBudget limits thinking))"
  shows "\<exists>n. estimateTokens (xa_estimate a) = Inr n \<and> 0 \<le> n \<and>
    sum_list (map st_estimatedOutputTokens steps) = n \<and>
    (\<forall>s \<in> set steps. st_estimatedOutputTokens s \<le> d \<and> (0 < n \<longrightarrow> 0 < st_estimatedOutputTokens s)) \<and>
    map st_step steps = map Suc [0..<length steps] \<and>
    map st_kind steps = map (\<lambda>i. if i = 0 then WriteStep else EditStep) [0..<length steps] \<and>
    (\<forall>xs. xs \<noteq> [] \<longrightarrow> (\<forall>x \<in> set xs. x \<le> d) \<longrightarrow> sum_list xs = n \<longrightarrow> length steps \<le> length xs)"
proof -
  obtain n where n: "estimateTokens (xa_estimate a) = Inr n"
    "map st_estimatedOutputTokens steps = step_sizes n d"
    "map st_step steps = map Suc [0..<length steps]"
    "map st_kind steps = map (\<lambda>i. if i = 0 then WriteStep else EditStep) [0..<length steps]"
    "length steps = nat (steps_of n d)"
    using planIncrementalSteps_Inr [OF assms(1)] assms(2) by metis
  have pos: "0 \<le> n" "1 \<le> d"
    using estimateTokens_Inr [OF n(1)] assms(2) by simp_all
  have sizes: "\<forall>x \<in> st_estimatedOutputTokens ` set steps. x \<le> d \<and> (0 < n \<longrightarrow> 0 < x)"
    using step_sizes_cover(2) [OF pos] n(2) by (metis list.set_map)
  have least: "length steps \<le> length xs" if "xs \<noteq> []" "\<forall>x \<in> set xs. x \<le> d" "sum_list xs = n" for xs
    using step_count_least [OF pos that(2,3,1)] n(5) by simp
  show ?thesis
    using n(1,3,4) pos(1) step_sizes_cover(1) [OF pos] sizes least
    by (intro exI [of _ n]) (simp add: n(2))
qed

text \<open>A task must be decomposed exactly when one of its artifacts exceeds the ceiling.\<close>

lemma worst_verdict: "VERDICT_RANK (fold worse_verdict sized v) = fold (\<lambda>s. max (VERDICT_RANK (as_verdict s))) sized (VERDICT_RANK v)"
  by (induction sized arbitrary: v) (auto simp: worse_verdict_def max_def)

lemma rank_fold: "(2::nat) \<le> fold (\<lambda>s. max (f s)) sized r \<longleftrightarrow> 2 \<le> r \<or> (\<exists>s \<in> set sized. 2 \<le> f s)"
  by (induction sized arbitrary: r) (auto simp: le_max_iff_disj)

lemma verdict_rank_2: "2 \<le> VERDICT_RANK v \<longleftrightarrow> v = SzDecompose \<or> v = SzFlag"
  by (cases v) simp_all

lemma map_throwing_set: "map_throwing f xs = Inr ys \<Longrightarrow> set ys = {y. \<exists>x \<in> set xs. f x = Inr y}"
  by (induction xs arbitrary: ys) (fastforce split: sum.splits)+

lemma sizeArtifact_exceeds:
  "sizeArtifact a b = Inr s \<Longrightarrow> (as_verdict s = SzDecompose \<or> as_verdict s = SzFlag) \<longleftrightarrow>
     (\<exists>n. estimateTokens (xa_estimate a) = Inr n \<and> ob_decomposeAbove b < n)"
  by (auto simp: sizeArtifact_def sizing_verdict_of_def Let_def split: sum.splits if_splits)

theorem must_decompose_iff:
  assumes "sizeTaskOutput artifacts limits thinking = Inr sizing"
  shows "tz_mustDecompose sizing \<longleftrightarrow>
    (\<exists>a \<in> set artifacts. \<exists>n. estimateTokens (xa_estimate a) = Inr n \<and>
       ob_decomposeAbove (outputBudget limits thinking) < n)"
proof -
  let ?b = "outputBudget limits thinking"
  obtain sized where sized: "map_throwing (\<lambda>a. sizeArtifact a ?b) artifacts = Inr sized"
    and must: "tz_mustDecompose sizing \<longleftrightarrow> 2 \<le> VERDICT_RANK (fold worse_verdict sized SzFits)"
    using assms by (auto simp: sizeTaskOutput_def Let_def verdict_rank_2 split: sum.splits)
  have all: "\<exists>s. sizeArtifact a ?b = Inr s \<and> s \<in> set sized" if "a \<in> set artifacts" for a
    using sized that
    by (induction artifacts arbitrary: sized) (auto split: sum.splits)
  have "tz_mustDecompose sizing \<longleftrightarrow> (\<exists>s \<in> set sized. as_verdict s = SzDecompose \<or> as_verdict s = SzFlag)"
    using must by (simp add: worst_verdict rank_fold verdict_rank_2)
  also have "\<dots> \<longleftrightarrow> (\<exists>a \<in> set artifacts. \<exists>n. estimateTokens (xa_estimate a) = Inr n \<and> ob_decomposeAbove ?b < n)"
    using map_throwing_set [OF sized] all sizeArtifact_exceeds [of _ ?b] by blast
  finally show ?thesis .
qed

text \<open>More thinking never leaves more room.\<close>

lemma thinking_only_tightens:
  assumes "THINKING_RESERVE t \<le> THINKING_RESERVE t'"
  shows "ob_usableTokens (outputBudget limits t') \<le> ob_usableTokens (outputBudget limits t)"
proof -
  define n where "n = (case usable_ceiling limits of None \<Rightarrow> ASSUMED_MAX_OUTPUT_TOKENS | Some n \<Rightarrow> n)"
  have "0 \<le> n"
    by (auto simp: n_def ASSUMED_MAX_OUTPUT_TOKENS_def usable_ceiling_def split: option.splits if_splits)
  then have "floor (of_int n * THINKING_RESERVE t) \<le> floor (of_int n * THINKING_RESERVE t')"
    using assms by (intro floor_mono mult_left_mono) simp_all
  then show ?thesis
    by (simp add: outputBudget_def Let_def flip: n_def)
qed

definition fx_artifact :: expected_artifact where
  "fx_artifact = \<lparr>xa_path = ''a'', xa_estimate = InLines 3, xa_atomic = None\<rparr>"

definition fx_limits :: model_output_limits where
  "fx_limits = \<lparr>ml_maxTokens = Some 40, ml_contextWindow = None\<rparr>"

lemma fx_steps:
  "planIncrementalSteps fx_artifact fx_limits ThHigh =
     Inr [\<lparr>st_step = 1, st_kind = WriteStep, st_estimatedOutputTokens = 9\<rparr>,
          \<lparr>st_step = 2, st_kind = EditStep, st_estimatedOutputTokens = 9\<rparr>,
          \<lparr>st_step = 3, st_kind = EditStep, st_estimatedOutputTokens = 9\<rparr>,
          \<lparr>st_step = 4, st_kind = EditStep, st_estimatedOutputTokens = 9\<rparr>,
          \<lparr>st_step = 5, st_kind = EditStep, st_estimatedOutputTokens = 6\<rparr>]"
  by code_simp

theorem steps_witness:
  "\<exists>n. estimateTokens (xa_estimate fx_artifact) = Inr n \<and> n = 42"
  using steps_fit_one_turn [OF fx_steps refl] by auto

end
