(* ===== verification/Stall.thy ===== *)
theory Stall
  imports WeakChecks AttemptBudget CheckEvidence
begin

text \<open>
  \<open>src/workflow/stall.ts\<close>: the detector that folds attempts into stall events. The two count tables are
  maps from texts; a fingerprint is a hash, so it never is the name of a property every object has.
  A configured threshold is a finite number or one of the values \<open>Number.isFinite\<close> refuses.
\<close>

section \<open>Thresholds\<close>

datatype js_number = Finite rat | NotFinite

record stall_thresholds =
  th_repeatedFailures :: int
  th_repeatedApproaches :: int
  th_noProgressAttempts :: int
  th_toolCallsWithoutChange :: int

record threshold_overrides =
  to_repeatedFailures :: "js_number option"
  to_repeatedApproaches :: "js_number option"
  to_noProgressAttempts :: "js_number option"
  to_toolCallsWithoutChange :: "js_number option"

definition DEFAULT_STALL_THRESHOLDS :: stall_thresholds where
  "DEFAULT_STALL_THRESHOLDS = \<lparr>th_repeatedFailures = 3, th_repeatedApproaches = 2,
     th_noProgressAttempts = 2, th_toolCallsWithoutChange = 12\<rparr>"

text \<open>\<open>Math.round\<close> rounds a half upwards.\<close>

definition pick_threshold :: "js_number option \<Rightarrow> int \<Rightarrow> int" where
  "pick_threshold v fallback =
     (case v of Some (Finite x) \<Rightarrow> max 1 (floor (x + 1 / 2)) | _ \<Rightarrow> fallback)"

definition resolveStallThresholds :: "threshold_overrides option \<Rightarrow> stall_thresholds" where
  "resolveStallThresholds overrides =
     (case overrides of
        None \<Rightarrow> DEFAULT_STALL_THRESHOLDS
      | Some v \<Rightarrow>
          \<lparr>th_repeatedFailures = pick_threshold (to_repeatedFailures v) (th_repeatedFailures DEFAULT_STALL_THRESHOLDS),
           th_repeatedApproaches = pick_threshold (to_repeatedApproaches v) (th_repeatedApproaches DEFAULT_STALL_THRESHOLDS),
           th_noProgressAttempts = pick_threshold (to_noProgressAttempts v) (th_noProgressAttempts DEFAULT_STALL_THRESHOLDS),
           th_toolCallsWithoutChange =
             pick_threshold (to_toolCallsWithoutChange v) (th_toolCallsWithoutChange DEFAULT_STALL_THRESHOLDS)\<rparr>)"

section \<open>Observations and events\<close>

record check_observation =
  cb_checkId :: string
  cb_status :: check_run_status
  cb_check :: check_definition
  cb_failureSignature :: "string option"

datatype write_kind = WkCreate | WkModify | WkDelete

record write_observation =
  wo_path :: string
  wo_kind :: write_kind

record attempt_observation =
  ao_attemptId :: string
  ao_taskId :: string
  ao_approachFingerprint :: "string option"
  ao_failureKind :: failure_kind
  ao_checks :: "check_observation list"
  ao_writes :: "write_observation list"
  ao_toolCalls :: nat
  ao_filesChanged :: nat

datatype stall_kind = RepeatedFailure | RepeatedApproach | NoProgress | ScopeDrift

definition STALL_KINDS :: "stall_kind list" where
  "STALL_KINDS = [RepeatedFailure, RepeatedApproach, NoProgress, ScopeDrift]"

record stall_event =
  se_kind :: stall_kind
  se_taskId :: string
  se_attemptId :: string
  se_count :: nat
  se_threshold :: int
  se_detail :: string
  se_attemptIds :: "string list"

section \<open>Progress and drift\<close>

definition previously_failing :: "attempt_observation option \<Rightarrow> string list" where
  "previously_failing previous =
     (case previous of None \<Rightarrow> []
      | Some a \<Rightarrow> map cb_checkId (filter (\<lambda>c. cb_status c \<noteq> CsPass) (ao_checks a)))"

definition flipped :: "attempt_observation option \<Rightarrow> check_observation \<Rightarrow> bool" where
  "flipped previous c \<longleftrightarrow> cb_status c = CsPass \<and> cb_checkId c \<in> set (previously_failing previous)"

definition attemptMadeProgress :: "attempt_observation \<Rightarrow> attempt_observation option \<Rightarrow> bool \<times> string" where
  "attemptMadeProgress a previous =
     (if 0 < ao_filesChanged a then (True, digits (ao_filesChanged a) @ '' file(s) changed.'')
      else case find (\<lambda>c. flipped previous c \<and> isVerifyingCheck (cb_check c)) (ao_checks a) of
        Some c \<Rightarrow> (True, ''Verifying check '' @ cb_checkId c @ '' went from failing to passing.'')
      | None \<Rightarrow>
          let weakFlips = filter (\<lambda>c. flipped previous c \<and> \<not> isVerifyingCheck (cb_check c)) (ao_checks a) in
          if weakFlips \<noteq> []
          then (False, ''No file changed; the only check(s) that started passing ('' @
                  join_str '', '' (map cb_checkId weakFlips) @
                  '') cannot fail, so they are not verification (isVerifyingCheck, #44).'')
          else (False, ''No file changed and no failing verifying check began to pass.''))"

definition normalisePath :: "string \<Rightarrow> string" where
  "normalisePath path =
     dropWhile (\<lambda>c. c = CHR ''/'') (drop_dot_slash (map (\<lambda>c. if c = CHR 0x5C then CHR ''/'' else c) path))"

definition owned_by_entry :: "string \<Rightarrow> string \<Rightarrow> bool" where
  "owned_by_entry target raw =
     (let owned = drop_trailing_slashes (normalisePath raw) in
      owned = [] \<or> owned = ''.'' \<or> target = owned \<or> starts_with (owned @ ''/'') target)"

definition pathInOwnership :: "string \<Rightarrow> ownership \<Rightarrow> bool" where
  "pathInOwnership path ow = list_ex (owned_by_entry (normalisePath path)) (ow_paths ow)"

definition driftingWrites :: "attempt_observation \<Rightarrow> ownership \<Rightarrow> write_observation list" where
  "driftingWrites a ow = filter (\<lambda>w. \<not> pathInOwnership (wo_path w) ow) (ao_writes a)"

section \<open>The detector\<close>

definition failure_sign :: "check_observation \<Rightarrow> string" where
  "failure_sign c = (case cb_failureSignature c of Some s \<Rightarrow> s | None \<Rightarrow> check_status_text (cb_status c))"

definition failureSignatureKey :: "check_observation \<Rightarrow> string" where
  "failureSignatureKey c = cb_checkId c @ ''::'' @ failure_sign c"

type_synonym attempt_counts = "string \<Rightarrow> string list option"

record stall_state =
  sl_failureCounts :: attempt_counts
  sl_approachCounts :: attempt_counts
  sl_noProgressStreak :: "string list"
  sl_lastAttempt :: "attempt_observation option"
  sl_fired :: "stall_kind list"

definition EMPTY_STALL_STATE :: stall_state where
  "EMPTY_STALL_STATE = \<lparr>sl_failureCounts = (\<lambda>_. None), sl_approachCounts = (\<lambda>_. None),
     sl_noProgressStreak = [], sl_lastAttempt = None, sl_fired = []\<rparr>"

definition seen_of :: "attempt_counts \<Rightarrow> string \<Rightarrow> string list" where
  "seen_of counts key = (case counts key of None \<Rightarrow> [] | Some ids \<Rightarrow> ids)"

text \<open>An event is pushed only if its kind has not fired; the kinds that fired and the events so far.\<close>

definition fire :: "stall_event \<Rightarrow> stall_kind list \<times> stall_event list \<Rightarrow> stall_kind list \<times> stall_event list" where
  "fire ev fe = (if se_kind ev \<in> set (fst fe) then fe else (fst fe @ [se_kind ev], snd fe @ [ev]))"

definition stall_event_of ::
  "stall_kind \<Rightarrow> attempt_observation \<Rightarrow> nat \<Rightarrow> int \<Rightarrow> string \<Rightarrow> string list \<Rightarrow> stall_event"
where
  "stall_event_of k a n th detail ids =
     \<lparr>se_kind = k, se_taskId = ao_taskId a, se_attemptId = ao_attemptId a, se_count = n, se_threshold = th,
      se_detail = detail, se_attemptIds = ids\<rparr>"

definition failure_event :: "int \<Rightarrow> attempt_observation \<Rightarrow> check_observation \<Rightarrow> string list \<Rightarrow> stall_event" where
  "failure_event th a c seen = stall_event_of RepeatedFailure a (length seen) th
     (''Check '' @ cb_checkId c @ '' failed identically '' @ digits (length seen) @ '' times (signature '' @
      failure_sign c @ '').'') seen"

definition failure_step ::
  "int \<Rightarrow> attempt_observation \<Rightarrow> check_observation \<Rightarrow> attempt_counts \<times> stall_kind list \<times> stall_event list \<Rightarrow>
   attempt_counts \<times> stall_kind list \<times> stall_event list"
where
  "failure_step th a c acc =
     (if cb_status c = CsPass then acc
      else let key = failureSignatureKey c; seen = seen_of (fst acc) key @ [ao_attemptId a] in
        ((fst acc)(key \<mapsto> seen),
         if th \<le> int (length seen) then fire (failure_event th a c seen) (snd acc) else snd acc))"

definition approach_event :: "int \<Rightarrow> attempt_observation \<Rightarrow> string \<Rightarrow> string list \<Rightarrow> stall_event" where
  "approach_event th a key seen = stall_event_of RepeatedApproach a (length seen) th
     (digits (length seen) @ '' attempts produced the same approach fingerprint '' @ key @ ''.'') seen"

definition approach_step ::
  "int \<Rightarrow> attempt_observation \<Rightarrow> attempt_counts \<times> stall_kind list \<times> stall_event list \<Rightarrow>
   attempt_counts \<times> stall_kind list \<times> stall_event list"
where
  "approach_step th a acc =
     (case ao_approachFingerprint a of
        None \<Rightarrow> acc
      | Some key \<Rightarrow>
          if key = [] then acc
          else let seen = seen_of (fst acc) key @ [ao_attemptId a] in
            ((fst acc)(key \<mapsto> seen),
             if th \<le> int (length seen) then fire (approach_event th a key seen) (snd acc) else snd acc))"

definition no_progress_event ::
  "stall_thresholds \<Rightarrow> attempt_observation \<Rightarrow> string list \<Rightarrow> string \<Rightarrow> stall_event"
where
  "no_progress_event th a streak reason =
     (let byChurn = int (length streak) < th_noProgressAttempts th in
      stall_event_of NoProgress a (if byChurn then ao_toolCalls a else length streak)
        (if byChurn then th_toolCallsWithoutChange th else th_noProgressAttempts th)
        (if byChurn then digits (ao_toolCalls a) @ '' tool calls in one attempt changed no file.''
         else digits (length streak) @ '' consecutive attempts made no measurable progress. '' @ reason)
        (dedup (streak @ (if byChurn then [ao_attemptId a] else []))))"

definition progress_step ::
  "stall_thresholds \<Rightarrow> attempt_observation \<Rightarrow> attempt_observation option \<Rightarrow> string list \<Rightarrow>
   stall_kind list \<times> stall_event list \<Rightarrow> string list \<times> stall_kind list \<times> stall_event list"
where
  "progress_step th a previous old_streak fe =
     (let harness = isHarnessFailure (ao_failureKind a);
          progress = attemptMadeProgress a previous;
          churned = (ao_filesChanged a = 0 \<and> th_toolCallsWithoutChange th \<le> int (ao_toolCalls a));
          streak = (if fst progress \<or> harness then [] else old_streak @ [ao_attemptId a])
      in if NoProgress \<notin> set (fst fe) \<and>
            (th_noProgressAttempts th \<le> int (length streak) \<or> (churned \<and> \<not> harness))
         then (if int (length streak) < th_noProgressAttempts th then streak @ [ao_attemptId a] else streak,
               fire (no_progress_event th a streak (snd progress)) fe)
         else (streak, fe))"

primrec write_kind_text :: "write_kind \<Rightarrow> string" where
  "write_kind_text WkCreate = ''create''"
| "write_kind_text WkModify = ''modify''"
| "write_kind_text WkDelete = ''delete''"

definition drift_event :: "attempt_observation \<Rightarrow> write_observation list \<Rightarrow> stall_event" where
  "drift_event a drifted = stall_event_of ScopeDrift a (length drifted) 1
     (''Wrote outside the task'' @ CHR 0x27 # ''s declared ownership: '' @
      join_str '', '' (map (\<lambda>w. write_kind_text (wo_kind w) @ '' '' @ wo_path w) drifted) @
      ''. This is the write_outside_ownership approval class (#15).'') [ao_attemptId a]"

definition drift_step ::
  "ownership option \<Rightarrow> attempt_observation \<Rightarrow> stall_kind list \<times> stall_event list \<Rightarrow> stall_kind list \<times> stall_event list"
where
  "drift_step ow a fe =
     (case ow of
        None \<Rightarrow> fe
      | Some w \<Rightarrow> let drifted = driftingWrites a w in
          if drifted \<noteq> [] then fire (drift_event a drifted) fe else fe)"

definition observeAttempt ::
  "ownership option \<Rightarrow> threshold_overrides option \<Rightarrow> stall_state \<Rightarrow> attempt_observation \<Rightarrow> stall_state \<times> stall_event list"
where
  "observeAttempt ow overrides st a =
     (let th = resolveStallThresholds overrides;
          fails = (if isHarnessFailure (ao_failureKind a) then (sl_failureCounts st, sl_fired st, [])
                   else fold (failure_step (th_repeatedFailures th) a) (ao_checks a)
                          (sl_failureCounts st, sl_fired st, []));
          approaches = approach_step (th_repeatedApproaches th) a (sl_approachCounts st, snd fails);
          progress = progress_step th a (sl_lastAttempt st) (sl_noProgressStreak st) (snd approaches);
          final = drift_step ow a (snd progress)
      in (\<lparr>sl_failureCounts = fst fails, sl_approachCounts = fst approaches, sl_noProgressStreak = fst progress,
           sl_lastAttempt = Some a, sl_fired = fst final\<rparr>, snd final))"

definition detect_step ::
  "ownership option \<Rightarrow> threshold_overrides option \<Rightarrow> attempt_observation \<Rightarrow> stall_state \<times> stall_event list \<Rightarrow>
   stall_state \<times> stall_event list"
where
  "detect_step ow overrides a acc =
     (let (st, evs) = observeAttempt ow overrides (fst acc) a in (st, snd acc @ evs))"

definition detectStalls ::
  "ownership option \<Rightarrow> threshold_overrides option \<Rightarrow> attempt_observation list \<Rightarrow> stall_state \<times> stall_event list"
where
  "detectStalls ow overrides attempts = fold (detect_step ow overrides) attempts (EMPTY_STALL_STATE, [])"

section \<open>What the detector has counted\<close>

text \<open>The failures and approaches an attempt adds, by key; a harness failure adds no failure.\<close>

definition failing_keys :: "attempt_observation \<Rightarrow> string list" where
  "failing_keys a =
     (if isHarnessFailure (ao_failureKind a) then []
      else map failureSignatureKey (filter (\<lambda>c. cb_status c \<noteq> CsPass) (ao_checks a)))"

definition approach_keys :: "attempt_observation \<Rightarrow> string list" where
  "approach_keys a = (case ao_approachFingerprint a of None \<Rightarrow> [] | Some key \<Rightarrow> if key = [] then [] else [key])"

definition counted :: "attempt_counts \<Rightarrow> string list \<Rightarrow> bool" where
  "counted counts keys \<longleftrightarrow> (\<forall>key. length (seen_of counts key) = count_list keys key)"

definition reached :: "int \<Rightarrow> string list \<Rightarrow> bool" where
  "reached th keys \<longleftrightarrow> (\<exists>key. th \<le> int (count_list keys key))"

text \<open>Between events and fired kinds: each event has its own kind, and it fired since the start.\<close>

definition fires_once :: "stall_kind list \<Rightarrow> stall_kind list \<times> stall_event list \<Rightarrow> bool" where
  "fires_once start fe \<longleftrightarrow>
     fst fe = start @ map se_kind (snd fe) \<and> distinct (start @ map se_kind (snd fe))"

lemma fire_once: "fires_once start fe \<Longrightarrow> fires_once start (fire ev fe)"
  by (auto simp: fires_once_def fire_def)

lemma fire_kinds: "k \<in> set (fst (fire ev fe)) \<longleftrightarrow> k \<in> set (fst fe) \<or> k = se_kind ev"
  by (auto simp: fire_def)

lemma event_kinds [simp]:
  "se_kind (stall_event_of k a n th d ids) = k"
  "se_kind (failure_event i a c seen) = RepeatedFailure"
  "se_kind (approach_event i a key seen) = RepeatedApproach"
  "se_kind (no_progress_event ths a seen reason) = NoProgress" "se_kind (drift_event a ws) = ScopeDrift"
  by (simp_all add: stall_event_of_def failure_event_def approach_event_def no_progress_event_def drift_event_def Let_def)

lemma seen_of_upd: "seen_of (counts(key \<mapsto> ids)) k = (if k = key then ids else seen_of counts k)"
  by (simp add: seen_of_def)

lemma counted_snoc: "counted counts keys \<Longrightarrow> counted (counts(key \<mapsto> seen_of counts key @ [i])) (keys @ [key])"
  by (auto simp: counted_def seen_of_upd)

lemma reached_mono: "reached th keys \<Longrightarrow> reached th (keys @ keys')"
  unfolding reached_def by (metis count_list_append le_add1 of_nat_le_iff order_trans)

lemma reached_snoc: "reached th (keys @ [key]) \<longleftrightarrow> reached th keys \<or> th \<le> int (count_list keys key + 1)"
proof
  assume "reached th (keys @ [key])"
  then obtain k where "th \<le> int (count_list (keys @ [key]) k)"
    unfolding reached_def by blast
  then show "reached th keys \<or> th \<le> int (count_list keys key + 1)"
    by (cases "k = key") (auto simp: reached_def)
next
  assume "reached th keys \<or> th \<le> int (count_list keys key + 1)"
  moreover have "int (count_list (keys @ [key]) key) = int (count_list keys key + 1)"
    by simp
  ultimately show "reached th (keys @ [key])"
    using reached_mono [of th keys "[key]"] unfolding reached_def by metis
qed

text \<open>
  A count table and a kind that fires on it: the table counts the keys seen, and the kind has fired
  exactly if one of them was seen often enough.
\<close>

definition tracks ::
  "stall_kind \<Rightarrow> int \<Rightarrow> string list \<Rightarrow> attempt_counts \<Rightarrow> stall_kind list \<Rightarrow> bool"
where
  "tracks k th keys counts fired \<longleftrightarrow> counted counts keys \<and> (k \<in> set fired \<longleftrightarrow> reached th keys)"

lemma tracks_seen:
  assumes "tracks (se_kind ev) th keys counts (fst fe)"
  shows "tracks (se_kind ev) th (keys @ [key]) (counts(key \<mapsto> seen_of counts key @ [i]))
    (fst (if th \<le> int (length (seen_of counts key @ [i])) then fire ev fe else fe))"
proof -
  have counts: "counted counts keys" and fired: "se_kind ev \<in> set (fst fe) \<longleftrightarrow> reached th keys"
    using assms by (simp_all add: tracks_def)
  then have "int (length (seen_of counts key @ [i])) = int (count_list keys key + 1)"
    by (simp add: counted_def)
  then show ?thesis
    using counted_snoc [OF counts] fired unfolding tracks_def reached_snoc by (simp add: fire_kinds)
qed

definition check_keys :: "check_observation list \<Rightarrow> string list" where
  "check_keys cs = map failureSignatureKey (filter (\<lambda>c. cb_status c \<noteq> CsPass) cs)"

lemma failure_step_tracks:
  assumes "tracks RepeatedFailure th keys (fst acc) (fst (snd acc))"
  shows "tracks RepeatedFailure th (keys @ check_keys [c]) (fst (failure_step th a c acc))
    (fst (snd (failure_step th a c acc)))"
  using assms
    tracks_seen [of "failure_event th a c (seen_of (fst acc) (failureSignatureKey c) @ [ao_attemptId a])" th keys
      "fst acc" "snd acc" "failureSignatureKey c" "ao_attemptId a"]
  by (simp add: failure_step_def check_keys_def Let_def)

lemma failure_steps_track:
  "tracks RepeatedFailure th keys (fst acc) (fst (snd acc)) \<Longrightarrow>
   tracks RepeatedFailure th (keys @ check_keys cs) (fst (fold (failure_step th a) cs acc))
     (fst (snd (fold (failure_step th a) cs acc)))"
proof (induction cs arbitrary: keys acc)
  case (Cons c cs)
  have "check_keys (c # cs) = check_keys [c] @ check_keys cs"
    by (simp add: check_keys_def)
  with Cons.IH [OF failure_step_tracks [OF Cons.prems]] show ?case
    by simp
qed (simp add: check_keys_def)

lemma failure_steps_others:
  "fires_once start (snd acc) \<Longrightarrow> fires_once start (snd (fold (failure_step th a) cs acc))"
  "k \<noteq> RepeatedFailure \<Longrightarrow> k \<in> set (fst (snd (fold (failure_step th a) cs acc))) \<longleftrightarrow> k \<in> set (fst (snd acc))"
  by (induction cs arbitrary: acc) (auto simp: failure_step_def Let_def fire_once fire_kinds)

lemma approach_step_tracks:
  assumes "tracks RepeatedApproach th keys (fst acc) (fst (snd acc))"
  shows "tracks RepeatedApproach th (keys @ approach_keys a) (fst (approach_step th a acc))
    (fst (snd (approach_step th a acc)))"
  using assms
    tracks_seen [of "approach_event th a key (seen_of (fst acc) key @ [ao_attemptId a])" th keys
      "fst acc" "snd acc" key "ao_attemptId a" for key]
  by (cases "ao_approachFingerprint a") (simp_all add: approach_step_def approach_keys_def Let_def)

lemma approach_step_others:
  "fires_once start (snd acc) \<Longrightarrow> fires_once start (snd (approach_step th a acc))"
  "k \<noteq> RepeatedApproach \<Longrightarrow> k \<in> set (fst (snd (approach_step th a acc))) \<longleftrightarrow> k \<in> set (fst (snd acc))"
  by (auto simp: approach_step_def Let_def fire_once fire_kinds split: option.splits)

lemma progress_step_others:
  "fires_once start fe \<Longrightarrow> fires_once start (snd (progress_step ths a prev streak fe))"
  "k \<noteq> NoProgress \<Longrightarrow> k \<in> set (fst (snd (progress_step ths a prev streak fe))) \<longleftrightarrow> k \<in> set (fst fe)"
  by (auto simp: progress_step_def Let_def fire_once fire_kinds)

lemma drift_step_kinds:
  "fires_once start fe \<Longrightarrow> fires_once start (drift_step ow a fe)"
  "k \<in> set (fst (drift_step ow a fe)) \<longleftrightarrow> k \<in> set (fst fe) \<or>
     (k = ScopeDrift \<and> (\<exists>w. ow = Some w \<and> driftingWrites a w \<noteq> []))"
  by (auto simp: drift_step_def Let_def fire_once fire_kinds split: option.splits)

section \<open>Properties of the detector\<close>

definition idle_attempt :: "attempt_observation \<Rightarrow> bool" where
  "idle_attempt a \<longleftrightarrow> \<not> isHarnessFailure (ao_failureKind a) \<and> ao_filesChanged a = 0"

definition no_progress_at :: "attempt_observation list \<Rightarrow> stall_event list \<Rightarrow> bool" where
  "no_progress_at as evs \<longleftrightarrow>
     (\<forall>ev \<in> set evs. se_kind ev = NoProgress \<longrightarrow> (\<exists>a \<in> set as. idle_attempt a \<and> se_attemptId ev = ao_attemptId a))"

lemma thresholds_positive:
  "1 \<le> th_repeatedFailures (resolveStallThresholds v)" "1 \<le> th_repeatedApproaches (resolveStallThresholds v)"
  "1 \<le> th_noProgressAttempts (resolveStallThresholds v)" "1 \<le> th_toolCallsWithoutChange (resolveStallThresholds v)"
  by (auto simp: resolveStallThresholds_def pick_threshold_def DEFAULT_STALL_THRESHOLDS_def
      split: option.splits js_number.splits)

lemma in_fire: "e \<in> set (snd (fire ev fe)) \<Longrightarrow> e = ev \<or> e \<in> set (snd fe)"
  by (auto simp: fire_def split: if_splits)

lemma failure_steps_events:
  "e \<in> set (snd (snd (fold (failure_step th a) cs acc))) \<Longrightarrow> se_kind e = RepeatedFailure \<or> e \<in> set (snd (snd acc))"
proof (induction cs arbitrary: acc)
  case (Cons c cs)
  from Cons.IH [of "failure_step th a c acc"] Cons.prems show ?case
    by (auto simp: failure_step_def Let_def dest: in_fire split: if_splits)
qed simp

lemma approach_step_events:
  "e \<in> set (snd (snd (approach_step th a acc))) \<Longrightarrow> se_kind e = RepeatedApproach \<or> e \<in> set (snd (snd acc))"
  by (auto simp: approach_step_def Let_def dest: in_fire split: option.splits if_splits)

lemma drift_step_events: "e \<in> set (snd (drift_step ow a fe)) \<Longrightarrow> se_kind e = ScopeDrift \<or> e \<in> set (snd fe)"
  by (auto simp: drift_step_def Let_def dest: in_fire split: option.splits if_splits)

lemma progress_step_events:
  assumes "e \<in> set (snd (snd (progress_step ths a prev streak fe)))" and "1 \<le> th_noProgressAttempts ths"
  shows "idle_attempt a \<and> se_attemptId e = ao_attemptId a \<or> e \<in> set (snd fe)"
proof -
  have id: "se_attemptId (no_progress_event ths a s r) = ao_attemptId a" for s r
    by (simp add: no_progress_event_def stall_event_of_def Let_def)
  have busy: "0 < ao_filesChanged a \<Longrightarrow> fst (attemptMadeProgress a prev)"
    by (simp add: attemptMadeProgress_def)
  show ?thesis
    using assms busy id
    by (auto simp: progress_step_def Let_def idle_attempt_def dest!: in_fire split: if_splits)
qed

text \<open>What the state of the detector says of the attempts it has seen.\<close>

definition watched ::
  "ownership option \<Rightarrow> threshold_overrides option \<Rightarrow> attempt_observation list \<Rightarrow> stall_state \<Rightarrow> bool"
where
  "watched ow overrides as st \<longleftrightarrow>
     tracks RepeatedFailure (th_repeatedFailures (resolveStallThresholds overrides))
       (concat (map failing_keys as)) (sl_failureCounts st) (sl_fired st) \<and>
     tracks RepeatedApproach (th_repeatedApproaches (resolveStallThresholds overrides))
       (concat (map approach_keys as)) (sl_approachCounts st) (sl_fired st) \<and>
     (ScopeDrift \<in> set (sl_fired st) \<longleftrightarrow> (\<exists>w. ow = Some w \<and> (\<exists>a \<in> set as. driftingWrites a w \<noteq> [])))"

lemma tracks_fired: "tracks k th keys counts fired \<Longrightarrow> (k \<in> set fired' \<longleftrightarrow> k \<in> set fired) \<Longrightarrow> tracks k th keys counts fired'"
  by (simp add: tracks_def)

lemma failures_of_attempt:
  fixes a :: attempt_observation and th :: int
  assumes "tracks RepeatedFailure th keys counts fired" and "distinct fired"
  defines "res \<equiv> (if isHarnessFailure (ao_failureKind a) then (counts, fired, [])
                  else fold (failure_step th a) (ao_checks a) (counts, fired, []))"
  shows "tracks RepeatedFailure th (keys @ failing_keys a) (fst res) (fst (snd res))"
    "fires_once fired (snd res)" "k \<noteq> RepeatedFailure \<Longrightarrow> k \<in> set (fst (snd res)) \<longleftrightarrow> k \<in> set fired"
    "e \<in> set (snd (snd res)) \<Longrightarrow> se_kind e = RepeatedFailure"
proof -
  have start: "fires_once fired (fired, [])"
    using assms(2) by (simp add: fires_once_def)
  show "tracks RepeatedFailure th (keys @ failing_keys a) (fst res) (fst (snd res))"
    using assms(1) failure_steps_track [of th keys "(counts, fired, [])" "ao_checks a" a]
    by (auto simp: res_def failing_keys_def check_keys_def)
  show "fires_once fired (snd res)"
    using start failure_steps_others(1) [of fired "(counts, fired, [])"] by (simp add: res_def)
  show "k \<noteq> RepeatedFailure \<Longrightarrow> k \<in> set (fst (snd res)) \<longleftrightarrow> k \<in> set fired"
    using failure_steps_others(2) [of k th a "ao_checks a" "(counts, fired, [])"] by (simp add: res_def)
  show "e \<in> set (snd (snd res)) \<Longrightarrow> se_kind e = RepeatedFailure"
    using failure_steps_events [of e th a "ao_checks a" "(counts, fired, [])"] by (auto simp: res_def split: if_splits)
qed

lemma observeAttempt_watched:
  assumes st: "watched ow v as st" and d: "distinct (sl_fired st)"
    and run: "observeAttempt ow v st a = (st', evs)"
  shows "watched ow v (as @ [a]) st'" "fires_once (sl_fired st) (sl_fired st', evs)" "no_progress_at [a] evs"
proof -
  define th where "th = resolveStallThresholds v"
  define fails where "fails = (if isHarnessFailure (ao_failureKind a) then (sl_failureCounts st, sl_fired st, [])
                   else fold (failure_step (th_repeatedFailures th) a) (ao_checks a)
                          (sl_failureCounts st, sl_fired st, []))"
  define approaches where "approaches = approach_step (th_repeatedApproaches th) a (sl_approachCounts st, snd fails)"
  define progress where "progress = progress_step th a (sl_lastAttempt st) (sl_noProgressStreak st) (snd approaches)"
  define final where "final = drift_step ow a (snd progress)"
  have st': "sl_failureCounts st' = fst fails" "sl_approachCounts st' = fst approaches" "sl_fired st' = fst final"
    and evs: "evs = snd final"
    using run
    by (auto simp: observeAttempt_def Let_def simp flip: th_def fails_def approaches_def progress_def final_def)
  note f = failures_of_attempt [OF st [unfolded watched_def, THEN conjunct1, folded th_def] d, where a = a, folded fails_def]
  have apr: "tracks RepeatedApproach (th_repeatedApproaches th) (concat (map approach_keys as))
      (fst (sl_approachCounts st, snd fails)) (fst (snd (sl_approachCounts st, snd fails)))"
    using tracks_fired [OF st [unfolded watched_def, THEN conjunct2, THEN conjunct1, folded th_def],
        of "fst (snd fails)"] f(3) [of RepeatedApproach] by simp
  have kinds: "k \<in> set (fst final) \<longleftrightarrow> k \<in> set (fst (snd approaches))" if "k \<noteq> NoProgress" "k \<noteq> ScopeDrift" for k
    using that by (simp add: final_def progress_def drift_step_kinds(2) progress_step_others(2))
  have "tracks RepeatedFailure (th_repeatedFailures th) (concat (map failing_keys as) @ failing_keys a) (fst fails) (fst final)"
    using tracks_fired [OF f(1)] kinds [of RepeatedFailure]
    by (simp add: approaches_def approach_step_others(2))
  moreover have "tracks RepeatedApproach (th_repeatedApproaches th) (concat (map approach_keys as) @ approach_keys a)
      (fst approaches) (fst final)"
    using tracks_fired [OF approach_step_tracks [OF apr, of a]] kinds [of RepeatedApproach] by (simp add: approaches_def)
  moreover have "ScopeDrift \<in> set (fst final) \<longleftrightarrow>
      ScopeDrift \<in> set (sl_fired st) \<or> (\<exists>w. ow = Some w \<and> driftingWrites a w \<noteq> [])"
    using f(3) [of ScopeDrift]
    by (simp add: final_def progress_def approaches_def drift_step_kinds(2) progress_step_others(2) approach_step_others(2))
  ultimately show "watched ow v (as @ [a]) st'"
    using st by (auto simp: watched_def st' simp flip: th_def)
  have "fires_once (sl_fired st) (snd fails)"
    by (rule f(2))
  then show "fires_once (sl_fired st) (sl_fired st', evs)"
    unfolding st' evs by (simp add: final_def progress_def approaches_def drift_step_kinds(1) progress_step_others(1)
        approach_step_others(1))
  show "no_progress_at [a] evs"
    unfolding no_progress_at_def
  proof (intro ballI impI)
    fix e assume e: "e \<in> set evs" "se_kind e = NoProgress"
    then have "e \<in> set (snd (snd progress))"
      using drift_step_events [of e ow a "snd progress"] by (auto simp: evs final_def)
    moreover have "e \<notin> set (snd (snd approaches))"
      using approach_step_events [of e "th_repeatedApproaches th" a "(sl_approachCounts st, snd fails)"] f(4) [of e] e(2)
      by (auto simp: approaches_def)
    ultimately show "\<exists>b \<in> set [a]. idle_attempt b \<and> se_attemptId e = ao_attemptId b"
      using progress_step_events [of e th a "sl_lastAttempt st" "sl_noProgressStreak st" "snd approaches"]
        thresholds_positive(3) [of v] by (auto simp: progress_def th_def)
  qed
qed

lemma detectStalls_watched:
  "watched ow v as (fst (detectStalls ow v as)) \<and>
   sl_fired (fst (detectStalls ow v as)) = map se_kind (snd (detectStalls ow v as)) \<and>
   distinct (map se_kind (snd (detectStalls ow v as))) \<and> no_progress_at as (snd (detectStalls ow v as))"
proof (induction as rule: rev_induct)
  case Nil
  have "\<not> th \<le> 0" if "1 \<le> th" for th :: int
    using that by simp
  then show ?case
    using thresholds_positive(1,2) [of v]
    by (simp add: detectStalls_def EMPTY_STALL_STATE_def watched_def tracks_def counted_def seen_of_def reached_def
        no_progress_at_def)
next
  case (snoc a as)
  obtain st' evs where run: "observeAttempt ow v (fst (detectStalls ow v as)) a = (st', evs)"
    by fastforce
  have step: "detectStalls ow v (as @ [a]) = (st', snd (detectStalls ow v as) @ evs)"
    using run by (simp add: detectStalls_def detect_step_def)
  from snoc have "watched ow v as (fst (detectStalls ow v as))" "distinct (sl_fired (fst (detectStalls ow v as)))"
    by simp_all
  note obs = observeAttempt_watched [OF this run]
  show ?case
    using snoc obs unfolding step
    by (auto simp: fires_once_def no_progress_at_def)
qed

text \<open>
  C25. Over any stream of attempts each kind of stall is reported at most once; a repeated failure is
  reported exactly when some check failed the same way as often as the threshold says in attempts that
  were not cut off by the harness, a repeated approach exactly when a fingerprint came back often enough,
  drift exactly when a write left the declared ownership; and missing progress only at an attempt that
  the worker did take and that changed no file.
\<close>

theorem stalls_are_reported_once_and_exactly:
  assumes "detectStalls ow v as = (st, evs)"
  shows "distinct (map se_kind evs) \<and>
    (RepeatedFailure \<in> se_kind ` set evs \<longleftrightarrow>
       (\<exists>key. th_repeatedFailures (resolveStallThresholds v) \<le> int (count_list (concat (map failing_keys as)) key))) \<and>
    (RepeatedApproach \<in> se_kind ` set evs \<longleftrightarrow>
       (\<exists>key. th_repeatedApproaches (resolveStallThresholds v) \<le> int (count_list (concat (map approach_keys as)) key))) \<and>
    (ScopeDrift \<in> se_kind ` set evs \<longleftrightarrow> (\<exists>w. ow = Some w \<and> (\<exists>a \<in> set as. driftingWrites a w \<noteq> []))) \<and>
    (\<forall>ev \<in> set evs. se_kind ev = NoProgress \<longrightarrow> (\<exists>a \<in> set as. idle_attempt a \<and> se_attemptId ev = ao_attemptId a))"
proof -
  have "watched ow v as st" "sl_fired st = map se_kind evs" "distinct (map se_kind evs)" "no_progress_at as evs"
    using detectStalls_watched [of ow v as] assms by simp_all
  then show ?thesis
    by (simp add: watched_def tracks_def reached_def no_progress_at_def)
qed

definition fx_red :: "string \<Rightarrow> failure_kind \<Rightarrow> attempt_observation" where
  "fx_red i k = \<lparr>ao_attemptId = i, ao_taskId = ''t'', ao_approachFingerprint = None, ao_failureKind = k,
     ao_checks = [\<lparr>cb_checkId = ''c'', cb_status = CsFail,
       cb_check = \<lparr>ck_id = ''c'', ck_kind = CkCommand, ck_command = [], ck_cwd = [], ck_expectedExitCode = 0,
         ck_coversCriteria = [], ck_required = True\<rparr>, cb_failureSignature = None\<rparr>],
     ao_writes = [], ao_toolCalls = 1, ao_filesChanged = 0\<rparr>"

definition fx_stream :: "attempt_observation list" where
  "fx_stream = [fx_red ''1'' FkNone, fx_red ''2'' FkNone, fx_red ''3'' FkTruncated, fx_red ''4'' FkNone]"

lemma fx_stall_kinds: "map se_kind (snd (detectStalls None None fx_stream)) = [NoProgress, RepeatedFailure]"
  by code_simp

text \<open>The third failure counts only in the fourth attempt: the third was truncated.\<close>

theorem stalls_witness:
  "\<exists>key. 3 \<le> count_list (concat (map failing_keys fx_stream)) key"
proof -
  obtain st evs where run: "detectStalls None None fx_stream = (st, evs)"
    by fastforce
  then have "RepeatedFailure \<in> se_kind ` set evs"
    using fx_stall_kinds by (metis list.set_intros(1,2) list.set_map snd_conv)
  then show ?thesis
    using stalls_are_reported_once_and_exactly [OF run]
    by (simp add: resolveStallThresholds_def DEFAULT_STALL_THRESHOLDS_def)
qed

section \<open>Where code and documentation part\<close>

text \<open>
  A truncated turn is documented as one the worker never took, without a part in the streak; it resets
  the streak, so a worker that is cut off every other turn is never found to make no progress.
\<close>

theorem harness_turn_clears_the_streak:
  assumes "isHarnessFailure (ao_failureKind a)"
  shows "sl_noProgressStreak (fst (observeAttempt ow v st a)) = []"
proof -
  have "\<not> th_noProgressAttempts (resolveStallThresholds v) \<le> 0"
    using thresholds_positive(3) [of v] by simp
  with assms show ?thesis
    by (simp add: observeAttempt_def progress_step_def Let_def)
qed

lemma cut_off_every_other_turn:
  "snd (detectStalls None (Some \<lparr>to_repeatedFailures = Some (Finite 9), to_repeatedApproaches = None,
       to_noProgressAttempts = None, to_toolCallsWithoutChange = None\<rparr>)
     [fx_red ''1'' FkNone, fx_red ''2'' FkTruncated, fx_red ''3'' FkNone, fx_red ''4'' FkTruncated,
      fx_red ''5'' FkNone]) = []"
  by code_simp

end
