(* ===== verification/Failures.thy ===== *)
theory Failures
  imports AttemptBudget CheckEvidence
begin

text \<open>
  \<open>src/workflow/failure.ts\<close> and \<open>failure-classify.ts\<close>: the deterministic classification of a failure,
  what an undecided one asks for, the quota event, and the composition with Jev, whose answer (or the
  error it throws) is a parameter. The sentences that justify a classification are left out. Numbers
  read from a text are exact rationals.
\<close>

section \<open>Signals\<close>

datatype failure_category =
    FcImplementation | FcEnvironment | FcMissingInformation | FcDependency | FcTestExpectation
  | FcService | FcQuota | FcHarnessFailure | FcUnknown

datatype classification_source = FromRule | FromJev | FromFallback

record failure_classification =
  fl_category :: failure_category
  fl_confidence :: rat
  fl_rule :: string
  fl_source :: classification_source
  fl_needsEvidence :: bool
  fl_evidenceRequests :: "string list"

text \<open>An absent field and \<open>null\<close> are the same to the code.\<close>

record failure_signal =
  fs_exitCode :: "int option"
  fs_stderr :: "string option"
  fs_stdout :: "string option"
  fs_command :: "string option"
  fs_httpStatus :: "int option"
  fs_errorName :: "string option"
  fs_errorMessage :: "string option"
  fs_errorCode :: "string option"
  fs_checkStatus :: "check_run_status option"
  fs_turn :: "worker_turn_observation option"

definition line_feed :: string where
  "line_feed = [CHR 0x0A]"

definition texts_of :: "string option list \<Rightarrow> string list" where
  "texts_of parts = List.map_filter (\<lambda>p. p) parts"

definition signalText :: "failure_signal \<Rightarrow> string" where
  "signalText s = to_lower (join_str line_feed (filter (\<lambda>p. p \<noteq> [])
     (texts_of [fs_stderr s, fs_stdout s, fs_errorMessage s, fs_errorName s, fs_errorCode s])))"

definition firstMatch :: "string \<Rightarrow> string list \<Rightarrow> string option" where
  "firstMatch txt needles = find (\<lambda>needle. str_includes txt needle) needles"

definition QUOTA_PHRASES :: "string list" where
  "QUOTA_PHRASES = [''rate limit'', ''rate_limit'', ''ratelimit'', ''too many requests'', ''quota exceeded'',
     ''quota_exceeded'', ''insufficient_quota'', ''insufficient credit'', ''usage limit'', ''spend limit'',
     ''billing hard limit'', ''retry-after'']"

definition SERVICE_PHRASES :: "string list" where
  "SERVICE_PHRASES = [''internal server error'', ''bad gateway'', ''service unavailable'', ''gateway timeout'',
     ''upstream connect error'', ''connection reset'', ''socket hang up'', ''getaddrinfo'', ''dns lookup failed'',
     ''tls handshake'']"

definition ENVIRONMENT_ERROR_CODES :: "string list" where
  "ENVIRONMENT_ERROR_CODES = [''enoent'', ''eacces'', ''eperm'', ''enotdir'', ''eisdir'', ''emfile'', ''enospc'',
     ''erofs'', ''eaddrinuse'']"

definition SERVICE_ERROR_CODES :: "string list" where
  "SERVICE_ERROR_CODES = [''econnreset'', ''econnrefused'', ''enotfound'', ''etimedout'', ''epipe'', ''eai_again'']"

definition DEPENDENCY_PHRASES :: "string list" where
  "DEPENDENCY_PHRASES = [''cannot find module'', ''module not found'', ''could not resolve'', ''unresolved import'',
     ''no matching version found'', ''unmet peer dependency'', ''failed to resolve entry'',
     ''workspace package is not built'']"

definition TEST_EXPECTATION_PHRASES :: "string list" where
  "TEST_EXPECTATION_PHRASES = [''snapshot mismatch'', ''does not match stored snapshot'', ''obsolete snapshot'',
     ''snapshot file is outdated'', ''expected value to be (using ===)'']"

definition MISSING_INFORMATION_PHRASES :: "string list" where
  "MISSING_INFORMATION_PHRASES = [''missing information:'', ''needs information:'', ''requirement is ambiguous'',
     ''no acceptance criterion covers'', ''unspecified in the issue'']"

section \<open>The two error patterns\<close>

definition is_digit_char :: "char \<Rightarrow> bool" where
  "is_digit_char c \<longleftrightarrow> CHR ''0'' \<le> c \<and> c \<le> CHR ''9''"

definition is_word_char :: "char \<Rightarrow> bool" where
  "is_word_char c \<longleftrightarrow> is_digit_char c \<or> (CHR ''a'' \<le> c \<and> c \<le> CHR ''z'') \<or> (CHR ''A'' \<le> c \<and> c \<le> CHR ''Z'') \<or> c = CHR ''_''"

text \<open>\<open>RegExp.exec\<close>: the leftmost position where the pattern matches, given the character before it.\<close>

fun exec_at :: "(char option \<Rightarrow> string \<Rightarrow> string option) \<Rightarrow> char option \<Rightarrow> string \<Rightarrow> string option" where
  "exec_at match_here prev [] = match_here prev []"
| "exec_at match_here prev (c # s) =
     (case match_here prev (c # s) of Some r \<Rightarrow> Some r | None \<Rightarrow> exec_at match_here (Some c) s)"

definition word_end :: "string \<Rightarrow> bool" where
  "word_end s = (case s of [] \<Rightarrow> True | c # _ \<Rightarrow> \<not> is_word_char c)"

definition word_start :: "char option \<Rightarrow> bool" where
  "word_start prev = (case prev of None \<Rightarrow> True | Some c \<Rightarrow> \<not> is_word_char c)"

text \<open>\<open>/\berror ts\d{3,5}\b/\<close> and \<open>/\b(syntaxerror|parse error|unexpected token)\b/\<close>.\<close>

definition ts_error_here :: "char option \<Rightarrow> string \<Rightarrow> string option" where
  "ts_error_here prev s =
     (let ds = takeWhile is_digit_char (drop 8 s) in
      if word_start prev \<and> starts_with ''error ts'' s \<and> 3 \<le> length ds \<and> length ds \<le> 5 \<and>
         word_end (drop (8 + length ds) s)
      then Some (''error ts'' @ ds) else None)"

definition parse_error_here :: "char option \<Rightarrow> string \<Rightarrow> string option" where
  "parse_error_here prev s =
     (if word_start prev
      then find (\<lambda>w. starts_with w s \<and> word_end (drop (length w) s)) [''syntaxerror'', ''parse error'', ''unexpected token'']
      else None)"

section \<open>The rules\<close>

record failure_rule =
  ru_id :: string
  ru_category :: failure_category
  ru_match :: "failure_signal \<Rightarrow> string \<Rightarrow> string option"

definition rule_of :: "string \<Rightarrow> failure_category \<Rightarrow> (failure_signal \<Rightarrow> string \<Rightarrow> string option) \<Rightarrow> failure_rule" where
  "rule_of i cat f = \<lparr>ru_id = i, ru_category = cat, ru_match = f\<rparr>"

definition to_upper_code :: "string \<Rightarrow> string" where
  "to_upper_code s = map (\<lambda>c. if CHR ''a'' \<le> c \<and> c \<le> CHR ''z'' then char_of (of_char c - 32 :: nat) else c) s"

definition known_code :: "string list \<Rightarrow> failure_signal \<Rightarrow> string option" where
  "known_code codes s =
     (case fs_errorCode s of
        None \<Rightarrow> None
      | Some code \<Rightarrow> if to_lower code \<in> set codes then Some (to_upper_code (to_lower code)) else None)"

definition match_http :: "int \<Rightarrow> string \<Rightarrow> failure_signal \<Rightarrow> string \<Rightarrow> string option" where
  "match_http status label s txt = (if fs_httpStatus s = Some status then Some label else None)"

definition match_phrase :: "string list \<Rightarrow> failure_signal \<Rightarrow> string \<Rightarrow> string option" where
  "match_phrase phrases s txt = firstMatch txt phrases"

definition match_http_5xx :: "failure_signal \<Rightarrow> string \<Rightarrow> string option" where
  "match_http_5xx s txt =
     (case fs_httpStatus s of
        None \<Rightarrow> None
      | Some status \<Rightarrow> if 500 \<le> status \<and> status \<le> 599 then Some (''HTTP '' @ int_text status) else None)"

definition match_service_code :: "failure_signal \<Rightarrow> string \<Rightarrow> string option" where
  "match_service_code s txt = known_code SERVICE_ERROR_CODES s"

definition match_unavailable :: "failure_signal \<Rightarrow> string \<Rightarrow> string option" where
  "match_unavailable s txt =
     (if fs_checkStatus s = Some CsUnavailable then Some ''check status unavailable'' else None)"

definition match_command :: "failure_signal \<Rightarrow> string \<Rightarrow> string option" where
  "match_command s txt =
     (if fs_exitCode s = Some 127 \<or> str_includes txt ''command not found'' \<or>
         str_includes txt ''not recognized as an internal''
      then Some ''command not found'' else None)"

definition match_environment_code :: "failure_signal \<Rightarrow> string \<Rightarrow> string option" where
  "match_environment_code s txt =
     (case known_code ENVIRONMENT_ERROR_CODES s of
        Some code \<Rightarrow> Some code
      | None \<Rightarrow> map_option to_upper_code (firstMatch txt ENVIRONMENT_ERROR_CODES))"

definition match_compile :: "failure_signal \<Rightarrow> string \<Rightarrow> string option" where
  "match_compile s txt =
     (case exec_at ts_error_here None txt of
        Some m \<Rightarrow> Some m
      | None \<Rightarrow> exec_at parse_error_here None txt)"

definition FAILURE_RULES :: "failure_rule list" where
  "FAILURE_RULES =
     [rule_of ''rule:http-429-quota'' FcQuota (match_http 429 ''HTTP 429''),
      rule_of ''rule:http-402-quota'' FcQuota (match_http 402 ''HTTP 402''),
      rule_of ''rule:quota-phrase'' FcQuota (match_phrase QUOTA_PHRASES),
      rule_of ''rule:http-5xx-service'' FcService match_http_5xx,
      rule_of ''rule:service-error-code'' FcService match_service_code,
      rule_of ''rule:service-phrase'' FcService (match_phrase SERVICE_PHRASES),
      rule_of ''rule:check-unavailable'' FcEnvironment match_unavailable,
      rule_of ''rule:command-not-found'' FcEnvironment match_command,
      rule_of ''rule:environment-error-code'' FcEnvironment match_environment_code,
      rule_of ''rule:dependency-phrase'' FcDependency (match_phrase DEPENDENCY_PHRASES),
      rule_of ''rule:test-expectation-phrase'' FcTestExpectation (match_phrase TEST_EXPECTATION_PHRASES),
      rule_of ''rule:missing-information-marker'' FcMissingInformation (match_phrase MISSING_INFORMATION_PHRASES),
      rule_of ''rule:compile-error'' FcImplementation match_compile]"

section \<open>Unknown, and what it asks for\<close>

definition blank :: "string option \<Rightarrow> bool" where
  "blank v \<longleftrightarrow> (case v of None \<Rightarrow> True | Some s \<Rightarrow> js_trim s = [])"

definition evidenceRequestsFor :: "failure_signal \<Rightarrow> string list" where
  "evidenceRequestsFor s =
     (if fs_exitCode s = None then [''Re-run the failing command and record its exit code.''] else []) @
     (if blank (fs_stderr s) then [''Capture stderr from the failing command (it was empty or not recorded).''] else []) @
     (if blank (fs_stdout s) then [''Capture stdout from the failing command (it was empty or not recorded).''] else []) @
     (if blank (fs_command s)
      then [''Record the exact command, including its working directory, that produced the failure.''] else []) @
     (if fs_httpStatus s = None
      then [''If a remote call was involved, record the HTTP status and any Retry-After header.''] else []) @
     [''Re-run the same check at the same revision to establish whether the failure is reproducible or flaky.'']"

definition unknownClassification :: "failure_signal \<Rightarrow> classification_source \<Rightarrow> string \<Rightarrow> failure_classification" where
  "unknownClassification s source rule =
     \<lparr>fl_category = FcUnknown, fl_confidence = 0, fl_rule = rule, fl_source = source,
      fl_needsEvidence = True, fl_evidenceRequests = evidenceRequestsFor s\<rparr>"

definition NO_RULE_MATCHED :: string where
  "NO_RULE_MATCHED = ''unknown:no-rule-matched''"

section \<open>Classification by rules\<close>

record rule_result =
  rc_classification :: failure_classification
  rc_needsJev :: bool
  rc_turn :: "turn_classification option"

definition decided :: "failure_category \<Rightarrow> string \<Rightarrow> failure_classification" where
  "decided cat rule =
     \<lparr>fl_category = cat, fl_confidence = 1, fl_rule = rule, fl_source = FromRule,
      fl_needsEvidence = False, fl_evidenceRequests = []\<rparr>"

primrec kind_text :: "failure_kind \<Rightarrow> string" where
  "kind_text FkNone = ''none''"
| "kind_text FkTruncated = ''truncated''"
| "kind_text FkTimeout = ''timeout''"
| "kind_text FkTransportError = ''transport_error''"
| "kind_text FkCapped = ''capped''"
| "kind_text FkGap = ''gap''"

definition fires_on :: "failure_signal \<Rightarrow> string \<Rightarrow> failure_rule \<Rightarrow> bool" where
  "fires_on s txt r \<longleftrightarrow> ru_match r s txt \<noteq> None"

definition classify_text :: "failure_signal \<Rightarrow> turn_classification option \<Rightarrow> rule_result" where
  "classify_text s turn =
     (case find (fires_on s (signalText s)) FAILURE_RULES of
        Some r \<Rightarrow> \<lparr>rc_classification = decided (ru_category r) (ru_id r), rc_needsJev = False, rc_turn = turn\<rparr>
      | None \<Rightarrow> \<lparr>rc_classification = unknownClassification s FromFallback NO_RULE_MATCHED,
                 rc_needsJev = True, rc_turn = turn\<rparr>)"

definition classifyFailureByRules :: "failure_signal \<Rightarrow> rule_result" where
  "classifyFailureByRules s =
     (let turn = map_option classifyTurn (fs_turn s) in
      case turn of
        Some t \<Rightarrow>
          if tc_failureClass t = FcHarness
          then \<lparr>rc_classification =
                  decided (if tc_kind t = FkCapped then FcQuota else FcHarnessFailure) (''rule:turn-'' @ kind_text (tc_kind t)),
                rc_needsJev = False, rc_turn = turn\<rparr>
          else classify_text s turn
      | None \<Rightarrow> classify_text s turn)"

definition classifyFailure :: "failure_signal \<Rightarrow> failure_classification" where
  "classifyFailure s = rc_classification (classifyFailureByRules s)"

text \<open>A caught value: an \<open>Error\<close> with its name, message, code and status, a string, or anything else as JSON.\<close>

datatype caught =
    CaughtError string string "string option" "int option"
  | CaughtText string
  | CaughtOther string

fun signalFromError :: "caught \<Rightarrow> failure_signal \<Rightarrow> failure_signal" where
  "signalFromError (CaughtError name message code status) extra =
     extra\<lparr>fs_errorName := Some name, fs_errorMessage := Some message,
           fs_errorCode := (case code of None \<Rightarrow> fs_errorCode extra | Some c \<Rightarrow> Some c),
           fs_httpStatus := (case status of None \<Rightarrow> fs_httpStatus extra | Some n \<Rightarrow> Some n)\<rparr>"
| "signalFromError (CaughtText message) extra = extra\<lparr>fs_errorMessage := Some message\<rparr>"
| "signalFromError (CaughtOther json) extra = extra\<lparr>fs_errorMessage := Some json\<rparr>"

section \<open>Quota events\<close>

record quota_event =
  qe_providerId :: string
  qe_modelId :: string
  qe_routeKey :: string
  qe_retryAfterSeconds :: "rat option"
  qe_rule :: string

text \<open>
  \<open>/retry[-_ ]?after["']?\s*[:=]?\s*["']?(\d+(?:\.\d+)?)/i\<close> at one position of the lower-cased text.
  No optional part can take a character the next part needs, so the greedy choice is the only one.
\<close>

definition skip_one :: "char list \<Rightarrow> string \<Rightarrow> string" where
  "skip_one cs s = (case s of [] \<Rightarrow> [] | c # t \<Rightarrow> if c \<in> set cs then t else s)"

definition after_prefix :: "string \<Rightarrow> string \<Rightarrow> string option" where
  "after_prefix p s = (if starts_with p s then Some (drop (length p) s) else None)"

definition decimal_here :: "string \<Rightarrow> rat option" where
  "decimal_here s =
     (let ds = takeWhile is_digit_char s; rest = dropWhile is_digit_char s;
          fs = (case rest of [] \<Rightarrow> [] | c # t \<Rightarrow> if c = CHR ''.'' then takeWhile is_digit_char t else [])
      in if ds = [] then None
         else Some (of_nat (value_of_digits ds) + of_nat (value_of_digits fs) / 10 ^ length fs))"

definition retry_after_here :: "string \<Rightarrow> rat option" where
  "retry_after_here s =
     (case after_prefix ''retry'' s of
        None \<Rightarrow> None
      | Some s1 \<Rightarrow>
          (case after_prefix ''after'' (skip_one ''-_ '' s1) of
             None \<Rightarrow> None
           | Some s2 \<Rightarrow>
               decimal_here (skip_one [CHR 0x22, CHR 0x27] (dropWhile is_js_space (skip_one '':=''
                 (dropWhile is_js_space (skip_one [CHR 0x22, CHR 0x27] s2)))))))"

fun first_retry_after :: "string \<Rightarrow> rat option" where
  "first_retry_after [] = None"
| "first_retry_after (c # s) =
     (case retry_after_here (c # s) of Some n \<Rightarrow> Some n | None \<Rightarrow> first_retry_after s)"

definition parseRetryAfterSeconds :: "string option \<Rightarrow> rat option" where
  "parseRetryAfterSeconds txt = (case txt of None \<Rightarrow> None | Some t \<Rightarrow> first_retry_after (to_lower t))"

definition routeKey :: "string \<Rightarrow> string \<Rightarrow> string" where
  "routeKey providerId modelId = providerId @ ''::'' @ modelId"

definition quotaEventFor :: "failure_classification \<Rightarrow> failure_signal \<Rightarrow> string \<Rightarrow> string \<Rightarrow> quota_event option" where
  "quotaEventFor c s providerId modelId =
     (if fl_category c \<noteq> FcQuota then None
      else Some \<lparr>qe_providerId = providerId, qe_modelId = modelId, qe_routeKey = routeKey providerId modelId,
                 qe_retryAfterSeconds = parseRetryAfterSeconds
                   (Some (join_str line_feed (texts_of [fs_stderr s, fs_stdout s, fs_errorMessage s]))),
                 qe_rule = fl_rule c\<rparr>)"

section \<open>Asking Jev for the rest\<close>

definition CLASSIFY_TAIL_BYTES :: nat where
  "CLASSIFY_TAIL_BYTES = 2000"

definition tail_of :: "string option \<Rightarrow> string" where
  "tail_of v = (let s = (case v of None \<Rightarrow> [] | Some t \<Rightarrow> t) in
     if length s \<le> CLASSIFY_TAIL_BYTES then s else drop (length s - CLASSIFY_TAIL_BYTES) s)"

record classify_state =
  cy_command :: string
  cy_exitCode :: "int option"
  cy_stderrTail :: string
  cy_stdoutTail :: string
  cy_taskGoal :: string

definition failureClassifyState :: "failure_signal \<Rightarrow> string \<Rightarrow> classify_state" where
  "failureClassifyState s goal =
     \<lparr>cy_command = (case fs_command s of None \<Rightarrow> [] | Some c \<Rightarrow> c), cy_exitCode = fs_exitCode s,
      cy_stderrTail = tail_of (fs_stderr s), cy_stdoutTail = tail_of (fs_stdout s), cy_taskGoal = goal\<rparr>"

text \<open>What \<open>ask\<close> resolves to; it rejects with \<open>None\<close>.\<close>

record ask_result =
  ak_fromJev :: bool
  ak_value :: failure_category
  ak_rule :: string
  ak_confidence :: "rat option"

definition TRANSPORT_ERROR_RULE :: string where
  "TRANSPORT_ERROR_RULE = ''failure.classify:transport_error''"

definition classifyFailureWithJev ::
  "(classify_state \<Rightarrow> ask_result option) \<Rightarrow> failure_signal \<Rightarrow> string option \<Rightarrow> failure_classification"
where
  "classifyFailureWithJev ask s taskGoal =
     (let ruled = classifyFailureByRules s in
      if \<not> rc_needsJev ruled then rc_classification ruled
      else case ask (failureClassifyState s (case taskGoal of None \<Rightarrow> [] | Some g \<Rightarrow> g)) of
        None \<Rightarrow> unknownClassification s FromFallback TRANSPORT_ERROR_RULE
      | Some r \<Rightarrow>
          if \<not> ak_fromJev r \<or> ak_value r = FcUnknown
          then unknownClassification s (if ak_fromJev r then FromJev else FromFallback) (ak_rule r)
          else \<lparr>fl_category = ak_value r,
                fl_confidence = (case ak_confidence r of None \<Rightarrow> 0 | Some p \<Rightarrow> p), fl_rule = ak_rule r,
                fl_source = FromJev, fl_needsEvidence = False, fl_evidenceRequests = []\<rparr>)"

section \<open>Properties\<close>

lemma evidence_is_asked_for: "evidenceRequestsFor s \<noteq> []"
  by (simp add: evidenceRequestsFor_def)

lemma rule_categories: "ru_category r \<noteq> FcUnknown" if "r \<in> set FAILURE_RULES"
  using that by (auto simp: FAILURE_RULES_def rule_of_def)

lemma find_first:
  "find P xs = Some x \<longleftrightarrow> (\<exists>us vs. xs = us @ x # vs \<and> P x \<and> (\<forall>y \<in> set us. \<not> P y))"
proof
  show "find P xs = Some x \<Longrightarrow> \<exists>us vs. xs = us @ x # vs \<and> P x \<and> (\<forall>y \<in> set us. \<not> P y)"
  proof (induction xs)
    case (Cons y ys)
    show ?case
    proof (cases "P y")
      case True
      with Cons.prems show ?thesis
        by (intro exI [of _ "[]"] exI [of _ ys]) simp
    next
      case False
      with Cons obtain us vs where "ys = us @ x # vs" "P x" "\<forall>y \<in> set us. \<not> P y"
        by auto
      with False show ?thesis
        by (intro exI [of _ "y # us"] exI [of _ vs]) simp
    qed
  qed simp
next
  assume "\<exists>us vs. xs = us @ x # vs \<and> P x \<and> (\<forall>y \<in> set us. \<not> P y)"
  then obtain us vs where parts: "xs = us @ x # vs" "P x" "\<forall>y \<in> set us. \<not> P y"
    by blast
  from parts(3) have "find P (us @ x # vs) = Some x"
    by (induction us) (simp_all add: parts(2))
  then show "find P xs = Some x"
    by (simp add: parts(1))
qed

text \<open>What the rules decide: a cut-off turn, or the first rule that matches.\<close>

definition harness_turn :: "failure_signal \<Rightarrow> bool" where
  "harness_turn s \<longleftrightarrow> (\<exists>ob. fs_turn s = Some ob \<and> tc_failureClass (classifyTurn ob) = FcHarness)"

definition first_matching_rule :: "failure_signal \<Rightarrow> failure_rule \<Rightarrow> bool" where
  "first_matching_rule s r \<longleftrightarrow>
     (\<exists>us vs. FAILURE_RULES = us @ r # vs \<and> ru_match r s (signalText s) \<noteq> None \<and>
        (\<forall>q \<in> set us. ru_match q s (signalText s) = None))"

lemma first_matching_rule_find: "find (fires_on s (signalText s)) FAILURE_RULES = Some r \<longleftrightarrow> first_matching_rule s r"
  by (simp add: find_first first_matching_rule_def fires_on_def)

lemma no_turn_is_capped: "tc_kind (classifyTurn ob) \<noteq> FkCapped"
  by (simp add: classifyTurn_def)

lemma byRules_harness:
  assumes "harness_turn s"
  obtains kind where "classifyFailureWithJev ask s goal = decided FcHarnessFailure (''rule:turn-'' @ kind_text kind)"
proof -
  obtain ob where "fs_turn s = Some ob" "tc_failureClass (classifyTurn ob) = FcHarness"
    using assms unfolding harness_turn_def by blast
  then have "classifyFailureWithJev ask s goal = decided FcHarnessFailure (''rule:turn-'' @ kind_text (tc_kind (classifyTurn ob)))"
    by (simp add: classifyFailureWithJev_def classifyFailureByRules_def no_turn_is_capped)
  then show thesis
    by (rule that)
qed

lemma byRules_text:
  assumes "\<not> harness_turn s"
  shows "classifyFailureByRules s = classify_text s (map_option classifyTurn (fs_turn s))"
  using assms by (cases "fs_turn s") (simp_all add: classifyFailureByRules_def harness_turn_def Let_def)

lemma unknown_sel [simp]:
  "fl_category (unknownClassification s src rule) = FcUnknown" "fl_confidence (unknownClassification s src rule) = 0"
  "fl_source (unknownClassification s src rule) = src" "fl_needsEvidence (unknownClassification s src rule)"
  "fl_evidenceRequests (unknownClassification s src rule) = evidenceRequestsFor s"
  by (simp_all add: unknownClassification_def)

text \<open>
  C36. A failure is classified by the first rule that matches, and Jev is asked only when none does:
  whatever Jev answers, a decided category stays and a cut-off turn is a harness failure without a look
  at its text. Without a rule no answer is recorded as one, and the verdict \<open>unknown\<close> always, and
  no other, needs evidence, with confidence zero and observations to make.
\<close>

theorem rules_decide_before_jev:
  shows "(harness_turn s \<longrightarrow> fl_category (classifyFailureWithJev ask s goal) = FcHarnessFailure) \<and>
    (\<forall>r. \<not> harness_turn s \<longrightarrow> first_matching_rule s r \<longrightarrow>
       classifyFailureWithJev ask s goal = decided (ru_category r) (ru_id r)) \<and>
    (fl_source (classifyFailureWithJev ask s goal) = FromRule \<longleftrightarrow> harness_turn s \<or> (\<exists>r. first_matching_rule s r)) \<and>
    (fl_category (classifyFailureWithJev ask s goal) = FcUnknown \<longleftrightarrow> fl_needsEvidence (classifyFailureWithJev ask s goal)) \<and>
    (fl_needsEvidence (classifyFailureWithJev ask s goal) \<longrightarrow>
       fl_evidenceRequests (classifyFailureWithJev ask s goal) \<noteq> [] \<and> fl_confidence (classifyFailureWithJev ask s goal) = 0)"
proof (cases "harness_turn s")
  case True
  then obtain kind where "classifyFailureWithJev ask s goal = decided FcHarnessFailure (''rule:turn-'' @ kind_text kind)"
    by (rule byRules_harness)
  with True show ?thesis
    by (simp add: decided_def)
next
  case False
  note rules = byRules_text [OF False]
  show ?thesis
  proof (cases "find (fires_on s (signalText s)) FAILURE_RULES")
    case (Some r)
    then have "classifyFailureWithJev ask s goal = decided (ru_category r) (ru_id r)"
      by (simp add: classifyFailureWithJev_def rules classify_text_def)
    moreover have "ru_category r \<noteq> FcUnknown"
      using Some rule_categories by (auto dest: find_Some_D)
    moreover have "first_matching_rule s q \<longleftrightarrow> q = r" for q
      using Some by (auto simp flip: first_matching_rule_find)
    ultimately show ?thesis
      using False by (auto simp: decided_def)
  next
    case None
    then have "\<not> first_matching_rule s r" for r
      by (simp flip: first_matching_rule_find)
    moreover have "classifyFailureWithJev ask s goal =
        (case ask (failureClassifyState s (case goal of None \<Rightarrow> [] | Some g \<Rightarrow> g)) of
        None \<Rightarrow> unknownClassification s FromFallback TRANSPORT_ERROR_RULE
      | Some r \<Rightarrow>
          if \<not> ak_fromJev r \<or> ak_value r = FcUnknown
          then unknownClassification s (if ak_fromJev r then FromJev else FromFallback) (ak_rule r)
          else \<lparr>fl_category = ak_value r,
                fl_confidence = (case ak_confidence r of None \<Rightarrow> 0 | Some p \<Rightarrow> p), fl_rule = ak_rule r,
                fl_source = FromJev, fl_needsEvidence = False, fl_evidenceRequests = []\<rparr>)"
      using None by (simp add: classifyFailureWithJev_def rules classify_text_def)
    ultimately show ?thesis
      using False by (auto simp: evidence_is_asked_for split: option.splits)
  qed
qed

text \<open>A quota event is built for a quota failure and for no other, keyed by the route that failed.\<close>

lemma quota_event_iff:
  "quotaEventFor c s p m = Some ev \<Longrightarrow> fl_category c = FcQuota \<and> qe_providerId ev = p \<and> qe_modelId ev = m"
  "quotaEventFor c s p m = None \<longleftrightarrow> fl_category c \<noteq> FcQuota"
  by (auto simp: quotaEventFor_def split: if_splits)

definition fx_signal :: failure_signal where
  "fx_signal = \<lparr>fs_exitCode = Some 1, fs_stderr = Some ''Retry-After: 5'', fs_stdout = None, fs_command = None,
     fs_httpStatus = Some 503, fs_errorName = None, fs_errorMessage = None, fs_errorCode = None,
     fs_checkStatus = None, fs_turn = None\<rparr>"

lemma fx_quota:
  "classifyFailure fx_signal = decided FcQuota ''rule:quota-phrase'' \<and> fs_turn fx_signal = None \<and>
   map_option qe_retryAfterSeconds (quotaEventFor (classifyFailure fx_signal) fx_signal ''p'' ''m'') = Some (Some 5) \<and>
   map_option ru_id (find (fires_on fx_signal (signalText fx_signal)) FAILURE_RULES) = Some ''rule:quota-phrase''"
  by code_simp

theorem rules_witness:
  "\<exists>r :: failure_rule. ru_id r = ''rule:quota-phrase'' \<and> (\<forall>ask. classifyFailureWithJev ask fx_signal None = decided (ru_category r) (ru_id r))"
proof -
  obtain r where "first_matching_rule fx_signal r" "ru_id r = ''rule:quota-phrase''"
    using fx_quota by (auto simp: first_matching_rule_find)
  moreover have "\<not> harness_turn fx_signal"
    using fx_quota by (simp add: harness_turn_def)
  ultimately have "classifyFailureWithJev ask fx_signal None = decided (ru_category r) (ru_id r)" for ask
    using rules_decide_before_jev [where s = fx_signal and ask = ask and goal = None] by blast
  with \<open>ru_id r = ''rule:quota-phrase''\<close> show ?thesis
    by blast
qed

section \<open>Where code and documentation part\<close>

text \<open>
  The quota event is documented not to pause a route on a service error; a 503 that carries a
  \<open>Retry-After\<close> header is classified as quota by the phrase rule, before its status is looked at.
\<close>

theorem unavailable_service_pauses_the_route:
  "fs_httpStatus fx_signal = Some 503 \<and> quotaEventFor (classifyFailure fx_signal) fx_signal ''p'' ''m'' \<noteq> None"
  using fx_quota by (simp add: quota_event_iff decided_def fx_signal_def)

text \<open>Two routes can have one availability key.\<close>

theorem quota_keys_collide: "routeKey ''a::b'' ''c'' = routeKey ''a'' ''b::c''"
  by (simp add: routeKey_def)

end
