(* ===== verification/Spec2Isabelle.thy ===== *)
theory Spec2Isabelle
  imports TaskTransitions PhaseTransitions Blockers Graph WeakChecks TaskGateProperties
    AttemptBudget GlobPatterns Coupling Scheduler BudgetStops Resilience Invalidation CapPause
    CheckRuns OutputBudget Stall Failures
begin

text \<open>
  KorWF-Pi is an extension of a coding-agent host that drives a plan of phases and tasks to
  completion: a scheduler hands ready tasks to worker sessions, a state machine is the only writer
  of task and phase status, a verification gate decides when a task may be \<open>done\<close>, and everything
  durable is a row of one SQLite store. This development models the engine's own logic, under
  \<open>src/\<close> of the TypeScript sources, as executable functions, and proves the promises its comments
  and documents make about it.

  How the parts meet. The scheduler (\<open>workflow/scheduler.ts\<close>) reads the task graph
  (\<open>workflow/graph.ts\<close>) and the declared ownership (\<open>workflow/coupling.ts\<close>), and claims a task with
  the state machine (\<open>workflow/state.ts\<close>). What the worker returns is charged to the attempt budget
  (\<open>workflow/attempt-budget.ts\<close>). Completion goes through the gate (\<open>verification/task-gate.ts\<close>), which
  reads checks, evidence and reviews, and writes a receipt; the state machine accepts \<open>done\<close> only with
  that receipt, which the store (\<open>storage/\<close>) lets be spent once.

  Conventions. A method that may throw is an effect \<open>world \<Rightarrow> (failure + 'a) \<times> world\<close>; the world after a
  throw is kept, and \<open>store_write\<close> rolls the database back at the outermost level as SQLite does. A
  table is the list of its rows in insertion order. The clock, the id generator and SHA-256 are
  functions in the environment record; time stamps, ids and hashes are texts. Strings are lists of
  one-byte characters. A promise-returning call is run to its end at the point where it is awaited,
  except in the scheduler's loop. Error messages and detail texts are left out, error codes are kept.

  The theories.
  \<^item> KorwfPrelude, JsText: effects, keyed row tables, JavaScript string and array methods; the locales
    \<open>row_table\<close> (a table with get, add and put) and \<open>stepwise_invariant\<close>.
  \<^item> StoreRecords, Transitions, Payloads, Store: the records of \<open>storage/records.ts\<close>; the two transition
    tables of \<open>workflow/transitions.ts\<close> (locale \<open>transition_table\<close>, interpreted on both); what is hashed;
    the write transaction, repositories (locale \<open>repository\<close>, interpreted on five tables), the record
    rules of \<open>storage/repos/index.ts\<close>, receipts, blockers and the event log, and the relation
    \<open>history_extends\<close> that every operation keeps (locale \<open>db_relation\<close>).
  \<^item> StateMachine, TaskTransitions, PhaseTransitions, Blockers: \<open>transitionTask\<close>, \<open>transitionPhase\<close>,
    \<open>advanceGatingSubstage\<close> and the operations of \<open>workflow/blockers.ts\<close>. The lemmas say what an accepted
    request established and wrote, that a refused one changed nothing but one logged event, that guards
    fail closed and that \<open>done\<close> needs a passing, unspent receipt for the same revision.
  \<^item> Graph, WeakChecks: the cycle search with its explicit stack (termination by a measure, correctness by
    an invariant of the search), validation, ready set and topological order; the shell-text classifier
    that tells checks which cannot fail, shown equal to the semantics of \<open>&&\<close>, \<open>||\<close> and \<open>;\<close>.
  \<^item> CheckEvidence, ReviewGate, TaskGate, TaskGateProperties: run status of a check, the review policy and
    verdict, the four gate conditions, the receipt and \<open>completeTask\<close>. A pass is shown to prove the
    deterministic facts it names, and Jev's answers to be unable to replace them.
  \<^item> CheckRuns: \<open>verification/checks.ts\<close> and \<open>flaky.ts\<close>. A passing run is shown to be a command that ran to its
    own end, the walk over the process table to find exactly the processes below the root, and the gate to
    read from the stored rows exactly the reconciled state of several runs.
  \<^item> OutputBudget: \<open>workflow/output-budget.ts\<close>. The production steps of an artifact cover it exactly, fit one
    turn each, and are as few as possible.
  \<^item> Stall, Failures: \<open>workflow/stall.ts\<close>, \<open>failure.ts\<close> and \<open>failure-classify.ts\<close>. A stall is reported once
    and exactly when its threshold is reached, and rules decide before Jev is asked.
  \<^item> AttemptBudget: classification of worker turns, the three limits, and a bound on the number of turns.
  \<^item> GlobPatterns, Coupling: pattern intersection with its memo tables threaded through, shown equal to
    the memo-free recursion and exact against a matching semantics; ownership conflicts, the verdict
    cache, the decision for a pair, the batch, the rule on where a worker may write.
  \<^item> Scheduler: one pass, the claim, the reservations, and the loop as a step relation in which workers
    settle in any order and the store may change in any way while the loop waits.
  \<^item> Ledger, RunPhases, BudgetStops: \<open>telemetry/ledger.ts\<close> with the reservation rules over every scope and
    cap, \<open>workflow/run.ts\<close> and \<open>workflow/budget-stops.ts\<close>. A granted reservation is shown to fit every cap,
    any interleaving of reservations and settlements to keep the ledger's invariant, a stop to leave every
    phase resumable, and a reached cap to let nothing be dispatched.
  \<^item> ApprovalClasses, Approvals, Invalidation: \<open>workflow/approval-classes.ts\<close>, the request queue of
    \<open>storage/approval-requests.ts\<close> with \<open>workflow/approvals.ts\<close>, and \<open>workflow/invalidation.ts\<close>. Dispositions
    only tighten; over any run (the relation \<open>desk_step\<close>) an approval is the single answer to a recorded
    question, on its terms, and a spent one covers nothing; an invalidation blocks what it affects.
  \<^item> Routes, Selection, CapPause: \<open>models/route.ts\<close>, \<open>availability.ts\<close>, \<open>catalog.ts\<close>; \<open>select.ts\<close>, \<open>pins.ts\<close>,
    \<open>fallback.ts\<close>; \<open>cap-pause.ts\<close>. Whatever Jev answers, a selected model is configured, in scope, allowed, within
    the budget and on an open route; a pin is never replaced; a task paused for caps comes back only when a
    route it waits for is open and nothing else holds it.
  \<^item> Resilience: the retry, deadline and circuit breaker of \<open>jev/resilience.ts\<close>; the breaker's state is shown
    to be that of the failures since the last success, whatever the order in which outcomes are reported.
  \<^item> JsDate: the part of \<open>Date\<close> that time-to-live arithmetic uses, on the texts \<open>toISOString\<close> writes.
  \<^item> Fixtures: concrete worlds on which the witnesses evaluate the definitions.

  Bounds. No fuel is used: every recursion terminates by a measure. The scheduler's loop need not end and
  is a relation. Revisions and counters are natural numbers without a bound, where JavaScript has doubles;
  they stay far below \<open>2^53\<close>.

  Findings proved beside the model: \<open>piped_alternative_never_fails\<close> and \<open>early_exit_never_fails\<close>
  (WeakChecks), \<open>order_lists_cyclic_ids\<close> and \<open>ready_on_a_cycle\<close> (Graph), \<open>phase_blocker_raised_twice\<close> and
  \<open>nested_refusal_leaves_no_event\<close> (Blockers), \<open>phase_done_from_first_substage\<close> (PhaseTransitions),
  \<open>author_may_clear_a_blocker\<close> (ReviewGate), \<open>allow_flaky_has_no_effect\<close> and
  \<open>pass_although_a_run_failed\<close> (CheckRuns), \<open>harness_turn_clears_the_streak\<close> (Stall),
  \<open>unavailable_service_pauses_the_route\<close>, \<open>quota_keys_collide\<close> and \<open>no_turn_is_capped\<close> (Failures), \<open>implementer_reviews_without_author\<close> (TaskGateProperties),
  \<open>nonprintable_class_missed\<close> and \<open>normalise_not_idempotent\<close> (GlobPatterns),
  \<open>ownership_edit_keeps_the_verdict\<close> (Coupling), \<open>proposed_task_starves_a_ready_one\<close>,
  \<open>thrown_claim_keeps_the_reservation\<close>, \<open>misreported_outcome_stays_in_flight\<close> and
  \<open>untrimmed_components_differ\<close> (Scheduler), \<open>cumulative_cap_can_clear\<close> (Ledger),
  \<open>breach_of_a_later_phase_is_not_checked\<close> and \<open>resume_into_the_same_refusal\<close> (BudgetStops),
  \<open>less_restrictive_class_wins\<close> (ApprovalClasses), \<open>different_acts_same_key\<close>,
  \<open>expired_question_blocks_asking\<close>, \<open>denied_question_is_asked_again\<close>, \<open>revoke_keeps_the_questions\<close>,
  \<open>approval_outlives_mode_and_policy\<close> and \<open>change_class_is_the_first\<close> (Approvals),
  \<open>consumed_event_voids_the_others\<close>, \<open>sibling_keeps_running\<close> and \<open>blocked_task_keeps_its_field\<close>
  (Invalidation), \<open>no_adequate_pause_is_resumable\<close>, \<open>waits_for_an_open_primary\<close> and
  \<open>provider_key_with_slash\<close> (Selection), \<open>second_capped_task_is_not_paused\<close> and
  \<open>paused_phase_resumes\<close> (CapPause),
  \<open>exhausted_retries_answer_the_error\<close>, \<open>disabled_transport_counts_as_failing\<close>,
  \<open>late_cancel_frees_the_probe_slot\<close> and \<open>late_success_closes_an_open_breaker\<close> (Resilience).

  Not modelled, or parameters: process, git, file and network I/O; the host's session; the Jev service
  (its answers are rows of the decisions table or functions passed in); planning and its
  prompts; model cards and the detection of caps in provider answers; redaction; configuration schemas; user
  interface. The hooks a caller injects
  into the gate and the scheduler are arguments of the definitions, as they are in the code.
\<close>

end
